(* ===== verification/Prelude.thy ===== *)
theory Prelude
  imports Main "HOL-Library.Word" "HOL-Library.AList" "HOL-Library.List_Lexorder"
    "HOL-Library.Char_ord"
begin

text \<open>
  What every component of the development shares: the names of the Rust types,
  the \<open>Result\<close> type and its traversals, hash maps as association lists, and the
  fact collections the component proofs are built on.
\<close>

section \<open>Fact collections\<close>

named_theorems codec_simps \<open>encode/decode equations of the wire conversions\<close>
named_theorems eval_simps \<open>branch equations of the evaluation functions\<close>
named_theorems store_simps \<open>equations of the configuration store\<close>

section \<open>Rust types\<close>

text \<open>
  A \<open>String\<close> is its list of UTF-8 bytes; \<open>str\<close> comparison in Rust is lexicographic on
  bytes, which is the order of \<open>List_Lexorder\<close> over \<open>Char_ord\<close>. A machine integer keeps
  its width; \<open>i64\<close> is read through \<^const>\<open>sint\<close>.
\<close>

type_synonym u8 = "8 word"
type_synonym u32 = "32 word"
type_synonym u64 = "64 word"
type_synonym i64 = "64 word"

section \<open>Result: errors as the left side of a sum\<close>

type_synonym ('e, 'a) result = "'e + 'a"

abbreviation Err :: "'e \<Rightarrow> ('e, 'a) result" where
  "Err \<equiv> Inl"

abbreviation Ok :: "'a \<Rightarrow> ('e, 'a) result" where
  "Ok \<equiv> Inr"

definition is_ok :: "('e, 'a) result \<Rightarrow> bool" where
  "is_ok r = (case r of Err _ \<Rightarrow> False | Ok _ \<Rightarrow> True)"

lemma is_ok_simps [simp]: "is_ok (Ok a)" "\<not> is_ok (Err e)"
  by (simp_all add: is_ok_def)

lemma is_ok_iff: "is_ok r \<longleftrightarrow> (\<exists>a. r = Ok a)"
  by (cases r) simp_all

text \<open>
  \<open>iter().map(f).collect::<Result<Vec<_>, _>>()\<close>: the first error in list order wins,
  otherwise the results in order.
\<close>

fun traverse :: "('a \<Rightarrow> ('e, 'b) result) \<Rightarrow> 'a list \<Rightarrow> ('e, 'b list) result" where
  "traverse f [] = Ok []"
| "traverse f (x # xs) =
     (case f x of
        Err e \<Rightarrow> Err e
      | Ok y \<Rightarrow> (case traverse f xs of Err e \<Rightarrow> Err e | Ok ys \<Rightarrow> Ok (y # ys)))"

lemma traverse_cong [fundef_cong]:
  "xs = ys \<Longrightarrow> (\<And>x. x \<in> set ys \<Longrightarrow> f x = g x) \<Longrightarrow> traverse f xs = traverse g ys"
proof (induction xs arbitrary: ys)
  case Nil
  then show ?case by simp
next
  case (Cons x xs)
  from Cons.prems have ys: "ys = x # xs" and fx: "f x = g x"
    and rest: "\<And>z. z \<in> set xs \<Longrightarrow> f z = g z" by auto
  have "traverse f xs = traverse g xs"
    by (rule Cons.IH) (simp_all add: rest)
  then show ?case by (simp only: ys fx traverse.simps)
qed

lemma traverse_Ok_map: "(\<And>x. x \<in> set xs \<Longrightarrow> f x = Ok (g x)) \<Longrightarrow> traverse f xs = Ok (map g xs)"
  by (induction xs) auto

lemma traverse_Ok_iff:
  "traverse f xs = Ok ys \<longleftrightarrow> list_all2 (\<lambda>x y. f x = Ok y) xs ys"
proof (induction xs arbitrary: ys)
  case Nil
  show ?case by auto
next
  case (Cons x xs)
  have "traverse f (x # xs) = Ok ys \<longleftrightarrow>
      (\<exists>z zs. f x = Ok z \<and> traverse f xs = Ok zs \<and> ys = z # zs)"
    by (auto split: sum.splits)
  then show ?case by (auto simp: Cons.IH list_all2_Cons1)
qed

lemma traverse_map: "traverse f (map g xs) = traverse (\<lambda>x. f (g x)) xs"
  by (induction xs) (auto split: sum.splits)

lemma traverse_is_ok: "is_ok (traverse f xs) \<longleftrightarrow> list_all (\<lambda>x. is_ok (f x)) xs"
  by (induction xs) (auto split: sum.splits)

text \<open>A loop of checks that returns at the first failing one.\<close>

fun check_all :: "('a \<Rightarrow> ('e, unit) result) \<Rightarrow> 'a list \<Rightarrow> ('e, unit) result" where
  "check_all f [] = Ok ()"
| "check_all f (x # xs) = (case f x of Err e \<Rightarrow> Err e | Ok _ \<Rightarrow> check_all f xs)"

lemma check_all_Ok_iff [simp]: "check_all f xs = Ok () \<longleftrightarrow> (\<forall>x\<in>set xs. f x = Ok ())"
  by (induction xs) (auto split: sum.splits)

lemma check_then_Ok_iff:
  "(case r of Err e \<Rightarrow> Err e | Ok (_ :: unit) \<Rightarrow> q) = Ok a \<longleftrightarrow> r = Ok () \<and> q = Ok a"
  by (cases r) auto

lemma unit_result_cases: "(r :: ('e, unit) result) = Ok () \<or> (\<exists>e. r = Err e)"
  by (cases r) auto

lemma all_enumerate: "(\<forall>p\<in>set (List.enumerate n xs). P (snd p)) \<longleftrightarrow> (\<forall>x\<in>set xs. P x)"
  by (induction xs arbitrary: n) auto

lemma fold_map_last:
  "xs \<noteq> [] \<Longrightarrow> fold f (map g xs) s = f (g (last xs)) (fold f (map g (butlast xs)) s)"
  by (induction xs rule: rev_induct) simp_all

section \<open>Hash maps as association lists\<close>

text \<open>
  A \<open>HashMap<String, V>\<close> is an association list with distinct keys. The list order is the
  order in which one run iterates over the map: Rust leaves that order open, so a
  statement about every list is a statement about every iteration order. \<open>get\<close> is
  \<^const>\<open>map_of\<close>, \<open>insert\<close> is \<^const>\<open>AList.update\<close>, \<open>keys()\<close> and \<open>values()\<close> are
  \<open>map fst\<close> and \<open>map snd\<close>.
\<close>

type_synonym 'v hmap = "(string \<times> 'v) list"

abbreviation hget :: "'v hmap \<Rightarrow> string \<Rightarrow> 'v option" where
  "hget \<equiv> map_of"

abbreviation hinsert :: "string \<Rightarrow> 'v \<Rightarrow> 'v hmap \<Rightarrow> 'v hmap" where
  "hinsert \<equiv> AList.update"

abbreviation hkeys :: "'v hmap \<Rightarrow> string list" where
  "hkeys m \<equiv> map fst m"

abbreviation hvalues :: "'v hmap \<Rightarrow> 'v list" where
  "hvalues m \<equiv> map snd m"

abbreviation hwf :: "'v hmap \<Rightarrow> bool" where
  "hwf m \<equiv> distinct (map fst m)"

locale keyed_map =
  fixes get :: "'m \<Rightarrow> 'k \<Rightarrow> 'v option"
    and put :: "'k \<Rightarrow> 'v \<Rightarrow> 'm \<Rightarrow> 'm"
    and wf :: "'m \<Rightarrow> bool"
  assumes get_put: "get (put k v m) j = (if j = k then Some v else get m j)"
    and wf_put: "wf m \<Longrightarrow> wf (put k v m)"
begin

text \<open>Filling a map from a list of items keeps the last item of each key.\<close>

definition fill :: "('x \<Rightarrow> 'k) \<Rightarrow> ('x \<Rightarrow> 'v) \<Rightarrow> 'x list \<Rightarrow> 'm \<Rightarrow> 'm" where
  "fill key val xs m = foldl (\<lambda>m x. put (key x) (val x) m) m xs"

lemma wf_fill: "wf m \<Longrightarrow> wf (fill key val xs m)"
  by (induction xs arbitrary: m) (auto simp: fill_def wf_put)

lemma get_fill_other: "k \<notin> key ` set xs \<Longrightarrow> get (fill key val xs m) k = get m k"
  by (induction xs arbitrary: m) (auto simp: fill_def get_put)

lemma get_fill_distinct:
  "distinct (map key xs) \<Longrightarrow> x \<in> set xs \<Longrightarrow> get (fill key val xs m) (key x) = Some (val x)"
proof (induction xs arbitrary: m)
  case Nil
  then show ?case by simp
next
  case (Cons y xs)
  show ?case
  proof (cases "x = y")
    case True
    with Cons.prems have "key x \<notin> key ` set xs" by auto
    then have "get (fill key val xs (put (key y) (val y) m)) (key x)
        = get (put (key y) (val y) m) (key x)" by (rule get_fill_other)
    with True show ?thesis by (simp add: fill_def get_put)
  next
    case False
    with Cons show ?thesis by (auto simp: fill_def)
  qed
qed

end

interpretation hm: keyed_map "hget" "hinsert" "hwf"
  by unfold_locales (auto simp: update_conv' distinct_update)

lemma hget_hinsert [simp]: "hget (hinsert k v m) j = (if j = k then Some v else hget m j)"
  by (rule hm.get_put)

lemma hwf_hinsert [simp]: "hwf m \<Longrightarrow> hwf (hinsert k v m)"
  by (rule hm.wf_put)

lemma hget_Some_in: "hget m k = Some v \<Longrightarrow> (k, v) \<in> set m"
  by (rule map_of_SomeD)

lemma hget_in_iff: "hwf m \<Longrightarrow> hget m k = Some v \<longleftrightarrow> (k, v) \<in> set m"
  by (auto intro: map_of_is_SomeI dest: map_of_SomeD)

lemma hget_dom: "(\<exists>v. hget m k = Some v) \<longleftrightarrow> k \<in> set (hkeys m)"
  by (induction m) auto

text \<open>A property of all entries survives the insertion of an entry that has it.\<close>

lemma hinsert_entries:
  "\<forall>(j, w) \<in> set m. P j w \<Longrightarrow> P k v \<Longrightarrow> \<forall>(j, w) \<in> set (hinsert k v m). P j w"
  by (induction m) auto

lemma hget_map_values: "hget (map (\<lambda>(k, v). (k, f v)) m) k = map_option f (hget m k)"
  by (induction m) auto

section \<open>String tests\<close>

text \<open>\<open>str::starts_with\<close>, \<open>str::ends_with\<close> and \<open>str::contains\<close> with a string pattern.\<close>

fun starts_with :: "string \<Rightarrow> string \<Rightarrow> bool" where
  "starts_with s [] = True"
| "starts_with [] (p # ps) = False"
| "starts_with (c # cs) (p # ps) = (c = p \<and> starts_with cs ps)"

definition ends_with :: "string \<Rightarrow> string \<Rightarrow> bool" where
  "ends_with s p = starts_with (rev s) (rev p)"

fun str_contains :: "string \<Rightarrow> string \<Rightarrow> bool" where
  "str_contains [] p = (p = [])"
| "str_contains (c # cs) p = (starts_with (c # cs) p \<or> str_contains cs p)"

lemma starts_with_iff: "starts_with s p \<longleftrightarrow> (\<exists>t. s = p @ t)"
  by (induction s p rule: starts_with.induct) auto

lemma ends_with_iff: "ends_with s p \<longleftrightarrow> (\<exists>t. s = t @ p)"
proof -
  have "ends_with s p \<longleftrightarrow> (\<exists>t. rev s = rev p @ t)"
    by (simp add: ends_with_def starts_with_iff)
  also have "\<dots> \<longleftrightarrow> (\<exists>t. s = t @ p)"
    by (metis rev_append rev_rev_ident)
  finally show ?thesis .
qed

lemma str_contains_iff: "str_contains s p \<longleftrightarrow> (\<exists>a b. s = a @ p @ b)"
proof (induction s)
  case Nil
  show ?case by auto
next
  case (Cons c cs)
  have "(\<exists>a b. c # cs = a @ p @ b) \<longleftrightarrow> (\<exists>b. c # cs = p @ b) \<or> (\<exists>a b. cs = a @ p @ b)"
    by (metis append_Cons append_eq_Cons_conv append_self_conv2)
  with Cons.IH show ?case by (simp add: starts_with_iff)
qed

text \<open>A name quoted in backticks, as the error messages print it.\<close>

definition quoted :: "string \<Rightarrow> string" where
  "quoted s = ''`'' @ s @ ''`''"

text \<open>The decimal digits of a number, as \<open>Display\<close> prints an unsigned integer.\<close>

definition digit :: "nat \<Rightarrow> char" where
  "digit d = char_of (48 + d)"

fun show_nat :: "nat \<Rightarrow> string" where
  "show_nat n = (if n < 10 then [digit n] else show_nat (n div 10) @ [digit (n mod 10)])"

declare show_nat.simps [simp del]

definition show_int :: "int \<Rightarrow> string" where
  "show_int i = (if i < 0 then ''-'' @ show_nat (nat (- i)) else show_nat (nat i))"

end
