(* ===== verification/Json.thy ===== *)
theory Json
  imports Prelude Complex_Main
begin

text \<open>
  The values the program exchanges: \<open>serde_json::Value\<close> with the accessors the source
  calls, and \<open>f64\<close> as far as the source looks at it. A finite \<open>f64\<close> is the rational it
  denotes (the two zeros compare equal in Rust and are one value here); conversions of
  integers to \<open>f64\<close> round to 53 bits, ties to even, as the hardware does.
\<close>

section \<open>Floating point\<close>

datatype f64 = NaN | PosInf | NegInf | Fin rat

fun f64_lt :: "f64 \<Rightarrow> f64 \<Rightarrow> bool" where
  "f64_lt NaN _ = False"
| "f64_lt _ NaN = False"
| "f64_lt PosInf _ = False"
| "f64_lt _ NegInf = False"
| "f64_lt (Fin a) (Fin b) = (a < b)"
| "f64_lt _ _ = True"

fun f64_eq :: "f64 \<Rightarrow> f64 \<Rightarrow> bool" where
  "f64_eq NaN _ = False"
| "f64_eq a b = (a = b)"

definition f64_le :: "f64 \<Rightarrow> f64 \<Rightarrow> bool" where
  "f64_le a b = (f64_lt a b \<or> f64_eq a b)"

lemma f64_le_simps [simp]:
  "f64_le (Fin a) (Fin b) = (a \<le> b)" "f64_le NaN y = False"
  by (auto simp: f64_le_def)

text \<open>Rounding an integer to the nearest \<open>f64\<close>: drop the bits below the 53 leading ones.\<close>

function excess_bits :: "nat \<Rightarrow> nat" where
  "excess_bits n = (if n < 2 ^ 53 then 0 else Suc (excess_bits (n div 2)))"
  by pat_completeness auto
termination
  by (relation "measure id") auto

declare excess_bits.simps [simp del]

definition round53 :: "nat \<Rightarrow> nat" where
  "round53 n =
     (let k = excess_bits n; q = n div 2 ^ k; r = n mod 2 ^ k; half = 2 ^ k div 2
      in (if 0 < k \<and> (half < r \<or> r = half \<and> odd q) then Suc q else q) * 2 ^ k)"

definition f64_of_int :: "int \<Rightarrow> rat" where
  "f64_of_int i = (if i < 0 then - of_nat (round53 (nat (- i))) else of_nat (round53 (nat i)))"

lemma excess_bits_small [simp]: "n < 2 ^ 53 \<Longrightarrow> excess_bits n = 0"
  by (simp add: excess_bits.simps)

lemma round53_small: "n < 2 ^ 53 \<Longrightarrow> round53 n = n"
  by (simp add: round53_def)

lemma f64_of_int_exact: "\<bar>i\<bar> < 2 ^ 53 \<Longrightarrow> f64_of_int i = of_int i"
  by (auto simp: f64_of_int_def round53_small nat_less_iff)

text \<open>\<open>f.fract() == 0.0\<close> for a finite float.\<close>

definition whole :: "rat \<Rightarrow> bool" where
  "whole r = (of_int \<lfloor>r\<rfloor> = r)"

lemma whole_of_int [simp]: "whole (of_int i)"
  by (simp add: whole_def)

lemma whole_iff: "whole r \<longleftrightarrow> r \<in> \<int>"
  by (metis Ints_cases Ints_of_int floor_of_int whole_def)

lemma whole_f64_of_int [simp]: "whole (f64_of_int i)"
  by (simp add: whole_iff f64_of_int_def)

section \<open>JSON\<close>

text \<open>
  \<open>serde_json::Number\<close> keeps apart the non-negative integers (\<open>PosInt\<close>), the negative ones
  (\<open>NegInt\<close>, an \<open>i64\<close>) and the finite floats. Objects are the entries of the sorted
  \<open>BTreeMap\<close> behind \<open>serde_json::Map\<close>, in key order.
\<close>

datatype number = PosInt u64 | NegInt i64 | Float rat

datatype json =
    JNull
  | JBool bool
  | JNumber number
  | JString string
  | JArray "json list"
  | JObject "(string \<times> json) list"

fun as_bool :: "json \<Rightarrow> bool option" where
  "as_bool (JBool b) = Some b"
| "as_bool _ = None"

fun as_str :: "json \<Rightarrow> string option" where
  "as_str (JString s) = Some s"
| "as_str _ = None"

fun number_as_i64 :: "number \<Rightarrow> i64 option" where
  "number_as_i64 (PosInt n) = (if uint n < 2 ^ 63 then Some n else None)"
| "number_as_i64 (NegInt n) = Some n"
| "number_as_i64 (Float _) = None"

fun as_i64 :: "json \<Rightarrow> i64 option" where
  "as_i64 (JNumber n) = number_as_i64 n"
| "as_i64 _ = None"

fun number_as_f64 :: "number \<Rightarrow> rat" where
  "number_as_f64 (PosInt n) = f64_of_int (uint n)"
| "number_as_f64 (NegInt n) = f64_of_int (sint n)"
| "number_as_f64 (Float r) = r"

fun as_f64 :: "json \<Rightarrow> rat option" where
  "as_f64 (JNumber n) = Some (number_as_f64 n)"
| "as_f64 _ = None"

fun as_object :: "json \<Rightarrow> (string \<times> json) list option" where
  "as_object (JObject o') = Some o'"
| "as_object _ = None"

fun is_boolean :: "json \<Rightarrow> bool" where
  "is_boolean (JBool _) = True"
| "is_boolean _ = False"

fun is_string :: "json \<Rightarrow> bool" where
  "is_string (JString _) = True"
| "is_string _ = False"

fun is_number :: "json \<Rightarrow> bool" where
  "is_number (JNumber _) = True"
| "is_number _ = False"

fun is_object :: "json \<Rightarrow> bool" where
  "is_object (JObject _) = True"
| "is_object _ = False"

text \<open>\<open>serde_json::Number::from_f64\<close>: only a finite float is a JSON number.\<close>

fun number_from_f64 :: "f64 \<Rightarrow> number option" where
  "number_from_f64 (Fin r) = Some (Float r)"
| "number_from_f64 _ = None"

lemma json_pair_size [termination_simp]:
  "(k, v) \<in> set xs \<Longrightarrow> size v < Suc (size_list (size_prod (\<lambda>x. 0) size) xs)"
  by (induction xs) auto

lemma is_boolean_as_bool: "is_boolean v \<longleftrightarrow> as_bool v \<noteq> None"
  by (cases v) auto

lemma is_string_as_str: "is_string v \<longleftrightarrow> as_str v \<noteq> None"
  by (cases v) auto

lemma is_number_as_f64: "is_number v \<longleftrightarrow> as_f64 v \<noteq> None"
  by (cases v) auto

lemma is_object_as_object: "is_object v \<longleftrightarrow> as_object v \<noteq> None"
  by (cases v) auto

text \<open>
  What is left of a value once every number in it has become a float: the values that can
  come out of a protobuf \<open>google.protobuf.Value\<close>.
\<close>

fun floated :: "json \<Rightarrow> json" where
  "floated (JNumber n) = JNumber (Float (number_as_f64 n))"
| "floated (JArray a) = JArray (map floated a)"
| "floated (JObject o') = JObject (map (\<lambda>(k, v). (k, floated v)) o')"
| "floated v = v"

lemma floated_idem [simp]: "floated (floated v) = floated v"
  by (induction v rule: floated.induct) auto

lemma as_bool_floated [simp]: "as_bool (floated v) = as_bool v"
  by (cases v) auto

lemma as_str_floated [simp]: "as_str (floated v) = as_str v"
  by (cases v) auto

lemma as_f64_floated [simp]: "as_f64 (floated v) = as_f64 v"
  by (cases v) auto

lemma as_i64_floated [simp]: "as_i64 (floated v) = None"
  by (cases v) auto

end
