(* ===== verification/FlagModel.thy ===== *)
theory FlagModel
  imports Json
begin

text \<open>
  The feature-flag domain of \<open>crates/feature-flag/feature-flag-engine/src/model.rs\<close> and
  the evaluation types of \<open>engine/types.rs\<close>. A field \<open>x\<close> of a struct is the record field
  \<open>x\<close> behind a prefix naming the struct (\<open>f_\<close> flag, \<open>r_\<close> rule, \<open>c_\<close> constraint,
  \<open>g_\<close> constraint group, \<open>d_\<close> distribution, \<open>v_\<close> variant, \<open>s_\<close> segment,
  \<open>sn_\<close> snapshot).
\<close>

section \<open>The configuration model\<close>

datatype ValueType = Boolean | String | Integer | FloatT | Object

datatype Operator =
    OpEq | OpNeq | OpIn | OpNotIn | OpContains | OpStartsWith | OpEndsWith
  | OpGt | OpGte | OpLt | OpLte | OpExists | OpRegex | OpFlagMatches

record Variant =
  v_key :: string
  v_value :: json

record Constraint =
  c_attribute :: string
  c_operator :: Operator
  c_values :: "json list"

record Segment =
  s_key :: string
  s_name :: string
  s_constraints :: "Constraint list"

record ConstraintGroup =
  g_constraints :: "Constraint list"

record Distribution =
  d_variant_key :: string
  d_weight :: u32

record Rule =
  r_rank :: u32
  r_segment_key :: "string option"
  r_variant_key :: "string option"
  r_distributions :: "Distribution list"
  r_constraint_groups :: "ConstraintGroup list"
  r_bucket_salt :: string

record Flag =
  f_key :: string
  f_value_type :: ValueType
  f_enabled :: bool
  f_default_variant_key :: string
  f_archived :: bool
  f_variants :: "Variant list"
  f_rules :: "Rule list"

record Snapshot =
  sn_version :: int
  sn_flags :: "Flag hmap"
  sn_segments :: "Segment hmap"

definition snapshot_default :: Snapshot where
  "snapshot_default = \<lparr>sn_version = 0, sn_flags = [], sn_segments = []\<rparr>"

definition flag_variant :: "Flag \<Rightarrow> string \<Rightarrow> Variant option" where
  "flag_variant flag key = find (\<lambda>v. v_key v = key) (f_variants flag)"

text \<open>
  A snapshot is well formed when its two hash maps have distinct keys and store every
  flag and segment under its own key. Every constructor of a snapshot in the source
  inserts under \<open>flag.key\<close> and \<open>segment.key\<close>.
\<close>

definition snapshot_wf :: "Snapshot \<Rightarrow> bool" where
  "snapshot_wf sn \<longleftrightarrow>
     hwf (sn_flags sn) \<and> hwf (sn_segments sn)
     \<and> (\<forall>(k, f) \<in> set (sn_flags sn). f_key f = k)
     \<and> (\<forall>(k, s) \<in> set (sn_segments sn). s_key s = k)"

lemma snapshot_wf_default: "snapshot_wf snapshot_default"
  by (simp add: snapshot_wf_def snapshot_default_def)

lemma snapshot_wf_hget_flag: "snapshot_wf sn \<Longrightarrow> hget (sn_flags sn) k = Some f \<Longrightarrow> f_key f = k"
  by (auto simp: snapshot_wf_def dest: map_of_SomeD)

lemma flag_variant_Some:
  "flag_variant f k = Some v \<Longrightarrow> v \<in> set (f_variants f) \<and> v_key v = k"
  by (auto simp: flag_variant_def find_Some_iff)

lemma flag_variant_None_iff: "flag_variant f k = None \<longleftrightarrow> (\<forall>v\<in>set (f_variants f). v_key v \<noteq> k)"
  by (auto simp: flag_variant_def find_None_iff)

section \<open>Evaluation types\<close>

datatype Reason = Static | Default | TargetingMatch | Split | Disabled | ErrorR

datatype ErrorCode = FlagNotFound | ParseError | General

fun error_code_as_str :: "ErrorCode \<Rightarrow> string" where
  "error_code_as_str FlagNotFound = ''FLAG_NOT_FOUND''"
| "error_code_as_str ParseError = ''PARSE_ERROR''"
| "error_code_as_str General = ''GENERAL''"

record Resolution =
  res_value :: json
  res_variant :: string
  res_reason :: Reason

record EvalError =
  e_code :: ErrorCode
  e_message :: string

record EvalContext =
  targeting_key :: string
  attributes :: "json hmap"

type_synonym eval_result = "(EvalError, Resolution) result"

end
