(* ===== verification/FlagEngine.thy ===== *)
theory FlagEngine
  imports FlagModel
begin

text \<open>
  The evaluation engine of \<open>feature-flag-engine/src/engine/mod.rs\<close>. The engine is a pure
  function of a snapshot and a context; its two third-party crates are the parameters of
  the record below. Weights are added as \<open>u32\<close> words (the release build wraps).
\<close>

section \<open>Third-party crates\<close>

text \<open>
  \<open>sha256\<close> is the digest of \<open>sha2\<close> over the concatenated updates. \<open>regex_build\<close> is
  \<open>RegexBuilder::build\<close> under the engine's size limits: \<open>None\<close> for a pattern that does not
  compile, otherwise \<open>is_match\<close> of the compiled pattern.
\<close>

record crates =
  sha256 :: "string \<Rightarrow> u8 list"
  regex_build :: "string \<Rightarrow> (string \<Rightarrow> bool) option"

section \<open>Attribute constraints\<close>

fun string_op :: "json option \<Rightarrow> json option \<Rightarrow> (string \<Rightarrow> string \<Rightarrow> bool) \<Rightarrow> bool" where
  "string_op attr operand f =
     (case (Option.bind attr as_str, Option.bind operand as_str) of
        (Some a, Some b) \<Rightarrow> f a b
      | _ \<Rightarrow> False)"

fun number_op :: "json option \<Rightarrow> json option \<Rightarrow> (rat \<Rightarrow> rat \<Rightarrow> bool) \<Rightarrow> bool" where
  "number_op attr operand f =
     (case (Option.bind attr as_f64, Option.bind operand as_f64) of
        (Some a, Some b) \<Rightarrow> f a b
      | _ \<Rightarrow> False)"

definition regex_match :: "crates \<Rightarrow> string \<Rightarrow> string \<Rightarrow> bool" where
  "regex_match X haystack pattern =
     (case regex_build X pattern of None \<Rightarrow> False | Some re \<Rightarrow> re haystack)"

definition first_value :: "Constraint \<Rightarrow> json option" where
  "first_value c = (case c_values c of [] \<Rightarrow> None | v # _ \<Rightarrow> Some v)"

definition attr_constraint_matches :: "crates \<Rightarrow> Constraint \<Rightarrow> EvalContext \<Rightarrow> bool" where
  "attr_constraint_matches X c ctx =
     (let attr = hget (attributes ctx) (c_attribute c); first = first_value c in
      case c_operator c of
        OpExists \<Rightarrow> attr \<noteq> None
      | OpEq \<Rightarrow> (case attr of None \<Rightarrow> False | Some a \<Rightarrow> first = Some a)
      | OpNeq \<Rightarrow> (case attr of None \<Rightarrow> True | Some a \<Rightarrow> first \<noteq> Some a)
      | OpIn \<Rightarrow> (case attr of None \<Rightarrow> False | Some a \<Rightarrow> list_ex (\<lambda>v. v = a) (c_values c))
      | OpNotIn \<Rightarrow> (case attr of None \<Rightarrow> True | Some a \<Rightarrow> \<not> list_ex (\<lambda>v. v = a) (c_values c))
      | OpContains \<Rightarrow> string_op attr first str_contains
      | OpStartsWith \<Rightarrow> string_op attr first starts_with
      | OpEndsWith \<Rightarrow> string_op attr first ends_with
      | OpRegex \<Rightarrow> string_op attr first (regex_match X)
      | OpGt \<Rightarrow> number_op attr first (\<lambda>a b. a > b)
      | OpGte \<Rightarrow> number_op attr first (\<lambda>a b. a \<ge> b)
      | OpLt \<Rightarrow> number_op attr first (\<lambda>a b. a < b)
      | OpLte \<Rightarrow> number_op attr first (\<lambda>a b. a \<le> b)
      | OpFlagMatches \<Rightarrow> False)"

definition constraints_match :: "crates \<Rightarrow> Constraint list \<Rightarrow> EvalContext \<Rightarrow> bool" where
  "constraints_match X cs ctx = list_all (\<lambda>c. attr_constraint_matches X c ctx) cs"

definition segment_matches :: "crates \<Rightarrow> Segment \<Rightarrow> EvalContext \<Rightarrow> bool" where
  "segment_matches X s ctx = constraints_match X (s_constraints s) ctx"

section \<open>Bucketing\<close>

text \<open>\<open>u64::from_be_bytes\<close> of the first eight digest bytes.\<close>

definition u64_from_be_bytes :: "u8 list \<Rightarrow> u64" where
  "u64_from_be_bytes bs = foldl (\<lambda>acc b. acc * 256 + ucast b) 0 bs"

definition bucket_input :: "string \<Rightarrow> string \<Rightarrow> string \<Rightarrow> string" where
  "bucket_input flag_key salt tk =
     flag_key @ (if salt \<noteq> [] then '':'' @ salt else []) @ '':'' @ tk"

definition bucket_of :: "crates \<Rightarrow> string \<Rightarrow> string \<Rightarrow> string \<Rightarrow> u32" where
  "bucket_of X flag_key salt tk =
     ucast (u64_from_be_bytes (take 8 (sha256 X (bucket_input flag_key salt tk))) mod 100)"

text \<open>The loop over the cumulative weights; running off its end serves the last entry.\<close>

fun walk_distribution :: "u32 \<Rightarrow> u32 \<Rightarrow> Distribution list \<Rightarrow> string option" where
  "walk_distribution bucket cumulative [] = None"
| "walk_distribution bucket cumulative (d # ds) =
     (let cumulative' = cumulative + d_weight d in
      if bucket < cumulative' then Some (d_variant_key d)
      else walk_distribution bucket cumulative' ds)"

definition pick_distribution :: "crates \<Rightarrow> string \<Rightarrow> Rule \<Rightarrow> EvalContext \<Rightarrow> string" where
  "pick_distribution X flag_key rule ctx =
     (case walk_distribution (bucket_of X flag_key (r_bucket_salt rule) (targeting_key ctx)) 0
            (r_distributions rule) of
        Some key \<Rightarrow> key
      | None \<Rightarrow> d_variant_key (r_distributions rule ! (length (r_distributions rule) - 1)))"

section \<open>Rules\<close>

text \<open>
  The methods that may recurse into another flag take the recursive call as the argument
  \<open>ev\<close>, which \<open>evaluate_inner\<close> below instantiates with itself on the pushed stack: the
  source passes \<open>&mut stack\<close>, and every callee returns it as it found it.
\<close>

definition constraint_matches ::
  "crates \<Rightarrow> (string \<Rightarrow> eval_result) \<Rightarrow> Constraint \<Rightarrow> EvalContext \<Rightarrow> bool" where
  "constraint_matches X ev c ctx =
     (if c_operator c = OpFlagMatches
      then (case ev (c_attribute c) of
              Ok res \<Rightarrow> list_ex (\<lambda>v. as_str v = Some (res_variant res)) (c_values c)
            | Err _ \<Rightarrow> False)
      else attr_constraint_matches X c ctx)"

definition group_matches ::
  "crates \<Rightarrow> (string \<Rightarrow> eval_result) \<Rightarrow> ConstraintGroup \<Rightarrow> EvalContext \<Rightarrow> bool" where
  "group_matches X ev g ctx =
     (g_constraints g = [] \<or> list_ex (\<lambda>c. constraint_matches X ev c ctx) (g_constraints g))"

definition rule_matches ::
  "crates \<Rightarrow> Snapshot \<Rightarrow> (string \<Rightarrow> eval_result) \<Rightarrow> Rule \<Rightarrow> EvalContext \<Rightarrow> bool" where
  "rule_matches X sn ev rule ctx =
     ((case r_segment_key rule of
         None \<Rightarrow> True
       | Some key \<Rightarrow> (case hget (sn_segments sn) key of
                       Some segment \<Rightarrow> segment_matches X segment ctx
                     | None \<Rightarrow> False))
      \<and> list_all (\<lambda>g. group_matches X ev g ctx) (r_constraint_groups rule))"

definition resolve_variant :: "Flag \<Rightarrow> string \<Rightarrow> Reason \<Rightarrow> eval_result" where
  "resolve_variant flag variant_key reason =
     (case flag_variant flag variant_key of
        None \<Rightarrow> Err \<lparr>e_code = ParseError,
                     e_message = ''flag '' @ quoted (f_key flag)
                       @ '' references unknown variant '' @ quoted variant_key\<rparr>
      | Some v \<Rightarrow> Ok \<lparr>res_value = v_value v, res_variant = v_key v, res_reason = reason\<rparr>)"

fun resolve_rules_from ::
  "crates \<Rightarrow> Snapshot \<Rightarrow> (string \<Rightarrow> eval_result) \<Rightarrow> Flag \<Rightarrow> string \<Rightarrow> EvalContext
     \<Rightarrow> Rule list \<Rightarrow> eval_result" where
  "resolve_rules_from X sn ev flag flag_key ctx [] =
     resolve_variant flag (f_default_variant_key flag) Default"
| "resolve_rules_from X sn ev flag flag_key ctx (rule # rules) =
     (if \<not> rule_matches X sn ev rule ctx then resolve_rules_from X sn ev flag flag_key ctx rules
      else if r_distributions rule \<noteq> []
      then resolve_variant flag (pick_distribution X flag_key rule ctx) Split
      else (case r_variant_key rule of
              Some variant_key \<Rightarrow> resolve_variant flag variant_key TargetingMatch
            | None \<Rightarrow> resolve_rules_from X sn ev flag flag_key ctx rules))"

definition resolve_rules ::
  "crates \<Rightarrow> Snapshot \<Rightarrow> (string \<Rightarrow> eval_result) \<Rightarrow> Flag \<Rightarrow> string \<Rightarrow> EvalContext \<Rightarrow> eval_result" where
  "resolve_rules X sn ev flag flag_key ctx =
     resolve_rules_from X sn ev flag flag_key ctx (f_rules flag)"

section \<open>Evaluation\<close>

definition cycle_error :: "string \<Rightarrow> EvalError" where
  "cycle_error flag_key =
     \<lparr>e_code = ParseError,
      e_message = ''flag dependency cycle through flag '' @ quoted flag_key\<rparr>"

definition not_found_error :: "string \<Rightarrow> EvalError" where
  "not_found_error flag_key =
     \<lparr>e_code = FlagNotFound, e_message = ''flag '' @ quoted flag_key @ '' not found''\<rparr>"

text \<open>
  One activation of \<open>evaluate_inner\<close>, with the recursive calls it may make as \<open>ev\<close>. The
  stack is a \<open>Vec\<close>: \<open>push\<close> appends.
\<close>

definition evaluate_body ::
  "crates \<Rightarrow> Snapshot \<Rightarrow> (string \<Rightarrow> EvalContext \<Rightarrow> string list \<Rightarrow> eval_result)
     \<Rightarrow> string \<Rightarrow> EvalContext \<Rightarrow> string list \<Rightarrow> eval_result" where
  "evaluate_body X sn rec flag_key ctx stack =
     (if list_ex (\<lambda>k. k = flag_key) stack then Err (cycle_error flag_key)
      else (case hget (sn_flags sn) flag_key of
              None \<Rightarrow> Err (not_found_error flag_key)
            | Some flag \<Rightarrow>
                if f_archived flag \<or> \<not> f_enabled flag
                then resolve_variant flag (f_default_variant_key flag) Disabled
                else resolve_rules X sn (\<lambda>k. rec k ctx (stack @ [flag_key])) flag flag_key ctx))"

text \<open>The flags an evaluation can still enter.\<close>

definition unvisited :: "Snapshot \<Rightarrow> string list \<Rightarrow> nat" where
  "unvisited sn stack = card (set (hkeys (sn_flags sn)) - set stack)"

lemma unvisited_push:
  assumes "hget (sn_flags sn) k = Some f" and "k \<notin> set stack"
  shows "unvisited sn (stack @ [k]) < unvisited sn stack"
proof -
  from assms have "k \<in> set (hkeys (sn_flags sn)) - set stack"
    using hget_dom [of "sn_flags sn" k] by auto
  moreover have "set (hkeys (sn_flags sn)) - set (stack @ [k])
      = (set (hkeys (sn_flags sn)) - set stack) - {k}" by auto
  ultimately show ?thesis
    unfolding unvisited_def by (metis List.finite_set card_Diff1_less finite_Diff)
qed

function evaluate_inner ::
  "crates \<Rightarrow> Snapshot \<Rightarrow> string \<Rightarrow> EvalContext \<Rightarrow> string list \<Rightarrow> eval_result" where
  "evaluate_inner X sn flag_key ctx stack =
     (if list_ex (\<lambda>k. k = flag_key) stack then Err (cycle_error flag_key)
      else (case hget (sn_flags sn) flag_key of
              None \<Rightarrow> Err (not_found_error flag_key)
            | Some flag \<Rightarrow>
                if f_archived flag \<or> \<not> f_enabled flag
                then resolve_variant flag (f_default_variant_key flag) Disabled
                else resolve_rules X sn (\<lambda>k. evaluate_inner X sn k ctx (stack @ [flag_key]))
                       flag flag_key ctx))"
  by pat_completeness auto
termination
  by (relation "measure (\<lambda>(X, sn, flag_key, ctx, stack). unvisited sn stack)")
    (auto simp: list_ex_iff intro: unvisited_push)

declare evaluate_inner.simps [simp del]

definition evaluate :: "crates \<Rightarrow> Snapshot \<Rightarrow> string \<Rightarrow> EvalContext \<Rightarrow> eval_result" where
  "evaluate X sn flag_key ctx = evaluate_inner X sn flag_key ctx []"

section \<open>Facts about the engine\<close>

lemma evaluate_inner_unfold:
  "evaluate_inner X sn k ctx stack = evaluate_body X sn (evaluate_inner X sn) k ctx stack"
  by (subst evaluate_inner.simps) (simp add: evaluate_body_def)

text \<open>The branches of one activation.\<close>

lemma evaluate_inner_cycle [eval_simps]:
  "k \<in> set stack \<Longrightarrow> evaluate_inner X sn k ctx stack = Err (cycle_error k)"
  by (subst evaluate_inner.simps) (simp add: list_ex_iff)

lemma evaluate_inner_missing [eval_simps]:
  "k \<notin> set stack \<Longrightarrow> hget (sn_flags sn) k = None
    \<Longrightarrow> evaluate_inner X sn k ctx stack = Err (not_found_error k)"
  by (subst evaluate_inner.simps) (simp add: list_ex_iff)

lemma evaluate_inner_disabled [eval_simps]:
  "k \<notin> set stack \<Longrightarrow> hget (sn_flags sn) k = Some f \<Longrightarrow> f_archived f \<or> \<not> f_enabled f
    \<Longrightarrow> evaluate_inner X sn k ctx stack = resolve_variant f (f_default_variant_key f) Disabled"
  by (subst evaluate_inner.simps) (auto simp: list_ex_iff)

lemma evaluate_inner_rules [eval_simps]:
  "k \<notin> set stack \<Longrightarrow> hget (sn_flags sn) k = Some f \<Longrightarrow> \<not> f_archived f \<Longrightarrow> f_enabled f
    \<Longrightarrow> evaluate_inner X sn k ctx stack
        = resolve_rules X sn (\<lambda>j. evaluate_inner X sn j ctx (stack @ [k])) f k ctx"
  by (subst evaluate_inner.simps) (auto simp: list_ex_iff)

subsection \<open>The served variant\<close>

definition variant_known :: "Flag \<Rightarrow> string \<Rightarrow> bool" where
  "variant_known f k = (k \<in> v_key ` set (f_variants f))"

text \<open>What the store's validation establishes of a flag: every key it names exists.\<close>

definition flag_refs_ok :: "Flag \<Rightarrow> bool" where
  "flag_refs_ok f \<longleftrightarrow>
     variant_known f (f_default_variant_key f)
     \<and> (\<forall>r\<in>set (f_rules f).
          (\<forall>k. r_variant_key r = Some k \<longrightarrow> variant_known f k)
          \<and> (\<forall>d\<in>set (r_distributions r). variant_known f (d_variant_key d)))"

definition drawn_from :: "Flag \<Rightarrow> Resolution \<Rightarrow> bool" where
  "drawn_from f res \<longleftrightarrow>
     (\<exists>v\<in>set (f_variants f). v_key v = res_variant res \<and> v_value v = res_value res)"

lemma resolve_variant_known: "variant_known f k \<Longrightarrow> is_ok (resolve_variant f k rs)"
  by (auto simp: resolve_variant_def variant_known_def flag_variant_None_iff split: option.splits)

lemma resolve_variant_drawn: "resolve_variant f k rs = Ok res \<Longrightarrow> drawn_from f res"
  by (auto simp: resolve_variant_def drawn_from_def dest: flag_variant_Some split: option.splits)

lemma walk_distribution_in:
  "walk_distribution b c ds = Some k \<Longrightarrow> k \<in> d_variant_key ` set ds"
  by (induction ds arbitrary: c) (auto simp: Let_def split: if_splits)

lemma pick_distribution_in:
  "r_distributions r \<noteq> [] \<Longrightarrow> pick_distribution X fk r ctx \<in> d_variant_key ` set (r_distributions r)"
  by (auto simp: pick_distribution_def dest: walk_distribution_in split: option.splits)

lemma resolve_rules_from_drawn:
  "resolve_rules_from X sn ev f fk ctx rs = Ok res \<Longrightarrow> drawn_from f res"
  by (induction rs) (auto dest: resolve_variant_drawn split: if_splits option.splits)

lemma evaluate_inner_drawn:
  "evaluate_inner X sn k ctx stack = Ok res \<Longrightarrow>
    \<exists>f. hget (sn_flags sn) k = Some f \<and> drawn_from f res"
  by (subst (asm) evaluate_inner.simps)
    (auto simp: resolve_rules_def dest: resolve_variant_drawn resolve_rules_from_drawn
      split: if_splits option.splits)

lemma resolve_rules_from_ok:
  assumes "variant_known f (f_default_variant_key f)"
    and "\<forall>r\<in>set rs. (\<forall>k. r_variant_key r = Some k \<longrightarrow> variant_known f k)
          \<and> (\<forall>d\<in>set (r_distributions r). variant_known f (d_variant_key d))"
  shows "is_ok (resolve_rules_from X sn ev f fk ctx rs)"
  using assms
proof (induction rs)
  case Nil
  then show ?case by (simp add: resolve_variant_known)
next
  case (Cons r rs)
  then show ?case
    using pick_distribution_in [of r X fk ctx]
    by (auto simp: resolve_variant_known split: option.splits)
qed

lemma evaluate_inner_ok:
  "k \<notin> set stack \<Longrightarrow> hget (sn_flags sn) k = Some f \<Longrightarrow> flag_refs_ok f
    \<Longrightarrow> is_ok (evaluate_inner X sn k ctx stack)"
  by (subst evaluate_inner.simps)
    (auto simp: list_ex_iff flag_refs_ok_def resolve_rules_def
      intro!: resolve_variant_known resolve_rules_from_ok)

subsection \<open>The first rule that serves\<close>

definition serves :: "Rule \<Rightarrow> bool" where
  "serves r \<longleftrightarrow> r_distributions r \<noteq> [] \<or> r_variant_key r \<noteq> None"

definition rule_outcome :: "crates \<Rightarrow> Flag \<Rightarrow> string \<Rightarrow> EvalContext \<Rightarrow> Rule \<Rightarrow> eval_result" where
  "rule_outcome X f fk ctx r =
     (if r_distributions r \<noteq> [] then resolve_variant f (pick_distribution X fk r ctx) Split
      else resolve_variant f (the (r_variant_key r)) TargetingMatch)"

lemma resolve_rules_find:
  "resolve_rules_from X sn ev f fk ctx rs =
     (case find (\<lambda>r. rule_matches X sn ev r ctx \<and> serves r) rs of
        None \<Rightarrow> resolve_variant f (f_default_variant_key f) Default
      | Some r \<Rightarrow> rule_outcome X f fk ctx r)"
  by (induction rs) (auto simp: serves_def rule_outcome_def split: option.splits)

subsection \<open>Congruence: what a rule can see\<close>

lemma constraint_matches_cong:
  "(c_operator c = OpFlagMatches \<Longrightarrow> ev (c_attribute c) = ev' (c_attribute c))
    \<Longrightarrow> constraint_matches X ev c ctx = constraint_matches X ev' c ctx"
  by (simp add: constraint_matches_def)

definition rule_deps :: "Rule \<Rightarrow> string set" where
  "rule_deps r =
     {c_attribute c | c g. g \<in> set (r_constraint_groups r) \<and> c \<in> set (g_constraints g)
        \<and> c_operator c = OpFlagMatches}"

definition flag_deps :: "Flag \<Rightarrow> string set" where
  "flag_deps f = (\<Union>r\<in>set (f_rules f). rule_deps r)"

lemma rule_matches_cong:
  assumes deps: "\<And>k. k \<in> rule_deps r \<Longrightarrow> ev k = ev' k"
    and seg: "\<And>s. r_segment_key r = Some s \<Longrightarrow> hget (sn_segments sn) s = hget (sn_segments sn') s"
  shows "rule_matches X sn ev r ctx = rule_matches X sn' ev' r ctx"
proof -
  have c: "constraint_matches X ev c ctx = constraint_matches X ev' c ctx"
    if "g \<in> set (r_constraint_groups r)" "c \<in> set (g_constraints g)" for g c
    using that by (intro constraint_matches_cong deps) (auto simp: rule_deps_def)
  then have "group_matches X ev g ctx = group_matches X ev' g ctx"
    if "g \<in> set (r_constraint_groups r)" for g
    using that by (auto simp: group_matches_def list_ex_iff)
  then have "list_all (\<lambda>g. group_matches X ev g ctx) (r_constraint_groups r)
      = list_all (\<lambda>g. group_matches X ev' g ctx) (r_constraint_groups r)"
    by (auto simp: list_all_iff)
  then show ?thesis
    by (simp add: rule_matches_def seg split: option.splits)
qed

lemma resolve_rules_from_cong:
  assumes "\<And>r k. r \<in> set rs \<Longrightarrow> k \<in> rule_deps r \<Longrightarrow> ev k = ev' k"
    and "\<And>r s. r \<in> set rs \<Longrightarrow> r_segment_key r = Some s
          \<Longrightarrow> hget (sn_segments sn) s = hget (sn_segments sn') s"
  shows "resolve_rules_from X sn ev f fk ctx rs = resolve_rules_from X sn' ev' f fk ctx rs"
  using assms
proof (induction rs)
  case Nil
  show ?case by simp
next
  case (Cons r rs)
  have "rule_matches X sn ev r ctx = rule_matches X sn' ev' r ctx"
    by (rule rule_matches_cong) (auto intro: Cons.prems)
  moreover have "resolve_rules_from X sn ev f fk ctx rs = resolve_rules_from X sn' ev' f fk ctx rs"
    by (rule Cons.IH) (auto intro: Cons.prems)
  ultimately show ?case by (simp split: option.splits)
qed

end
