(* ===== verification/FlagDeps.thy ===== *)
theory FlagDeps
  imports FlagEngine
begin

text \<open>
  Flags that depend on other flags (\<open>Operator::FlagMatches\<close> in \<open>engine/mod.rs\<close>): the depth
  of the recursion, what a cycle does, and the part of a snapshot one evaluation can see.
\<close>

section \<open>Depth of the recursion\<close>

text \<open>
  The recursion cut off after \<open>n\<close> nested activations, with an arbitrary answer \<open>d\<close> below
  the cut. When the answer does not depend on \<open>d\<close>, no activation ever reached the cut.
\<close>

fun evaluate_depth ::
  "eval_result \<Rightarrow> nat \<Rightarrow> crates \<Rightarrow> Snapshot \<Rightarrow> string \<Rightarrow> EvalContext \<Rightarrow> string list \<Rightarrow> eval_result" where
  "evaluate_depth d 0 X sn k ctx stack = d"
| "evaluate_depth d (Suc n) X sn k ctx stack =
     evaluate_body X sn (evaluate_depth d n X sn) k ctx stack"

lemma evaluate_body_cong:
  assumes "\<And>f j. hget (sn_flags sn) k = Some f \<Longrightarrow> k \<notin> set stack
    \<Longrightarrow> rec j ctx (stack @ [k]) = rec' j ctx (stack @ [k])"
  shows "evaluate_body X sn rec k ctx stack = evaluate_body X sn rec' k ctx stack"
proof (cases "k \<in> set stack")
  case True
  then show ?thesis by (simp add: evaluate_body_def list_ex_iff)
next
  case False
  with assms show ?thesis
    by (auto simp: evaluate_body_def list_ex_iff split: option.splits)
qed

lemma evaluate_depth_enough:
  "unvisited sn stack < n \<Longrightarrow> evaluate_depth d n X sn k ctx stack = evaluate_inner X sn k ctx stack"
proof (induction n arbitrary: k stack)
  case 0
  then show ?case by simp
next
  case (Suc n)
  have "evaluate_body X sn (evaluate_depth d n X sn) k ctx stack
      = evaluate_body X sn (evaluate_inner X sn) k ctx stack"
  proof (rule evaluate_body_cong)
    fix f j
    assume "hget (sn_flags sn) k = Some f" and "k \<notin> set stack"
    then have "unvisited sn (stack @ [k]) < unvisited sn stack"
      by (rule unvisited_push)
    with Suc.prems have "unvisited sn (stack @ [k]) < n" by simp
    then show "evaluate_depth d n X sn j ctx (stack @ [k])
        = evaluate_inner X sn j ctx (stack @ [k])" by (rule Suc.IH)
  qed
  then show ?case by (simp add: evaluate_inner_unfold [of X sn k])
qed

lemma unvisited_le_length: "unvisited sn stack \<le> length (sn_flags sn)"
proof -
  have "card (set (hkeys (sn_flags sn)) - set stack) \<le> card (set (hkeys (sn_flags sn)))"
    by (rule card_mono) auto
  also have "\<dots> \<le> length (hkeys (sn_flags sn))" by (rule card_length)
  finally show ?thesis by (simp add: unvisited_def)
qed

section \<open>Cycles\<close>

text \<open>
  A group of flag-match constraints on flags that are being evaluated never matches, so the
  rules that need it are skipped.
\<close>

definition blocked_by :: "string list \<Rightarrow> Rule \<Rightarrow> bool" where
  "blocked_by stack r \<longleftrightarrow>
     (\<exists>g\<in>set (r_constraint_groups r). g_constraints g \<noteq> []
        \<and> (\<forall>c\<in>set (g_constraints g). c_operator c = OpFlagMatches \<and> c_attribute c \<in> set stack))"

lemma blocked_rule_never_matches:
  assumes "blocked_by stack r"
  shows "\<not> rule_matches X sn (\<lambda>j. evaluate_inner X sn j ctx stack) r ctx"
proof -
  from assms obtain g where g: "g \<in> set (r_constraint_groups r)" "g_constraints g \<noteq> []"
    and c: "\<forall>c\<in>set (g_constraints g). c_operator c = OpFlagMatches \<and> c_attribute c \<in> set stack"
    by (auto simp: blocked_by_def)
  from c have "\<forall>c\<in>set (g_constraints g).
      \<not> constraint_matches X (\<lambda>j. evaluate_inner X sn j ctx stack) c ctx"
    by (simp add: constraint_matches_def eval_simps)
  with g(2) have "\<not> group_matches X (\<lambda>j. evaluate_inner X sn j ctx stack) g ctx"
    by (simp add: group_matches_def list_ex_iff)
  with g(1) show ?thesis by (auto simp: rule_matches_def list_all_iff)
qed

lemma resolve_rules_skip_blocked:
  "resolve_rules_from X sn (\<lambda>j. evaluate_inner X sn j ctx stack) f fk ctx rs
    = resolve_rules_from X sn (\<lambda>j. evaluate_inner X sn j ctx stack) f fk ctx
        (filter (\<lambda>r. \<not> blocked_by stack r) rs)"
  by (induction rs) (auto simp: blocked_rule_never_matches split: option.splits)

section \<open>What one evaluation can see\<close>

definition dep_edge :: "Snapshot \<Rightarrow> string \<Rightarrow> string \<Rightarrow> bool" where
  "dep_edge sn a b \<longleftrightarrow> (\<exists>f. hget (sn_flags sn) a = Some f \<and> b \<in> flag_deps f)"

inductive reaches :: "Snapshot \<Rightarrow> string \<Rightarrow> string \<Rightarrow> bool" for sn a where
  here: "reaches sn a a"
| dep: "reaches sn a b \<Longrightarrow> dep_edge sn b c \<Longrightarrow> reaches sn a c"

inductive_cases reachesE: "reaches sn a b"

text \<open>Two snapshots agree on a set of flags: the entries and the segments their rules name.\<close>

definition agree_on :: "Snapshot \<Rightarrow> Snapshot \<Rightarrow> string set \<Rightarrow> bool" where
  "agree_on sn sn' K \<longleftrightarrow>
     (\<forall>k\<in>K. hget (sn_flags sn') k = hget (sn_flags sn) k
        \<and> (\<forall>f r s. hget (sn_flags sn) k = Some f \<and> r \<in> set (f_rules f) \<and> r_segment_key r = Some s
             \<longrightarrow> hget (sn_segments sn') s = hget (sn_segments sn) s))"

lemma agree_onD:
  assumes "agree_on sn sn' K" and "k \<in> K"
  shows "hget (sn_flags sn') k = hget (sn_flags sn) k"
    and "hget (sn_flags sn) k = Some f \<Longrightarrow> r \<in> set (f_rules f) \<Longrightarrow> r_segment_key r = Some s
      \<Longrightarrow> hget (sn_segments sn') s = hget (sn_segments sn) s"
  using assms by (auto simp: agree_on_def)

lemma evaluate_inner_agree:
  assumes "agree_on sn sn' {b. reaches sn a b}" and "reaches sn a k"
  shows "evaluate_inner X sn' k ctx stack = evaluate_inner X sn k ctx stack"
  using assms
proof (induction X sn k ctx stack rule: evaluate_inner.induct)
  case (1 X sn k ctx stack)
  have k: "hget (sn_flags sn') k = hget (sn_flags sn) k"
    using agree_onD(1) [OF "1.prems"(1)] "1.prems"(2) by simp
  show ?case
  proof (cases "k \<in> set stack \<or> hget (sn_flags sn) k = None")
    case True
    with k show ?thesis by (cases "k \<in> set stack") (simp_all add: eval_simps)
  next
    case False
    then obtain f where f: "hget (sn_flags sn) k = Some f" and s: "k \<notin> set stack" by auto
    show ?thesis
    proof (cases "f_archived f \<or> \<not> f_enabled f")
      case True
      with f s k show ?thesis by (simp add: eval_simps)
    next
      case on: False
      have "resolve_rules X sn' (\<lambda>j. evaluate_inner X sn' j ctx (stack @ [k])) f k ctx
          = resolve_rules X sn (\<lambda>j. evaluate_inner X sn j ctx (stack @ [k])) f k ctx"
        unfolding resolve_rules_def
      proof (rule resolve_rules_from_cong)
        fix r j
        assume "r \<in> set (f_rules f)" and "j \<in> rule_deps r"
        then have "dep_edge sn k j"
          using f by (auto simp: dep_edge_def flag_deps_def)
        with "1.prems"(2) have "reaches sn a j" by (rule reaches.dep)
        then show "evaluate_inner X sn' j ctx (stack @ [k]) = evaluate_inner X sn j ctx (stack @ [k])"
          using "1.IH" [OF _ f] on s "1.prems"(1) by (simp add: list_ex_iff)
      next
        fix r s
        assume "r \<in> set (f_rules f)" and "r_segment_key r = Some s"
        then show "hget (sn_segments sn') s = hget (sn_segments sn) s"
          using agree_onD(2) [OF "1.prems"(1)] "1.prems"(2) f by auto
      qed
      with f s k on show ?thesis by (simp add: eval_simps)
    qed
  qed
qed

lemma evaluate_agree:
  "agree_on sn sn' {b. reaches sn k b} \<Longrightarrow> evaluate X sn' k ctx = evaluate X sn k ctx"
  by (simp add: evaluate_def evaluate_inner_agree [of sn sn' k] reaches.here)

lemma reaches_no_deps:
  assumes "reaches sn k b" and "hget (sn_flags sn) k = Some f" and "flag_deps f = {}"
  shows "b = k"
  using assms(1)
proof (induction rule: reaches.induct)
  case here
  show ?case by simp
next
  case (dep b c)
  with assms(2,3) show ?case by (auto simp: dep_edge_def)
qed

end
