(* ===== verification/FlagWire.thy ===== *)
theory FlagWire
  imports FlagDeps
begin

text \<open>
  The protobuf types of \<open>feature-flag-proto/proto/featureflag/v1/*.proto\<close> and the
  conversions of \<open>feature-flag-engine/src/convert/\<close> between them and the domain model. An
  enum field of a message is its \<open>i32\<close> number (an \<open>int\<close> here); the accessor \<open>prost\<close> generates
  for it reads an unknown number as the zero variant.
\<close>

section \<open>google.protobuf.Value\<close>

datatype pvalue = PValue "kind option"
  and kind =
    NullValue int
  | BoolValue bool
  | NumberValue f64
  | StringValue string
  | ListValue "pvalue list"
  | StructValue "(string \<times> pvalue) list"

type_synonym pstruct = "(string \<times> pvalue) list"

lemma pvalue_pair_size [termination_simp]:
  "(k, v) \<in> set xs \<Longrightarrow> size v < Suc (size_list (size_prod (\<lambda>x. 0) size) xs)"
  by (induction xs) auto

fun prost_value_to_json :: "pvalue \<Rightarrow> json" where
  "prost_value_to_json (PValue None) = JNull"
| "prost_value_to_json (PValue (Some (NullValue _))) = JNull"
| "prost_value_to_json (PValue (Some (BoolValue b))) = JBool b"
| "prost_value_to_json (PValue (Some (NumberValue n))) =
     (case number_from_f64 n of Some m \<Rightarrow> JNumber m | None \<Rightarrow> JNull)"
| "prost_value_to_json (PValue (Some (StringValue s))) = JString s"
| "prost_value_to_json (PValue (Some (ListValue l))) = JArray (map prost_value_to_json l)"
| "prost_value_to_json (PValue (Some (StructValue s))) =
     JObject (map (\<lambda>(k, v). (k, prost_value_to_json v)) s)"

fun json_to_prost_value :: "json \<Rightarrow> pvalue" where
  "json_to_prost_value JNull = PValue (Some (NullValue 0))"
| "json_to_prost_value (JBool b) = PValue (Some (BoolValue b))"
| "json_to_prost_value (JNumber n) = PValue (Some (NumberValue (Fin (number_as_f64 n))))"
| "json_to_prost_value (JString s) = PValue (Some (StringValue s))"
| "json_to_prost_value (JArray a) = PValue (Some (ListValue (map json_to_prost_value a)))"
| "json_to_prost_value (JObject obj) =
     PValue (Some (StructValue (map (\<lambda>(k, v). (k, json_to_prost_value v)) obj)))"

definition json_object_to_struct :: "(string \<times> json) list \<Rightarrow> pstruct" where
  "json_object_to_struct obj = map (\<lambda>(k, v). (k, json_to_prost_value v)) obj"

fun json_to_struct :: "json \<Rightarrow> pstruct" where
  "json_to_struct (JObject obj) = json_object_to_struct obj"
| "json_to_struct _ = []"

lemma prost_json_roundtrip [codec_simps]: "prost_value_to_json (json_to_prost_value v) = floated v"
  by (induction v rule: floated.induct) auto

lemma json_prost_floated [codec_simps]: "json_to_prost_value (floated v) = json_to_prost_value v"
  by (induction v rule: floated.induct) auto

lemma floated_prost [simp]: "floated (prost_value_to_json p) = prost_value_to_json p"
proof (induction p rule: prost_value_to_json.induct)
  case (4 n)
  show ?case by (cases n) simp_all
qed auto

section \<open>Messages\<close>

datatype PbValueType = VtUnspecified | VtBoolean | VtString | VtInteger | VtFloat | VtObject

datatype PbReason =
    RUnspecified | RStatic | RDefault | RTargetingMatch | RSplit | RDisabled | RError

datatype PbOperator =
    PoUnspecified | PoEq | PoNeq | PoIn | PoNotIn | PoContains | PoStartsWith | PoEndsWith
  | PoGt | PoGte | PoLt | PoLte | PoExists | PoRegex | PoFlagMatches

definition pb_value_types :: "PbValueType list" where
  "pb_value_types = [VtUnspecified, VtBoolean, VtString, VtInteger, VtFloat, VtObject]"

definition pb_reasons :: "PbReason list" where
  "pb_reasons = [RUnspecified, RStatic, RDefault, RTargetingMatch, RSplit, RDisabled, RError]"

definition pb_operators :: "PbOperator list" where
  "pb_operators =
     [PoUnspecified, PoEq, PoNeq, PoIn, PoNotIn, PoContains, PoStartsWith, PoEndsWith,
      PoGt, PoGte, PoLt, PoLte, PoExists, PoRegex, PoFlagMatches]"

text \<open>\<open>e as i32\<close> and \<open>E::try_from(i32)\<close>: the numbers of the \<open>.proto\<close> are the positions.\<close>

fun index_of :: "'a \<Rightarrow> 'a list \<Rightarrow> int" where
  "index_of x [] = 0"
| "index_of x (y # ys) = (if x = y then 0 else 1 + index_of x ys)"

definition nth_variant :: "'a list \<Rightarrow> int \<Rightarrow> 'a option" where
  "nth_variant es i = (if 0 \<le> i \<and> nat i < length es then Some (es ! nat i) else None)"

definition value_type_as_i32 :: "PbValueType \<Rightarrow> int" where
  "value_type_as_i32 t = index_of t pb_value_types"

definition value_type_of_i32 :: "int \<Rightarrow> PbValueType" where
  "value_type_of_i32 i = (case nth_variant pb_value_types i of Some t \<Rightarrow> t | None \<Rightarrow> VtUnspecified)"

definition reason_as_i32 :: "PbReason \<Rightarrow> int" where
  "reason_as_i32 r = index_of r pb_reasons"

definition reason_of_i32 :: "int \<Rightarrow> PbReason" where
  "reason_of_i32 i = (case nth_variant pb_reasons i of Some r \<Rightarrow> r | None \<Rightarrow> RUnspecified)"

definition operator_as_i32 :: "PbOperator \<Rightarrow> int" where
  "operator_as_i32 p = index_of p pb_operators"

definition operator_of_i32 :: "int \<Rightarrow> PbOperator" where
  "operator_of_i32 i = (case nth_variant pb_operators i of Some p \<Rightarrow> p | None \<Rightarrow> PoUnspecified)"

lemma value_type_i32_roundtrip [codec_simps]: "value_type_of_i32 (value_type_as_i32 t) = t"
  by (cases t) (simp_all add: value_type_of_i32_def value_type_as_i32_def pb_value_types_def
    nth_variant_def)

lemma reason_i32_roundtrip [codec_simps]: "reason_of_i32 (reason_as_i32 r) = r"
  by (cases r) (simp_all add: reason_of_i32_def reason_as_i32_def pb_reasons_def nth_variant_def)

lemma operator_i32_roundtrip [codec_simps]: "operator_of_i32 (operator_as_i32 p) = p"
  by (cases p) (simp_all add: operator_of_i32_def operator_as_i32_def pb_operators_def
    nth_variant_def)

record PbVariant =
  pv_key :: string
  pv_value :: "pvalue option"

record PbConstraint =
  pc_attribute :: string
  pc_operator :: int
  pc_values :: "pvalue list"

record PbConstraintGroup =
  pg_constraints :: "PbConstraint list"

record PbSegment =
  ps_key :: string
  ps_name :: string
  ps_constraints :: "PbConstraint list"

record PbDistribution =
  pd_variant_key :: string
  pd_weight :: u32

record PbRule =
  pr_rank :: u32
  pr_segment_key :: string
  pr_variant_key :: string
  pr_distributions :: "PbDistribution list"
  pr_constraint_groups :: "PbConstraintGroup list"
  pr_bucket_salt :: string

record PbFlag =
  pf_key :: string
  pf_value_type :: int
  pf_enabled :: bool
  pf_default_variant_key :: string
  pf_archived :: bool
  pf_variants :: "PbVariant list"
  pf_rules :: "PbRule list"

record PbResolutionMeta =
  pm_variant :: string
  pm_reason :: int
  pm_error_code :: string
  pm_error_message :: string

record PbEvaluationContext =
  px_targeting_key :: string
  px_attributes :: "pstruct option"

record PbSnapshotResponse =
  psn_version :: int
  psn_flags :: "PbFlag list"
  psn_segments :: "PbSegment list"

section \<open>Enums\<close>

type_synonym ConversionError = string

fun value_type_to_pb :: "ValueType \<Rightarrow> PbValueType" where
  "value_type_to_pb Boolean = VtBoolean"
| "value_type_to_pb String = VtString"
| "value_type_to_pb Integer = VtInteger"
| "value_type_to_pb FloatT = VtFloat"
| "value_type_to_pb Object = VtObject"

fun value_type_try_from :: "PbValueType \<Rightarrow> (ConversionError, ValueType) result" where
  "value_type_try_from VtUnspecified = Err ''value_type is unspecified''"
| "value_type_try_from VtBoolean = Ok Boolean"
| "value_type_try_from VtString = Ok String"
| "value_type_try_from VtInteger = Ok Integer"
| "value_type_try_from VtFloat = Ok FloatT"
| "value_type_try_from VtObject = Ok Object"

fun reason_to_pb :: "Reason \<Rightarrow> PbReason" where
  "reason_to_pb Static = RStatic"
| "reason_to_pb Default = RDefault"
| "reason_to_pb TargetingMatch = RTargetingMatch"
| "reason_to_pb Split = RSplit"
| "reason_to_pb Disabled = RDisabled"
| "reason_to_pb ErrorR = RError"

fun operator_to_pb :: "Operator \<Rightarrow> PbOperator" where
  "operator_to_pb OpEq = PoEq"
| "operator_to_pb OpNeq = PoNeq"
| "operator_to_pb OpIn = PoIn"
| "operator_to_pb OpNotIn = PoNotIn"
| "operator_to_pb OpContains = PoContains"
| "operator_to_pb OpStartsWith = PoStartsWith"
| "operator_to_pb OpEndsWith = PoEndsWith"
| "operator_to_pb OpGt = PoGt"
| "operator_to_pb OpGte = PoGte"
| "operator_to_pb OpLt = PoLt"
| "operator_to_pb OpLte = PoLte"
| "operator_to_pb OpExists = PoExists"
| "operator_to_pb OpRegex = PoRegex"
| "operator_to_pb OpFlagMatches = PoFlagMatches"

fun operator_try_from :: "PbOperator \<Rightarrow> (ConversionError, Operator) result" where
  "operator_try_from PoUnspecified = Err ''constraint operator is unspecified''"
| "operator_try_from PoEq = Ok OpEq"
| "operator_try_from PoNeq = Ok OpNeq"
| "operator_try_from PoIn = Ok OpIn"
| "operator_try_from PoNotIn = Ok OpNotIn"
| "operator_try_from PoContains = Ok OpContains"
| "operator_try_from PoStartsWith = Ok OpStartsWith"
| "operator_try_from PoEndsWith = Ok OpEndsWith"
| "operator_try_from PoGt = Ok OpGt"
| "operator_try_from PoGte = Ok OpGte"
| "operator_try_from PoLt = Ok OpLt"
| "operator_try_from PoLte = Ok OpLte"
| "operator_try_from PoExists = Ok OpExists"
| "operator_try_from PoRegex = Ok OpRegex"
| "operator_try_from PoFlagMatches = Ok OpFlagMatches"

lemma value_type_pb_roundtrip [codec_simps]: "value_type_try_from (value_type_to_pb t) = Ok t"
  by (cases t) simp_all

lemma operator_pb_roundtrip [codec_simps]: "operator_try_from (operator_to_pb p) = Ok p"
  by (cases p) simp_all

end
