(* ===== verification/FlagConvert.thy ===== *)
theory FlagConvert
  imports FlagWire
begin

text \<open>
  \<open>From\<close> and \<open>TryFrom\<close> between the domain model and the messages
  (\<open>feature-flag-engine/src/convert/mod.rs\<close>), with one contract for all of them: decoding
  what was encoded succeeds and gives back the value in wire normal form. The normal form
  has floats for all numbers and no empty optional key.
\<close>

section \<open>From the domain to the wire\<close>

definition variant_to_pb :: "Variant \<Rightarrow> PbVariant" where
  "variant_to_pb v = \<lparr>pv_key = v_key v, pv_value = Some (json_to_prost_value (v_value v))\<rparr>"

definition domain_constraint_to_pb :: "Constraint \<Rightarrow> PbConstraint" where
  "domain_constraint_to_pb c =
     \<lparr>pc_attribute = c_attribute c,
      pc_operator = operator_as_i32 (operator_to_pb (c_operator c)),
      pc_values = map json_to_prost_value (c_values c)\<rparr>"

definition distribution_to_pb :: "Distribution \<Rightarrow> PbDistribution" where
  "distribution_to_pb d = \<lparr>pd_variant_key = d_variant_key d, pd_weight = d_weight d\<rparr>"

definition group_to_pb :: "ConstraintGroup \<Rightarrow> PbConstraintGroup" where
  "group_to_pb g = \<lparr>pg_constraints = map domain_constraint_to_pb (g_constraints g)\<rparr>"

definition unwrap_or_default :: "string option \<Rightarrow> string" where
  "unwrap_or_default x = (case x of None \<Rightarrow> [] | Some s \<Rightarrow> s)"

definition rule_to_pb :: "Rule \<Rightarrow> PbRule" where
  "rule_to_pb r =
     \<lparr>pr_rank = r_rank r,
      pr_segment_key = unwrap_or_default (r_segment_key r),
      pr_variant_key = unwrap_or_default (r_variant_key r),
      pr_distributions = map distribution_to_pb (r_distributions r),
      pr_constraint_groups = map group_to_pb (r_constraint_groups r),
      pr_bucket_salt = r_bucket_salt r\<rparr>"

definition segment_to_pb :: "Segment \<Rightarrow> PbSegment" where
  "segment_to_pb s =
     \<lparr>ps_key = s_key s, ps_name = s_name s,
      ps_constraints = map domain_constraint_to_pb (s_constraints s)\<rparr>"

definition flag_to_pb :: "Flag \<Rightarrow> PbFlag" where
  "flag_to_pb f =
     \<lparr>pf_key = f_key f,
      pf_value_type = value_type_as_i32 (value_type_to_pb (f_value_type f)),
      pf_enabled = f_enabled f,
      pf_default_variant_key = f_default_variant_key f,
      pf_archived = f_archived f,
      pf_variants = map variant_to_pb (f_variants f),
      pf_rules = map rule_to_pb (f_rules f)\<rparr>"

definition resolution_to_meta :: "Resolution \<Rightarrow> PbResolutionMeta" where
  "resolution_to_meta res =
     \<lparr>pm_variant = res_variant res, pm_reason = reason_as_i32 (reason_to_pb (res_reason res)),
      pm_error_code = [], pm_error_message = []\<rparr>"

definition meta_err :: "string \<Rightarrow> string \<Rightarrow> PbResolutionMeta" where
  "meta_err code message =
     \<lparr>pm_variant = [], pm_reason = reason_as_i32 RError, pm_error_code = code,
      pm_error_message = message\<rparr>"

definition type_mismatch :: "string \<Rightarrow> PbResolutionMeta" where
  "type_mismatch expected = meta_err ''TYPE_MISMATCH'' (''flag is not of type '' @ expected)"

section \<open>From the wire to the domain\<close>

definition context_from_pb :: "PbEvaluationContext \<Rightarrow> EvalContext" where
  "context_from_pb ctx =
     \<lparr>targeting_key = px_targeting_key ctx,
      attributes = (case px_attributes ctx of
                      None \<Rightarrow> []
                    | Some s \<Rightarrow> map (\<lambda>(k, v). (k, prost_value_to_json v)) s)\<rparr>"

definition variant_from_pb :: "PbVariant \<Rightarrow> Variant" where
  "variant_from_pb v =
     \<lparr>v_key = pv_key v,
      v_value = (case pv_value v of None \<Rightarrow> JNull | Some x \<Rightarrow> prost_value_to_json x)\<rparr>"

definition constraint_from_pb :: "PbConstraint \<Rightarrow> (ConversionError, Constraint) result" where
  "constraint_from_pb c =
     (case operator_try_from (operator_of_i32 (pc_operator c)) of
        Err e \<Rightarrow> Err e
      | Ok p \<Rightarrow> Ok \<lparr>c_attribute = pc_attribute c, c_operator = p,
                   c_values = map prost_value_to_json (pc_values c)\<rparr>)"

definition pb_constraints_to_domain ::
  "PbConstraint list \<Rightarrow> (ConversionError, Constraint list) result" where
  "pb_constraints_to_domain cs = traverse constraint_from_pb cs"

definition distribution_from_pb :: "PbDistribution \<Rightarrow> Distribution" where
  "distribution_from_pb d = \<lparr>d_variant_key = pd_variant_key d, d_weight = pd_weight d\<rparr>"

definition group_from_pb :: "PbConstraintGroup \<Rightarrow> (ConversionError, ConstraintGroup) result" where
  "group_from_pb g =
     (case pb_constraints_to_domain (pg_constraints g) of
        Err e \<Rightarrow> Err e
      | Ok cs \<Rightarrow> Ok \<lparr>g_constraints = cs\<rparr>)"

text \<open>\<open>(!s.is_empty()).then(|| s.clone())\<close>\<close>

definition non_empty :: "string \<Rightarrow> string option" where
  "non_empty s = (if s \<noteq> [] then Some s else None)"

definition rule_try_from :: "PbRule \<Rightarrow> (ConversionError, Rule) result" where
  "rule_try_from r =
     (case traverse group_from_pb (pr_constraint_groups r) of
        Err e \<Rightarrow> Err e
      | Ok gs \<Rightarrow> Ok \<lparr>r_rank = pr_rank r,
                    r_segment_key = non_empty (pr_segment_key r),
                    r_variant_key = non_empty (pr_variant_key r),
                    r_distributions = map distribution_from_pb (pr_distributions r),
                    r_constraint_groups = gs,
                    r_bucket_salt = pr_bucket_salt r\<rparr>)"

definition segment_try_from :: "PbSegment \<Rightarrow> (ConversionError, Segment) result" where
  "segment_try_from s =
     (case pb_constraints_to_domain (ps_constraints s) of
        Err e \<Rightarrow> Err e
      | Ok cs \<Rightarrow> Ok \<lparr>s_key = ps_key s, s_name = ps_name s, s_constraints = cs\<rparr>)"

definition flag_try_from :: "PbFlag \<Rightarrow> (ConversionError, Flag) result" where
  "flag_try_from f =
     (case value_type_try_from (value_type_of_i32 (pf_value_type f)) of
        Err e \<Rightarrow> Err e
      | Ok t \<Rightarrow>
          (case traverse rule_try_from (pf_rules f) of
             Err e \<Rightarrow> Err e
           | Ok rs \<Rightarrow> Ok \<lparr>f_key = pf_key f, f_value_type = t, f_enabled = pf_enabled f,
                         f_default_variant_key = pf_default_variant_key f,
                         f_archived = pf_archived f,
                         f_variants = map variant_from_pb (pf_variants f), f_rules = rs\<rparr>))"

text \<open>The two loops of \<open>TryFrom<pb::SnapshotResponse> for Snapshot\<close>.\<close>

fun insert_flags :: "PbFlag list \<Rightarrow> Flag hmap \<Rightarrow> (ConversionError, Flag hmap) result" where
  "insert_flags [] m = Ok m"
| "insert_flags (f # fs) m =
     (case flag_try_from f of
        Err e \<Rightarrow> Err e
      | Ok flag \<Rightarrow> insert_flags fs (hinsert (f_key flag) flag m))"

fun insert_segments :: "PbSegment list \<Rightarrow> Segment hmap \<Rightarrow> (ConversionError, Segment hmap) result" where
  "insert_segments [] m = Ok m"
| "insert_segments (s # ss) m =
     (case segment_try_from s of
        Err e \<Rightarrow> Err e
      | Ok segment \<Rightarrow> insert_segments ss (hinsert (s_key segment) segment m))"

definition snapshot_try_from :: "PbSnapshotResponse \<Rightarrow> (ConversionError, Snapshot) result" where
  "snapshot_try_from resp =
     (case insert_flags (psn_flags resp) [] of
        Err e \<Rightarrow> Err e
      | Ok fs \<Rightarrow> (case insert_segments (psn_segments resp) [] of
                   Err e \<Rightarrow> Err e
                 | Ok ss \<Rightarrow> Ok \<lparr>sn_version = psn_version resp, sn_flags = fs, sn_segments = ss\<rparr>))"

text \<open>\<open>snapshot_response\<close> of \<open>grpc/evaluation.rs\<close>: the message every snapshot RPC carries.\<close>

definition snapshot_response :: "Snapshot \<Rightarrow> PbSnapshotResponse" where
  "snapshot_response sn =
     \<lparr>psn_version = sn_version sn,
      psn_flags = map flag_to_pb (hvalues (sn_flags sn)),
      psn_segments = map segment_to_pb (hvalues (sn_segments sn))\<rparr>"

section \<open>The codec contract\<close>

locale codec =
  fixes enc :: "'a \<Rightarrow> 'b"
    and dec :: "'b \<Rightarrow> ('e, 'a) result"
    and norm :: "'a \<Rightarrow> 'a"
  assumes dec_enc: "dec (enc x) = Ok (norm x)"
    and enc_norm: "enc (norm x) = enc x"
begin

lemma norm_idem: "norm (norm x) = norm x"
  using dec_enc [of "norm x"] dec_enc [of x] by (simp add: enc_norm)

lemma traverse_enc: "traverse dec (map enc xs) = Ok (map norm xs)"
  by (simp add: traverse_map traverse_Ok_map dec_enc)

lemma map_enc_norm: "map enc (map norm xs) = map enc xs"
  by (simp add: enc_norm)

lemma enc_eq_iff: "enc x = enc y \<longleftrightarrow> norm x = norm y"
  using dec_enc [of x] dec_enc [of y] enc_norm [of x] enc_norm [of y] by (metis Inr_inject)

end

section \<open>Wire normal form\<close>

definition norm_variant :: "Variant \<Rightarrow> Variant" where
  "norm_variant v = v\<lparr>v_value := floated (v_value v)\<rparr>"

definition norm_constraint :: "Constraint \<Rightarrow> Constraint" where
  "norm_constraint c = c\<lparr>c_values := map floated (c_values c)\<rparr>"

definition norm_group :: "ConstraintGroup \<Rightarrow> ConstraintGroup" where
  "norm_group g = g\<lparr>g_constraints := map norm_constraint (g_constraints g)\<rparr>"

definition norm_key :: "string option \<Rightarrow> string option" where
  "norm_key x = (if x = Some [] then None else x)"

definition norm_rule :: "Rule \<Rightarrow> Rule" where
  "norm_rule r =
     r\<lparr>r_segment_key := norm_key (r_segment_key r), r_variant_key := norm_key (r_variant_key r),
       r_constraint_groups := map norm_group (r_constraint_groups r)\<rparr>"

definition norm_segment :: "Segment \<Rightarrow> Segment" where
  "norm_segment s = s\<lparr>s_constraints := map norm_constraint (s_constraints s)\<rparr>"

definition norm_flag :: "Flag \<Rightarrow> Flag" where
  "norm_flag f = f\<lparr>f_variants := map norm_variant (f_variants f), f_rules := map norm_rule (f_rules f)\<rparr>"

lemmas norm_defs =
  norm_variant_def norm_constraint_def norm_group_def norm_key_def norm_rule_def
  norm_segment_def norm_flag_def

lemma norm_flag_keys [simp]: "f_key (norm_flag f) = f_key f" "s_key (norm_segment s) = s_key s"
  by (simp_all add: norm_flag_def norm_segment_def)

lemma non_empty_unwrap [codec_simps]: "non_empty (unwrap_or_default x) = norm_key x"
  by (cases x) (auto simp: non_empty_def unwrap_or_default_def norm_key_def)

lemma unwrap_norm_key [codec_simps]: "unwrap_or_default (norm_key x) = unwrap_or_default x"
  by (cases x) (auto simp: unwrap_or_default_def norm_key_def)

lemma distribution_roundtrip [codec_simps]: "distribution_from_pb (distribution_to_pb d) = d"
  by (simp add: distribution_from_pb_def distribution_to_pb_def)

lemma variant_roundtrip [codec_simps]: "variant_from_pb (variant_to_pb v) = norm_variant v"
  by (simp add: variant_from_pb_def variant_to_pb_def norm_variant_def codec_simps)

lemma variant_norm [codec_simps]: "variant_to_pb (norm_variant v) = variant_to_pb v"
  by (simp add: variant_to_pb_def norm_variant_def codec_simps)

interpretation cc: codec domain_constraint_to_pb constraint_from_pb norm_constraint
  by unfold_locales
    (simp_all add: constraint_from_pb_def domain_constraint_to_pb_def norm_constraint_def
      codec_simps comp_def)

interpretation cg: codec group_to_pb group_from_pb norm_group
  by unfold_locales
    (simp_all add: group_from_pb_def group_to_pb_def norm_group_def pb_constraints_to_domain_def
      cc.traverse_enc cc.enc_norm comp_def)

interpretation cr: codec rule_to_pb rule_try_from norm_rule
  by unfold_locales
    (simp_all add: rule_try_from_def rule_to_pb_def norm_rule_def cg.traverse_enc cg.enc_norm
      codec_simps comp_def)

interpretation cs: codec segment_to_pb segment_try_from norm_segment
  by unfold_locales
    (simp_all add: segment_try_from_def segment_to_pb_def norm_segment_def
      pb_constraints_to_domain_def cc.traverse_enc cc.enc_norm comp_def)

interpretation cf: codec flag_to_pb flag_try_from norm_flag
  by unfold_locales
    (simp_all add: flag_try_from_def flag_to_pb_def norm_flag_def cr.traverse_enc cr.enc_norm
      codec_simps comp_def)

section \<open>Transport of a snapshot\<close>

lemma insert_flags_fill:
  "insert_flags fs m =
    (case traverse flag_try_from fs of Err e \<Rightarrow> Err e | Ok xs \<Rightarrow> Ok (hm.fill f_key (\<lambda>f. f) xs m))"
  by (induction fs arbitrary: m) (auto simp: hm.fill_def split: sum.splits)

lemma insert_segments_fill:
  "insert_segments ss m =
    (case traverse segment_try_from ss of Err e \<Rightarrow> Err e | Ok xs \<Rightarrow> Ok (hm.fill s_key (\<lambda>s. s) xs m))"
  by (induction ss arbitrary: m) (auto simp: hm.fill_def split: sum.splits)

text \<open>Refilling a map from its own values, each stored under its own key.\<close>

lemma fill_values:
  assumes wf: "hwf m" and own: "\<forall>(k, v) \<in> set m. key v = k" and keep: "\<And>v. key (g v) = key v"
  shows "hget (hm.fill key (\<lambda>v. v) (map g (hvalues m)) []) k = map_option g (hget m k)"
proof (cases "hget m k")
  case None
  have "k \<notin> key ` set (map g (hvalues m))"
  proof
    assume "k \<in> key ` set (map g (hvalues m))"
    then obtain j v where "(j, v) \<in> set m" and "key v = k" by (auto simp: keep)
    with own have "(k, v) \<in> set m" by auto
    with wf have "hget m k = Some v" by (simp only: hget_in_iff)
    with None show False by simp
  qed
  with None show ?thesis by (simp add: hm.get_fill_other)
next
  case (Some v)
  with own have in_m: "(k, v) \<in> set m" and kv: "key v = k" by (auto dest: hget_Some_in)
  have "map key (map g (hvalues m)) = hkeys m"
    using own by (auto simp: keep)
  with wf have "distinct (map key (map g (hvalues m)))" by (simp only:)
  moreover from in_m have "g v \<in> set (map g (hvalues m))" by force
  ultimately have "hget (hm.fill key (\<lambda>v. v) (map g (hvalues m)) []) (key (g v)) = Some (g v)"
    by (rule hm.get_fill_distinct)
  with Some kv show ?thesis by (simp add: keep)
qed

lemma fill_own_keys:
  "\<forall>(k, v) \<in> set m. key v = k \<Longrightarrow> \<forall>(k, v) \<in> set (hm.fill key (\<lambda>v. v) xs m). key v = k"
proof (induction xs arbitrary: m)
  case Nil
  then show ?case by (simp add: hm.fill_def)
next
  case (Cons x xs)
  have "\<forall>(k, v) \<in> set (hinsert (key x) x m). key v = k"
    by (rule hinsert_entries [OF Cons.prems]) simp
  from Cons.IH [OF this] show ?case by (simp add: hm.fill_def)
qed

definition same_lookup :: "Snapshot \<Rightarrow> Snapshot \<Rightarrow> bool" where
  "same_lookup sn sn' \<longleftrightarrow>
     sn_version sn' = sn_version sn
     \<and> (\<forall>k. hget (sn_flags sn') k = map_option norm_flag (hget (sn_flags sn) k))
     \<and> (\<forall>k. hget (sn_segments sn') k = map_option norm_segment (hget (sn_segments sn) k))"

lemma snapshot_transport:
  assumes "snapshot_wf sn"
  shows "\<exists>sn'. snapshot_try_from (snapshot_response sn) = Ok sn' \<and> snapshot_wf sn' \<and> same_lookup sn sn'"
proof -
  let ?fs = "hm.fill f_key (\<lambda>f. f) (map norm_flag (hvalues (sn_flags sn))) []"
  let ?ss = "hm.fill s_key (\<lambda>s. s) (map norm_segment (hvalues (sn_segments sn))) []"
  let ?sn = "\<lparr>sn_version = sn_version sn, sn_flags = ?fs, sn_segments = ?ss\<rparr>"
  have "snapshot_try_from (snapshot_response sn) = Ok ?sn"
    by (simp add: snapshot_try_from_def snapshot_response_def insert_flags_fill insert_segments_fill
      cf.traverse_enc cs.traverse_enc del: map_map)
  moreover have "snapshot_wf ?sn"
    unfolding snapshot_wf_def Snapshot.select_convs
    by (intro conjI hm.wf_fill fill_own_keys) simp_all
  moreover have "same_lookup sn ?sn"
    using assms unfolding same_lookup_def snapshot_wf_def Snapshot.select_convs
    by (intro conjI allI fill_values) simp_all
  ultimately show ?thesis by blast
qed

text \<open>A snapshot in wire normal form: what a configuration written over gRPC is.\<close>

definition wire_normal :: "Snapshot \<Rightarrow> bool" where
  "wire_normal sn \<longleftrightarrow>
     (\<forall>(k, f) \<in> set (sn_flags sn). norm_flag f = f)
     \<and> (\<forall>(k, s) \<in> set (sn_segments sn). norm_segment s = s)"

lemma same_lookup_normal:
  assumes "same_lookup sn sn'" and "wire_normal sn"
  shows "hget (sn_flags sn') k = hget (sn_flags sn) k"
    and "hget (sn_segments sn') k = hget (sn_segments sn) k"
  using assms by (auto simp: same_lookup_def wire_normal_def map_option_case
    dest: hget_Some_in split: option.splits)

lemma evaluate_same_lookup:
  assumes "same_lookup sn sn'" and "wire_normal sn"
  shows "evaluate X sn' k ctx = evaluate X sn k ctx"
  by (rule evaluate_agree) (simp add: agree_on_def same_lookup_normal [OF assms])

lemma evaluate_transport:
  "snapshot_wf sn \<Longrightarrow> wire_normal sn \<Longrightarrow>
    \<exists>sn'. snapshot_try_from (snapshot_response sn) = Ok sn' \<and> snapshot_wf sn' \<and> same_lookup sn sn'
      \<and> (\<forall>X k ctx. evaluate X sn' k ctx = evaluate X sn k ctx)"
  using snapshot_transport evaluate_same_lookup by metis

text \<open>Whatever arrives over the wire is in normal form.\<close>

lemma norm_variant_from_pb: "norm_variant (variant_from_pb v) = variant_from_pb v"
  by (simp add: norm_variant_def variant_from_pb_def split: option.splits)

lemma norm_constraint_from_pb: "constraint_from_pb p = Ok c \<Longrightarrow> norm_constraint c = c"
  by (auto simp: constraint_from_pb_def norm_constraint_def split: sum.splits)

lemma map_fixpoint: "(\<And>x. x \<in> set xs \<Longrightarrow> f x = x) \<Longrightarrow> map f xs = xs"
  by (induction xs) auto

lemma traverse_fixpoint:
  assumes "traverse f ps = Ok xs" and "\<And>p x. f p = Ok x \<Longrightarrow> g x = x"
  shows "map g xs = xs"
proof (rule map_fixpoint)
  fix x
  assume "x \<in> set xs"
  with assms(1) obtain p where "f p = Ok x"
    by (auto simp: traverse_Ok_iff list_all2_conv_all_nth in_set_conv_nth)
  then show "g x = x" by (rule assms(2))
qed

lemma norm_group_from_pb: "group_from_pb p = Ok g \<Longrightarrow> norm_group g = g"
  by (auto simp: group_from_pb_def norm_group_def pb_constraints_to_domain_def
    dest: traverse_fixpoint [OF _ norm_constraint_from_pb] split: sum.splits)

lemma norm_key_non_empty [codec_simps]: "norm_key (non_empty s) = non_empty s"
  by (simp add: norm_key_def non_empty_def)

lemma norm_rule_from_pb: "rule_try_from p = Ok r \<Longrightarrow> norm_rule r = r"
  by (auto simp: rule_try_from_def norm_rule_def codec_simps
    dest: traverse_fixpoint [OF _ norm_group_from_pb] split: sum.splits)

lemma norm_flag_from_pb: "flag_try_from p = Ok f \<Longrightarrow> norm_flag f = f"
  by (auto simp: flag_try_from_def norm_flag_def norm_variant_from_pb
    dest: traverse_fixpoint [OF _ norm_rule_from_pb] split: sum.splits)

lemma norm_segment_from_pb: "segment_try_from p = Ok s \<Longrightarrow> norm_segment s = s"
  by (auto simp: segment_try_from_def norm_segment_def pb_constraints_to_domain_def
    dest: traverse_fixpoint [OF _ norm_constraint_from_pb] split: sum.splits)

lemma insert_flags_inv:
  "insert_flags fs m = Ok m' \<Longrightarrow> \<forall>(k, f) \<in> set m. norm_flag f = f
    \<Longrightarrow> \<forall>(k, f) \<in> set m'. norm_flag f = f"
proof (induction fs arbitrary: m)
  case Nil
  then show ?case by simp
next
  case (Cons p fs)
  from Cons.prems(1) obtain f where f: "flag_try_from p = Ok f"
    and rest: "insert_flags fs (hinsert (f_key f) f m) = Ok m'"
    by (auto split: sum.splits)
  have "\<forall>(k, f') \<in> set (hinsert (f_key f) f m). norm_flag f' = f'"
    by (rule hinsert_entries [OF Cons.prems(2) norm_flag_from_pb [OF f]])
  with rest show ?case by (rule Cons.IH)
qed

lemma insert_segments_inv:
  "insert_segments ss m = Ok m' \<Longrightarrow> \<forall>(k, s) \<in> set m. norm_segment s = s
    \<Longrightarrow> \<forall>(k, s) \<in> set m'. norm_segment s = s"
proof (induction ss arbitrary: m)
  case Nil
  then show ?case by simp
next
  case (Cons p ss)
  from Cons.prems(1) obtain s where s: "segment_try_from p = Ok s"
    and rest: "insert_segments ss (hinsert (s_key s) s m) = Ok m'"
    by (auto split: sum.splits)
  have "\<forall>(k, s') \<in> set (hinsert (s_key s) s m). norm_segment s' = s'"
    by (rule hinsert_entries [OF Cons.prems(2) norm_segment_from_pb [OF s]])
  with rest show ?case by (rule Cons.IH)
qed

lemma snapshot_try_from_normal: "snapshot_try_from resp = Ok sn \<Longrightarrow> wire_normal sn"
  by (auto simp: snapshot_try_from_def wire_normal_def
    dest!: insert_flags_inv insert_segments_inv split: sum.splits)

text \<open>In normal form no variant holds an integer, only floats.\<close>

lemma norm_flag_variants:
  assumes "norm_flag f = f" and "v \<in> set (f_variants f)"
  shows "floated (v_value v) = v_value v"
proof -
  from assms(1) have "f_variants (norm_flag f) = f_variants f" by simp
  then have "map norm_variant (f_variants f) = f_variants f" by (simp add: norm_flag_def)
  with assms(2) have "norm_variant v = v"
    by (metis map_eq_conv list.map_ident)
  then have "v_value (norm_variant v) = v_value v" by simp
  then show ?thesis by (simp add: norm_variant_def)
qed

end
