(* ===== verification/FlagSnapshot.thy ===== *)
theory FlagSnapshot
  imports FlagConvert
begin

text \<open>
  The live snapshot of the backend: \<open>platform-services/feature-flags/src/snapshot.rs\<close> and
  the errors of \<open>src/error.rs\<close>. The manager's state is the current snapshot, the snapshot
  last written to the shared cache and the updates sent to subscribers, newest last. The
  answers of Postgres and of the cache are arguments of the operations. \<open>reload\<close> runs under
  \<open>reload_lock\<close>, so a history of the manager is a sequence of reloads.
\<close>

section \<open>Errors\<close>

datatype AppError =
    Sqlx string
  | NotFound string
  | Invalid string
  | Aborted string
  | Other string

datatype StatusCode = CodeInternal | CodeNotFound | CodeInvalidArgument | CodeAborted | CodeUnauthenticated

type_synonym status = "StatusCode \<times> string"

fun status_from :: "AppError \<Rightarrow> status" where
  "status_from (NotFound m) = (CodeNotFound, m)"
| "status_from (Invalid m) = (CodeInvalidArgument, m)"
| "status_from (Aborted m) = (CodeAborted, m)"
| "status_from (Sqlx e) = (CodeInternal, ''database error: '' @ e)"
| "status_from (Other e) = (CodeInternal, e)"

section \<open>State\<close>

record ConfigUpdate =
  cu_version :: int
  cu_changed_flag_keys :: "string list"

record SnapshotManager =
  current :: Snapshot
  cache_cell :: "Snapshot option"
  sent :: "ConfigUpdate list"

text \<open>
  \<open>initial\<close>: the cached snapshot is used only at the version Postgres reports. The first
  component is the result, the second what was written to the cache. \<open>cached\<close> is the answer
  of the cache, \<open>None\<close> also when there is no cache; \<open>has_cache\<close> says whether there is one.
\<close>

definition initial ::
  "(AppError, int) result \<Rightarrow> bool \<Rightarrow> Snapshot option \<Rightarrow> (AppError, Snapshot) result
     \<Rightarrow> (AppError, Snapshot) result \<times> Snapshot option" where
  "initial config_version has_cache cached loaded =
     (case config_version of
        Err e \<Rightarrow> (Err e, None)
      | Ok version \<Rightarrow>
          (case (if has_cache then cached else None) of
             Some c \<Rightarrow>
               if sn_version c = version then (Ok c, None)
               else (case loaded of
                       Err e \<Rightarrow> (Err e, None)
                     | Ok sn \<Rightarrow> (Ok sn, if has_cache then Some sn else None))
           | None \<Rightarrow> (case loaded of
                       Err e \<Rightarrow> (Err e, None)
                     | Ok sn \<Rightarrow> (Ok sn, if has_cache then Some sn else None))))"

definition bootstrap ::
  "(AppError, int) result \<Rightarrow> bool \<Rightarrow> Snapshot option \<Rightarrow> (AppError, Snapshot) result
     \<Rightarrow> SnapshotManager" where
  "bootstrap config_version has_cache cached loaded =
     (let (r, put) = initial config_version has_cache cached loaded
      in \<lparr>current = (case r of Ok sn \<Rightarrow> sn | Err _ \<Rightarrow> snapshot_default),
          cache_cell = (case put of Some sn \<Rightarrow> Some sn | None \<Rightarrow> cached),
          sent = []\<rparr>)"

section \<open>Changed flags\<close>

text \<open>
  A \<open>BTreeSet<&str>\<close> collected into a \<open>Vec\<close> is the sorted list of its elements without
  repetition.
\<close>

definition btree_set :: "string list \<Rightarrow> string list" where
  "btree_set ks = sort (remdups ks)"

lemma set_btree_set [simp]: "set (btree_set ks) = set ks"
  by (simp add: btree_set_def)

lemma sorted_btree_set: "sorted (btree_set ks) \<and> distinct (btree_set ks)"
  by (simp add: btree_set_def)

definition changed_segments :: "Snapshot \<Rightarrow> Snapshot \<Rightarrow> string list" where
  "changed_segments old new =
     btree_set (filter (\<lambda>k. hget (sn_segments old) k \<noteq> hget (sn_segments new) k)
       (hkeys (sn_segments old) @ hkeys (sn_segments new)))"

definition rule_touched :: "string list \<Rightarrow> Rule \<Rightarrow> bool" where
  "rule_touched segs r =
     (case r_segment_key r of None \<Rightarrow> False | Some s \<Rightarrow> List.member segs s)"

definition changed_flag_keys :: "Snapshot \<Rightarrow> Snapshot \<Rightarrow> string list" where
  "changed_flag_keys old new =
     (let direct = filter (\<lambda>k. hget (sn_flags old) k \<noteq> hget (sn_flags new) k)
                     (hkeys (sn_flags old) @ hkeys (sn_flags new));
          segs = changed_segments old new;
          by_segment =
            (if segs = [] then []
             else map f_key (filter (\<lambda>f. list_ex (rule_touched segs) (f_rules f))
                    (hvalues (sn_flags new))))
      in btree_set (direct @ by_segment))"

section \<open>Operations\<close>

text \<open>\<open>reload\<close> with the answer of \<open>store.load_snapshot()\<close>.\<close>

definition reload ::
  "bool \<Rightarrow> (AppError, Snapshot) result \<Rightarrow> SnapshotManager
     \<Rightarrow> (AppError, unit) result \<times> SnapshotManager" where
  "reload has_cache loaded m =
     (case loaded of
        Err e \<Rightarrow> (Err e, m)
      | Ok snapshot \<Rightarrow>
          let version = sn_version snapshot in
          if version \<le> sn_version (current m) then (Ok (), m)
          else
            (let m1 = (if has_cache then m\<lparr>cache_cell := Some snapshot\<rparr> else m);
                 changed = changed_flag_keys (current m) snapshot
             in (Ok (), m1\<lparr>current := snapshot,
                           sent := sent m1 @ [\<lparr>cu_version = version,
                                               cu_changed_flag_keys = changed\<rparr>]\<rparr>)))"

definition mgr_version :: "SnapshotManager \<Rightarrow> int" where
  "mgr_version m = sn_version (current m)"

definition mgr_get_flag :: "SnapshotManager \<Rightarrow> string \<Rightarrow> (AppError, Flag) result" where
  "mgr_get_flag m key =
     (case hget (sn_flags (current m)) key of
        Some f \<Rightarrow> Ok f
      | None \<Rightarrow> Err (NotFound (''flag '' @ quoted key)))"

definition mgr_list_flags :: "SnapshotManager \<Rightarrow> bool \<Rightarrow> Flag list" where
  "mgr_list_flags m include_archived =
     sort_key f_key
       (filter (\<lambda>f. include_archived \<or> \<not> f_archived f) (hvalues (sn_flags (current m))))"

definition mgr_get_segment :: "SnapshotManager \<Rightarrow> string \<Rightarrow> (AppError, Segment) result" where
  "mgr_get_segment m key =
     (case hget (sn_segments (current m)) key of
        Some s \<Rightarrow> Ok s
      | None \<Rightarrow> Err (NotFound (''segment '' @ quoted key)))"

definition mgr_list_segments :: "SnapshotManager \<Rightarrow> Segment list" where
  "mgr_list_segments m = sort_key s_key (hvalues (sn_segments (current m)))"

section \<open>Facts about the changed keys\<close>

lemma changed_segments_iff:
  "s \<in> set (changed_segments old new) \<longleftrightarrow> hget (sn_segments old) s \<noteq> hget (sn_segments new) s"
  using hget_dom [of "sn_segments old" s] hget_dom [of "sn_segments new" s]
  by (auto simp: changed_segments_def)

lemma changed_flag_keys_iff:
  "k \<in> set (changed_flag_keys old new) \<longleftrightarrow>
     hget (sn_flags old) k \<noteq> hget (sn_flags new) k
     \<or> (\<exists>f \<in> set (hvalues (sn_flags new)). f_key f = k
          \<and> (\<exists>r \<in> set (f_rules f). \<exists>s. r_segment_key r = Some s
               \<and> hget (sn_segments old) s \<noteq> hget (sn_segments new) s))"
proof -
  have direct: "k \<in> set (filter (\<lambda>k. hget (sn_flags old) k \<noteq> hget (sn_flags new) k)
      (hkeys (sn_flags old) @ hkeys (sn_flags new)))
      \<longleftrightarrow> hget (sn_flags old) k \<noteq> hget (sn_flags new) k"
    using hget_dom [of "sn_flags old" k] hget_dom [of "sn_flags new" k] by auto
  have touched: "list_ex (rule_touched (changed_segments old new)) rs
      \<longleftrightarrow> (\<exists>r\<in>set rs. \<exists>s. r_segment_key r = Some s
            \<and> hget (sn_segments old) s \<noteq> hget (sn_segments new) s)" for rs
    by (auto simp: list_ex_iff rule_touched_def changed_segments_iff split: option.splits)
  have none: "\<not> list_ex (rule_touched []) rs" for rs
    by (auto simp: list_ex_iff rule_touched_def split: option.splits)
  show ?thesis
    using direct none
    by (auto simp: changed_flag_keys_def Let_def touched [symmetric])
qed

lemma unchanged_agree:
  assumes wf: "snapshot_wf new" and unch: "\<forall>k\<in>K. k \<notin> set (changed_flag_keys old new)"
  shows "agree_on old new K"
  unfolding agree_on_def
proof (intro ballI conjI allI impI)
  fix k
  assume k: "k \<in> K"
  with unch show same: "hget (sn_flags new) k = hget (sn_flags old) k"
    by (auto simp: changed_flag_keys_iff)
  fix f r s
  assume f: "hget (sn_flags old) k = Some f \<and> r \<in> set (f_rules f) \<and> r_segment_key r = Some s"
  with same have "hget (sn_flags new) k = Some f" by simp
  with wf have "f \<in> set (hvalues (sn_flags new))" and "f_key f = k"
    by (auto simp: snapshot_wf_hget_flag dest!: hget_Some_in intro: rev_image_eqI)
  with f k unch show "hget (sn_segments new) s = hget (sn_segments old) s"
    by (auto simp: changed_flag_keys_iff)
qed

lemma unchanged_same_evaluation:
  "snapshot_wf new \<Longrightarrow> \<forall>j. reaches old k j \<longrightarrow> j \<notin> set (changed_flag_keys old new)
    \<Longrightarrow> evaluate X new k ctx = evaluate X old k ctx"
  by (rule evaluate_agree, rule unchanged_agree) auto

section \<open>Histories of the manager\<close>

lemma reload_Err: "reload hc (Err e) m = (Err e, m)"
  by (simp add: reload_def)

lemma reload_cases:
  "snd (reload hc loaded m) = m \<or>
   (\<exists>sn. loaded = Ok sn \<and> sn_version (current m) < sn_version sn
      \<and> current (snd (reload hc loaded m)) = sn
      \<and> sent (snd (reload hc loaded m))
         = sent m @ [\<lparr>cu_version = sn_version sn,
                      cu_changed_flag_keys = changed_flag_keys (current m) sn\<rparr>]
      \<and> cache_cell (snd (reload hc loaded m)) = (if hc then Some sn else cache_cell m))"
  by (auto simp: reload_def Let_def split: sum.splits)

inductive history :: "bool \<Rightarrow> SnapshotManager \<Rightarrow> SnapshotManager \<Rightarrow> bool" for hc m0 where
  start: "history hc m0 m0"
| step: "history hc m0 m \<Longrightarrow> history hc m0 (snd (reload hc loaded m))"

inductive_simps history_start: "history hc m0 m0"

text \<open>
  What every history keeps: the versions sent to subscribers grow strictly, start above the
  version of the bootstrap, and the last of them is the current one.
\<close>

definition versions_inv :: "int \<Rightarrow> SnapshotManager \<Rightarrow> bool" where
  "versions_inv v0 m \<longleftrightarrow>
     sorted_wrt (<) (v0 # map cu_version (sent m))
     \<and> last (v0 # map cu_version (sent m)) = sn_version (current m)"

lemma sorted_wrt_snoc: "sorted_wrt (<) (xs @ [x :: int]) \<longleftrightarrow> sorted_wrt (<) xs \<and> (\<forall>y\<in>set xs. y < x)"
  by (simp add: sorted_wrt_append)

lemma sorted_wrt_last: "sorted_wrt (<) xs \<Longrightarrow> y \<in> set xs \<Longrightarrow> y \<le> (last xs :: int)"
  by (induction xs) (auto simp: less_imp_le)

lemma reload_versions_inv:
  assumes "versions_inv v0 m"
  shows "versions_inv v0 (snd (reload hc loaded m))"
  using reload_cases [of hc loaded m]
proof (elim disjE exE conjE)
  assume "snd (reload hc loaded m) = m"
  with assms show ?thesis by simp
next
  fix sn
  let ?vs = "v0 # map cu_version (sent m)"
  assume newer: "sn_version (current m) < sn_version sn"
    and cur: "current (snd (reload hc loaded m)) = sn"
    and sent: "sent (snd (reload hc loaded m))
        = sent m @ [\<lparr>cu_version = sn_version sn,
                     cu_changed_flag_keys = changed_flag_keys (current m) sn\<rparr>]"
  from assms have srt: "sorted_wrt (<) ?vs" and lst: "last ?vs = sn_version (current m)"
    by (simp_all only: versions_inv_def)
  have "\<forall>y\<in>set ?vs. y < sn_version sn"
    using sorted_wrt_last [OF srt] newer unfolding lst by fastforce
  with srt have "sorted_wrt (<) (?vs @ [sn_version sn])"
    by (simp only: sorted_wrt_snoc)
  with cur sent show ?thesis by (simp add: versions_inv_def)
qed

lemma history_versions_inv:
  "history hc m0 m \<Longrightarrow> sent m0 = [] \<Longrightarrow> versions_inv (sn_version (current m0)) m"
proof (induction rule: history.induct)
  case start
  then show ?case by (simp add: versions_inv_def)
next
  case (step m loaded)
  then show ?case by (simp add: reload_versions_inv)
qed

lemma reload_reads_write:
  "loaded = Ok sn \<Longrightarrow> sn_version sn \<le> sn_version (current (snd (reload hc loaded m)))"
  by (auto simp: reload_def Let_def)

end
