(* ===== verification/FlagValidate.thy ===== *)
theory FlagValidate
  imports FlagRollout FlagSnapshot
begin

text \<open>
  The pure half of the configuration store: the column encodings of \<open>store/types.rs\<close>, and
  the validation and the diff of \<open>store/mod.rs\<close> (from \<open>audit_action\<close> on). The sum of the
  weights is a \<open>u32\<close> that wraps, as in the release build.
\<close>

section \<open>Column encodings\<close>

fun json_array :: "json \<Rightarrow> json list" where
  "json_array (JArray a) = a"
| "json_array other = [other]"

fun value_type_to_str :: "ValueType \<Rightarrow> string" where
  "value_type_to_str Boolean = ''boolean''"
| "value_type_to_str String = ''string''"
| "value_type_to_str Integer = ''integer''"
| "value_type_to_str FloatT = ''float''"
| "value_type_to_str Object = ''object''"

definition value_type_from_str :: "string \<Rightarrow> (AppError, ValueType) result" where
  "value_type_from_str s =
     (if s = ''boolean'' then Ok Boolean
      else if s = ''string'' then Ok String
      else if s = ''integer'' then Ok Integer
      else if s = ''float'' then Ok FloatT
      else if s = ''object'' then Ok Object
      else Err (Invalid (''unknown value_type '' @ quoted s)))"

fun operator_to_str :: "Operator \<Rightarrow> string" where
  "operator_to_str OpEq = ''eq''"
| "operator_to_str OpNeq = ''neq''"
| "operator_to_str OpIn = ''in''"
| "operator_to_str OpNotIn = ''not_in''"
| "operator_to_str OpContains = ''contains''"
| "operator_to_str OpStartsWith = ''starts_with''"
| "operator_to_str OpEndsWith = ''ends_with''"
| "operator_to_str OpGt = ''gt''"
| "operator_to_str OpGte = ''gte''"
| "operator_to_str OpLt = ''lt''"
| "operator_to_str OpLte = ''lte''"
| "operator_to_str OpExists = ''exists''"
| "operator_to_str OpRegex = ''regex''"
| "operator_to_str OpFlagMatches = ''flag_matches''"

definition operator_from_str :: "string \<Rightarrow> (AppError, Operator) result" where
  "operator_from_str s =
     (if s = ''eq'' then Ok OpEq
      else if s = ''neq'' then Ok OpNeq
      else if s = ''in'' then Ok OpIn
      else if s = ''not_in'' then Ok OpNotIn
      else if s = ''contains'' then Ok OpContains
      else if s = ''starts_with'' then Ok OpStartsWith
      else if s = ''ends_with'' then Ok OpEndsWith
      else if s = ''gt'' then Ok OpGt
      else if s = ''gte'' then Ok OpGte
      else if s = ''lt'' then Ok OpLt
      else if s = ''lte'' then Ok OpLte
      else if s = ''exists'' then Ok OpExists
      else if s = ''regex'' then Ok OpRegex
      else if s = ''flag_matches'' then Ok OpFlagMatches
      else Err (Invalid (''unknown operator '' @ quoted s)))"

lemma value_type_str_roundtrip [codec_simps]: "value_type_from_str (value_type_to_str t) = Ok t"
  by (cases t) (simp_all add: value_type_from_str_def)

lemma operator_str_roundtrip [codec_simps]: "operator_from_str (operator_to_str p) = Ok p"
  by (cases p) (simp_all add: operator_from_str_def)

section \<open>Validation\<close>

definition variant_type_ok :: "ValueType \<Rightarrow> json \<Rightarrow> bool" where
  "variant_type_ok t v =
     (case t of
        Boolean \<Rightarrow> is_boolean v
      | String \<Rightarrow> is_string v
      | Integer \<Rightarrow> (case as_f64 v of Some f \<Rightarrow> whole f | None \<Rightarrow> False)
      | FloatT \<Rightarrow> is_number v
      | Object \<Rightarrow> is_object v)"

definition check_variant_type :: "ValueType \<Rightarrow> Variant \<Rightarrow> (AppError, unit) result" where
  "check_variant_type t v =
     (if \<not> variant_type_ok t (v_value v)
      then Err (Invalid (''variant '' @ quoted (v_key v) @ '' value does not match flag type ''
                  @ quoted (value_type_to_str t)))
      else Ok ())"

definition unknown_variant :: "string \<Rightarrow> string \<Rightarrow> AppError" where
  "unknown_variant variant flag_key =
     Invalid (''rule references variant '' @ quoted variant @ '' not defined on flag ''
       @ quoted flag_key)"

text \<open>The inner loop: every variant known, and the running \<open>u32\<close> total.\<close>

fun sum_distributions ::
  "string \<Rightarrow> string list \<Rightarrow> Distribution list \<Rightarrow> u32 \<Rightarrow> (AppError, u32) result" where
  "sum_distributions flag_key variants [] tot = Ok tot"
| "sum_distributions flag_key variants (d # ds) tot =
     (if \<not> List.member variants (d_variant_key d)
      then Err (unknown_variant (d_variant_key d) flag_key)
      else sum_distributions flag_key variants ds (tot + d_weight d))"

definition validate_rule ::
  "string \<Rightarrow> string list \<Rightarrow> nat \<Rightarrow> Rule \<Rightarrow> (AppError, unit) result" where
  "validate_rule flag_key variants rank rule =
     (case (case r_variant_key rule of
              Some v \<Rightarrow> if \<not> List.member variants v then Some v else None
            | None \<Rightarrow> None) of
        Some v \<Rightarrow> Err (unknown_variant v flag_key)
      | None \<Rightarrow>
          if r_distributions rule \<noteq> []
          then (case sum_distributions flag_key variants (r_distributions rule) 0 of
                  Err e \<Rightarrow> Err e
                | Ok tot \<Rightarrow>
                    if tot \<noteq> 100
                    then Err (Invalid (''rule '' @ show_nat rank @ '' distribution weights sum to ''
                                @ show_nat (unat tot) @ '', expected 100''))
                    else Ok ())
          else Ok ())"

definition validate_rules :: "string \<Rightarrow> Rule list \<Rightarrow> string list \<Rightarrow> (AppError, unit) result" where
  "validate_rules flag_key rules variants =
     check_all (\<lambda>(rank, rule). validate_rule flag_key variants rank rule) (List.enumerate 0 rules)"

definition validate_flag :: "Flag \<Rightarrow> (AppError, unit) result" where
  "validate_flag flag =
     (if list_all (\<lambda>v. v_key v \<noteq> f_default_variant_key flag) (f_variants flag)
      then Err (Invalid (''flag '' @ quoted (f_key flag) @ '' default variant ''
                  @ quoted (f_default_variant_key flag) @ '' is not among its variants''))
      else (case check_all (check_variant_type (f_value_type flag)) (f_variants flag) of
              Err e \<Rightarrow> Err e
            | Ok _ \<Rightarrow> validate_rules (f_key flag) (f_rules flag) (map v_key (f_variants flag))))"

definition validate_desired :: "Flag list \<Rightarrow> Segment list \<Rightarrow> (AppError, unit) result" where
  "validate_desired flags segments = check_all validate_flag flags"

section \<open>Diff\<close>

text \<open>\<open>sort_by\<close> is stable, as \<^const>\<open>sort_key\<close> is.\<close>

definition variants_equal :: "Variant list \<Rightarrow> Variant list \<Rightarrow> bool" where
  "variants_equal a b =
     (if length a \<noteq> length b then False else sort_key v_key a = sort_key v_key b)"

definition rules_equal :: "Rule list \<Rightarrow> Rule list \<Rightarrow> bool" where
  "rules_equal a b =
     (if length a \<noteq> length b then False
      else list_all (\<lambda>(x, y). x\<lparr>r_rank := 0\<rparr> = y\<lparr>r_rank := 0\<rparr>) (zip a b))"

definition flag_diff_fields :: "Flag \<Rightarrow> Flag \<Rightarrow> string list" where
  "flag_diff_fields live desired =
     (if f_value_type live \<noteq> f_value_type desired then [''value_type''] else [])
     @ (if f_enabled live \<noteq> f_enabled desired then [''enabled''] else [])
     @ (if f_default_variant_key live \<noteq> f_default_variant_key desired
        then [''default_variant_key''] else [])
     @ (if f_archived live \<noteq> f_archived desired then [''archived''] else [])
     @ (if \<not> variants_equal (f_variants live) (f_variants desired) then [''variants''] else [])
     @ (if \<not> rules_equal (f_rules live) (f_rules desired) then [''rules''] else [])"

definition segment_diff_fields :: "Segment \<Rightarrow> Segment \<Rightarrow> string list" where
  "segment_diff_fields live desired =
     (if s_name live \<noteq> s_name desired then [''name''] else [])
     @ (if s_constraints live \<noteq> s_constraints desired then [''constraints''] else [])"

definition segments_equal :: "Segment \<Rightarrow> Segment \<Rightarrow> bool" where
  "segments_equal live desired = (segment_diff_fields live desired = [])"

datatype ChangeOp = Create | Update | Delete

record ConfigChange =
  cc_target_kind :: string
  cc_target_key :: string
  cc_op :: ChangeOp
  cc_detail :: json

definition audit_action :: "string \<Rightarrow> ChangeOp \<Rightarrow> string" where
  "audit_action target_kind op' =
     (if target_kind = ''flag'' \<and> op' = Create then ''create_flag''
      else if target_kind = ''flag'' \<and> op' = Update then ''update_flag''
      else if target_kind = ''flag'' \<and> op' = Delete then ''delete_flag''
      else if target_kind = ''segment'' \<and> op' = Delete then ''delete_segment''
      else ''upsert_segment'')"

definition change :: "string \<Rightarrow> string \<Rightarrow> ChangeOp \<Rightarrow> json \<Rightarrow> ConfigChange" where
  "change kind key op' detail =
     \<lparr>cc_target_kind = kind, cc_target_key = key, cc_op = op', cc_detail = detail\<rparr>"

definition fields_detail :: "string list \<Rightarrow> json" where
  "fields_detail fs = JObject [(''fields'', JArray (map JString fs))]"

text \<open>One step of each of the four loops of \<open>diff_config\<close>, as the changes it pushes.\<close>

definition segment_change :: "Snapshot \<Rightarrow> Segment \<Rightarrow> ConfigChange list" where
  "segment_change cur segment =
     (case hget (sn_segments cur) (s_key segment) of
        None \<Rightarrow> [change ''segment'' (s_key segment) Create
                   (JObject [(''name'', JString (s_name segment))])]
      | Some live \<Rightarrow>
          if \<not> segments_equal live segment
          then [change ''segment'' (s_key segment) Update
                  (fields_detail (segment_diff_fields live segment))]
          else [])"

definition flag_change :: "Snapshot \<Rightarrow> Flag \<Rightarrow> ConfigChange list" where
  "flag_change cur flag =
     (case hget (sn_flags cur) (f_key flag) of
        None \<Rightarrow> [change ''flag'' (f_key flag) Create
                   (JObject [(''default_variant_key'', JString (f_default_variant_key flag)),
                             (''enabled'', JBool (f_enabled flag)),
                             (''value_type'', JString (value_type_to_str (f_value_type flag)))])]
      | Some live \<Rightarrow>
          let fields = flag_diff_fields live flag
          in if fields \<noteq> [] then [change ''flag'' (f_key flag) Update (fields_detail fields)]
             else [])"

definition prune_change :: "string \<Rightarrow> string list \<Rightarrow> string \<Rightarrow> ConfigChange list" where
  "prune_change kind desired key =
     (if \<not> list_ex (\<lambda>k. k = key) desired then [change kind key Delete JNull] else [])"

definition diff_config :: "Snapshot \<Rightarrow> Flag list \<Rightarrow> Segment list \<Rightarrow> ConfigChange list" where
  "diff_config cur flags segments =
     concat (map (segment_change cur) segments)
     @ concat (map (prune_change ''segment'' (map s_key segments)) (hkeys (sn_segments cur)))
     @ concat (map (flag_change cur) flags)
     @ concat (map (prune_change ''flag'' (map f_key flags)) (hkeys (sn_flags cur)))"

section \<open>Facts about validation\<close>

lemma check_variant_type_Ok [store_simps]:
  "check_variant_type t v = Ok () \<longleftrightarrow> variant_type_ok t (v_value v)"
  by (simp add: check_variant_type_def)

lemma sum_distributions_Ok [store_simps]:
  "sum_distributions fk vs ds tot = Ok t \<longleftrightarrow>
     (\<forall>d\<in>set ds. d_variant_key d \<in> set vs) \<and> t = tot + sum_list (map d_weight ds)"
  by (induction ds arbitrary: tot) (auto simp: add.assoc)

definition rule_valid :: "string set \<Rightarrow> Rule \<Rightarrow> bool" where
  "rule_valid vs r \<longleftrightarrow>
     (\<forall>k. r_variant_key r = Some k \<longrightarrow> k \<in> vs)
     \<and> (r_distributions r \<noteq> [] \<longrightarrow>
          (\<forall>d\<in>set (r_distributions r). d_variant_key d \<in> vs)
          \<and> sum_list (map d_weight (r_distributions r)) = 100)"

lemma validate_rule_Ok [store_simps]:
  "validate_rule fk vs rank r = Ok () \<longleftrightarrow> rule_valid (set vs) r"
proof -
  have "sum_distributions fk vs (r_distributions r) 0 = Ok t \<longleftrightarrow>
      (\<forall>d\<in>set (r_distributions r). d_variant_key d \<in> set vs)
      \<and> t = sum_list (map d_weight (r_distributions r))" for t
    by (simp add: sum_distributions_Ok)
  then show ?thesis
    by (cases "sum_distributions fk vs (r_distributions r) 0")
      (auto simp: validate_rule_def rule_valid_def split: option.splits if_splits)
qed

lemma validate_rules_Ok [store_simps]:
  "validate_rules fk rs vs = Ok () \<longleftrightarrow> (\<forall>r\<in>set rs. rule_valid (set vs) r)"
  by (simp add: validate_rules_def case_prod_unfold validate_rule_Ok all_enumerate)

lemma validate_flag_Ok [store_simps]:
  "validate_flag f = Ok () \<longleftrightarrow>
     variant_known f (f_default_variant_key f)
     \<and> (\<forall>v\<in>set (f_variants f). variant_type_ok (f_value_type f) (v_value v))
     \<and> (\<forall>r\<in>set (f_rules f). rule_valid (v_key ` set (f_variants f)) r)"
proof -
  have "list_all (\<lambda>v. v_key v \<noteq> f_default_variant_key f) (f_variants f)
      \<longleftrightarrow> \<not> variant_known f (f_default_variant_key f)"
    by (auto simp: list_all_iff variant_known_def intro: rev_image_eqI)
  then show ?thesis
    by (auto simp: validate_flag_def check_then_Ok_iff store_simps)
qed

lemma validate_desired_Ok [store_simps]:
  "validate_desired flags segments = Ok () \<longleftrightarrow> (\<forall>f\<in>set flags. validate_flag f = Ok ())"
  by (simp add: validate_desired_def)

lemma validated_refs_ok: "validate_flag f = Ok () \<Longrightarrow> flag_refs_ok f"
  by (fastforce simp: validate_flag_Ok flag_refs_ok_def rule_valid_def variant_known_def)

lemma validated_type_ok:
  "validate_flag f = Ok () \<Longrightarrow> v \<in> set (f_variants f)
    \<Longrightarrow> variant_type_ok (f_value_type f) (v_value v)"
  by (simp add: validate_flag_Ok)

text \<open>Without wrap-around the \<open>u32\<close> total is the sum of the weights.\<close>

lemma sum_weights_no_wrap:
  "total_weight ds < 2 ^ 32 \<Longrightarrow> unat (sum_list (map d_weight ds)) = total_weight ds"
proof (induction ds)
  case Nil
  show ?case by simp
next
  case (Cons d ds)
  then have "unat (d_weight d) + unat (sum_list (map d_weight ds)) < 2 ^ LENGTH(32)" by simp
  then have "unat (d_weight d + sum_list (map d_weight ds))
      = unat (d_weight d) + unat (sum_list (map d_weight ds))"
    by (rule unat_add_lem [THEN iffD1])
  with Cons show ?case by simp
qed

lemma rule_valid_total:
  "rule_valid vs r \<Longrightarrow> r_distributions r \<noteq> [] \<Longrightarrow> total_weight (r_distributions r) < 2 ^ 32
    \<Longrightarrow> total_weight (r_distributions r) = 100"
  using sum_weights_no_wrap [of "r_distributions r"] by (simp add: rule_valid_def)

section \<open>Facts about the diff\<close>

lemma segment_change_Nil [store_simps]:
  "segment_change cur s = [] \<longleftrightarrow>
     (\<exists>live. hget (sn_segments cur) (s_key s) = Some live
        \<and> s_name live = s_name s \<and> s_constraints live = s_constraints s)"
  by (auto simp: segment_change_def segments_equal_def segment_diff_fields_def split: option.splits)

text \<open>Two flags that differ at most in the order of variants and in the ranks of rules.\<close>

definition same_flag :: "Flag \<Rightarrow> Flag \<Rightarrow> bool" where
  "same_flag a b \<longleftrightarrow>
     f_value_type a = f_value_type b \<and> f_enabled a = f_enabled b
     \<and> f_default_variant_key a = f_default_variant_key b \<and> f_archived a = f_archived b
     \<and> sort_key v_key (f_variants a) = sort_key v_key (f_variants b)
     \<and> map (\<lambda>r. r\<lparr>r_rank := 0\<rparr>) (f_rules a) = map (\<lambda>r. r\<lparr>r_rank := 0\<rparr>) (f_rules b)"

lemma variants_equal_iff: "variants_equal a b \<longleftrightarrow> sort_key v_key a = sort_key v_key b"
  by (auto simp: variants_equal_def dest: arg_cong [where f = length])

lemma rules_equal_iff:
  "rules_equal a b \<longleftrightarrow> map (\<lambda>r. r\<lparr>r_rank := 0\<rparr>) a = map (\<lambda>r. r\<lparr>r_rank := 0\<rparr>) b"
proof (cases "length a = length b")
  case True
  then show ?thesis
    by (induction a b rule: list_induct2) (simp_all add: rules_equal_def)
next
  case False
  then have "map (\<lambda>r. r\<lparr>r_rank := 0\<rparr>) a \<noteq> map (\<lambda>r. r\<lparr>r_rank := 0\<rparr>) b"
    by (metis length_map)
  with False show ?thesis by (simp add: rules_equal_def)
qed

lemma flag_diff_fields_Nil [store_simps]: "flag_diff_fields a b = [] \<longleftrightarrow> same_flag a b"
  by (simp add: flag_diff_fields_def same_flag_def variants_equal_iff rules_equal_iff)

lemma flag_change_Nil [store_simps]:
  "flag_change cur f = [] \<longleftrightarrow>
     (\<exists>live. hget (sn_flags cur) (f_key f) = Some live \<and> same_flag live f)"
  by (auto simp: flag_change_def Let_def store_simps split: option.splits)

lemma prune_change_Nil [store_simps]: "prune_change kind desired key = [] \<longleftrightarrow> key \<in> set desired"
  by (auto simp: prune_change_def list_ex_iff)

lemma diff_config_Nil:
  "diff_config cur flags segments = [] \<longleftrightarrow>
     (\<forall>s\<in>set segments. segment_change cur s = [])
     \<and> set (hkeys (sn_segments cur)) \<subseteq> s_key ` set segments
     \<and> (\<forall>f\<in>set flags. flag_change cur f = [])
     \<and> set (hkeys (sn_flags cur)) \<subseteq> f_key ` set flags"
  by (auto simp: diff_config_def prune_change_Nil)

end
