(* ===== verification/FlagService.thy ===== *)
theory FlagService
  imports FlagSnapshot
begin

text \<open>
  The Evaluation RPCs of \<open>platform-services/feature-flags/src/grpc/evaluation.rs\<close>: the
  guard on the caller's identity, the typed resolutions, \<open>ResolveAll\<close>, the snapshot RPCs
  and the two streams. A handler is a function of the snapshot its engine holds.
\<close>

section \<open>Requests and responses\<close>

text \<open>
  Request metadata maps a header to its value; \<open>None\<close> stands for a value that is not
  visible ASCII, for which \<open>to_str\<close> fails.
\<close>

record 'a Request =
  rq_metadata :: "(string \<times> string option) list"
  rq_message :: 'a

record ResolveRequest =
  rr_flag_key :: string
  rr_context :: "PbEvaluationContext option"

record 'a TypedResponse =
  tr_value :: 'a
  tr_meta :: "PbResolutionMeta option"

record EvaluatedFlag =
  ef_flag_key :: string
  ef_value_type :: int
  ef_value :: "pvalue option"
  ef_meta :: "PbResolutionMeta option"

datatype EventType = EvUnspecified | EvReady | EvConfigurationChanged | EvResync

definition event_types :: "EventType list" where
  "event_types = [EvUnspecified, EvReady, EvConfigurationChanged, EvResync]"

definition event_type_as_i32 :: "EventType \<Rightarrow> int" where
  "event_type_as_i32 t = index_of t event_types"

record Event =
  ev_type :: int
  ev_config_version :: int
  ev_changed_flag_keys :: "string list"

definition context_default :: PbEvaluationContext where
  "context_default = \<lparr>px_targeting_key = [], px_attributes = None\<rparr>"

definition context_or_default :: "PbEvaluationContext option \<Rightarrow> EvalContext" where
  "context_or_default c =
     context_from_pb (case c of Some ctx \<Rightarrow> ctx | None \<Rightarrow> context_default)"

definition client_id_of :: "'a Request \<Rightarrow> (status, string) result" where
  "client_id_of request =
     (case Option.bind (map_of (rq_metadata request) ''client-id'') (\<lambda>v. v) of
        Some s \<Rightarrow> if s \<noteq> [] then Ok s else Err (CodeUnauthenticated, ''missing client-id'')
      | None \<Rightarrow> Err (CodeUnauthenticated, ''missing client-id''))"

section \<open>Typed resolution\<close>

datatype 'a Typed = TypedOk 'a PbResolutionMeta | TypedErr PbResolutionMeta

definition resolved ::
  "crates \<Rightarrow> Snapshot \<Rightarrow> string \<Rightarrow> EvalContext \<Rightarrow> (json \<Rightarrow> 'a option) \<Rightarrow> string \<Rightarrow> 'a Typed" where
  "resolved X sn flag_key ctx extract type_name =
     (case evaluate X sn flag_key ctx of
        Ok res \<Rightarrow> (case extract (res_value res) of
                     Some value \<Rightarrow> TypedOk value (resolution_to_meta res)
                   | None \<Rightarrow> TypedErr (type_mismatch type_name))
      | Err e \<Rightarrow> TypedErr (meta_err (error_code_as_str (e_code e)) (e_message e)))"

definition typed_response :: "'a \<Rightarrow> 'a Typed \<Rightarrow> 'a TypedResponse" where
  "typed_response fallback t =
     (case t of
        TypedOk v m \<Rightarrow> \<lparr>tr_value = v, tr_meta = Some m\<rparr>
      | TypedErr m \<Rightarrow> \<lparr>tr_value = fallback, tr_meta = Some m\<rparr>)"

definition resolve_boolean ::
  "crates \<Rightarrow> Snapshot \<Rightarrow> ResolveRequest Request \<Rightarrow> (status, bool TypedResponse) result" where
  "resolve_boolean X sn request =
     (case client_id_of request of
        Err e \<Rightarrow> Err e
      | Ok _ \<Rightarrow>
          let req = rq_message request; ctx = context_or_default (rr_context req)
          in Ok (typed_response False (resolved X sn (rr_flag_key req) ctx as_bool ''boolean'')))"

definition resolve_string ::
  "crates \<Rightarrow> Snapshot \<Rightarrow> ResolveRequest Request \<Rightarrow> (status, string TypedResponse) result" where
  "resolve_string X sn request =
     (case client_id_of request of
        Err e \<Rightarrow> Err e
      | Ok _ \<Rightarrow>
          let req = rq_message request; ctx = context_or_default (rr_context req)
          in Ok (typed_response [] (resolved X sn (rr_flag_key req) ctx as_str ''string'')))"

definition resolve_integer ::
  "crates \<Rightarrow> Snapshot \<Rightarrow> ResolveRequest Request \<Rightarrow> (status, i64 TypedResponse) result" where
  "resolve_integer X sn request =
     (case client_id_of request of
        Err e \<Rightarrow> Err e
      | Ok _ \<Rightarrow>
          let req = rq_message request; ctx = context_or_default (rr_context req)
          in Ok (typed_response 0 (resolved X sn (rr_flag_key req) ctx as_i64 ''integer'')))"

definition resolve_float ::
  "crates \<Rightarrow> Snapshot \<Rightarrow> ResolveRequest Request \<Rightarrow> (status, rat TypedResponse) result" where
  "resolve_float X sn request =
     (case client_id_of request of
        Err e \<Rightarrow> Err e
      | Ok _ \<Rightarrow>
          let req = rq_message request; ctx = context_or_default (rr_context req)
          in Ok (typed_response 0 (resolved X sn (rr_flag_key req) ctx as_f64 ''float'')))"

definition extract_object :: "json \<Rightarrow> pstruct option" where
  "extract_object j = map_option (\<lambda>_. json_to_struct j) (as_object j)"

definition resolve_object ::
  "crates \<Rightarrow> Snapshot \<Rightarrow> ResolveRequest Request \<Rightarrow> (status, pstruct option TypedResponse) result" where
  "resolve_object X sn request =
     (case client_id_of request of
        Err e \<Rightarrow> Err e
      | Ok _ \<Rightarrow>
          let req = rq_message request; ctx = context_or_default (rr_context req)
          in Ok (case resolved X sn (rr_flag_key req) ctx extract_object ''object'' of
                   TypedOk v m \<Rightarrow> \<lparr>tr_value = Some v, tr_meta = Some m\<rparr>
                 | TypedErr m \<Rightarrow> \<lparr>tr_value = None, tr_meta = Some m\<rparr>))"

section \<open>ResolveAll and the snapshot RPCs\<close>

definition evaluated_flag :: "string \<Rightarrow> ValueType \<Rightarrow> Resolution \<Rightarrow> EvaluatedFlag" where
  "evaluated_flag key value_type res =
     \<lparr>ef_flag_key = key, ef_value_type = value_type_as_i32 (value_type_to_pb value_type),
      ef_value = Some (json_to_prost_value (res_value res)),
      ef_meta = Some (resolution_to_meta res)\<rparr>"

definition evaluate_entry :: "crates \<Rightarrow> Snapshot \<Rightarrow> EvalContext \<Rightarrow> string \<Rightarrow> Flag \<Rightarrow> EvaluatedFlag" where
  "evaluate_entry X sn ctx key flag =
     (case evaluate X sn key ctx of
        Ok res \<Rightarrow> evaluated_flag key (f_value_type flag) res
      | Err e \<Rightarrow> \<lparr>ef_flag_key = key,
                  ef_value_type = value_type_as_i32 (value_type_to_pb (f_value_type flag)),
                  ef_value = None,
                  ef_meta = Some (meta_err (error_code_as_str (e_code e)) (e_message e))\<rparr>)"

fun resolve_all_loop ::
  "crates \<Rightarrow> Snapshot \<Rightarrow> EvalContext \<Rightarrow> Flag hmap \<Rightarrow> EvaluatedFlag list" where
  "resolve_all_loop X sn ctx [] = []"
| "resolve_all_loop X sn ctx ((key, flag) # rest) =
     (if f_archived flag then resolve_all_loop X sn ctx rest
      else evaluate_entry X sn ctx key flag # resolve_all_loop X sn ctx rest)"

definition resolve_all ::
  "crates \<Rightarrow> Snapshot \<Rightarrow> PbEvaluationContext option Request \<Rightarrow> (status, EvaluatedFlag list) result" where
  "resolve_all X sn request =
     (case client_id_of request of
        Err e \<Rightarrow> Err e
      | Ok _ \<Rightarrow> Ok (resolve_all_loop X sn (context_or_default (rq_message request)) (sn_flags sn)))"

definition get_snapshot :: "Snapshot \<Rightarrow> unit Request \<Rightarrow> (status, PbSnapshotResponse) result" where
  "get_snapshot sn request =
     (case client_id_of request of Err e \<Rightarrow> Err e | Ok _ \<Rightarrow> Ok (snapshot_response sn))"

section \<open>Streams\<close>

text \<open>
  What a subscriber receives for one broadcast item: the update, or the notice that the
  receiver lagged behind and lost items. The current version is read when the item is
  delivered.
\<close>

datatype broadcast_item = Update ConfigUpdate | Lagged nat

fun config_event :: "broadcast_item \<Rightarrow> int \<Rightarrow> Event" where
  "config_event (Update u) current_version =
     \<lparr>ev_type = event_type_as_i32 EvConfigurationChanged, ev_config_version = cu_version u,
      ev_changed_flag_keys = cu_changed_flag_keys u\<rparr>"
| "config_event (Lagged n) current_version =
     \<lparr>ev_type = event_type_as_i32 EvResync, ev_config_version = current_version,
      ev_changed_flag_keys = []\<rparr>"

text \<open>\<open>stream_events\<close>: a ready event at the version of the open, then one event per item.\<close>

definition stream_events ::
  "int \<Rightarrow> (broadcast_item \<times> int) list \<Rightarrow> unit Request \<Rightarrow> (status, Event list) result" where
  "stream_events version_at_open items request =
     (case client_id_of request of
        Err e \<Rightarrow> Err e
      | Ok _ \<Rightarrow>
          Ok (\<lparr>ev_type = event_type_as_i32 EvReady, ev_config_version = version_at_open,
               ev_changed_flag_keys = []\<rparr>
              # map (\<lambda>(item, v). config_event item v) items))"

text \<open>\<open>stream_snapshot\<close>: the snapshot when the head is polled, then the current one per item.\<close>

definition stream_snapshot ::
  "Snapshot \<Rightarrow> (broadcast_item \<times> Snapshot) list \<Rightarrow> unit Request
     \<Rightarrow> (status, PbSnapshotResponse list) result" where
  "stream_snapshot head_snapshot items request =
     (case client_id_of request of
        Err e \<Rightarrow> Err e
      | Ok _ \<Rightarrow> Ok (snapshot_response head_snapshot # map (\<lambda>(_, sn). snapshot_response sn) items))"

section \<open>Facts\<close>

lemma error_code_nonempty [simp]: "error_code_as_str c \<noteq> []"
  by (cases c) simp_all

lemma resolve_all_loop_keys:
  "map ef_flag_key (resolve_all_loop X sn ctx m) = map fst (filter (\<lambda>(k, f). \<not> f_archived f) m)"
  by (induction X sn ctx m rule: resolve_all_loop.induct)
    (auto simp: evaluate_entry_def evaluated_flag_def split: sum.splits)

lemma resolve_all_loop_entries:
  "e \<in> set (resolve_all_loop X sn ctx m) \<longleftrightarrow>
     (\<exists>k f. (k, f) \<in> set m \<and> \<not> f_archived f \<and> e = evaluate_entry X sn ctx k f)"
  by (induction X sn ctx m rule: resolve_all_loop.induct) auto

text \<open>No evaluation of a snapshot in wire normal form yields an integer.\<close>

lemma evaluate_no_integer:
  assumes "wire_normal sn" and "evaluate X sn k ctx = Ok res"
  shows "as_i64 (res_value res) = None"
proof -
  from assms(2) obtain f where f: "hget (sn_flags sn) k = Some f" and "drawn_from f res"
    by (auto simp: evaluate_def dest: evaluate_inner_drawn)
  then obtain v where v: "v \<in> set (f_variants f)" "v_value v = res_value res"
    by (auto simp: drawn_from_def)
  from f assms(1) have "norm_flag f = f"
    by (auto simp: wire_normal_def dest: hget_Some_in)
  with v have "floated (res_value res) = res_value res"
    by (metis norm_flag_variants)
  then show ?thesis by (metis as_i64_floated)
qed

lemma resolved_integer_error:
  "wire_normal sn \<Longrightarrow> \<exists>m. resolved X sn k ctx as_i64 t = TypedErr m \<and> pm_error_code m \<noteq> []"
  by (auto simp: resolved_def type_mismatch_def meta_err_def evaluate_no_integer split: sum.splits)

end
