(* ===== verification/FlagClient.thy ===== *)
theory FlagClient
  imports FlagService
begin

text \<open>
  The client crate \<open>crates/feature-flag/feature-flag-client\<close>: the context builder
  (\<open>context.rs\<close>), the conversion of a response (\<open>lib.rs\<close>), the in-process evaluator and
  the tasks that keep its snapshot current (\<open>local.rs\<close>). Durations are whole seconds; the
  jitter only scales the time a task sleeps and is left out.
\<close>

section \<open>Context builder\<close>

text \<open>The attributes are a \<open>BTreeMap\<close>: its entries in key order.\<close>

record Context =
  ctx_targeting_key :: string
  ctx_attributes :: pstruct

fun btree_insert :: "string \<Rightarrow> 'v \<Rightarrow> (string \<times> 'v) list \<Rightarrow> (string \<times> 'v) list" where
  "btree_insert k v [] = [(k, v)]"
| "btree_insert k v ((j, w) # m) =
     (if k < j then (k, v) # (j, w) # m
      else if k = j then (k, v) # m
      else (j, w) # btree_insert k v m)"

definition context_new :: "string \<Rightarrow> Context" where
  "context_new tk = \<lparr>ctx_targeting_key = tk, ctx_attributes = []\<rparr>"

definition attr_value :: "string \<Rightarrow> pvalue \<Rightarrow> Context \<Rightarrow> Context" where
  "attr_value key value ctx = ctx\<lparr>ctx_attributes := btree_insert key value (ctx_attributes ctx)\<rparr>"

definition context_attr :: "string \<Rightarrow> kind \<Rightarrow> Context \<Rightarrow> Context" where
  "context_attr key k ctx = attr_value key (PValue (Some k)) ctx"

definition context_string :: "string \<Rightarrow> string \<Rightarrow> Context \<Rightarrow> Context" where
  "context_string key value = context_attr key (StringValue value)"

definition context_bool :: "string \<Rightarrow> bool \<Rightarrow> Context \<Rightarrow> Context" where
  "context_bool key value = context_attr key (BoolValue value)"

definition context_number :: "string \<Rightarrow> f64 \<Rightarrow> Context \<Rightarrow> Context" where
  "context_number key value = context_attr key (NumberValue value)"

fun json_to_value :: "json \<Rightarrow> pvalue" where
  "json_to_value JNull = PValue (Some (NullValue 0))"
| "json_to_value (JBool b) = PValue (Some (BoolValue b))"
| "json_to_value (JNumber n) = PValue (Some (NumberValue (Fin (number_as_f64 n))))"
| "json_to_value (JString s) = PValue (Some (StringValue s))"
| "json_to_value (JArray a) = PValue (Some (ListValue (map json_to_value a)))"
| "json_to_value (JObject obj) =
     PValue (Some (StructValue (map (\<lambda>(k, v). (k, json_to_value v)) obj)))"

definition context_json :: "string \<Rightarrow> json \<Rightarrow> Context \<Rightarrow> Context" where
  "context_json key value = attr_value key (json_to_value value)"

definition context_into_pb :: "Context \<Rightarrow> PbEvaluationContext" where
  "context_into_pb ctx =
     \<lparr>px_targeting_key = ctx_targeting_key ctx, px_attributes = Some (ctx_attributes ctx)\<rparr>"

section \<open>Resolutions\<close>

record 'a ClientResolution =
  cr_value :: 'a
  cr_variant :: string
  cr_reason :: PbReason
  cr_error_code :: "string option"

definition meta_default :: PbResolutionMeta where
  "meta_default = \<lparr>pm_variant = [], pm_reason = 0, pm_error_code = [], pm_error_message = []\<rparr>"

text \<open>\<open>resolution\<close> of \<open>lib.rs\<close>: what a remote call returns for a response.\<close>

definition resolution :: "'a \<Rightarrow> PbResolutionMeta option \<Rightarrow> 'a ClientResolution" where
  "resolution value meta =
     (let m = (case meta of Some m \<Rightarrow> m | None \<Rightarrow> meta_default)
      in \<lparr>cr_value = value, cr_variant = pm_variant m, cr_reason = reason_of_i32 (pm_reason m),
          cr_error_code = (if pm_error_code m \<noteq> [] then Some (pm_error_code m) else None)\<rparr>)"

definition client_request :: "string \<Rightarrow> string \<Rightarrow> PbEvaluationContext \<Rightarrow> ResolveRequest Request" where
  "client_request client_id flag_key ctx =
     \<lparr>rq_metadata = [(''client-id'', Some client_id)],
      rq_message = \<lparr>rr_flag_key = flag_key, rr_context = Some ctx\<rparr>\<rparr>"

section \<open>Local evaluation\<close>

definition error_resolution :: "'a \<Rightarrow> string \<Rightarrow> 'a ClientResolution" where
  "error_resolution default_value code =
     \<lparr>cr_value = default_value, cr_variant = [], cr_reason = RError, cr_error_code = Some code\<rparr>"

definition local_resolve ::
  "crates \<Rightarrow> Snapshot \<Rightarrow> string \<Rightarrow> PbEvaluationContext \<Rightarrow> (json \<Rightarrow> 'a option) \<Rightarrow> 'a
     \<Rightarrow> 'a ClientResolution" where
  "local_resolve X sn flag_key ctx extract default_value =
     (case evaluate X sn flag_key (context_from_pb ctx) of
        Ok res \<Rightarrow>
          (case extract (res_value res) of
             Some value \<Rightarrow> \<lparr>cr_value = value, cr_variant = res_variant res,
                            cr_reason = reason_to_pb (res_reason res), cr_error_code = None\<rparr>
           | None \<Rightarrow> error_resolution default_value ''TYPE_MISMATCH'')
      | Err e \<Rightarrow> error_resolution default_value (error_code_as_str (e_code e)))"

definition local_resolve_bool ::
  "crates \<Rightarrow> Snapshot \<Rightarrow> string \<Rightarrow> PbEvaluationContext \<Rightarrow> bool ClientResolution" where
  "local_resolve_bool X sn k ctx = local_resolve X sn k ctx as_bool False"

definition local_resolve_string ::
  "crates \<Rightarrow> Snapshot \<Rightarrow> string \<Rightarrow> PbEvaluationContext \<Rightarrow> string ClientResolution" where
  "local_resolve_string X sn k ctx = local_resolve X sn k ctx as_str []"

definition local_resolve_int ::
  "crates \<Rightarrow> Snapshot \<Rightarrow> string \<Rightarrow> PbEvaluationContext \<Rightarrow> i64 ClientResolution" where
  "local_resolve_int X sn k ctx = local_resolve X sn k ctx as_i64 0"

definition local_resolve_float ::
  "crates \<Rightarrow> Snapshot \<Rightarrow> string \<Rightarrow> PbEvaluationContext \<Rightarrow> rat ClientResolution" where
  "local_resolve_float X sn k ctx = local_resolve X sn k ctx as_f64 0"

definition local_resolve_object ::
  "crates \<Rightarrow> Snapshot \<Rightarrow> string \<Rightarrow> PbEvaluationContext \<Rightarrow> pstruct ClientResolution" where
  "local_resolve_object X sn k ctx = local_resolve X sn k ctx extract_object []"

text \<open>\<open>resolve_all\<close> repeats the loop of the server over the local snapshot.\<close>

fun local_resolve_all_loop ::
  "crates \<Rightarrow> Snapshot \<Rightarrow> EvalContext \<Rightarrow> Flag hmap \<Rightarrow> EvaluatedFlag list" where
  "local_resolve_all_loop X sn ctx [] = []"
| "local_resolve_all_loop X sn ctx ((key, flag) # rest) =
     (if f_archived flag then local_resolve_all_loop X sn ctx rest
      else
        (let vt = value_type_as_i32 (value_type_to_pb (f_value_type flag));
             evaluated =
               (case evaluate X sn key ctx of
                  Ok res \<Rightarrow> \<lparr>ef_flag_key = key, ef_value_type = vt,
                             ef_value = Some (json_to_prost_value (res_value res)),
                             ef_meta = Some (resolution_to_meta res)\<rparr>
                | Err e \<Rightarrow> \<lparr>ef_flag_key = key, ef_value_type = vt, ef_value = None,
                            ef_meta = Some (meta_err (error_code_as_str (e_code e)) (e_message e))\<rparr>)
         in evaluated # local_resolve_all_loop X sn ctx rest))"

definition local_resolve_all ::
  "crates \<Rightarrow> Snapshot \<Rightarrow> PbEvaluationContext \<Rightarrow> EvaluatedFlag list" where
  "local_resolve_all X sn ctx = local_resolve_all_loop X sn (context_from_pb ctx) (sn_flags sn)"

section \<open>The client's calls\<close>

text \<open>
  The methods of \<open>FeatureFlagClient\<close>: with a local snapshot they answer in process,
  otherwise they send the request to the server, which answers from the snapshot \<open>srv\<close>.
\<close>

definition remote ::
  "('b TypedResponse \<Rightarrow> 'a) \<Rightarrow> (status, 'b TypedResponse) result \<Rightarrow> (status, 'a ClientResolution) result" where
  "remote value answer =
     (case answer of Err e \<Rightarrow> Err e | Ok resp \<Rightarrow> Ok (resolution (value resp) (tr_meta resp)))"

definition client_resolve_bool ::
  "crates \<Rightarrow> Snapshot \<Rightarrow> Snapshot option \<Rightarrow> string \<Rightarrow> string \<Rightarrow> PbEvaluationContext
     \<Rightarrow> (status, bool ClientResolution) result" where
  "client_resolve_bool X srv local client_id k ctx =
     (case local of
        Some sn \<Rightarrow> Ok (local_resolve_bool X sn k ctx)
      | None \<Rightarrow> remote tr_value (resolve_boolean X srv (client_request client_id k ctx)))"

definition client_resolve_string ::
  "crates \<Rightarrow> Snapshot \<Rightarrow> Snapshot option \<Rightarrow> string \<Rightarrow> string \<Rightarrow> PbEvaluationContext
     \<Rightarrow> (status, string ClientResolution) result" where
  "client_resolve_string X srv local client_id k ctx =
     (case local of
        Some sn \<Rightarrow> Ok (local_resolve_string X sn k ctx)
      | None \<Rightarrow> remote tr_value (resolve_string X srv (client_request client_id k ctx)))"

definition client_resolve_int ::
  "crates \<Rightarrow> Snapshot \<Rightarrow> Snapshot option \<Rightarrow> string \<Rightarrow> string \<Rightarrow> PbEvaluationContext
     \<Rightarrow> (status, i64 ClientResolution) result" where
  "client_resolve_int X srv local client_id k ctx =
     (case local of
        Some sn \<Rightarrow> Ok (local_resolve_int X sn k ctx)
      | None \<Rightarrow> remote tr_value (resolve_integer X srv (client_request client_id k ctx)))"

definition client_resolve_float ::
  "crates \<Rightarrow> Snapshot \<Rightarrow> Snapshot option \<Rightarrow> string \<Rightarrow> string \<Rightarrow> PbEvaluationContext
     \<Rightarrow> (status, rat ClientResolution) result" where
  "client_resolve_float X srv local client_id k ctx =
     (case local of
        Some sn \<Rightarrow> Ok (local_resolve_float X sn k ctx)
      | None \<Rightarrow> remote tr_value (resolve_float X srv (client_request client_id k ctx)))"

definition client_resolve_object ::
  "crates \<Rightarrow> Snapshot \<Rightarrow> Snapshot option \<Rightarrow> string \<Rightarrow> string \<Rightarrow> PbEvaluationContext
     \<Rightarrow> (status, pstruct ClientResolution) result" where
  "client_resolve_object X srv local client_id k ctx =
     (case local of
        Some sn \<Rightarrow> Ok (local_resolve_object X sn k ctx)
      | None \<Rightarrow> remote (\<lambda>resp. case tr_value resp of None \<Rightarrow> [] | Some v \<Rightarrow> v)
                  (resolve_object X srv (client_request client_id k ctx)))"

definition client_resolve_all ::
  "crates \<Rightarrow> Snapshot \<Rightarrow> Snapshot option \<Rightarrow> string \<Rightarrow> PbEvaluationContext
     \<Rightarrow> (status, EvaluatedFlag list) result" where
  "client_resolve_all X srv local client_id ctx =
     (case local of
        Some sn \<Rightarrow> Ok (local_resolve_all X sn ctx)
      | None \<Rightarrow> resolve_all X srv
                  \<lparr>rq_metadata = [(''client-id'', Some client_id)], rq_message = Some ctx\<rparr>)"

section \<open>Keeping the snapshot current\<close>

definition RECONNECT_MIN :: nat where "RECONNECT_MIN = 1"
definition RECONNECT_MAX :: nat where "RECONNECT_MAX = 60"
definition BOOTSTRAP_ATTEMPTS :: nat where "BOOTSTRAP_ATTEMPTS = 8"

definition build_snapshot :: "PbSnapshotResponse \<Rightarrow> (ConversionError, Snapshot) result" where
  "build_snapshot resp = snapshot_try_from resp"

definition empty_snapshot :: Snapshot where
  "empty_snapshot =
     (case build_snapshot \<lparr>psn_version = 0, psn_flags = [], psn_segments = []\<rparr> of
        Ok sn \<Rightarrow> sn | Err _ \<Rightarrow> snapshot_default)"

definition apply_snapshot :: "PbSnapshotResponse \<Rightarrow> Snapshot \<Rightarrow> Snapshot" where
  "apply_snapshot resp sn = (case build_snapshot resp of Ok s \<Rightarrow> s | Err _ \<Rightarrow> sn)"

text \<open>
  The first connection. An attempt either yields the first message, or the stream closes
  before it, or reading it fails, or the stream does not open.
\<close>

datatype client_error = Connect string | Rpc string | SnapshotErr string

datatype attempt = First PbSnapshotResponse | ClosedEarly | ReadErr client_error | OpenErr client_error

fun attempt_error :: "attempt \<Rightarrow> client_error" where
  "attempt_error ClosedEarly = SnapshotErr ''snapshot stream closed before first message''"
| "attempt_error (ReadErr e) = e"
| "attempt_error (OpenErr e) = e"
| "attempt_error (First r) = SnapshotErr ''snapshot bootstrap failed''"

text \<open>
  The loop \<open>for attempt in 1..=BOOTSTRAP_ATTEMPTS\<close>: \<open>left\<close> attempts remain, \<open>env i\<close> is the
  outcome of the \<open>i\<close>-th one. The result comes with the back-offs it slept, in order.
\<close>

fun open_initial_loop ::
  "(nat \<Rightarrow> attempt) \<Rightarrow> nat \<Rightarrow> nat \<Rightarrow> nat \<Rightarrow> client_error option
     \<Rightarrow> (client_error, PbSnapshotResponse) result \<times> nat list" where
  "open_initial_loop env i 0 backoff last_err =
     (Err (case last_err of Some e \<Rightarrow> e | None \<Rightarrow> SnapshotErr ''snapshot bootstrap failed''), [])"
| "open_initial_loop env i (Suc left) backoff last_err =
     (case env i of
        First resp \<Rightarrow> (Ok resp, [])
      | out \<Rightarrow>
          if 0 < left
          then (let (r, sleeps) = open_initial_loop env (Suc i) left
                                    (min (backoff * 2) RECONNECT_MAX) (Some (attempt_error out))
                in (r, backoff # sleeps))
          else open_initial_loop env (Suc i) left backoff (Some (attempt_error out)))"

definition open_initial ::
  "(nat \<Rightarrow> attempt) \<Rightarrow> (client_error, PbSnapshotResponse) result \<times> nat list" where
  "open_initial env = open_initial_loop env 1 BOOTSTRAP_ATTEMPTS RECONNECT_MIN None"

text \<open>
  The state of \<open>refresh_loop\<close>: whether a stream is open, the back-off, the snapshot served.
\<close>

record Refresh =
  connected :: bool
  backoff :: nat
  served :: Snapshot

datatype refresh_event =
    Opened          \<comment> \<open>a reconnect attempt that succeeds\<close>
  | OpenFailed      \<comment> \<open>one that fails or times out\<close>
  | Message PbSnapshotResponse
  | StreamClosed
  | StreamError

definition bootstrap_evaluator ::
  "(nat \<Rightarrow> attempt) \<Rightarrow> (client_error, Refresh) result" where
  "bootstrap_evaluator env =
     (case fst (open_initial env) of
        Ok first \<Rightarrow>
          (case build_snapshot first of
             Ok sn \<Rightarrow> Ok \<lparr>connected = True, backoff = RECONNECT_MIN, served = sn\<rparr>
           | Err e \<Rightarrow> Err (SnapshotErr e))
      | Err _ \<Rightarrow> Ok \<lparr>connected = False, backoff = RECONNECT_MIN, served = empty_snapshot\<rparr>)"

text \<open>
  One event of the task. Without a stream it sleeps for the back-off, doubles it and tries
  to open one; with a stream it waits for a message.
\<close>

inductive refresh_step :: "Refresh \<Rightarrow> refresh_event \<Rightarrow> Refresh \<Rightarrow> bool" where
  opened: "\<not> connected s \<Longrightarrow>
     refresh_step s Opened (s\<lparr>connected := True, backoff := RECONNECT_MIN\<rparr>)"
| open_failed: "\<not> connected s \<Longrightarrow>
     refresh_step s OpenFailed (s\<lparr>backoff := min (backoff s * 2) RECONNECT_MAX\<rparr>)"
| message: "connected s \<Longrightarrow>
     refresh_step s (Message resp) (s\<lparr>served := apply_snapshot resp (served s)\<rparr>)"
| closed: "connected s \<Longrightarrow> refresh_step s StreamClosed (s\<lparr>connected := False\<rparr>)"
| error: "connected s \<Longrightarrow> refresh_step s StreamError (s\<lparr>connected := False\<rparr>)"

inductive_cases refresh_stepE: "refresh_step s e t"
inductive_simps refresh_step_failed: "refresh_step s OpenFailed t"

inductive refresh_run :: "Refresh \<Rightarrow> refresh_event list \<Rightarrow> Refresh \<Rightarrow> bool" where
  nil: "refresh_run s [] s"
| cons: "refresh_step s e t \<Longrightarrow> refresh_run t es u \<Longrightarrow> refresh_run s (e # es) u"

inductive_cases refresh_run_consE: "refresh_run s (e # es) u"
inductive_cases refresh_run_nilE: "refresh_run s [] u"

section \<open>Facts\<close>

lemma json_to_value_eq: "json_to_value j = json_to_prost_value j"
  by (induction j rule: json_to_value.induct) auto

lemma btree_insert_lookup: "map_of (btree_insert k v m) j = (if j = k then Some v else map_of m j)"
  if "sorted_wrt (<) (map fst m)"
  using that by (induction m) auto

lemma btree_insert_keys: "set (map fst (btree_insert k v m)) = insert k (set (map fst m))"
  by (induction k v m rule: btree_insert.induct) (simp_all add: insert_commute)

lemma btree_insert_sorted:
  "sorted_wrt (<) (map fst m) \<Longrightarrow> sorted_wrt (<) (map fst (btree_insert k v m))"
proof (induction k v m rule: btree_insert.induct)
  case (1 k v)
  show ?case by simp
next
  case (2 k v j w m)
  have "\<forall>x\<in>set (map fst (btree_insert k v m)). j < x" if "j < k"
    using "2.prems" that by (simp only: btree_insert_keys) simp
  with 2 show ?case by (auto dest: order.strict_trans)
qed

lemma local_resolve_all_loop_eq:
  "local_resolve_all_loop X sn ctx m = resolve_all_loop X sn ctx m"
  by (induction X sn ctx m rule: resolve_all_loop.induct)
    (auto simp: evaluate_entry_def evaluated_flag_def split: sum.splits)

text \<open>
  Both modes answer alike on the same evaluation: the client reads a server response as the
  local evaluator would have answered, default value included.
\<close>

lemma resolution_typed:
  "resolution (tr_value (typed_response d (resolved X sn k (context_from_pb c) extract t)))
     (tr_meta (typed_response d (resolved X sn k (context_from_pb c) extract t)))
    = local_resolve X sn k c extract d"
  by (auto simp: resolved_def typed_response_def local_resolve_def resolution_def
      resolution_to_meta_def type_mismatch_def meta_err_def error_resolution_def codec_simps
    split: sum.splits option.splits)

lemma local_resolve_same:
  "(\<And>ctx. evaluate X sn' k ctx = evaluate X sn k ctx)
    \<Longrightarrow> local_resolve X sn' k c extract d = local_resolve X sn k c extract d"
  by (simp add: local_resolve_def)

lemma client_id_of_request [simp]:
  "i \<noteq> [] \<Longrightarrow> client_id_of (client_request i k c) = Ok i"
  by (simp add: client_id_of_def client_request_def)

lemma rq_message_request [simp]:
  "rq_message (client_request i k c) = \<lparr>rr_flag_key = k, rr_context = Some c\<rparr>"
  by (simp add: client_request_def)

lemma context_or_default_Some [simp]: "context_or_default (Some c) = context_from_pb c"
  by (simp add: context_or_default_def)

text \<open>A remote call over a server that holds the same snapshot answers as the local call.\<close>

lemma remote_is_local:
  assumes "i \<noteq> []"
  shows "client_resolve_bool X sn None i k c = Ok (local_resolve_bool X sn k c)"
    and "client_resolve_string X sn None i k c = Ok (local_resolve_string X sn k c)"
    and "client_resolve_int X sn None i k c = Ok (local_resolve_int X sn k c)"
    and "client_resolve_float X sn None i k c = Ok (local_resolve_float X sn k c)"
  using assms
  by (simp_all add: client_resolve_bool_def client_resolve_string_def client_resolve_int_def
      client_resolve_float_def remote_def resolve_boolean_def resolve_string_def
      resolve_integer_def resolve_float_def resolution_typed local_resolve_bool_def
      local_resolve_string_def local_resolve_int_def local_resolve_float_def)

lemma remote_is_local_object:
  assumes "i \<noteq> []"
  shows "client_resolve_object X sn None i k c = Ok (local_resolve_object X sn k c)"
  using assms resolution_typed [of "[]" X sn k c extract_object "''object''"]
  by (cases "resolved X sn k (context_from_pb c) extract_object ''object''")
    (simp_all add: client_resolve_object_def remote_def resolve_object_def local_resolve_object_def
      typed_response_def)

lemma remote_is_local_all:
  "i \<noteq> [] \<Longrightarrow> client_resolve_all X sn None i c = Ok (local_resolve_all X sn c)"
  by (simp add: client_resolve_all_def resolve_all_def client_id_of_def local_resolve_all_def
      local_resolve_all_loop_eq)

definition refresh_inv :: "Refresh \<Rightarrow> bool" where
  "refresh_inv s \<longleftrightarrow> RECONNECT_MIN \<le> backoff s \<and> backoff s \<le> RECONNECT_MAX \<and> wire_normal (served s)"

lemma empty_snapshot_eq: "empty_snapshot = \<lparr>sn_version = 0, sn_flags = [], sn_segments = []\<rparr>"
  by (simp add: empty_snapshot_def build_snapshot_def snapshot_try_from_def)

lemma bootstrap_inv: "bootstrap_evaluator env = Ok s \<Longrightarrow> refresh_inv s"
  by (auto simp: bootstrap_evaluator_def refresh_inv_def RECONNECT_MIN_def RECONNECT_MAX_def
      build_snapshot_def empty_snapshot_eq wire_normal_def [of "\<lparr>sn_version = 0, sn_flags = [], sn_segments = []\<rparr>"]
    intro: snapshot_try_from_normal split: sum.splits)

lemma refresh_step_inv: "refresh_step s e t \<Longrightarrow> refresh_inv s \<Longrightarrow> refresh_inv t"
  by (induction rule: refresh_step.induct)
    (auto simp: refresh_inv_def RECONNECT_MIN_def RECONNECT_MAX_def apply_snapshot_def build_snapshot_def
      intro: snapshot_try_from_normal split: sum.splits)

lemma refresh_run_inv: "refresh_run s es t \<Longrightarrow> refresh_inv s \<Longrightarrow> refresh_inv t"
  by (induction rule: refresh_run.induct) (auto intro: refresh_step_inv)

text \<open>After \<open>n\<close> failed attempts in a row the back-off is the power of two, capped.\<close>

lemma refresh_failures:
  "refresh_run s (replicate n OpenFailed) t \<Longrightarrow> backoff s \<le> RECONNECT_MAX
    \<Longrightarrow> backoff t = min (backoff s * 2 ^ n) RECONNECT_MAX"
proof (induction n arbitrary: s)
  case 0
  then show ?case by (auto elim: refresh_run_nilE)
next
  case (Suc n)
  then obtain u where u: "refresh_step s OpenFailed u" and rest: "refresh_run u (replicate n OpenFailed) t"
    by (auto elim: refresh_run_consE)
  from u have b: "backoff u = min (backoff s * 2) RECONNECT_MAX"
    by (auto simp: refresh_step_failed)
  have "backoff t = min (backoff u * 2 ^ n) RECONNECT_MAX"
    using Suc.IH [OF rest] b by simp
  moreover have "min (min (backoff s * 2) RECONNECT_MAX * 2 ^ n) RECONNECT_MAX
      = min (backoff s * 2 ^ Suc n) RECONNECT_MAX"
  proof (cases "backoff s * 2 \<le> RECONNECT_MAX")
    case True
    then show ?thesis by (simp add: algebra_simps)
  next
    case False
    then have "RECONNECT_MAX \<le> backoff s * 2 * 2 ^ n"
      by (metis le_trans linorder_linear mult_le_mono1 nat_mult_1_right nat_mult_le_cancel_disj
        one_le_numeral one_le_power)
    with False show ?thesis by (simp add: algebra_simps)
  qed
  ultimately show ?case by (simp add: b)
qed

lemma open_initial_loop_retry:
  assumes "\<nexists>r. env i = First r"
  shows "open_initial_loop env i (Suc left) b e =
    (let last = Some (attempt_error (env i));
         next_b = (if 0 < left then min (b * 2) RECONNECT_MAX else b);
         rest = open_initial_loop env (Suc i) left next_b last
     in (fst rest, if 0 < left then b # snd rest else snd rest))"
  using assms by (cases "env i") (simp_all add: case_prod_unfold Let_def)

lemma open_initial_loop_sleeps:
  "length (snd (open_initial_loop env i left b e)) \<le> left - 1"
proof (induction left arbitrary: i b e)
  case 0
  show ?case by simp
next
  case (Suc left)
  show ?case
  proof (cases "\<exists>r. env i = First r")
    case True
    then show ?thesis by auto
  next
    case False
    note retry = open_initial_loop_retry [where env = env and i = i and b = b and e = e and left = left, OF this]
    show ?thesis
      using Suc.IH [of "Suc i" "min (b * 2) RECONNECT_MAX" "Some (attempt_error (env i))"]
      by (simp add: retry Let_def del: open_initial_loop.simps(2), cases left, simp_all)
  qed
qed

lemma open_initial_loop_sleep_bound:
  "b \<le> RECONNECT_MAX \<Longrightarrow> s \<in> set (snd (open_initial_loop env i left b e)) \<Longrightarrow> s \<le> RECONNECT_MAX"
proof (induction left arbitrary: i b e)
  case 0
  then show ?case by simp
next
  case (Suc left)
  show ?case
  proof (cases "\<exists>r. env i = First r")
    case True
    with Suc.prems show ?thesis by auto
  next
    case False
    note retry = open_initial_loop_retry [where env = env and i = i and b = b and e = e and left = left, OF this]
    from Suc.prems(2) have "0 < left \<and> (s = b \<or> s \<in> set (snd (open_initial_loop env (Suc i) left
        (min (b * 2) RECONNECT_MAX) (Some (attempt_error (env i))))))"
      by (simp add: retry Let_def del: open_initial_loop.simps(2) split: if_splits)
    with Suc.prems(1) show ?thesis
      using Suc.IH [of "min (b * 2) RECONNECT_MAX" "Suc i" "Some (attempt_error (env i))"] by auto
  qed
qed

lemma open_initial_loop_first:
  "env j = First r \<Longrightarrow> i \<le> j \<Longrightarrow> j < i + left \<Longrightarrow> is_ok (fst (open_initial_loop env i left b e))"
proof (induction left arbitrary: i b e)
  case 0
  then show ?case by simp
next
  case (Suc left)
  show ?case
  proof (cases "\<exists>r. env i = First r")
    case True
    then show ?thesis by auto
  next
    case False
    note retry = open_initial_loop_retry [where env = env and i = i and b = b and e = e and left = left, OF this]
    from False Suc.prems have "Suc i \<le> j"
      by (metis le_neq_implies_less Suc_leI)
    then show ?thesis
      using Suc.IH [of "Suc i" "if 0 < left then min (b * 2) RECONNECT_MAX else b"
          "Some (attempt_error (env i))"] Suc.prems
      by (simp add: retry Let_def del: open_initial_loop.simps(2))
  qed
qed

text \<open>The snapshot served only changes with a message that converts.\<close>

lemma refresh_step_served:
  "refresh_step s e t \<Longrightarrow>
    served t = served s \<or> (\<exists>resp sn. e = Message resp \<and> build_snapshot resp = Ok sn \<and> served t = sn)"
  by (cases rule: refresh_step.cases) (auto simp: apply_snapshot_def split: sum.splits)

lemma refresh_run_served:
  "refresh_run s es t \<Longrightarrow>
    served t = served s \<or> (\<exists>resp sn. Message resp \<in> set es \<and> build_snapshot resp = Ok sn \<and> served t = sn)"
  by (induction rule: refresh_run.induct) (auto dest!: refresh_step_served)

text \<open>A run of failed attempts exists from every state without a stream.\<close>

lemma refresh_run_failed:
  "\<not> connected s \<Longrightarrow> refresh_run s (replicate n OpenFailed)
     (s\<lparr>backoff := ((\<lambda>b. min (b * 2) RECONNECT_MAX) ^^ n) (backoff s)\<rparr>)"
proof (induction n arbitrary: s)
  case 0
  show ?case by (simp add: refresh_run.nil)
next
  case (Suc n)
  let ?u = "s\<lparr>backoff := min (backoff s * 2) RECONNECT_MAX\<rparr>"
  have "refresh_run ?u (replicate n OpenFailed)
      (?u\<lparr>backoff := ((\<lambda>b. min (b * 2) RECONNECT_MAX) ^^ n) (backoff ?u)\<rparr>)"
    by (rule Suc.IH) (simp add: Suc.prems)
  with refresh_step.open_failed [OF Suc.prems]
  have "refresh_run s (OpenFailed # replicate n OpenFailed)
      (?u\<lparr>backoff := ((\<lambda>b. min (b * 2) RECONNECT_MAX) ^^ n) (backoff ?u)\<rparr>)"
    by (rule refresh_run.cons)
  then show ?case by (simp add: funpow_Suc_right del: funpow.simps(2))
qed

end
