(* ===== verification/FlagExample.thy ===== *)
theory FlagExample
  imports FlagModel FlagEngine
begin

text \<open>
  A small configuration on which the properties are applied: the flag \<open>checkout\<close> is on for
  the segment \<open>staff\<close>, and split 60/40 for users whose flag \<open>beta\<close> is on.
\<close>

definition ex_crates :: crates where
  "ex_crates = \<lparr>sha256 = (\<lambda>_. [0, 0, 0, 0, 0, 0, 0, 42]), regex_build = (\<lambda>_. None)\<rparr>"

definition ex_variants :: "Variant list" where
  "ex_variants = [\<lparr>v_key = ''on'', v_value = JBool True\<rparr>, \<lparr>v_key = ''off'', v_value = JBool False\<rparr>]"

definition ex_staff_rule :: Rule where
  "ex_staff_rule = \<lparr>r_rank = 0, r_segment_key = Some ''staff'', r_variant_key = Some ''on'',
     r_distributions = [], r_constraint_groups = [], r_bucket_salt = []\<rparr>"

definition ex_split_rule :: Rule where
  "ex_split_rule = \<lparr>r_rank = 1, r_segment_key = None, r_variant_key = None,
     r_distributions = [\<lparr>d_variant_key = ''on'', d_weight = 60\<rparr>, \<lparr>d_variant_key = ''off'', d_weight = 40\<rparr>],
     r_constraint_groups = [\<lparr>g_constraints = [\<lparr>c_attribute = ''beta'', c_operator = OpFlagMatches,
        c_values = [JString ''on'']\<rparr>]\<rparr>],
     r_bucket_salt = []\<rparr>"

definition ex_checkout :: Flag where
  "ex_checkout = \<lparr>f_key = ''checkout'', f_value_type = Boolean, f_enabled = True,
     f_default_variant_key = ''off'', f_archived = False, f_variants = ex_variants,
     f_rules = [ex_staff_rule, ex_split_rule]\<rparr>"

definition ex_beta :: Flag where
  "ex_beta = \<lparr>f_key = ''beta'', f_value_type = Boolean, f_enabled = True,
     f_default_variant_key = ''on'', f_archived = False, f_variants = ex_variants, f_rules = []\<rparr>"

definition ex_beta_off :: Flag where
  "ex_beta_off = ex_beta\<lparr>f_default_variant_key := ''off''\<rparr>"

definition ex_staff :: Segment where
  "ex_staff = \<lparr>s_key = ''staff'', s_name = ''Staff'',
     s_constraints = [\<lparr>c_attribute = ''team'', c_operator = OpEq, c_values = [JString ''core'']\<rparr>]\<rparr>"

definition ex_snapshot :: Snapshot where
  "ex_snapshot = \<lparr>sn_version = 7, sn_flags = [(''checkout'', ex_checkout), (''beta'', ex_beta)],
     sn_segments = [(''staff'', ex_staff)]\<rparr>"

text \<open>The next version: \<open>beta\<close> serves its other variant, \<open>checkout\<close> itself is untouched.\<close>

definition ex_next :: Snapshot where
  "ex_next = \<lparr>sn_version = 8, sn_flags = [(''checkout'', ex_checkout), (''beta'', ex_beta_off)],
     sn_segments = [(''staff'', ex_staff)]\<rparr>"

definition ex_ctx :: EvalContext where
  "ex_ctx = \<lparr>targeting_key = ''user-1'', attributes = [(''team'', JString ''web'')]\<rparr>"

lemmas ex_rule_defs = ex_staff_rule_def ex_split_rule_def

lemmas ex_flag_defs = ex_checkout_def ex_beta_def ex_beta_off_def ex_variants_def

lemmas ex_defs =
  ex_crates_def ex_variants_def ex_rule_defs ex_flag_defs ex_staff_def ex_snapshot_def ex_next_def
  ex_ctx_def

lemma ex_bucket: "bucket_of ex_crates fk salt tk = 42"
  by (simp add: bucket_of_def ex_crates_def u64_from_be_bytes_def)

lemmas ex_eval_defs =
  resolve_rules_def rule_matches_def segment_matches_def constraints_match_def
  attr_constraint_matches_def first_value_def group_matches_def constraint_matches_def
  resolve_variant_def flag_variant_def pick_distribution_def

lemma ex_evaluate_beta:
  "stack = [] \<or> stack = [''checkout''] \<Longrightarrow>
    evaluate_inner ex_crates ex_snapshot ''beta'' ctx stack
      = Ok \<lparr>res_value = JBool True, res_variant = ''on'', res_reason = Default\<rparr>"
  by (subst evaluate_inner_rules [where f = ex_beta])
    (auto simp: ex_snapshot_def ex_beta_def ex_variants_def ex_eval_defs)

lemma ex_evaluate_checkout:
  "evaluate ex_crates ex_snapshot ''checkout'' ex_ctx
      = Ok \<lparr>res_value = JBool True, res_variant = ''on'', res_reason = Split\<rparr>"
proof -
  have "evaluate_inner ex_crates ex_snapshot ''checkout'' ex_ctx []
      = resolve_rules ex_crates ex_snapshot
          (\<lambda>j. evaluate_inner ex_crates ex_snapshot j ex_ctx [''checkout'']) ex_checkout ''checkout'' ex_ctx"
    by (subst evaluate_inner_rules [where f = ex_checkout])
      (simp_all add: ex_snapshot_def ex_checkout_def)
  also have "\<dots> = Ok \<lparr>res_value = JBool True, res_variant = ''on'', res_reason = Split\<rparr>"
    by (simp add: ex_eval_defs ex_checkout_def ex_rule_defs ex_evaluate_beta ex_bucket ex_variants_def)
      (simp add: ex_snapshot_def ex_staff_def ex_ctx_def ex_eval_defs)
  finally show ?thesis by (simp add: evaluate_def)
qed

lemma ex_evaluate_beta_next:
  "stack = [] \<or> stack = [''checkout''] \<Longrightarrow>
    evaluate_inner ex_crates ex_next ''beta'' ctx stack
      = Ok \<lparr>res_value = JBool False, res_variant = ''off'', res_reason = Default\<rparr>"
  by (subst evaluate_inner_rules [where f = ex_beta_off])
    (auto simp: ex_next_def ex_beta_off_def ex_beta_def ex_variants_def ex_eval_defs)

lemma ex_evaluate_checkout_next:
  "evaluate ex_crates ex_next ''checkout'' ex_ctx
      = Ok \<lparr>res_value = JBool False, res_variant = ''off'', res_reason = Default\<rparr>"
proof -
  have "evaluate_inner ex_crates ex_next ''checkout'' ex_ctx []
      = resolve_rules ex_crates ex_next
          (\<lambda>j. evaluate_inner ex_crates ex_next j ex_ctx [''checkout'']) ex_checkout ''checkout'' ex_ctx"
    by (subst evaluate_inner_rules [where f = ex_checkout])
      (simp_all add: ex_next_def ex_checkout_def)
  also have "\<dots> = Ok \<lparr>res_value = JBool False, res_variant = ''off'', res_reason = Default\<rparr>"
    by (simp add: ex_eval_defs ex_checkout_def ex_rule_defs ex_evaluate_beta_next ex_variants_def)
      (simp add: ex_next_def ex_staff_def ex_ctx_def ex_eval_defs)
  finally show ?thesis by (simp add: evaluate_def)
qed

lemma ex_wf: "snapshot_wf ex_snapshot" "snapshot_wf ex_next"
  by (simp_all add: snapshot_wf_def ex_defs)

end
