(* ===== verification/FlagProperties.thy ===== *)
theory FlagProperties
  imports FlagValidate FlagClient FlagExample
begin

text \<open>
  The properties of the feature-flag components one by one: evaluation, rollouts,
  conversions, the live snapshot, validation and diff, the RPCs and the client. Those that
  span components are in the root theory.
\<close>

section \<open>Evaluation\<close>

text \<open>
  C3: Evaluating a flag has four outcomes. An unknown key is the error \<open>FLAG_NOT_FOUND\<close>; an
  archived or disabled flag serves its default with reason \<open>Disabled\<close>; otherwise the first rule
  in order that matches and has something to serve decides (by its split if it has one, else
  by its variant), and without one the default is served with reason \<open>Default\<close>.
\<close>

theorem evaluate_outcome:
  "evaluate X sn k ctx =
    (case hget (sn_flags sn) k of
       None \<Rightarrow> Err (not_found_error k)
     | Some f \<Rightarrow>
         if f_archived f \<or> \<not> f_enabled f then resolve_variant f (f_default_variant_key f) Disabled
         else (case find (\<lambda>r. rule_matches X sn (\<lambda>j. evaluate_inner X sn j ctx [k]) r ctx \<and> serves r)
                      (f_rules f) of
                 None \<Rightarrow> resolve_variant f (f_default_variant_key f) Default
               | Some r \<Rightarrow> rule_outcome X f k ctx r))"
  by (auto simp: evaluate_def eval_simps resolve_rules_def resolve_rules_find split: option.splits)

theorem evaluate_outcome_witness:
  "evaluate ex_crates ex_snapshot ''gone'' ex_ctx = Err (not_found_error ''gone'')
   \<and> evaluate ex_crates (ex_snapshot\<lparr>sn_flags := [(''beta'', ex_beta\<lparr>f_archived := True\<rparr>)]\<rparr>) ''beta'' ex_ctx
     = Ok \<lparr>res_value = JBool True, res_variant = ''on'', res_reason = Disabled\<rparr>"
  unfolding evaluate_outcome
  by (simp add: ex_snapshot_def ex_flag_defs resolve_variant_def flag_variant_def)

text \<open>
  C38: The recursion through flag dependencies never nests deeper than the snapshot has flags:
  cut off one level below that, with any answer \<open>d\<close> at the cut, it returns the same result.
\<close>

theorem evaluate_depth_bounded:
  "evaluate_depth d (Suc (length (sn_flags sn))) X sn k ctx [] = evaluate X sn k ctx"
  unfolding evaluate_def
  by (rule evaluate_depth_enough) (simp add: less_Suc_eq_le unvisited_le_length)

text \<open>
  A dependency cycle is harmless: while \<open>k\<close> is evaluated from a chain of flags \<open>stack\<close>, a
  rule with a group of constraints that only ask for flags of the chain (or \<open>k\<close> itself) behaves
  as if it were not there.
\<close>

theorem cyclic_rules_skipped:
  assumes "k \<notin> set stack" and "hget (sn_flags sn) k = Some f" and "\<not> f_archived f" and "f_enabled f"
  shows "evaluate_inner X sn k ctx stack =
    resolve_rules_from X sn (\<lambda>j. evaluate_inner X sn j ctx (stack @ [k])) f k ctx
      (filter (\<lambda>r. \<not> blocked_by (stack @ [k]) r) (f_rules f))"
  using assms by (simp add: eval_simps resolve_rules_def resolve_rules_skip_blocked [symmetric])

theorem cyclic_rules_skipped_witness:
  "evaluate_inner ex_crates ex_snapshot ''checkout'' ex_ctx [''beta'']
     = resolve_rules_from ex_crates ex_snapshot
         (\<lambda>j. evaluate_inner ex_crates ex_snapshot j ex_ctx ([''beta''] @ [''checkout'']))
         ex_checkout ''checkout'' ex_ctx
         (filter (\<lambda>r. \<not> blocked_by ([''beta''] @ [''checkout'']) r) (f_rules ex_checkout))
   \<and> blocked_by ([''beta''] @ [''checkout'']) ex_split_rule"
  using cyclic_rules_skipped [of "''checkout''" "[''beta'']" ex_snapshot ex_checkout ex_crates ex_ctx]
  by (simp add: ex_snapshot_def ex_checkout_def) (simp add: blocked_by_def ex_split_rule_def)

section \<open>Rollouts\<close>

text \<open>
  Raising the weight of the first entry of a split keeps everyone it already served: a
  context that draws the entry before draws it after, as long as the salt stays.
\<close>

theorem gradual_rollout_sticky:
  assumes "r_distributions r = d # ds" and "total_weight (d # ds) = 100"
    and "d_variant_key d \<notin> d_variant_key ` set ds"
    and "r_distributions r' = d' # ds'" and "d_variant_key d' = d_variant_key d"
    and "d_weight d \<le> d_weight d'" and "r_bucket_salt r' = r_bucket_salt r"
    and "pick_distribution X fk r ctx = d_variant_key d"
  shows "pick_distribution X fk r' ctx = d_variant_key d"
proof -
  let ?b = "bucket_of X fk (r_bucket_salt r) (targeting_key ctx)"
  have "walk_distribution ?b 0 (d # ds) = Some (d_variant_key d)"
    using assms(1,2,8) pick_distribution_walk [of r X fk ctx] by simp
  then have "?b < d_weight d"
    using assms(3) walk_distribution_in [of ?b "d_weight d" ds] by (auto simp: Let_def split: if_splits)
  with assms(6) have "?b < d_weight d'" by simp
  with assms(4,5,7) show ?thesis by (simp add: pick_distribution_def)
qed

theorem gradual_rollout_sticky_witness:
  "pick_distribution ex_crates ''checkout'' ex_split_rule ex_ctx = ''on''
   \<and> pick_distribution ex_crates ''checkout''
       (ex_split_rule\<lparr>r_distributions := [\<lparr>d_variant_key = ''on'', d_weight = 90\<rparr>]\<rparr>) ex_ctx = ''on''"
proof -
  have "pick_distribution ex_crates ''checkout'' ex_split_rule ex_ctx = ''on''"
    by (simp add: pick_distribution_def ex_bucket ex_split_rule_def)
  then show ?thesis
    using gradual_rollout_sticky [of ex_split_rule "\<lparr>d_variant_key = ''on'', d_weight = 60\<rparr>"
        "[\<lparr>d_variant_key = ''off'', d_weight = 40\<rparr>]"
        "ex_split_rule\<lparr>r_distributions := [\<lparr>d_variant_key = ''on'', d_weight = 90\<rparr>]\<rparr>"
        "\<lparr>d_variant_key = ''on'', d_weight = 90\<rparr>" "[]" ex_crates "''checkout''" ex_ctx]
    by (simp add: ex_split_rule_def)
qed

section \<open>Conversions\<close>

text \<open>
  A flag encoded for the wire decodes to itself in wire normal form (all numbers floats, an
  empty segment or variant key read as none), the normal form has the same encoding, and
  two flags are encoded alike only when their normal forms agree.
\<close>

theorem flag_wire_roundtrip:
  "flag_try_from (flag_to_pb f) = Ok (norm_flag f)
   \<and> flag_to_pb (norm_flag f) = flag_to_pb f
   \<and> (flag_to_pb f = flag_to_pb g \<longleftrightarrow> norm_flag f = norm_flag g)"
  by (simp add: cf.dec_enc cf.enc_norm cf.enc_eq_iff)

text \<open>
  A snapshot sent over the wire is received with every flag and segment, and the receiver
  evaluates every flag in every context as the sender does.
\<close>

theorem snapshot_transport_evaluates:
  assumes "snapshot_wf sn" and "wire_normal sn"
  shows "\<exists>sn'. snapshot_try_from (snapshot_response sn) = Ok sn' \<and> snapshot_wf sn' \<and> same_lookup sn sn'
    \<and> (\<forall>X k ctx. evaluate X sn' k ctx = evaluate X sn k ctx)"
  using assms by (rule evaluate_transport)

theorem snapshot_transport_evaluates_witness:
  "\<exists>sn'. snapshot_try_from (snapshot_response ex_snapshot) = Ok sn' \<and> snapshot_wf sn'
    \<and> same_lookup ex_snapshot sn'
    \<and> (\<forall>X k ctx. evaluate X sn' k ctx = evaluate X ex_snapshot k ctx)"
proof (rule snapshot_transport_evaluates)
  show "snapshot_wf ex_snapshot" by (rule ex_wf)
  show "wire_normal ex_snapshot"
    by (simp add: wire_normal_def ex_snapshot_def ex_flag_defs ex_rule_defs ex_staff_def norm_defs)
qed

text \<open>
  The names under which the store keeps operators and value types are read back exactly:
  a name decodes to an operator only if it is the name of that operator.
\<close>

theorem column_names_roundtrip:
  "(operator_from_str s = Ok p \<longleftrightarrow> s = operator_to_str p)
   \<and> (value_type_from_str t = Ok v \<longleftrightarrow> t = value_type_to_str v)"
proof -
  have "operator_from_str s = Ok p \<Longrightarrow> s = operator_to_str p"
    by (auto simp: operator_from_str_def split: if_splits)
  moreover have "value_type_from_str t = Ok v \<Longrightarrow> t = value_type_to_str v"
    by (auto simp: value_type_from_str_def split: if_splits)
  ultimately show ?thesis by (auto simp: codec_simps)
qed

section \<open>The live snapshot\<close>

text \<open>
  An update is never silent: when the new snapshot evaluates a flag differently, the flag or
  a flag it reaches through flag-match constraints is among the announced keys.
\<close>

theorem changed_keys_cover:
  assumes "snapshot_wf new" and "evaluate X new k ctx \<noteq> evaluate X old k ctx"
  shows "\<exists>j. reaches old k j \<and> j \<in> set (changed_flag_keys old new)"
  using assms unchanged_same_evaluation [of new old k X ctx] by blast

theorem changed_keys_cover_witness:
  "snapshot_wf ex_next
   \<and> evaluate ex_crates ex_next ''checkout'' ex_ctx \<noteq> evaluate ex_crates ex_snapshot ''checkout'' ex_ctx
   \<and> (\<exists>j. reaches ex_snapshot ''checkout'' j \<and> j \<in> set (changed_flag_keys ex_snapshot ex_next))"
  using changed_keys_cover [of ex_next ex_crates "''checkout''" ex_ctx ex_snapshot]
  by (simp add: ex_wf ex_evaluate_checkout ex_evaluate_checkout_next)

text \<open>
  The announced keys leave out flags that change only through a flag they depend on: from
  one version to the next \<open>checkout\<close> resolves to another value, but only \<open>beta\<close> is announced.
\<close>

theorem changed_keys_miss_dependents:
  "evaluate ex_crates ex_snapshot ''checkout'' ex_ctx
     = Ok \<lparr>res_value = JBool True, res_variant = ''on'', res_reason = Split\<rparr>
   \<and> evaluate ex_crates ex_next ''checkout'' ex_ctx
     = Ok \<lparr>res_value = JBool False, res_variant = ''off'', res_reason = Default\<rparr>
   \<and> changed_flag_keys ex_snapshot ex_next = [''beta'']"
proof -
  have "changed_flag_keys ex_snapshot ex_next = [''beta'']"
    by (simp add: changed_flag_keys_def changed_segments_def btree_set_def ex_snapshot_def
        ex_next_def ex_beta_off_def ex_beta_def)
  then show ?thesis
    by (simp add: ex_evaluate_checkout ex_evaluate_checkout_next)
qed

text \<open>
  The versions published to subscribers grow strictly, starting above the version of the
  bootstrap, and the last one published is the version being served.
\<close>

theorem published_versions_increase:
  assumes "history hc m0 m" and "sent m0 = []"
  shows "sorted_wrt (<) (mgr_version m0 # map cu_version (sent m))
    \<and> last (mgr_version m0 # map cu_version (sent m)) = mgr_version m"
  using history_versions_inv [OF assms] by (simp only: versions_inv_def mgr_version_def simp_thms)

definition ex_manager :: SnapshotManager where
  "ex_manager = \<lparr>current = ex_snapshot, cache_cell = None, sent = []\<rparr>"

theorem published_versions_increase_witness:
  "sorted_wrt (<) (mgr_version ex_manager
       # map cu_version (sent (snd (reload True (Ok ex_next) ex_manager))))
   \<and> mgr_version (snd (reload True (Ok ex_next) ex_manager)) = 8"
proof -
  have "history True ex_manager (snd (reload True (Ok ex_next) ex_manager))"
    by (intro history.intros)
  then show ?thesis
    using published_versions_increase [of True ex_manager "snd (reload True (Ok ex_next) ex_manager)"]
    by (simp add: ex_manager_def mgr_version_def reload_def ex_snapshot_def ex_next_def)
qed

text \<open>
  After a reload the manager serves a version at least as new as before and as what the
  store returned. It either left everything as it was, or it installed the loaded snapshot,
  wrote it to the cache and announced it with its changed keys; a failed load changes nothing.
\<close>

theorem reload_installs_newer:
  "mgr_version m \<le> mgr_version (snd (reload hc loaded m))
   \<and> (\<forall>sn. loaded = Ok sn \<longrightarrow> sn_version sn \<le> mgr_version (snd (reload hc loaded m)))
   \<and> (snd (reload hc loaded m) = m
      \<or> (\<exists>sn. loaded = Ok sn \<and> mgr_version m < sn_version sn
           \<and> current (snd (reload hc loaded m)) = sn
           \<and> cache_cell (snd (reload hc loaded m)) = (if hc then Some sn else cache_cell m)
           \<and> sent (snd (reload hc loaded m))
              = sent m @ [\<lparr>cu_version = sn_version sn,
                           cu_changed_flag_keys = changed_flag_keys (current m) sn\<rparr>]))
   \<and> (fst (reload hc loaded m) = Ok () \<longleftrightarrow> is_ok loaded)"
  by (auto simp: reload_def Let_def mgr_version_def split: sum.splits)

theorem reload_installs_newer_witness:
  "sn_version ex_next \<le> mgr_version (snd (reload True (Ok ex_next) ex_manager))"
  using reload_installs_newer [of ex_manager True "Ok ex_next"] by simp

text \<open>
  At start a cached snapshot is used only when it has the version Postgres reports; otherwise
  the snapshot is loaded from the store and written to the cache, if there is one.
\<close>

theorem initial_ignores_stale_cache:
  "initial config_version has_cache cached loaded = (Ok sn, put) \<Longrightarrow>
     (config_version = Ok (sn_version sn) \<and> has_cache \<and> cached = Some sn \<and> put = None)
     \<or> (is_ok config_version \<and> loaded = Ok sn \<and> put = (if has_cache then Some sn else None)
        \<and> (has_cache \<longrightarrow> (\<forall>c. cached = Some c \<longrightarrow> config_version \<noteq> Ok (sn_version c))))"
  by (auto simp: initial_def split: sum.splits option.splits if_splits)

theorem initial_ignores_stale_cache_witness:
  "initial (Ok 8) True (Some ex_snapshot) (Ok ex_next) = (Ok ex_next, Some ex_next)
   \<and> Ok (8 :: int) \<noteq> (Ok (sn_version ex_snapshot) :: (AppError, int) result)"
proof -
  have "initial (Ok 8) True (Some ex_snapshot) (Ok ex_next) = (Ok ex_next, Some ex_next)"
    by (simp add: initial_def ex_snapshot_def)
  then show ?thesis
    using initial_ignores_stale_cache [of "Ok 8" True "Some ex_snapshot" "Ok ex_next" ex_next "Some ex_next"]
    by simp
qed

section \<open>Validation and diff\<close>

text \<open>
  The desired configuration is accepted exactly when every flag's default and every variant
  its rules name exist on the flag, every value has the flag's type, and the \<open>u32\<close> weights
  of every split add up to 100.
\<close>

theorem validate_desired_characterised:
  "validate_desired flags segments = Ok () \<longleftrightarrow>
    (\<forall>f\<in>set flags.
       f_default_variant_key f \<in> v_key ` set (f_variants f)
       \<and> (\<forall>v\<in>set (f_variants f). variant_type_ok (f_value_type f) (v_value v))
       \<and> (\<forall>r\<in>set (f_rules f).
            (\<forall>k. r_variant_key r = Some k \<longrightarrow> k \<in> v_key ` set (f_variants f))
            \<and> (r_distributions r \<noteq> [] \<longrightarrow>
                 (\<forall>d\<in>set (r_distributions r). d_variant_key d \<in> v_key ` set (f_variants f))
                 \<and> sum_list (map d_weight (r_distributions r)) = 100)))"
  by (simp add: store_simps rule_valid_def variant_known_def)

theorem validate_desired_characterised_witness:
  "validate_desired [ex_checkout, ex_beta] [ex_staff] = Ok ()"
  by (simp add: validate_desired_characterised ex_flag_defs ex_rule_defs variant_type_ok_def)

text \<open>
  The total of a split wraps around: weights of 4294967295 and 101 pass as a sum of 100.
\<close>

theorem validate_rule_total_wraps:
  "validate_rule ''f'' [''a'', ''b''] 0
     (ex_split_rule\<lparr>r_distributions := [\<lparr>d_variant_key = ''a'', d_weight = 4294967295\<rparr>,
                                        \<lparr>d_variant_key = ''b'', d_weight = 101\<rparr>]\<rparr>) = Ok ()
   \<and> total_weight [\<lparr>d_variant_key = ''a'', d_weight = 4294967295\<rparr>,
                   \<lparr>d_variant_key = ''b'', d_weight = 101\<rparr>] = 4294967396"
  by (simp add: validate_rule_Ok rule_valid_def ex_split_rule_def)

text \<open>
  The plan is empty exactly when live and desired configuration have the same keys and agree
  on every segment and flag, up to the order of variants and the ranks of rules.
\<close>

theorem diff_empty_iff_same:
  "diff_config cur flags segments = [] \<longleftrightarrow>
     (\<forall>s\<in>set segments. \<exists>live. hget (sn_segments cur) (s_key s) = Some live
         \<and> s_name live = s_name s \<and> s_constraints live = s_constraints s)
     \<and> set (hkeys (sn_segments cur)) \<subseteq> s_key ` set segments
     \<and> (\<forall>f\<in>set flags. \<exists>live. hget (sn_flags cur) (f_key f) = Some live \<and> same_flag live f)
     \<and> set (hkeys (sn_flags cur)) \<subseteq> f_key ` set flags"
  by (simp add: diff_config_Nil store_simps)

theorem diff_empty_iff_same_witness:
  "diff_config ex_snapshot [ex_beta, ex_checkout] [ex_staff] = []
   \<and> diff_config ex_next [ex_beta, ex_checkout] [ex_staff] \<noteq> []"
  by (simp only: diff_empty_iff_same)
    (simp add: ex_snapshot_def ex_next_def ex_flag_defs ex_staff_def same_flag_def)

section \<open>The RPCs\<close>

definition identified :: "(string \<times> string option) list \<Rightarrow> bool" where
  "identified md \<longleftrightarrow> (\<exists>s. s \<noteq> [] \<and> map_of md ''client-id'' = Some (Some s))"

lemma client_id_of_cases:
  "client_id_of r = (if identified (rq_metadata r) then Ok (the (the (map_of (rq_metadata r) ''client-id'')))
     else Err (CodeUnauthenticated, ''missing client-id''))"
  by (auto simp: client_id_of_def identified_def bind_eq_Some_conv split: option.splits)

text \<open>
  Every Evaluation RPC answers a caller that identifies itself with a non-empty
  \<open>client-id\<close>, and refuses any other with \<open>UNAUTHENTICATED\<close>.
\<close>

theorem rpcs_require_client_id:
  "let ok = identified md; typed = \<lparr>rq_metadata = md, rq_message = rr\<rparr>;
       all = \<lparr>rq_metadata = md, rq_message = c\<rparr>; bare = \<lparr>rq_metadata = md, rq_message = ()\<rparr>
   in is_ok (resolve_boolean X sn typed) = ok \<and> is_ok (resolve_string X sn typed) = ok
      \<and> is_ok (resolve_integer X sn typed) = ok \<and> is_ok (resolve_float X sn typed) = ok
      \<and> is_ok (resolve_object X sn typed) = ok \<and> is_ok (resolve_all X sn all) = ok
      \<and> is_ok (get_snapshot sn bare) = ok \<and> is_ok (stream_snapshot sn sitems bare) = ok
      \<and> is_ok (stream_events v eitems bare) = ok
      \<and> client_id_of typed = (if ok then Ok (the (the (map_of md ''client-id'')))
                             else Err (CodeUnauthenticated, ''missing client-id''))"
  by (simp add: Let_def client_id_of_cases resolve_boolean_def resolve_string_def resolve_integer_def
      resolve_float_def resolve_object_def resolve_all_def get_snapshot_def stream_snapshot_def
      stream_events_def)

text \<open>
  \<open>ResolveAll\<close> lists the flags that are not archived, each once and in the order of the
  snapshot, and every entry holds what evaluating that flag alone returns.
\<close>

theorem resolve_all_lists_live_flags:
  assumes "resolve_all X sn req = Ok entries"
  shows "map ef_flag_key entries = map fst (filter (\<lambda>(k, f). \<not> f_archived f) (sn_flags sn))
    \<and> (\<forall>e\<in>set entries. \<exists>k f. (k, f) \<in> set (sn_flags sn) \<and> \<not> f_archived f
         \<and> e = evaluate_entry X sn (context_or_default (rq_message req)) k f)"
  using assms
  by (auto simp: resolve_all_def resolve_all_loop_keys resolve_all_loop_entries split: sum.splits)

definition ex_request :: "PbEvaluationContext option Request" where
  "ex_request = \<lparr>rq_metadata = [(''client-id'', Some ''ffctl'')], rq_message = None\<rparr>"

theorem resolve_all_lists_live_flags_witness:
  "\<exists>entries. resolve_all ex_crates ex_snapshot ex_request = Ok entries
     \<and> map ef_flag_key entries = [''checkout'', ''beta'']"
proof -
  obtain entries where e: "resolve_all ex_crates ex_snapshot ex_request = Ok entries"
    by (simp add: resolve_all_def ex_request_def client_id_of_def)
  then show ?thesis
    using resolve_all_lists_live_flags [OF e] by (simp add: ex_snapshot_def ex_flag_defs)
qed

text \<open>
  No integer flag ever resolves: once a configuration has gone over the wire its numbers
  are floats, which \<open>as_i64\<close> refuses, so \<open>ResolveInteger\<close> answers 0 with an error code for
  every flag and context, whatever variants the flag has.
\<close>

theorem integer_flags_never_resolve:
  assumes "wire_normal sn" and "identified (rq_metadata req)"
  shows "\<exists>m. resolve_integer X sn req = Ok \<lparr>tr_value = 0, tr_meta = Some m\<rparr> \<and> pm_error_code m \<noteq> []"
  using assms(2) resolved_integer_error [OF assms(1), of X "rr_flag_key (rq_message req)"
      "context_or_default (rr_context (rq_message req))" "''integer''"]
  by (auto simp: resolve_integer_def client_id_of_cases Let_def typed_response_def)

definition ex_limit :: Flag where
  "ex_limit = \<lparr>f_key = ''limit'', f_value_type = Integer, f_enabled = True,
     f_default_variant_key = ''ten'', f_archived = False,
     f_variants = [\<lparr>v_key = ''ten'', v_value = JNumber (Float 10)\<rparr>], f_rules = []\<rparr>"

theorem integer_flags_never_resolve_witness:
  "validate_flag ex_limit = Ok ()
   \<and> (\<exists>m. resolve_integer ex_crates \<lparr>sn_version = 1, sn_flags = [(''limit'', ex_limit)], sn_segments = []\<rparr>
         (client_request ''app'' ''limit'' context_default) = Ok \<lparr>tr_value = 0, tr_meta = Some m\<rparr>
         \<and> pm_error_code m \<noteq> [])"
proof
  have "whole 10" using whole_of_int [of 10] by simp
  then show "validate_flag ex_limit = Ok ()"
    by (simp add: validate_flag_Ok ex_limit_def variant_known_def variant_type_ok_def)
qed (rule integer_flags_never_resolve,
    simp_all add: wire_normal_def ex_limit_def norm_defs identified_def client_request_def)

section \<open>The client\<close>

text \<open>
  A context built with the client's builder reaches the engine as written: the targeting
  key is kept, an attribute reads as the last value set for it, and the keys stay sorted.
\<close>

theorem context_builder_faithful:
  assumes "sorted_wrt (<) (map fst (ctx_attributes c))"
  shows "targeting_key (context_from_pb (context_into_pb (attr_value key v c))) = ctx_targeting_key c
    \<and> hget (attributes (context_from_pb (context_into_pb (attr_value key v c)))) j
       = (if j = key then Some (prost_value_to_json v)
          else hget (attributes (context_from_pb (context_into_pb c))) j)
    \<and> sorted_wrt (<) (map fst (ctx_attributes (attr_value key v c)))"
  using assms
  by (simp add: context_from_pb_def context_into_pb_def attr_value_def hget_map_values
      btree_insert_lookup btree_insert_sorted)

theorem context_builder_faithful_witness:
  "hget (attributes (context_from_pb (context_into_pb
      (context_string ''plan'' ''pro'' (context_bool ''plan'' True (context_new ''user-1'')))))) ''plan''
     = Some (JString ''pro'')"
  unfolding context_string_def context_attr_def
  by (subst conjunct1 [OF conjunct2 [OF context_builder_faithful]])
    (simp_all add: context_bool_def context_attr_def attr_value_def context_new_def)

text \<open>
  Bootstrapping gives up after eight attempts: it sleeps at most seven times, each time at
  most 60 seconds, and it fails only when no attempt delivered a first message.
\<close>

theorem bootstrap_gives_up:
  "length (snd (open_initial env)) \<le> 7 \<and> (\<forall>s\<in>set (snd (open_initial env)). s \<le> 60)
   \<and> (\<forall>i r. 1 \<le> i \<and> i \<le> 8 \<and> env i = First r \<longrightarrow> is_ok (fst (open_initial env)))"
  using open_initial_loop_sleeps [of env 1 BOOTSTRAP_ATTEMPTS RECONNECT_MIN None]
    open_initial_loop_sleep_bound [of RECONNECT_MIN _ env 1 BOOTSTRAP_ATTEMPTS None]
    open_initial_loop_first [of env _ _ 1 BOOTSTRAP_ATTEMPTS RECONNECT_MIN None]
  by (auto simp: open_initial_def BOOTSTRAP_ATTEMPTS_def RECONNECT_MIN_def RECONNECT_MAX_def
      simp del: open_initial_loop.simps)

definition ex_attempts :: "nat \<Rightarrow> attempt" where
  "ex_attempts i = (if i < 3 then ClosedEarly else First (snapshot_response ex_snapshot))"

theorem bootstrap_gives_up_witness:
  "is_ok (fst (open_initial ex_attempts)) \<and> snd (open_initial ex_attempts) = [1, 2]"
  using bootstrap_gives_up [of ex_attempts]
  by (auto simp: ex_attempts_def open_initial_def BOOTSTRAP_ATTEMPTS_def RECONNECT_MIN_def
      RECONNECT_MAX_def eval_nat_numeral)

text \<open>
  While the server cannot be reached the back-off doubles from one second up to a minute,
  and the evaluator keeps serving the snapshot it has.
\<close>

theorem reconnect_backs_off:
  assumes "refresh_run s (replicate n OpenFailed) t" and "backoff s = RECONNECT_MIN"
  shows "backoff t = min (2 ^ n) 60 \<and> served t = served s"
  using refresh_failures [OF assms(1)] refresh_run_served [OF assms(1)] assms(2)
  by (auto simp: RECONNECT_MIN_def RECONNECT_MAX_def)

theorem reconnect_backs_off_witness:
  "\<exists>t. refresh_run \<lparr>connected = False, backoff = RECONNECT_MIN, served = ex_snapshot\<rparr>
       (replicate 5 OpenFailed) t
     \<and> backoff t = 32 \<and> served t = ex_snapshot"
proof -
  let ?s = "\<lparr>connected = False, backoff = RECONNECT_MIN, served = ex_snapshot\<rparr>"
  obtain t where "refresh_run ?s (replicate 5 OpenFailed) t"
    using refresh_run_failed [of ?s 5] by auto
  moreover from this have "backoff t = 32 \<and> served t = ex_snapshot"
    using reconnect_backs_off [of ?s 5 t] by simp
  ultimately show ?thesis by blast
qed

text \<open>
  Whatever the stream does, a bootstrapped evaluator serves a snapshot that was received
  whole (the one it started with or one that came in a message), in wire normal form, and
  its back-off stays between one second and a minute.
\<close>

theorem refresh_serves_received_snapshots:
  assumes "bootstrap_evaluator env = Ok s" and "refresh_run s es t"
  shows "wire_normal (served t) \<and> 1 \<le> backoff t \<and> backoff t \<le> 60
    \<and> (served t = served s
       \<or> (\<exists>resp sn. Message resp \<in> set es \<and> build_snapshot resp = Ok sn \<and> served t = sn))"
  using refresh_run_inv [OF assms(2) bootstrap_inv [OF assms(1)]] refresh_run_served [OF assms(2)]
  by (simp add: refresh_inv_def RECONNECT_MIN_def RECONNECT_MAX_def)

theorem refresh_serves_received_snapshots_witness:
  "\<exists>s t. bootstrap_evaluator (\<lambda>_. First (snapshot_response snapshot_default)) = Ok s
     \<and> refresh_run s [StreamError] t \<and> wire_normal (served t) \<and> backoff t \<le> 60"
proof -
  let ?env = "\<lambda>_. First (snapshot_response snapshot_default)"
  let ?s = "\<lparr>connected = True, backoff = RECONNECT_MIN, served = snapshot_default\<rparr>"
  have "fst (open_initial ?env) = Ok (snapshot_response snapshot_default)"
    by (simp add: open_initial_def BOOTSTRAP_ATTEMPTS_def numeral_eq_Suc)
  then have b: "bootstrap_evaluator ?env = Ok ?s"
    by (simp add: bootstrap_evaluator_def build_snapshot_def snapshot_try_from_def
        snapshot_response_def snapshot_default_def)
  have r: "refresh_run ?s [StreamError] (?s\<lparr>connected := False\<rparr>)"
    by (rule refresh_run.cons [OF refresh_step.error refresh_run.nil]) simp
  show ?thesis
    using b r refresh_serves_received_snapshots [OF b r] by blast
qed

end
