(* ===== verification/FlagProvider.thy ===== *)
theory FlagProvider
  imports FlagExample FlagClient FlagValidate
begin

text \<open>
  The OpenFeature provider \<open>crates/feature-flag/openfeature-provider\<close>: the conversions of \<open>convert.rs\<close>
  and, from \<open>lib.rs\<close>, the calls and the loop that follows the event stream. The types of the SDK are
  those the provider constructs and inspects. A date comes as the text \<open>to_string\<close> gives it, and
  the text of a client error is the argument \<open>show\<close>.
\<close>

section \<open>Conversions\<close>

datatype FieldValue =
    FieldBool bool
  | FieldInt i64
  | FieldFloat f64
  | FieldString string
  | FieldDateTime string
  | FieldStruct

record EvaluationContext =
  ec_targeting_key :: "string option"
  ec_custom_fields :: "(string \<times> FieldValue) list"

fun add_field :: "string \<times> FieldValue \<Rightarrow> Context \<Rightarrow> Context" where
  "add_field (key, FieldBool b) out = context_bool key b out"
| "add_field (key, FieldInt i) out = context_number key (Fin (f64_of_int (sint i))) out"
| "add_field (key, FieldFloat f) out = context_number key f out"
| "add_field (key, FieldString s) out = context_string key s out"
| "add_field (key, FieldDateTime dt) out = context_string key dt out"
| "add_field (key, FieldStruct) out = out"

definition context_to_client :: "EvaluationContext \<Rightarrow> Context" where
  "context_to_client ctx =
     fold add_field (ec_custom_fields ctx) (context_new (case ec_targeting_key ctx of Some k \<Rightarrow> k | None \<Rightarrow> []))"

datatype EvaluationReason = OfStatic | OfDefault | OfTargetingMatch | OfSplit | OfDisabled | OfError | OfUnknown

fun reason_to_open_feature :: "PbReason \<Rightarrow> EvaluationReason" where
  "reason_to_open_feature RStatic = OfStatic"
| "reason_to_open_feature RDefault = OfDefault"
| "reason_to_open_feature RTargetingMatch = OfTargetingMatch"
| "reason_to_open_feature RSplit = OfSplit"
| "reason_to_open_feature RDisabled = OfDisabled"
| "reason_to_open_feature RError = OfError"
| "reason_to_open_feature RUnspecified = OfUnknown"

datatype EvaluationErrorCode =
    OfFlagNotFound
  | OfTypeMismatch
  | OfParseError
  | OfTargetingKeyMissing
  | OfInvalidContext
  | OfGeneral string

record EvaluationError =
  oe_code :: EvaluationErrorCode
  oe_message :: "string option"

definition error_from_code :: "string \<Rightarrow> string option \<Rightarrow> EvaluationError" where
  "error_from_code code message =
     \<lparr>oe_code =
        (if code = ''FLAG_NOT_FOUND'' then OfFlagNotFound
         else if code = ''TYPE_MISMATCH'' then OfTypeMismatch
         else if code = ''PARSE_ERROR'' then OfParseError
         else if code = ''TARGETING_KEY_MISSING'' then OfTargetingKeyMissing
         else if code = ''INVALID_CONTEXT'' then OfInvalidContext
         else OfGeneral code),
      oe_message = message\<rparr>"

datatype of_value =
    OfBool bool
  | OfInt i64
  | OfFloat f64
  | OfString string
  | OfArray "of_value list"
  | OfStruct "(string \<times> of_value) list"

fun prost_value_to_open_feature :: "pvalue \<Rightarrow> of_value" where
  "prost_value_to_open_feature (PValue (Some (BoolValue b))) = OfBool b"
| "prost_value_to_open_feature (PValue (Some (NumberValue n))) = OfFloat n"
| "prost_value_to_open_feature (PValue (Some (StringValue s))) = OfString s"
| "prost_value_to_open_feature (PValue (Some (ListValue l))) = OfArray (map prost_value_to_open_feature l)"
| "prost_value_to_open_feature (PValue (Some (StructValue s))) =
     OfStruct (map (\<lambda>(k, v). (k, prost_value_to_open_feature v)) s)"
| "prost_value_to_open_feature (PValue (Some (NullValue _))) = OfString []"
| "prost_value_to_open_feature (PValue None) = OfString []"

definition struct_to_open_feature :: "pstruct \<Rightarrow> (string \<times> of_value) list" where
  "struct_to_open_feature s = map (\<lambda>(k, v). (k, prost_value_to_open_feature v)) s"

section \<open>Calls\<close>

record 'a ResolutionDetails =
  rd_value :: 'a
  rd_variant :: "string option"
  rd_reason :: "EvaluationReason option"

definition client_error_of :: "string \<Rightarrow> EvaluationError" where
  "client_error_of shown = \<lparr>oe_code = OfGeneral shown, oe_message = Some shown\<rparr>"

definition into_details ::
  "('e \<Rightarrow> string) \<Rightarrow> ('e, 'a ClientResolution) result \<Rightarrow> (EvaluationError, 'a ResolutionDetails) result" where
  "into_details show r =
     (case r of
        Err e \<Rightarrow> Err (client_error_of (show e))
      | Ok res \<Rightarrow>
          (case cr_error_code res of
             Some code \<Rightarrow> Err (error_from_code code None)
           | None \<Rightarrow> Ok \<lparr>rd_value = cr_value res,
                        rd_variant = (if cr_variant res \<noteq> [] then Some (cr_variant res) else None),
                        rd_reason = Some (reason_to_open_feature (cr_reason res))\<rparr>))"

record provider =
  pv_crates :: crates
  pv_server :: Snapshot
  pv_local :: "Snapshot option"
  pv_client_id :: string
  pv_show :: "status \<Rightarrow> string"

definition provider_call ::
  "(crates \<Rightarrow> Snapshot \<Rightarrow> Snapshot option \<Rightarrow> string \<Rightarrow> string \<Rightarrow> PbEvaluationContext \<Rightarrow> (status, 'a ClientResolution) result)
     \<Rightarrow> provider \<Rightarrow> string \<Rightarrow> EvaluationContext \<Rightarrow> (status, 'a ClientResolution) result" where
  "provider_call f P flag_key ctx =
     f (pv_crates P) (pv_server P) (pv_local P) (pv_client_id P) flag_key (context_into_pb (context_to_client ctx))"

definition resolve_bool_value :: "provider \<Rightarrow> string \<Rightarrow> EvaluationContext \<Rightarrow> (EvaluationError, bool ResolutionDetails) result" where
  "resolve_bool_value P k ctx = into_details (pv_show P) (provider_call client_resolve_bool P k ctx)"

definition resolve_int_value :: "provider \<Rightarrow> string \<Rightarrow> EvaluationContext \<Rightarrow> (EvaluationError, i64 ResolutionDetails) result" where
  "resolve_int_value P k ctx = into_details (pv_show P) (provider_call client_resolve_int P k ctx)"

definition resolve_float_value :: "provider \<Rightarrow> string \<Rightarrow> EvaluationContext \<Rightarrow> (EvaluationError, rat ResolutionDetails) result" where
  "resolve_float_value P k ctx = into_details (pv_show P) (provider_call client_resolve_float P k ctx)"

definition resolve_string_value :: "provider \<Rightarrow> string \<Rightarrow> EvaluationContext \<Rightarrow> (EvaluationError, string ResolutionDetails) result" where
  "resolve_string_value P k ctx = into_details (pv_show P) (provider_call client_resolve_string P k ctx)"

definition resolve_struct_value ::
  "provider \<Rightarrow> string \<Rightarrow> EvaluationContext \<Rightarrow> (EvaluationError, (string \<times> of_value) list ResolutionDetails) result" where
  "resolve_struct_value P k ctx =
     into_details (pv_show P)
       (case provider_call client_resolve_object P k ctx of
          Err e \<Rightarrow> Err e
        | Ok r \<Rightarrow> Ok \<lparr>cr_value = struct_to_open_feature (cr_value r), cr_variant = cr_variant r,
                     cr_reason = cr_reason r, cr_error_code = cr_error_code r\<rparr>)"

section \<open>The event loop\<close>

datatype ProviderStatus = NotReady | Ready | StatusError | Stale

datatype ProviderEvent = EventReady | EventConfigurationChanged int | EventStale | EventError

text \<open>One subscription: it does not open, or it delivers events until it ends or breaks.\<close>

datatype subscription = NotOpened | Delivered "Event list"

definition handle_event :: "Event \<Rightarrow> ProviderStatus \<times> ProviderEvent list \<Rightarrow> ProviderStatus \<times> ProviderEvent list" where
  "handle_event e = (\<lambda>(st, sent).
     (case nth_variant event_types (ev_type e) of
        Some EvReady \<Rightarrow> (Ready, sent @ [EventReady])
      | Some EvConfigurationChanged \<Rightarrow> (st, sent @ [EventConfigurationChanged (ev_config_version e)])
      | Some EvResync \<Rightarrow> (st, sent @ [EventConfigurationChanged (ev_config_version e)])
      | _ \<Rightarrow> (st, sent)))"

text \<open>The state while a subscription lasts, and after it.\<close>

definition during_subscription :: "subscription \<Rightarrow> ProviderStatus \<times> ProviderEvent list \<Rightarrow> ProviderStatus \<times> ProviderEvent list" where
  "during_subscription s p =
     (case s of
        Delivered es \<Rightarrow> fold handle_event es p
      | NotOpened \<Rightarrow> (StatusError, snd p @ [EventError]))"

definition event_round :: "subscription \<Rightarrow> ProviderStatus \<times> ProviderEvent list \<Rightarrow> ProviderStatus \<times> ProviderEvent list" where
  "event_round s p = (Stale, snd (during_subscription s p) @ [EventStale])"

definition event_loop :: "subscription list \<Rightarrow> ProviderStatus \<times> ProviderEvent list" where
  "event_loop ss = fold event_round ss (NotReady, [])"

section \<open>Properties\<close>

text \<open>Fields of the context reach the engine under their names; a field that is set twice is its last value.\<close>

fun field_kind :: "FieldValue \<Rightarrow> kind option" where
  "field_kind (FieldBool b) = Some (BoolValue b)"
| "field_kind (FieldInt i) = Some (NumberValue (Fin (f64_of_int (sint i))))"
| "field_kind (FieldFloat f) = Some (NumberValue f)"
| "field_kind (FieldString s) = Some (StringValue s)"
| "field_kind (FieldDateTime dt) = Some (StringValue dt)"
| "field_kind FieldStruct = None"

lemma add_field_attributes:
  "sorted_wrt (<) (map fst (ctx_attributes c)) \<Longrightarrow> map_of (ctx_attributes (add_field (k, v) c)) j
     = (if j = k \<and> field_kind v \<noteq> None then map_option (\<lambda>x. PValue (Some x)) (field_kind v) else map_of (ctx_attributes c) j)"
  by (cases v) (simp_all add: context_bool_def context_number_def context_string_def context_attr_def attr_value_def btree_insert_lookup)

lemma add_field_sorted:
  "sorted_wrt (<) (map fst (ctx_attributes c)) \<Longrightarrow> sorted_wrt (<) (map fst (ctx_attributes (add_field (k, v) c)))"
  by (cases v) (simp_all add: context_bool_def context_number_def context_string_def context_attr_def attr_value_def btree_insert_sorted)

lemma add_field_key [simp]: "ctx_targeting_key (add_field kv c) = ctx_targeting_key c"
  by (cases kv; cases "snd kv") (simp_all add: context_bool_def context_number_def context_string_def context_attr_def attr_value_def)

lemma fields_reach_the_context:
  assumes "distinct (map fst fs)" "sorted_wrt (<) (map fst (ctx_attributes c))"
  shows "map_of (ctx_attributes (fold add_field fs c)) j
    = (case Option.bind (map_of fs j) field_kind of Some x \<Rightarrow> Some (PValue (Some x)) | None \<Rightarrow> map_of (ctx_attributes c) j)"
  using assms
proof (induction fs arbitrary: c)
  case (Cons kv fs)
  obtain k v where kv: "kv = (k, v)" by (cases kv)
  have "map_of fs k = None" using Cons.prems kv by (simp add: map_of_eq_None_iff)
  then show ?case
    using Cons.prems Cons.IH [of "add_field (k, v) c"] kv
    by (auto simp: add_field_attributes add_field_sorted split: option.split)
qed simp

lemma details_of_evaluation:
  assumes "evaluate X sn k (context_from_pb c) = Ok res" "extract (res_value res) = Some x"
  shows "into_details show (Ok (local_resolve X sn k c extract d))
    = Ok \<lparr>rd_value = x, rd_variant = (if res_variant res \<noteq> [] then Some (res_variant res) else None),
          rd_reason = Some (reason_to_open_feature (reason_to_pb (res_reason res)))\<rparr>"
  using assms by (simp add: into_details_def local_resolve_def)

lemma known_reason: "reason_to_open_feature (reason_to_pb r) \<noteq> OfUnknown"
  by (cases r) simp_all

lemma validated_evaluation:
  assumes "validate_flag f = Ok ()" and "hget (sn_flags sn) k = Some f"
  obtains res v where "evaluate X sn k ctx = Ok res" "v \<in> set (f_variants f)" "v_key v = res_variant res" "v_value v = res_value res"
    "variant_type_ok (f_value_type f) (res_value res)"
proof -
  have "is_ok (evaluate X sn k ctx)"
    unfolding evaluate_def
    by (rule evaluate_inner_ok [OF _ assms(2) validated_refs_ok [OF assms(1)]]) simp
  then obtain res where res: "evaluate X sn k ctx = Ok res" by (auto simp: is_ok_iff)
  moreover obtain v where v: "v \<in> set (f_variants f)" "v_key v = res_variant res" "v_value v = res_value res"
    using res assms(2) evaluate_inner_drawn [of X sn k ctx "[]" res] by (auto simp: evaluate_def drawn_from_def)
  moreover have "variant_type_ok (f_value_type f) (res_value res)"
    using validated_type_ok [OF assms(1) v(1)] v(3) by simp
  ultimately show thesis by (rule that)
qed

lemma provider_is_local:
  assumes "pv_local P = None \<and> pv_client_id P \<noteq> [] \<and> sn = pv_server P \<or> pv_local P = Some sn"
  shows "provider_call client_resolve_bool P k ctx = Ok (local_resolve (pv_crates P) sn k (context_into_pb (context_to_client ctx)) as_bool False)"
    and "provider_call client_resolve_string P k ctx = Ok (local_resolve (pv_crates P) sn k (context_into_pb (context_to_client ctx)) as_str [])"
    and "provider_call client_resolve_int P k ctx = Ok (local_resolve (pv_crates P) sn k (context_into_pb (context_to_client ctx)) as_i64 0)"
proof (atomize (full), goal_cases)
  case 1
  from assms show ?case
  proof
    assume here: "pv_local P = None \<and> pv_client_id P \<noteq> [] \<and> sn = pv_server P"
    then have "pv_client_id P \<noteq> []" by simp
    from here remote_is_local [OF this] show ?thesis
      by (simp add: provider_call_def local_resolve_bool_def local_resolve_string_def local_resolve_int_def)
  next
    assume "pv_local P = Some sn"
    then show ?thesis
      by (simp add: provider_call_def client_resolve_bool_def client_resolve_string_def client_resolve_int_def
          local_resolve_bool_def local_resolve_string_def local_resolve_int_def)
  qed
qed

text \<open>
  C22: Through the OpenFeature provider a boolean or string flag that passed validation always resolves, in
  every context and in both modes: with the value of one of its variants, the name of that variant and a
  known reason. An error is left only for unknown keys, other types and failed calls.
\<close>

theorem validated_flags_serve_openfeature:
  assumes "pv_local P = None \<and> pv_client_id P \<noteq> [] \<and> sn = pv_server P \<or> pv_local P = Some sn"
    and "hget (sn_flags sn) k = Some f" and "validate_flag f = Ok ()"
  shows "(f_value_type f = Boolean \<longrightarrow> (\<exists>d v. resolve_bool_value P k ctx = Ok d \<and> v \<in> set (f_variants f)
        \<and> v_value v = JBool (rd_value d) \<and> rd_variant d = (if v_key v = [] then None else Some (v_key v))
        \<and> rd_reason d \<notin> {None, Some OfUnknown}))
    \<and> (f_value_type f = String \<longrightarrow> (\<exists>d v. resolve_string_value P k ctx = Ok d \<and> v \<in> set (f_variants f)
        \<and> v_value v = JString (rd_value d) \<and> rd_variant d = (if v_key v = [] then None else Some (v_key v))
        \<and> rd_reason d \<notin> {None, Some OfUnknown}))"
proof -
  let ?c = "context_into_pb (context_to_client ctx)"
  obtain res v where res: "evaluate (pv_crates P) sn k (context_from_pb ?c) = Ok res"
    and v: "v \<in> set (f_variants f)" "v_key v = res_variant res" "v_value v = res_value res"
    and ty: "variant_type_ok (f_value_type f) (res_value res)"
    by (rule validated_evaluation [OF assms(3,2)])
  note details = details_of_evaluation [OF res]
  have "\<exists>d v. resolve_bool_value P k ctx = Ok d \<and> v \<in> set (f_variants f) \<and> v_value v = JBool (rd_value d)
      \<and> rd_variant d = (if v_key v = [] then None else Some (v_key v)) \<and> rd_reason d \<notin> {None, Some OfUnknown}"
    if boolean: "f_value_type f = Boolean"
  proof -
    obtain b where "res_value res = JBool b" using ty boolean by (cases "res_value res") (auto simp: variant_type_ok_def)
    with v details [of as_bool b] show ?thesis
      by (intro exI [of _ "\<lparr>rd_value = b, rd_variant = (if res_variant res \<noteq> [] then Some (res_variant res) else None),
          rd_reason = Some (reason_to_open_feature (reason_to_pb (res_reason res)))\<rparr>"] exI [of _ v])
        (auto simp: resolve_bool_value_def provider_is_local [OF assms(1)] known_reason)
  qed
  moreover have "\<exists>d v. resolve_string_value P k ctx = Ok d \<and> v \<in> set (f_variants f) \<and> v_value v = JString (rd_value d)
      \<and> rd_variant d = (if v_key v = [] then None else Some (v_key v)) \<and> rd_reason d \<notin> {None, Some OfUnknown}"
    if textual: "f_value_type f = String"
  proof -
    obtain s where "res_value res = JString s" using ty textual by (cases "res_value res") (auto simp: variant_type_ok_def)
    with v details [of as_str s] show ?thesis
      by (intro exI [of _ "\<lparr>rd_value = s, rd_variant = (if res_variant res \<noteq> [] then Some (res_variant res) else None),
          rd_reason = Some (reason_to_open_feature (reason_to_pb (res_reason res)))\<rparr>"] exI [of _ v])
        (auto simp: resolve_string_value_def provider_is_local [OF assms(1)] known_reason)
  qed
  ultimately show ?thesis by blast
qed

lemma validated_flags_serve_openfeature_witness:
  "\<exists>d. resolve_bool_value \<lparr>pv_crates = ex_crates, pv_server = ex_snapshot, pv_local = None, pv_client_id = ''app'', pv_show = (\<lambda>_. [])\<rparr>
      ''checkout'' \<lparr>ec_targeting_key = None, ec_custom_fields = [(''plan'', FieldString ''pro'')]\<rparr> = Ok d"
proof -
  have "validate_flag ex_checkout = Ok ()"
    by (simp add: validate_flag_Ok ex_flag_defs ex_rule_defs variant_known_def variant_type_ok_def rule_valid_def)
  moreover have "hget (sn_flags ex_snapshot) ''checkout'' = Some ex_checkout" "f_value_type ex_checkout = Boolean"
    by (simp_all add: ex_snapshot_def ex_checkout_def)
  ultimately show ?thesis
    using validated_flags_serve_openfeature
      [of "\<lparr>pv_crates = ex_crates, pv_server = ex_snapshot, pv_local = None, pv_client_id = ''app'', pv_show = (\<lambda>_. [])\<rparr>"
        ex_snapshot "''checkout''" ex_checkout "\<lparr>ec_targeting_key = None, ec_custom_fields = [(''plan'', FieldString ''pro'')]\<rparr>"]
    by auto
qed

text \<open>After every subscription the provider is stale, also when the subscription could not be opened: the error
  status is replaced before the loop waits.\<close>

lemma error_status_is_replaced:
  "event_loop (ss @ [NotOpened]) = (Stale, snd (event_loop ss) @ [EventError, EventStale])"
  by (simp add: event_loop_def event_round_def during_subscription_def)

text \<open>Ready is announced only by the backend: a subscription that delivers changes only stays stale.\<close>

lemma ready_needs_ready:
  assumes "\<forall>e\<in>set es. nth_variant event_types (ev_type e) \<noteq> Some EvReady"
  shows "fst (during_subscription (Delivered es) (event_loop (ss @ [s]))) = Stale"
proof -
  have "fst (fold handle_event es p) = fst p" for p
    using assms by (induction es arbitrary: p) (auto simp: handle_event_def case_prod_unfold split: option.split EventType.split)
  then show ?thesis by (simp add: during_subscription_def event_loop_def event_round_def)
qed

end
