(* ===== verification/FlagStore.thy ===== *)
theory FlagStore
  imports FlagValidate
begin

text \<open>
  The configuration store in Postgres: the operations of \<open>store/mod.rs\<close> over the tables of
  \<open>migrations/*.sql\<close>. A table is the list of its rows in the order one scan returns them (a
  \<open>SELECT\<close> without \<open>ORDER BY\<close> promises none). An operation that writes is one transaction:
  with \<open>Err\<close> nothing is written. The database is reachable and \<open>gen_random_uuid\<close> is fresh, so
  ids are counted. \<open>bump n\<close> is the trigger \<open>ff_bump_version\<close> fired \<open>n\<close> times: once per
  statement and table, twice for an upsert (insert and update), and once for each table a delete
  cascades to. A \<open>jsonb\<close> column gives back the value written.
\<close>

section \<open>Tables\<close>

type_synonym uuid = nat
type_synonym i32 = "32 word"

record FlagRow =
  fr_id :: uuid
  fr_key :: string
  fr_value_type :: string
  fr_enabled :: bool
  fr_default_variant_key :: string
  fr_archived :: bool

record VariantRow =
  vr_flag_id :: uuid
  vr_key :: string
  vr_value :: json

record RuleRow =
  rr_id :: uuid
  rr_flag_id :: uuid
  rr_rank :: i32
  rr_segment_key :: "string option"
  rr_variant_key :: "string option"
  rr_bucket_salt :: string

record DistributionRow =
  dr_rule_id :: uuid
  dr_variant_key :: string
  dr_weight :: i32

record RuleConstraintRow =
  rc_rule_id :: uuid
  rc_group_index :: i32
  rc_attribute :: string
  rc_operator :: string
  rc_values :: json

record SegmentRow =
  sr_id :: uuid
  sr_key :: string
  sr_name :: string

record SegmentConstraintRow =
  sc_segment_id :: uuid
  sc_attribute :: string
  sc_operator :: string
  sc_values :: json

text \<open>A row of \<open>flag_changes\<close>; rows are appended, which is the order of \<open>created_at\<close>.\<close>

record FlagChange =
  fc_version :: int
  fc_actor :: string
  fc_action :: string
  fc_target_kind :: string
  fc_target_key :: string
  fc_detail :: json

record Db =
  db_version :: int
  db_next_id :: uuid
  db_flags :: "FlagRow list"
  db_variants :: "VariantRow list"
  db_rules :: "RuleRow list"
  db_distributions :: "DistributionRow list"
  db_constraints :: "RuleConstraintRow list"
  db_segments :: "SegmentRow list"
  db_segment_constraints :: "SegmentConstraintRow list"
  db_changes :: "FlagChange list"

type_synonym 'a tx = "(AppError, 'a \<times> Db) result"

definition and_tx :: "'a tx \<Rightarrow> ('a \<Rightarrow> Db \<Rightarrow> 'b tx) \<Rightarrow> 'b tx" where
  "and_tx r f = (case r of Err e \<Rightarrow> Err e | Ok (a, db) \<Rightarrow> f a db)"

text \<open>A loop of statements that stops at the first error.\<close>

fun each_tx :: "('a \<Rightarrow> Db \<Rightarrow> unit tx) \<Rightarrow> 'a list \<Rightarrow> Db \<Rightarrow> unit tx" where
  "each_tx f [] db = Ok ((), db)"
| "each_tx f (x # xs) db = and_tx (f x db) (\<lambda>_ db. each_tx f xs db)"

definition bump :: "nat \<Rightarrow> Db \<Rightarrow> Db" where
  "bump n db = db\<lparr>db_version := db_version db + int n\<rparr>"

section \<open>Statements\<close>

definition insert_flag ::
  "string \<Rightarrow> ValueType \<Rightarrow> bool \<Rightarrow> string \<Rightarrow> Db \<Rightarrow> uuid tx" where
  "insert_flag key value_type enabled default_variant_key db =
     (if list_ex (\<lambda>r. fr_key r = key) (db_flags db)
      then Err (Invalid (''flag '' @ quoted key @ '' already exists''))
      else Ok (db_next_id db, bump 1 (db\<lparr>db_next_id := Suc (db_next_id db),
        db_flags := db_flags db @ [\<lparr>fr_id = db_next_id db, fr_key = key,
          fr_value_type = value_type_to_str value_type, fr_enabled = enabled,
          fr_default_variant_key = default_variant_key, fr_archived = False\<rparr>]\<rparr>)))"

definition upsert_flag_row :: "Flag \<Rightarrow> Db \<Rightarrow> uuid \<times> Db" where
  "upsert_flag_row flag db =
     (case List.find (\<lambda>r. fr_key r = f_key flag) (db_flags db) of
        Some row \<Rightarrow>
          (fr_id row, bump 2 (db\<lparr>db_flags := map (\<lambda>r. if fr_key r = f_key flag
             then r\<lparr>fr_value_type := value_type_to_str (f_value_type flag), fr_enabled := f_enabled flag,
                    fr_default_variant_key := f_default_variant_key flag,
                    fr_archived := f_archived flag\<rparr> else r) (db_flags db)\<rparr>))
      | None \<Rightarrow>
          (db_next_id db, bump 2 (db\<lparr>db_next_id := Suc (db_next_id db),
             db_flags := db_flags db @ [\<lparr>fr_id = db_next_id db, fr_key = f_key flag,
               fr_value_type = value_type_to_str (f_value_type flag), fr_enabled = f_enabled flag,
               fr_default_variant_key = f_default_variant_key flag,
               fr_archived = f_archived flag\<rparr>]\<rparr>)))"

definition variant_at :: "uuid \<Rightarrow> string \<Rightarrow> VariantRow \<Rightarrow> bool" where
  "variant_at flag_id key r = (vr_flag_id r = flag_id \<and> vr_key r = key)"

definition insert_variant :: "uuid \<Rightarrow> Variant \<Rightarrow> Db \<Rightarrow> unit tx" where
  "insert_variant flag_id v db =
     (if list_ex (variant_at flag_id (v_key v)) (db_variants db)
      then Err (Sqlx ''variants_flag_id_key_key'')
      else Ok ((), bump 1 (db\<lparr>db_variants := db_variants db
        @ [\<lparr>vr_flag_id = flag_id, vr_key = v_key v, vr_value = v_value v\<rparr>]\<rparr>)))"

definition upsert_variant_row :: "uuid \<Rightarrow> Variant \<Rightarrow> Db \<Rightarrow> Db" where
  "upsert_variant_row flag_id v db =
     bump 2 (db\<lparr>db_variants :=
       (if list_ex (variant_at flag_id (v_key v)) (db_variants db)
        then map (\<lambda>r. if variant_at flag_id (v_key v) r then r\<lparr>vr_value := v_value v\<rparr> else r)
               (db_variants db)
        else db_variants db @ [\<lparr>vr_flag_id = flag_id, vr_key = v_key v, vr_value = v_value v\<rparr>])\<rparr>)"

text \<open>\<open>ON DELETE CASCADE\<close> below rules, flags and segments.\<close>

definition delete_rule_rows :: "(RuleRow \<Rightarrow> bool) \<Rightarrow> Db \<Rightarrow> Db" where
  "delete_rule_rows p db =
     (let gone = map rr_id (filter p (db_rules db))
      in bump (if gone = [] then 0 else 2) (db\<lparr>
           db_rules := filter (\<lambda>r. \<not> p r) (db_rules db),
           db_distributions := filter (\<lambda>d. \<not> List.member gone (dr_rule_id d)) (db_distributions db),
           db_constraints := filter (\<lambda>c. \<not> List.member gone (rc_rule_id c)) (db_constraints db)\<rparr>))"

definition delete_flag_rows :: "string \<Rightarrow> Db \<Rightarrow> nat \<times> Db" where
  "delete_flag_rows key db =
     (let gone = map fr_id (filter (\<lambda>r. fr_key r = key) (db_flags db))
      in (length gone, bump (1 + (if gone = [] then 0 else 2))
           (delete_rule_rows (\<lambda>r. List.member gone (rr_flag_id r))
             (db\<lparr>db_flags := filter (\<lambda>r. fr_key r \<noteq> key) (db_flags db),
                db_variants := filter (\<lambda>v. \<not> List.member gone (vr_flag_id v)) (db_variants db)\<rparr>))))"

definition delete_segment_rows :: "string \<Rightarrow> Db \<Rightarrow> nat \<times> Db" where
  "delete_segment_rows key db =
     (let gone = map sr_id (filter (\<lambda>r. sr_key r = key) (db_segments db))
      in (length gone, bump (1 + (if gone = [] then 0 else 1))
           (db\<lparr>db_segments := filter (\<lambda>r. sr_key r \<noteq> key) (db_segments db),
              db_segment_constraints := filter (\<lambda>c. \<not> List.member gone (sc_segment_id c))
                (db_segment_constraints db)\<rparr>)))"

definition insert_rule_row :: "uuid \<Rightarrow> nat \<Rightarrow> Rule \<Rightarrow> Db \<Rightarrow> uuid tx" where
  "insert_rule_row flag_id rank rule db =
     (if list_ex (\<lambda>r. rr_flag_id r = flag_id \<and> rr_rank r = of_nat rank) (db_rules db)
      then Err (Sqlx ''flag_rules_flag_id_rank_key'')
      else Ok (db_next_id db, bump 1 (db\<lparr>db_next_id := Suc (db_next_id db),
        db_rules := db_rules db @ [\<lparr>rr_id = db_next_id db, rr_flag_id = flag_id, rr_rank = of_nat rank,
          rr_segment_key = r_segment_key rule, rr_variant_key = r_variant_key rule,
          rr_bucket_salt = r_bucket_salt rule\<rparr>]\<rparr>)))"

text \<open>The weight is cast to \<open>i32\<close> and checked by the table.\<close>

definition insert_distribution :: "uuid \<Rightarrow> Distribution \<Rightarrow> Db \<Rightarrow> unit tx" where
  "insert_distribution rule_id d db =
     (if sint (d_weight d) < 0 \<or> 100 < sint (d_weight d)
      then Err (Sqlx ''rule_distributions_weight_check'')
      else Ok ((), bump 1 (db\<lparr>db_distributions := db_distributions db
        @ [\<lparr>dr_rule_id = rule_id, dr_variant_key = d_variant_key d, dr_weight = d_weight d\<rparr>]\<rparr>)))"

definition insert_rule_constraint :: "uuid \<Rightarrow> nat \<Rightarrow> Constraint \<Rightarrow> Db \<Rightarrow> unit tx" where
  "insert_rule_constraint rule_id group_index c db =
     Ok ((), bump 1 (db\<lparr>db_constraints := db_constraints db
       @ [\<lparr>rc_rule_id = rule_id, rc_group_index = of_nat group_index, rc_attribute = c_attribute c,
           rc_operator = operator_to_str (c_operator c), rc_values = JArray (c_values c)\<rparr>]\<rparr>))"

definition upsert_segment_row :: "Segment \<Rightarrow> Db \<Rightarrow> uuid \<times> Db" where
  "upsert_segment_row seg db =
     (case List.find (\<lambda>r. sr_key r = s_key seg) (db_segments db) of
        Some row \<Rightarrow>
          (sr_id row, bump 2 (db\<lparr>db_segments := map (\<lambda>r. if sr_key r = s_key seg
             then r\<lparr>sr_name := s_name seg\<rparr> else r) (db_segments db)\<rparr>))
      | None \<Rightarrow>
          (db_next_id db, bump 2 (db\<lparr>db_next_id := Suc (db_next_id db),
             db_segments := db_segments db
               @ [\<lparr>sr_id = db_next_id db, sr_key = s_key seg, sr_name = s_name seg\<rparr>]\<rparr>)))"

definition insert_segment_constraint :: "uuid \<Rightarrow> Constraint \<Rightarrow> Db \<Rightarrow> unit tx" where
  "insert_segment_constraint segment_id c db =
     Ok ((), bump 1 (db\<lparr>db_segment_constraints := db_segment_constraints db
       @ [\<lparr>sc_segment_id = segment_id, sc_attribute = c_attribute c,
           sc_operator = operator_to_str (c_operator c), sc_values = JArray (c_values c)\<rparr>]\<rparr>))"

section \<open>Loading\<close>

text \<open>\<open>get_mut\<close> on the map under construction.\<close>

definition modify :: "uuid \<Rightarrow> ('a \<Rightarrow> 'a) \<Rightarrow> (uuid \<times> 'a) list \<Rightarrow> (uuid \<times> 'a) list" where
  "modify k f m = map (\<lambda>(j, x). (j, if j = k then f x else x)) m"

text \<open>\<open>entry(k).or_default().push(x)\<close>, and the same in a \<open>BTreeMap<i32, _>\<close>.\<close>

definition push_entry :: "uuid \<Rightarrow> 'a \<Rightarrow> (uuid \<times> 'a list) list \<Rightarrow> (uuid \<times> 'a list) list" where
  "push_entry k x m =
     AList.update k ((case map_of m k of None \<Rightarrow> [] | Some xs \<Rightarrow> xs) @ [x]) m"

fun btree_push :: "i32 \<Rightarrow> 'a \<Rightarrow> (i32 \<times> 'a list) list \<Rightarrow> (i32 \<times> 'a list) list" where
  "btree_push k x [] = [(k, [x])]"
| "btree_push k x ((j, xs) # m) =
     (if sint k < sint j then (k, [x]) # (j, xs) # m
      else if k = j then (j, xs @ [x]) # m
      else (j, xs) # btree_push k x m)"

definition push_group ::
  "uuid \<Rightarrow> i32 \<Rightarrow> 'a \<Rightarrow> (uuid \<times> (i32 \<times> 'a list) list) list \<Rightarrow> (uuid \<times> (i32 \<times> 'a list) list) list" where
  "push_group k g x m =
     AList.update k (btree_push g x (case map_of m k of None \<Rightarrow> [] | Some t \<Rightarrow> t)) m"

definition flag_of_row :: "FlagRow \<Rightarrow> (AppError, uuid \<times> Flag) result" where
  "flag_of_row row =
     (case value_type_from_str (fr_value_type row) of
        Err e \<Rightarrow> Err e
      | Ok t \<Rightarrow> Ok (fr_id row, \<lparr>f_key = fr_key row, f_value_type = t, f_enabled = fr_enabled row,
                  f_default_variant_key = fr_default_variant_key row, f_archived = fr_archived row,
                  f_variants = [], f_rules = []\<rparr>))"

definition constraint_of_row :: "string \<Rightarrow> string \<Rightarrow> json \<Rightarrow> (AppError, Constraint) result" where
  "constraint_of_row attribute operator vals =
     (case operator_from_str operator of
        Err e \<Rightarrow> Err e
      | Ok p \<Rightarrow> Ok \<lparr>c_attribute = attribute, c_operator = p, c_values = json_array vals\<rparr>)"

definition push_variant :: "(uuid \<times> Flag) list \<Rightarrow> VariantRow \<Rightarrow> (uuid \<times> Flag) list" where
  "push_variant flags row =
     modify (vr_flag_id row)
       (\<lambda>f. f\<lparr>f_variants := f_variants f @ [\<lparr>v_key = vr_key row, v_value = vr_value row\<rparr>]\<rparr>) flags"

definition load_distributions :: "DistributionRow list \<Rightarrow> (uuid \<times> Distribution list) list" where
  "load_distributions rows =
     foldl (\<lambda>m r. push_entry (dr_rule_id r)
              \<lparr>d_variant_key = dr_variant_key r, d_weight = dr_weight r\<rparr> m) [] rows"

definition rule_constraint_of_row :: "RuleConstraintRow \<Rightarrow> (AppError, uuid \<times> i32 \<times> Constraint) result" where
  "rule_constraint_of_row r =
     (case constraint_of_row (rc_attribute r) (rc_operator r) (rc_values r) of
        Err e \<Rightarrow> Err e | Ok c \<Rightarrow> Ok (rc_rule_id r, rc_group_index r, c))"

definition load_groups ::
  "RuleConstraintRow list \<Rightarrow> (AppError, (uuid \<times> (i32 \<times> Constraint list) list) list) result" where
  "load_groups rows =
     (case traverse rule_constraint_of_row rows of
        Err e \<Rightarrow> Err e
      | Ok cs \<Rightarrow> Ok (foldl (\<lambda>m (k, g, c). push_group k g c m) [] cs))"

definition rule_of_row ::
  "(uuid \<times> Distribution list) list \<Rightarrow> (uuid \<times> (i32 \<times> Constraint list) list) list \<Rightarrow> RuleRow \<Rightarrow> Rule" where
  "rule_of_row distributions groups row =
     \<lparr>r_rank = rr_rank row, r_segment_key = rr_segment_key row, r_variant_key = rr_variant_key row,
      r_distributions = (case map_of distributions (rr_id row) of None \<Rightarrow> [] | Some ds \<Rightarrow> ds),
      r_constraint_groups = map (\<lambda>(g, cs). \<lparr>g_constraints = cs\<rparr>)
        (case map_of groups (rr_id row) of None \<Rightarrow> [] | Some t \<Rightarrow> t),
      r_bucket_salt = rr_bucket_salt row\<rparr>"

definition push_rule ::
  "(uuid \<times> Distribution list) list \<Rightarrow> (uuid \<times> (i32 \<times> Constraint list) list) list
     \<Rightarrow> (uuid \<times> Flag) list \<Rightarrow> RuleRow \<Rightarrow> (uuid \<times> Flag) list" where
  "push_rule distributions groups flags row =
     modify (rr_flag_id row)
       (\<lambda>f. f\<lparr>f_rules := f_rules f @ [rule_of_row distributions groups row]\<rparr>) flags"

definition segment_of_row :: "SegmentRow \<Rightarrow> uuid \<times> Segment" where
  "segment_of_row row = (sr_id row, \<lparr>s_key = sr_key row, s_name = sr_name row, s_constraints = []\<rparr>)"

definition segment_constraint_of_row :: "SegmentConstraintRow \<Rightarrow> (AppError, uuid \<times> Constraint) result" where
  "segment_constraint_of_row r =
     (case constraint_of_row (sc_attribute r) (sc_operator r) (sc_values r) of
        Err e \<Rightarrow> Err e | Ok c \<Rightarrow> Ok (sc_segment_id r, c))"

definition push_constraint :: "(uuid \<times> Segment) list \<Rightarrow> uuid \<times> Constraint \<Rightarrow> (uuid \<times> Segment) list" where
  "push_constraint segs kc =
     modify (fst kc) (\<lambda>s. s\<lparr>s_constraints := s_constraints s @ [snd kc]\<rparr>) segs"

definition load_snapshot :: "Db \<Rightarrow> (AppError, Snapshot) result" where
  "load_snapshot db =
     (case traverse flag_of_row (db_flags db) of
        Err e \<Rightarrow> Err e
      | Ok flags0 \<Rightarrow>
          (let flags1 = foldl push_variant flags0 (db_variants db);
               distributions = load_distributions (db_distributions db)
           in (case load_groups (db_constraints db) of
                 Err e \<Rightarrow> Err e
               | Ok groups \<Rightarrow>
                   (let flags2 = foldl (push_rule distributions groups) flags1
                          (sort_key (\<lambda>r. sint (rr_rank r)) (db_rules db));
                        segs0 = map segment_of_row (db_segments db)
                    in (case traverse segment_constraint_of_row (db_segment_constraints db) of
                          Err e \<Rightarrow> Err e
                        | Ok kcs \<Rightarrow>
                            Ok \<lparr>sn_version = db_version db,
                                sn_flags = map (\<lambda>(i, f). (f_key f, f)) flags2,
                                sn_segments = map (\<lambda>(i, s). (s_key s, s)) (foldl push_constraint segs0 kcs)\<rparr>)))))"

section \<open>Audit log\<close>

definition record_change ::
  "string \<Rightarrow> string \<Rightarrow> string \<Rightarrow> string \<Rightarrow> json \<Rightarrow> Db \<Rightarrow> Db" where
  "record_change actor action target_kind target_key detail db =
     db\<lparr>db_changes := db_changes db @ [\<lparr>fc_version = db_version db, fc_actor = actor,
        fc_action = action, fc_target_kind = target_kind, fc_target_key = target_key,
        fc_detail = detail\<rparr>]\<rparr>"

definition MAX_CHANGES :: int where
  "MAX_CHANGES = 500"

definition list_changes :: "string \<Rightarrow> string \<Rightarrow> int \<Rightarrow> Db \<Rightarrow> FlagChange list" where
  "list_changes target_kind target_key limit db =
     (let limit' = (if limit \<le> 0 then MAX_CHANGES else min limit MAX_CHANGES)
      in take (nat limit') (filter (\<lambda>c. (target_kind = [] \<or> fc_target_kind c = target_kind)
             \<and> (target_key = [] \<or> fc_target_key c = target_key)) (rev (db_changes db))))"

section \<open>Operations\<close>

definition flag_id :: "string \<Rightarrow> Db \<Rightarrow> (AppError, uuid) result" where
  "flag_id key db =
     (case List.find (\<lambda>r. fr_key r = key) (db_flags db) of
        Some r \<Rightarrow> Ok (fr_id r)
      | None \<Rightarrow> Err (NotFound (''flag '' @ quoted key)))"

definition variant_keys :: "uuid \<Rightarrow> Db \<Rightarrow> string list" where
  "variant_keys fid db = map vr_key (filter (\<lambda>v. vr_flag_id v = fid) (db_variants db))"

definition create_flag ::
  "string \<Rightarrow> string \<Rightarrow> ValueType \<Rightarrow> bool \<Rightarrow> string \<Rightarrow> Variant list \<Rightarrow> Db \<Rightarrow> unit tx" where
  "create_flag actor key value_type enabled default_variant_key variants db =
     (if list_all (\<lambda>v. v_key v \<noteq> default_variant_key) variants
      then Err (Invalid (''default variant '' @ quoted default_variant_key
                  @ '' is not among the provided variants''))
      else (case check_all (check_variant_type value_type) variants of
              Err e \<Rightarrow> Err e
            | Ok _ \<Rightarrow>
                and_tx (insert_flag key value_type enabled default_variant_key db) (\<lambda>fid db.
                and_tx (each_tx (insert_variant fid) variants db) (\<lambda>_ db.
                Ok ((), record_change actor ''create_flag'' ''flag'' key
                  (JObject [(''default_variant_key'', JString default_variant_key),
                            (''enabled'', JBool enabled),
                            (''value_type'', JString (value_type_to_str value_type))]) db)))))"

definition update_flag :: "string \<Rightarrow> string \<Rightarrow> bool \<Rightarrow> string \<Rightarrow> Db \<Rightarrow> unit tx" where
  "update_flag actor key enabled default_variant_key db =
     (case flag_id key db of
        Err e \<Rightarrow> Err e
      | Ok fid \<Rightarrow>
          if \<not> List.member (variant_keys fid db) default_variant_key
          then Err (Invalid (''default variant '' @ quoted default_variant_key
                      @ '' is not among flag '' @ quoted key @ '''s variants''))
          else Ok ((), record_change actor ''update_flag'' ''flag'' key
                 (JObject [(''default_variant_key'', JString default_variant_key),
                           (''enabled'', JBool enabled)])
                 (bump 1 (db\<lparr>db_flags := map (\<lambda>r. if fr_key r = key
                    then r\<lparr>fr_enabled := enabled, fr_default_variant_key := default_variant_key\<rparr>
                    else r) (db_flags db)\<rparr>))))"

definition archive_flag :: "string \<Rightarrow> string \<Rightarrow> bool \<Rightarrow> Db \<Rightarrow> unit tx" where
  "archive_flag actor key archived db =
     (if \<not> list_ex (\<lambda>r. fr_key r = key) (db_flags db)
      then Err (NotFound (''flag '' @ quoted key))
      else Ok ((), record_change actor (if archived then ''archive_flag'' else ''unarchive_flag'')
             ''flag'' key (JObject [(''archived'', JBool archived)])
             (bump 1 (db\<lparr>db_flags := map (\<lambda>r. if fr_key r = key then r\<lparr>fr_archived := archived\<rparr> else r)
                (db_flags db)\<rparr>))))"

definition delete_flag :: "string \<Rightarrow> string \<Rightarrow> Db \<Rightarrow> unit tx" where
  "delete_flag actor key db =
     (let (affected, db1) = delete_flag_rows key db
      in if affected = 0 then Err (NotFound (''flag '' @ quoted key))
         else Ok ((), record_change actor ''delete_flag'' ''flag'' key JNull db1))"

definition upsert_variant :: "string \<Rightarrow> string \<Rightarrow> Variant \<Rightarrow> Db \<Rightarrow> unit tx" where
  "upsert_variant actor flag_key variant db =
     (case List.find (\<lambda>r. fr_key r = flag_key) (db_flags db) of
        None \<Rightarrow> Err (NotFound (''flag '' @ quoted flag_key))
      | Some row \<Rightarrow>
          (case value_type_from_str (fr_value_type row) of
             Err e \<Rightarrow> Err e
           | Ok t \<Rightarrow>
               (case check_variant_type t variant of
                  Err e \<Rightarrow> Err e
                | Ok _ \<Rightarrow> Ok ((), record_change actor ''upsert_variant'' ''flag'' flag_key
                    (JObject [(''value'', v_value variant), (''variant_key'', JString (v_key variant))])
                    (upsert_variant_row (fr_id row) variant db)))))"

definition delete_variant :: "string \<Rightarrow> string \<Rightarrow> string \<Rightarrow> Db \<Rightarrow> unit tx" where
  "delete_variant actor flag_key variant_key db =
     (case flag_id flag_key db of
        Err e \<Rightarrow> Err e
      | Ok fid \<Rightarrow>
          Ok ((), record_change actor ''delete_variant'' ''flag'' flag_key
            (JObject [(''variant_key'', JString variant_key)])
            (bump 1 (db\<lparr>db_variants := filter (\<lambda>v. \<not> variant_at fid variant_key v) (db_variants db)\<rparr>))))"

definition json_usize :: "nat \<Rightarrow> json" where
  "json_usize n = JNumber (PosInt (of_nat n))"

definition upsert_segment_tx :: "Segment \<Rightarrow> Db \<Rightarrow> unit tx" where
  "upsert_segment_tx seg db =
     (let (sid, db1) = upsert_segment_row seg db;
          db2 = bump 1 (db1\<lparr>db_segment_constraints :=
                  filter (\<lambda>c. sc_segment_id c \<noteq> sid) (db_segment_constraints db1)\<rparr>)
      in each_tx (insert_segment_constraint sid) (s_constraints seg) db2)"

definition upsert_segment :: "string \<Rightarrow> Segment \<Rightarrow> Db \<Rightarrow> unit tx" where
  "upsert_segment actor seg db =
     and_tx (upsert_segment_tx seg db) (\<lambda>_ db.
     Ok ((), record_change actor ''upsert_segment'' ''segment'' (s_key seg)
       (JObject [(''constraints'', json_usize (length (s_constraints seg))),
                 (''name'', JString (s_name seg))]) db))"

definition delete_segment :: "string \<Rightarrow> string \<Rightarrow> Db \<Rightarrow> unit tx" where
  "delete_segment actor key db =
     (let (affected, db1) = delete_segment_rows key db
      in if affected = 0 then Err (NotFound (''segment '' @ quoted key))
         else Ok ((), record_change actor ''delete_segment'' ''segment'' key JNull db1))"

definition insert_rule_tx :: "uuid \<Rightarrow> nat \<times> Rule \<Rightarrow> Db \<Rightarrow> unit tx" where
  "insert_rule_tx fid ranked db =
     (let (rank, rule) = ranked
      in and_tx (insert_rule_row fid rank rule db) (\<lambda>rid db.
         and_tx (each_tx (insert_distribution rid) (r_distributions rule) db) (\<lambda>_ db.
         each_tx (\<lambda>(i, g). each_tx (insert_rule_constraint rid i) (g_constraints g))
           (List.enumerate 0 (r_constraint_groups rule)) db)))"

definition replace_rules_tx :: "uuid \<Rightarrow> Rule list \<Rightarrow> Db \<Rightarrow> unit tx" where
  "replace_rules_tx fid rules db =
     each_tx (insert_rule_tx fid) (List.enumerate 0 rules)
       (bump 1 (delete_rule_rows (\<lambda>r. rr_flag_id r = fid) db))"

definition set_flag_rules :: "string \<Rightarrow> string \<Rightarrow> Rule list \<Rightarrow> Db \<Rightarrow> unit tx" where
  "set_flag_rules actor flag_key rules db =
     (case flag_id flag_key db of
        Err e \<Rightarrow> Err e
      | Ok fid \<Rightarrow>
          (case validate_rules flag_key rules (variant_keys fid db) of
             Err e \<Rightarrow> Err e
           | Ok _ \<Rightarrow>
               and_tx (replace_rules_tx fid rules db) (\<lambda>_ db.
               Ok ((), record_change actor ''set_flag_rules'' ''flag'' flag_key
                 (JObject [(''rule_count'', json_usize (length rules))]) db))))"

definition upsert_flag_tx :: "Flag \<Rightarrow> Db \<Rightarrow> unit tx" where
  "upsert_flag_tx flag db =
     (let (fid, db1) = upsert_flag_row flag db;
          db2 = bump 1 (db1\<lparr>db_variants := filter (\<lambda>v. \<not> (vr_flag_id v = fid
                  \<and> \<not> List.member (map v_key (f_variants flag)) (vr_key v))) (db_variants db1)\<rparr>);
          db3 = foldl (\<lambda>db v. upsert_variant_row fid v db) db2 (f_variants flag)
      in replace_rules_tx fid (f_rules flag) db3)"

section \<open>Applying a configuration\<close>

record ApplyOutcome =
  ao_changes :: "ConfigChange list"
  ao_from_version :: int
  ao_to_version :: int
  ao_applied :: bool

text \<open>The first pass of \<open>apply_config\<close>; the unwrapped searches find the item the change was made for.\<close>

definition upsert_change :: "Flag list \<Rightarrow> Segment list \<Rightarrow> ConfigChange \<Rightarrow> Db \<Rightarrow> unit tx" where
  "upsert_change flags segments c db =
     (if cc_op c = Delete then Ok ((), db)
      else if cc_target_kind c = ''segment''
      then upsert_segment_tx (the (List.find (\<lambda>s. s_key s = cc_target_key c) segments)) db
      else if cc_target_kind c = ''flag''
      then upsert_flag_tx (the (List.find (\<lambda>f. f_key f = cc_target_key c) flags)) db
      else Ok ((), db))"

definition prune_flag :: "Db \<Rightarrow> ConfigChange \<Rightarrow> Db" where
  "prune_flag db c =
     (if cc_target_kind c = ''flag'' \<and> cc_op c = Delete
      then snd (delete_flag_rows (cc_target_key c) db) else db)"

definition prune_segment :: "Db \<Rightarrow> ConfigChange \<Rightarrow> Db" where
  "prune_segment db c =
     (if cc_target_kind c = ''segment'' \<and> cc_op c = Delete
      then snd (delete_segment_rows (cc_target_key c) db) else db)"

definition audit_change :: "string \<Rightarrow> Db \<Rightarrow> ConfigChange \<Rightarrow> Db" where
  "audit_change actor db c =
     record_change actor (audit_action (cc_target_kind c) (cc_op c)) (cc_target_kind c)
       (cc_target_key c) (cc_detail c) db"

text \<open>
  \<open>db\<close> is the database when the plan is computed and \<open>later\<close> when the transaction holds the lock:
  another writer may have come in between.
\<close>

definition apply_config ::
  "string \<Rightarrow> Flag list \<Rightarrow> Segment list \<Rightarrow> bool \<Rightarrow> int \<Rightarrow> Db \<Rightarrow> Db \<Rightarrow> ApplyOutcome tx" where
  "apply_config actor flags segments dry_run expected_version db later =
     (case validate_desired flags segments of
        Err e \<Rightarrow> Err e
      | Ok _ \<Rightarrow>
          (case load_snapshot db of
             Err e \<Rightarrow> Err e
           | Ok cur \<Rightarrow>
               (let changes = diff_config cur flags segments
                in if dry_run \<or> changes = []
                   then Ok (\<lparr>ao_changes = changes, ao_from_version = sn_version cur,
                             ao_to_version = sn_version cur, ao_applied = (\<not> dry_run)\<rparr>, later)
                   else if db_version later \<noteq> sn_version cur
                           \<or> (expected_version \<noteq> 0 \<and> db_version later \<noteq> expected_version)
                   then Err (Aborted ''configuration changed since the plan was computed; re-run plan'')
                   else and_tx (each_tx (upsert_change flags segments) changes later) (\<lambda>_ db1.
                        let db2 = foldl prune_segment (foldl prune_flag db1 changes) changes;
                            db3 = foldl (audit_change actor) db2 changes
                        in Ok (\<lparr>ao_changes = changes, ao_from_version = sn_version cur,
                                ao_to_version = db_version db3, ao_applied = True\<rparr>, db3)))))"

end
