(* ===== verification/FlagView.thy ===== *)
theory FlagView
  imports FlagStore
begin

text \<open>
  The invariant of the store's tables (the constraints of \<open>migrations/*.sql\<close> and what the
  writers keep beyond them) and the configuration the tables stand for: \<open>flag_at\<close> and
  \<open>segment_at\<close> read one flag or segment straight off the rows, and \<open>load_snapshot\<close> is shown to
  return exactly those.
\<close>

section \<open>The invariant\<close>

definition keys_ok :: "Db \<Rightarrow> bool" where
  "keys_ok db \<longleftrightarrow>
     distinct (map fr_key (db_flags db)) \<and> distinct (map fr_id (db_flags db))
     \<and> distinct (map sr_key (db_segments db)) \<and> distinct (map sr_id (db_segments db))
     \<and> distinct (map rr_id (db_rules db))
     \<and> distinct (map (\<lambda>v. (vr_flag_id v, vr_key v)) (db_variants db))
     \<and> distinct (map (\<lambda>r. (rr_flag_id r, rr_rank r)) (db_rules db))"

definition ids_ok :: "Db \<Rightarrow> bool" where
  "ids_ok db \<longleftrightarrow>
     (\<forall>r\<in>set (db_flags db). fr_id r < db_next_id db)
     \<and> (\<forall>r\<in>set (db_segments db). sr_id r < db_next_id db)
     \<and> (\<forall>r\<in>set (db_rules db). rr_id r < db_next_id db)"

definition refs_ok :: "Db \<Rightarrow> bool" where
  "refs_ok db \<longleftrightarrow>
     (\<forall>v\<in>set (db_variants db). vr_flag_id v \<in> fr_id ` set (db_flags db))
     \<and> (\<forall>r\<in>set (db_rules db). rr_flag_id r \<in> fr_id ` set (db_flags db))
     \<and> (\<forall>d\<in>set (db_distributions db). dr_rule_id d \<in> rr_id ` set (db_rules db))
     \<and> (\<forall>c\<in>set (db_constraints db). rc_rule_id c \<in> rr_id ` set (db_rules db))
     \<and> (\<forall>c\<in>set (db_segment_constraints db). sc_segment_id c \<in> sr_id ` set (db_segments db))"

definition readable :: "Db \<Rightarrow> bool" where
  "readable db \<longleftrightarrow>
     (\<forall>r\<in>set (db_flags db). fr_value_type r \<in> range value_type_to_str)
     \<and> (\<forall>r\<in>set (db_constraints db). rc_operator r \<in> range operator_to_str)
     \<and> (\<forall>r\<in>set (db_segment_constraints db). sc_operator r \<in> range operator_to_str)"

definition db_inv :: "Db \<Rightarrow> bool" where
  "db_inv db \<longleftrightarrow> keys_ok db \<and> ids_ok db \<and> refs_ok db \<and> readable db"

lemmas db_inv_defs = db_inv_def keys_ok_def ids_ok_def refs_ok_def readable_def

text \<open>The tables as \<open>migrations/*.sql\<close> leave them.\<close>

definition migrated :: Db where
  "migrated = \<lparr>db_version = 1, db_next_id = 0, db_flags = [], db_variants = [], db_rules = [],
     db_distributions = [], db_constraints = [], db_segments = [], db_segment_constraints = [],
     db_changes = []\<rparr>"

lemma db_inv_migrated [simp]: "db_inv migrated"
  by (simp add: db_inv_defs migrated_def)

section \<open>What the tables stand for\<close>

definition row_value_type :: "FlagRow \<Rightarrow> ValueType" where
  "row_value_type r = projr (value_type_from_str (fr_value_type r))"

definition view_variants :: "Db \<Rightarrow> uuid \<Rightarrow> Variant list" where
  "view_variants db i = map (\<lambda>v. \<lparr>v_key = vr_key v, v_value = vr_value v\<rparr>)
     (filter (\<lambda>v. vr_flag_id v = i) (db_variants db))"

definition view_distributions :: "Db \<Rightarrow> uuid \<Rightarrow> Distribution list" where
  "view_distributions db i = map (\<lambda>r. \<lparr>d_variant_key = dr_variant_key r, d_weight = dr_weight r\<rparr>)
     (filter (\<lambda>r. dr_rule_id r = i) (db_distributions db))"

definition row_constraint :: "RuleConstraintRow \<Rightarrow> Constraint" where
  "row_constraint r = projr (constraint_of_row (rc_attribute r) (rc_operator r) (rc_values r))"

definition btree :: "(i32 \<times> 'a) list \<Rightarrow> (i32 \<times> 'a list) list" where
  "btree xs = foldl (\<lambda>t (g, c). btree_push g c t) [] xs"

definition view_groups :: "Db \<Rightarrow> uuid \<Rightarrow> ConstraintGroup list" where
  "view_groups db i = map (\<lambda>(g, cs). \<lparr>g_constraints = cs\<rparr>)
     (btree (map (\<lambda>r. (rc_group_index r, row_constraint r))
        (filter (\<lambda>r. rc_rule_id r = i) (db_constraints db))))"

definition view_rule :: "Db \<Rightarrow> RuleRow \<Rightarrow> Rule" where
  "view_rule db row =
     \<lparr>r_rank = rr_rank row, r_segment_key = rr_segment_key row, r_variant_key = rr_variant_key row,
      r_distributions = view_distributions db (rr_id row),
      r_constraint_groups = view_groups db (rr_id row), r_bucket_salt = rr_bucket_salt row\<rparr>"

definition view_rules :: "Db \<Rightarrow> uuid \<Rightarrow> Rule list" where
  "view_rules db i = map (view_rule db)
     (sort_key (\<lambda>r. sint (rr_rank r)) (filter (\<lambda>r. rr_flag_id r = i) (db_rules db)))"

definition view_flag :: "Db \<Rightarrow> FlagRow \<Rightarrow> Flag" where
  "view_flag db row =
     \<lparr>f_key = fr_key row, f_value_type = row_value_type row, f_enabled = fr_enabled row,
      f_default_variant_key = fr_default_variant_key row, f_archived = fr_archived row,
      f_variants = view_variants db (fr_id row), f_rules = view_rules db (fr_id row)\<rparr>"

definition row_segment_constraint :: "SegmentConstraintRow \<Rightarrow> Constraint" where
  "row_segment_constraint r =
     projr (constraint_of_row (sc_attribute r) (sc_operator r) (sc_values r))"

definition view_segment :: "Db \<Rightarrow> SegmentRow \<Rightarrow> Segment" where
  "view_segment db row =
     \<lparr>s_key = sr_key row, s_name = sr_name row,
      s_constraints = map row_segment_constraint
        (filter (\<lambda>r. sc_segment_id r = sr_id row) (db_segment_constraints db))\<rparr>"

definition flag_at :: "Db \<Rightarrow> string \<Rightarrow> Flag option" where
  "flag_at db k = map_option (view_flag db) (List.find (\<lambda>r. fr_key r = k) (db_flags db))"

definition segment_at :: "Db \<Rightarrow> string \<Rightarrow> Segment option" where
  "segment_at db k = map_option (view_segment db) (List.find (\<lambda>r. sr_key r = k) (db_segments db))"

section \<open>Loading computes the views\<close>

lemma map_of_keyed: "map_of (map (\<lambda>r. (key r, f r)) rs) k = map_option f (List.find (\<lambda>r. key r = k) rs)"
  by (induction rs) auto

lemma modify_keyed:
  "modify k f (map (\<lambda>r. (i r, v r)) rs) = map (\<lambda>r. (i r, if i r = k then f (v r) else v r)) rs"
  by (simp add: modify_def)

text \<open>Folding \<open>get_mut\<close> over rows applies to each entry the rows that name it, in row order.\<close>

lemma foldl_modify:
  "foldl (\<lambda>m x. modify (k x) (f x) m) (map (\<lambda>r. (i r, v r)) rs) xs =
     map (\<lambda>r. (i r, foldl (\<lambda>a x. f x a) (v r) (filter (\<lambda>x. k x = i r) xs))) rs"
proof (induction xs arbitrary: v)
  case Nil
  show ?case by simp
next
  case (Cons x xs)
  show ?case by (simp add: modify_keyed Cons.IH)
qed

lemma push_entry_fold:
  "(case map_of (foldl (\<lambda>m x. push_entry (k x) (f x) m) m xs) i of None \<Rightarrow> [] | Some ys \<Rightarrow> ys) =
     (case map_of m i of None \<Rightarrow> [] | Some ys \<Rightarrow> ys) @ map f (filter (\<lambda>x. k x = i) xs)"
  by (induction xs arbitrary: m) (auto simp: push_entry_def update_conv')

lemma push_group_fold:
  "(case map_of (foldl (\<lambda>m (k, g, c). push_group k g c m) m xs) i of None \<Rightarrow> [] | Some t \<Rightarrow> t) =
     foldl (\<lambda>t (k, g, c). btree_push g c t) (case map_of m i of None \<Rightarrow> [] | Some t \<Rightarrow> t)
       (filter (\<lambda>x. fst x = i) xs)"
  by (induction xs arbitrary: m) (auto simp: push_group_def update_conv')

lemma foldl_push_variants:
  "foldl (\<lambda>f v. f\<lparr>f_variants := f_variants f @ [g v]\<rparr>) f vs = f\<lparr>f_variants := f_variants f @ map g vs\<rparr>"
  by (induction vs arbitrary: f) simp_all

lemma foldl_push_rules:
  "foldl (\<lambda>f v. f\<lparr>f_rules := f_rules f @ [g v]\<rparr>) f vs = f\<lparr>f_rules := f_rules f @ map g vs\<rparr>"
  by (induction vs arbitrary: f) simp_all

lemma foldl_push_constraints:
  "foldl (\<lambda>s x. s\<lparr>s_constraints := s_constraints s @ [g x]\<rparr>) s xs
     = s\<lparr>s_constraints := s_constraints s @ map g xs\<rparr>"
  by (induction xs arbitrary: s) simp_all

lemma readable_constraint:
  assumes "p \<in> range operator_to_str"
  shows "constraint_of_row a p vs = Ok (projr (constraint_of_row a p vs))"
  using assms by (auto simp: constraint_of_row_def codec_simps)

lemma load_distributions_view:
  "(case map_of (load_distributions (db_distributions db)) i of None \<Rightarrow> [] | Some ds \<Rightarrow> ds)
     = view_distributions db i"
  unfolding load_distributions_def view_distributions_def
  using push_entry_fold [of dr_rule_id "\<lambda>r. \<lparr>d_variant_key = dr_variant_key r, d_weight = dr_weight r\<rparr>" "[]"]
  by simp

lemma load_groups_view:
  assumes "readable db"
  shows "\<exists>m. load_groups (db_constraints db) = Ok m
    \<and> (\<forall>i. map (\<lambda>(g, cs). \<lparr>g_constraints = cs\<rparr>) (case map_of m i of None \<Rightarrow> [] | Some t \<Rightarrow> t)
           = view_groups db i)"
proof -
  let ?cs = "map (\<lambda>r. (rc_rule_id r, rc_group_index r, row_constraint r)) (db_constraints db)"
  have "traverse rule_constraint_of_row (db_constraints db) = Ok ?cs"
  proof (rule traverse_Ok_map)
    fix r assume "r \<in> set (db_constraints db)"
    with assms have "rc_operator r \<in> range operator_to_str" by (simp add: readable_def)
    from readable_constraint [OF this]
    show "rule_constraint_of_row r = Ok (rc_rule_id r, rc_group_index r, row_constraint r)"
      by (simp add: rule_constraint_of_row_def row_constraint_def)
        (metis old.sum.simps(6))
  qed
  moreover have "(case map_of (foldl (\<lambda>m (k, g, c). push_group k g c m) [] ?cs) i of
      None \<Rightarrow> [] | Some t \<Rightarrow> t) = btree (map (\<lambda>r. (rc_group_index r, row_constraint r))
        (filter (\<lambda>r. rc_rule_id r = i) (db_constraints db)))" for i
    using push_group_fold [of "[]" ?cs i]
    by (simp add: btree_def filter_map o_def foldl_map case_prod_beta)
  ultimately show ?thesis by (simp add: load_groups_def view_groups_def)
qed

lemma load_flags_view:
  assumes "readable db"
  shows "traverse flag_of_row (db_flags db) = Ok (map (\<lambda>r. (fr_id r,
     \<lparr>f_key = fr_key r, f_value_type = row_value_type r, f_enabled = fr_enabled r,
      f_default_variant_key = fr_default_variant_key r, f_archived = fr_archived r,
      f_variants = [], f_rules = []\<rparr>)) (db_flags db))"
proof (rule traverse_Ok_map)
  fix r assume "r \<in> set (db_flags db)"
  with assms obtain t where "fr_value_type r = value_type_to_str t" by (auto simp: readable_def)
  then show "flag_of_row r = Ok (fr_id r, \<lparr>f_key = fr_key r, f_value_type = row_value_type r,
      f_enabled = fr_enabled r, f_default_variant_key = fr_default_variant_key r,
      f_archived = fr_archived r, f_variants = [], f_rules = []\<rparr>)"
    by (simp add: flag_of_row_def row_value_type_def codec_simps)
qed

lemma load_segment_constraints_view:
  assumes "readable db"
  shows "traverse segment_constraint_of_row (db_segment_constraints db)
    = Ok (map (\<lambda>r. (sc_segment_id r, row_segment_constraint r)) (db_segment_constraints db))"
proof (rule traverse_Ok_map)
  fix r assume "r \<in> set (db_segment_constraints db)"
  with assms obtain p where "sc_operator r = operator_to_str p" by (auto simp: readable_def)
  then show "segment_constraint_of_row r = Ok (sc_segment_id r, row_segment_constraint r)"
    by (simp add: segment_constraint_of_row_def row_segment_constraint_def constraint_of_row_def
        codec_simps)
qed

text \<open>A load succeeds on readable tables and returns the views of every row.\<close>

theorem load_snapshot_view:
  assumes "readable db"
  shows "load_snapshot db = Ok \<lparr>sn_version = db_version db,
     sn_flags = map (\<lambda>r. (fr_key r, view_flag db r)) (db_flags db),
     sn_segments = map (\<lambda>r. (sr_key r, view_segment db r)) (db_segments db)\<rparr>"
proof -
  obtain groups where groups: "load_groups (db_constraints db) = Ok groups"
    and views: "map (\<lambda>(g, cs). \<lparr>g_constraints = cs\<rparr>)
      (case map_of groups i of None \<Rightarrow> [] | Some t \<Rightarrow> t) = view_groups db i" for i
    using load_groups_view [OF assms] by blast
  have rule: "rule_of_row (load_distributions (db_distributions db)) groups = view_rule db"
    by (rule ext) (simp add: rule_of_row_def view_rule_def views load_distributions_view)
  have flags: "foldl (push_rule (load_distributions (db_distributions db)) groups)
      (foldl push_variant (map (\<lambda>r. (fr_id r,
        \<lparr>f_key = fr_key r, f_value_type = row_value_type r, f_enabled = fr_enabled r,
         f_default_variant_key = fr_default_variant_key r, f_archived = fr_archived r,
         f_variants = [], f_rules = []\<rparr>)) (db_flags db)) (db_variants db))
      (sort_key (\<lambda>r. sint (rr_rank r)) (db_rules db))
    = map (\<lambda>r. (fr_id r, view_flag db r)) (db_flags db)"
    by (simp add: push_rule_def [abs_def] push_variant_def [abs_def] foldl_modify rule
        foldl_push_variants foldl_push_rules view_flag_def view_variants_def view_rules_def
        filter_sort)
  have segs: "foldl push_constraint (map segment_of_row (db_segments db))
      (map (\<lambda>r. (sc_segment_id r, row_segment_constraint r)) (db_segment_constraints db))
    = map (\<lambda>r. (sr_id r, view_segment db r)) (db_segments db)"
    by (simp add: push_constraint_def [abs_def] segment_of_row_def [abs_def] foldl_modify
        foldl_push_constraints view_segment_def filter_map o_def)
  have "\<And>r. f_key (view_flag db r) = fr_key r" "\<And>r. s_key (view_segment db r) = sr_key r"
    by (simp_all add: view_flag_def view_segment_def)
  then show ?thesis
    by (simp add: load_snapshot_def load_flags_view [OF assms] groups flags segs
        load_segment_constraints_view [OF assms] o_def)
qed

lemma hget_loaded:
  assumes "readable db" and "load_snapshot db = Ok s"
  shows "hget (sn_flags s) k = flag_at db k" and "hget (sn_segments s) k = segment_at db k"
    and "sn_version s = db_version db"
    and "hkeys (sn_flags s) = map fr_key (db_flags db)"
    and "hkeys (sn_segments s) = map sr_key (db_segments db)"
  using assms(2) unfolding load_snapshot_view [OF assms(1)]
  by (auto simp: map_of_keyed flag_at_def segment_at_def)

lemma find_key_None: "List.find (\<lambda>r. key r = k) rs = None \<longleftrightarrow> k \<notin> key ` set rs"
  by (auto simp: find_None_iff)

lemma find_key_Some:
  "distinct (map key rs) \<Longrightarrow> List.find (\<lambda>r. key r = k) rs = Some r \<longleftrightarrow> r \<in> set rs \<and> key r = k"
  by (induction rs) auto

lemma flag_at_None: "flag_at db k = None \<longleftrightarrow> k \<notin> fr_key ` set (db_flags db)"
  by (auto simp: flag_at_def find_key_None)

lemma segment_at_None: "segment_at db k = None \<longleftrightarrow> k \<notin> sr_key ` set (db_segments db)"
  by (auto simp: segment_at_def find_key_None)

lemma flag_at_Some:
  "keys_ok db \<Longrightarrow> flag_at db k = Some f \<longleftrightarrow>
     (\<exists>r\<in>set (db_flags db). fr_key r = k \<and> f = view_flag db r)"
  by (auto simp: flag_at_def keys_ok_def find_key_Some)

lemma segment_at_Some:
  "keys_ok db \<Longrightarrow> segment_at db k = Some s \<longleftrightarrow>
     (\<exists>r\<in>set (db_segments db). sr_key r = k \<and> s = view_segment db r)"
  by (auto simp: segment_at_def keys_ok_def find_key_Some)

text \<open>What is loaded from consistent tables is a well-formed snapshot.\<close>

lemma loaded_wf: "db_inv db \<Longrightarrow> load_snapshot db = Ok s \<Longrightarrow> snapshot_wf s"
  by (auto simp: db_inv_def load_snapshot_view snapshot_wf_def keys_ok_def view_flag_def
      view_segment_def o_def)

end
