(* ===== verification/FlagWrites.thy ===== *)
theory FlagWrites
  imports FlagView
begin

text \<open>
  What the writers of the store do to the tables: every statement and every operation keeps the
  invariant, and the effect of each on the configuration \<open>flag_at\<close>/\<open>segment_at\<close> is that of one
  map update.
\<close>

section \<open>Transactions\<close>

lemma and_tx_simps [simp]: "and_tx (Err e) f = Err e" "and_tx (Ok (a, db)) f = f a db"
  by (simp_all add: and_tx_def)

lemma and_tx_Ok: "and_tx r f = Ok y \<longleftrightarrow> (\<exists>a db. r = Ok (a, db) \<and> f a db = Ok y)"
  by (auto simp: and_tx_def split: sum.splits)

lemma each_tx_append: "each_tx f (xs @ ys) db = and_tx (each_tx f xs db) (\<lambda>_. each_tx f ys)"
  by (induction xs arbitrary: db) (auto simp: and_tx_def split: sum.splits)

lemma each_tx_inv:
  assumes "\<And>x db db'. x \<in> set xs \<Longrightarrow> P db \<Longrightarrow> f x db = Ok ((), db') \<Longrightarrow> P db'"
    and "P db" and "each_tx f xs db = Ok ((), db')"
  shows "P db'"
  using assms
proof (induction xs arbitrary: db)
  case Nil
  then show ?case by simp
next
  case (Cons x xs)
  from Cons.prems(3) obtain db1 where step: "f x db = Ok ((), db1)" and rest: "each_tx f xs db1 = Ok ((), db')"
    by (auto simp: and_tx_Ok)
  show ?case
  proof (rule Cons.IH)
    show "P db1" using Cons.prems(1) [OF _ Cons.prems(2) step] by simp
    show "each_tx f xs db1 = Ok ((), db')" by (rule rest)
  qed (use Cons.prems(1) in auto)
qed

text \<open>A loop of statements whose check does not depend on the tables.\<close>

lemma each_tx_checked:
  assumes "\<And>x db. f x db = (if ok x then Ok ((), step x db) else Err e)"
  shows "each_tx f xs db = (if \<forall>x\<in>set xs. ok x then Ok ((), foldl (\<lambda>db x. step x db) db xs) else Err e)"
  by (induction xs arbitrary: db) (auto simp: assms)

section \<open>The invariant, statement by statement\<close>

lemma bump_fields [simp]:
  "db_version (bump n db) = db_version db + int n" "db_next_id (bump n db) = db_next_id db"
  "db_flags (bump n db) = db_flags db" "db_variants (bump n db) = db_variants db"
  "db_rules (bump n db) = db_rules db" "db_distributions (bump n db) = db_distributions db"
  "db_constraints (bump n db) = db_constraints db" "db_segments (bump n db) = db_segments db"
  "db_segment_constraints (bump n db) = db_segment_constraints db"
  "db_changes (bump n db) = db_changes db"
  by (simp_all add: bump_def)

lemma record_fields [simp]:
  "db_version (record_change a b c d e db) = db_version db"
  "db_next_id (record_change a b c d e db) = db_next_id db"
  "db_flags (record_change a b c d e db) = db_flags db"
  "db_variants (record_change a b c d e db) = db_variants db"
  "db_rules (record_change a b c d e db) = db_rules db"
  "db_distributions (record_change a b c d e db) = db_distributions db"
  "db_constraints (record_change a b c d e db) = db_constraints db"
  "db_segments (record_change a b c d e db) = db_segments db"
  "db_segment_constraints (record_change a b c d e db) = db_segment_constraints db"
  by (simp_all add: record_change_def)

lemma db_inv_bump [simp]: "db_inv (bump n db) = db_inv db"
  by (simp add: db_inv_defs)

lemma db_inv_record [simp]: "db_inv (record_change a b c d e db) = db_inv db"
  by (simp add: db_inv_defs)

abbreviation flag_ids :: "Db \<Rightarrow> uuid set" where
  "flag_ids db \<equiv> fr_id ` set (db_flags db)"

abbreviation rule_ids :: "Db \<Rightarrow> uuid set" where
  "rule_ids db \<equiv> rr_id ` set (db_rules db)"

abbreviation segment_ids :: "Db \<Rightarrow> uuid set" where
  "segment_ids db \<equiv> sr_id ` set (db_segments db)"

lemma map_cond_update:
  "(\<And>r. key (u r) = key r) \<Longrightarrow> map key (map (\<lambda>r. if c r then u r else r) xs) = map key xs"
  by simp

lemma image_filter_rest:
  "x \<in> f ` A \<Longrightarrow> x \<notin> f ` {a \<in> A. p a} \<Longrightarrow> x \<in> f ` {a \<in> A. \<not> p a}"
  by auto

lemma image_cond_update:
  "(\<And>r. f (u r) = f r) \<Longrightarrow> f ` set (map (\<lambda>r. if c r then u r else r) xs) = f ` set xs"
proof (induction xs)
  case Nil
  show ?case by simp
next
  case (Cons x xs)
  then show ?case by (simp del: set_map)
qed

lemma update_flags_inv:
  assumes "db_inv db" and "\<And>r. fr_id (u r) = fr_id r" "\<And>r. fr_key (u r) = fr_key r"
    and "\<And>r. fr_value_type r \<in> range value_type_to_str \<Longrightarrow> fr_value_type (u r) \<in> range value_type_to_str"
  shows "db_inv (db\<lparr>db_flags := map (\<lambda>r. if c r then u r else r) (db_flags db)\<rparr>)"
    and "fr_id ` set (map (\<lambda>r. if c r then u r else r) (db_flags db)) = fr_id ` set (db_flags db)"
proof -
  let ?rows = "map (\<lambda>r. if c r then u r else r) (db_flags db)"
  show ids: "fr_id ` set ?rows = fr_id ` set (db_flags db)"
    by (rule image_cond_update) (rule assms)
  have "map fr_key ?rows = map fr_key (db_flags db)" "map fr_id ?rows = map fr_id (db_flags db)"
    by (rule map_cond_update, rule assms)+
  moreover have "\<forall>r\<in>set ?rows. fr_id r < db_next_id db"
    using assms(1) by (auto simp: db_inv_defs assms(2))
  moreover have "\<forall>r\<in>set ?rows. fr_value_type r \<in> range value_type_to_str"
    using assms(1,4) by (auto simp: db_inv_defs)
  ultimately show "db_inv (db\<lparr>db_flags := ?rows\<rparr>)"
    using assms(1) ids by (simp add: db_inv_defs del: map_map set_map)
qed

lemma update_segments_inv:
  assumes "db_inv db" and "\<And>r. sr_id (u r) = sr_id r" "\<And>r. sr_key (u r) = sr_key r"
  shows "db_inv (db\<lparr>db_segments := map (\<lambda>r. if c r then u r else r) (db_segments db)\<rparr>)"
    and "sr_id ` set (map (\<lambda>r. if c r then u r else r) (db_segments db)) = sr_id ` set (db_segments db)"
proof -
  let ?rows = "map (\<lambda>r. if c r then u r else r) (db_segments db)"
  show ids: "sr_id ` set ?rows = sr_id ` set (db_segments db)"
    by (rule image_cond_update) (rule assms)
  have "map sr_key ?rows = map sr_key (db_segments db)" "map sr_id ?rows = map sr_id (db_segments db)"
    by (rule map_cond_update, rule assms)+
  moreover have "\<forall>r\<in>set ?rows. sr_id r < db_next_id db"
    using assms(1) by (auto simp: db_inv_defs assms(2))
  ultimately show "db_inv (db\<lparr>db_segments := ?rows\<rparr>)"
    using assms(1) ids by (simp add: db_inv_defs del: map_map set_map)
qed

lemma fresh_id: "\<forall>r\<in>A. f r < (n :: nat) \<Longrightarrow> n \<in> f ` A \<longleftrightarrow> False"
  by auto

lemma pair_not_in:
  "\<forall>r\<in>A. f r = a \<longrightarrow> g r \<noteq> b \<Longrightarrow> (a, b) \<in> (\<lambda>r. (f r, g r)) ` A \<longleftrightarrow> False"
  by auto

lemma insert_flag_inv:
  "db_inv db \<Longrightarrow> insert_flag k t en dv db = Ok (i, db')
    \<Longrightarrow> db_inv db' \<and> i \<in> flag_ids db'"
  by (auto simp: insert_flag_def db_inv_defs list_ex_iff less_Suc_eq fresh_id split: if_splits)

lemma upsert_flag_row_inv:
  assumes "db_inv db" and "upsert_flag_row f db = (i, db')"
  shows "db_inv db' \<and> i \<in> flag_ids db'"
proof (cases "List.find (\<lambda>r. fr_key r = f_key f) (db_flags db)")
  case None
  with assms show ?thesis
    by (auto simp: upsert_flag_row_def db_inv_defs find_key_None less_Suc_eq fresh_id)
next
  case (Some row)
  then have "row \<in> set (db_flags db)" by (auto simp: find_Some_iff)
  with Some assms show ?thesis
    unfolding upsert_flag_row_def
    by (auto simp: update_flags_inv simp del: set_map)
qed

lemma insert_variant_inv:
  "db_inv db \<and> i \<in> flag_ids db \<Longrightarrow> insert_variant i v db = Ok ((), db')
    \<Longrightarrow> db_inv db' \<and> i \<in> flag_ids db'"
  by (auto simp: insert_variant_def db_inv_defs list_ex_iff variant_at_def pair_not_in split: if_splits)

lemma upsert_variant_row_inv:
  "db_inv db \<and> i \<in> flag_ids db \<Longrightarrow> db_inv (upsert_variant_row i v db) \<and> i \<in> flag_ids (upsert_variant_row i v db)"
  unfolding upsert_variant_row_def db_inv_defs
  by (auto simp: map_cond_update variant_at_def list_ex_iff simp del: map_map)

lemma filter_variants_inv:
  "db_inv db \<Longrightarrow> db_inv (db\<lparr>db_variants := filter p (db_variants db)\<rparr>)"
  by (auto simp: db_inv_defs distinct_map_filter)

lemma delete_rule_rows_inv: "db_inv db \<Longrightarrow> db_inv (delete_rule_rows p db)"
  unfolding delete_rule_rows_def Let_def db_inv_defs
  by (auto simp: distinct_map_filter intro!: image_filter_rest)

lemma delete_flag_rows_inv: "db_inv db \<Longrightarrow> db_inv (snd (delete_flag_rows k db))"
  unfolding delete_flag_rows_def Let_def delete_rule_rows_def db_inv_defs
  by (auto simp: distinct_map_filter intro!: image_filter_rest)

lemma delete_segment_rows_inv: "db_inv db \<Longrightarrow> db_inv (snd (delete_segment_rows k db))"
  unfolding delete_segment_rows_def Let_def db_inv_defs
  by (auto simp: distinct_map_filter intro!: image_filter_rest)

lemma insert_rule_row_inv:
  "db_inv db \<and> i \<in> flag_ids db \<Longrightarrow> insert_rule_row i n r db = Ok (j, db')
    \<Longrightarrow> db_inv db' \<and> i \<in> flag_ids db' \<and> j \<in> rule_ids db'"
  by (auto simp: insert_rule_row_def db_inv_defs list_ex_iff less_Suc_eq fresh_id pair_not_in split: if_splits)

lemma insert_distribution_inv:
  "db_inv db \<and> i \<in> flag_ids db \<and> j \<in> rule_ids db \<Longrightarrow> insert_distribution j d db = Ok ((), db')
    \<Longrightarrow> db_inv db' \<and> i \<in> flag_ids db' \<and> j \<in> rule_ids db'"
  by (auto simp: insert_distribution_def db_inv_defs split: if_splits)

lemma insert_rule_constraint_inv:
  "db_inv db \<and> i \<in> flag_ids db \<and> j \<in> rule_ids db \<Longrightarrow> insert_rule_constraint j n c db = Ok ((), db')
    \<Longrightarrow> db_inv db' \<and> i \<in> flag_ids db' \<and> j \<in> rule_ids db'"
  by (auto simp: insert_rule_constraint_def db_inv_defs)

lemma upsert_segment_row_inv:
  assumes "db_inv db" and "upsert_segment_row s db = (i, db')"
  shows "db_inv db' \<and> i \<in> segment_ids db'"
proof (cases "List.find (\<lambda>r. sr_key r = s_key s) (db_segments db)")
  case None
  with assms show ?thesis
    by (auto simp: upsert_segment_row_def db_inv_defs find_key_None less_Suc_eq fresh_id)
next
  case (Some row)
  then have "row \<in> set (db_segments db)" by (auto simp: find_Some_iff)
  with Some assms show ?thesis
    unfolding upsert_segment_row_def
    by (auto simp: update_segments_inv simp del: set_map)
qed

lemma insert_segment_constraint_inv:
  "db_inv db \<and> i \<in> segment_ids db \<Longrightarrow> insert_segment_constraint i c db = Ok ((), db')
    \<Longrightarrow> db_inv db' \<and> i \<in> segment_ids db'"
  by (auto simp: insert_segment_constraint_def db_inv_defs)

section \<open>The invariant, operation by operation\<close>

lemma insert_rule_tx_inv:
  assumes "db_inv db \<and> i \<in> flag_ids db" and "insert_rule_tx i x db = Ok ((), db')"
  shows "db_inv db' \<and> i \<in> flag_ids db'"
proof -
  obtain n r where x: "x = (n, r)" by (cases x)
  from assms(2) obtain j db1 db2 where row: "insert_rule_row i n r db = Ok (j, db1)"
    and ds: "each_tx (insert_distribution j) (r_distributions r) db1 = Ok ((), db2)"
    and cs: "each_tx (\<lambda>(k, g). each_tx (insert_rule_constraint j k) (g_constraints g))
      (List.enumerate 0 (r_constraint_groups r)) db2 = Ok ((), db')"
    by (auto simp: x insert_rule_tx_def and_tx_Ok)
  let ?P = "\<lambda>db. db_inv db \<and> i \<in> flag_ids db \<and> j \<in> rule_ids db"
  have "?P db1" by (rule insert_rule_row_inv [OF assms(1) row])
  then have P2: "?P db2"
    using each_tx_inv [where P = ?P and f = "insert_distribution j", OF _ _ ds] insert_distribution_inv
    by blast
  have group: "?P db'"
    if P: "?P db" and ins: "(\<lambda>(k, g). each_tx (insert_rule_constraint j k) (g_constraints g)) y db = Ok ((), db')"
    for y :: "nat \<times> ConstraintGroup" and db db'
  proof -
    obtain k and g :: ConstraintGroup where "each_tx (insert_rule_constraint j k) (g_constraints g) db = Ok ((), db')"
      using ins by (cases y) auto
    from each_tx_inv [where P = ?P, OF _ P this] insert_rule_constraint_inv show ?thesis by blast
  qed
  from each_tx_inv [where P = ?P, OF _ P2 cs] group have "?P db'" by blast
  then show ?thesis by simp
qed

lemma bump_inv [simp]: "db_inv (bump n db) \<and> i \<in> flag_ids (bump n db) \<longleftrightarrow> db_inv db \<and> i \<in> flag_ids db"
  by simp

lemma delete_rule_rows_flags [simp]:
  "db_flags (delete_rule_rows p db) = db_flags db" "db_variants (delete_rule_rows p db) = db_variants db"
  "db_segments (delete_rule_rows p db) = db_segments db"
  "db_segment_constraints (delete_rule_rows p db) = db_segment_constraints db"
  "db_changes (delete_rule_rows p db) = db_changes db"
  "db_next_id (delete_rule_rows p db) = db_next_id db"
  "db_rules (delete_rule_rows p db) = filter (\<lambda>r. \<not> p r) (db_rules db)"
  by (simp_all add: delete_rule_rows_def Let_def)

lemma replace_rules_tx_inv:
  assumes "db_inv db \<and> i \<in> flag_ids db" and "replace_rules_tx i rs db = Ok ((), db')"
  shows "db_inv db' \<and> i \<in> flag_ids db'"
proof -
  let ?P = "\<lambda>db. db_inv db \<and> i \<in> flag_ids db"
  have start: "?P (bump 1 (delete_rule_rows (\<lambda>r. rr_flag_id r = i) db))"
    using assms(1) by (simp add: delete_rule_rows_inv)
  show ?thesis
    using each_tx_inv [where P = ?P, OF _ start assms(2) [unfolded replace_rules_tx_def]]
      insert_rule_tx_inv by blast
qed

lemma foldl_inv:
  "(\<And>x db. P db \<Longrightarrow> P (f db x)) \<Longrightarrow> P db \<Longrightarrow> P (foldl f db xs)"
  by (induction xs arbitrary: db) simp_all

lemma upsert_flag_tx_inv:
  assumes "db_inv db" and "upsert_flag_tx f db = Ok ((), db')"
  shows "db_inv db'"
proof -
  obtain i db1 where row: "upsert_flag_row f db = (i, db1)" by fastforce
  define db2 where "db2 = bump 1 (db1\<lparr>db_variants := filter (\<lambda>v. \<not> (vr_flag_id v = i
    \<and> \<not> List.member (map v_key (f_variants f)) (vr_key v))) (db_variants db1)\<rparr>)"
  let ?P = "\<lambda>db. db_inv db \<and> i \<in> flag_ids db"
  from upsert_flag_row_inv [OF assms(1) row] have "?P db2"
    unfolding db2_def by (simp add: filter_variants_inv)
  then have "?P (foldl (\<lambda>db v. upsert_variant_row i v db) db2 (f_variants f))"
    by (rule foldl_inv [where P = ?P, rotated]) (rule upsert_variant_row_inv)
  moreover have "replace_rules_tx i (f_rules f)
      (foldl (\<lambda>db v. upsert_variant_row i v db) db2 (f_variants f)) = Ok ((), db')"
    using assms(2) unfolding upsert_flag_tx_def row Let_def prod.case db2_def .
  ultimately show ?thesis using replace_rules_tx_inv by blast
qed

lemma filter_segment_constraints_inv:
  "db_inv db \<Longrightarrow> db_inv (db\<lparr>db_segment_constraints := filter p (db_segment_constraints db)\<rparr>)"
  by (auto simp: db_inv_defs)

lemma upsert_segment_tx_inv:
  assumes "db_inv db" and "upsert_segment_tx s db = Ok ((), db')"
  shows "db_inv db'"
proof -
  obtain i db1 where row: "upsert_segment_row s db = (i, db1)" by fastforce
  let ?P = "\<lambda>db. db_inv db \<and> i \<in> segment_ids db"
  have start: "?P (bump 1 (db1\<lparr>db_segment_constraints :=
      filter (\<lambda>c. sc_segment_id c \<noteq> i) (db_segment_constraints db1)\<rparr>))"
    using upsert_segment_row_inv [OF assms(1) row] by (simp add: filter_segment_constraints_inv)
  have "each_tx (insert_segment_constraint i) (s_constraints s) (bump 1 (db1\<lparr>db_segment_constraints :=
      filter (\<lambda>c. sc_segment_id c \<noteq> i) (db_segment_constraints db1)\<rparr>)) = Ok ((), db')"
    using assms(2) unfolding upsert_segment_tx_def row Let_def prod.case .
  from each_tx_inv [where P = ?P, OF _ start this] insert_segment_constraint_inv
  show ?thesis by blast
qed

section \<open>One call of the write interface\<close>

text \<open>The public writers of \<open>Store\<close>, as one type of calls.\<close>

datatype StoreCall =
    CreateFlag string ValueType bool string "Variant list"
  | UpdateFlag string bool string
  | ArchiveFlag string bool
  | DeleteFlag string
  | UpsertVariant string Variant
  | DeleteVariant string string
  | UpsertSegment Segment
  | DeleteSegment string
  | SetFlagRules string "Rule list"

fun perform :: "string \<Rightarrow> StoreCall \<Rightarrow> Db \<Rightarrow> unit tx" where
  "perform actor (CreateFlag k t en dv vs) = create_flag actor k t en dv vs"
| "perform actor (UpdateFlag k en dv) = update_flag actor k en dv"
| "perform actor (ArchiveFlag k a) = archive_flag actor k a"
| "perform actor (DeleteFlag k) = delete_flag actor k"
| "perform actor (UpsertVariant k v) = upsert_variant actor k v"
| "perform actor (DeleteVariant k v) = delete_variant actor k v"
| "perform actor (UpsertSegment s) = upsert_segment actor s"
| "perform actor (DeleteSegment k) = delete_segment actor k"
| "perform actor (SetFlagRules k rs) = set_flag_rules actor k rs"

lemma flag_id_Ok: "flag_id k db = Ok i \<longleftrightarrow>
    (\<exists>r. List.find (\<lambda>r. fr_key r = k) (db_flags db) = Some r \<and> i = fr_id r)"
  by (auto simp: flag_id_def split: option.splits)

lemma flag_id_in: "flag_id k db = Ok i \<Longrightarrow> i \<in> flag_ids db"
  by (auto simp: flag_id_Ok find_Some_iff)

lemma create_flag_inv:
  assumes "db_inv db" and "create_flag actor k t en dv vs db = Ok ((), db')"
  shows "db_inv db'"
proof -
  from assms(2) obtain i db1 db2 where ins: "insert_flag k t en dv db = Ok (i, db1)"
    and vs: "each_tx (insert_variant i) vs db1 = Ok ((), db2)" and eq: "db_inv db2 = db_inv db'"
    by (auto simp: create_flag_def and_tx_Ok split: if_splits sum.splits)
  from each_tx_inv [where P = "\<lambda>db. db_inv db \<and> i \<in> flag_ids db", OF _ insert_flag_inv [OF assms(1) ins] vs]
    insert_variant_inv eq
  show ?thesis by blast
qed

theorem perform_inv:
  assumes "db_inv db" and "perform actor c db = Ok ((), db')"
  shows "db_inv db'"
proof (cases c)
  case (CreateFlag k t en dv vs)
  with assms show ?thesis by (auto intro: create_flag_inv)
next
  case (UpdateFlag k en dv)
  with assms show ?thesis
    by (auto simp: update_flag_def update_flags_inv split: sum.splits if_splits)
next
  case (ArchiveFlag k a)
  with assms show ?thesis
    by (auto simp: archive_flag_def update_flags_inv split: if_splits)
next
  case (DeleteFlag k)
  with assms delete_flag_rows_inv [of db k] show ?thesis
    by (auto simp: delete_flag_def split: prod.splits if_splits)
next
  case (UpsertVariant k v)
  with assms show ?thesis
    by (auto simp: upsert_variant_def find_Some_iff split: option.splits sum.splits
        intro!: upsert_variant_row_inv [THEN conjunct1])
next
  case (DeleteVariant k v)
  with assms show ?thesis
    by (auto simp: delete_variant_def filter_variants_inv split: sum.splits)
next
  case (UpsertSegment s)
  with assms show ?thesis
    by (auto simp: upsert_segment_def and_tx_Ok intro: upsert_segment_tx_inv)
next
  case (DeleteSegment k)
  with assms delete_segment_rows_inv [of db k] show ?thesis
    by (auto simp: delete_segment_def split: prod.splits if_splits)
next
  case (SetFlagRules k rs)
  with assms obtain i db1 where "flag_id k db = Ok i" and "replace_rules_tx i rs db = Ok ((), db1)"
    and "db_inv db1 = db_inv db'"
    by (auto simp: set_flag_rules_def and_tx_Ok split: sum.splits)
  with replace_rules_tx_inv [of db i rs db1] flag_id_in [of k db i] assms(1) show ?thesis by simp
qed

end
