(* ===== verification/FlagRefine.thy ===== *)
theory FlagRefine
  imports FlagWrites
begin

text \<open>
  The store refines a pair of maps: \<open>config\<close> reads the tables as the flags and the segments by
  key, \<open>spec_call\<close> says what each writer does to them, and every call of \<open>Store\<close> does just that
  or fails exactly where the specification does.
\<close>

section \<open>Rules as they are stored\<close>

text \<open>Ranks are positions; a group without constraints leaves no row.\<close>

definition stored_rule :: "nat \<Rightarrow> Rule \<Rightarrow> Rule" where
  "stored_rule n r = r\<lparr>r_rank := of_nat n,
     r_constraint_groups := filter (\<lambda>g. g_constraints g \<noteq> []) (r_constraint_groups r)\<rparr>"

definition stored_rules :: "nat \<Rightarrow> Rule list \<Rightarrow> Rule list" where
  "stored_rules n rs = map (\<lambda>(k, r). stored_rule k r) (List.enumerate n rs)"

definition weights_ok :: "Rule \<Rightarrow> bool" where
  "weights_ok r \<longleftrightarrow> (\<forall>d\<in>set (r_distributions r). 0 \<le> sint (d_weight d) \<and> sint (d_weight d) \<le> 100)"

text \<open>Sizes that fit the \<open>i32\<close> columns.\<close>

definition rules_fit :: "Rule list \<Rightarrow> bool" where
  "rules_fit rs \<longleftrightarrow> length rs \<le> 2 ^ 31 \<and> (\<forall>r\<in>set rs. length (r_constraint_groups r) \<le> 2 ^ 31)"

section \<open>The rows of one rule\<close>

definition rule_row :: "uuid \<Rightarrow> uuid \<Rightarrow> nat \<Rightarrow> Rule \<Rightarrow> RuleRow" where
  "rule_row j i n r = \<lparr>rr_id = j, rr_flag_id = i, rr_rank = of_nat n,
     rr_segment_key = r_segment_key r, rr_variant_key = r_variant_key r,
     rr_bucket_salt = r_bucket_salt r\<rparr>"

definition distribution_rows :: "uuid \<Rightarrow> Distribution list \<Rightarrow> DistributionRow list" where
  "distribution_rows j ds =
     map (\<lambda>d. \<lparr>dr_rule_id = j, dr_variant_key = d_variant_key d, dr_weight = d_weight d\<rparr>) ds"

definition constraint_row :: "uuid \<Rightarrow> nat \<Rightarrow> Constraint \<Rightarrow> RuleConstraintRow" where
  "constraint_row j k c = \<lparr>rc_rule_id = j, rc_group_index = of_nat k, rc_attribute = c_attribute c,
     rc_operator = operator_to_str (c_operator c), rc_values = JArray (c_values c)\<rparr>"

definition group_rows :: "uuid \<Rightarrow> nat \<Rightarrow> ConstraintGroup list \<Rightarrow> RuleConstraintRow list" where
  "group_rows j m gs = concat (map (\<lambda>(k, g). map (constraint_row j k) (g_constraints g)) (List.enumerate m gs))"

lemma group_rows_Cons: "group_rows j m (g # gs) = map (constraint_row j m) (g_constraints g) @ group_rows j (Suc m) gs"
  by (simp add: group_rows_def)

lemma each_distribution:
  "each_tx (insert_distribution j) ds db =
     (if \<forall>d\<in>set ds. 0 \<le> sint (d_weight d) \<and> sint (d_weight d) \<le> 100
      then Ok ((), bump (length ds) (db\<lparr>db_distributions := db_distributions db @ distribution_rows j ds\<rparr>))
      else Err (Sqlx ''rule_distributions_weight_check''))"
  by (induction ds arbitrary: db)
    (auto simp: insert_distribution_def distribution_rows_def bump_def)

lemma each_constraint:
  "each_tx (insert_rule_constraint j k) cs db =
     Ok ((), bump (length cs) (db\<lparr>db_constraints := db_constraints db @ map (constraint_row j k) cs\<rparr>))"
  by (induction cs arbitrary: db)
    (auto simp: insert_rule_constraint_def constraint_row_def bump_def)

lemma each_group:
  "each_tx (\<lambda>(k, g). each_tx (insert_rule_constraint j k) (g_constraints g)) (List.enumerate m gs) db =
     Ok ((), bump (length (group_rows j m gs)) (db\<lparr>db_constraints := db_constraints db @ group_rows j m gs\<rparr>))"
proof (induction gs arbitrary: m db)
  case Nil
  show ?case by (simp add: group_rows_def bump_def)
next
  case (Cons g gs)
  show ?case
    by (simp add: each_constraint [of j m "g_constraints g" db] Cons.IH group_rows_Cons bump_def)
qed

lemma insert_rule_tx_eq:
  "insert_rule_tx i (n, r) db =
     (if \<exists>q\<in>set (db_rules db). rr_flag_id q = i \<and> rr_rank q = of_nat n
      then Err (Sqlx ''flag_rules_flag_id_rank_key'')
      else if weights_ok r
      then Ok ((), bump (Suc (length (r_distributions r) + length (group_rows (db_next_id db) 0 (r_constraint_groups r))))
        (db\<lparr>db_next_id := Suc (db_next_id db),
            db_rules := db_rules db @ [rule_row (db_next_id db) i n r],
            db_distributions := db_distributions db @ distribution_rows (db_next_id db) (r_distributions r),
            db_constraints := db_constraints db @ group_rows (db_next_id db) 0 (r_constraint_groups r)\<rparr>))
      else Err (Sqlx ''rule_distributions_weight_check''))"
  by (simp add: insert_rule_tx_def insert_rule_row_def each_distribution each_group list_ex_iff
      weights_ok_def rule_row_def bump_def)

section \<open>Groups come back in order\<close>

lemma sint_of_nat: "n < 2 ^ 31 \<Longrightarrow> sint (of_nat n :: i32) = int n"
  by (simp add: signed_of_nat signed_take_bit_int_eq_self)

lemma btree_push_new: "\<forall>p\<in>set t. sint (fst p) < sint k \<Longrightarrow> btree_push k x t = t @ [(k, [x])]"
  by (induction k x t rule: btree_push.induct) auto

lemma btree_push_last:
  "\<forall>p\<in>set t. sint (fst p) < sint k \<Longrightarrow> btree_push k x (t @ [(k, xs)]) = t @ [(k, xs @ [x])]"
  by (induction t) auto

lemma btree_push_group:
  "\<forall>p\<in>set t. sint (fst p) < sint k \<Longrightarrow>
     foldl (\<lambda>t (g, c). btree_push g c t) (t @ [(k, xs)]) (map (\<lambda>c. (k, f c)) cs) = t @ [(k, xs @ map f cs)]"
  by (induction cs arbitrary: xs) (simp_all add: btree_push_last)

lemma row_constraint_row [simp]: "row_constraint (constraint_row j k c) = c"
  by (simp add: row_constraint_def constraint_row_def constraint_of_row_def codec_simps)

lemma btree_groups:
  "\<forall>p\<in>set t. sint (fst p) < int m \<Longrightarrow> m + length gs \<le> 2 ^ 31 \<Longrightarrow>
     map snd (foldl (\<lambda>t (g, c). btree_push g c t) t
       (map (\<lambda>r. (rc_group_index r, row_constraint r)) (group_rows j m gs)))
     = map snd t @ map g_constraints (filter (\<lambda>g. g_constraints g \<noteq> []) gs)"
proof (induction gs arbitrary: m t)
  case Nil
  show ?case by (simp add: group_rows_def)
next
  case (Cons g gs)
  have m: "sint (of_nat m :: i32) = int m" using Cons.prems(2) by (intro sint_of_nat) simp
  have idx: "rc_group_index (constraint_row j m c) = of_nat m" for c by (simp add: constraint_row_def)
  show ?case
  proof (cases "g_constraints g")
    case Nil
    have "\<forall>p\<in>set t. sint (fst p) < int (Suc m)" using Cons.prems(1) by force
    from Cons.IH [OF this] Cons.prems(2) Nil show ?thesis by (simp add: group_rows_Cons)
  next
    case (Cons c cs)
    let ?t = "t @ [(of_nat m, c # cs)]"
    have "foldl (\<lambda>t (g, c). btree_push g c t) (btree_push (of_nat m) c t) (map (\<lambda>c. (of_nat m, c)) cs) = ?t"
      using Cons.prems(1) btree_push_group [of t "of_nat m" "[c]" "\<lambda>c. c" cs]
      by (simp add: btree_push_new m)
    moreover have "\<forall>p\<in>set ?t. sint (fst p) < int (Suc m)" using Cons.prems(1) m by force
    note Cons.IH [OF this]
    ultimately show ?thesis using Cons.prems(2) Cons by (simp add: group_rows_Cons o_def idx)
  qed
qed

lemma sort_key_snoc:
  assumes "\<forall>x\<in>set xs. f x \<le> f y"
  shows "sort_key f (xs @ [y]) = sort_key f xs @ [y]"
proof -
  have "insort_key f x (zs @ [y]) = insort_key f x zs @ [y]" if "f x \<le> f y" for x zs
    using that by (induction zs) auto
  with assms show ?thesis by (induction xs) auto
qed

section \<open>Replacing the rules of a flag\<close>

text \<open>Everything but the rules, the id counter and the version stays as it is.\<close>

definition only_rules :: "Db \<Rightarrow> Db \<Rightarrow> bool" where
  "only_rules db db' \<longleftrightarrow>
     db_flags db' = db_flags db \<and> db_variants db' = db_variants db \<and> db_segments db' = db_segments db
     \<and> db_segment_constraints db' = db_segment_constraints db \<and> db_changes db' = db_changes db
     \<and> db_version db \<le> db_version db'"

lemma only_rules_trans: "only_rules a b \<Longrightarrow> only_rules b c \<Longrightarrow> only_rules a c"
  by (simp add: only_rules_def)

definition ranks_below :: "uuid \<Rightarrow> nat \<Rightarrow> Db \<Rightarrow> bool" where
  "ranks_below i n db \<longleftrightarrow> (\<forall>q\<in>set (db_rules db). rr_flag_id q = i \<longrightarrow> sint (rr_rank q) < int n)"

lemma view_rule_new:
  assumes inv: "db_inv db" and fit: "length (r_constraint_groups r) \<le> 2 ^ 31"
    and ds: "db_distributions db' = db_distributions db @ distribution_rows (db_next_id db) (r_distributions r)"
    and cs: "db_constraints db' = db_constraints db @ group_rows (db_next_id db) 0 (r_constraint_groups r)"
  shows "view_rule db' (rule_row (db_next_id db) i n r) = stored_rule n r"
    and "q \<in> set (db_rules db) \<Longrightarrow> view_rule db' q = view_rule db q"
proof -
  let ?j = "db_next_id db"
  have fresh: "?j \<notin> rule_ids db" using inv by (auto simp: db_inv_defs)
  have d0: "filter (\<lambda>d. dr_rule_id d = ?j) (db_distributions db) = []"
    and c0: "filter (\<lambda>c. rc_rule_id c = ?j) (db_constraints db) = []"
    unfolding filter_empty_conv using inv fresh unfolding db_inv_def refs_ok_def by metis+
  have dj: "filter (\<lambda>d. dr_rule_id d = k) (distribution_rows ?j ds) =
      (if k = ?j then distribution_rows ?j ds else [])" for k ds
    by (auto simp: distribution_rows_def filter_empty_conv)
  have ids: "\<forall>c\<in>set (group_rows ?j m gs). rc_rule_id c = ?j" for m gs
    by (auto simp: group_rows_def constraint_row_def)
  then have cj: "filter (\<lambda>c. rc_rule_id c = k) (group_rows ?j 0 gs) =
      (if k = ?j then group_rows ?j 0 gs else [])" for k gs
    by (auto simp: filter_empty_conv)
  let ?t = "foldl (\<lambda>t (g, c). btree_push g c t) []
    (map (\<lambda>r. (rc_group_index r, row_constraint r)) (group_rows ?j 0 (r_constraint_groups r)))"
  have "view_groups db' ?j = map (\<lambda>cs. \<lparr>g_constraints = cs\<rparr>) (map snd ?t)"
    by (simp add: view_groups_def cs c0 cj btree_def case_prod_beta)
  also have "map snd ?t = map g_constraints (filter (\<lambda>g. g_constraints g \<noteq> []) (r_constraint_groups r))"
    using btree_groups [of "[]" 0 "r_constraint_groups r" ?j] fit by simp
  also have "map (\<lambda>cs. \<lparr>g_constraints = cs\<rparr>) (map g_constraints gs) = gs" for gs :: "ConstraintGroup list"
    by (simp add: o_def) (rule map_idI, simp)
  finally have "view_groups db' ?j = filter (\<lambda>g. g_constraints g \<noteq> []) (r_constraint_groups r)" .
  moreover have "view_distributions db' ?j = r_distributions r"
    by (simp add: view_distributions_def ds d0 dj distribution_rows_def o_def) (rule map_idI, simp)
  ultimately show "view_rule db' (rule_row ?j i n r) = stored_rule n r"
    by (simp add: view_rule_def rule_row_def stored_rule_def)
  assume "q \<in> set (db_rules db)"
  with fresh have "rr_id q \<noteq> ?j" by (metis imageI)
  then show "view_rule db' q = view_rule db q"
    by (simp add: view_rule_def view_distributions_def view_groups_def ds cs dj cj)
qed

lemma insert_rule_effect:
  assumes inv: "db_inv db" and i: "i \<in> flag_ids db" and below: "ranks_below i n db"
    and n: "n < 2 ^ 31" and fit: "length (r_constraint_groups r) \<le> 2 ^ 31"
  shows "weights_ok r \<Longrightarrow> \<exists>db'. insert_rule_tx i (n, r) db = Ok ((), db') \<and> db_inv db'
      \<and> only_rules db db' \<and> ranks_below i (Suc n) db'
      \<and> (\<forall>k. view_rules db' k = view_rules db k @ (if k = i then [stored_rule n r] else []))"
    and "\<not> weights_ok r \<Longrightarrow> \<exists>e. insert_rule_tx i (n, r) db = Err e"
proof -
  have free: "\<not> (\<exists>q\<in>set (db_rules db). rr_flag_id q = i \<and> rr_rank q = of_nat n)"
    using below sint_of_nat [OF n] by (auto simp: ranks_below_def)
  then show "\<not> weights_ok r \<Longrightarrow> \<exists>e. insert_rule_tx i (n, r) db = Err e"
    by (simp add: insert_rule_tx_eq)
  assume ok: "weights_ok r"
  define db' where "db' = bump (Suc (length (r_distributions r)
      + length (group_rows (db_next_id db) 0 (r_constraint_groups r))))
    (db\<lparr>db_next_id := Suc (db_next_id db),
        db_rules := db_rules db @ [rule_row (db_next_id db) i n r],
        db_distributions := db_distributions db @ distribution_rows (db_next_id db) (r_distributions r),
        db_constraints := db_constraints db @ group_rows (db_next_id db) 0 (r_constraint_groups r)\<rparr>)"
  have step: "insert_rule_tx i (n, r) db = Ok ((), db')"
    using free ok unfolding insert_rule_tx_eq db'_def by simp
  have new: "view_rule db' (rule_row (db_next_id db) i n r) = stored_rule n r"
    and old: "\<And>q. q \<in> set (db_rules db) \<Longrightarrow> view_rule db' q = view_rule db q"
    by (rule view_rule_new [OF inv fit]; simp add: db'_def)+
  have rank: "rr_rank (rule_row (db_next_id db) i n r) = of_nat n" "rr_flag_id (rule_row (db_next_id db) i n r) = i"
    by (simp_all add: rule_row_def)
  have "view_rules db' k = view_rules db k @ (if k = i then [stored_rule n r] else [])" for k
  proof -
    have olds: "map (view_rule db') (sort_key (\<lambda>r. sint (rr_rank r)) (filter (\<lambda>r. rr_flag_id r = k) (db_rules db)))
        = view_rules db k"
      unfolding view_rules_def by (rule map_cong) (auto simp: old)
    have "\<forall>q\<in>set (filter (\<lambda>r. rr_flag_id r = i) (db_rules db)).
        sint (rr_rank q) \<le> sint (rr_rank (rule_row (db_next_id db) i n r))"
      using below by (auto simp: ranks_below_def rank sint_of_nat [OF n])
    from sort_key_snoc [OF this] show ?thesis
      using olds by (auto simp: view_rules_def db'_def rank new [unfolded db'_def])
  qed
  moreover have "only_rules db db'" by (simp add: only_rules_def db'_def)
  moreover have "ranks_below i (Suc n) db'"
    using below by (auto simp: ranks_below_def db'_def rank sint_of_nat [OF n])
  ultimately show "\<exists>db'. insert_rule_tx i (n, r) db = Ok ((), db') \<and> db_inv db' \<and> only_rules db db'
      \<and> ranks_below i (Suc n) db' \<and> (\<forall>k. view_rules db' k = view_rules db k @ (if k = i then [stored_rule n r] else []))"
    using step insert_rule_tx_inv [of db i "(n, r)" db'] inv i by blast
qed

lemma stored_rules_simps [simp]:
  "stored_rules n [] = []" "stored_rules n (r # rs) = stored_rule n r # stored_rules (Suc n) rs"
  by (simp_all add: stored_rules_def)

lemma insert_rules_effect:
  assumes "db_inv db" and "i \<in> flag_ids db" and "ranks_below i n db"
    and "n + length rs \<le> 2 ^ 31" and "\<forall>r\<in>set rs. length (r_constraint_groups r) \<le> 2 ^ 31"
  shows "\<forall>r\<in>set rs. weights_ok r \<Longrightarrow> \<exists>db'. each_tx (insert_rule_tx i) (List.enumerate n rs) db = Ok ((), db')
      \<and> db_inv db' \<and> only_rules db db'
      \<and> (\<forall>k. view_rules db' k = view_rules db k @ (if k = i then stored_rules n rs else []))"
    and "\<not> (\<forall>r\<in>set rs. weights_ok r) \<Longrightarrow> \<exists>e. each_tx (insert_rule_tx i) (List.enumerate n rs) db = Err e"
  using assms
proof (induction rs arbitrary: n db)
  case Nil
  { case 1 then show ?case by (auto simp: only_rules_def) }
  { case 2 then show ?case by simp }
next
  case (Cons r rs)
  have step: "weights_ok r \<Longrightarrow> \<exists>db1. insert_rule_tx i (n, r) db = Ok ((), db1) \<and> db_inv db1
      \<and> only_rules db db1 \<and> ranks_below i (Suc n) db1 \<and> i \<in> flag_ids db1
      \<and> (\<forall>k. view_rules db1 k = view_rules db k @ (if k = i then [stored_rule n r] else []))"
    if "db_inv db" "i \<in> flag_ids db" "ranks_below i n db" "n + length (r # rs) \<le> 2 ^ 31"
      "\<forall>r\<in>set (r # rs). length (r_constraint_groups r) \<le> 2 ^ 31" for n db
  proof -
    assume ok: "weights_ok r"
    from that insert_rule_effect(1) [OF that(1,2,3) _ _ ok] obtain db1
      where db1: "insert_rule_tx i (n, r) db = Ok ((), db1)" "db_inv db1" "only_rules db db1"
        "ranks_below i (Suc n) db1"
        "\<forall>k. view_rules db1 k = view_rules db k @ (if k = i then [stored_rule n r] else [])" by auto
    moreover have "i \<in> flag_ids db1" using db1(3) that(2) by (simp add: only_rules_def)
    ultimately show ?thesis by blast
  qed
  { case 1
    with step [OF 1(2-6)] obtain db1 where db1: "insert_rule_tx i (n, r) db = Ok ((), db1)" "db_inv db1"
        "only_rules db db1" "ranks_below i (Suc n) db1" "i \<in> flag_ids db1"
        "\<forall>k. view_rules db1 k = view_rules db k @ (if k = i then [stored_rule n r] else [])" by auto
    have "Suc n + length rs \<le> 2 ^ 31" "\<forall>r\<in>set rs. weights_ok r"
        "\<forall>r\<in>set rs. length (r_constraint_groups r) \<le> 2 ^ 31" using 1 by auto
    from Cons.IH(1) [OF this(2) db1(2,5,4) this(1,3)] db1 show ?case
      by (auto intro: only_rules_trans) }
  { case 2
    show ?case
    proof (cases "weights_ok r")
      case False
      with 2 insert_rule_effect(2) [of db i n r] show ?thesis by auto
    next
      case True
      with step [OF 2(2-6)] obtain db1 where db1: "insert_rule_tx i (n, r) db = Ok ((), db1)" "db_inv db1"
        "ranks_below i (Suc n) db1" "i \<in> flag_ids db1" by auto
      have "Suc n + length rs \<le> 2 ^ 31" "\<not> (\<forall>r\<in>set rs. weights_ok r)"
        "\<forall>r\<in>set rs. length (r_constraint_groups r) \<le> 2 ^ 31" using 2 True by auto
      from Cons.IH(2) [OF this(2) db1(2,4,3) this(1,3)] db1(1) show ?thesis by auto
    qed }
qed

lemma filter_gone: "x \<notin> G \<Longrightarrow> filter (\<lambda>d. k d = x) (filter (\<lambda>d. k d \<notin> G) ds) = filter (\<lambda>d. k d = x) ds"
  by (induction ds) auto

lemma delete_rules_view:
  assumes "keys_ok db"
  shows "view_rules (delete_rule_rows (\<lambda>r. P (rr_flag_id r)) db) j = (if P j then [] else view_rules db j)"
proof -
  let ?db = "delete_rule_rows (\<lambda>r. P (rr_flag_id r)) db"
  have keep: "view_rule ?db q = view_rule db q" if q: "q \<in> set (db_rules db)" "\<not> P (rr_flag_id q)" for q
  proof -
    have out: "rr_id q \<notin> rr_id ` {r \<in> set (db_rules db). P (rr_flag_id r)}"
      using assms q by (auto simp: keys_ok_def distinct_map dest: inj_onD)
    then show ?thesis
      by (simp add: view_rule_def view_distributions_def view_groups_def delete_rule_rows_def Let_def
          filter_gone del: filter_filter)
  qed
  have "filter (\<lambda>r. \<not> P (rr_flag_id r) \<and> rr_flag_id r = j) (db_rules db)
      = (if P j then [] else filter (\<lambda>r. rr_flag_id r = j) (db_rules db))"
    by (auto simp: filter_empty_conv intro: filter_cong)
  then show ?thesis by (auto simp: view_rules_def keep conj_commute)
qed

lemma delete_rules_below: "ranks_below i 0 (delete_rule_rows (\<lambda>r. rr_flag_id r = i) db)"
  by (simp add: ranks_below_def)

lemma view_bump [simp]:
  "view_rules (bump n db) = view_rules db" "view_variants (bump n db) = view_variants db"
  "view_flag (bump n db) = view_flag db" "view_segment (bump n db) = view_segment db"
  "flag_at (bump n db) = flag_at db" "segment_at (bump n db) = segment_at db"
  by (rule ext, simp add: view_rules_def view_rule_def[abs_def] view_variants_def view_flag_def
      view_segment_def view_groups_def view_distributions_def flag_at_def segment_at_def cong: option.map_cong)+

lemma view_record [simp]:
  "view_flag (record_change a b c d e db) = view_flag db"
  "view_segment (record_change a b c d e db) = view_segment db"
  "flag_at (record_change a b c d e db) = flag_at db"
  "segment_at (record_change a b c d e db) = segment_at db"
  by (rule ext, simp add: view_rules_def view_rule_def[abs_def] view_variants_def view_flag_def
      view_segment_def view_groups_def view_distributions_def flag_at_def segment_at_def cong: option.map_cong)+

theorem replace_rules_effect:
  assumes inv: "db_inv db" and i: "i \<in> flag_ids db" and fit: "rules_fit rs"
  shows "\<forall>r\<in>set rs. weights_ok r \<Longrightarrow> \<exists>db'. replace_rules_tx i rs db = Ok ((), db') \<and> db_inv db'
      \<and> db_flags db' = db_flags db \<and> db_variants db' = db_variants db \<and> db_segments db' = db_segments db
      \<and> db_segment_constraints db' = db_segment_constraints db
      \<and> (\<forall>k. view_rules db' k = (if k = i then stored_rules 0 rs else view_rules db k))"
    and "\<not> (\<forall>r\<in>set rs. weights_ok r) \<Longrightarrow> \<exists>e. replace_rules_tx i rs db = Err e"
proof -
  let ?db = "bump 1 (delete_rule_rows (\<lambda>r. rr_flag_id r = i) db)"
  have start: "db_inv ?db" "i \<in> flag_ids ?db" "ranks_below i 0 ?db" "0 + length rs \<le> 2 ^ 31"
      "\<forall>r\<in>set rs. length (r_constraint_groups r) \<le> 2 ^ 31"
    using inv i fit delete_rules_below [of i db]
    by (auto simp: delete_rule_rows_inv ranks_below_def rules_fit_def)
  have keys: "keys_ok db" using inv by (simp add: db_inv_def)
  show "\<not> (\<forall>r\<in>set rs. weights_ok r) \<Longrightarrow> \<exists>e. replace_rules_tx i rs db = Err e"
    unfolding replace_rules_tx_def by (rule insert_rules_effect(2) [OF start])
  assume ok: "\<forall>r\<in>set rs. weights_ok r"
  from insert_rules_effect(1) [OF start ok] obtain db' where
    "each_tx (insert_rule_tx i) (List.enumerate 0 rs) ?db = Ok ((), db')" "db_inv db'" "only_rules ?db db'"
    and rules: "\<forall>k. view_rules db' k = view_rules ?db k @ (if k = i then stored_rules 0 rs else [])" by blast
  moreover from this delete_rules_view [OF keys, of "\<lambda>k. k = i"]
  have "\<forall>k. view_rules db' k = (if k = i then stored_rules 0 rs else view_rules db k)" by simp
  ultimately show "\<exists>db'. replace_rules_tx i rs db = Ok ((), db') \<and> db_inv db'
      \<and> db_flags db' = db_flags db \<and> db_variants db' = db_variants db \<and> db_segments db' = db_segments db
      \<and> db_segment_constraints db' = db_segment_constraints db
      \<and> (\<forall>k. view_rules db' k = (if k = i then stored_rules 0 rs else view_rules db k))"
    unfolding replace_rules_tx_def only_rules_def by auto
qed

end
