(* ===== verification/FlagSpec.thy ===== *)
theory FlagSpec
  imports FlagRefine "HOL-Library.Multiset"
begin

text \<open>
  The abstract store: a configuration is a map of flags and a map of segments, and each writer
  is one map update or a refusal (\<open>spec_call\<close>). \<open>perform_refines\<close> is the refinement: on tables
  that satisfy the invariant a call succeeds exactly when the specification allows it, and then
  leads to exactly the configuration the specification names.
\<close>

section \<open>The specification\<close>

type_synonym config = "(string \<rightharpoonup> Flag) \<times> (string \<rightharpoonup> Segment)"

definition config :: "Db \<Rightarrow> config" where
  "config db = (flag_at db, segment_at db)"

text \<open>\<open>INSERT \<dots> ON CONFLICT DO UPDATE SET value\<close> on the variants of one flag.\<close>

definition put_variant :: "Variant \<Rightarrow> Variant list \<Rightarrow> Variant list" where
  "put_variant v vs =
     (if v_key v \<in> v_key ` set vs then map (\<lambda>w. if v_key w = v_key v then v else w) vs
      else vs @ [v])"

definition new_flag :: "string \<Rightarrow> ValueType \<Rightarrow> bool \<Rightarrow> string \<Rightarrow> Variant list \<Rightarrow> Flag" where
  "new_flag k t en dv vs = \<lparr>f_key = k, f_value_type = t, f_enabled = en, f_default_variant_key = dv,
     f_archived = False, f_variants = vs, f_rules = []\<rparr>"

fun spec_call :: "StoreCall \<Rightarrow> config \<Rightarrow> config option" where
  "spec_call (CreateFlag k t en dv vs) (fl, sg) =
     (if fl k = None \<and> dv \<in> v_key ` set vs \<and> distinct (map v_key vs)
         \<and> (\<forall>v\<in>set vs. variant_type_ok t (v_value v))
      then Some (fl(k \<mapsto> new_flag k t en dv vs), sg) else None)"
| "spec_call (UpdateFlag k en dv) (fl, sg) =
     (case fl k of None \<Rightarrow> None
      | Some f \<Rightarrow> if dv \<in> v_key ` set (f_variants f)
          then Some (fl(k \<mapsto> f\<lparr>f_enabled := en, f_default_variant_key := dv\<rparr>), sg) else None)"
| "spec_call (ArchiveFlag k a) (fl, sg) =
     (case fl k of None \<Rightarrow> None | Some f \<Rightarrow> Some (fl(k \<mapsto> f\<lparr>f_archived := a\<rparr>), sg))"
| "spec_call (DeleteFlag k) (fl, sg) =
     (case fl k of None \<Rightarrow> None | Some _ \<Rightarrow> Some (fl(k := None), sg))"
| "spec_call (UpsertVariant k v) (fl, sg) =
     (case fl k of None \<Rightarrow> None
      | Some f \<Rightarrow> if variant_type_ok (f_value_type f) (v_value v)
          then Some (fl(k \<mapsto> f\<lparr>f_variants := put_variant v (f_variants f)\<rparr>), sg) else None)"
| "spec_call (DeleteVariant k vk) (fl, sg) =
     (case fl k of None \<Rightarrow> None
      | Some f \<Rightarrow> Some (fl(k \<mapsto> f\<lparr>f_variants := filter (\<lambda>v. v_key v \<noteq> vk) (f_variants f)\<rparr>), sg))"
| "spec_call (UpsertSegment s) (fl, sg) = Some (fl, sg(s_key s \<mapsto> s))"
| "spec_call (DeleteSegment k) (fl, sg) =
     (case sg k of None \<Rightarrow> None | Some _ \<Rightarrow> Some (fl, sg(k := None)))"
| "spec_call (SetFlagRules k rs) (fl, sg) =
     (case fl k of None \<Rightarrow> None
      | Some f \<Rightarrow> if \<forall>r\<in>set rs. rule_valid (v_key ` set (f_variants f)) r \<and> weights_ok r
          then Some (fl(k \<mapsto> f\<lparr>f_rules := stored_rules 0 rs\<rparr>), sg) else None)"

fun call_fits :: "StoreCall \<Rightarrow> bool" where
  "call_fits (SetFlagRules k rs) = rules_fit rs"
| "call_fits _ = True"

section \<open>Reading one flag\<close>

lemma segment_at_row:
  "keys_ok db \<Longrightarrow> r \<in> set (db_segments db) \<Longrightarrow> segment_at db (sr_key r) = Some (view_segment db r)"
  by (auto simp: segment_at_Some)

lemma flag_at_row: "keys_ok db \<Longrightarrow> r \<in> set (db_flags db) \<Longrightarrow> flag_at db (fr_key r) = Some (view_flag db r)"
  by (auto simp: flag_at_Some)

text \<open>A change to what belongs to one row changes the flag of its key.\<close>

lemma flag_at_changed:
  assumes keys: "keys_ok db" and r0: "r0 \<in> set (db_flags db)" and rows: "db_flags db' = db_flags db"
    and other: "\<And>r. r \<in> set (db_flags db) \<Longrightarrow> fr_id r \<noteq> fr_id r0 \<Longrightarrow> view_flag db' r = view_flag db r"
  shows "flag_at db' = (flag_at db)(fr_key r0 \<mapsto> view_flag db' r0)"
proof (rule ext)
  fix k
  have find: "List.find (\<lambda>r. fr_key r = k) (db_flags db) = Some r \<longleftrightarrow> r \<in> set (db_flags db) \<and> fr_key r = k" for r
    using keys by (simp add: keys_ok_def find_key_Some)
  show "flag_at db' k = ((flag_at db)(fr_key r0 \<mapsto> view_flag db' r0)) k"
  proof (cases "k = fr_key r0")
    case True
    with find r0 have "List.find (\<lambda>r. fr_key r = k) (db_flags db) = Some r0" by simp
    with True show ?thesis by (simp add: flag_at_def rows)
  next
    case False
    have "view_flag db' r = view_flag db r"
      if "List.find (\<lambda>r. fr_key r = k) (db_flags db) = Some r" for r
    proof (rule other)
      from that find show "r \<in> set (db_flags db)" by blast
      with that find False r0 keys show "fr_id r \<noteq> fr_id r0"
        by (auto simp: keys_ok_def distinct_map dest: inj_onD)
    qed
    then show ?thesis
      using False by (cases "List.find (\<lambda>r. fr_key r = k) (db_flags db)") (auto simp: flag_at_def rows)
  qed
qed

lemma find_map_key: "(\<And>r. key (u r) = key r) \<Longrightarrow>
    List.find (\<lambda>r. key r = k) (map u rs) = map_option u (List.find (\<lambda>r. key r = k) rs)"
  by (induction rs) auto

text \<open>The columns of the row itself, updated in place.\<close>

lemma view_flags_update [simp]: "view_flag (db\<lparr>db_flags := x\<rparr>) = view_flag db"
  by (rule ext) (simp add: view_flag_def view_variants_def view_rules_def view_rule_def [abs_def]
      view_groups_def view_distributions_def)

lemma flag_at_update:
  assumes keys: "keys_ok db" and r0: "r0 \<in> set (db_flags db)" and key: "fr_key r0 = k0"
    and u: "\<And>r. fr_key (u r) = fr_key r"
  shows "flag_at (db\<lparr>db_flags := map (\<lambda>r. if fr_key r = k0 then u r else r) (db_flags db)\<rparr>)
    = (flag_at db)(k0 \<mapsto> view_flag db (u r0))"
proof (rule ext)
  fix k
  have find: "List.find (\<lambda>r. fr_key r = k) (map (\<lambda>r. if fr_key r = k0 then u r else r) (db_flags db))
      = map_option (\<lambda>r. if fr_key r = k0 then u r else r) (List.find (\<lambda>r. fr_key r = k) (db_flags db))"
    by (rule find_map_key) (simp add: u)
  have some: "List.find (\<lambda>r. fr_key r = k) (db_flags db) = Some r \<longleftrightarrow> r \<in> set (db_flags db) \<and> fr_key r = k" for r
    using keys by (simp add: keys_ok_def find_key_Some)
  show "flag_at (db\<lparr>db_flags := map (\<lambda>r. if fr_key r = k0 then u r else r) (db_flags db)\<rparr>) k
      = ((flag_at db)(k0 \<mapsto> view_flag db (u r0))) k"
  proof (cases "k = k0")
    case True
    with some r0 key have "List.find (\<lambda>r. fr_key r = k) (db_flags db) = Some r0" by simp
    with True key show ?thesis by (simp add: flag_at_def find [unfolded True])
  next
    case False
    then have "fr_key a \<noteq> k0" if "List.find (\<lambda>r. fr_key r = k) (db_flags db) = Some a" for a
      using that by (auto simp: find_Some_iff)
    with False show ?thesis
      by (cases "List.find (\<lambda>r. fr_key r = k) (db_flags db)") (auto simp: flag_at_def find)
  qed
qed

lemma find_snoc: "List.find P (xs @ [x]) = (case List.find P xs of Some y \<Rightarrow> Some y | None \<Rightarrow> if P x then Some x else None)"
  by (induction xs) auto

text \<open>A new row brings a flag without variants and rules.\<close>

lemma fresh_views:
  assumes "db_inv db"
  shows "view_variants db (db_next_id db) = []" and "view_rules db (db_next_id db) = []"
proof -
  have "db_next_id db \<notin> flag_ids db" using assms by (auto simp: db_inv_defs)
  then have "filter (\<lambda>v. vr_flag_id v = db_next_id db) (db_variants db) = []"
      "filter (\<lambda>r. rr_flag_id r = db_next_id db) (db_rules db) = []"
    unfolding filter_empty_conv using assms unfolding db_inv_def refs_ok_def by metis+
  then show "view_variants db (db_next_id db) = []" "view_rules db (db_next_id db) = []"
    by (simp_all add: view_variants_def view_rules_def)
qed

lemma flag_at_insert:
  assumes "db_inv db" and "flag_at db (fr_key r) = None" and "fr_id r = db_next_id db"
  shows "flag_at (db\<lparr>db_next_id := n, db_flags := db_flags db @ [r]\<rparr>)
    = (flag_at db)(fr_key r \<mapsto> \<lparr>f_key = fr_key r, f_value_type = row_value_type r,
        f_enabled = fr_enabled r, f_default_variant_key = fr_default_variant_key r,
        f_archived = fr_archived r, f_variants = [], f_rules = []\<rparr>)"
proof -
  have "view_flag (db\<lparr>db_next_id := n, db_flags := db_flags db @ [r]\<rparr>) = view_flag db"
    by (rule ext) (simp add: view_flag_def view_variants_def view_rules_def view_rule_def [abs_def]
      view_groups_def view_distributions_def)
  moreover have "view_flag db r = \<lparr>f_key = fr_key r, f_value_type = row_value_type r,
        f_enabled = fr_enabled r, f_default_variant_key = fr_default_variant_key r,
        f_archived = fr_archived r, f_variants = [], f_rules = []\<rparr>"
    using fresh_views [OF assms(1)] by (simp add: view_flag_def assms(3))
  ultimately show ?thesis
    using assms(2) by (intro ext) (auto simp: flag_at_def find_snoc split: option.splits)
qed

section \<open>Variants\<close>

definition variant_of :: "VariantRow \<Rightarrow> Variant" where
  "variant_of v = \<lparr>v_key = vr_key v, v_value = vr_value v\<rparr>"

lemma view_variants_alt: "view_variants db i = map variant_of (filter (\<lambda>v. vr_flag_id v = i) (db_variants db))"
  by (simp add: view_variants_def variant_of_def [abs_def])

lemma variant_of_key [simp]: "v_key (variant_of w) = vr_key w"
  by (simp add: variant_of_def)

lemma view_other_flags [simp]:
  "view_rules (db\<lparr>db_flags := x\<rparr>) = view_rules db"
  "view_variants (db\<lparr>db_flags := x\<rparr>) = view_variants db"
  "view_segment (db\<lparr>db_flags := x\<rparr>) = view_segment db"
  by (rule ext, simp add: view_rules_def view_rule_def [abs_def] view_groups_def
      view_distributions_def view_segment_def view_variants_def)+

lemma view_other_variants [simp]:
  "view_rules (db\<lparr>db_variants := x\<rparr>) = view_rules db"
  "view_segment (db\<lparr>db_variants := x\<rparr>) = view_segment db"
  by (rule ext, simp add: view_rules_def view_rule_def [abs_def] view_groups_def
      view_distributions_def view_segment_def)+

lemma variant_known_row:
  "list_ex (variant_at i k) (db_variants db) \<longleftrightarrow> k \<in> v_key ` set (view_variants db i)"
  by (auto simp: list_ex_iff variant_at_def view_variants_alt image_iff)

lemma insert_variant_view:
  "insert_variant i v db = (if v_key v \<in> v_key ` set (view_variants db i)
     then Err (Sqlx ''variants_flag_id_key_key'')
     else Ok ((), bump 1 (db\<lparr>db_variants := db_variants db
       @ [\<lparr>vr_flag_id = i, vr_key = v_key v, vr_value = v_value v\<rparr>]\<rparr>)))"
  by (simp add: insert_variant_def variant_known_row)

lemma each_insert_variant:
  "each_tx (insert_variant i) vs db =
     (if distinct (map v_key vs) \<and> v_key ` set vs \<inter> v_key ` set (view_variants db i) = {}
      then Ok ((), bump (length vs) (db\<lparr>db_variants := db_variants db
        @ map (\<lambda>v. \<lparr>vr_flag_id = i, vr_key = v_key v, vr_value = v_value v\<rparr>) vs\<rparr>))
      else Err (Sqlx ''variants_flag_id_key_key''))"
proof (induction vs arbitrary: db)
  case Nil
  show ?case by (simp add: bump_def)
next
  case (Cons v vs)
  have "view_variants (bump 1 (db\<lparr>db_variants := db_variants db
      @ [\<lparr>vr_flag_id = i, vr_key = v_key v, vr_value = v_value v\<rparr>]\<rparr>)) i = view_variants db i @ [v]"
    by (simp add: view_variants_alt variant_of_def)
  then show ?case
    by (auto simp: insert_variant_view [of i v db] Cons.IH bump_def)
qed

lemma upsert_variant_view:
  "view_variants (upsert_variant_row i v db) j =
     (if j = i then put_variant v (view_variants db i) else view_variants db j)"
proof (cases "v_key v \<in> v_key ` set (view_variants db i)")
  case False
  then show ?thesis
    by (simp add: upsert_variant_row_def variant_known_row put_variant_def)
      (simp add: view_variants_alt variant_of_def)
next
  case True
  let ?u = "\<lambda>r. if variant_at i (v_key v) r then r\<lparr>vr_value := v_value v\<rparr> else r"
  have upd: "map variant_of (filter (\<lambda>w. vr_flag_id w = j) (map ?u ws)) =
      (if j = i then map (\<lambda>w. if v_key w = v_key v then v else w) (map variant_of (filter (\<lambda>w. vr_flag_id w = i) ws))
       else map variant_of (filter (\<lambda>w. vr_flag_id w = j) ws))" for ws j
    by (induction ws) (auto simp: variant_at_def variant_of_def)
  show ?thesis
    using True by (simp add: upsert_variant_row_def variant_known_row put_variant_def)
      (simp add: view_variants_alt upd del: map_map)
qed

lemma delete_variant_view:
  "view_variants (db\<lparr>db_variants := filter (\<lambda>v. \<not> variant_at i k v) (db_variants db)\<rparr>) j =
     (if j = i then filter (\<lambda>v. v_key v \<noteq> k) (view_variants db i) else view_variants db j)"
  by (auto simp: view_variants_alt filter_map o_def variant_at_def intro!: arg_cong [where f = "map variant_of"] filter_cong)

lemma view_variants_distinct:
  assumes "keys_ok db"
  shows "distinct (map v_key (view_variants db i))"
proof -
  have "distinct (map (\<lambda>v. (vr_flag_id v, vr_key v)) (filter (\<lambda>v. vr_flag_id v = i) (db_variants db)))"
    using assms by (simp add: keys_ok_def distinct_map_filter)
  then have "distinct (map vr_key (filter (\<lambda>v. vr_flag_id v = i) (db_variants db)))"
    by (auto simp: distinct_map inj_on_def)
  then show ?thesis by (simp add: view_variants_alt o_def)
qed

text \<open>
  Bringing the variants of a flag to a desired list with distinct keys leaves exactly the
  desired variants, whatever was there.
\<close>

lemma put_variant_keys: "v_key ` set (put_variant v vs) = insert (v_key v) (v_key ` set vs)"
  by (auto simp: put_variant_def image_iff split: if_splits)

lemma put_variant_distinct: "distinct (map v_key vs) \<Longrightarrow> distinct (map v_key (put_variant v vs))"
proof -
  have "map v_key (map (\<lambda>w. if v_key w = v_key v then v else w) vs) = map v_key vs" by simp
  then show "distinct (map v_key vs) \<Longrightarrow> ?thesis"
    unfolding put_variant_def by (auto simp del: map_map)
qed

lemma put_variant_set: "set (put_variant v vs) = insert v {w \<in> set vs. v_key w \<noteq> v_key v}"
  by (auto simp: put_variant_def) (metis imageI)

lemma put_variants_set:
  "distinct (map v_key vs) \<Longrightarrow>
     set (foldl (\<lambda>ws v. put_variant v ws) ws vs) = set vs \<union> {w \<in> set ws. v_key w \<notin> v_key ` set vs}"
  by (induction vs arbitrary: ws) (auto simp: put_variant_set)

lemma put_variants_distinct:
  "distinct (map v_key ws) \<Longrightarrow> distinct (map v_key (foldl (\<lambda>ws v. put_variant v ws) ws vs))"
  by (induction vs arbitrary: ws) (auto intro: put_variant_distinct)

lemma sort_variants_cong:
  assumes "set vs = set ws" and "distinct (map v_key vs)" and "distinct (map v_key ws)"
  shows "sort_key v_key vs = sort_key v_key ws"
proof -
  have "distinct vs" "distinct ws" using assms by (simp_all add: distinct_map)
  then have "mset vs = mset ws" using assms(1) by (simp add: set_eq_iff_mset_eq_distinct)
  then show ?thesis
    by (intro sort_key_inj_key_eq) (use assms in \<open>auto simp: distinct_map\<close>)
qed

lemma reconcile_variants:
  assumes "distinct (map v_key vs)" and "distinct (map v_key ws)"
  shows "sort_key v_key (foldl (\<lambda>ws v. put_variant v ws)
      (filter (\<lambda>w. v_key w \<in> v_key ` set vs) ws) vs) = sort_key v_key vs"
proof (rule sort_variants_cong)
  show "set (foldl (\<lambda>ws v. put_variant v ws) (filter (\<lambda>w. v_key w \<in> v_key ` set vs) ws) vs) = set vs"
    by (auto simp: put_variants_set [OF assms(1)])
  show "distinct (map v_key (foldl (\<lambda>ws v. put_variant v ws) (filter (\<lambda>w. v_key w \<in> v_key ` set vs) ws) vs))"
    by (rule put_variants_distinct) (simp add: distinct_map_filter assms(2))
qed (rule assms)

section \<open>Segments\<close>

lemma view_segment_frame:
  "db_segment_constraints db' = db_segment_constraints db \<Longrightarrow> view_segment db' = view_segment db"
  by (rule ext) (simp add: view_segment_def)

lemma segment_at_frame:
  "db_segments db' = db_segments db \<Longrightarrow> db_segment_constraints db' = db_segment_constraints db
    \<Longrightarrow> segment_at db' = segment_at db"
  by (rule ext) (simp add: segment_at_def view_segment_frame [of db' db])

lemma flag_at_frame:
  "db_flags db' = db_flags db \<Longrightarrow> db_variants db' = db_variants db \<Longrightarrow> db_rules db' = db_rules db
    \<Longrightarrow> db_distributions db' = db_distributions db \<Longrightarrow> db_constraints db' = db_constraints db
    \<Longrightarrow> flag_at db' = flag_at db"
proof -
  assume same: "db_flags db' = db_flags db" "db_variants db' = db_variants db" "db_rules db' = db_rules db"
    "db_distributions db' = db_distributions db" "db_constraints db' = db_constraints db"
  have "view_flag db' = view_flag db"
    by (rule ext) (simp add: view_flag_def view_variants_def view_rules_def view_rule_def [abs_def]
        view_groups_def view_distributions_def same)
  then show ?thesis by (intro ext) (simp add: flag_at_def same)
qed

definition segment_constraint_row :: "uuid \<Rightarrow> Constraint \<Rightarrow> SegmentConstraintRow" where
  "segment_constraint_row i c = \<lparr>sc_segment_id = i, sc_attribute = c_attribute c,
     sc_operator = operator_to_str (c_operator c), sc_values = JArray (c_values c)\<rparr>"

lemma row_segment_constraint_row [simp]: "row_segment_constraint (segment_constraint_row i c) = c"
  by (simp add: row_segment_constraint_def segment_constraint_row_def constraint_of_row_def codec_simps)

lemma segment_constraint_row_id [simp]: "sc_segment_id (segment_constraint_row i c) = i"
  by (simp add: segment_constraint_row_def)

lemma each_segment_constraint:
  "each_tx (insert_segment_constraint i) cs db = Ok ((), bump (length cs)
     (db\<lparr>db_segment_constraints := db_segment_constraints db @ map (segment_constraint_row i) cs\<rparr>))"
  by (induction cs arbitrary: db)
    (auto simp: insert_segment_constraint_def segment_constraint_row_def bump_def)

lemma upsert_segment_row_effect:
  assumes "upsert_segment_row s db = (i, db1)"
  shows "\<exists>r\<in>set (db_segments db1). sr_id r = i \<and> sr_key r = s_key s \<and> sr_name r = s_name s"
    and "r \<in> set (db_segments db1) \<Longrightarrow> sr_key r \<noteq> s_key s \<Longrightarrow> r \<in> set (db_segments db)"
    and "r \<in> set (db_segments db) \<Longrightarrow> sr_key r \<noteq> s_key s \<Longrightarrow> r \<in> set (db_segments db1)"
    and "db_segment_constraints db1 = db_segment_constraints db"
    and "flag_at db1 = flag_at db"
proof -
  show "\<exists>r\<in>set (db_segments db1). sr_id r = i \<and> sr_key r = s_key s \<and> sr_name r = s_name s"
  proof (cases "List.find (\<lambda>r. sr_key r = s_key s) (db_segments db)")
    case None
    with assms show ?thesis by (auto simp: upsert_segment_row_def)
  next
    case (Some r)
    then have "r \<in> set (db_segments db)" "sr_key r = s_key s" by (auto simp: find_Some_iff)
    with Some assms show ?thesis
      by (auto simp: upsert_segment_row_def intro!: bexI [where x = "r\<lparr>sr_name := s_name s\<rparr>"])
  qed
qed (use assms in \<open>auto simp: upsert_segment_row_def split: option.splits if_splits intro!: flag_at_frame\<close>)

theorem upsert_segment_effect:
  assumes inv: "db_inv db"
  shows "\<exists>db'. upsert_segment_tx s db = Ok ((), db') \<and> db_inv db' \<and> flag_at db' = flag_at db
    \<and> segment_at db' = (segment_at db)(s_key s \<mapsto> s)"
proof -
  obtain i db1 where row: "upsert_segment_row s db = (i, db1)" by fastforce
  define db' where "db' = bump (Suc (length (s_constraints s))) (db1\<lparr>db_segment_constraints :=
    filter (\<lambda>c. sc_segment_id c \<noteq> i) (db_segment_constraints db1) @ map (segment_constraint_row i) (s_constraints s)\<rparr>)"
  have ok: "upsert_segment_tx s db = Ok ((), db')"
    by (simp add: upsert_segment_tx_def row each_segment_constraint db'_def bump_def)
  have inv1: "db_inv db1" "i \<in> segment_ids db1" using upsert_segment_row_inv [OF inv row] by auto
  note own = upsert_segment_row_effect(1) [OF row] and rest = upsert_segment_row_effect(2) [OF row]
    and sub = upsert_segment_row_effect(3) [OF row] and cs = upsert_segment_row_effect(4) [OF row]
    and flags = upsert_segment_row_effect(5) [OF row]
  have inv': "db_inv db'" by (rule upsert_segment_tx_inv [OF inv ok])
  have segs: "db_segments db' = db_segments db1" by (simp add: db'_def)
  have keys': "keys_ok db'" using inv' by (simp add: db_inv_def)
  obtain r0 where r0: "r0 \<in> set (db_segments db1)" "sr_id r0 = i" "sr_key r0 = s_key s" "sr_name r0 = s_name s"
    using own by blast
  have view0: "view_segment db' r0 = s"
    by (simp add: view_segment_def r0 db'_def filter_empty_conv filter_map o_def)
  have view: "view_segment db' r = view_segment db r" if "sr_id r \<noteq> i" for r
    using that by (auto simp: view_segment_def db'_def cs filter_empty_conv
        intro!: arg_cong [where f = "map row_segment_constraint"] filter_cong)
  have "segment_at db' k = ((segment_at db)(s_key s \<mapsto> s)) k" for k
  proof (cases "k = s_key s")
    case True
    with r0 view0 show ?thesis by (auto simp: segment_at_Some [OF keys'] segs)
  next
    case False
    show ?thesis
    proof (cases "segment_at db k")
      case None
      with False rest have "segment_at db' k = None" by (auto simp: segment_at_None segs)
      with False None show ?thesis by simp
    next
      case (Some v)
      then obtain r where r: "r \<in> set (db_segments db)" "sr_key r = k" "v = view_segment db r"
        using inv by (auto simp: segment_at_Some db_inv_def)
      then have "sr_id r \<noteq> i"
        using sub [of r] False r0 inv1(1) by (auto simp: db_inv_defs distinct_map dest: inj_onD)
      with r sub [of r] False Some show ?thesis
        by (auto simp: segment_at_Some [OF keys'] segs view)
    qed
  qed
  moreover have "flag_at db' = flag_at db"
    using flags by (simp add: db'_def) (simp add: flag_at_frame [of "db1\<lparr>db_segment_constraints := _\<rparr>" db1])
  ultimately show ?thesis using ok inv' by blast
qed

theorem delete_segment_effect:
  assumes inv: "db_inv db"
  shows "segment_at (snd (delete_segment_rows k db)) = (segment_at db)(k := None)"
    and "flag_at (snd (delete_segment_rows k db)) = flag_at db"
    and "fst (delete_segment_rows k db) = 0 \<longleftrightarrow> segment_at db k = None"
proof -
  let ?db = "snd (delete_segment_rows k db)"
  have segs: "db_segments ?db = filter (\<lambda>r. sr_key r \<noteq> k) (db_segments db)"
    by (simp add: delete_segment_rows_def Let_def)
  have keep: "view_segment ?db r = view_segment db r" if r: "r \<in> set (db_segments db)" "sr_key r \<noteq> k" for r
  proof -
    have "sr_id r \<notin> sr_id ` {r \<in> set (db_segments db). sr_key r = k}"
      using inv r by (auto simp: db_inv_defs distinct_map dest: inj_onD)
    then show ?thesis
      by (simp add: view_segment_def delete_segment_rows_def Let_def filter_gone del: filter_filter)
  qed
  have keys: "keys_ok db" "keys_ok ?db"
    using inv delete_segment_rows_inv [OF inv, of k] by (simp_all add: db_inv_def)
  have "segment_at ?db j = ((segment_at db)(k := None)) j" for j
  proof (cases "segment_at ?db j")
    case None
    then have "j = k \<or> segment_at db j = None" by (auto simp: segment_at_None segs)
    with None show ?thesis by auto
  next
    case (Some v)
    then obtain r where r: "r \<in> set (db_segments db)" "sr_key r = j" "j \<noteq> k" "v = view_segment ?db r"
      by (auto simp: segment_at_Some keys segs)
    with Some keep [of r] segment_at_row [OF keys(1) r(1)] show ?thesis by simp
  qed
  then show "segment_at ?db = (segment_at db)(k := None)" by blast
  show "flag_at ?db = flag_at db"
    by (rule flag_at_frame) (simp_all add: delete_segment_rows_def Let_def)
  show "fst (delete_segment_rows k db) = 0 \<longleftrightarrow> segment_at db k = None"
    by (auto simp: delete_segment_rows_def Let_def segment_at_None filter_empty_conv)
qed

theorem delete_flag_effect:
  assumes inv: "db_inv db"
  shows "flag_at (snd (delete_flag_rows k db)) = (flag_at db)(k := None)"
    and "segment_at (snd (delete_flag_rows k db)) = segment_at db"
    and "fst (delete_flag_rows k db) = 0 \<longleftrightarrow> flag_at db k = None"
proof -
  let ?db = "snd (delete_flag_rows k db)" and ?gone = "fr_id ` {r \<in> set (db_flags db). fr_key r = k}"
  have flags: "db_flags ?db = filter (\<lambda>r. fr_key r \<noteq> k) (db_flags db)"
    by (simp add: delete_flag_rows_def Let_def)
  have keys: "keys_ok db" "keys_ok ?db"
    using inv delete_flag_rows_inv [OF inv, of k] by (simp_all add: db_inv_def)
  let ?mid = "db\<lparr>db_flags := filter (\<lambda>r. fr_key r \<noteq> k) (db_flags db),
      db_variants := filter (\<lambda>v. vr_flag_id v \<notin> ?gone) (db_variants db)\<rparr>"
  have mid: "keys_ok ?mid" "view_rules ?mid = view_rules db"
    using keys(1) by (auto simp: keys_ok_def distinct_map_filter view_rules_def [abs_def]
        view_rule_def [abs_def] view_groups_def view_distributions_def)
  have keep: "view_flag ?db r = view_flag db r" if r: "r \<in> set (db_flags db)" "fr_key r \<noteq> k" for r
  proof -
    have out: "fr_id r \<notin> ?gone"
      using keys(1) r by (auto simp: keys_ok_def distinct_map dest: inj_onD)
    have "view_rules ?db (fr_id r) = view_rules (delete_rule_rows (\<lambda>r. rr_flag_id r \<in> ?gone) ?mid) (fr_id r)"
      by (simp add: delete_flag_rows_def Let_def)
    also have "\<dots> = view_rules db (fr_id r)"
      using out by (simp add: delete_rules_view [OF mid(1), of "\<lambda>i. i \<in> ?gone"] mid(2))
    finally show ?thesis
      using out by (simp add: view_flag_def view_variants_def delete_flag_rows_def Let_def
          filter_gone del: filter_filter)
  qed
  have "flag_at ?db j = ((flag_at db)(k := None)) j" for j
  proof (cases "flag_at ?db j")
    case None
    then have "j = k \<or> flag_at db j = None" by (auto simp: flag_at_None flags)
    with None show ?thesis by auto
  next
    case (Some v)
    then obtain r where r: "r \<in> set (db_flags db)" "fr_key r = j" "j \<noteq> k" "v = view_flag ?db r"
      by (auto simp: flag_at_Some keys flags)
    with Some keep [of r] flag_at_row [OF keys(1) r(1)] show ?thesis by simp
  qed
  then show "flag_at ?db = (flag_at db)(k := None)" by blast
  show "segment_at ?db = segment_at db"
    by (rule segment_at_frame) (simp_all add: delete_flag_rows_def Let_def)
  show "fst (delete_flag_rows k db) = 0 \<longleftrightarrow> flag_at db k = None"
    by (auto simp: delete_flag_rows_def Let_def flag_at_None filter_empty_conv)
qed

section \<open>Flags written as a whole\<close>

lemma upsert_flag_row_effect:
  assumes inv: "db_inv db" and row: "upsert_flag_row f db = (i, db1)"
  shows "db_inv db1"
    and "\<exists>r\<in>set (db_flags db1). fr_id r = i \<and> fr_key r = f_key f \<and> row_value_type r = f_value_type f
      \<and> fr_enabled r = f_enabled f \<and> fr_default_variant_key r = f_default_variant_key f
      \<and> fr_archived r = f_archived f"
    and "k \<noteq> f_key f \<Longrightarrow> flag_at db1 k = flag_at db k"
    and "segment_at db1 = segment_at db"
proof -
  show "db_inv db1" using upsert_flag_row_inv [OF inv row] by simp
  have keys: "keys_ok db" using inv by (simp add: db_inv_def)
  show "\<exists>r\<in>set (db_flags db1). fr_id r = i \<and> fr_key r = f_key f \<and> row_value_type r = f_value_type f
      \<and> fr_enabled r = f_enabled f \<and> fr_default_variant_key r = f_default_variant_key f
      \<and> fr_archived r = f_archived f"
  proof (cases "List.find (\<lambda>r. fr_key r = f_key f) (db_flags db)")
    case None
    with row show ?thesis
      by (auto simp: upsert_flag_row_def row_value_type_def codec_simps)
  next
    case (Some r)
    then have "r \<in> set (db_flags db)" "fr_key r = f_key f" by (auto simp: find_Some_iff)
    with Some row show ?thesis
      by (auto simp: upsert_flag_row_def row_value_type_def codec_simps intro!: bexI [where
          x = "r\<lparr>fr_value_type := value_type_to_str (f_value_type f), fr_enabled := f_enabled f,
            fr_default_variant_key := f_default_variant_key f, fr_archived := f_archived f\<rparr>"])
  qed
  show "flag_at db1 k = flag_at db k" if k: "k \<noteq> f_key f"
  proof (cases "List.find (\<lambda>r. fr_key r = f_key f) (db_flags db)")
    case None
    then have "flag_at db (f_key f) = None" by (simp add: flag_at_def)
    with None row k show ?thesis
      by (auto simp: upsert_flag_row_def flag_at_insert [OF inv])
  next
    case (Some r)
    then have r: "r \<in> set (db_flags db)" and key: "fr_key r = f_key f" by (auto simp: find_Some_iff)
    have "db1 = bump 2 (db\<lparr>db_flags := map (\<lambda>r'. if fr_key r' = f_key f
        then r'\<lparr>fr_value_type := value_type_to_str (f_value_type f), fr_enabled := f_enabled f,
          fr_default_variant_key := f_default_variant_key f, fr_archived := f_archived f\<rparr> else r') (db_flags db)\<rparr>)"
      using row Some by (simp add: upsert_flag_row_def key)
    then show ?thesis using k key by (simp add: flag_at_update [OF keys r key])
  qed
  show "segment_at db1 = segment_at db"
    using row by (intro segment_at_frame) (auto simp: upsert_flag_row_def split: option.splits)
qed

lemma view_flag_parts:
  "fr_id r \<noteq> i \<Longrightarrow> view_variants db' (fr_id r) = view_variants db (fr_id r)
    \<Longrightarrow> view_rules db' (fr_id r) = view_rules db (fr_id r) \<Longrightarrow> view_flag db' r = view_flag db r"
  by (simp add: view_flag_def)

lemma upsert_variants_effect:
  "db_flags (foldl (\<lambda>db v. upsert_variant_row i v db) db vs) = db_flags db
   \<and> db_segments (foldl (\<lambda>db v. upsert_variant_row i v db) db vs) = db_segments db
   \<and> db_segment_constraints (foldl (\<lambda>db v. upsert_variant_row i v db) db vs) = db_segment_constraints db
   \<and> view_rules (foldl (\<lambda>db v. upsert_variant_row i v db) db vs) = view_rules db
   \<and> (\<forall>j. view_variants (foldl (\<lambda>db v. upsert_variant_row i v db) db vs) j =
       (if j = i then foldl (\<lambda>ws v. put_variant v ws) (view_variants db i) vs else view_variants db j))"
proof (induction vs arbitrary: db)
  case Nil
  show ?case by simp
next
  case (Cons v vs)
  have "db_flags (upsert_variant_row i v db) = db_flags db"
    "db_segments (upsert_variant_row i v db) = db_segments db"
    "db_segment_constraints (upsert_variant_row i v db) = db_segment_constraints db"
    "view_rules (upsert_variant_row i v db) = view_rules db"
    by (simp_all add: upsert_variant_row_def)
  then show ?case by (simp add: Cons.IH upsert_variant_view)
qed

text \<open>
  What \<open>upsert_flag_tx\<close> stores of a flag: the variants that were there and are still wanted come
  first, the rules in their stored form.
\<close>

definition stored_flag :: "Flag option \<Rightarrow> Flag \<Rightarrow> Flag" where
  "stored_flag old f = f\<lparr>f_variants := foldl (\<lambda>ws v. put_variant v ws)
       (case old of None \<Rightarrow> []
        | Some g \<Rightarrow> filter (\<lambda>w. v_key w \<in> v_key ` set (f_variants f)) (f_variants g)) (f_variants f),
     f_rules := stored_rules 0 (f_rules f)\<rparr>"

lemma upsert_flag_row_variants:
  assumes inv: "db_inv db" and row: "upsert_flag_row f db = (i, db1)"
  shows "view_variants db1 i = (case flag_at db (f_key f) of None \<Rightarrow> [] | Some g \<Rightarrow> f_variants g)"
proof (cases "List.find (\<lambda>r. fr_key r = f_key f) (db_flags db)")
  case None
  with row have "view_variants db1 i = view_variants db (db_next_id db)"
    by (auto simp: upsert_flag_row_def view_variants_def)
  with None show ?thesis by (simp add: flag_at_def fresh_views [OF inv])
next
  case (Some r)
  with row show ?thesis by (auto simp: upsert_flag_row_def flag_at_def view_flag_def)
qed

theorem upsert_flag_effect:
  assumes inv: "db_inv db" and fit: "rules_fit (f_rules f)"
  shows "\<forall>r\<in>set (f_rules f). weights_ok r \<Longrightarrow> \<exists>db'. upsert_flag_tx f db = Ok ((), db') \<and> db_inv db'
      \<and> flag_at db' = (flag_at db)(f_key f \<mapsto> stored_flag (flag_at db (f_key f)) f)
      \<and> segment_at db' = segment_at db"
    and "\<not> (\<forall>r\<in>set (f_rules f). weights_ok r) \<Longrightarrow> \<exists>e. upsert_flag_tx f db = Err e"
proof -
  obtain i db1 where row: "upsert_flag_row f db = (i, db1)" by fastforce
  define db2 where "db2 = bump 1 (db1\<lparr>db_variants := filter (\<lambda>v. \<not> (vr_flag_id v = i
    \<and> \<not> List.member (map v_key (f_variants f)) (vr_key v))) (db_variants db1)\<rparr>)"
  define db3 where "db3 = foldl (\<lambda>db v. upsert_variant_row i v db) db2 (f_variants f)"
  have tx: "upsert_flag_tx f db = replace_rules_tx i (f_rules f) db3"
    by (simp add: upsert_flag_tx_def row db2_def db3_def)
  note row1 = upsert_flag_row_effect [OF inv row]
  obtain r0 where r0: "r0 \<in> set (db_flags db1)" "fr_id r0 = i" "fr_key r0 = f_key f"
      "row_value_type r0 = f_value_type f" "fr_enabled r0 = f_enabled f"
      "fr_default_variant_key r0 = f_default_variant_key f" "fr_archived r0 = f_archived f"
    using row1(2) by blast
  have flags: "db_flags db3 = db_flags db1" "db_segments db3 = db_segments db1"
      "db_segment_constraints db3 = db_segment_constraints db1" "view_rules db3 = view_rules db1"
    using upsert_variants_effect [of i db2 "f_variants f"] by (simp_all add: db3_def db2_def)
  have "view_variants db2 j = (if j = i then filter (\<lambda>w. v_key w \<in> v_key ` set (f_variants f)) (view_variants db1 i)
      else view_variants db1 j)" for j
    by (auto simp: db2_def view_variants_alt filter_map o_def intro!: arg_cong [where f = "map variant_of"] filter_cong)
  then have variants: "view_variants db3 j = (if j = i then f_variants (stored_flag (flag_at db (f_key f)) f)
      else view_variants db1 j)" for j
    using upsert_variants_effect [of i db2 "f_variants f"]
    by (simp add: db3_def stored_flag_def upsert_flag_row_variants [OF inv row] split: option.splits)
  have "db_inv db2 \<and> i \<in> flag_ids db2"
    using upsert_flag_row_inv [OF inv row] by (simp add: db2_def filter_variants_inv)
  then have "db_inv db3 \<and> i \<in> flag_ids db3"
    unfolding db3_def
    by (rule foldl_inv [where P = "\<lambda>db. db_inv db \<and> i \<in> flag_ids db", rotated])
      (rule upsert_variant_row_inv)
  then have inv3: "db_inv db3" "i \<in> flag_ids db3" by simp_all
  show "\<not> (\<forall>r\<in>set (f_rules f). weights_ok r) \<Longrightarrow> \<exists>e. upsert_flag_tx f db = Err e"
    unfolding tx by (rule replace_rules_effect(2) [OF inv3 fit])
  assume ok: "\<forall>r\<in>set (f_rules f). weights_ok r"
  from replace_rules_effect(1) [OF inv3 fit ok]
  obtain db' where
    db': "replace_rules_tx i (f_rules f) db3 = Ok ((), db')" "db_inv db'" "db_flags db' = db_flags db3"
      "db_variants db' = db_variants db3" "db_segments db' = db_segments db3"
      "db_segment_constraints db' = db_segment_constraints db3"
      "\<And>k. view_rules db' k = (if k = i then stored_rules 0 (f_rules f) else view_rules db3 k)" by blast
  have vs': "view_variants db' j = view_variants db3 j" for j by (simp add: view_variants_def db'(4))
  have keys1: "keys_ok db1" using row1(1) by (simp add: db_inv_def)
  have "flag_at db' = (flag_at db1)(fr_key r0 \<mapsto> view_flag db' r0)"
  proof (rule flag_at_changed [OF keys1 r0(1)])
    show "db_flags db' = db_flags db1" by (simp add: db'(3) flags)
    show "view_flag db' r = view_flag db1 r" if "fr_id r \<noteq> fr_id r0" for r
      using that r0(2) by (simp add: view_flag_def vs' variants db'(7) flags)
  qed
  moreover have "view_flag db' r0 = stored_flag (flag_at db (f_key f)) f"
    by (simp add: view_flag_def vs' variants db'(7) r0) (simp add: stored_flag_def)
  moreover have "(flag_at db1)(f_key f \<mapsto> g) = (flag_at db)(f_key f \<mapsto> g)" for g
    using row1(3) by (intro ext) auto
  moreover have "segment_at db' = segment_at db"
    using row1(4) segment_at_frame [of db' db1] by (simp add: db'(5,6) flags)
  ultimately show "\<exists>db'. upsert_flag_tx f db = Ok ((), db') \<and> db_inv db'
      \<and> flag_at db' = (flag_at db)(f_key f \<mapsto> stored_flag (flag_at db (f_key f)) f)
      \<and> segment_at db' = segment_at db"
    using tx db'(1,2) r0(3) by auto
qed

text \<open>Up to the order of variants and the ranks, the stored flag is the flag.\<close>

definition flag_fits :: "Flag \<Rightarrow> bool" where
  "flag_fits f \<longleftrightarrow> rules_fit (f_rules f) \<and> distinct (map v_key (f_variants f))
     \<and> (\<forall>r\<in>set (f_rules f). \<forall>g\<in>set (r_constraint_groups r). g_constraints g \<noteq> [])"

lemma stored_rules_same:
  "\<forall>r\<in>set rs. \<forall>g\<in>set (r_constraint_groups r). g_constraints g \<noteq> [] \<Longrightarrow>
     map (\<lambda>r. r\<lparr>r_rank := 0\<rparr>) (stored_rules n rs) = map (\<lambda>r. r\<lparr>r_rank := 0\<rparr>) rs"
  by (induction rs arbitrary: n) (simp_all add: stored_rule_def filter_id_conv)

lemma stored_flag_same:
  assumes "flag_fits f" and "\<And>g. old = Some g \<Longrightarrow> distinct (map v_key (f_variants g))"
  shows "same_flag (stored_flag old f) f"
proof -
  have "sort_key v_key (f_variants (stored_flag old f)) = sort_key v_key (f_variants f)"
  proof (cases old)
    case None
    with assms(1) reconcile_variants [of "f_variants f" "[]"] show ?thesis
      by (simp add: stored_flag_def flag_fits_def)
  next
    case (Some g)
    with assms reconcile_variants [of "f_variants f" "f_variants g"] show ?thesis
      by (simp add: stored_flag_def flag_fits_def)
  qed
  with assms(1) stored_rules_same [of "f_rules f" 0] show ?thesis
    by (simp add: same_flag_def stored_flag_def flag_fits_def)
qed

lemma flag_at_variants: "keys_ok db \<Longrightarrow> flag_at db k = Some g \<Longrightarrow> distinct (map v_key (f_variants g))"
  by (auto simp: flag_at_Some view_flag_def view_variants_distinct)

section \<open>The refinement\<close>

text \<open>The result of a call, seen through \<^const>\<open>config\<close>.\<close>

definition refines :: "unit tx \<Rightarrow> config option \<Rightarrow> bool" where
  "refines r c = (case r of Err _ \<Rightarrow> c = None | Ok (_, db) \<Rightarrow> c = Some (config db))"

lemma refines_simps [simp]:
  "refines (Err e) c \<longleftrightarrow> c = None" "refines (Ok (u, db)) c \<longleftrightarrow> c = Some (config db)"
  by (simp_all add: refines_def)

lemma config_record [simp]: "config (record_change a b c d e db) = config db"
  by (simp add: config_def)

lemma flag_lookup:
  "List.find (\<lambda>r. fr_key r = k) (db_flags db) = None \<longleftrightarrow> flag_at db k = None"
  "List.find (\<lambda>r. fr_key r = k) (db_flags db) = Some r \<Longrightarrow>
     r \<in> set (db_flags db) \<and> fr_key r = k \<and> flag_at db k = Some (view_flag db r)"
  by (auto simp: flag_at_def find_Some_iff)

lemma variant_keys_view: "set (variant_keys i db) = v_key ` set (view_variants db i)"
  by (simp add: variant_keys_def view_variants_def image_image)

lemma create_flag_refines:
  assumes inv: "db_inv db"
  shows "refines (create_flag actor k t en dv vs db) (spec_call (CreateFlag k t en dv vs) (config db))"
proof -
  have dv: "list_all (\<lambda>v. v_key v \<noteq> dv) vs \<longleftrightarrow> dv \<notin> v_key ` set vs"
    by (auto simp: list_all_iff)
  have tys: "check_all (check_variant_type t) vs = Ok () \<longleftrightarrow> (\<forall>v\<in>set vs. variant_type_ok t (v_value v))"
    by (simp add: store_simps)
  have used: "list_ex (\<lambda>r. fr_key r = k) (db_flags db) \<longleftrightarrow> flag_at db k \<noteq> None"
    by (auto simp: list_ex_iff flag_at_None)
  let ?row = "\<lparr>fr_id = db_next_id db, fr_key = k, fr_value_type = value_type_to_str t, fr_enabled = en,
    fr_default_variant_key = dv, fr_archived = False\<rparr>"
  let ?db1 = "bump 1 (db\<lparr>db_next_id := Suc (db_next_id db), db_flags := db_flags db @ [?row]\<rparr>)"
  let ?vs = "map (\<lambda>v. \<lparr>vr_flag_id = db_next_id db, vr_key = v_key v, vr_value = v_value v\<rparr>) vs"
  let ?db2 = "bump (length vs) (?db1\<lparr>db_variants := db_variants ?db1 @ ?vs\<rparr>)"
  have new: "flag_at ?db2 = (flag_at db)(k \<mapsto> new_flag k t en dv vs)" if none: "flag_at db k = None"
  proof -
    have "insert_flag k t en dv db = Ok (db_next_id db, ?db1)"
      using none by (simp add: insert_flag_def used)
    from insert_flag_inv [OF inv this] have inv1: "db_inv ?db1" by simp
    have "view_variants ?db1 (db_next_id db) = view_variants db (db_next_id db)"
      by (simp add: view_variants_def)
    then have fresh: "view_variants ?db1 (db_next_id db) = []" by (simp add: fresh_views [OF inv])
    have vs2: "view_variants ?db2 j = view_variants ?db1 j @ (if j = db_next_id db then vs else [])" for j
      by (auto simp: view_variants_alt filter_map o_def variant_of_def filter_empty_conv intro: map_idI)
    have rules: "view_rules ?db2 = view_rules db"
      by (rule ext) (simp add: view_rules_def view_rule_def [abs_def] view_groups_def view_distributions_def)
    have "flag_at ?db2 = (flag_at ?db1)(fr_key ?row \<mapsto> view_flag ?db2 ?row)"
    proof (rule flag_at_changed)
      show "keys_ok ?db1" using inv1 by (simp add: db_inv_def)
      show "?row \<in> set (db_flags ?db1)" "db_flags ?db2 = db_flags ?db1" by simp_all
      show "view_flag ?db2 r = view_flag ?db1 r" if "fr_id r \<noteq> fr_id ?row" for r
        using that unfolding view_flag_def vs2 rules
        by (simp add: view_rules_def view_rule_def [abs_def] view_groups_def view_distributions_def)
    qed
    moreover have "flag_at ?db1 = (flag_at db)(k \<mapsto> new_flag k t en dv [])"
      using flag_at_insert [OF inv, of ?row "Suc (db_next_id db)"] none
      by (simp add: new_flag_def row_value_type_def codec_simps)
    moreover have "view_flag ?db2 ?row = new_flag k t en dv vs"
      unfolding view_flag_def vs2 rules
      by (simp add: fresh [simplified] fresh_views [OF inv] new_flag_def row_value_type_def codec_simps)
    ultimately show ?thesis by simp
  qed
  have seg: "segment_at ?db2 = segment_at db" by (rule segment_at_frame) simp_all
  have fresh: "view_variants ?db1 (db_next_id db) = []"
    using fresh_views [OF inv] by (simp add: view_variants_def)
  show ?thesis
  proof (cases "dv \<in> v_key ` set vs \<and> (\<forall>v\<in>set vs. variant_type_ok t (v_value v))")
    case False
    then show ?thesis
      using tys unit_result_cases [of "check_all (check_variant_type t) vs"]
      by (auto simp: create_flag_def dv config_def split: sum.splits)
  next
    case True
    then have "create_flag actor k t en dv vs db =
        and_tx (insert_flag k t en dv db) (\<lambda>fid db.
        and_tx (each_tx (insert_variant fid) vs db) (\<lambda>_ db.
        Ok ((), record_change actor ''create_flag'' ''flag'' k
          (JObject [(''default_variant_key'', JString dv), (''enabled'', JBool en),
            (''value_type'', JString (value_type_to_str t))]) db)))"
      using tys by (simp add: create_flag_def dv del: check_all_Ok_iff)
    with True show ?thesis
      using new seg fresh
      by (auto simp: insert_flag_def used each_insert_variant config_def)
  qed
qed

text \<open>Calls on one existing flag.\<close>

lemma update_flag_refines:
  assumes inv: "db_inv db"
  shows "refines (update_flag actor k en dv db) (spec_call (UpdateFlag k en dv) (config db))"
proof (cases "List.find (\<lambda>r. fr_key r = k) (db_flags db)")
  case None
  then show ?thesis
    using flag_lookup(1) [of k db] by (simp add: update_flag_def flag_id_def config_def)
next
  case (Some r)
  have keys: "keys_ok db" using inv by (simp add: db_inv_def)
  from flag_lookup(2) [OF Some] have r: "r \<in> set (db_flags db)" "fr_key r = k" "flag_at db k = Some (view_flag db r)"
    by simp_all
  have "flag_at (db\<lparr>db_flags := map (\<lambda>r. if fr_key r = k
        then r\<lparr>fr_enabled := en, fr_default_variant_key := dv\<rparr> else r) (db_flags db)\<rparr>)
      = (flag_at db)(k \<mapsto> (view_flag db r)\<lparr>f_enabled := en, f_default_variant_key := dv\<rparr>)"
    by (simp add: flag_at_update [OF keys r(1,2)]) (simp add: view_flag_def row_value_type_def)
  moreover have "segment_at (db\<lparr>db_flags := x\<rparr>) = segment_at db" for x
    by (rule segment_at_frame) simp_all
  moreover have "f_variants (view_flag db r) = view_variants db (fr_id r)" by (simp add: view_flag_def)
  ultimately show ?thesis
    using Some r by (simp add: update_flag_def flag_id_def variant_keys_view config_def)
qed

lemma archive_flag_refines:
  assumes inv: "db_inv db"
  shows "refines (archive_flag actor k a db) (spec_call (ArchiveFlag k a) (config db))"
proof (cases "List.find (\<lambda>r. fr_key r = k) (db_flags db)")
  case None
  then have "\<not> list_ex (\<lambda>r. fr_key r = k) (db_flags db)" by (auto simp: find_None_iff list_ex_iff)
  with None show ?thesis
    using flag_lookup(1) [of k db] by (simp add: archive_flag_def config_def)
next
  case (Some r)
  have keys: "keys_ok db" using inv by (simp add: db_inv_def)
  from flag_lookup(2) [OF Some] have r: "r \<in> set (db_flags db)" "fr_key r = k" "flag_at db k = Some (view_flag db r)"
    by simp_all
  then have "list_ex (\<lambda>r. fr_key r = k) (db_flags db)" by (auto simp: list_ex_iff)
  moreover have "flag_at (db\<lparr>db_flags := map (\<lambda>r. if fr_key r = k then r\<lparr>fr_archived := a\<rparr> else r) (db_flags db)\<rparr>)
      = (flag_at db)(k \<mapsto> (view_flag db r)\<lparr>f_archived := a\<rparr>)"
    by (simp add: flag_at_update [OF keys r(1,2)]) (simp add: view_flag_def row_value_type_def)
  moreover have "segment_at (db\<lparr>db_flags := x\<rparr>) = segment_at db" for x
    by (rule segment_at_frame) simp_all
  ultimately show ?thesis
    using r by (simp add: archive_flag_def config_def)
qed

lemma delete_flag_refines:
  assumes inv: "db_inv db"
  shows "refines (delete_flag actor k db) (spec_call (DeleteFlag k) (config db))"
  using delete_flag_effect [OF inv, of k]
  by (auto simp: delete_flag_def config_def split: prod.splits option.splits)

text \<open>A change of the variants of one row.\<close>

lemma variants_changed:
  assumes inv: "db_inv db" and r: "r \<in> set (db_flags db)"
    and vs: "\<And>j. view_variants db' j = (if j = fr_id r then g (view_variants db j) else view_variants db j)"
    and same: "db_flags db' = db_flags db" "db_segments db' = db_segments db"
      "db_segment_constraints db' = db_segment_constraints db" "view_rules db' = view_rules db"
  shows "config db' = ((flag_at db)(fr_key r \<mapsto> (view_flag db r)\<lparr>f_variants := g (f_variants (view_flag db r))\<rparr>),
    segment_at db)"
proof -
  have keys: "keys_ok db" using inv by (simp add: db_inv_def)
  have "flag_at db' = (flag_at db)(fr_key r \<mapsto> view_flag db' r)"
    by (rule flag_at_changed [OF keys r same(1)]) (simp add: view_flag_def vs same)
  moreover have "view_flag db' r = (view_flag db r)\<lparr>f_variants := g (f_variants (view_flag db r))\<rparr>"
    by (simp add: view_flag_def vs same)
  ultimately show ?thesis
    using segment_at_frame [OF same(2,3)] by (simp add: config_def)
qed

lemma upsert_variant_refines:
  assumes inv: "db_inv db"
  shows "refines (upsert_variant actor k v db) (spec_call (UpsertVariant k v) (config db))"
proof (cases "List.find (\<lambda>r. fr_key r = k) (db_flags db)")
  case None
  then show ?thesis
    using flag_lookup(1) [of k db] by (simp add: upsert_variant_def config_def)
next
  case (Some r)
  from flag_lookup(2) [OF Some] have r: "r \<in> set (db_flags db)" "fr_key r = k" "flag_at db k = Some (view_flag db r)"
    by simp_all
  obtain t where t: "fr_value_type r = value_type_to_str t"
    using inv r(1) by (auto simp: db_inv_def readable_def)
  have typ': "f_value_type (view_flag db r) = t" by (simp add: view_flag_def row_value_type_def t codec_simps)
  have "config (upsert_variant_row (fr_id r) v db)
      = ((flag_at db)(fr_key r \<mapsto> (view_flag db r)\<lparr>f_variants := put_variant v (f_variants (view_flag db r))\<rparr>),
         segment_at db)"
    by (rule variants_changed [OF inv r(1)])
      (simp_all add: upsert_variant_view, simp_all add: upsert_variant_row_def)
  then show ?thesis
    using Some r t by (auto simp: upsert_variant_def codec_simps check_variant_type_def typ' config_def)
qed

lemma delete_variant_refines:
  assumes inv: "db_inv db"
  shows "refines (delete_variant actor k vk db) (spec_call (DeleteVariant k vk) (config db))"
proof (cases "List.find (\<lambda>r. fr_key r = k) (db_flags db)")
  case None
  then show ?thesis
    using flag_lookup(1) [of k db] by (simp add: delete_variant_def flag_id_def config_def)
next
  case (Some r)
  from flag_lookup(2) [OF Some] have r: "r \<in> set (db_flags db)" "fr_key r = k" "flag_at db k = Some (view_flag db r)"
    by simp_all
  have "config (db\<lparr>db_variants := filter (\<lambda>v. \<not> variant_at (fr_id r) vk v) (db_variants db)\<rparr>)
      = ((flag_at db)(fr_key r \<mapsto> (view_flag db r)\<lparr>f_variants := filter (\<lambda>v. v_key v \<noteq> vk) (f_variants (view_flag db r))\<rparr>),
         segment_at db)"
    by (rule variants_changed [OF inv r(1)]) (simp_all add: delete_variant_view)
  moreover have "config (bump 1 db) = config db" for db by (simp add: config_def)
  ultimately show ?thesis
    using Some r by (simp add: delete_variant_def flag_id_def) (simp add: config_def)
qed

lemma segment_calls_refine:
  assumes inv: "db_inv db"
  shows "refines (upsert_segment actor s db) (spec_call (UpsertSegment s) (config db))"
    and "refines (delete_segment actor k db) (spec_call (DeleteSegment k) (config db))"
proof -
  from upsert_segment_effect [OF inv, of s] show "refines (upsert_segment actor s db) (spec_call (UpsertSegment s) (config db))"
    by (auto simp: upsert_segment_def config_def)
  from delete_segment_effect [OF inv, of k] show "refines (delete_segment actor k db) (spec_call (DeleteSegment k) (config db))"
    by (auto simp: delete_segment_def config_def split: prod.splits option.splits)
qed

lemma set_flag_rules_refines:
  assumes inv: "db_inv db" and fit: "rules_fit rs"
  shows "refines (set_flag_rules actor k rs db) (spec_call (SetFlagRules k rs) (config db))"
proof (cases "List.find (\<lambda>r. fr_key r = k) (db_flags db)")
  case None
  then show ?thesis
    using flag_lookup(1) [of k db] by (simp add: set_flag_rules_def flag_id_def config_def)
next
  case (Some r)
  from flag_lookup(2) [OF Some] have r: "r \<in> set (db_flags db)" "fr_key r = k" "flag_at db k = Some (view_flag db r)"
    by simp_all
  have keys: "keys_ok db" using inv by (simp add: db_inv_def)
  have vs: "f_variants (view_flag db r) = view_variants db (fr_id r)" by (simp add: view_flag_def)
  have valid: "validate_rules k rs (variant_keys (fr_id r) db) = Ok () \<longleftrightarrow>
      (\<forall>q\<in>set rs. rule_valid (v_key ` set (f_variants (view_flag db r))) q)"
    by (simp add: store_simps variant_keys_view vs)
  have fid: "flag_id k db = Ok (fr_id r)" using Some by (simp add: flag_id_def)
  have i: "fr_id r \<in> flag_ids db" using r(1) by simp
  show ?thesis
  proof (cases "\<forall>q\<in>set rs. rule_valid (v_key ` set (f_variants (view_flag db r))) q")
    case False
    with valid show ?thesis
      using unit_result_cases [of "validate_rules k rs (variant_keys (fr_id r) db)"] r
      by (auto simp: set_flag_rules_def fid config_def)
  next
    case valid_rules: True
    with valid have tx: "set_flag_rules actor k rs db = and_tx (replace_rules_tx (fr_id r) rs db) (\<lambda>_ db.
        Ok ((), record_change actor ''set_flag_rules'' ''flag'' k (JObject [(''rule_count'', json_usize (length rs))]) db))"
      by (simp add: set_flag_rules_def fid)
    show ?thesis
    proof (cases "\<forall>q\<in>set rs. weights_ok q")
      case False
      from replace_rules_effect(2) [OF inv i fit this] False r show ?thesis
        by (auto simp: tx config_def)
    next
      case True
      from replace_rules_effect(1) [OF inv i fit this] obtain db' where
        db': "replace_rules_tx (fr_id r) rs db = Ok ((), db')" "db_flags db' = db_flags db"
          "db_variants db' = db_variants db" "db_segments db' = db_segments db"
          "db_segment_constraints db' = db_segment_constraints db"
          "\<And>j. view_rules db' j = (if j = fr_id r then stored_rules 0 rs else view_rules db j)" by blast
      have vs': "view_variants db' = view_variants db" by (rule ext) (simp add: view_variants_def db'(3))
      have "flag_at db' = (flag_at db)(fr_key r \<mapsto> view_flag db' r)"
        by (rule flag_at_changed [OF keys r(1) db'(2)]) (simp add: view_flag_def vs' db'(6))
      moreover have "view_flag db' r = (view_flag db r)\<lparr>f_rules := stored_rules 0 rs\<rparr>"
        by (simp add: view_flag_def vs' db'(6))
      moreover have "segment_at db' = segment_at db" by (rule segment_at_frame [OF db'(4,5)])
      ultimately show ?thesis
        using valid_rules True r by (simp add: tx db'(1) config_def)
    qed
  qed
qed

end
