(* ===== verification/FlagApply.thy ===== *)
theory FlagApply
  imports FlagSpec
begin

text \<open>
  \<open>apply_config\<close> as reconciliation. \<open>reconciler\<close> is the interface it needs of a table: writing an
  item brings the table to agree with it, deleting a key removes it, and neither touches the
  other table. It is interpreted on the flags and on the segments of the store. \<open>tx_order\<close> is
  the interface for what every statement keeps; its instance is the growing version.
\<close>

section \<open>What statements keep\<close>

locale tx_order =
  fixes rel :: "Db \<Rightarrow> Db \<Rightarrow> bool"
  assumes rel_refl: "rel db db"
    and rel_trans: "rel a b \<Longrightarrow> rel b c \<Longrightarrow> rel a c"
begin

lemma rel_and_tx:
  "and_tx r f = Ok (y, db') \<Longrightarrow> (\<And>x db1. r = Ok (x, db1) \<Longrightarrow> rel db db1)
    \<Longrightarrow> (\<And>x db1. f x db1 = Ok (y, db') \<Longrightarrow> rel db1 db') \<Longrightarrow> rel db db'"
  by (auto simp: and_tx_Ok intro: rel_trans)

lemma rel_each_tx:
  assumes "\<And>x db db'. f x db = Ok ((), db') \<Longrightarrow> rel db db'" and "each_tx f xs db = Ok ((), db')"
  shows "rel db db'"
  using each_tx_inv [where P = "rel db" and f = f, OF _ rel_refl assms(2)] assms(1) rel_trans by blast

lemma rel_foldl: "(\<And>x db. rel db (f db x)) \<Longrightarrow> rel db (foldl f db xs)"
  by (induction xs arbitrary: db) (auto intro: rel_refl rel_trans)

end

text \<open>The version does not fall and the audit log stays as it is.\<close>

definition quiet :: "Db \<Rightarrow> Db \<Rightarrow> bool" where
  "quiet db db' \<longleftrightarrow> db_version db \<le> db_version db' \<and> db_changes db' = db_changes db"

interpretation quiet: tx_order quiet
  by unfold_locales (simp_all add: quiet_def)

lemmas quiet_trans [trans] = quiet.rel_trans

interpretation rules_only: tx_order only_rules
  by unfold_locales (simp_all add: only_rules_def)

lemma quiet_statements:
  "insert_flag k t en dv db = Ok (i, db') \<Longrightarrow> quiet (bump 1 db) db'"
  "upsert_flag_row f db = (i, db') \<Longrightarrow> quiet (bump 1 db) db'"
  "insert_variant i v db = Ok ((), db') \<Longrightarrow> quiet db db'"
  "quiet (bump 1 db) (upsert_variant_row i v db)"
  "quiet db (delete_rule_rows p db)"
  "quiet (bump 1 db) (snd (delete_flag_rows k db))"
  "quiet (bump 1 db) (snd (delete_segment_rows k db))"
  "insert_rule_row i n r db = Ok (j, db') \<Longrightarrow> quiet db db'"
  "insert_distribution j d db = Ok ((), db') \<Longrightarrow> quiet db db'"
  "insert_rule_constraint j n c db = Ok ((), db') \<Longrightarrow> quiet db db'"
  "upsert_segment_row s db = (i, db') \<Longrightarrow> quiet (bump 1 db) db'"
  "insert_segment_constraint i c db = Ok ((), db') \<Longrightarrow> quiet db db'"
  by (auto simp: quiet_def insert_flag_def upsert_flag_row_def insert_variant_def upsert_variant_row_def
      delete_rule_rows_def delete_flag_rows_def delete_segment_rows_def insert_rule_row_def
      insert_distribution_def insert_rule_constraint_def upsert_segment_row_def
      insert_segment_constraint_def Let_def split: if_splits option.splits)

lemma quiet_insert_rule: "insert_rule_tx i x db = Ok ((), db') \<Longrightarrow> quiet db db'"
proof -
  assume tx: "insert_rule_tx i x db = Ok ((), db')"
  have group: "quiet db db'"
    if "(case y of (k, g) \<Rightarrow> each_tx (insert_rule_constraint j k) (g_constraints g)) db = Ok ((), db')"
    for y :: "nat \<times> ConstraintGroup" and j db db'
    using that by (cases y) (auto intro: quiet.rel_each_tx quiet_statements)
  from tx obtain n r j db1 db2 where "insert_rule_row i n r db = Ok (j, db1)"
    and ds: "each_tx (insert_distribution j) (r_distributions r) db1 = Ok ((), db2)"
    and gs: "each_tx (\<lambda>(k, g). each_tx (insert_rule_constraint j k) (g_constraints g))
      (List.enumerate 0 (r_constraint_groups r)) db2 = Ok ((), db')"
    by (cases x) (auto simp: insert_rule_tx_def and_tx_Ok)
  then have "quiet db db1" by (auto intro: quiet_statements)
  also have "quiet db1 db2" by (rule quiet.rel_each_tx [OF _ ds]) (rule quiet_statements)
  also have "quiet db2 db'" by (rule quiet.rel_each_tx [OF _ gs]) (rule group)
  finally show ?thesis .
qed

lemma bump_bump: "quiet (bump 1 db) db' \<Longrightarrow> quiet db db'"
  by (simp add: quiet_def)

lemma quiet_replace_rules: "replace_rules_tx i rs db = Ok ((), db') \<Longrightarrow> quiet (bump 1 db) db'"
proof -
  assume "replace_rules_tx i rs db = Ok ((), db')"
  then have "quiet (bump 1 (delete_rule_rows (\<lambda>r. rr_flag_id r = i) db)) db'"
    unfolding replace_rules_tx_def by (rule quiet.rel_each_tx [rotated]) (rule quiet_insert_rule)
  with quiet_statements(5) [of db "\<lambda>r. rr_flag_id r = i"] show ?thesis by (simp add: quiet_def)
qed

lemma quiet_upsert_flag: "upsert_flag_tx f db = Ok ((), db') \<Longrightarrow> quiet (bump 1 db) db'"
proof -
  assume tx: "upsert_flag_tx f db = Ok ((), db')"
  obtain i db1 where row: "upsert_flag_row f db = (i, db1)" by fastforce
  define db2 where "db2 = bump 1 (db1\<lparr>db_variants := filter (\<lambda>v. \<not> (vr_flag_id v = i
    \<and> \<not> List.member (map v_key (f_variants f)) (vr_key v))) (db_variants db1)\<rparr>)"
  define db3 where "db3 = foldl (\<lambda>db v. upsert_variant_row i v db) db2 (f_variants f)"
  have rules: "replace_rules_tx i (f_rules f) db3 = Ok ((), db')"
    using tx by (simp add: upsert_flag_tx_def row db2_def db3_def)
  have "quiet (bump 1 db) db1" by (rule quiet_statements(2) [OF row])
  also have "quiet db1 db2" by (simp add: quiet_def db2_def)
  also have "quiet db2 db3"
    unfolding db3_def by (rule quiet.rel_foldl) (rule bump_bump, rule quiet_statements)
  also have "quiet db3 db'" by (rule bump_bump) (rule quiet_replace_rules [OF rules])
  finally show ?thesis .
qed

lemma quiet_upsert_segment: "upsert_segment_tx s db = Ok ((), db') \<Longrightarrow> quiet (bump 1 db) db'"
proof -
  assume tx: "upsert_segment_tx s db = Ok ((), db')"
  obtain i db1 where row: "upsert_segment_row s db = (i, db1)" by fastforce
  from tx have "quiet (bump 1 (db1\<lparr>db_segment_constraints :=
      filter (\<lambda>c. sc_segment_id c \<noteq> i) (db_segment_constraints db1)\<rparr>)) db'"
    unfolding upsert_segment_tx_def row Let_def prod.case
    by (rule quiet.rel_each_tx [rotated]) (rule quiet_statements)
  with quiet_statements(11) [OF row] show ?thesis by (simp add: quiet_def)
qed

section \<open>Every write moves the version and leaves one audit row\<close>

definition audited :: "string \<Rightarrow> Db \<Rightarrow> Db \<Rightarrow> bool" where
  "audited actor db db' \<longleftrightarrow> db_version db < db_version db'
     \<and> (\<exists>c. db_changes db' = db_changes db @ [c] \<and> fc_version c = db_version db' \<and> fc_actor c = actor)"

lemma audited_record:
  "quiet (bump 1 db) db1 \<Longrightarrow> audited actor db (record_change actor b c d e db1)"
  by (auto simp: audited_def quiet_def record_change_def)

lemma quiet_bump_update: "quiet (bump n db) (bump n (db\<lparr>db_flags := x\<rparr>))"
  "quiet (bump n db) (bump n (db\<lparr>db_variants := y\<rparr>))"
  by (simp_all add: quiet_def)

lemma create_flag_audited:
  assumes "create_flag actor k t en dv vs db = Ok ((), db')"
  shows "audited actor db db'"
proof -
  from assms obtain i db1 db2 where ins: "insert_flag k t en dv db = Ok (i, db1)"
    and vs: "each_tx (insert_variant i) vs db1 = Ok ((), db2)"
    and eq: "\<exists>d. db' = record_change actor ''create_flag'' ''flag'' k d db2"
    by (auto simp: create_flag_def and_tx_Ok split: if_splits sum.splits)
  have "quiet (bump 1 db) db1" by (rule quiet_statements(1) [OF ins])
  also have "quiet db1 db2" by (rule quiet.rel_each_tx [OF _ vs]) (rule quiet_statements)
  finally show ?thesis using eq by (auto intro: audited_record)
qed

theorem perform_audited:
  assumes "perform actor c db = Ok ((), db')"
  shows "audited actor db db'"
proof (cases c)
  case (CreateFlag k t en dv vs)
  with assms show ?thesis by (auto intro: create_flag_audited)
next
  case (UpdateFlag k en dv)
  with assms show ?thesis
    by (auto simp: update_flag_def split: sum.splits if_splits intro!: audited_record quiet_bump_update)
next
  case (ArchiveFlag k a)
  with assms show ?thesis
    by (auto simp: archive_flag_def simp del: if_split split: if_split_asm intro!: audited_record quiet_bump_update)
next
  case (DeleteFlag k)
  with assms quiet_statements(6) [of db k] show ?thesis
    by (auto simp: delete_flag_def split: prod.splits if_splits intro!: audited_record)
next
  case (UpsertVariant k v)
  with assms show ?thesis
    by (auto simp: upsert_variant_def split: option.splits sum.splits intro!: audited_record quiet_statements)
next
  case (DeleteVariant k v)
  with assms show ?thesis
    by (auto simp: delete_variant_def split: sum.splits intro!: audited_record quiet_bump_update)
next
  case (UpsertSegment s)
  with assms show ?thesis
    by (auto simp: upsert_segment_def and_tx_Ok intro!: audited_record quiet_upsert_segment)
next
  case (DeleteSegment k)
  with assms quiet_statements(7) [of db k] show ?thesis
    by (auto simp: delete_segment_def split: prod.splits if_splits intro!: audited_record)
next
  case (SetFlagRules k rs)
  with assms show ?thesis
    by (auto simp: set_flag_rules_def and_tx_Ok split: sum.splits intro!: audited_record quiet_replace_rules)
qed

section \<open>Reconciliation\<close>

locale reconciler =
  fixes look :: "Db \<Rightarrow> string \<Rightarrow> 'v option"
    and other :: "Db \<Rightarrow> 'o"
    and good :: "Db \<Rightarrow> bool"
    and key :: "'x \<Rightarrow> string"
    and fits :: "'x \<Rightarrow> bool"
    and agrees :: "'v \<Rightarrow> 'x \<Rightarrow> bool"
    and put :: "'x \<Rightarrow> Db \<Rightarrow> unit tx"
    and del :: "string \<Rightarrow> Db \<Rightarrow> Db"
  assumes put_ok: "good db \<Longrightarrow> fits x \<Longrightarrow> \<exists>db' v. put x db = Ok ((), db') \<and> good db'
      \<and> look db' = (look db)(key x \<mapsto> v) \<and> agrees v x \<and> other db' = other db"
    and del_good: "good db \<Longrightarrow> good (del k db)"
    and look_del: "good db \<Longrightarrow> look (del k db) = (look db)(k := None)"
    and other_del: "good db \<Longrightarrow> other (del k db) = other db"
begin

definition agree_on :: "'x list \<Rightarrow> Db \<Rightarrow> bool" where
  "agree_on xs db \<longleftrightarrow> (\<forall>x\<in>set xs. \<exists>v. look db (key x) = Some v \<and> agrees v x)"

definition put_stale :: "('x \<Rightarrow> bool) \<Rightarrow> 'x list \<Rightarrow> Db \<Rightarrow> unit tx" where
  "put_stale stale = each_tx (\<lambda>x db. if stale x then put x db else Ok ((), db))"

text \<open>Writing the stale items brings the table to agree with all of them.\<close>

lemma put_stale_ok:
  "good db \<Longrightarrow> \<forall>x\<in>set xs. fits x \<Longrightarrow> distinct (map key xs) \<Longrightarrow>
    agree_on (filter (\<lambda>x. \<not> stale x) xs) db \<Longrightarrow>
    \<exists>db'. put_stale stale xs db = Ok ((), db') \<and> good db' \<and> agree_on xs db'
      \<and> (\<forall>k. k \<notin> key ` set xs \<longrightarrow> look db' k = look db k) \<and> other db' = other db"
proof (induction xs arbitrary: db)
  case Nil
  then show ?case by (simp add: put_stale_def agree_on_def)
next
  case (Cons x xs)
  obtain db1 v where db1: "(if stale x then put x db else Ok ((), db)) = Ok ((), db1)" "good db1"
      "look db1 (key x) = Some v" "agrees v x" "\<And>k. k \<noteq> key x \<Longrightarrow> look db1 k = look db k"
      "other db1 = other db"
  proof (cases "stale x")
    case True
    with put_ok [of db x] Cons.prems obtain db' v where "put x db = Ok ((), db')" "good db'"
      "look db' = (look db)(key x \<mapsto> v)" "agrees v x" "other db' = other db" by auto
    with True that show ?thesis by simp
  next
    case False
    with Cons.prems obtain v where "look db (key x) = Some v" "agrees v x"
      by (auto simp: agree_on_def)
    with False Cons.prems that show ?thesis by auto
  qed
  have x: "key x \<notin> key ` set xs" using Cons.prems(3) by simp
  have "agree_on (filter (\<lambda>x. \<not> stale x) xs) db1"
  proof (unfold agree_on_def, rule ballI)
    fix y assume y: "y \<in> set (filter (\<lambda>x. \<not> stale x) xs)"
    with x have "key y \<noteq> key x" by (auto simp: image_iff)
    with y Cons.prems(4) show "\<exists>v. look db1 (key y) = Some v \<and> agrees v y"
      by (auto simp: agree_on_def db1(5) split: if_splits)
  qed
  with Cons.IH [OF db1(2)] Cons.prems obtain db' where
    db': "put_stale stale xs db1 = Ok ((), db')" "good db'" "agree_on xs db'"
      "\<forall>k. k \<notin> key ` set xs \<longrightarrow> look db' k = look db1 k" "other db' = other db1" by auto
  from db'(1) db1(1) have "put_stale stale (x # xs) db = Ok ((), db')" by (simp add: put_stale_def)
  moreover have "agree_on (x # xs) db'" using db'(3,4) x db1(3,4) by (auto simp: agree_on_def)
  ultimately show ?case using db' db1(5,6) by auto
qed

lemma prune_ok:
  "good db \<Longrightarrow> good (foldl (\<lambda>db k. del k db) db ks)
    \<and> look (foldl (\<lambda>db k. del k db) db ks) = (\<lambda>k. if k \<in> set ks then None else look db k)
    \<and> other (foldl (\<lambda>db k. del k db) db ks) = other db"
  by (induction ks arbitrary: db) (simp_all add: del_good look_del other_del fun_eq_iff)

end

definition flag_storable :: "Flag \<Rightarrow> bool" where
  "flag_storable f \<longleftrightarrow> flag_fits f \<and> (\<forall>r\<in>set (f_rules f). weights_ok r)"

definition drop_flag :: "string \<Rightarrow> Db \<Rightarrow> Db" where
  "drop_flag k db = snd (delete_flag_rows k db)"

definition drop_segment :: "string \<Rightarrow> Db \<Rightarrow> Db" where
  "drop_segment k db = snd (delete_segment_rows k db)"

interpretation flags: reconciler flag_at segment_at db_inv f_key flag_storable same_flag
  upsert_flag_tx drop_flag
proof
  fix db f assume inv: "db_inv db" and f: "flag_storable f"
  then have "rules_fit (f_rules f)" "\<forall>r\<in>set (f_rules f). weights_ok r" "flag_fits f"
    by (simp_all add: flag_storable_def flag_fits_def)
  moreover have "distinct (map v_key (f_variants g))" if "flag_at db (f_key f) = Some g" for g
    using flag_at_variants [OF _ that] inv by (simp add: db_inv_def)
  ultimately obtain db' where "upsert_flag_tx f db = Ok ((), db')" "db_inv db'"
      "flag_at db' = (flag_at db)(f_key f \<mapsto> stored_flag (flag_at db (f_key f)) f)"
      "segment_at db' = segment_at db" "same_flag (stored_flag (flag_at db (f_key f)) f) f"
    using upsert_flag_effect(1) [OF inv, of f] stored_flag_same [of f "flag_at db (f_key f)"] by auto
  then show "\<exists>db' v. upsert_flag_tx f db = Ok ((), db') \<and> db_inv db'
      \<and> flag_at db' = (flag_at db)(f_key f \<mapsto> v) \<and> same_flag v f \<and> segment_at db' = segment_at db"
    by blast
qed (simp_all add: drop_flag_def delete_flag_rows_inv delete_flag_effect)

interpretation segments: reconciler segment_at flag_at db_inv s_key "\<lambda>_. True" "\<lambda>v s. v = s"
  upsert_segment_tx drop_segment
proof
  fix db s assume "db_inv db"
  from upsert_segment_effect [OF this, of s]
  show "\<exists>db' v. upsert_segment_tx s db = Ok ((), db') \<and> db_inv db'
      \<and> segment_at db' = (segment_at db)(s_key s \<mapsto> v) \<and> v = s \<and> flag_at db' = flag_at db" by blast
qed (simp_all add: drop_segment_def delete_segment_rows_inv delete_segment_effect)

section \<open>The three passes of \<open>apply_config\<close>\<close>

lemma each_tx_concat: "each_tx f (concat (map g xs)) db = each_tx (\<lambda>x. each_tx f (g x)) xs db"
  by (induction xs arbitrary: db) (auto simp: each_tx_append and_tx_def split: sum.splits)

lemma each_tx_cong:
  "(\<And>x db. x \<in> set xs \<Longrightarrow> f x db = g x db) \<Longrightarrow> each_tx f xs db = each_tx g xs db"
  by (induction xs arbitrary: db) (auto simp: and_tx_def split: sum.splits)

lemma each_tx_skip: "(\<And>x db. x \<in> set xs \<Longrightarrow> f x db = Ok ((), db)) \<Longrightarrow> each_tx f xs db = Ok ((), db)"
  by (induction xs) auto

lemma foldl_skip: "(\<And>x db. x \<in> set xs \<Longrightarrow> f db x = db) \<Longrightarrow> foldl f db xs = db"
  by (induction xs) auto

definition pruned :: "string list \<Rightarrow> string list \<Rightarrow> string list" where
  "pruned desired = filter (\<lambda>k. k \<notin> set desired)"

lemma prune_changes:
  "concat (map (prune_change kind desired) ks) = map (\<lambda>k. change kind k Delete JNull) (pruned desired ks)"
  by (induction ks) (auto simp: prune_change_def pruned_def list_ex_iff)

lemma segment_change_fields:
  "c \<in> set (segment_change cur s) \<Longrightarrow> cc_target_kind c = ''segment'' \<and> cc_target_key c = s_key s \<and> cc_op c \<noteq> Delete"
  by (auto simp: segment_change_def change_def split: option.splits if_splits)

lemma flag_change_fields:
  "c \<in> set (flag_change cur f) \<Longrightarrow> cc_target_kind c = ''flag'' \<and> cc_target_key c = f_key f \<and> cc_op c \<noteq> Delete"
  by (auto simp: flag_change_def change_def Let_def split: option.splits if_splits)

lemma segment_change_single: "segment_change cur s = [] \<or> (\<exists>c. segment_change cur s = [c])"
  by (auto simp: segment_change_def split: option.splits)

lemma flag_change_single: "flag_change cur f = [] \<or> (\<exists>c. flag_change cur f = [c])"
  by (auto simp: flag_change_def Let_def split: option.splits)

lemma upsert_segments_pass:
  assumes "distinct (map s_key segs)"
  shows "each_tx (upsert_change flags segs) (concat (map (segment_change cur) segs)) db
    = segments.put_stale (\<lambda>s. segment_change cur s \<noteq> []) segs db"
  unfolding each_tx_concat segments.put_stale_def
proof (rule each_tx_cong)
  fix s db assume "s \<in> set segs"
  with assms have "List.find (\<lambda>t. s_key t = s_key s) segs = Some s" by (simp add: find_key_Some)
  then show "each_tx (upsert_change flags segs) (segment_change cur s) db
      = (if segment_change cur s \<noteq> [] then upsert_segment_tx s db else Ok ((), db))"
    using segment_change_single [of cur s] segment_change_fields [of _ cur s]
    by (auto simp: upsert_change_def and_tx_def split: sum.splits)
qed

lemma upsert_flags_pass:
  assumes "distinct (map f_key flags)"
  shows "each_tx (upsert_change flags segs) (concat (map (flag_change cur) flags)) db
    = flags.put_stale (\<lambda>f. flag_change cur f \<noteq> []) flags db"
  unfolding each_tx_concat flags.put_stale_def
proof (rule each_tx_cong)
  fix f db assume "f \<in> set flags"
  with assms have "List.find (\<lambda>t. f_key t = f_key f) flags = Some f" by (simp add: find_key_Some)
  then show "each_tx (upsert_change flags segs) (flag_change cur f) db
      = (if flag_change cur f \<noteq> [] then upsert_flag_tx f db else Ok ((), db))"
    using flag_change_single [of cur f] flag_change_fields [of _ cur f]
    by (auto simp: upsert_change_def and_tx_def split: sum.splits)
qed

lemma upsert_pass:
  assumes "distinct (map s_key segs)" and "distinct (map f_key flags)"
  shows "each_tx (upsert_change flags segs) (diff_config cur flags segs) db =
    and_tx (segments.put_stale (\<lambda>s. segment_change cur s \<noteq> []) segs db)
      (\<lambda>_. flags.put_stale (\<lambda>f. flag_change cur f \<noteq> []) flags)"
proof -
  have skip: "each_tx (upsert_change flags segs) (map (\<lambda>k. change kind k Delete JNull) ks) db = Ok ((), db)"
    for kind ks db
    by (rule each_tx_skip) (auto simp: upsert_change_def change_def)
  have tail: "each_tx (upsert_change flags segs) (map (\<lambda>k. change ''segment'' k Delete JNull) ks
      @ concat (map (flag_change cur) flags) @ map (\<lambda>k. change ''flag'' k Delete JNull) js) db
    = flags.put_stale (\<lambda>f. flag_change cur f \<noteq> []) flags db" for ks js db
    by (simp add: each_tx_append skip upsert_flags_pass [OF assms(2)])
      (auto simp: and_tx_def skip split: sum.splits)
  show ?thesis
    unfolding diff_config_def prune_changes each_tx_append [of _ "concat (map (segment_change cur) segs)"]
      upsert_segments_pass [OF assms(1)]
    by (auto simp: and_tx_def tail split: sum.splits)
qed

lemma prune_pass:
  "foldl prune_segment (foldl prune_flag db (diff_config cur flags segs)) (diff_config cur flags segs) =
     foldl (\<lambda>db k. drop_segment k db)
       (foldl (\<lambda>db k. drop_flag k db) db (pruned (map f_key flags) (hkeys (sn_flags cur))))
       (pruned (map s_key segs) (hkeys (sn_segments cur)))"
proof -
  have f0: "foldl prune_flag db (concat (map (segment_change cur) xs)) = db"
      "foldl prune_flag db (concat (map (flag_change cur) ys)) = db"
      "foldl prune_flag db (map (\<lambda>k. change ''segment'' k Delete JNull) ks) = db" for db xs ys ks
    by (rule foldl_skip; auto simp: prune_flag_def change_def dest: segment_change_fields flag_change_fields)+
  have s0: "foldl prune_segment db (concat (map (segment_change cur) xs)) = db"
      "foldl prune_segment db (concat (map (flag_change cur) ys)) = db"
      "foldl prune_segment db (map (\<lambda>k. change ''flag'' k Delete JNull) ks) = db" for db xs ys ks
    by (rule foldl_skip; auto simp: prune_segment_def change_def dest: segment_change_fields flag_change_fields)+
  have f1: "foldl prune_flag db (map (\<lambda>k. change ''flag'' k Delete JNull) ks) = foldl (\<lambda>db k. drop_flag k db) db ks"
    for db ks by (induction ks arbitrary: db) (simp_all add: prune_flag_def change_def drop_flag_def)
  have s1: "foldl prune_segment db (map (\<lambda>k. change ''segment'' k Delete JNull) ks) = foldl (\<lambda>db k. drop_segment k db) db ks"
    for db ks by (induction ks arbitrary: db) (simp_all add: prune_segment_def change_def drop_segment_def)
  show ?thesis
    unfolding diff_config_def prune_changes by (simp add: f0 s0 f1 s1)
qed

lemma audit_pass:
  "config (foldl (audit_change actor) db cs) = config db
   \<and> db_inv (foldl (audit_change actor) db cs) = db_inv db
   \<and> db_version (foldl (audit_change actor) db cs) = db_version db"
  by (induction cs arbitrary: db) (simp_all add: audit_change_def)

section \<open>Applying converges\<close>

text \<open>The database agrees with a desired configuration when nothing is left to plan.\<close>

lemma segment_settled:
  assumes inv: "db_inv db" and load: "load_snapshot db = Ok s"
  shows "segment_change s t = [] \<longleftrightarrow> segment_at db (s_key t) = Some t"
proof -
  have readable: "readable db" using inv by (simp add: db_inv_def)
  have iff: "segment_change s t = [] \<longleftrightarrow> (\<exists>live. segment_at db (s_key t) = Some live
      \<and> s_name live = s_name t \<and> s_constraints live = s_constraints t)"
    by (simp add: segment_change_Nil hget_loaded [OF readable load])
  show ?thesis
  proof (cases "segment_at db (s_key t)")
    case None
    then show ?thesis by (simp add: iff)
  next
    case (Some v)
    then have "s_key v = s_key t" using inv by (auto simp: segment_at_Some db_inv_def view_segment_def)
    then have "s_name v = s_name t \<and> s_constraints v = s_constraints t \<longleftrightarrow> v = t" by auto
    with Some show ?thesis by (simp add: iff)
  qed
qed

lemma settled_iff:
  assumes "db_inv db" and "load_snapshot db = Ok s"
  shows "diff_config s flags segs = [] \<longleftrightarrow>
    segments.agree_on segs db \<and> (\<forall>k. segment_at db k \<noteq> None \<longrightarrow> k \<in> s_key ` set segs)
    \<and> flags.agree_on flags db \<and> (\<forall>k. flag_at db k \<noteq> None \<longrightarrow> k \<in> f_key ` set flags)"
proof -
  have readable: "readable db" using assms(1) by (simp add: db_inv_def)
  note look = hget_loaded [OF readable assms(2)]
  have keys: "set (hkeys (sn_flags s)) = {k. flag_at db k \<noteq> None}"
    "set (hkeys (sn_segments s)) = {k. segment_at db k \<noteq> None}"
    by (auto simp: look flag_at_None segment_at_None)
  show ?thesis
    unfolding diff_config_Nil keys segment_settled [OF assms] flag_change_Nil look(1)
    by (auto simp: segments.agree_on_def flags.agree_on_def)
qed

lemma stale_agree:
  assumes "db_inv db" and "load_snapshot db = Ok cur"
  shows "segments.agree_on (filter (\<lambda>s. segment_change cur s = []) segs) db"
    and "flags.agree_on (filter (\<lambda>f. flag_change cur f = []) fs) db"
proof -
  have readable: "readable db" using assms(1) by (simp add: db_inv_def)
  note look = hget_loaded [OF readable assms(2)]
  show "segments.agree_on (filter (\<lambda>s. segment_change cur s = []) segs) db"
    by (simp add: segments.agree_on_def segment_settled [OF assms])
  show "flags.agree_on (filter (\<lambda>f. flag_change cur f = []) fs) db"
    by (auto simp: flags.agree_on_def flag_change_Nil look)
qed

lemma apply_config_settles:
  assumes inv: "db_inv db" and valid: "validate_desired flags segs = Ok ()"
    and dist: "distinct (map f_key flags)" "distinct (map s_key segs)"
    and fit: "\<forall>f\<in>set flags. flag_storable f"
    and version: "ev = 0 \<or> ev = db_version db"
  shows "\<exists>out db' s. apply_config actor flags segs False ev db db = Ok (out, db') \<and> ao_applied out
    \<and> db_inv db' \<and> load_snapshot db' = Ok s \<and> diff_config s flags segs = []"
proof -
  have readable: "readable db" using inv by (simp add: db_inv_def)
  obtain cur where load: "load_snapshot db = Ok cur" using load_snapshot_view [OF readable] by blast
  note look = hget_loaded [OF readable load]
  show ?thesis
  proof (cases "diff_config cur flags segs = []")
    case True
    with inv load valid show ?thesis by (simp add: apply_config_def)
  next
    case False
    let ?cs = "diff_config cur flags segs"
    obtain db1 where db1: "segments.put_stale (\<lambda>s. segment_change cur s \<noteq> []) segs db = Ok ((), db1)"
        "db_inv db1" "segments.agree_on segs db1"
        "\<And>k. k \<notin> s_key ` set segs \<Longrightarrow> segment_at db1 k = segment_at db k" "flag_at db1 = flag_at db"
      using segments.put_stale_ok [OF inv _ dist(2), of "\<lambda>s. segment_change cur s \<noteq> []"] stale_agree(1) [OF inv load]
      by auto
    have "flags.agree_on (filter (\<lambda>f. \<not> flag_change cur f \<noteq> []) flags) db1"
      using stale_agree(2) [OF inv load, of flags] by (simp add: flags.agree_on_def db1(5))
    with flags.put_stale_ok [OF db1(2) fit dist(1), where stale = "\<lambda>f. flag_change cur f \<noteq> []"] obtain db2 where
      db2: "flags.put_stale (\<lambda>f. flag_change cur f \<noteq> []) flags db1 = Ok ((), db2)"
        "db_inv db2" "flags.agree_on flags db2"
        "\<And>k. k \<notin> f_key ` set flags \<Longrightarrow> flag_at db2 k = flag_at db1 k" "segment_at db2 = segment_at db1"
      by blast
    define db3 where "db3 = foldl (\<lambda>db k. drop_flag k db) db2 (pruned (map f_key flags) (hkeys (sn_flags cur)))"
    define db4 where "db4 = foldl (\<lambda>db k. drop_segment k db) db3 (pruned (map s_key segs) (hkeys (sn_segments cur)))"
    define db' where "db' = foldl (audit_change actor) db4 ?cs"
    note f3 = flags.prune_ok [OF db2(2), of "pruned (map f_key flags) (hkeys (sn_flags cur))", folded db3_def]
    then have "db_inv db3" by blast
    note s4 = segments.prune_ok [OF this, of "pruned (map s_key segs) (hkeys (sn_segments cur))", folded db4_def]
    have ends: "db_inv db'" "flag_at db' = flag_at db3" "segment_at db' = segment_at db4"
      using s4 audit_pass [of actor db4 ?cs] by (simp_all add: db'_def config_def)
    have flag': "flag_at db' k = (if k \<in> f_key ` set flags then flag_at db2 k else None)" for k
      using f3 db2(4) db1(5) look(4) flag_at_None [of db k] by (auto simp: ends pruned_def)
    have seg': "segment_at db' k = (if k \<in> s_key ` set segs then segment_at db1 k else None)" for k
      using f3 s4 db2(5) db1(4) look(5) segment_at_None [of db k] by (auto simp: ends pruned_def)
    obtain s where load': "load_snapshot db' = Ok s"
      using load_snapshot_view ends(1) by (auto simp: db_inv_def)
    have "diff_config s flags segs = []"
      unfolding settled_iff [OF ends(1) load']
      using db1(3) db2(3) by (auto simp: segments.agree_on_def flags.agree_on_def flag' seg')
    moreover have "apply_config actor flags segs False ev db db =
        Ok (\<lparr>ao_changes = ?cs, ao_from_version = sn_version cur, ao_to_version = db_version db', ao_applied = True\<rparr>, db')"
      using version False look(3)
      by (auto simp: apply_config_def valid load upsert_pass [OF dist(2,1)] db1(1) db2(1) prune_pass
          db3_def db4_def db'_def Let_def)
    ultimately show ?thesis using ends(1) load' by auto
  qed
qed

text \<open>Validated weights that do not wrap are accepted by the table.\<close>

lemma rule_valid_weights:
  assumes "rule_valid vs r" and "total_weight (r_distributions r) < 2 ^ 32"
  shows "weights_ok r"
proof (cases "r_distributions r = []")
  case True
  then show ?thesis by (simp add: weights_ok_def)
next
  case False
  with rule_valid_total assms have total: "total_weight (r_distributions r) = 100" by blast
  have "0 \<le> sint (d_weight d) \<and> sint (d_weight d) \<le> 100" if "d \<in> set (r_distributions r)" for d
  proof -
    have le: "unat (d_weight d) \<le> 100"
      using that member_le_sum_list [of "unat (d_weight d)" "map (\<lambda>d. unat (d_weight d)) (r_distributions r)"]
      by (simp add: total_weight_def flip: total)
    then have "sint (of_nat (unat (d_weight d)) :: u32) = int (unat (d_weight d))"
      by (intro sint_of_nat) simp
    moreover have "int (unat (d_weight d)) \<le> int 100" using le by (simp only: of_nat_le_iff)
    ultimately show ?thesis by simp
  qed
  then show ?thesis by (simp add: weights_ok_def)
qed

end
