(* ===== verification/StoreProperties.thy ===== *)
theory StoreProperties
  imports FlagApply FlagExample
begin

text \<open>
  The properties of the configuration store: its tables stay consistent and readable, each write
  is the map update it stands for and leaves one audit row with a new version, and applying a
  desired configuration converges or aborts.
\<close>

section \<open>Histories of the store\<close>

text \<open>\<open>old\<close> is the database a plan was computed on: any, also one that is out of date.\<close>

inductive store_step :: "Db \<Rightarrow> Db \<Rightarrow> bool" where
  call: "perform actor c db = Ok ((), db') \<Longrightarrow> store_step db db'"
| apply_plan: "apply_config actor flags segs dry ev old db = Ok (out, db') \<Longrightarrow> store_step db db'"

inductive_cases store_stepE: "store_step db db'"

definition audit_ok :: "Db \<Rightarrow> bool" where
  "audit_ok db \<longleftrightarrow> sorted (map fc_version (db_changes db))
     \<and> (\<forall>c\<in>set (db_changes db). fc_version c \<le> db_version db)"

lemma audit_ok_append:
  "audit_ok db \<Longrightarrow> db_version db \<le> db_version db' \<Longrightarrow> db_changes db' = db_changes db @ cs
    \<Longrightarrow> \<forall>c\<in>set cs. fc_version c = db_version db' \<Longrightarrow> audit_ok db'"
proof -
  assume old: "audit_ok db" and le: "db_version db \<le> db_version db'"
    and cs: "db_changes db' = db_changes db @ cs" "\<forall>c\<in>set cs. fc_version c = db_version db'"
  have "map fc_version cs = replicate (length cs) (db_version db')"
    using cs(2) by (induction cs) auto
  moreover have "\<forall>c\<in>set (db_changes db). fc_version c \<le> db_version db'"
    using old le by (auto simp: audit_ok_def)
  ultimately show ?thesis
    using old cs by (auto simp: audit_ok_def sorted_append)
qed

lemma upsert_change_inv:
  "db_inv db \<Longrightarrow> upsert_change flags segs c db = Ok ((), db') \<Longrightarrow> db_inv db'"
  by (auto simp: upsert_change_def split: if_splits intro: upsert_segment_tx_inv upsert_flag_tx_inv)

lemma upsert_change_quiet: "upsert_change flags segs c db = Ok ((), db') \<Longrightarrow> quiet db db'"
  by (auto simp: upsert_change_def split: if_splits
      intro: quiet.rel_refl bump_bump quiet_upsert_segment quiet_upsert_flag)

lemma prune_inv:
  "db_inv db \<Longrightarrow> db_inv (foldl prune_segment (foldl prune_flag db cs) ds)"
proof -
  have "db_inv db \<Longrightarrow> db_inv (prune_flag db c)" "db_inv db \<Longrightarrow> db_inv (prune_segment db c)" for db c
    by (simp_all add: prune_flag_def prune_segment_def delete_flag_rows_inv delete_segment_rows_inv)
  note step = this
  show "db_inv db \<Longrightarrow> ?thesis"
    by (rule foldl_inv [where P = db_inv, OF step(2)], assumption)
      (rule foldl_inv [where P = db_inv, OF step(1)], assumption+)
qed

lemma prune_quiet: "quiet db (foldl prune_segment (foldl prune_flag db cs) ds)"
proof -
  have "quiet db (prune_flag db c)" "quiet db (prune_segment db c)" for db c
    using quiet_statements(6,7) [of db "cc_target_key c", THEN bump_bump]
    by (simp_all add: prune_flag_def prune_segment_def quiet.rel_refl)
  note step = this
  show ?thesis
    by (rule quiet.rel_trans [OF quiet.rel_foldl [OF step(1)] quiet.rel_foldl [OF step(2)]])
qed

lemma audit_rows:
  "\<exists>rows. db_changes (foldl (audit_change actor) db cs) = db_changes db @ rows
     \<and> length rows = length cs \<and> (\<forall>r\<in>set rows. fc_version r = db_version db \<and> fc_actor r = actor)"
proof (induction cs arbitrary: db)
  case Nil
  show ?case by simp
next
  case (Cons c cs)
  have "db_version (audit_change actor db c) = db_version db" by (simp add: audit_change_def)
  moreover have "\<exists>r. db_changes (audit_change actor db c) = db_changes db @ [r]
      \<and> fc_version r = db_version db \<and> fc_actor r = actor"
    by (simp add: audit_change_def record_change_def)
  ultimately show ?case using Cons.IH [of "audit_change actor db c"] by fastforce
qed

text \<open>What an \<open>apply_config\<close> that returns \<open>Ok\<close> has done.\<close>

lemma apply_config_Ok:
  assumes "apply_config actor flags segs dry ev old db = Ok (out, db')"
  shows "(\<exists>cur. load_snapshot old = Ok cur \<and> ao_changes out = diff_config cur flags segs
      \<and> (db' = db \<and> (dry \<or> ao_changes out = [])
         \<or> \<not> dry \<and> ao_changes out \<noteq> [] \<and> db_version db = sn_version cur
           \<and> (\<exists>db1. each_tx (upsert_change flags segs) (ao_changes out) db = Ok ((), db1)
              \<and> db' = foldl (audit_change actor)
                    (foldl prune_segment (foldl prune_flag db1 (ao_changes out)) (ao_changes out)) (ao_changes out))))"
  using assms
  by (auto simp: apply_config_def Let_def and_tx_Ok split: sum.splits if_splits)

lemma store_step_keeps:
  assumes "store_step db db'" and "db_inv db" and "audit_ok db"
  shows "db_inv db' \<and> audit_ok db'"
  using assms(1)
proof cases
  case (call actor c)
  from perform_audited [OF this] perform_inv [OF assms(2) this] assms(3) show ?thesis
    by (auto simp: audited_def intro!: audit_ok_append [OF assms(3)])
next
  case (apply_plan actor flags segs dry ev old out)
  from apply_config_Ok [OF this] consider "db' = db" |
    db1 where "each_tx (upsert_change flags segs) (ao_changes out) db = Ok ((), db1)"
      "db' = foldl (audit_change actor)
         (foldl prune_segment (foldl prune_flag db1 (ao_changes out)) (ao_changes out)) (ao_changes out)" by blast
  then show ?thesis
  proof cases
    case 1
    with assms show ?thesis by simp
  next
    case (2 db1)
    let ?db2 = "foldl prune_segment (foldl prune_flag db1 (ao_changes out)) (ao_changes out)"
    have "db_inv db1" by (rule each_tx_inv [where P = db_inv, OF _ assms(2) 2(1)]) (rule upsert_change_inv)
    then have "db_inv db'" using audit_pass [of actor ?db2 "ao_changes out"] prune_inv 2(2) by simp
    have "quiet db db1" by (rule quiet.rel_each_tx [OF _ 2(1)]) (rule upsert_change_quiet)
    then have "quiet db ?db2" using prune_quiet quiet.rel_trans by blast
    moreover have "db_version db' = db_version ?db2"
      using audit_pass [of actor ?db2 "ao_changes out"] 2(2) by simp
    moreover obtain rows where "db_changes db' = db_changes ?db2 @ rows"
        "\<forall>r\<in>set rows. fc_version r = db_version ?db2"
      using audit_rows [of actor ?db2 "ao_changes out"] 2(2) by auto
    ultimately have "audit_ok db'"
      by (intro audit_ok_append [OF assms(3), of db' rows]) (simp_all add: quiet_def)
    with \<open>db_inv db'\<close> have "db_inv db' \<and> audit_ok db'" by simp
    then show ?thesis .
  qed
qed

lemma audit_ok_migrated [simp]: "audit_ok migrated"
  by (simp add: audit_ok_def migrated_def)


definition ex_create :: StoreCall where
  "ex_create = CreateFlag ''beta'' Boolean True ''on''
     [\<lparr>v_key = ''on'', v_value = JBool True\<rparr>, \<lparr>v_key = ''off'', v_value = JBool False\<rparr>]"

definition ex_db :: Db where
  "ex_db = (case perform ''alice'' ex_create migrated of Ok (_, db) \<Rightarrow> db | Err _ \<Rightarrow> migrated)"

lemma ex_db_step: "perform ''alice'' ex_create migrated = Ok ((), ex_db)"
  by code_simp


section \<open>Calls\<close>

lemma store_refines_call:
  "db_inv db \<Longrightarrow> call_fits c \<Longrightarrow> refines (perform actor c db) (spec_call c (config db))"
  by (cases c) (simp_all add: create_flag_refines update_flag_refines archive_flag_refines
        delete_flag_refines upsert_variant_refines delete_variant_refines segment_calls_refine
        set_flag_rules_refines)

text \<open>C5: Every call of the store refines the map-level specification: on consistent tables it
  fails exactly where the specification refuses, and otherwise leads to exactly the flags and
  segments the specification names.\<close>

theorem store_refines_maps:
  assumes "db_inv db" and "call_fits c"
  shows "case perform actor c db of
      Err _ \<Rightarrow> spec_call c (config db) = None
    | Ok (_, db') \<Rightarrow> spec_call c (config db) = Some (config db')"
  using store_refines_call [OF assms, of actor] by (simp add: refines_def)

theorem store_refines_maps_witness:
  "spec_call ex_create (config migrated) = Some (config ex_db)
   \<and> flag_at ex_db ''beta'' = Some (new_flag ''beta'' Boolean True ''on''
       [\<lparr>v_key = ''on'', v_value = JBool True\<rparr>, \<lparr>v_key = ''off'', v_value = JBool False\<rparr>])"
proof -
  have "spec_call ex_create (config migrated) = Some (config ex_db)"
    using store_refines_maps [of migrated ex_create "''alice''"] by (simp add: ex_db_step) (simp add: ex_create_def)
  moreover have "flag_at ex_db ''beta'' = Some (new_flag ''beta'' Boolean True ''on''
       [\<lparr>v_key = ''on'', v_value = JBool True\<rparr>, \<lparr>v_key = ''off'', v_value = JBool False\<rparr>])"
    by code_simp
  ultimately show ?thesis by simp
qed

text \<open>A call that succeeds moves the version and appends exactly one row to the audit log,
  by its actor and stamped with the new version.\<close>

theorem writes_are_audited:
  assumes "perform actor c db = Ok ((), db')"
  shows "db_version db < db_version db'
    \<and> (\<exists>row. db_changes db' = db_changes db @ [row] \<and> fc_version row = db_version db' \<and> fc_actor row = actor)"
  using perform_audited [OF assms] by (simp add: audited_def)

theorem writes_are_audited_witness:
  "db_version migrated < db_version ex_db \<and> (\<exists>row. db_changes ex_db = [row] \<and> fc_actor row = ''alice'')"
  using writes_are_audited [OF ex_db_step] by (auto simp: migrated_def)

definition all_valid :: "Db \<Rightarrow> bool" where
  "all_valid db \<longleftrightarrow> (\<forall>k f. flag_at db k = Some f \<longrightarrow> validate_flag f = Ok ())"

lemma stored_rules_valid:
  "\<forall>r\<in>set rs. rule_valid vs r \<Longrightarrow> \<forall>r\<in>set (stored_rules n rs). rule_valid vs r"
proof -
  have "rule_valid vs (stored_rule n r) = rule_valid vs r" for n r
    by (simp add: stored_rule_def rule_valid_def)
  then show "\<forall>r\<in>set rs. rule_valid vs r \<Longrightarrow> ?thesis" by (induction rs arbitrary: n) simp_all
qed

lemma rule_valid_mono: "rule_valid vs r \<Longrightarrow> vs \<subseteq> ws \<Longrightarrow> rule_valid ws r"
  by (auto simp: rule_valid_def)

lemma put_variant_valid:
  assumes "validate_flag f = Ok ()" and "variant_type_ok (f_value_type f) (v_value v)"
  shows "validate_flag (f\<lparr>f_variants := put_variant v (f_variants f)\<rparr>) = Ok ()"
proof -
  let ?vs = "v_key ` set (f_variants f)"
  have keys: "v_key ` set (put_variant v (f_variants f)) = insert (v_key v) ?vs"
    by (rule put_variant_keys)
  have "\<forall>r\<in>set (f_rules f). rule_valid (insert (v_key v) ?vs) r"
    using assms(1) rule_valid_mono [of ?vs _ "insert (v_key v) ?vs"] by (auto simp: validate_flag_Ok)
  moreover have "\<forall>w\<in>set (put_variant v (f_variants f)). variant_type_ok (f_value_type f) (v_value w)"
    using assms by (auto simp: validate_flag_Ok put_variant_set)
  ultimately show ?thesis
    using assms(1) by (simp add: validate_flag_Ok variant_known_def keys)
qed

lemma spec_keeps_valid:
  assumes "spec_call c (fl, sg) = Some (fl', sg')" and "\<And>k v. c \<noteq> DeleteVariant k v"
    and "\<forall>k f. fl k = Some f \<longrightarrow> validate_flag f = Ok ()"
  shows "\<forall>k f. fl' k = Some f \<longrightarrow> validate_flag f = Ok ()"
proof (cases c)
  case (UpsertVariant k v)
  with assms(1) obtain f where f: "fl k = Some f" "variant_type_ok (f_value_type f) (v_value v)"
    and fl': "fl' = fl(k \<mapsto> f\<lparr>f_variants := put_variant v (f_variants f)\<rparr>)"
    by (auto split: option.splits if_splits)
  from assms(3) f(1) have "validate_flag f = Ok ()" by simp
  with f(2) have "validate_flag (f\<lparr>f_variants := put_variant v (f_variants f)\<rparr>) = Ok ()"
    by (intro put_variant_valid)
  with assms(3) show ?thesis by (simp add: fl')
next
  case (SetFlagRules k rs)
  with assms(1) obtain f where f: "fl k = Some f" "\<forall>r\<in>set rs. rule_valid (v_key ` set (f_variants f)) r"
    and fl': "fl' = fl(k \<mapsto> f\<lparr>f_rules := stored_rules 0 rs\<rparr>)"
    by (auto split: option.splits if_splits)
  from assms(3) f(1) have "validate_flag f = Ok ()" by simp
  with stored_rules_valid [OF f(2), of 0] have "validate_flag (f\<lparr>f_rules := stored_rules 0 rs\<rparr>) = Ok ()"
    by (simp add: validate_flag_Ok variant_known_def)
  with assms(3) show ?thesis by (simp add: fl')
qed (use assms in \<open>auto simp: new_flag_def validate_flag_Ok variant_known_def split: option.splits if_splits\<close>)

text \<open>Flags that pass validation still pass it after any call but the deletion of a variant.\<close>

theorem calls_keep_flags_valid:
  assumes "db_inv db" and "call_fits c" and "all_valid db" and "perform actor c db = Ok ((), db')"
    and "\<And>k v. c \<noteq> DeleteVariant k v"
  shows "all_valid db'"
proof -
  have spec: "spec_call c (config db) = Some (config db')"
    using store_refines_call [OF assms(1,2), of actor] assms(4) by simp
  then show ?thesis
    using spec_keeps_valid [OF _ assms(5), of "flag_at db" "segment_at db"] assms(3)
    by (simp add: all_valid_def config_def)
qed

lemma flag_at_migrated [simp]: "flag_at migrated k = None" "segment_at migrated k = None"
  by (simp_all add: flag_at_None segment_at_None migrated_def)

theorem calls_keep_flags_valid_witness:
  "all_valid ex_db \<and> flag_at ex_db ''beta'' \<noteq> None"
proof -
  have "all_valid ex_db"
    by (rule calls_keep_flags_valid [OF _ _ _ ex_db_step]) (simp_all add: all_valid_def ex_create_def)
  moreover have "flag_at ex_db ''beta'' \<noteq> None" by code_simp
  ultimately show ?thesis by simp
qed

text \<open>
  The deletion of a variant is not checked: it can take the default variant from a flag, which
  then no longer passes validation.
\<close>

lemma delete_variant_breaks_flag:
  "\<exists>db. perform ''alice'' (DeleteVariant ''beta'' ''on'') ex_db = Ok ((), db) \<and> \<not> all_valid db"
proof -
  have beta: "flag_at ex_db ''beta'' = Some (new_flag ''beta'' Boolean True ''on''
       [\<lparr>v_key = ''on'', v_value = JBool True\<rparr>, \<lparr>v_key = ''off'', v_value = JBool False\<rparr>])"
    by code_simp
  have inv: "db_inv ex_db" by (rule perform_inv [OF _ ex_db_step]) simp
  obtain db where step: "perform ''alice'' (DeleteVariant ''beta'' ''on'') ex_db = Ok ((), db)"
    and conf: "spec_call (DeleteVariant ''beta'' ''on'') (config ex_db) = Some (config db)"
    using store_refines_call [OF inv, of "DeleteVariant ''beta'' ''on''" "''alice''"] beta
    by (auto simp: refines_def config_def split: sum.splits)
  from conf have "flag_at db = (flag_at ex_db)(''beta'' \<mapsto> new_flag ''beta'' Boolean True ''on''
       [\<lparr>v_key = ''off'', v_value = JBool False\<rparr>])"
    by (simp add: config_def beta new_flag_def)
  then have flag: "flag_at db ''beta'' = Some (new_flag ''beta'' Boolean True ''on''
       [\<lparr>v_key = ''off'', v_value = JBool False\<rparr>])"
    by simp
  have "validate_flag (new_flag ''beta'' Boolean True ''on'' [\<lparr>v_key = ''off'', v_value = JBool False\<rparr>]) \<noteq> Ok ()"
    by (simp add: validate_flag_Ok new_flag_def variant_known_def)
  with flag have "\<not> all_valid db" by (auto simp: all_valid_def)
  with step show ?thesis by blast
qed

section \<open>Applying a desired configuration\<close>



text \<open>Every change of a plan runs at least one statement.\<close>

lemma upsert_change_bumps:
  assumes "upsert_change flags segs c db = Ok ((), db')" and "cc_op c \<noteq> Delete"
    and "cc_target_kind c = ''segment'' \<or> cc_target_kind c = ''flag''"
  shows "db_version db < db_version db'"
  using assms by (auto simp: upsert_change_def split: if_splits
      dest!: quiet_upsert_segment quiet_upsert_flag simp: quiet_def)

lemma diff_kinds:
  "c \<in> set (diff_config cur flags segs) \<Longrightarrow> cc_target_kind c = ''segment'' \<or> cc_target_kind c = ''flag''"
  by (auto simp: diff_config_def prune_change_def change_def dest: segment_change_fields flag_change_fields
      split: if_splits)

lemma plan_bumps:
  assumes "each_tx (upsert_change flags segs) cs db = Ok ((), db1)" and "cs \<noteq> []"
    and "\<forall>c\<in>set cs. cc_target_kind c = ''segment'' \<or> cc_target_kind c = ''flag''"
  shows "db_version db < db_version (foldl prune_segment (foldl prune_flag db1 cs) cs)"
proof -
  obtain c cs' where cs: "cs = c # cs'" using assms(2) by (cases cs) auto
  obtain db0 where first: "upsert_change flags segs c db = Ok ((), db0)"
    and rest: "each_tx (upsert_change flags segs) cs' db0 = Ok ((), db1)"
    using assms(1) by (auto simp: cs and_tx_Ok)
  have "quiet db0 db1" by (rule quiet.rel_each_tx [OF _ rest]) (rule upsert_change_quiet)
  moreover have "quiet db db0" by (rule upsert_change_quiet [OF first])
  moreover note prune_quiet [of db1 cs cs]
  moreover have "db_version db < db_version db0 \<or> db_version db1 < db_version (foldl prune_segment (foldl prune_flag db1 cs) cs)"
  proof (cases "cc_op c = Delete")
    case False
    with upsert_change_bumps [OF first] assms(3) show ?thesis by (simp add: cs)
  next
    case del: True
    have grow: "quiet db (foldl prune_flag db ds)" "quiet db (foldl prune_segment db ds)" for db ds
      using prune_quiet [of db ds "[]"] prune_quiet [of db "[]" ds] by simp_all
    show ?thesis
    proof (cases "cc_target_kind c = ''flag''")
      case True
      then have "db_version db1 < db_version (prune_flag db1 c)"
        using del quiet_statements(6) [of db1 "cc_target_key c"] by (simp add: prune_flag_def quiet_def)
      with grow(1) [of "prune_flag db1 c" cs'] grow(2) [of "foldl prune_flag db1 cs" cs]
      show ?thesis by (simp add: cs quiet_def)
    next
      case False
      let ?db = "foldl prune_flag db1 cs"
      have "db_version ?db < db_version (prune_segment ?db c)"
        using False del assms(3) quiet_statements(7) [of ?db "cc_target_key c"]
        by (simp add: cs prune_segment_def quiet_def)
      with grow(2) [of "prune_segment ?db c" cs'] grow(1) [of db1 cs]
      show ?thesis by (simp add: cs quiet_def)
    qed
  qed
  ultimately show ?thesis by (auto simp: quiet_def)
qed

lemma store_step_moves: "store_step db db' \<Longrightarrow> db' = db \<or> db_version db < db_version db'"
proof (erule store_stepE)
  fix actor c assume "perform actor c db = Ok ((), db')"
  then show ?thesis using perform_audited by (auto simp: audited_def)
next
  fix actor flags segs dry ev old out
  assume "apply_config actor flags segs dry ev old db = Ok (out, db')"
  from apply_config_Ok [OF this] show ?thesis
  proof (elim exE conjE disjE)
    fix cur db1
    assume cs: "ao_changes out = diff_config cur flags segs" "ao_changes out \<noteq> []"
      and tx: "each_tx (upsert_change flags segs) (ao_changes out) db = Ok ((), db1)"
      and db': "db' = foldl (audit_change actor) (foldl prune_segment (foldl prune_flag db1 (ao_changes out))
         (ao_changes out)) (ao_changes out)"
    show ?thesis
      using plan_bumps [OF tx cs(2)] diff_kinds [of _ cur flags segs] audit_pass
      unfolding cs(1) db' by fastforce
  qed simp_all
qed

lemma history_moves: "store_step\<^sup>*\<^sup>* db later \<Longrightarrow> later = db \<or> db_version db < db_version later"
  by (induction rule: rtranclp_induct) (auto dest: store_step_moves)

text \<open>A plan never overwrites what others wrote after it was computed: if anything changed in
  between, \<open>apply_config\<close> fails or has nothing to do.\<close>

theorem stale_plan_writes_nothing:
  assumes "db_inv db" and "store_step\<^sup>*\<^sup>* db later" and "later \<noteq> db"
    and "apply_config actor flags segs dry ev db later = Ok (out, db')"
  shows "db' = later \<and> (dry \<or> ao_changes out = [])"
proof -
  have "db_version db < db_version later" using history_moves [OF assms(2)] assms(3) by simp
  moreover have "sn_version cur = db_version db" if "load_snapshot db = Ok cur" for cur
    using that hget_loaded(3) assms(1) by (auto simp: db_inv_def)
  ultimately show ?thesis using apply_config_Ok [OF assms(4)] by auto
qed

theorem stale_plan_writes_nothing_witness:
  "\<exists>out. apply_config ''bob'' [] [] True 0 migrated ex_db = Ok (out, ex_db)
   \<and> apply_config ''bob'' [ex_beta] [] False 0 migrated ex_db
       = Err (Aborted ''configuration changed since the plan was computed; re-run plan'')"
proof -
  have dry: "apply_config ''bob'' [] [] True 0 migrated ex_db =
      Ok (\<lparr>ao_changes = [], ao_from_version = 1, ao_to_version = 1, ao_applied = False\<rparr>, ex_db)"
    by code_simp
  have "store_step\<^sup>*\<^sup>* migrated ex_db" using ex_db_step by (auto intro: store_step.call)
  moreover have "ex_db \<noteq> migrated" by code_simp
  ultimately have "ex_db = ex_db \<and> (True \<or> ao_changes \<lparr>ao_changes = [], ao_from_version = 1, ao_to_version = 1, ao_applied = False\<rparr> = [])"
    using stale_plan_writes_nothing [OF db_inv_migrated _ _ dry] by blast
  moreover have "apply_config ''bob'' [ex_beta] [] False 0 migrated ex_db
       = Err (Aborted ''configuration changed since the plan was computed; re-run plan'')"
    by code_simp
  ultimately show ?thesis using dry by blast
qed

text \<open>The version moves once per statement, not once per applied configuration.\<close>

lemma apply_bumps_per_statement:
  "(case apply_config ''bob'' [ex_beta] [] False 0 migrated migrated of
      Ok (out, _) \<Rightarrow> (length (ao_changes out), ao_from_version out, ao_to_version out) | Err _ \<Rightarrow> (0, 0, 0)) = (1, 1, 9)"
  by code_simp

text \<open>A group without constraints matches nothing, but it leaves no row and comes back as no group.\<close>

lemma empty_group_is_lost:
  "stored_rules 0 [\<lparr>r_rank = 0, r_segment_key = None, r_variant_key = Some ''on'', r_distributions = [],
      r_constraint_groups = [\<lparr>g_constraints = []\<rparr>], r_bucket_salt = []\<rparr>]
   = [\<lparr>r_rank = 0, r_segment_key = None, r_variant_key = Some ''on'', r_distributions = [],
      r_constraint_groups = [], r_bucket_salt = []\<rparr>]"
  by (simp add: stored_rule_def)

end
