(* ===== verification/Text.thy ===== *)
theory Text
  imports Json "HOL-Library.Log_Nat"
begin

text \<open>
  The string and number functions of the Rust standard library that the components use:
  splitting, trimming, prefixes, digits, parsing of integers and the rounding behind \<open>f64\<close>
  literals and arithmetic. Text is ASCII where a function looks at the class of a character.
\<close>

section \<open>Splitting and joining\<close>

text \<open>\<open>str::split_once\<close> on a character: at its first occurrence.\<close>

fun split_once :: "char \<Rightarrow> string \<Rightarrow> (string \<times> string) option" where
  "split_once c [] = None"
| "split_once c (d # ds) =
     (if d = c then Some ([], ds)
      else (case split_once c ds of None \<Rightarrow> None | Some (a, b) \<Rightarrow> Some (d # a, b)))"

lemma split_once_append: "c \<notin> set a \<Longrightarrow> split_once c (a @ c # b) = Some (a, b)"
  by (induction a) auto

lemma split_once_Some: "split_once c s = Some (a, b) \<longleftrightarrow> s = a @ c # b \<and> c \<notin> set a"
proof
  show "split_once c s = Some (a, b) \<Longrightarrow> s = a @ c # b \<and> c \<notin> set a"
    by (induction s arbitrary: a) (auto split: if_splits option.splits)
qed (auto simp: split_once_append)

lemma split_once_None: "split_once c s = None \<longleftrightarrow> c \<notin> set s"
  by (induction s) (auto split: option.splits)

text \<open>\<open>split\<close> on a character and \<open>trim\<close> on ASCII white space.\<close>

fun split_on :: "char \<Rightarrow> string \<Rightarrow> string list" where
  "split_on c [] = [[]]"
| "split_on c (d # ds) =
     (if d = c then [] # split_on c ds
      else (case split_on c ds of [] \<Rightarrow> [[d]] | w # ws \<Rightarrow> (d # w) # ws))"

definition is_space :: "char \<Rightarrow> bool" where
  "is_space c = (let n = (of_char c :: nat) in n = 32 \<or> (9 \<le> n \<and> n \<le> 13))"

definition trim :: "string \<Rightarrow> string" where
  "trim s = rev (dropWhile is_space (rev (dropWhile is_space s)))"

definition trim_start :: "string \<Rightarrow> string" where
  "trim_start = dropWhile is_space"

text \<open>\<open>split_whitespace\<close>\<close>

function split_whitespace :: "string \<Rightarrow> string list" where
  "split_whitespace s =
     (case trim_start s of
        [] \<Rightarrow> []
      | c # cs \<Rightarrow> (c # takeWhile (\<lambda>d. \<not> is_space d) cs) # split_whitespace (dropWhile (\<lambda>d. \<not> is_space d) cs))"
  by pat_completeness auto
termination
proof (relation "measure length")
  fix s :: string and c cs
  assume "trim_start s = c # cs"
  then have "length (c # cs) \<le> length s"
    using length_dropWhile_le [of is_space s] by (simp add: trim_start_def)
  moreover have "length (dropWhile (\<lambda>d. \<not> is_space d) cs) \<le> length cs" by (rule length_dropWhile_le)
  ultimately show "(dropWhile (\<lambda>d. \<not> is_space d) cs, s) \<in> measure length" by simp
qed simp

declare split_whitespace.simps [simp del]

definition trim_end_slashes :: "string \<Rightarrow> string" where
  "trim_end_slashes s = rev (dropWhile (\<lambda>c. c = CHR ''/'') (rev s))"

definition strip_prefix :: "string \<Rightarrow> string \<Rightarrow> string option" where
  "strip_prefix p s = (if starts_with s p then Some (drop (length p) s) else None)"

fun join :: "string \<Rightarrow> string list \<Rightarrow> string" where
  "join sep [] = []"
| "join sep [s] = s"
| "join sep (s # t # ss) = s @ sep @ join sep (t # ss)"

definition ascii_lower :: "char \<Rightarrow> char" where
  "ascii_lower c = (let n = (of_char c :: nat) in if 65 \<le> n \<and> n \<le> 90 then char_of (n + 32) else c)"

definition to_lowercase :: "string \<Rightarrow> string" where
  "to_lowercase s = map ascii_lower s"

definition ascii_upper :: "char \<Rightarrow> char" where
  "ascii_upper c = (let n = (of_char c :: nat) in if 97 \<le> n \<and> n \<le> 122 then char_of (n - 32) else c)"

definition to_uppercase :: "string \<Rightarrow> string" where
  "to_uppercase s = map ascii_upper s"

section \<open>Digits and integers\<close>

text \<open>\<open>is_ascii_digit\<close> and \<open>is_alphanumeric\<close> on ASCII.\<close>

definition is_digit :: "char \<Rightarrow> bool" where
  "is_digit c = (let n = (of_char c :: nat) in 48 \<le> n \<and> n \<le> 57)"

definition is_alphanumeric :: "char \<Rightarrow> bool" where
  "is_alphanumeric c =
     (let n = (of_char c :: nat)
      in is_digit c \<or> (65 \<le> n \<and> n \<le> 90) \<or> (97 \<le> n \<and> n \<le> 122))"

definition digits_value :: "string \<Rightarrow> nat" where
  "digits_value ds = foldl (\<lambda>n c. 10 * n + (of_char c - 48)) 0 ds"

text \<open>\<open>str::parse::<i64>\<close> of an optional minus and digits.\<close>

definition parse_i64 :: "string \<Rightarrow> i64 option" where
  "parse_i64 s =
     (let neg = (s \<noteq> [] \<and> hd s = CHR ''-''); ds = (if neg then tl s else s);
          v = (if neg then - int (digits_value ds) else int (digits_value ds))
      in if ds \<noteq> [] \<and> list_all is_digit ds \<and> - (2 ^ 63) \<le> v \<and> v < 2 ^ 63
         then Some (word_of_int v) else None)"

text \<open>\<open>str::parse::<i64>\<close>, which also takes a leading plus.\<close>

definition str_parse_i64 :: "string \<Rightarrow> i64 option" where
  "str_parse_i64 s =
     (case s of
        c # rest \<Rightarrow>
          if c = CHR ''+''
          then (case rest of d # _ \<Rightarrow> if d = CHR ''-'' then None else parse_i64 rest | [] \<Rightarrow> None)
          else parse_i64 s
      | [] \<Rightarrow> None)"

text \<open>\<open>str::parse::<u64>\<close>: digits, with an optional leading plus, that fit.\<close>

definition str_parse_u64 :: "string \<Rightarrow> u64 option" where
  "str_parse_u64 s =
     (let ds = (case s of c # rest \<Rightarrow> if c = CHR ''+'' then rest else s | [] \<Rightarrow> [])
      in if ds \<noteq> [] \<and> list_all is_digit ds \<and> digits_value ds < 2 ^ 64
         then Some (of_nat (digits_value ds)) else None)"

section \<open>Rounding\<close>

text \<open>
  A positive rational rounded to the nearest \<open>f64\<close>, ties to even: the spacing is
  \<open>2^(e-52)\<close> for the binary exponent \<open>e\<close>, at least the subnormal spacing \<open>2^-1074\<close>.
\<close>

definition floor_log2 :: "rat \<Rightarrow> int" where
  "floor_log2 r =
     (let (p, q) = quotient_of r; e = int (floorlog 2 (nat p)) - int (floorlog 2 (nat q))
      in if 2 powi e \<le> r then e else e - 1)"

definition round_even :: "rat \<Rightarrow> int" where
  "round_even r =
     (let n = \<lfloor>r\<rfloor>; d = r - of_int n
      in if 1 / 2 < d \<or> (d = 1 / 2 \<and> odd n) then n + 1 else n)"

definition round_f64 :: "rat \<Rightarrow> f64" where
  "round_f64 r =
     (if r = 0 then Fin 0
      else
        (let a = \<bar>r\<bar>; spacing = 2 powi (max (floor_log2 a - 52) (- 1074));
             v = of_int (round_even (a / spacing)) * spacing
         in if 2 ^ 1024 \<le> v then (if 0 < r then PosInf else NegInf)
            else if 0 < r then Fin v else Fin (- v)))"

section \<open>Lines and UTF-8\<close>

text \<open>
  \<open>str::lines\<close>: what ends in a newline, without it and without a carriage return before it,
  and a last line that ends in none.
\<close>

definition strip_cr :: "string \<Rightarrow> string" where
  "strip_cr l = (if l \<noteq> [] \<and> last l = CHR 0x0D then butlast l else l)"

definition str_lines :: "string \<Rightarrow> string list" where
  "str_lines s =
     (let ps = split_on (CHR 0x0A) s
      in map strip_cr (butlast ps) @ (if last ps = [] then [] else [last ps]))"

definition byte :: "char \<Rightarrow> nat" where
  "byte c = of_char c"

text \<open>\<open>HeaderValue::to_str\<close>: only visible ASCII, space and tab. Header names are lower case.\<close>

definition to_str :: "string \<Rightarrow> string option" where
  "to_str v = (if list_all (\<lambda>c. 32 \<le> byte c \<and> byte c < 127 \<or> byte c = 9) v then Some v else None)"

text \<open>
  \<open>String::from_utf8_lossy\<close>: \<open>utf8_need\<close> gives, for a leading byte, the ranges its continuation
  bytes must lie in; the longest prefix of a broken sequence becomes one replacement character.
\<close>

definition utf8_need :: "nat \<Rightarrow> (nat \<times> nat) list option" where
  "utf8_need b =
     (if b < 0x80 then Some []
      else if 0xC2 \<le> b \<and> b \<le> 0xDF then Some [(0x80, 0xBF)]
      else if b = 0xE0 then Some [(0xA0, 0xBF), (0x80, 0xBF)]
      else if b = 0xED then Some [(0x80, 0x9F), (0x80, 0xBF)]
      else if 0xE1 \<le> b \<and> b \<le> 0xEF then Some [(0x80, 0xBF), (0x80, 0xBF)]
      else if b = 0xF0 then Some [(0x90, 0xBF), (0x80, 0xBF), (0x80, 0xBF)]
      else if 0xF1 \<le> b \<and> b \<le> 0xF3 then Some [(0x80, 0xBF), (0x80, 0xBF), (0x80, 0xBF)]
      else if b = 0xF4 then Some [(0x80, 0x8F), (0x80, 0xBF), (0x80, 0xBF)]
      else None)"

fun utf8_take :: "(nat \<times> nat) list \<Rightarrow> string \<Rightarrow> nat" where
  "utf8_take ((lo, hi) # rs) (c # cs) =
     (if lo \<le> byte c \<and> byte c \<le> hi then Suc (utf8_take rs cs) else 0)"
| "utf8_take _ _ = 0"

definition replacement :: string where
  "replacement = [CHR 0xEF, CHR 0xBF, CHR 0xBD]"

function from_utf8_lossy :: "string \<Rightarrow> string" where
  "from_utf8_lossy [] = []"
| "from_utf8_lossy (c # cs) =
     (case utf8_need (byte c) of
        None \<Rightarrow> replacement @ from_utf8_lossy cs
      | Some rs \<Rightarrow>
          (let n = utf8_take rs cs
           in (if n = length rs then c # take n cs else replacement) @ from_utf8_lossy (drop n cs)))"
  by pat_completeness auto
termination
  by (relation "measure length") auto

lemma from_utf8_lossy_ascii: "list_all (\<lambda>c. byte c < 0x80) s \<Longrightarrow> from_utf8_lossy s = s"
  by (induction s) (simp_all add: utf8_need_def)

text \<open>\<open>{:?}\<close> of a \<open>str\<close>, its characters up to 127; longer ones are printed as they are.\<close>

definition debug_char :: "char \<Rightarrow> string" where
  "debug_char c =
     (let n = (of_char c :: nat); hex = (\<lambda>d. if d < 10 then digit d else char_of (87 + d))
      in if c = CHR 0x22 \<or> c = CHR 0x5C then [CHR 0x5C, c]
         else if n = 0 then [CHR 0x5C, CHR ''0'']
         else if n = 9 then [CHR 0x5C, CHR ''t'']
         else if n = 10 then [CHR 0x5C, CHR ''n'']
         else if n = 13 then [CHR 0x5C, CHR ''r'']
         else if n < 32 \<or> n = 127 then
           CHR 0x5C # ''u{'' @ (if n < 16 then [hex n] else [hex (n div 16), hex (n mod 16)]) @ ''}''
         else [c])"

definition debug_text :: "string \<Rightarrow> string" where
  "debug_text s = CHR 0x22 # concat (map debug_char s) @ [CHR 0x22]"

end
