(* ===== verification/RuleEvent.thy ===== *)
theory RuleEvent
  imports Text
begin

text \<open>
  The events of the janitor bot: \<open>platform-services/janitor-bot/src/event/types.rs\<close> and
  \<open>event/mod.rs\<close>, with the template variables rules can use. A \<open>u64\<close> keeps its width; a
  slice \<open>&sha[..7]\<close> is \<open>take 7\<close> (shas are ASCII). The regex crate and \<open>serde_json\<close>'s text form
  are the parameters of the record below.
\<close>

section \<open>Third-party text functions\<close>

text \<open>
  \<open>metadata_capture\<close>: the first capture group of the metadata pattern in a pull request
  body. \<open>json_from_str\<close>, \<open>json_to_string\<close>: \<open>serde_json\<close>'s parser and compact printer.
\<close>

record text_crates =
  metadata_capture :: "string \<Rightarrow> string option"
  json_from_str :: "string \<Rightarrow> json option"
  json_to_string :: "json \<Rightarrow> string"

section \<open>Webhook payloads\<close>

record Label =
  l_id :: u64
  l_name :: string

record PullRequest =
  w_number :: u64
  w_title :: string
  w_body :: string
  w_labels :: "Label list"
  w_base :: "string option option"
  w_head :: "string option option"
  w_merged :: bool
  w_merge_commit_sha :: "string option"

record IssueRef =
  i_number :: u64
  i_body :: "string option"
  i_labels :: "Label list"

record Comment =
  k_id :: i64
  k_body :: string

text \<open>
  \<open>sender\<close> and \<open>repository\<close> hold one string each (the login and the full name), \<open>base\<close> and
  \<open>head\<close> the optional \<open>ref\<close>.
\<close>

record WebhookEvent =
  wh_action :: string
  wh_pull_request :: "PullRequest option"
  wh_issue :: "IssueRef option"
  wh_comment :: "Comment option"
  wh_sender :: "string option"
  wh_repository :: "string option"

section \<open>Events\<close>

record CommentEvent =
  ce_owner :: string
  ce_repo :: string
  ce_pr_number :: u64
  ce_comment_id :: i64
  ce_author :: string
  ce_body :: string

record IssueCommentEvent =
  ie_owner :: string
  ie_repo :: string
  ie_issue_number :: u64
  ie_comment_id :: i64
  ie_author :: string
  ie_comment_body :: string
  ie_issue_body :: string
  ie_issue_labels :: "string list"

record PrEvent =
  pe_action :: string
  pe_author :: string
  pe_owner :: string
  pe_repo :: string
  pe_pr_number :: u64
  pe_title :: string
  pe_body :: string
  pe_target_branch :: string
  pe_source_branch :: string
  pe_labels :: "Label list"
  pe_merged :: bool
  pe_merge_commit_sha :: "string option"

record CommitStatusEvent =
  st_repository :: string
  st_sha :: string
  st_state :: string
  st_context :: string
  st_description :: string
  st_target_url :: string

record ArgoSyncEvent =
  sy_app_name :: string
  sy_sha :: string
  sy_sync_status :: string
  sy_health_status :: string
  sy_phase :: string
  sy_message :: string

record PushEvent =
  pu_repository :: string
  pu_branch :: string

record CheckRunEvent =
  ck_repository :: string
  ck_sha :: string
  ck_name :: string
  ck_status :: string
  ck_conclusion :: string
  ck_details_url :: string
  ck_app_name :: string
  ck_run_id :: "u64 option"
  ck_workflow_name :: string

record WorkflowEvent =
  wf_run_id :: u64
  wf_workflow_name :: string
  wf_conclusion :: string
  wf_run_url :: string
  wf_repository :: string
  wf_branch :: string
  wf_head_sha :: string
  wf_commit_message :: string
  wf_commit_author :: string
  wf_actor :: string
  wf_run_number :: u64
  wf_run_attempt :: u64
  wf_jobs_url :: string
  wf_display_title :: string
  wf_failed_jobs_logs :: string
  wf_created_at :: string
  wf_updated_at :: string

datatype BotEvent =
    ForgejoPr PrEvent
  | GitHubWorkflow WorkflowEvent
  | GitHubCommitStatus CommitStatusEvent
  | GitHubCheckRun CheckRunEvent
  | GitHubPush PushEvent
  | ArgoSync ArgoSyncEvent

section \<open>From webhooks to events\<close>

definition opt_default :: "string option \<Rightarrow> string" where
  "opt_default x = (case x of None \<Rightarrow> [] | Some s \<Rightarrow> s)"

definition flat_ref :: "string option option \<Rightarrow> string" where
  "flat_ref b = (case b of Some (Some r) \<Rightarrow> r | _ \<Rightarrow> [])"

definition into_issue_comment_event :: "WebhookEvent \<Rightarrow> IssueCommentEvent option" where
  "into_issue_comment_event w =
     (case (wh_comment w, wh_issue w, wh_sender w, wh_repository w) of
        (Some comment, Some issue, Some sender, Some full_name) \<Rightarrow>
          (case split_once (CHR ''/'') full_name of
             None \<Rightarrow> None
           | Some (owner, repo) \<Rightarrow>
               Some \<lparr>ie_owner = owner, ie_repo = repo, ie_issue_number = i_number issue,
                     ie_comment_id = k_id comment, ie_author = sender,
                     ie_comment_body = k_body comment,
                     ie_issue_body = opt_default (i_body issue),
                     ie_issue_labels = map l_name (i_labels issue)\<rparr>)
      | _ \<Rightarrow> None)"

definition into_comment_event :: "WebhookEvent \<Rightarrow> CommentEvent option" where
  "into_comment_event w =
     (case (wh_comment w, wh_issue w, wh_sender w, wh_repository w) of
        (Some comment, Some issue, Some sender, Some full_name) \<Rightarrow>
          (case split_once (CHR ''/'') full_name of
             None \<Rightarrow> None
           | Some (owner, repo) \<Rightarrow>
               Some \<lparr>ce_owner = owner, ce_repo = repo, ce_pr_number = i_number issue,
                     ce_comment_id = k_id comment, ce_author = sender, ce_body = k_body comment\<rparr>)
      | _ \<Rightarrow> None)"

definition into_pr_event :: "WebhookEvent \<Rightarrow> PrEvent option" where
  "into_pr_event w =
     (case (wh_pull_request w, wh_sender w, wh_repository w) of
        (Some pr, Some sender, Some full_name) \<Rightarrow>
          (case split_once (CHR ''/'') full_name of
             None \<Rightarrow> None
           | Some (owner, repo) \<Rightarrow>
               Some \<lparr>pe_action = wh_action w, pe_author = sender, pe_owner = owner, pe_repo = repo,
                     pe_pr_number = w_number pr, pe_title = w_title pr, pe_body = w_body pr,
                     pe_target_branch = flat_ref (w_base pr),
                     pe_source_branch = flat_ref (w_head pr), pe_labels = w_labels pr,
                     pe_merged = w_merged pr, pe_merge_commit_sha = w_merge_commit_sha pr\<rparr>)
      | _ \<Rightarrow> None)"

section \<open>Kind and key\<close>

fun event_kind :: "BotEvent \<Rightarrow> string" where
  "event_kind (ForgejoPr _) = ''pr''"
| "event_kind (GitHubWorkflow _) = ''workflow''"
| "event_kind (GitHubCommitStatus _) = ''commit_status''"
| "event_kind (GitHubCheckRun _) = ''check_run''"
| "event_kind (GitHubPush _) = ''push''"
| "event_kind (ArgoSync _) = ''argocd_sync''"

definition show_u64 :: "u64 \<Rightarrow> string" where
  "show_u64 n = show_nat (unat n)"

fun event_key :: "BotEvent \<Rightarrow> string" where
  "event_key (ForgejoPr pr) =
     pe_owner pr @ ''/'' @ pe_repo pr @ '' #'' @ show_u64 (pe_pr_number pr)"
| "event_key (GitHubWorkflow w) = wf_workflow_name w @ '' ('' @ wf_conclusion w @ '')''"
| "event_key (GitHubCommitStatus cs) =
     st_repository cs @ '' '' @ st_context cs @ '' ('' @ st_state cs @ '')''"
| "event_key (GitHubCheckRun cr) =
     ck_repository cr @ '' '' @ ck_name cr @ '' ('' @ ck_conclusion cr @ '')''"
| "event_key (GitHubPush p) = pu_repository p @ '' ('' @ pu_branch p @ '')''"
| "event_key (ArgoSync s) = sy_app_name s @ '' ('' @ sy_phase s @ '')''"

section \<open>Template variables\<close>

definition short_sha :: "string \<Rightarrow> string" where
  "short_sha sha = (if 7 \<le> length sha then take 7 sha else sha)"

definition sync_state :: "string \<Rightarrow> string \<Rightarrow> string" where
  "sync_state phase health =
     (if phase = ''Succeeded''
      then (if health = ''Healthy'' then ''success''
            else if health = ''Degraded'' then ''failure'' else ''pending'')
      else if phase = ''Failed'' \<or> phase = ''Error'' then ''failure''
      else ''pending'')"

definition check_run_state :: "string \<Rightarrow> string" where
  "check_run_state conclusion =
     (if conclusion = ''success'' then ''success''
      else if conclusion = ''failure'' \<or> conclusion = ''timed_out'' \<or> conclusion = ''action_required''
      then ''failure''
      else if conclusion = ''cancelled'' \<or> conclusion = ''skipped'' \<or> conclusion = ''stale''
      then ''error''
      else if conclusion = ''neutral'' then ''success''
      else ''pending'')"

definition number_u64 :: "u64 \<Rightarrow> json" where
  "number_u64 n = JNumber (PosInt n)"

definition workflow_metadata :: "WorkflowEvent \<Rightarrow> json" where
  "workflow_metadata w =
     JObject
       [(''branch'', JString (wf_branch w)),
        (''commit_sha'', JString (wf_head_sha w)),
        (''conclusion'', JString (wf_conclusion w)),
        (''created_at'', JString (wf_created_at w)),
        (''html_url'', JString (wf_run_url w)),
        (''logs_url'', JString (wf_run_url w @ ''/logs'')),
        (''run_id'', number_u64 (wf_run_id w)),
        (''updated_at'', JString (wf_updated_at w)),
        (''workflow'', JString (wf_workflow_name w))]"

fun event_vars :: "text_crates \<Rightarrow> BotEvent \<Rightarrow> string hmap" where
  "event_vars T (ForgejoPr pr) =
     [(''repository'', pe_owner pr @ ''/'' @ pe_repo pr),
      (''forgejo_pr.action'', pe_action pr),
      (''forgejo_pr.author'', pe_author pr),
      (''forgejo_pr.owner'', pe_owner pr),
      (''forgejo_pr.repo'', pe_repo pr),
      (''forgejo_pr.pr_number'', show_u64 (pe_pr_number pr)),
      (''forgejo_pr.title'', pe_title pr),
      (''forgejo_pr.target_branch'', pe_target_branch pr)]
     @ (case pe_merge_commit_sha pr of None \<Rightarrow> []
        | Some sha \<Rightarrow> [(''forgejo_pr.merge_commit_sha'', sha)])"
| "event_vars T (GitHubCommitStatus cs) =
     [(''repository'', st_repository cs),
      (''sha'', st_sha cs),
      (''state'', st_state cs),
      (''context'', st_context cs),
      (''description'', st_description cs),
      (''target_url'', st_target_url cs),
      (''short_sha'', short_sha (st_sha cs))]"
| "event_vars T (ArgoSync s) =
     [(''argocd_sync.app_name'', sy_app_name s),
      (''sha'', sy_sha s),
      (''argocd_sync.sync_status'', sy_sync_status s),
      (''argocd_sync.health_status'', sy_health_status s),
      (''argocd_sync.phase'', sy_phase s),
      (''argocd_sync.message'', sy_message s),
      (''state'', sync_state (sy_phase s) (sy_health_status s)),
      (''context'', ''ArgoCD / sync / '' @ sy_app_name s),
      (''description'', sy_phase s @ '' - '' @ sy_health_status s),
      (''target_url'', []),
      (''short_sha'', short_sha (sy_sha s))]"
| "event_vars T (GitHubPush p) =
     [(''repository'', pu_repository p),
      (''github_push.repository'', pu_repository p),
      (''github_push.branch'', pu_branch p)]"
| "event_vars T (GitHubCheckRun cr) =
     [(''repository'', ck_repository cr),
      (''sha'', ck_sha cr),
      (''github_check_run.name'', ck_name cr),
      (''github_check_run.status'', ck_status cr),
      (''github_check_run.conclusion'', ck_conclusion cr),
      (''github_check_run.details_url'', ck_details_url cr),
      (''github_check_run.app_name'', ck_app_name cr),
      (''github_check_run.workflow_name'', ck_workflow_name cr),
      (''state'', check_run_state (ck_conclusion cr)),
      (''context'', join '' / '' (filter (\<lambda>s. s \<noteq> []) [ck_app_name cr, ck_workflow_name cr, ck_name cr])),
      (''description'', ck_conclusion cr),
      (''target_url'', ck_details_url cr),
      (''short_sha'', short_sha (ck_sha cr))]"
| "event_vars T (GitHubWorkflow w) =
     [(''repository'', wf_repository w),
      (''sha'', wf_head_sha w),
      (''short_sha'', short_sha (wf_head_sha w)),
      (''github_workflow.run_id'', show_u64 (wf_run_id w)),
      (''github_workflow.workflow_name'', wf_workflow_name w),
      (''github_workflow.conclusion'', wf_conclusion w),
      (''github_workflow.run_url'', wf_run_url w),
      (''github_workflow.branch'', wf_branch w),
      (''github_workflow.head_sha'', wf_head_sha w),
      (''github_workflow.commit_message'', wf_commit_message w),
      (''github_workflow.commit_author'', wf_commit_author w),
      (''github_workflow.actor'', wf_actor w),
      (''github_workflow.run_number'', show_u64 (wf_run_number w)),
      (''github_workflow.run_attempt'', show_u64 (wf_run_attempt w)),
      (''github_workflow.display_title'', wf_display_title w),
      (''github_workflow.failed_jobs_logs'', wf_failed_jobs_logs w),
      (''github_workflow.created_at'', wf_created_at w),
      (''github_workflow.updated_at'', wf_updated_at w),
      (''github_workflow.logs_url'', wf_run_url w @ ''/logs''),
      (''github_workflow.metadata_json'', json_to_string T (workflow_metadata w))]"

text \<open>\<open>parse_pr_metadata\<close>: the captured text, parsed as a JSON object.\<close>

definition parse_pr_metadata :: "text_crates \<Rightarrow> string \<Rightarrow> (string \<times> json) list option" where
  "parse_pr_metadata T body =
     (case metadata_capture T body of
        None \<Rightarrow> None
      | Some txt \<Rightarrow> (case json_from_str T txt of Some v \<Rightarrow> as_object v | None \<Rightarrow> None))"

definition metadata_text :: "text_crates \<Rightarrow> json \<Rightarrow> string" where
  "metadata_text T v = (case v of JString s \<Rightarrow> s | other \<Rightarrow> json_to_string T other)"

definition template_vars :: "text_crates \<Rightarrow> BotEvent \<Rightarrow> string hmap" where
  "template_vars T ev =
     (case ev of
        ForgejoPr pr \<Rightarrow>
          (case parse_pr_metadata T (pe_body pr) of
             None \<Rightarrow> event_vars T ev
           | Some meta \<Rightarrow>
               foldl (\<lambda>m (k, v). hinsert (''forgejo_pr.metadata.'' @ k) (metadata_text T v) m)
                 (event_vars T ev) meta)
      | _ \<Rightarrow> event_vars T ev)"

section \<open>Templates\<close>

text \<open>\<open>str::replace\<close>: every occurrence from the left, without overlap.\<close>

function replace_all :: "string \<Rightarrow> string \<Rightarrow> string \<Rightarrow> string" where
  "replace_all p r [] = []"
| "replace_all p r (c # cs) =
     (if p \<noteq> [] \<and> starts_with (c # cs) p then r @ replace_all p r (drop (length p) (c # cs))
      else c # replace_all p r cs)"
  by pat_completeness auto
termination
  by (relation "measure (\<lambda>(p, r, s). length s)") auto

definition placeholder :: "string \<Rightarrow> string" where
  "placeholder key = ''{'' @ key @ ''}''"

text \<open>The variables are substituted one after the other, in the iteration order of the map.\<close>

definition render_template :: "string \<Rightarrow> string hmap \<Rightarrow> string" where
  "render_template template vars =
     foldl (\<lambda>result (key, value). replace_all (placeholder key) value result) template vars"

end
