(* ===== verification/RuleMatcher.thy ===== *)
theory RuleMatcher
  imports RuleEvent
begin

text \<open>
  The matchers of a rule: \<open>platform-services/janitor-bot/src/rules/matchers/types.rs\<close>. A
  \<open>TemplateString\<close> is its text. The glob crate is the parameter of the last section; letter
  case is folded on ASCII.
\<close>

section \<open>Types\<close>

datatype EventKind = KPr | KWorkflow | KCommitStatus | KCheckRun | KPush | KSync

datatype EventSource = Forgejo | Github | Argocd

datatype EventSourceSpec = One EventSource | Many "EventSource list"

fun source_matches :: "EventSourceSpec \<Rightarrow> EventSource \<Rightarrow> bool" where
  "source_matches (One s) source = (s = source)"
| "source_matches (Many ss) source = List.member ss source"

datatype Resource =
    RPullRequest | RPullRequestChangedFiles | RReviews | RCombinedStatus | ROpenPrs

datatype StatusCheckState = SPending | SSuccess | SErrorState | SFailure | SWarning

text \<open>\<open>forgejo_api::structs::CommitStatusState\<close> has the same five states and \<open>Skipped\<close>.\<close>

datatype CommitStatusState = FPending | FSuccess | FError | FFailure | FWarning | FSkipped

fun status_state_matches :: "StatusCheckState \<Rightarrow> CommitStatusState \<Rightarrow> bool" where
  "status_state_matches SPending FPending = True"
| "status_state_matches SSuccess FSuccess = True"
| "status_state_matches SErrorState FError = True"
| "status_state_matches SFailure FFailure = True"
| "status_state_matches SWarning FWarning = True"
| "status_state_matches _ _ = False"

datatype StringMatchMode =
    MContains | MContainsIgnoreCase | MEquals | MEqualsIgnoreCase | MStartsWith | MEndsWith

text \<open>A pattern is its text, a negated one starts with an exclamation mark.\<close>

datatype FilePattern = FilePattern string

datatype LeafMatcher =
    LEvent EventKind EventSourceSpec
  | LAppChangedInCommit string string
  | LAction string
  | LAuthor string
  | LTitleMatches string StringMatchMode
  | LHasLabel string
  | LHasChangedFiles
  | LChangedFilesAllMatch "FilePattern list"
  | LChangedFilesAnyMatch "FilePattern list"
  | LChangedFilesNoneMatch "FilePattern list"
  | LIsOpen
  | LIsMerged
  | LHasConflicts
  | LBotHasApproved
  | LBotCommentContains string string
  | LFeatureFlag string bool "(string \<times> string) list"
  | LTimeOfDay string string string bool
  | LWorkflowConclusion string
  | LTargetBranch string
  | LRepository string
  | LWorkflowRunAttempt
  | LHasStatusChecks
  | LAllStatusChecksPassed
  | LStatusChecks "string list" StatusCheckState
  | LIsLatestByMetadata "string list" "string option"
  | LIsLatestPublishedImage string string string

text \<open>\<open>Matcher\<close> with its \<open>Combinator\<close>, \<open>LeafExprMatcher\<close> and \<open>MatcherRef\<close> unfolded.\<close>

datatype Matcher =
    MAll "Matcher list"
  | MAny "Matcher list"
  | MNot Matcher
  | MLeafExpr LeafMatcher string
  | MRef string
  | MLeaf LeafMatcher

fun leaf_kind :: "LeafMatcher \<Rightarrow> string" where
  "leaf_kind (LEvent _ _) = ''event''"
| "leaf_kind (LAppChangedInCommit _ _) = ''app_changed_in_commit''"
| "leaf_kind (LAction _) = ''action''"
| "leaf_kind (LAuthor _) = ''author''"
| "leaf_kind (LTitleMatches _ _) = ''title_matches''"
| "leaf_kind (LHasLabel _) = ''has_label''"
| "leaf_kind LHasChangedFiles = ''has_changed_files''"
| "leaf_kind (LChangedFilesAllMatch _) = ''changed_files_all_match''"
| "leaf_kind (LChangedFilesAnyMatch _) = ''changed_files_any_match''"
| "leaf_kind (LChangedFilesNoneMatch _) = ''changed_files_none_match''"
| "leaf_kind LIsOpen = ''is_open''"
| "leaf_kind LIsMerged = ''is_merged''"
| "leaf_kind LHasConflicts = ''has_conflicts''"
| "leaf_kind LBotHasApproved = ''bot.has_approved''"
| "leaf_kind (LBotCommentContains _ _) = ''bot.comment_contains''"
| "leaf_kind (LFeatureFlag _ _ _) = ''feature_flag''"
| "leaf_kind (LTimeOfDay _ _ _ _) = ''time_of_day''"
| "leaf_kind (LWorkflowConclusion _) = ''workflow_conclusion''"
| "leaf_kind (LTargetBranch _) = ''target_branch''"
| "leaf_kind (LRepository _) = ''repository''"
| "leaf_kind LWorkflowRunAttempt = ''workflow_run_attempt''"
| "leaf_kind LHasStatusChecks = ''has_status_checks''"
| "leaf_kind LAllStatusChecksPassed = ''all_status_checks_passed''"
| "leaf_kind (LStatusChecks _ _) = ''status_checks''"
| "leaf_kind (LIsLatestByMetadata _ _) = ''is_latest_by_metadata''"
| "leaf_kind (LIsLatestPublishedImage _ _ _) = ''is_latest_published_image''"

section \<open>Text\<close>

fun mode_matches :: "StringMatchMode \<Rightarrow> string \<Rightarrow> string \<Rightarrow> bool" where
  "mode_matches MContains haystack needle = str_contains haystack needle"
| "mode_matches MContainsIgnoreCase haystack needle =
     str_contains (to_lowercase haystack) (to_lowercase needle)"
| "mode_matches MEquals haystack needle = (haystack = needle)"
| "mode_matches MEqualsIgnoreCase haystack needle = (to_lowercase haystack = to_lowercase needle)"
| "mode_matches MStartsWith haystack needle = starts_with haystack needle"
| "mode_matches MEndsWith haystack needle = ends_with haystack needle"

section \<open>File patterns\<close>

text \<open>
  \<open>globset\<close> is \<open>Glob::new\<close> and the compiled matcher: \<open>None\<close> for an invalid pattern. The source
  then falls back to the empty pattern, which the crate always accepts (it unwraps).
\<close>

type_synonym globset = "string \<Rightarrow> (string \<Rightarrow> bool) option"

definition strip_negation :: "string \<Rightarrow> bool \<times> string" where
  "strip_negation pattern =
     (case pattern of c # rest \<Rightarrow> if c = CHR ''!'' then (True, rest) else (False, pattern)
      | [] \<Rightarrow> (False, pattern))"

fun pattern_matches :: "globset \<Rightarrow> FilePattern \<Rightarrow> string \<Rightarrow> bool" where
  "pattern_matches G (FilePattern pattern) path =
     (let (negated, pat) = strip_negation pattern;
          is_match = (case G pat of Some m \<Rightarrow> m | None \<Rightarrow> the (G []));
          matched = is_match path
      in if negated then \<not> matched else matched)"

section \<open>Required resources\<close>

fun leaf_requires :: "LeafMatcher \<Rightarrow> Resource set" where
  "leaf_requires LIsOpen = {RPullRequest}"
| "leaf_requires LHasConflicts = {RPullRequest}"
| "leaf_requires LBotHasApproved = {RReviews}"
| "leaf_requires LHasStatusChecks = {RPullRequest, RCombinedStatus}"
| "leaf_requires LAllStatusChecksPassed = {RPullRequest, RCombinedStatus}"
| "leaf_requires (LStatusChecks _ _) = {RPullRequest, RCombinedStatus}"
| "leaf_requires (LIsLatestByMetadata _ _) = {RPullRequest, ROpenPrs}"
| "leaf_requires (LIsLatestPublishedImage _ _ _) = {RPullRequest}"
| "leaf_requires LHasChangedFiles = {RPullRequestChangedFiles}"
| "leaf_requires (LChangedFilesAllMatch _) = {RPullRequestChangedFiles}"
| "leaf_requires (LChangedFilesAnyMatch _) = {RPullRequestChangedFiles}"
| "leaf_requires (LChangedFilesNoneMatch _) = {RPullRequestChangedFiles}"
| "leaf_requires _ = {}"

text \<open>An unresolved reference panics in the source: here \<open>None\<close>.\<close>

fun requires :: "Matcher \<Rightarrow> Resource set option" where
  "requires (MLeaf leaf) = Some (leaf_requires leaf)"
| "requires (MLeafExpr leaf _) = Some (leaf_requires leaf)"
| "requires (MAll ms) =
     (if list_all (\<lambda>m. requires m \<noteq> None) ms then Some (\<Union>m\<in>set ms. the (requires m)) else None)"
| "requires (MAny ms) =
     (if list_all (\<lambda>m. requires m \<noteq> None) ms then Some (\<Union>m\<in>set ms. the (requires m)) else None)"
| "requires (MNot m) = requires m"
| "requires (MRef _) = None"

text \<open>Free of unresolved references.\<close>

fun ref_free :: "Matcher \<Rightarrow> bool" where
  "ref_free (MAll ms) = list_all ref_free ms"
| "ref_free (MAny ms) = list_all ref_free ms"
| "ref_free (MNot m) = ref_free m"
| "ref_free (MRef _) = False"
| "ref_free (MLeafExpr _ _) = True"
| "ref_free (MLeaf _) = True"

lemma requires_ref_free: "requires m \<noteq> None \<longleftrightarrow> ref_free m"
  by (induction m rule: ref_free.induct) (auto simp: list_all_iff)

end
