(* ===== verification/RuleExpr.thy ===== *)
theory RuleExpr
  imports Text
begin

text \<open>
  The expression language of the bot's rules: \<open>platform-services/janitor-bot/src/rules/expr.rs\<close>.
  The text of an expression is ASCII outside its string literals. An error is the datatype
  below, one constructor per message, with the values the message prints.
\<close>

section \<open>Values, expressions, tokens\<close>

datatype Value = VBool bool | VI64 i64 | VF64 f64 | VString string

datatype CmpOp = CEq | CNe | CLt | CLe | CGt | CGe

datatype Expr =
    EVar string
  | ELit Value
  | ENot Expr
  | EAnd Expr Expr
  | EOr Expr Expr
  | ECmp Expr CmpOp Expr

datatype Token =
    LParen | RParen | TAnd | TOr | TNot | TEq | TNe | TLt | TLe | TGt | TGe | TTrue | TFalse
  | TInt i64 | TFloat f64 | TStr string | TIdent string

datatype expr_error =
    ExpectedBool Value
  | ExpectedAmp | ExpectedBar | ExpectedEquals
  | UnterminatedString
  | InvalidFloat string
  | InvalidInteger string
  | UnexpectedChar char
  | ExpectedRParen
  | UnexpectedToken Token
  | UnexpectedEnd
  | TrailingToken nat
  | UndefinedVariable string
  | CannotCompareBools CmpOp
  | CannotCompare Value Value

fun value_as_bool :: "Value \<Rightarrow> (expr_error, bool) result" where
  "value_as_bool (VBool b) = Ok b"
| "value_as_bool other = Err (ExpectedBool other)"

section \<open>Numbers\<close>

text \<open>\<open>str::parse::<f64>\<close> of an optional minus, digits and dots: exactly one dot, some digit.\<close>

definition parse_f64 :: "string \<Rightarrow> f64 option" where
  "parse_f64 s =
     (let neg = (s \<noteq> [] \<and> hd s = CHR ''-''); body = (if neg then tl s else s);
          whole_part = takeWhile (\<lambda>c. c \<noteq> CHR ''.'') body;
          frac = tl (dropWhile (\<lambda>c. c \<noteq> CHR ''.'') body);
          v = of_nat (digits_value (whole_part @ frac)) / 10 ^ length frac
      in if list_ex (\<lambda>c. c = CHR ''.'') body \<and> whole_part @ frac \<noteq> []
            \<and> list_all is_digit (whole_part @ frac)
         then Some (round_f64 (if neg then - v else v)) else None)"

section \<open>Tokenizer\<close>

text \<open>
  One turn of the \<open>while\<close> loop on the next character and the characters after it: the tokens
  it pushes (none for white space) and what it leaves.
\<close>

definition lex_pair :: "char \<Rightarrow> expr_error \<Rightarrow> Token \<Rightarrow> string
    \<Rightarrow> (expr_error, Token list \<times> string) result" where
  "lex_pair c err tok rest =
     (case rest of
        d # rest' \<Rightarrow> if d = c then Ok ([tok], rest') else Err err
      | [] \<Rightarrow> Err err)"

definition lex_optional_eq :: "Token \<Rightarrow> Token \<Rightarrow> string
    \<Rightarrow> (expr_error, Token list \<times> string) result" where
  "lex_optional_eq with_eq without rest =
     (case rest of
        d # rest' \<Rightarrow> if d = CHR ''='' then Ok ([with_eq], rest') else Ok ([without], rest)
      | [] \<Rightarrow> Ok ([without], rest))"

definition lex_string :: "char \<Rightarrow> string \<Rightarrow> (expr_error, Token list \<times> string) result" where
  "lex_string quote rest =
     (case dropWhile (\<lambda>d. d \<noteq> quote) rest of
        [] \<Rightarrow> Err UnterminatedString
      | _ # rest' \<Rightarrow> Ok ([TStr (takeWhile (\<lambda>d. d \<noteq> quote) rest)], rest'))"

definition lex_number :: "string \<Rightarrow> string \<Rightarrow> (expr_error, Token list \<times> string) result" where
  "lex_number sign s =
     (let part = (\<lambda>d. is_digit d \<or> d = CHR ''.''); num = sign @ takeWhile part s;
          rest = dropWhile part s
      in if list_ex (\<lambda>d. d = CHR ''.'') num
         then (case parse_f64 num of
                 Some f \<Rightarrow> Ok ([TFloat f], rest)
               | None \<Rightarrow> Err (InvalidFloat num))
         else (case parse_i64 num of
                 Some i \<Rightarrow> Ok ([TInt i], rest)
               | None \<Rightarrow> Err (InvalidInteger num)))"

definition ident_char :: "char \<Rightarrow> bool" where
  "ident_char d = (is_alphanumeric d \<or> d = CHR ''_'')"

definition lex_ident :: "string \<Rightarrow> Token list \<times> string" where
  "lex_ident s =
     (let ident = takeWhile ident_char s
      in ([if ident = ''true'' then TTrue else if ident = ''false'' then TFalse else TIdent ident],
          dropWhile ident_char s))"

definition next_token :: "char \<Rightarrow> string \<Rightarrow> (expr_error, Token list \<times> string) result" where
  "next_token c rest =
     (if c = CHR '' '' \<or> c = CHR 0x09 \<or> c = CHR 0x0A \<or> c = CHR 0x0D then Ok ([], rest)
      else if c = CHR ''('' then Ok ([LParen], rest)
      else if c = CHR '')'' then Ok ([RParen], rest)
      else if c = CHR ''!'' then lex_optional_eq TNe TNot rest
      else if c = CHR ''&'' then lex_pair (CHR ''&'') ExpectedAmp TAnd rest
      else if c = CHR ''|'' then lex_pair (CHR ''|'') ExpectedBar TOr rest
      else if c = CHR ''='' then lex_pair (CHR ''='') ExpectedEquals TEq rest
      else if c = CHR ''<'' then lex_optional_eq TLe TLt rest
      else if c = CHR ''>'' then lex_optional_eq TGe TGt rest
      else if c = CHR 0x22 \<or> c = CHR 0x27 then lex_string c rest
      else if is_digit c then lex_number [] (c # rest)
      else if c = CHR ''-'' \<and> (case rest of d # _ \<Rightarrow> is_digit d | [] \<Rightarrow> False)
      then lex_number [c] rest
      else if ident_char c then Ok (lex_ident (c # rest))
      else Err (UnexpectedChar c))"

lemma dropWhile_le: "length (dropWhile P xs) \<le> length xs"
  by (induction xs) auto

lemma dropWhile_Cons_lt: "dropWhile P xs = y # ys \<Longrightarrow> length ys < length xs"
  using dropWhile_le [of P xs] by simp

lemma lex_number_le:
  "lex_number sg s = Ok (ts, rest) \<Longrightarrow> rest = dropWhile (\<lambda>d. is_digit d \<or> d = CHR ''.'') s"
  by (auto simp: lex_number_def Let_def split: if_splits option.splits)

lemma lex_pair_le: "lex_pair c e t rest = Ok (ts, rest') \<Longrightarrow> length rest' \<le> length rest"
  by (auto simp: lex_pair_def split: if_splits list.splits)

lemma lex_optional_eq_le:
  "lex_optional_eq a b rest = Ok (ts, rest') \<Longrightarrow> length rest' \<le> length rest"
  by (auto simp: lex_optional_eq_def split: if_splits list.splits)

lemma lex_string_le: "lex_string q rest = Ok (ts, rest') \<Longrightarrow> length rest' \<le> length rest"
  by (auto simp: lex_string_def dest: dropWhile_Cons_lt split: list.splits)

lemma next_token_digit_le:
  "is_digit c \<Longrightarrow> lex_number [] (c # rest) = Ok (ts, rest') \<Longrightarrow> length rest' \<le> length rest"
  by (auto simp: dropWhile_le dest!: lex_number_le)

lemma next_token_minus_le:
  "lex_number sg rest = Ok (ts, rest') \<Longrightarrow> length rest' \<le> length rest"
  by (auto simp: dropWhile_le dest!: lex_number_le)

lemma lex_ident_le: "ident_char c \<Longrightarrow> length (snd (lex_ident (c # rest))) \<le> length rest"
  by (simp add: lex_ident_def Let_def dropWhile_le)

lemmas lex_le = lex_pair_le lex_optional_eq_le lex_string_le next_token_digit_le next_token_minus_le

lemma if_Ok_cases:
  "(if b then x else y) = z \<Longrightarrow> (b \<Longrightarrow> x = z \<Longrightarrow> P) \<Longrightarrow> (\<not> b \<Longrightarrow> y = z \<Longrightarrow> P) \<Longrightarrow> P"
  by (cases b) simp_all

lemma next_token_le: "next_token c rest = Ok (ts, rest') \<Longrightarrow> length rest' \<le> length rest"
  unfolding next_token_def
  by (elim if_Ok_cases; (erule lex_le | (drule lex_ident_le [where rest = rest], simp) | erule (1) lex_le | simp))

function tokenize :: "string \<Rightarrow> (expr_error, Token list) result" where
  "tokenize [] = Ok []"
| "tokenize (c # cs) =
     (case next_token c cs of
        Err e \<Rightarrow> Err e
      | Ok (ts, rest) \<Rightarrow>
          (case tokenize rest of Err e \<Rightarrow> Err e | Ok more \<Rightarrow> Ok (ts @ more)))"
  by pat_completeness auto
termination
  by (relation "measure length") (auto dest: next_token_le)


section \<open>Parser\<close>

text \<open>
  The parser's state is the tokens from \<open>pos\<close> on: \<open>peek\<close> is the head, \<open>next\<close> the tail. Each
  method returns its expression with the tokens it leaves. The \<open>while\<close> loops of \<open>parse_or\<close>
  and \<open>parse_and\<close> are the functions \<open>or_loop\<close> and \<open>and_loop\<close> on their \<open>left\<close>.
\<close>

type_synonym parse_result = "(expr_error, Expr \<times> Token list) result"

fun cmp_op_of :: "Token list \<Rightarrow> CmpOp option" where
  "cmp_op_of (TEq # _) = Some CEq"
| "cmp_op_of (TNe # _) = Some CNe"
| "cmp_op_of (TLt # _) = Some CLt"
| "cmp_op_of (TLe # _) = Some CLe"
| "cmp_op_of (TGt # _) = Some CGt"
| "cmp_op_of (TGe # _) = Some CGe"
| "cmp_op_of _ = None"

definition peek_is :: "Token \<Rightarrow> Token list \<Rightarrow> bool" where
  "peek_is t ts = (case ts of [] \<Rightarrow> False | u # _ \<Rightarrow> u = t)"

fun literal_of :: "Token \<Rightarrow> Expr option" where
  "literal_of TTrue = Some (ELit (VBool True))"
| "literal_of TFalse = Some (ELit (VBool False))"
| "literal_of (TInt n) = Some (ELit (VI64 n))"
| "literal_of (TFloat n) = Some (ELit (VF64 n))"
| "literal_of (TStr s) = Some (ELit (VString s))"
| "literal_of (TIdent name) = Some (EVar name)"
| "literal_of _ = None"

function (domintros)
  parse_or :: "Token list \<Rightarrow> parse_result"
  and or_loop :: "Expr \<Rightarrow> Token list \<Rightarrow> parse_result"
  and parse_and :: "Token list \<Rightarrow> parse_result"
  and and_loop :: "Expr \<Rightarrow> Token list \<Rightarrow> parse_result"
  and parse_comparison :: "Token list \<Rightarrow> parse_result"
  and parse_unary :: "Token list \<Rightarrow> parse_result"
  and parse_atom :: "Token list \<Rightarrow> parse_result" where
  "parse_or ts =
     (case parse_and ts of Err e \<Rightarrow> Err e | Ok (left, rest) \<Rightarrow> or_loop left rest)"
| "or_loop left ts =
     (if peek_is TOr ts
      then (case parse_and (tl ts) of
              Err e \<Rightarrow> Err e
            | Ok (right, rest) \<Rightarrow> or_loop (EOr left right) rest)
      else Ok (left, ts))"
| "parse_and ts =
     (case parse_comparison ts of Err e \<Rightarrow> Err e | Ok (left, rest) \<Rightarrow> and_loop left rest)"
| "and_loop left ts =
     (if peek_is TAnd ts
      then (case parse_comparison (tl ts) of
              Err e \<Rightarrow> Err e
            | Ok (right, rest) \<Rightarrow> and_loop (EAnd left right) rest)
      else Ok (left, ts))"
| "parse_comparison ts =
     (case parse_unary ts of
        Err e \<Rightarrow> Err e
      | Ok (left, rest) \<Rightarrow>
          (case cmp_op_of rest of
             None \<Rightarrow> Ok (left, rest)
           | Some op' \<Rightarrow>
               (case parse_unary (tl rest) of
                  Err e \<Rightarrow> Err e
                | Ok (right, rest') \<Rightarrow> Ok (ECmp left op' right, rest'))))"
| "parse_unary ts =
     (if peek_is TNot ts
      then (case parse_unary (tl ts) of Err e \<Rightarrow> Err e | Ok (e, rest) \<Rightarrow> Ok (ENot e, rest))
      else parse_atom ts)"
| "parse_atom ts =
     (case ts of
        [] \<Rightarrow> Err UnexpectedEnd
      | t # ts' \<Rightarrow>
          (if t = LParen
           then (case parse_or ts' of
                   Err e \<Rightarrow> Err e
                 | Ok (e, rest) \<Rightarrow> if peek_is RParen rest then Ok (e, tl rest) else Err ExpectedRParen)
           else (case literal_of t of Some e \<Rightarrow> Ok (e, ts') | None \<Rightarrow> Err (UnexpectedToken t))))"
  by pat_completeness auto

abbreviation parse_dom ::
  "((Token list + (Expr \<times> Token list + Token list))
    + ((Expr \<times> Token list + Token list) + (Token list + Token list))) \<Rightarrow> bool" where
  "parse_dom \<equiv> parse_or_or_loop_parse_and_and_loop_parse_comparison_parse_unary_parse_atom_dom"

lemmas parse_pinduct =
  parse_or_or_loop_parse_and_and_loop_parse_comparison_parse_unary_parse_atom.pinduct

lemmas parse_psimps =
  parse_or.psimps or_loop.psimps parse_and.psimps and_loop.psimps parse_comparison.psimps
  parse_unary.psimps parse_atom.psimps

lemma peek_is_Cons: "peek_is t ts \<longleftrightarrow> (\<exists>ts'. ts = t # ts')"
  by (auto simp: peek_is_def split: list.splits)

lemma cmp_op_of_Cons: "cmp_op_of ts = Some p \<Longrightarrow> \<exists>t ts'. ts = t # ts'"
  by (cases ts) auto

text \<open>Every method consumes a token, and the loops give back no more than they were given.\<close>

lemma parse_shorter:
  shows "parse_dom (Inl (Inl ts)) \<Longrightarrow> parse_or ts = Ok (e, r) \<Longrightarrow> length r < length ts"
    and "parse_dom (Inl (Inr (Inl (l, ts)))) \<Longrightarrow> or_loop l ts = Ok (e, r) \<Longrightarrow> length r \<le> length ts"
    and "parse_dom (Inl (Inr (Inr ts))) \<Longrightarrow> parse_and ts = Ok (e, r) \<Longrightarrow> length r < length ts"
    and "parse_dom (Inr (Inl (Inl (l, ts)))) \<Longrightarrow> and_loop l ts = Ok (e, r) \<Longrightarrow> length r \<le> length ts"
    and "parse_dom (Inr (Inl (Inr ts))) \<Longrightarrow> parse_comparison ts = Ok (e, r) \<Longrightarrow> length r < length ts"
    and "parse_dom (Inr (Inr (Inl ts))) \<Longrightarrow> parse_unary ts = Ok (e, r) \<Longrightarrow> length r < length ts"
    and "parse_dom (Inr (Inr (Inr ts))) \<Longrightarrow> parse_atom ts = Ok (e, r) \<Longrightarrow> length r < length ts"
proof (induction ts and l ts and ts and l ts and ts and ts and ts arbitrary: e r and e r and e r
    and e r and e r and e r and e r rule: parse_pinduct)
  case (1 ts)
  then show ?case by (force simp: parse_psimps split: sum.splits prod.splits)
next
  case (2 left ts)
  then show ?case by (force simp: parse_psimps peek_is_Cons split: sum.splits prod.splits if_splits)
next
  case (3 ts)
  then show ?case by (force simp: parse_psimps split: sum.splits prod.splits)
next
  case (4 left ts)
  then show ?case by (force simp: parse_psimps peek_is_Cons split: sum.splits prod.splits if_splits)
next
  case (5 ts)
  then show ?case
    by (force simp: parse_psimps dest!: cmp_op_of_Cons split: sum.splits prod.splits option.splits)
next
  case (6 ts)
  then show ?case by (force simp: parse_psimps peek_is_Cons split: sum.splits prod.splits if_splits)
next
  case (7 ts)
  then show ?case
    by (force simp: parse_psimps peek_is_Cons
      split: list.splits sum.splits prod.splits if_splits option.splits)
qed

fun parse_rank ::
  "(Token list + (Expr \<times> Token list + Token list))
    + ((Expr \<times> Token list + Token list) + (Token list + Token list)) \<Rightarrow> nat \<times> nat" where
  "parse_rank (Inl (Inl ts)) = (length ts, 5)"
| "parse_rank (Inl (Inr (Inl (l, ts)))) = (length ts, 0)"
| "parse_rank (Inl (Inr (Inr ts))) = (length ts, 4)"
| "parse_rank (Inr (Inl (Inl (l, ts)))) = (length ts, 0)"
| "parse_rank (Inr (Inl (Inr ts))) = (length ts, 3)"
| "parse_rank (Inr (Inr (Inl ts))) = (length ts, 2)"
| "parse_rank (Inr (Inr (Inr ts))) = (length ts, 1)"

termination parse_or
proof (relation "inv_image (less_than <*lex*> less_than) parse_rank")
  show "wf (inv_image (less_than <*lex*> less_than) parse_rank)"
    by (intro wf_inv_image wf_lex_prod wf_less_than)
qed (auto simp: peek_is_Cons less_Suc_eq_le dest!: parse_shorter cmp_op_of_Cons)

declare parse_or.simps [simp del] or_loop.simps [simp del] parse_and.simps [simp del]
  and_loop.simps [simp del] parse_comparison.simps [simp del] parse_unary.simps [simp del]
  parse_atom.simps [simp del]

definition parse :: "string \<Rightarrow> (expr_error, Expr) result" where
  "parse input =
     (case tokenize input of
        Err e \<Rightarrow> Err e
      | Ok tokens \<Rightarrow>
          if tokens = [] then Ok (ELit (VBool True))
          else (case parse_or tokens of
                  Err e \<Rightarrow> Err e
                | Ok (expr, rest) \<Rightarrow>
                    if rest \<noteq> [] then Err (TrailingToken (length tokens - length rest))
                    else Ok expr))"

section \<open>Evaluation\<close>

fun flip :: "CmpOp \<Rightarrow> CmpOp" where
  "flip CEq = CEq"
| "flip CNe = CNe"
| "flip CLt = CGt"
| "flip CLe = CGe"
| "flip CGt = CLt"
| "flip CGe = CLe"

text \<open>The six comparisons of a type with an equality and an order.\<close>

fun apply_cmp :: "('a \<Rightarrow> 'a \<Rightarrow> bool) \<Rightarrow> ('a \<Rightarrow> 'a \<Rightarrow> bool) \<Rightarrow> CmpOp \<Rightarrow> 'a \<Rightarrow> 'a \<Rightarrow> bool" where
  "apply_cmp eq lt CEq a b = eq a b"
| "apply_cmp eq lt CNe a b = (\<not> eq a b)"
| "apply_cmp eq lt CLt a b = lt a b"
| "apply_cmp eq lt CLe a b = (lt a b \<or> eq a b)"
| "apply_cmp eq lt CGt a b = lt b a"
| "apply_cmp eq lt CGe a b = (lt b a \<or> eq a b)"

definition i64_as_f64 :: "i64 \<Rightarrow> f64" where
  "i64_as_f64 n = Fin (f64_of_int (sint n))"

function cmp_values :: "Value \<Rightarrow> CmpOp \<Rightarrow> Value \<Rightarrow> (expr_error, bool) result" where
  "cmp_values lhs op' rhs =
     (case (lhs, rhs) of
        (VI64 a, VI64 b) \<Rightarrow> Ok (apply_cmp (=) (<) op' (sint a) (sint b))
      | (VF64 a, VF64 b) \<Rightarrow> Ok (apply_cmp f64_eq f64_lt op' a b)
      | (VI64 a, VF64 b) \<Rightarrow> Ok (apply_cmp f64_eq f64_lt op' (i64_as_f64 a) b)
      | (VF64 _, VI64 _) \<Rightarrow> cmp_values rhs (flip op') lhs
      | (VString a, VString b) \<Rightarrow> Ok (apply_cmp (=) (<) op' a b)
      | (VBool a, VBool b) \<Rightarrow>
          (case op' of
             CEq \<Rightarrow> Ok (a = b)
           | CNe \<Rightarrow> Ok (a \<noteq> b)
           | _ \<Rightarrow> Err (CannotCompareBools op'))
      | _ \<Rightarrow> Err (CannotCompare lhs rhs))"
  by pat_completeness auto
termination
  by (relation "measure (\<lambda>(lhs, _, _). case lhs of VF64 _ \<Rightarrow> 1 | _ \<Rightarrow> 0)") auto

declare cmp_values.simps [simp del]

fun eval :: "Expr \<Rightarrow> Value hmap \<Rightarrow> (expr_error, Value) result" where
  "eval (ELit v) vars = Ok v"
| "eval (EVar name) vars =
     (case hget vars name of Some v \<Rightarrow> Ok v | None \<Rightarrow> Err (UndefinedVariable name))"
| "eval (ENot e) vars =
     (case eval e vars of
        Err x \<Rightarrow> Err x
      | Ok v \<Rightarrow> (case value_as_bool v of Err x \<Rightarrow> Err x | Ok b \<Rightarrow> Ok (VBool (\<not> b))))"
| "eval (EAnd a b) vars =
     (case eval a vars of
        Err x \<Rightarrow> Err x
      | Ok v \<Rightarrow>
          (case value_as_bool v of
             Err x \<Rightarrow> Err x
           | Ok lhs \<Rightarrow>
               if \<not> lhs then Ok (VBool False)
               else (case eval b vars of
                       Err x \<Rightarrow> Err x
                     | Ok w \<Rightarrow> (case value_as_bool w of
                                  Err x \<Rightarrow> Err x
                                | Ok rhs \<Rightarrow> Ok (VBool rhs)))))"
| "eval (EOr a b) vars =
     (case eval a vars of
        Err x \<Rightarrow> Err x
      | Ok v \<Rightarrow>
          (case value_as_bool v of
             Err x \<Rightarrow> Err x
           | Ok lhs \<Rightarrow>
               if lhs then Ok (VBool True)
               else (case eval b vars of
                       Err x \<Rightarrow> Err x
                     | Ok w \<Rightarrow> (case value_as_bool w of
                                  Err x \<Rightarrow> Err x
                                | Ok rhs \<Rightarrow> Ok (VBool rhs)))))"
| "eval (ECmp lhs op' rhs) vars =
     (case eval lhs vars of
        Err x \<Rightarrow> Err x
      | Ok l \<Rightarrow>
          (case eval rhs vars of
             Err x \<Rightarrow> Err x
           | Ok r \<Rightarrow> (case cmp_values l op' r of Err x \<Rightarrow> Err x | Ok b \<Rightarrow> Ok (VBool b))))"

fun collect_vars :: "Expr \<Rightarrow> string list \<Rightarrow> string list" where
  "collect_vars (EVar name) vars = vars @ [name]"
| "collect_vars (ELit _) vars = vars"
| "collect_vars (ENot e) vars = collect_vars e vars"
| "collect_vars (EAnd a b) vars = collect_vars b (collect_vars a vars)"
| "collect_vars (EOr a b) vars = collect_vars b (collect_vars a vars)"
| "collect_vars (ECmp a _ b) vars = collect_vars b (collect_vars a vars)"

definition referenced_vars :: "Expr \<Rightarrow> string list" where
  "referenced_vars expr = collect_vars expr []"

section \<open>Facts about evaluation\<close>

lemma cmp_values_num [simp]:
  "cmp_values (VI64 a) p (VI64 b) = Ok (apply_cmp (=) (<) p (sint a) (sint b))"
  "cmp_values (VF64 x) p (VF64 y) = Ok (apply_cmp f64_eq f64_lt p x y)"
  "cmp_values (VI64 a) p (VF64 y) = Ok (apply_cmp f64_eq f64_lt p (i64_as_f64 a) y)"
  "cmp_values (VF64 x) p (VI64 b) = Ok (apply_cmp f64_eq f64_lt (flip p) (i64_as_f64 b) x)"
  "cmp_values (VString s) p (VString t) = Ok (apply_cmp (=) (<) p s t)"
  by (simp_all add: cmp_values.simps [of "VI64 a"] cmp_values.simps [of "VF64 x"]
      cmp_values.simps [of "VI64 b"] cmp_values.simps [of "VString s"])

lemma cmp_values_bool [simp]:
  "cmp_values (VBool a) CEq (VBool b) = Ok (a = b)"
  "cmp_values (VBool a) CNe (VBool b) = Ok (a \<noteq> b)"
  by (simp_all add: cmp_values.simps)

lemma f64_eq_sym: "f64_eq a b = f64_eq b a"
  by (cases a; cases b) auto

lemma flip_flip [simp]: "flip (flip p) = p"
  by (cases p) simp_all

text \<open>Swapping the operands and flipping the operator changes no comparison that succeeds.\<close>

lemma cmp_values_flip:
  assumes "cmp_values l p r = Ok b"
  shows "cmp_values r (flip p) l = Ok b"
proof -
  have flip_float: "apply_cmp f64_eq f64_lt (flip p) y x = apply_cmp f64_eq f64_lt p x y" for x y
    by (cases p) (auto simp: f64_eq_sym)
  have flip_int: "apply_cmp (=) (<) (flip p) j i = apply_cmp (=) (<) p i j" for i j :: int
    by (cases p) auto
  have flip_str: "apply_cmp (=) (<) (flip p) t s = apply_cmp (=) (<) p s t" for s t :: string
    by (cases p) auto
  show ?thesis
    using assms
    by (cases l; cases r)
      (auto simp: flip_float flip_int flip_str cmp_values.simps [of "VBool _"]
        cmp_values.simps [of "VString _" _ "VBool _"] cmp_values.simps [of "VString _" _ "VI64 _"]
        cmp_values.simps [of "VString _" _ "VF64 _"] cmp_values.simps [of "VI64 _" _ "VBool _"]
        cmp_values.simps [of "VI64 _" _ "VString _"] cmp_values.simps [of "VF64 _" _ "VBool _"]
        cmp_values.simps [of "VF64 _" _ "VString _"] split: CmpOp.splits)
qed

lemma collect_vars_append: "collect_vars e vs = vs @ collect_vars e []"
proof (induction e arbitrary: vs)
  case (ENot e)
  show ?case by (metis ENot collect_vars.simps(3))
next
  case (EAnd a b)
  show ?case by (metis EAnd append_assoc collect_vars.simps(4))
next
  case (EOr a b)
  show ?case by (metis EOr append_assoc collect_vars.simps(5))
next
  case (ECmp a p b)
  show ?case by (metis ECmp append_assoc collect_vars.simps(6))
qed simp_all

lemma referenced_vars_simps [simp]:
  "referenced_vars (EVar x) = [x]"
  "referenced_vars (ELit v) = []"
  "referenced_vars (ENot e) = referenced_vars e"
  "referenced_vars (EAnd a b) = referenced_vars a @ referenced_vars b"
  "referenced_vars (EOr a b) = referenced_vars a @ referenced_vars b"
  "referenced_vars (ECmp a p b) = referenced_vars a @ referenced_vars b"
  by (simp_all add: referenced_vars_def collect_vars_append [of b "collect_vars a []"])

lemma eval_agree:
  "(\<And>x. x \<in> set (referenced_vars e) \<Longrightarrow> hget vars x = hget vars' x) \<Longrightarrow> eval e vars = eval e vars'"
  by (induction e) (simp_all cong: sum.case_cong if_cong)

text \<open>A static type of an expression: the operands of a comparison must have one type.\<close>

datatype vtype = TyBool | TyNum | TyString

fun type_of_value :: "Value \<Rightarrow> vtype" where
  "type_of_value (VBool _) = TyBool"
| "type_of_value (VI64 _) = TyNum"
| "type_of_value (VF64 _) = TyNum"
| "type_of_value (VString _) = TyString"

fun infer :: "(string \<Rightarrow> vtype option) \<Rightarrow> Expr \<Rightarrow> vtype option" where
  "infer \<Gamma> (ELit v) = Some (type_of_value v)"
| "infer \<Gamma> (EVar x) = \<Gamma> x"
| "infer \<Gamma> (ENot e) = (if infer \<Gamma> e = Some TyBool then Some TyBool else None)"
| "infer \<Gamma> (EAnd a b) =
     (if infer \<Gamma> a = Some TyBool \<and> infer \<Gamma> b = Some TyBool then Some TyBool else None)"
| "infer \<Gamma> (EOr a b) =
     (if infer \<Gamma> a = Some TyBool \<and> infer \<Gamma> b = Some TyBool then Some TyBool else None)"
| "infer \<Gamma> (ECmp a p b) =
     (case (infer \<Gamma> a, infer \<Gamma> b) of
        (Some s, Some t) \<Rightarrow>
          if s = t \<and> (s = TyBool \<longrightarrow> p = CEq \<or> p = CNe) then Some TyBool else None
      | _ \<Rightarrow> None)"

definition has_type :: "vtype \<Rightarrow> (expr_error, Value) result \<Rightarrow> bool" where
  "has_type t r = (case r of Ok v \<Rightarrow> type_of_value v = t | Err _ \<Rightarrow> False)"

lemma has_type_iff: "has_type t r \<longleftrightarrow> (\<exists>v. r = Ok v \<and> type_of_value v = t)"
  by (auto simp: has_type_def split: sum.splits)

lemma type_of_value_bool: "type_of_value v = TyBool \<longleftrightarrow> (\<exists>b. v = VBool b)"
  by (cases v) auto

lemma cmp_values_typed:
  assumes "type_of_value l = type_of_value r"
    and "type_of_value l = TyBool \<longrightarrow> p = CEq \<or> p = CNe"
  shows "\<exists>b. cmp_values l p r = Ok b"
  using assms by (cases l; cases r) auto

lemma infer_sound:
  assumes "\<And>x t. \<Gamma> x = Some t \<Longrightarrow> \<exists>v. hget vars x = Some v \<and> type_of_value v = t"
  shows "infer \<Gamma> e = Some t \<Longrightarrow> has_type t (eval e vars)"
proof (induction e arbitrary: t)
  case (EVar x)
  with assms show ?case by (fastforce simp: has_type_iff)
next
  case (ECmp a p b)
  then obtain s where s: "infer \<Gamma> a = Some s" "infer \<Gamma> b = Some s" "t = TyBool"
    and p: "s = TyBool \<longrightarrow> p = CEq \<or> p = CNe"
    by (auto split: option.splits if_splits)
  from ECmp.IH(1) [OF s(1)] ECmp.IH(2) [OF s(2)] obtain l r
    where l: "eval a vars = Ok l" "type_of_value l = s" and r: "eval b vars = Ok r" "type_of_value r = s"
    by (auto simp: has_type_iff)
  with p obtain c where "cmp_values l p r = Ok c"
    using cmp_values_typed [of l r p] by auto
  with l r s(3) show ?case by (simp add: has_type_iff)
qed (force simp: has_type_iff type_of_value_bool split: if_splits)+

section \<open>Reading back what is written\<close>

text \<open>
  The canonical tokens of an expression at a precedence level (0 or, 1 and, 2 comparison,
  3 unary): parentheses only where the level asks for them. It is a specification of the
  grammar, the source has no printer.
\<close>

fun token_of_cmp :: "CmpOp \<Rightarrow> Token" where
  "token_of_cmp CEq = TEq"
| "token_of_cmp CNe = TNe"
| "token_of_cmp CLt = TLt"
| "token_of_cmp CLe = TLe"
| "token_of_cmp CGt = TGt"
| "token_of_cmp CGe = TGe"

fun token_of_value :: "Value \<Rightarrow> Token" where
  "token_of_value (VBool b) = (if b then TTrue else TFalse)"
| "token_of_value (VI64 n) = TInt n"
| "token_of_value (VF64 x) = TFloat x"
| "token_of_value (VString s) = TStr s"

definition paren :: "bool \<Rightarrow> Token list \<Rightarrow> Token list" where
  "paren b ts = (if b then LParen # ts @ [RParen] else ts)"

fun expr_tokens :: "nat \<Rightarrow> Expr \<Rightarrow> Token list" where
  "expr_tokens p (EVar x) = [TIdent x]"
| "expr_tokens p (ELit v) = [token_of_value v]"
| "expr_tokens p (ENot e) = TNot # expr_tokens 3 e"
| "expr_tokens p (EAnd a b) = paren (1 < p) (expr_tokens 1 a @ TAnd # expr_tokens 2 b)"
| "expr_tokens p (EOr a b) = paren (0 < p) (expr_tokens 0 a @ TOr # expr_tokens 1 b)"
| "expr_tokens p (ECmp a c b) = paren (2 < p) (expr_tokens 3 a @ token_of_cmp c # expr_tokens 3 b)"

definition no_cmp :: "Token list \<Rightarrow> bool" where
  "no_cmp ts \<longleftrightarrow> cmp_op_of ts = None"

lemma no_cmp_simps [simp]:
  "no_cmp []" "no_cmp (TAnd # ts)" "no_cmp (TOr # ts)" "no_cmp (RParen # ts)"
  by (simp_all add: no_cmp_def)

lemma peek_is_simps [simp]:
  "\<not> peek_is t []" "peek_is t (u # ts) = (u = t)"
  by (auto simp: peek_is_def)

lemma cmp_op_of_token [simp]: "cmp_op_of (token_of_cmp c # ts) = Some c"
  by (cases c) simp_all

lemma parse_unary_value [simp]: "parse_unary (token_of_value v # ts) = Ok (ELit v, ts)"
  by (cases v) (auto simp: parse_unary.simps [of "_ # _"] parse_atom.simps)

lemma parse_unary_var [simp]: "parse_unary (TIdent x # ts) = Ok (EVar x, ts)"
  by (simp add: parse_unary.simps [of "_ # _"] parse_atom.simps)

lemma parse_unary_not [simp]:
  "parse_unary ts = Ok (e, rest) \<Longrightarrow> parse_unary (TNot # ts) = Ok (ENot e, rest)"
  by (subst parse_unary.simps) simp

lemma parse_unary_paren:
  "parse_or ts = Ok (e, RParen # rest) \<Longrightarrow> parse_unary (LParen # ts) = Ok (e, rest)"
  by (subst parse_unary.simps) (simp add: parse_atom.simps)

text \<open>From one level to the next: an operand followed by a token that ends it.\<close>

lemma parse_comparison_unary:
  "parse_unary ts = Ok (e, rest) \<Longrightarrow> no_cmp rest \<Longrightarrow> parse_comparison ts = Ok (e, rest)"
  by (subst parse_comparison.simps) (simp add: no_cmp_def)

lemma parse_and_comparison:
  "parse_comparison ts = Ok (e, rest) \<Longrightarrow> parse_and ts = and_loop e rest"
  by (subst parse_and.simps) simp

lemma and_loop_end: "\<not> peek_is TAnd rest \<Longrightarrow> and_loop e rest = Ok (e, rest)"
  by (subst and_loop.simps) simp

lemma and_loop_step:
  "parse_comparison ts = Ok (b, rest) \<Longrightarrow> and_loop a (TAnd # ts) = and_loop (EAnd a b) rest"
  by (subst and_loop.simps) simp

lemma or_loop_end: "\<not> peek_is TOr rest \<Longrightarrow> or_loop e rest = Ok (e, rest)"
  by (subst or_loop.simps) simp

lemma or_loop_step:
  "parse_and ts = Ok (b, rest) \<Longrightarrow> or_loop a (TOr # ts) = or_loop (EOr a b) rest"
  by (subst or_loop.simps) simp

lemma parse_or_and: "parse_and ts = Ok (e, rest) \<Longrightarrow> parse_or ts = or_loop e rest"
  by (subst parse_or.simps) simp

text \<open>What each level reads back; the loops start from the expression read so far.\<close>

definition reads_back :: "Expr \<Rightarrow> bool" where
  "reads_back e \<longleftrightarrow>
     (\<forall>rest. parse_unary (expr_tokens 3 e @ rest) = Ok (e, rest))
     \<and> (\<forall>rest. no_cmp rest \<longrightarrow> parse_comparison (expr_tokens 2 e @ rest) = Ok (e, rest))
     \<and> (\<forall>rest. no_cmp rest \<longrightarrow> parse_and (expr_tokens 1 e @ rest) = and_loop e rest)
     \<and> (\<forall>rest. no_cmp rest \<and> \<not> peek_is TAnd rest
           \<longrightarrow> parse_or (expr_tokens 0 e @ rest) = or_loop e rest)"

lemma reads_backD:
  assumes "reads_back e"
  shows "parse_unary (expr_tokens 3 e @ rest) = Ok (e, rest)"
    and "no_cmp rest \<Longrightarrow> parse_comparison (expr_tokens 2 e @ rest) = Ok (e, rest)"
    and "no_cmp rest \<Longrightarrow> parse_and (expr_tokens 1 e @ rest) = and_loop e rest"
    and "no_cmp rest \<Longrightarrow> \<not> peek_is TAnd rest \<Longrightarrow> parse_or (expr_tokens 0 e @ rest) = or_loop e rest"
  using assms by (auto simp: reads_back_def)

text \<open>An expression written alike at two levels is read alike.\<close>

lemma reads_back_unary:
  assumes "\<And>rest. parse_unary (ts @ rest) = Ok (e, rest)"
    and "\<And>p. p \<le> 3 \<Longrightarrow> expr_tokens p e = ts"
  shows "reads_back e"
  unfolding reads_back_def
  by (simp add: assms parse_comparison_unary parse_and_comparison and_loop_end
      parse_or_and [OF trans [OF parse_and_comparison and_loop_end]])

lemma parse_unary_tokens_paren:
  assumes "\<And>rest. no_cmp rest \<Longrightarrow> \<not> peek_is TAnd rest \<Longrightarrow> parse_or (ts @ rest) = or_loop e rest"
  shows "parse_unary (paren True ts @ rest) = Ok (e, rest)"
  by (simp add: paren_def parse_unary_paren assms or_loop_end)

lemma reads_back_cmp:
  assumes "reads_back a" and "reads_back b"
  shows "reads_back (ECmp a c b)"
proof -
  let ?ts = "expr_tokens 3 a @ token_of_cmp c # expr_tokens 3 b"
  have cmp: "parse_comparison (?ts @ rest) = Ok (ECmp a c b, rest)" for rest
    by (subst parse_comparison.simps) (simp add: reads_backD [OF assms(1)] reads_backD [OF assms(2)])
  have conj: "parse_and (?ts @ rest) = and_loop (ECmp a c b) rest" for rest
    using cmp by (rule parse_and_comparison)
  have disj: "parse_or (?ts @ rest) = or_loop (ECmp a c b) rest" if "\<not> peek_is TAnd rest" for rest
    by (rule parse_or_and) (simp only: conj and_loop_end [OF that])
  have "parse_unary (paren True ?ts @ rest) = Ok (ECmp a c b, rest)" for rest
    by (rule parse_unary_tokens_paren) (rule disj)
  with cmp conj disj show ?thesis
    unfolding reads_back_def by (simp add: paren_def)
qed

lemma reads_back_and:
  assumes "reads_back a" and "reads_back b"
  shows "reads_back (EAnd a b)"
proof -
  let ?ts = "expr_tokens 1 a @ TAnd # expr_tokens 2 b"
  have conj: "parse_and (?ts @ rest) = and_loop (EAnd a b) rest" if "no_cmp rest" for rest
    using that by (simp add: reads_backD [OF assms(1)] reads_backD [OF assms(2)] and_loop_step del: One_nat_def)
  have disj: "parse_or (?ts @ rest) = or_loop (EAnd a b) rest"
    if "no_cmp rest" "\<not> peek_is TAnd rest" for rest
    by (rule parse_or_and) (simp only: conj [OF that(1)] and_loop_end [OF that(2)])
  have unary: "parse_unary (paren True ?ts @ rest) = Ok (EAnd a b, rest)" for rest
    by (rule parse_unary_tokens_paren) (rule disj)
  have "parse_comparison (paren True ?ts @ rest) = Ok (EAnd a b, rest)" if "no_cmp rest" for rest
    using unary that by (rule parse_comparison_unary)
  with unary conj disj show ?thesis
    unfolding reads_back_def by (simp add: paren_def)
qed

lemma reads_back_or:
  assumes "reads_back a" and "reads_back b"
  shows "reads_back (EOr a b)"
proof -
  let ?ts = "expr_tokens 0 a @ TOr # expr_tokens 1 b"
  have disj: "parse_or (?ts @ rest) = or_loop (EOr a b) rest"
    if "no_cmp rest" "\<not> peek_is TAnd rest" for rest
    using that by (simp add: reads_backD [OF assms(1)] or_loop_step
        [OF trans [OF reads_backD(3) [OF assms(2)] and_loop_end]] del: One_nat_def)
  have unary: "parse_unary (paren True ?ts @ rest) = Ok (EOr a b, rest)" for rest
    by (rule parse_unary_tokens_paren) (rule disj)
  have cmp: "parse_comparison (paren True ?ts @ rest) = Ok (EOr a b, rest)" if "no_cmp rest" for rest
    using unary that by (rule parse_comparison_unary)
  have "parse_and (paren True ?ts @ rest) = and_loop (EOr a b) rest" if "no_cmp rest" for rest
    using cmp [OF that] by (rule parse_and_comparison)
  with unary cmp disj show ?thesis
    unfolding reads_back_def by (simp add: paren_def)
qed

lemma reads_back_all: "reads_back e"
proof (induction e)
  case (EVar x)
  show ?case by (rule reads_back_unary [of "[TIdent x]"]) simp_all
next
  case (ELit v)
  show ?case by (rule reads_back_unary [of "[token_of_value v]"]) simp_all
next
  case (ENot e)
  show ?case
    by (rule reads_back_unary [of "TNot # expr_tokens 3 e"]) (simp_all add: reads_backD(1) [OF ENot])
qed (simp_all add: reads_back_and reads_back_or reads_back_cmp)

lemma parse_or_expr_tokens: "parse_or (expr_tokens 0 e) = Ok (e, [])"
  using reads_backD(4) [OF reads_back_all, of "[]" e] by (simp add: or_loop_end)

lemma expr_tokens_nonempty: "expr_tokens p e \<noteq> []"
  by (cases e) (simp_all add: paren_def)

section \<open>Properties\<close>

text \<open>
  C40: A well-typed expression never fails: if every variable it may read has a value of its
  declared type, evaluation returns a value of the inferred type.
\<close>

theorem well_typed_expressions_evaluate:
  assumes "\<forall>x t. \<Gamma> x = Some t \<longrightarrow> (\<exists>v. hget vars x = Some v \<and> type_of_value v = t)"
    and "infer \<Gamma> e = Some t"
  shows "\<exists>v. eval e vars = Ok v \<and> type_of_value v = t"
  using infer_sound [of \<Gamma> vars e t] assms by (simp add: has_type_iff)

definition ex_expr :: Expr where
  "ex_expr = EAnd (ECmp (EVar ''value'') CGe (ELit (VI64 3)))
     (ENot (EOr (EVar ''draft'') (ECmp (EVar ''value'') CEq (ELit (VF64 (Fin (7/2)))))))"

theorem well_typed_expressions_evaluate_witness:
  "\<exists>v. eval ex_expr [(''value'', VI64 4), (''draft'', VBool False)] = Ok v \<and> type_of_value v = TyBool"
  by (rule well_typed_expressions_evaluate
        [where \<Gamma> = "[''value'' \<mapsto> TyNum, ''draft'' \<mapsto> TyBool]"])
    (simp_all add: ex_expr_def)

text \<open>
  C39: The grammar is unambiguous and its precedences are as written: text whose tokens are the
  canonical tokens of an expression, with no more parentheses than needed, parses to exactly
  that expression, and nothing is left over.
\<close>

theorem canonical_text_parses:
  "parse_or (expr_tokens 0 e) = Ok (e, [])
   \<and> (tokenize s = Ok (expr_tokens 0 e) \<longrightarrow> parse s = Ok e)"
  by (simp add: parse_or_expr_tokens parse_def expr_tokens_nonempty)

theorem canonical_text_parses_witness:
  "tokenize ''!(a||b)'' = Ok (expr_tokens 0 (ENot (EOr (EVar ''a'') (EVar ''b''))))
   \<and> parse ''!(a||b)'' = Ok (ENot (EOr (EVar ''a'') (EVar ''b'')))"
proof -
  have "tokenize ''!(a||b)'' = Ok (expr_tokens 0 (ENot (EOr (EVar ''a'') (EVar ''b''))))"
    by (simp add: next_token_def lex_optional_eq_def lex_pair_def lex_ident_def ident_char_def
        is_alphanumeric_def is_digit_def paren_def Let_def)
  then show ?thesis
    using canonical_text_parses [of "ENot (EOr (EVar ''a'') (EVar ''b''))" "''!(a||b)''"] by blast
qed

text \<open>
  An expression only reads the variables \<open>referenced_vars\<close> reports: two environments that
  agree on them give the same value or the same error.
\<close>

theorem eval_reads_referenced_vars:
  assumes "\<forall>x\<in>set (referenced_vars e). hget vars x = hget vars' x"
  shows "eval e vars = eval e vars'"
  using assms by (auto intro: eval_agree)

theorem eval_reads_referenced_vars_witness:
  "eval ex_expr [(''value'', VI64 4), (''draft'', VBool False)]
    = eval ex_expr [(''noise'', VBool True), (''draft'', VBool False), (''value'', VI64 4)]"
  by (rule eval_reads_referenced_vars) (simp add: ex_expr_def)

text \<open>
  Comparison does not depend on the side: whenever two values compare, swapping them and
  flipping the operator gives the same answer, also between an integer and a float.
\<close>

theorem comparison_flips:
  assumes "cmp_values l p r = Ok b"
  shows "cmp_values r (flip p) l = Ok b"
  using assms by (rule cmp_values_flip)

theorem comparison_flips_witness:
  "cmp_values (VF64 (Fin (5/2))) CLt (VI64 3) = Ok True"
proof -
  have "cmp_values (VI64 3) CGt (VF64 (Fin (5/2))) = Ok True"
    by (simp add: i64_as_f64_def f64_of_int_exact)
  from comparison_flips [OF this] show ?thesis by (simp del: cmp_values_num)
qed

end
