(* ===== verification/RuleCache.thy ===== *)
theory RuleCache
  imports RuleMatcher RuleExpr
begin

text \<open>
  What matchers look up, once per evaluation: \<open>rules/matchers/cache.rs\<close>. The outside world is
  asked over time: every call of a client gets the number of calls made before it, so two
  calls may be answered differently. A lookup goes through the cache of the evaluation.
\<close>

section \<open>The outside world\<close>

text \<open>The fields the bot reads of a pull request of the Forgejo API.\<close>

record ApiLabel =
  al_id :: "i64 option"
  al_name :: "string option"

record ApiPr =
  ap_number :: "i64 option"
  ap_author :: "string option"
  ap_body :: "string option"
  ap_is_open :: bool
  ap_merged :: "bool option"
  ap_mergeable :: "bool option"
  ap_head_sha :: "string option"
  ap_created_at :: "int option"
  ap_title :: "string option"
  ap_labels :: "ApiLabel list"
  ap_base :: "string option option"
  ap_head_ref :: "string option"
  ap_merge_commit_sha :: "string option"

record PrStatusEntry =
  se_context :: string
  se_state :: CommitStatusState

record PrCombinedStatus =
  cb_state :: CommitStatusState
  cb_total_count :: i64
  cb_statuses :: "PrStatusEntry list"

text \<open>
  The answers of the clients at a time; a failed call is \<open>None\<close>. \<open>kustomization\<close> is the YAML
  parser on the file, giving its images with their tags.
\<close>

record clients =
  get_pr_changed_files :: "nat \<Rightarrow> string \<Rightarrow> string \<Rightarrow> u64 \<Rightarrow> string list option"
  get_pr :: "nat \<Rightarrow> string \<Rightarrow> string \<Rightarrow> u64 \<Rightarrow> ApiPr option"
  is_pr_approved_by_bot :: "nat \<Rightarrow> string \<Rightarrow> string \<Rightarrow> u64 \<Rightarrow> bool"
  find_bot_comment :: "nat \<Rightarrow> string \<Rightarrow> string \<Rightarrow> u64 \<Rightarrow> string \<Rightarrow> string option"
  get_combined_status :: "nat \<Rightarrow> string \<Rightarrow> string \<Rightarrow> string \<Rightarrow> PrCombinedStatus option"
  list_open_prs :: "nat \<Rightarrow> string \<Rightarrow> string \<Rightarrow> ApiPr list option"
  get_raw_file :: "nat \<Rightarrow> string \<Rightarrow> string \<Rightarrow> string \<Rightarrow> string \<Rightarrow> string option"
  kustomization :: "string \<Rightarrow> (string \<times> string option) list option"
  committed_at :: "nat \<Rightarrow> string \<Rightarrow> string \<Rightarrow> i64 option"
  app_changed_in_commit :: "nat \<Rightarrow> string \<Rightarrow> string \<Rightarrow> ArgoSyncEvent \<Rightarrow> bool"
  bool_flag :: "nat \<Rightarrow> string \<Rightarrow> string \<Rightarrow> bool \<Rightarrow> (string \<times> string) list \<Rightarrow> bool"
  texts :: text_crates
  globs :: globset
  parse_tz :: "string \<Rightarrow> (int \<Rightarrow> bool \<times> int) option"
  parse_hm :: "string \<Rightarrow> int option"

definition from_api_pr :: "ApiPr \<Rightarrow> string \<Rightarrow> string \<Rightarrow> PrEvent option" where
  "from_api_pr pr owner repo =
     (case (ap_author pr, ap_number pr, ap_title pr, ap_base pr) of
        (Some author, Some number, Some title, Some base) \<Rightarrow>
          Some \<lparr>pe_action = ''opened'', pe_author = author, pe_owner = owner, pe_repo = repo,
                pe_pr_number = number, pe_title = title, pe_body = opt_default (ap_body pr),
                pe_target_branch = opt_default base, pe_source_branch = opt_default (ap_head_ref pr),
                pe_labels = List.map_filter (\<lambda>l. case (al_id l, al_name l) of
                    (Some i, Some n) \<Rightarrow> Some \<lparr>l_id = i, l_name = n\<rparr> | _ \<Rightarrow> None) (ap_labels pr),
                pe_merged = (ap_merged pr = Some True), pe_merge_commit_sha = ap_merge_commit_sha pr\<rparr>
      | _ \<Rightarrow> None)"

section \<open>The cache of one evaluation\<close>

text \<open>
  \<open>matcher_results\<close> and \<open>values\<close>, with the calls made so far. A value remembers its type, as
  \<open>Arc<dyn Any>\<close> does.
\<close>

datatype cached =
    CFiles "string list"
  | CPr "ApiPr option"
  | CBool bool
  | CText "string option"
  | CStatus "PrCombinedStatus option"
  | COpenPrs "ApiPr list option"
  | CStamp "i64 option"

record estate =
  calls :: nat
  matcher_results :: "(LeafMatcher \<times> bool) list"
  values_cache :: "cached hmap"

definition cache_new :: "nat \<Rightarrow> estate" where
  "cache_new t = \<lparr>calls = t, matcher_results = [], values_cache = []\<rparr>"

text \<open>One call of a client.\<close>

definition ask :: "(nat \<Rightarrow> 'a) \<Rightarrow> estate \<Rightarrow> 'a \<times> estate" where
  "ask f st = (f (calls st), st\<lparr>calls := Suc (calls st)\<rparr>)"

text \<open>\<open>get_or_compute\<close>: \<open>get\<close> is the downcast to the type asked for, \<open>put\<close> stores it.\<close>

definition get_or_compute ::
  "(cached \<Rightarrow> 'a option) \<Rightarrow> ('a \<Rightarrow> cached) \<Rightarrow> string \<Rightarrow> (estate \<Rightarrow> 'a \<times> estate) \<Rightarrow> estate \<Rightarrow> 'a \<times> estate" where
  "get_or_compute get put key compute st =
     (case Option.bind (hget (values_cache st) key) get of
        Some v \<Rightarrow> (v, st)
      | None \<Rightarrow>
          (let (v, st') = compute st
           in (v, st'\<lparr>values_cache := hinsert key (put v) (values_cache st')\<rparr>)))"

fun as_files :: "cached \<Rightarrow> string list option" where
  "as_files (CFiles x) = Some x" | "as_files _ = None"

fun as_pr :: "cached \<Rightarrow> ApiPr option option" where
  "as_pr (CPr x) = Some x" | "as_pr _ = None"

fun as_flag :: "cached \<Rightarrow> bool option" where
  "as_flag (CBool x) = Some x" | "as_flag _ = None"

fun as_text :: "cached \<Rightarrow> string option option" where
  "as_text (CText x) = Some x" | "as_text _ = None"

fun as_status :: "cached \<Rightarrow> PrCombinedStatus option option" where
  "as_status (CStatus x) = Some x" | "as_status _ = None"

fun as_open_prs :: "cached \<Rightarrow> ApiPr list option option" where
  "as_open_prs (COpenPrs x) = Some x" | "as_open_prs _ = None"

fun as_stamp :: "cached \<Rightarrow> i64 option option" where
  "as_stamp (CStamp x) = Some x" | "as_stamp _ = None"

definition pr_key :: "string \<Rightarrow> PrEvent \<Rightarrow> string" where
  "pr_key prefix pr =
     prefix @ pe_owner pr @ ''/'' @ pe_repo pr @ '':'' @ show_u64 (pe_pr_number pr)"

section \<open>Lookups\<close>

definition get_changed_files_cached :: "clients \<Rightarrow> PrEvent \<Rightarrow> estate \<Rightarrow> string list \<times> estate" where
  "get_changed_files_cached C pr =
     get_or_compute as_files CFiles (pr_key ''changed_files:'' pr)
       (ask (\<lambda>t. case get_pr_changed_files C t (pe_owner pr) (pe_repo pr) (pe_pr_number pr) of
                   Some files \<Rightarrow> files | None \<Rightarrow> []))"

definition get_pr_cached :: "clients \<Rightarrow> PrEvent \<Rightarrow> estate \<Rightarrow> ApiPr option \<times> estate" where
  "get_pr_cached C pr =
     get_or_compute as_pr CPr (pr_key ''pr:'' pr)
       (ask (\<lambda>t. get_pr C t (pe_owner pr) (pe_repo pr) (pe_pr_number pr)))"

definition get_reviews_cached :: "clients \<Rightarrow> PrEvent \<Rightarrow> estate \<Rightarrow> bool \<times> estate" where
  "get_reviews_cached C pr =
     get_or_compute as_flag CBool (pr_key ''reviews:'' pr)
       (ask (\<lambda>t. is_pr_approved_by_bot C t (pe_owner pr) (pe_repo pr) (pe_pr_number pr)))"

definition bot_comment_contains ::
  "clients \<Rightarrow> PrEvent \<Rightarrow> string \<Rightarrow> string \<Rightarrow> estate \<Rightarrow> bool \<times> estate" where
  "bot_comment_contains C pr marker v st =
     (let (body, st') = get_or_compute as_text CText (pr_key ''bot_comment:'' pr @ '':'' @ marker)
            (ask (\<lambda>t. find_bot_comment C t (pe_owner pr) (pe_repo pr) (pe_pr_number pr) marker)) st
      in (case body of None \<Rightarrow> False | Some b \<Rightarrow> str_contains b v, st'))"

definition combined_status_cached ::
  "clients \<Rightarrow> PrEvent \<Rightarrow> estate \<Rightarrow> PrCombinedStatus option \<times> estate" where
  "combined_status_cached C pr =
     get_or_compute as_status CStatus (pr_key ''combined_status:'' pr)
       (\<lambda>st. let (data, st1) = get_pr_cached C pr st
             in (case Option.bind data ap_head_sha of
                   None \<Rightarrow> (None, st1)
                 | Some sha \<Rightarrow> ask (\<lambda>t. get_combined_status C t (pe_owner pr) (pe_repo pr) sha) st1))"

definition open_prs_cached :: "clients \<Rightarrow> PrEvent \<Rightarrow> estate \<Rightarrow> ApiPr list option \<times> estate" where
  "open_prs_cached C pr =
     get_or_compute as_open_prs COpenPrs (''open_prs:'' @ pe_owner pr @ ''/'' @ pe_repo pr)
       (ask (\<lambda>t. list_open_prs C t (pe_owner pr) (pe_repo pr)))"

definition image_committed_at_cached ::
  "clients \<Rightarrow> string \<Rightarrow> string \<Rightarrow> estate \<Rightarrow> i64 option \<times> estate" where
  "image_committed_at_cached C img tag =
     get_or_compute as_stamp CStamp (''img_committed_at:'' @ img @ '':'' @ tag)
       (ask (\<lambda>t. committed_at C t img tag))"

section \<open>Prefetch\<close>

text \<open>\<open>prefetch\<close> fills the cache for the resources the rules ask for; other events have none.\<close>

definition when_needed :: "bool \<Rightarrow> (estate \<Rightarrow> 'a \<times> estate) \<Rightarrow> estate \<Rightarrow> estate" where
  "when_needed b f st = (if b then snd (f st) else st)"

fun prefetch :: "clients \<Rightarrow> BotEvent \<Rightarrow> Resource set \<Rightarrow> estate \<Rightarrow> estate" where
  "prefetch C (ForgejoPr pr) rs st =
     (let st1 = when_needed (RPullRequestChangedFiles \<in> rs) (get_changed_files_cached C pr) st;
          st2 = when_needed (RPullRequest \<in> rs \<or> RCombinedStatus \<in> rs) (get_pr_cached C pr) st1;
          st3 = when_needed (RReviews \<in> rs) (get_reviews_cached C pr) st2;
          st4 = when_needed (ROpenPrs \<in> rs) (open_prs_cached C pr) st3
      in when_needed (RCombinedStatus \<in> rs) (combined_status_cached C pr) st4)"
| "prefetch C _ rs st = st"

section \<open>Metadata\<close>

definition meta_get :: "(string \<times> json) list \<Rightarrow> string \<Rightarrow> json option" where
  "meta_get meta k = map_of meta k"

definition meta_str :: "(string \<times> json) list \<Rightarrow> string \<Rightarrow> string option" where
  "meta_str meta k = Option.bind (meta_get meta k) as_str"

definition metadata_order_key :: "(string \<times> json) list \<Rightarrow> string \<Rightarrow> i64 option" where
  "metadata_order_key meta field =
     (case meta_get meta field of
        None \<Rightarrow> None
      | Some v \<Rightarrow> (case as_i64 v of
                    Some n \<Rightarrow> Some n
                  | None \<Rightarrow> Option.bind (as_str v) str_parse_i64))"

text \<open>\<open>PartialOrd\<close> of \<open>Option\<close>: \<open>None\<close> is below every \<open>Some\<close>.\<close>

fun option_less :: "int option \<Rightarrow> int option \<Rightarrow> bool" where
  "option_less None (Some _) = True"
| "option_less (Some a) (Some b) = (a < b)"
| "option_less _ None = False"

definition other_is_newer ::
  "string option \<Rightarrow> i64 option \<Rightarrow> (string \<times> json) list \<Rightarrow> int option \<Rightarrow> int option \<Rightarrow> bool" where
  "other_is_newer order_field current_key other_meta other_created current_created =
     (case (order_field, current_key) of
        (Some f, Some cur) \<Rightarrow>
          (case metadata_order_key other_meta f of
             Some k \<Rightarrow> sint cur < sint k
           | None \<Rightarrow> option_less current_created other_created)
      | _ \<Rightarrow> option_less current_created other_created)"

definition pr_number_of :: "ApiPr \<Rightarrow> u64" where
  "pr_number_of p = (case ap_number p of Some n \<Rightarrow> n | None \<Rightarrow> 0)"

text \<open>Whether another open pull request supersedes the current one.\<close>

definition superseded_by ::
  "text_crates \<Rightarrow> PrEvent \<Rightarrow> (string \<times> string) list \<Rightarrow> string option \<Rightarrow> i64 option \<Rightarrow> int option
     \<Rightarrow> ApiPr \<Rightarrow> bool" where
  "superseded_by T pr field_values order_field current_key current_created other =
     (if pr_number_of other = pe_pr_number pr then False
      else if opt_default (ap_author other) \<noteq> pe_author pr then False
      else (case parse_pr_metadata T (opt_default (ap_body other)) of
              None \<Rightarrow> False
            | Some other_meta \<Rightarrow>
                if \<not> list_all (\<lambda>(f, v). meta_str other_meta f = Some v) field_values then False
                else other_is_newer order_field current_key other_meta (ap_created_at other)
                       current_created))"

definition metadata_values ::
  "(string \<times> json) list \<Rightarrow> string list \<Rightarrow> (string \<times> string) list" where
  "metadata_values meta names =
     List.map_filter (\<lambda>f. map_option (\<lambda>v. (f, v)) (meta_str meta f)) names"

definition is_latest_by_metadata ::
  "clients \<Rightarrow> PrEvent \<Rightarrow> string list \<Rightarrow> string option \<Rightarrow> estate \<Rightarrow> bool \<times> estate" where
  "is_latest_by_metadata C pr names order_field st =
     (case get_pr_cached C pr st of
        (None, st1) \<Rightarrow> (True, st1)
      | (Some current, st1) \<Rightarrow>
          (case parse_pr_metadata (texts C) (opt_default (ap_body current)) of
             None \<Rightarrow> (True, st1)
           | Some meta \<Rightarrow>
               (let vals = metadata_values meta names
                in if length vals \<noteq> length names then (True, st1)
                   else (case open_prs_cached C pr st1 of
                           (None, st2) \<Rightarrow> (True, st2)
                         | (Some open_prs, st2) \<Rightarrow>
                             (\<not> list_ex (superseded_by (texts C) pr vals order_field
                                  (Option.bind order_field (metadata_order_key meta))
                                  (ap_created_at current)) open_prs, st2)))))"

section \<open>Published images\<close>

text \<open>\<open>split(',').map(str::trim).filter(non-empty)\<close>.\<close>

definition image_names :: "string \<Rightarrow> string list" where
  "image_names images = filter (\<lambda>s. s \<noteq> []) (map trim (split_on (CHR '','') images))"

fun deployed_images :: "(string \<times> string option) list \<Rightarrow> string hmap \<Rightarrow> string hmap" where
  "deployed_images [] m = m"
| "deployed_images ((name, tag) # is) m =
     deployed_images is (case tag of None \<Rightarrow> m | Some t \<Rightarrow> hinsert name t m)"

text \<open>The loop over the images: the first one older than the deployed one ends it.\<close>

fun no_rollback ::
  "clients \<Rightarrow> string \<Rightarrow> string hmap \<Rightarrow> string list \<Rightarrow> estate \<Rightarrow> bool \<times> estate" where
  "no_rollback C tag deployed [] st = (True, st)"
| "no_rollback C tag deployed (img # rest) st =
     (case hget deployed img of
        None \<Rightarrow> no_rollback C tag deployed rest st
      | Some deployed_tag \<Rightarrow>
          if deployed_tag = tag then no_rollback C tag deployed rest st
          else
            (let (pr_ts, st1) = image_committed_at_cached C img tag st;
                 (deployed_ts, st2) = image_committed_at_cached C img deployed_tag st1
             in (case (pr_ts, deployed_ts) of
                   (Some p, Some d) \<Rightarrow>
                     if sint p < sint d then (False, st2)
                     else no_rollback C tag deployed rest st2
                 | _ \<Rightarrow> no_rollback C tag deployed rest st2)))"

definition is_latest_published_image ::
  "clients \<Rightarrow> PrEvent \<Rightarrow> string \<Rightarrow> string \<Rightarrow> string \<Rightarrow> estate \<Rightarrow> bool \<times> estate" where
  "is_latest_published_image C pr images_field tag_field path_field st =
     (case get_pr_cached C pr st of
        (None, st1) \<Rightarrow> (True, st1)
      | (Some current, st1) \<Rightarrow>
          (case parse_pr_metadata (texts C) (opt_default (ap_body current)) of
             None \<Rightarrow> (True, st1)
           | Some meta \<Rightarrow>
               (case (meta_str meta images_field, meta_str meta tag_field, meta_str meta path_field) of
                  (Some images, Some tag, Some path) \<Rightarrow>
                    (case ask (\<lambda>t. get_raw_file C t (pe_owner pr) (pe_repo pr)
                             (trim_end_slashes path @ ''/kustomization.yaml'') (pe_target_branch pr)) st1 of
                       (None, st2) \<Rightarrow> (True, st2)
                     | (Some raw, st2) \<Rightarrow>
                         (case kustomization C raw of
                            None \<Rightarrow> (True, st2)
                          | Some is \<Rightarrow> no_rollback C tag (deployed_images is []) (image_names images) st2))
                | _ \<Rightarrow> (True, st1))))"

definition pr_image_committed_at ::
  "clients \<Rightarrow> (string \<times> json) list \<Rightarrow> string \<Rightarrow> string \<Rightarrow> estate \<Rightarrow> i64 option \<times> estate" where
  "pr_image_committed_at C meta images_field tag_field st =
     (case (meta_str meta images_field, meta_str meta tag_field) of
        (Some images, Some tag) \<Rightarrow>
          (case image_names images of
             [] \<Rightarrow> (None, st)
           | img # _ \<Rightarrow> image_committed_at_cached C img tag st)
      | _ \<Rightarrow> (None, st))"

end
