(* ===== verification/RuleMatch.thy ===== *)
theory RuleMatch
  imports RuleCache
begin

text \<open>
  Evaluation of matchers: \<open>rules/matchers/mod.rs\<close>. An evaluation threads the cache of the
  event; a leaf matcher is computed once and then answered from \<open>matcher_results\<close>, while a
  leaf under an expression is computed every time. An unresolved reference panics in the
  source, which is \<open>None\<close> here. \<open>now\<close> is the instant the rule is tried at, \<open>rule\<close> its name.
\<close>

section \<open>Leaves\<close>

fun event_kind_and_source :: "BotEvent \<Rightarrow> EventKind \<times> EventSource" where
  "event_kind_and_source (ForgejoPr _) = (KPr, Forgejo)"
| "event_kind_and_source (GitHubWorkflow _) = (KWorkflow, Github)"
| "event_kind_and_source (GitHubCommitStatus _) = (KCommitStatus, Github)"
| "event_kind_and_source (GitHubCheckRun _) = (KCheckRun, Github)"
| "event_kind_and_source (GitHubPush _) = (KPush, Github)"
| "event_kind_and_source (ArgoSync _) = (KSync, Argocd)"

fun title_text :: "BotEvent \<Rightarrow> string" where
  "title_text (ForgejoPr pr) = pe_title pr"
| "title_text (GitHubWorkflow w) = wf_display_title w"
| "title_text (GitHubCommitStatus cs) = st_context cs"
| "title_text (GitHubCheckRun cr) = ck_workflow_name cr @ '' '' @ ck_name cr"
| "title_text (GitHubPush p) = pu_branch p"
| "title_text (ArgoSync s) = sy_app_name s"

fun target_branch_of :: "BotEvent \<Rightarrow> string option" where
  "target_branch_of (ForgejoPr pr) = Some (pe_target_branch pr)"
| "target_branch_of (GitHubWorkflow w) = Some (wf_branch w)"
| "target_branch_of (GitHubPush p) = Some (pu_branch p)"
| "target_branch_of _ = None"

fun repository_of :: "BotEvent \<Rightarrow> string option" where
  "repository_of (ForgejoPr pr) = Some (pe_owner pr @ ''/'' @ pe_repo pr)"
| "repository_of (GitHubWorkflow w) = Some (wf_repository w)"
| "repository_of (GitHubCommitStatus cs) = Some (st_repository cs)"
| "repository_of (GitHubCheckRun cr) = Some (ck_repository cr)"
| "repository_of (GitHubPush p) = Some (pu_repository p)"
| "repository_of (ArgoSync _) = None"

text \<open>A leaf that only concerns pull requests is false for every other event.\<close>

definition on_pr :: "BotEvent \<Rightarrow> (PrEvent \<Rightarrow> estate \<Rightarrow> bool \<times> estate) \<Rightarrow> estate \<Rightarrow> bool \<times> estate" where
  "on_pr ev f st = (case ev of ForgejoPr pr \<Rightarrow> f pr st | _ \<Rightarrow> (False, st))"

definition any_pattern :: "clients \<Rightarrow> FilePattern list \<Rightarrow> string \<Rightarrow> bool" where
  "any_pattern C patterns f = list_ex (\<lambda>p. pattern_matches (globs C) p f) patterns"

definition with_files ::
  "clients \<Rightarrow> BotEvent \<Rightarrow> (string list \<Rightarrow> bool) \<Rightarrow> estate \<Rightarrow> bool \<times> estate" where
  "with_files C ev test =
     on_pr ev (\<lambda>pr st. let (files, st') = get_changed_files_cached C pr st in (test files, st'))"

definition with_pr ::
  "clients \<Rightarrow> BotEvent \<Rightarrow> (ApiPr option \<Rightarrow> bool) \<Rightarrow> estate \<Rightarrow> bool \<times> estate" where
  "with_pr C ev test = on_pr ev (\<lambda>pr st. let (p, st') = get_pr_cached C pr st in (test p, st'))"

definition with_status ::
  "clients \<Rightarrow> BotEvent \<Rightarrow> (PrCombinedStatus \<Rightarrow> bool) \<Rightarrow> estate \<Rightarrow> bool \<times> estate" where
  "with_status C ev test =
     on_pr ev (\<lambda>pr st. let (s, st') = combined_status_cached C pr st
                      in (case s of None \<Rightarrow> False | Some s \<Rightarrow> test s, st'))"

definition status_met :: "PrCombinedStatus \<Rightarrow> StatusCheckState \<Rightarrow> string \<Rightarrow> bool" where
  "status_met s state name =
     list_ex (\<lambda>e. se_context e = name \<and> status_state_matches state (se_state e)) (cb_statuses s)"

definition time_of_day ::
  "clients \<Rightarrow> string \<Rightarrow> string \<Rightarrow> string \<Rightarrow> bool \<Rightarrow> int \<Rightarrow> bool" where
  "time_of_day C tz after before weekdays_only now =
     (case parse_tz C tz of
        None \<Rightarrow> False
      | Some local_time \<Rightarrow>
          (case (parse_hm C after, parse_hm C before) of
             (Some after_t, Some before_t) \<Rightarrow>
               (let (weekend, now_t) = local_time now
                in if weekdays_only \<and> weekend then False
                   else after_t \<le> now_t \<and> now_t < before_t)
           | _ \<Rightarrow> False))"

fun eval_leaf ::
  "clients \<Rightarrow> BotEvent \<Rightarrow> string \<Rightarrow> int \<Rightarrow> LeafMatcher \<Rightarrow> estate \<Rightarrow> bool \<times> estate" where
  "eval_leaf C ev rule now (LEvent kind source) st =
     (let (ev_kind, ev_source) = event_kind_and_source ev
      in (ev_kind = kind \<and> source_matches source ev_source, st))"
| "eval_leaf C ev rule now (LAppChangedInCommit owner repo) st =
     (case ev of
        ArgoSync sync \<Rightarrow> ask (\<lambda>t. app_changed_in_commit C t owner repo sync) st
      | _ \<Rightarrow> (False, st))"
| "eval_leaf C ev rule now (LAction v) st = on_pr ev (\<lambda>pr st. (pe_action pr = v, st)) st"
| "eval_leaf C ev rule now (LAuthor v) st = on_pr ev (\<lambda>pr st. (pe_author pr = v, st)) st"
| "eval_leaf C ev rule now (LTitleMatches v mode) st = (mode_matches mode (title_text ev) v, st)"
| "eval_leaf C ev rule now (LHasLabel v) st =
     on_pr ev (\<lambda>pr st. (list_ex (\<lambda>l. l_name l = v) (pe_labels pr), st)) st"
| "eval_leaf C ev rule now LHasConflicts st =
     with_pr C ev (\<lambda>p. Option.bind p ap_mergeable = Some False) st"
| "eval_leaf C ev rule now LIsOpen st =
     with_pr C ev (\<lambda>p. case p of None \<Rightarrow> False
                      | Some p \<Rightarrow> ap_is_open p \<and> ap_merged p \<noteq> Some True) st"
| "eval_leaf C ev rule now LIsMerged st = on_pr ev (\<lambda>pr st. (pe_merged pr, st)) st"
| "eval_leaf C ev rule now LBotHasApproved st = on_pr ev (get_reviews_cached C) st"
| "eval_leaf C ev rule now (LBotCommentContains marker v) st =
     on_pr ev (\<lambda>pr. bot_comment_contains C pr marker v) st"
| "eval_leaf C ev rule now LHasChangedFiles st = with_files C ev (\<lambda>fs. fs \<noteq> []) st"
| "eval_leaf C ev rule now (LChangedFilesAllMatch patterns) st =
     with_files C ev (\<lambda>fs. fs \<noteq> [] \<and> list_all (any_pattern C patterns) fs) st"
| "eval_leaf C ev rule now (LChangedFilesAnyMatch patterns) st =
     with_files C ev (\<lambda>fs. list_ex (any_pattern C patterns) fs) st"
| "eval_leaf C ev rule now (LChangedFilesNoneMatch patterns) st =
     with_files C ev (\<lambda>fs. list_all (\<lambda>f. \<not> any_pattern C patterns f) fs) st"
| "eval_leaf C ev rule now (LFeatureFlag name default_value context) st =
     (let vars = template_vars (texts C) ev;
          rendered = map (\<lambda>(k, v). (k, render_template v vars)) context
      in ask (\<lambda>t. bool_flag C t name rule default_value rendered) st)"
| "eval_leaf C ev rule now (LTimeOfDay tz after before weekdays_only) st =
     (time_of_day C tz after before weekdays_only now, st)"
| "eval_leaf C ev rule now (LWorkflowConclusion v) st =
     (case ev of GitHubWorkflow w \<Rightarrow> (wf_conclusion w = v, st) | _ \<Rightarrow> (False, st))"
| "eval_leaf C ev rule now (LTargetBranch v) st = (target_branch_of ev = Some v, st)"
| "eval_leaf C ev rule now (LRepository v) st = (repository_of ev = Some v, st)"
| "eval_leaf C ev rule now LWorkflowRunAttempt st =
     (case ev of GitHubWorkflow _ \<Rightarrow> (True, st) | _ \<Rightarrow> (False, st))"
| "eval_leaf C ev rule now LHasStatusChecks st =
     with_status C ev (\<lambda>s. 0 < sint (cb_total_count s)) st"
| "eval_leaf C ev rule now LAllStatusChecksPassed st =
     with_status C ev (\<lambda>s. cb_state s = FSuccess) st"
| "eval_leaf C ev rule now (LStatusChecks names state) st =
     with_status C ev (\<lambda>s. filter (\<lambda>n. \<not> status_met s state n) names = []) st"
| "eval_leaf C ev rule now (LIsLatestByMetadata names order_field) st =
     on_pr ev (\<lambda>pr. is_latest_by_metadata C pr names order_field) st"
| "eval_leaf C ev rule now (LIsLatestPublishedImage images_field tag_field path_field) st =
     on_pr ev (\<lambda>pr. is_latest_published_image C pr images_field tag_field path_field) st"

definition eval_leaf_value ::
  "clients \<Rightarrow> BotEvent \<Rightarrow> string \<Rightarrow> int \<Rightarrow> LeafMatcher \<Rightarrow> estate \<Rightarrow> Value \<times> estate" where
  "eval_leaf_value C ev rule now leaf st =
     (if leaf = LWorkflowRunAttempt
      then (case ev of GitHubWorkflow w \<Rightarrow> (VI64 (wf_run_attempt w), st) | _ \<Rightarrow> (VI64 0, st))
      else (let (b, st') = eval_leaf C ev rule now leaf st in (VBool b, st')))"

section \<open>Matchers\<close>

text \<open>What an expression makes of a value: errors of any kind count as no match.\<close>

definition expr_holds :: "string \<Rightarrow> Value \<Rightarrow> bool" where
  "expr_holds txt v =
     (case parse txt of
        Err _ \<Rightarrow> False
      | Ok parsed \<Rightarrow>
          (case eval parsed [(''value'', v)] of
             Err _ \<Rightarrow> False
           | Ok r \<Rightarrow> (case value_as_bool r of Ok b \<Rightarrow> b | Err _ \<Rightarrow> False)))"

definition record_result :: "LeafMatcher \<Rightarrow> bool \<Rightarrow> estate \<Rightarrow> estate" where
  "record_result leaf b st =
     st\<lparr>matcher_results := AList.update leaf b (matcher_results st)\<rparr>"

fun matches :: "clients \<Rightarrow> BotEvent \<Rightarrow> string \<Rightarrow> int \<Rightarrow> Matcher \<Rightarrow> estate \<Rightarrow> (bool \<times> estate) option"
  and all_loop :: "clients \<Rightarrow> BotEvent \<Rightarrow> string \<Rightarrow> int \<Rightarrow> Matcher list \<Rightarrow> estate \<Rightarrow> (bool \<times> estate) option"
  and any_loop :: "clients \<Rightarrow> BotEvent \<Rightarrow> string \<Rightarrow> int \<Rightarrow> Matcher list \<Rightarrow> estate \<Rightarrow> (bool \<times> estate) option"
  where
  "matches C ev rule now (MAll ms) st = all_loop C ev rule now ms st"
| "matches C ev rule now (MAny ms) st = any_loop C ev rule now ms st"
| "matches C ev rule now (MNot m) st =
     (case matches C ev rule now m st of None \<Rightarrow> None | Some (b, st') \<Rightarrow> Some (\<not> b, st'))"
| "matches C ev rule now (MLeafExpr leaf txt) st =
     (let (v, st') = eval_leaf_value C ev rule now leaf st in Some (expr_holds txt v, st'))"
| "matches C ev rule now (MRef name) st = None"
| "matches C ev rule now (MLeaf leaf) st =
     (case map_of (matcher_results st) leaf of
        Some b \<Rightarrow> Some (b, st)
      | None \<Rightarrow>
          (let (b, st') = eval_leaf C ev rule now leaf st in Some (b, record_result leaf b st')))"
| "all_loop C ev rule now [] st = Some (True, st)"
| "all_loop C ev rule now (m # ms) st =
     (case matches C ev rule now m st of
        None \<Rightarrow> None
      | Some (b, st') \<Rightarrow> if \<not> b then Some (False, st') else all_loop C ev rule now ms st')"
| "any_loop C ev rule now [] st = Some (False, st)"
| "any_loop C ev rule now (m # ms) st =
     (case matches C ev rule now m st of
        None \<Rightarrow> None
      | Some (b, st') \<Rightarrow> if b then Some (True, st') else any_loop C ev rule now ms st')"

definition eval_value ::
  "clients \<Rightarrow> BotEvent \<Rightarrow> string \<Rightarrow> int \<Rightarrow> Matcher \<Rightarrow> estate \<Rightarrow> (Value \<times> estate) option" where
  "eval_value C ev rule now m st =
     (case m of
        MLeaf leaf \<Rightarrow> Some (eval_leaf_value C ev rule now leaf st)
      | MLeafExpr leaf txt \<Rightarrow> Some (eval_leaf_value C ev rule now leaf st)
      | MRef name \<Rightarrow> None
      | _ \<Rightarrow> map_option (\<lambda>(b, st'). (VBool b, st')) (matches C ev rule now m st))"

section \<open>Facts about the caches\<close>

text \<open>No lookup of the outside world touches the results of leaf matchers.\<close>

lemma ask_results [simp]: "matcher_results (snd (ask f st)) = matcher_results st"
  by (simp add: ask_def)

lemma get_or_compute_results:
  assumes "\<And>st. matcher_results (snd (compute st)) = matcher_results st"
  shows "matcher_results (snd (get_or_compute get put key compute st)) = matcher_results st"
  using assms [of st] by (auto simp: get_or_compute_def case_prod_unfold Let_def split: option.splits)

lemma lookup_results [simp]:
  "matcher_results (snd (get_changed_files_cached C pr st)) = matcher_results st"
  "matcher_results (snd (get_pr_cached C pr st)) = matcher_results st"
  "matcher_results (snd (get_reviews_cached C pr st)) = matcher_results st"
  "matcher_results (snd (open_prs_cached C pr st)) = matcher_results st"
  "matcher_results (snd (image_committed_at_cached C img tag st)) = matcher_results st"
  by (simp_all add: get_changed_files_cached_def get_pr_cached_def get_reviews_cached_def
      open_prs_cached_def image_committed_at_cached_def get_or_compute_results)

lemma combined_status_results [simp]:
  "matcher_results (snd (combined_status_cached C pr st)) = matcher_results st"
  unfolding combined_status_cached_def
  by (rule get_or_compute_results) (simp add: case_prod_unfold Let_def split: option.splits)

lemma bot_comment_results [simp]:
  "matcher_results (snd (bot_comment_contains C pr m v st)) = matcher_results st"
  by (simp add: bot_comment_contains_def case_prod_unfold Let_def get_or_compute_results)

lemma get_pr_cached_pair: "get_pr_cached C pr st = (x, st') \<Longrightarrow> matcher_results st' = matcher_results st"
  using lookup_results(2) [of C pr st] by simp

lemma open_prs_cached_pair: "open_prs_cached C pr st = (x, st') \<Longrightarrow> matcher_results st' = matcher_results st"
  using lookup_results(4) [of C pr st] by simp

lemma image_committed_at_pair:
  "image_committed_at_cached C img tag st = (x, st') \<Longrightarrow> matcher_results st' = matcher_results st"
  using lookup_results(5) [of C img tag st] by simp

lemma ask_pair: "ask f st = (x, st') \<Longrightarrow> matcher_results st' = matcher_results st"
  using ask_results [of f st] by simp

lemma is_latest_by_metadata_results [simp]:
  "matcher_results (snd (is_latest_by_metadata C pr names f st)) = matcher_results st"
  by (auto simp: is_latest_by_metadata_def Let_def dest!: get_pr_cached_pair open_prs_cached_pair
      split: prod.splits option.splits)

lemma no_rollback_results [simp]:
  "matcher_results (snd (no_rollback C tag deployed imgs st)) = matcher_results st"
proof (induction imgs arbitrary: st)
  case Nil
  show ?case by simp
next
  case (Cons img imgs)
  show ?case
  proof (cases "hget deployed img")
    case None
    with Cons show ?thesis by simp
  next
    case (Some dt)
    obtain a st1 where 1: "image_committed_at_cached C img tag st = (a, st1)" by fastforce
    obtain b st2 where 2: "image_committed_at_cached C img dt st1 = (b, st2)" by fastforce
    from Some Cons 1 2 image_committed_at_pair [OF 1] image_committed_at_pair [OF 2] show ?thesis
      by (auto split: option.splits)
  qed
qed

lemma is_latest_published_image_results [simp]:
  "matcher_results (snd (is_latest_published_image C pr i t p st)) = matcher_results st"
  by (auto simp: is_latest_published_image_def dest!: get_pr_cached_pair ask_pair
      split: prod.splits option.splits)

lemma eval_leaf_results [simp]:
  "matcher_results (snd (eval_leaf C ev rule now leaf st)) = matcher_results st"
  by (cases leaf; cases ev)
    (simp_all add: on_pr_def with_pr_def with_files_def with_status_def case_prod_unfold Let_def)

section \<open>One evaluation sees one world\<close>

text \<open>Results of leaf matchers are only ever added.\<close>

definition extends :: "estate \<Rightarrow> estate \<Rightarrow> bool" where
  "extends s s' \<longleftrightarrow>
     (\<forall>leaf b. map_of (matcher_results s) leaf = Some b \<longrightarrow> map_of (matcher_results s') leaf = Some b)"

lemma extends_refl [simp]: "extends s s"
  by (simp add: extends_def)

lemma extends_trans: "extends a b \<Longrightarrow> extends b c \<Longrightarrow> extends a c"
  by (simp add: extends_def)

lemma extends_record:
  "map_of (matcher_results s) leaf = None \<Longrightarrow> matcher_results s' = matcher_results s
    \<Longrightarrow> extends s (record_result leaf b s')"
  by (auto simp: extends_def record_result_def update_conv')

lemma map_of_record_result [simp]:
  "map_of (matcher_results (record_result leaf b s)) l
     = (if l = leaf then Some b else map_of (matcher_results s) l)"
  by (simp add: record_result_def update_conv')

lemma eval_leaf_pair:
  "eval_leaf C ev rn now leaf st = (b, st') \<Longrightarrow> matcher_results st' = matcher_results st"
  using eval_leaf_results [of C ev rn now leaf st] by simp

lemma eval_leaf_value_results:
  "eval_leaf_value C ev rn now leaf st = (v, st') \<Longrightarrow> matcher_results st' = matcher_results st"
  by (auto simp: eval_leaf_value_def dest: eval_leaf_pair split: if_splits BotEvent.splits prod.splits)

lemma matches_extends:
  shows "matches C ev rn now m st = Some (b, st') \<Longrightarrow> extends st st'"
    and "all_loop C ev rn now ms st = Some (b, st') \<Longrightarrow> extends st st'"
    and "any_loop C ev rn now ms st = Some (b, st') \<Longrightarrow> extends st st'"
proof (induction C ev rn now m st and C ev rn now ms st and C ev rn now ms st
    arbitrary: b st' and b st' and b st' rule: matches_all_loop_any_loop.induct)
  case (4 C ev rn now leaf tx st)
  then show ?case
    by (auto simp: extends_def Let_def dest: eval_leaf_value_results split: prod.splits)
next
  case (6 C ev rn now leaf st)
  then show ?case
    by (auto simp: Let_def intro: extends_record dest: eval_leaf_pair split: option.splits prod.splits)
next
  case (8 C ev rn now m ms st)
  then show ?case by (auto split: option.splits if_splits intro: extends_trans)
next
  case (10 C ev rn now m ms st)
  then show ?case by (auto split: option.splits if_splits intro: extends_trans)
qed (auto split: option.splits)

text \<open>Matchers without expressions, whose leaves are all cached.\<close>

fun plain :: "Matcher \<Rightarrow> bool" where
  "plain (MAll ms) = list_all plain ms"
| "plain (MAny ms) = list_all plain ms"
| "plain (MNot m) = plain m"
| "plain (MLeafExpr _ _) = False"
| "plain (MRef _) = True"
| "plain (MLeaf _) = True"

lemma matches_replay:
  shows "matches C ev rn now m st = Some (b, st') \<Longrightarrow> plain m \<Longrightarrow> extends st' s
      \<Longrightarrow> matches C' ev' rn' now' m s = Some (b, s)"
    and "all_loop C ev rn now ms st = Some (b, st') \<Longrightarrow> list_all plain ms \<Longrightarrow> extends st' s
      \<Longrightarrow> all_loop C' ev' rn' now' ms s = Some (b, s)"
    and "any_loop C ev rn now ms st = Some (b, st') \<Longrightarrow> list_all plain ms \<Longrightarrow> extends st' s
      \<Longrightarrow> any_loop C' ev' rn' now' ms s = Some (b, s)"
proof (induction C ev rn now m st and C ev rn now ms st and C ev rn now ms st
    arbitrary: b st' s and b st' s and b st' s rule: matches_all_loop_any_loop.induct)
  case (3 C ev rn now m st)
  then show ?case by (fastforce split: option.splits)
next
  case (6 C ev rn now leaf st)
  then show ?case by (auto simp: Let_def extends_def split: option.splits prod.splits)
next
  case (8 C ev rn now m ms st)
  from "8.prems"(1) obtain b1 st1 where m: "matches C ev rn now m st = Some (b1, st1)"
    by (auto split: option.splits)
  have later: "extends st1 s"
    using "8.prems"(1,3) m by (auto split: if_splits intro: extends_trans dest: matches_extends(2))
  have "matches C' ev' rn' now' m s = Some (b1, s)"
    using "8.IH"(1) [OF m _ later] "8.prems"(2) by simp
  with "8.prems" m "8.IH"(2) [OF m refl] show ?case by (cases b1) auto
next
  case (10 C ev rn now m ms st)
  from "10.prems"(1) obtain b1 st1 where m: "matches C ev rn now m st = Some (b1, st1)"
    by (auto split: option.splits)
  have later: "extends st1 s"
    using "10.prems"(1,3) m by (auto split: if_splits intro: extends_trans dest: matches_extends(3))
  have "matches C' ev' rn' now' m s = Some (b1, s)"
    using "10.IH"(1) [OF m _ later] "10.prems"(2) by simp
  with "10.prems" m "10.IH"(2) [OF m refl] show ?case by (cases b1) auto
qed auto

text \<open>The boolean meaning of a plain matcher under a valuation of its leaves.\<close>

fun holds :: "(LeafMatcher \<Rightarrow> bool) \<Rightarrow> Matcher \<Rightarrow> bool" where
  "holds v (MAll ms) = list_all (holds v) ms"
| "holds v (MAny ms) = list_ex (holds v) ms"
| "holds v (MNot m) = (\<not> holds v m)"
| "holds v (MLeafExpr leaf _) = v leaf"
| "holds v (MRef _) = False"
| "holds v (MLeaf leaf) = v leaf"

definition valuation_of :: "(LeafMatcher \<Rightarrow> bool) \<Rightarrow> estate \<Rightarrow> bool" where
  "valuation_of v s \<longleftrightarrow> (\<forall>leaf b. map_of (matcher_results s) leaf = Some b \<longrightarrow> v leaf = b)"

lemma valuation_of_extends: "valuation_of v s' \<Longrightarrow> extends s s' \<Longrightarrow> valuation_of v s"
  by (simp add: valuation_of_def extends_def)

lemma matches_holds:
  shows "matches C ev rn now m st = Some (b, st') \<Longrightarrow> plain m \<Longrightarrow> valuation_of v st' \<Longrightarrow> b = holds v m"
    and "all_loop C ev rn now ms st = Some (b, st') \<Longrightarrow> list_all plain ms \<Longrightarrow> valuation_of v st'
      \<Longrightarrow> b = list_all (holds v) ms"
    and "any_loop C ev rn now ms st = Some (b, st') \<Longrightarrow> list_all plain ms \<Longrightarrow> valuation_of v st'
      \<Longrightarrow> b = list_ex (holds v) ms"
proof (induction C ev rn now m st and C ev rn now ms st and C ev rn now ms st
    arbitrary: b st' and b st' and b st' rule: matches_all_loop_any_loop.induct)
  case (6 C ev rn now leaf st)
  then show ?case by (auto simp: Let_def valuation_of_def split: option.splits prod.splits)
next
  case (8 C ev rn now m ms st)
  from "8.prems"(1) obtain b1 st1 where m: "matches C ev rn now m st = Some (b1, st1)"
    by (auto split: option.splits)
  have "valuation_of v st1"
    using "8.prems"(1,3) m
    by (auto split: if_splits intro: valuation_of_extends dest: matches_extends(2))
  with "8.IH"(1) [OF m] "8.prems" m "8.IH"(2) [OF m refl] show ?case by (cases b1) auto
next
  case (10 C ev rn now m ms st)
  from "10.prems"(1) obtain b1 st1 where m: "matches C ev rn now m st = Some (b1, st1)"
    by (auto split: option.splits)
  have "valuation_of v st1"
    using "10.prems"(1,3) m
    by (auto split: if_splits intro: valuation_of_extends dest: matches_extends(3))
  with "10.IH"(1) [OF m] "10.prems" m "10.IH"(2) [OF m refl] show ?case by (cases b1) auto
qed (auto split: option.splits)

lemma matches_total:
  shows "ref_free m \<Longrightarrow> matches C ev rn now m st \<noteq> None"
    and "list_all ref_free ms \<Longrightarrow> all_loop C ev rn now ms st \<noteq> None"
    and "list_all ref_free ms \<Longrightarrow> any_loop C ev rn now ms st \<noteq> None"
  by (induction C ev rn now m st and C ev rn now ms st and C ev rn now ms st
      rule: matches_all_loop_any_loop.induct)
    (auto simp: Let_def split: option.splits prod.splits)

end
