(* ===== verification/RuleSchema.thy ===== *)
theory RuleSchema
  imports RuleMatch
begin

text \<open>
  The rule file of the bot: \<open>rules/schema.rs\<close>, and the actions it is turned into (the types
  and \<open>kind\<close> of \<open>rules/actions.rs\<close>).
\<close>

section \<open>Actions\<close>

type_synonym TemplateString = string

datatype LabelSpec = LabelName string | WithColor string string

fun label_name :: "LabelSpec \<Rightarrow> string" where
  "label_name (LabelName n) = n"
| "label_name (WithColor name color) = name"

fun label_color :: "LabelSpec \<Rightarrow> string option" where
  "label_color (LabelName _) = None"
| "label_color (WithColor name color) = Some color"

record IssueTarget =
  it_owner :: string
  it_repo :: string

datatype MergeStrategy = SMerge | SSquash | SRebase

text \<open>\<open>forgejo_api::structs::MergePullRequestOptionDo\<close>, the values the bot uses.\<close>

datatype MergeDo = DoMerge | DoSquash | DoRebase

fun merge_do :: "MergeStrategy \<Rightarrow> MergeDo" where
  "merge_do SMerge = DoMerge"
| "merge_do SSquash = DoSquash"
| "merge_do SRebase = DoRebase"

datatype CloseOtherPrsCriteria = Older | OlderPublishedImage

datatype RetryWorkflowTarget = RetryGitHub

datatype ProxyService = ProxyArgocd

datatype ActionDef =
    DApprove "TemplateString option"
  | DMerge MergeStrategy bool
  | DComment TemplateString
  | DAddLabels "LabelSpec list" "IssueTarget option"
  | DRemoveLabels "string list" "string list"
  | DCreateIssue IssueTarget bool TemplateString TemplateString "TemplateString option" "LabelSpec list"
  | DCloseIssue IssueTarget TemplateString "TemplateString option"
  | DDeleteBranch
  | DArgoCdDiff
  | DRetryWorkflow RetryWorkflowTarget TemplateString TemplateString
  | DSetCommitStatus IssueTarget TemplateString TemplateString TemplateString TemplateString TemplateString
  | DWaitForGithubSync IssueTarget TemplateString u64
  | DProxyPass ProxyService
  | DClose "TemplateString option" bool
  | DCloseOtherPrs string CloseOtherPrsCriteria "string list" "string option" string string bool
      "TemplateString option"

datatype Action =
    Approve "TemplateString option"
  | Merge MergeDo bool
  | CommentOn TemplateString
  | AddLabels "LabelSpec list" "string option" "string option"
  | RemoveLabels "string list" "string list"
  | CreateIssue string string bool TemplateString TemplateString "TemplateString option" "LabelSpec list"
  | CloseIssue string string TemplateString "TemplateString option"
  | DeleteBranch
  | ArgoCdDiff
  | RetryWorkflow RetryWorkflowTarget TemplateString TemplateString
  | SetCommitStatus string string TemplateString TemplateString TemplateString TemplateString TemplateString
  | WaitForGithubSync string string TemplateString u64
  | ProxyPass ProxyService
  | Close "TemplateString option" bool
  | CloseOtherPrs string CloseOtherPrsCriteria "string list" "string option" string string bool
      "TemplateString option"

fun action_kind :: "Action \<Rightarrow> string" where
  "action_kind (Approve _) = ''approve''"
| "action_kind (Merge _ _) = ''merge''"
| "action_kind (CommentOn _) = ''comment''"
| "action_kind (AddLabels _ _ _) = ''add_labels''"
| "action_kind (RemoveLabels _ _) = ''remove_labels''"
| "action_kind (CreateIssue _ _ _ _ _ _ _) = ''create_issue''"
| "action_kind (CloseIssue _ _ _ _) = ''close_issue''"
| "action_kind DeleteBranch = ''delete_branch''"
| "action_kind ArgoCdDiff = ''argocd_diff''"
| "action_kind (RetryWorkflow _ _ _) = ''retry_workflow''"
| "action_kind (SetCommitStatus _ _ _ _ _ _ _) = ''set_commit_status''"
| "action_kind (WaitForGithubSync _ _ _ _) = ''wait_for_github_sync''"
| "action_kind (ProxyPass _) = ''proxy_pass''"
| "action_kind (Close _ _) = ''close''"
| "action_kind (CloseOtherPrs _ _ _ _ _ _ _ _) = ''close_other_prs''"

fun to_action :: "ActionDef \<Rightarrow> Action" where
  "to_action (DApprove comment) = Approve comment"
| "to_action (DMerge strategy delete_branch) = Merge (merge_do strategy) delete_branch"
| "to_action (DComment comment) = CommentOn comment"
| "to_action (DAddLabels labels target) =
     AddLabels labels (map_option it_owner target) (map_option it_repo target)"
| "to_action (DRemoveLabels labels prefixes) = RemoveLabels labels prefixes"
| "to_action (DCreateIssue target dedup title body on_duplicate labels) =
     CreateIssue (it_owner target) (it_repo target) dedup title body on_duplicate labels"
| "to_action (DCloseIssue target title comment) =
     CloseIssue (it_owner target) (it_repo target) title comment"
| "to_action DDeleteBranch = DeleteBranch"
| "to_action DArgoCdDiff = ArgoCdDiff"
| "to_action (DRetryWorkflow target repository id') = RetryWorkflow target repository id'"
| "to_action (DSetCommitStatus target sha state context' description target_url) =
     SetCommitStatus (it_owner target) (it_repo target) sha state context' description target_url"
| "to_action (DWaitForGithubSync target sha timeout) =
     WaitForGithubSync (it_owner target) (it_repo target) sha timeout"
| "to_action (DProxyPass service) = ProxyPass service"
| "to_action (DClose comment delete_branch) = Close comment delete_branch"
| "to_action (DCloseOtherPrs author criteria match_fields order_field images tag delete_branch comment) =
     CloseOtherPrs author criteria match_fields order_field images tag delete_branch comment"

section \<open>Rules\<close>

datatype Disabled = DBool bool | DReason string

fun is_disabled :: "Disabled \<Rightarrow> bool" where
  "is_disabled (DBool b) = b"
| "is_disabled (DReason _) = True"

record ActionGroup =
  ag_when :: "Matcher option"
  ag_serial :: "TemplateString option"
  ag_run :: "ActionDef list"

record RuleDef =
  ru_name :: string
  ru_disabled :: Disabled
  ru_dry_run :: bool
  ru_priority :: int
  ru_depends_on :: "string list"
  ru_checks :: "Matcher hmap"
  ru_when :: Matcher
  ru_actions :: "ActionGroup list"

record RepoConfig =
  rp_repo :: string
  rp_watched :: bool
  rp_github_repo :: "string option"

record RulesFile =
  rf_version :: u32
  rf_repos :: "RepoConfig list"
  rf_checks :: "Matcher hmap"
  rf_label_colors :: "string hmap"
  rf_rules :: "RuleDef list"

end
