(* ===== verification/RuleResolve.thy ===== *)
theory RuleResolve
  imports RuleSchema
begin

text \<open>
  Loading the rules: named checks are inlined (\<open>resolve_in_matcher\<close> and \<open>resolve_checks\<close> of
  \<open>rules/mod.rs\<close>) and labels get their registered colours. The set \<open>visiting\<close> is left by every
  successful call as it was found, so it is an argument here.
\<close>

section \<open>Resolution\<close>

datatype resolve_error =
    CycleDetected string
  | UnknownGlobalCheck string
  | UnknownCheck string
  | InRule string resolve_error

definition lookup_check ::
  "Matcher hmap \<Rightarrow> Matcher hmap \<Rightarrow> string \<Rightarrow> (resolve_error, Matcher) result" where
  "lookup_check locals globals name =
     (case strip_prefix ''global.'' name of
        Some global_name \<Rightarrow>
          (case hget globals global_name of
             Some m \<Rightarrow> Ok m | None \<Rightarrow> Err (UnknownGlobalCheck global_name))
      | None \<Rightarrow>
          (case hget locals name of Some m \<Rightarrow> Ok m | None \<Rightarrow> Err (UnknownCheck name)))"

text \<open>The names a lookup can succeed on.\<close>

definition check_names :: "Matcher hmap \<Rightarrow> Matcher hmap \<Rightarrow> string set" where
  "check_names locals globals = {n. is_ok (lookup_check locals globals n)}"

lemma finite_check_names: "finite (check_names locals globals)"
proof (rule finite_subset)
  show "check_names locals globals \<subseteq> set (hkeys locals) \<union> (\<lambda>k. ''global.'' @ k) ` set (hkeys globals)"
  proof
    fix n
    assume "n \<in> check_names locals globals"
    then have ok: "is_ok (lookup_check locals globals n)" by (simp add: check_names_def)
    show "n \<in> set (hkeys locals) \<union> (\<lambda>k. ''global.'' @ k) ` set (hkeys globals)"
    proof (cases "starts_with n ''global.''")
      case True
      then obtain g where "n = ''global.'' @ g" by (auto simp: starts_with_iff)
      with ok show ?thesis
        using hget_dom [of globals g] by (auto simp: lookup_check_def strip_prefix_def split: option.splits)
    next
      case False
      with ok show ?thesis
        using hget_dom [of locals n] by (auto simp: lookup_check_def strip_prefix_def split: option.splits)
    qed
  qed
qed simp

definition unseen :: "Matcher hmap \<Rightarrow> Matcher hmap \<Rightarrow> string list \<Rightarrow> nat" where
  "unseen locals globals visiting = card (check_names locals globals - set visiting)"

lemma unseen_less:
  assumes "lookup_check locals globals n = Ok m" and "n \<notin> set visiting"
  shows "unseen locals globals (n # visiting) < unseen locals globals visiting"
proof -
  have "n \<in> check_names locals globals - set visiting"
    using assms by (simp add: check_names_def)
  moreover have "check_names locals globals - set (n # visiting)
      = (check_names locals globals - set visiting) - {n}" by auto
  ultimately show ?thesis
    unfolding unseen_def by (metis card_Diff1_less finite_Diff finite_check_names)
qed

function resolve_in_matcher ::
  "Matcher hmap \<Rightarrow> Matcher hmap \<Rightarrow> string list \<Rightarrow> Matcher \<Rightarrow> (resolve_error, Matcher) result" where
  "resolve_in_matcher locals globals visiting (MRef name) =
     (if List.member visiting name then Err (CycleDetected name)
      else (case lookup_check locals globals name of
              Err e \<Rightarrow> Err e
            | Ok check \<Rightarrow> resolve_in_matcher locals globals (name # visiting) check))"
| "resolve_in_matcher locals globals visiting (MAll ms) =
     (case traverse (resolve_in_matcher locals globals visiting) ms of
        Err e \<Rightarrow> Err e | Ok ms' \<Rightarrow> Ok (MAll ms'))"
| "resolve_in_matcher locals globals visiting (MAny ms) =
     (case traverse (resolve_in_matcher locals globals visiting) ms of
        Err e \<Rightarrow> Err e | Ok ms' \<Rightarrow> Ok (MAny ms'))"
| "resolve_in_matcher locals globals visiting (MNot m) =
     (case resolve_in_matcher locals globals visiting m of Err e \<Rightarrow> Err e | Ok m' \<Rightarrow> Ok (MNot m'))"
| "resolve_in_matcher locals globals visiting (MLeaf leaf) = Ok (MLeaf leaf)"
| "resolve_in_matcher locals globals visiting (MLeafExpr leaf txt) = Ok (MLeafExpr leaf txt)"
  by pat_completeness auto
termination
  by (relation "(\<lambda>(locals, globals, visiting, m). unseen locals globals visiting)
      <*mlex*> measure (\<lambda>(locals, globals, visiting, m). size m)")
    (auto simp: wf_mlex mlex_less mlex_leq unseen_less size_list_estimation' less_Suc_eq_le
      intro!: mlex_less mlex_leq)

definition in_rule :: "string \<Rightarrow> (resolve_error, 'a) result \<Rightarrow> (resolve_error, 'a) result" where
  "in_rule name r = (case r of Err e \<Rightarrow> Err (InRule name e) | Ok x \<Rightarrow> Ok x)"

definition resolve_group ::
  "Matcher hmap \<Rightarrow> Matcher hmap \<Rightarrow> ActionGroup \<Rightarrow> (resolve_error, ActionGroup) result" where
  "resolve_group locals globals grp =
     (case ag_when grp of
        None \<Rightarrow> Ok grp
      | Some m \<Rightarrow> (case resolve_in_matcher locals globals [] m of
                    Err e \<Rightarrow> Err e | Ok m' \<Rightarrow> Ok (grp\<lparr>ag_when := Some m'\<rparr>)))"

definition resolve_rule :: "Matcher hmap \<Rightarrow> RuleDef \<Rightarrow> (resolve_error, RuleDef) result" where
  "resolve_rule globals rule =
     in_rule (ru_name rule)
       (case resolve_in_matcher (ru_checks rule) globals [] (ru_when rule) of
          Err e \<Rightarrow> Err e
        | Ok w \<Rightarrow> (case traverse (resolve_group (ru_checks rule) globals) (ru_actions rule) of
                     Err e \<Rightarrow> Err e
                   | Ok gs \<Rightarrow> Ok (rule\<lparr>ru_when := w, ru_actions := gs\<rparr>)))"

definition resolve_checks :: "RulesFile \<Rightarrow> (resolve_error, RulesFile) result" where
  "resolve_checks rules =
     (case traverse (resolve_rule (rf_checks rules)) (rf_rules rules) of
        Err e \<Rightarrow> Err e | Ok rs \<Rightarrow> Ok (rules\<lparr>rf_rules := rs\<rparr>))"

section \<open>What resolution computes\<close>

lemma traverse_Ok_set:
  "traverse f xs = Ok ys \<Longrightarrow> y \<in> set ys \<Longrightarrow> \<exists>x\<in>set xs. f x = Ok y"
  by (force simp: traverse_Ok_iff list_all2_conv_all_nth in_set_conv_nth)

lemma resolve_ref_free:
  "resolve_in_matcher locals globals visiting m = Ok m' \<Longrightarrow> ref_free m'"
proof (induction locals globals visiting m arbitrary: m' rule: resolve_in_matcher.induct)
  case (1 locals globals visiting name)
  then show ?case by (auto split: if_splits sum.splits)
next
  case (2 locals globals visiting ms)
  from "2.prems" obtain ms' where ms': "m' = MAll ms'"
    and t: "traverse (resolve_in_matcher locals globals visiting) ms = Ok ms'"
    by (auto split: sum.splits)
  have "ref_free y" if "y \<in> set ms'" for y
    using traverse_Ok_set [OF t that] "2.IH" by blast
  then show ?case by (simp add: ms' list_all_iff)
next
  case (3 locals globals visiting ms)
  from "3.prems" obtain ms' where ms': "m' = MAny ms'"
    and t: "traverse (resolve_in_matcher locals globals visiting) ms = Ok ms'"
    by (auto split: sum.splits)
  have "ref_free y" if "y \<in> set ms'" for y
    using traverse_Ok_set [OF t that] "3.IH" by blast
  then show ?case by (simp add: ms' list_all_iff)
next
  case (4 locals globals visiting m)
  then show ?case by (auto split: sum.splits)
qed auto

text \<open>
  The specification: a matcher expands to another one by replacing every reference with the
  expansion of the check it names, through at most \<open>h\<close> levels.
\<close>

inductive expands :: "Matcher hmap \<Rightarrow> Matcher hmap \<Rightarrow> nat \<Rightarrow> Matcher \<Rightarrow> Matcher \<Rightarrow> bool"
  for locals globals where
  ref: "lookup_check locals globals n = Ok m \<Longrightarrow> expands locals globals h m m'
     \<Longrightarrow> expands locals globals (Suc h) (MRef n) m'"
| all: "list_all2 (expands locals globals h) ms ms'
     \<Longrightarrow> expands locals globals (Suc h) (MAll ms) (MAll ms')"
| any: "list_all2 (expands locals globals h) ms ms'
     \<Longrightarrow> expands locals globals (Suc h) (MAny ms) (MAny ms')"
| neg: "expands locals globals h m m' \<Longrightarrow> expands locals globals (Suc h) (MNot m) (MNot m')"
| leaf: "expands locals globals h (MLeaf l) (MLeaf l)"
| leaf_expr: "expands locals globals h (MLeafExpr l e) (MLeafExpr l e)"

inductive_cases expands_refE: "expands locals globals h (MRef n) m'"
inductive_cases expands_allE: "expands locals globals h (MAll ms) m'"
inductive_cases expands_anyE: "expands locals globals h (MAny ms) m'"
inductive_cases expands_notE: "expands locals globals h (MNot m) m'"
inductive_simps expands_leaf: "expands locals globals h (MLeaf l) m'"
inductive_simps expands_leaf_expr: "expands locals globals h (MLeafExpr l e) m'"

lemma expands_weaken:
  "expands locals globals h m m' \<Longrightarrow> h \<le> k \<Longrightarrow> expands locals globals k m m'"
proof (induction arbitrary: k rule: expands.induct)
  case (ref n m h m')
  then show ?case by (cases k) (auto intro: expands.ref)
next
  case (all h ms ms')
  then show ?case by (cases k) (auto intro!: expands.all elim: list_all2_mono)
next
  case (any h ms ms')
  then show ?case by (cases k) (auto intro!: expands.any elim: list_all2_mono)
next
  case (neg h m m')
  then show ?case by (cases k) (auto intro: expands.neg)
qed (auto intro: expands.leaf expands.leaf_expr)

lemma expands_weaken_list:
  "list_all2 (expands locals globals h) xs ys \<Longrightarrow> h \<le> k
    \<Longrightarrow> list_all2 (expands locals globals k) xs ys"
  by (erule list_all2_mono) (rule expands_weaken)

lemma expands_list:
  "list_all2 (\<lambda>x y. \<exists>h. expands locals globals h x y) xs ys
    \<Longrightarrow> \<exists>h. list_all2 (expands locals globals h) xs ys"
proof (induction rule: list_all2_induct)
  case Nil
  show ?case by simp
next
  case (Cons x xs y ys)
  then obtain h k where "expands locals globals h x y" "list_all2 (expands locals globals k) xs ys" by auto
  then have "expands locals globals (max h k) x y" "list_all2 (expands locals globals (max h k)) xs ys"
    by (simp_all add: expands_weaken expands_weaken_list)
  then show ?case by auto
qed

lemma traverse_expands:
  assumes "traverse f ms = Ok ms'"
    and "\<And>x y. x \<in> set ms \<Longrightarrow> f x = Ok y \<Longrightarrow> \<exists>h. expands locals globals h x y"
  shows "\<exists>h. list_all2 (expands locals globals h) ms ms'"
proof (rule expands_list)
  from assms(1) have "list_all2 (\<lambda>x y. f x = Ok y) ms ms'" by (simp add: traverse_Ok_iff)
  then show "list_all2 (\<lambda>x y. \<exists>h. expands locals globals h x y) ms ms'"
    by (rule list.rel_mono_strong) (rule assms(2))
qed

lemma resolve_sound:
  "resolve_in_matcher locals globals visiting m = Ok m' \<Longrightarrow> \<exists>h. expands locals globals h m m'"
proof (induction locals globals visiting m arbitrary: m' rule: resolve_in_matcher.induct)
  case (1 locals globals visiting name)
  from "1.prems" obtain c where c: "\<not> List.member visiting name" "lookup_check locals globals name = Ok c"
    "resolve_in_matcher locals globals (name # visiting) c = Ok m'"
    by (auto split: if_splits sum.splits)
  from "1.IH" [OF c] show ?case using expands.ref [OF c(2)] by blast
next
  case (2 locals globals visiting ms)
  from "2.prems" obtain ms' where ms': "m' = MAll ms'"
    and t: "traverse (resolve_in_matcher locals globals visiting) ms = Ok ms'"
    by (auto split: sum.splits)
  from traverse_expands [OF t "2.IH"] ms' show ?case by (auto dest: expands.all)
next
  case (3 locals globals visiting ms)
  from "3.prems" obtain ms' where ms': "m' = MAny ms'"
    and t: "traverse (resolve_in_matcher locals globals visiting) ms = Ok ms'"
    by (auto split: sum.splits)
  from traverse_expands [OF t "3.IH"] ms' show ?case by (auto dest: expands.any)
next
  case (4 locals globals visiting m)
  then show ?case by (auto split: sum.splits dest: expands.neg)
qed (auto intro: expands.leaf expands.leaf_expr)

lemma list_all2_unique:
  "list_all2 (\<lambda>x y. P x y \<and> (\<forall>k z. R k x z \<longrightarrow> y = z)) xs ys \<Longrightarrow> list_all2 (R k) xs zs \<Longrightarrow> ys = zs"
  by (induction arbitrary: zs rule: list_all2_induct) (auto simp: list_all2_Cons1)

lemma expands_unique:
  "expands locals globals h m a \<Longrightarrow> expands locals globals k m b \<Longrightarrow> a = b"
proof (induction arbitrary: k b rule: expands.induct)
  case (ref n m h m')
  from ref.prems obtain k' c where "lookup_check locals globals n = Ok c" "expands locals globals k' c b"
    by (auto elim: expands_refE)
  with ref.hyps ref.IH show ?case by (metis sum.inject(2))
next
  case (all h ms ms')
  from all.prems obtain k' bs where b: "b = MAll bs" "list_all2 (expands locals globals k') ms bs"
    by (auto elim!: expands_allE)
  have "ms' = bs"
    using all.IH b(2) by (rule list_all2_unique)
  with b show ?case by simp
next
  case (any h ms ms')
  from any.prems obtain k' bs where b: "b = MAny bs" "list_all2 (expands locals globals k') ms bs"
    by (auto elim!: expands_anyE)
  have "ms' = bs"
    using any.IH b(2) by (rule list_all2_unique)
  with b show ?case by simp
next
  case (neg h m m')
  from neg.prems obtain k' c where "b = MNot c" "expands locals globals k' m c"
    by (auto elim: expands_notE)
  with neg.IH show ?case by blast
qed (simp_all add: expands_leaf expands_leaf_expr)

lemma traverse_list_all2:
  "list_all2 R xs ys \<Longrightarrow> (\<And>x y. x \<in> set xs \<Longrightarrow> R x y \<Longrightarrow> f x = Ok y) \<Longrightarrow> traverse f xs = Ok ys"
  unfolding traverse_Ok_iff by (erule list.rel_mono_strong) simp

text \<open>
  A finite expansion is found: no check that is being expanded can be needed again below the
  least height at which it expands.
\<close>

lemma resolve_complete:
  "expands locals globals h m m'
    \<Longrightarrow> \<forall>n\<in>set visiting. \<forall>k m''. expands locals globals k (MRef n) m'' \<longrightarrow> h < k
    \<Longrightarrow> resolve_in_matcher locals globals visiting m = Ok m'"
proof (induction h arbitrary: m m' visiting rule: less_induct)
  case (less h)
  have children: "traverse (resolve_in_matcher locals globals visiting) ms = Ok ms'"
    if "h = Suc h'" "list_all2 (expands locals globals h') ms ms'" for h' ms ms'
    using that(2)
  proof (rule traverse_list_all2)
    fix x y
    assume "expands locals globals h' x y"
    then show "resolve_in_matcher locals globals visiting x = Ok y"
      using less.prems(2) that(1) by (intro less.IH [of h']) (auto intro: Suc_lessD)
  qed
  from less.prems(1) show ?case
  proof cases
    case (ref n c h')
    have "n \<notin> set visiting"
      using less.prems ref(2) by fastforce
    let ?least = "LEAST k. \<exists>x. expands locals globals k (MRef n) x"
    have "\<exists>x. expands locals globals ?least (MRef n) x"
      using less.prems(1) ref(2) by (intro LeastI_ex [of "\<lambda>k. \<exists>x. expands locals globals k (MRef n) x"]) auto
    then obtain x k where k: "?least = Suc k" "expands locals globals k c x"
      using ref(3) by (auto elim!: expands_refE)
    have le: "?least \<le> j" if "expands locals globals j (MRef n) y" for j y
      using that by (intro Least_le) blast
    have "Suc k \<le> h" using le less.prems(1) ref(2) k(1) by metis
    have "resolve_in_matcher locals globals (n # visiting) c = Ok x"
    proof (rule less.IH [of k])
      show "k < h" using \<open>Suc k \<le> h\<close> by simp
      show "\<forall>j\<in>set (n # visiting). \<forall>i y. expands locals globals i (MRef j) y \<longrightarrow> k < i"
        using less.prems(2) \<open>Suc k \<le> h\<close> le k(1) by fastforce
    qed (rule k(2))
    moreover have "x = m'" using expands_unique [OF k(2) ref(4)] .
    ultimately show ?thesis using \<open>n \<notin> set visiting\<close> ref(2,3) by simp
  next
    case (neg h' c c')
    have "resolve_in_matcher locals globals visiting c = Ok c'"
      using less.prems(2) neg by (intro less.IH [of h']) (auto intro: Suc_lessD)
    with neg show ?thesis by simp
  qed (simp_all add: children)
qed

lemma resolve_iff_expands:
  "resolve_in_matcher locals globals [] m = Ok m' \<longleftrightarrow> (\<exists>h. expands locals globals h m m')"
  using resolve_sound resolve_complete [where visiting = "[]"] by fastforce

end
