(* ===== verification/RuleOrder.thy ===== *)
theory RuleOrder
  imports RuleResolve "HOL-Library.Multiset"
begin

text \<open>
  The order in which rules run: \<open>apply_label_colors\<close> and \<open>topo_sort\<close> of \<open>rules/mod.rs\<close>. An index
  out of bounds, the subtraction below zero of a \<open>usize\<close> and the \<open>unwrap\<close> of an empty slot
  would panic, which is \<open>None\<close>; the lemmas show that none of them happens.
\<close>

section \<open>Label colours\<close>

fun upgrade :: "string hmap \<Rightarrow> LabelSpec \<Rightarrow> LabelSpec" where
  "upgrade registry (LabelName name) =
     (case hget registry name of Some color \<Rightarrow> WithColor name color | None \<Rightarrow> LabelName name)"
| "upgrade registry (WithColor name color) = WithColor name color"

fun upgrade_action :: "string hmap \<Rightarrow> ActionDef \<Rightarrow> ActionDef" where
  "upgrade_action registry (DAddLabels labels target) =
     DAddLabels (map (upgrade registry) labels) target"
| "upgrade_action registry (DCreateIssue target dedup title body on_duplicate labels) =
     DCreateIssue target dedup title body on_duplicate (map (upgrade registry) labels)"
| "upgrade_action registry a = a"

definition apply_label_colors :: "RulesFile \<Rightarrow> RulesFile" where
  "apply_label_colors rules =
     (let registry = rf_label_colors rules
      in if registry = [] then rules
         else rules\<lparr>rf_rules := map (\<lambda>r. r\<lparr>ru_actions := map (\<lambda>g. g\<lparr>ag_run :=
                map (upgrade_action registry) (ag_run g)\<rparr>) (ru_actions r)\<rparr>) (rf_rules rules)\<rparr>)"

lemma label_name_upgrade [simp]: "label_name (upgrade registry l) = label_name l"
  by (cases l) (auto split: option.splits)

lemma upgrade_idem [simp]: "upgrade registry (upgrade registry l) = upgrade registry l"
  by (cases l) (auto split: option.splits)

lemma upgrade_action_idem [simp]:
  "upgrade_action registry (upgrade_action registry a) = upgrade_action registry a"
  by (cases a) auto

lemma action_kind_upgrade [simp]:
  "action_kind (to_action (upgrade_action registry a)) = action_kind (to_action a)"
  by (cases a) auto

section \<open>The sort\<close>

definition sort_by_priority :: "RuleDef list \<Rightarrow> RuleDef list" where
  "sort_by_priority rules = sort_key (\<lambda>r. - ru_priority r) rules"

text \<open>\<open>name_to_idx\<close>: collecting into a map keeps the last rule of a name.\<close>

definition name_to_idx :: "RuleDef list \<Rightarrow> string \<Rightarrow> nat option" where
  "name_to_idx rules = map_of (rev (zip (map ru_name rules) [0..<length rules]))"

text \<open>\<open>in_degree\<close> and \<open>dependents\<close>.\<close>

type_synonym graph = "nat list \<times> nat list list"

fun count_deps :: "(string \<Rightarrow> nat option) \<Rightarrow> nat \<Rightarrow> string list \<Rightarrow> graph \<Rightarrow> graph" where
  "count_deps idx i [] g = g"
| "count_deps idx i (dep # deps) (in_degree, dependents) =
     (case idx dep of
        None \<Rightarrow> count_deps idx i deps (in_degree, dependents)
      | Some d \<Rightarrow> count_deps idx i deps
          (in_degree[i := in_degree ! i + 1], dependents[d := dependents ! d @ [i]]))"

fun count_rules :: "(string \<Rightarrow> nat option) \<Rightarrow> nat \<Rightarrow> RuleDef list \<Rightarrow> graph \<Rightarrow> graph" where
  "count_rules idx i [] g = g"
| "count_rules idx i (r # rs) g = count_rules idx (Suc i) rs (count_deps idx i (ru_depends_on r) g)"

definition rule_graph :: "RuleDef list \<Rightarrow> graph" where
  "rule_graph rules =
     (let n = length rules
      in count_rules (name_to_idx rules) 0 rules (replicate n 0, replicate n []))"

fun release :: "nat list \<Rightarrow> nat list \<Rightarrow> nat list \<Rightarrow> (nat list \<times> nat list) option" where
  "release [] in_degree queue = Some (in_degree, queue)"
| "release (d # ds) in_degree queue =
     (if length in_degree \<le> d \<or> in_degree ! d = 0 then None
      else (let in_degree' = in_degree[d := in_degree ! d - 1]
            in release ds in_degree' (if in_degree' ! d = 0 then queue @ [d] else queue)))"

lemma release_measure:
  "release ds deg q = Some (deg', q') \<Longrightarrow> length q' + sum_list deg' \<le> length q + sum_list deg"
proof (induction ds deg q arbitrary: deg' q' rule: release.induct)
  case (1 deg q)
  then show ?case by simp
next
  case (2 d ds deg q)
  let ?deg1 = "deg[d := deg ! d - 1]"
  from "2.prems" have d: "d < length deg" "0 < deg ! d"
    by (auto split: if_splits)
  then have s: "Suc (sum_list ?deg1) = sum_list deg"
    using elem_le_sum_list [of d deg] by (simp add: sum_list_update)
  from "2.prems" d have "release ds ?deg1 (if ?deg1 ! d = 0 then q @ [d] else q) = Some (deg', q')"
    by (auto simp: Let_def)
  with "2.IH" d have "length q' + sum_list deg'
      \<le> length (if ?deg1 ! d = 0 then q @ [d] else q) + sum_list ?deg1" by auto
  with s show ?case by (auto split: if_splits)
qed

function drain :: "nat list list \<Rightarrow> nat list \<Rightarrow> nat list \<Rightarrow> nat list \<Rightarrow> nat list option" where
  "drain dependents in_degree [] order = Some order"
| "drain dependents in_degree (i # queue) order =
     (if length dependents \<le> i then None
      else (case release (dependents ! i) in_degree queue of
              None \<Rightarrow> None
            | Some (in_degree', queue') \<Rightarrow> drain dependents in_degree' queue' (order @ [i])))"
  by pat_completeness auto
termination
  by (relation "measure (\<lambda>(dependents, in_degree, queue, order). length queue + sum_list in_degree)")
    (auto dest!: release_measure)

fun take_all :: "'a option list \<Rightarrow> nat list \<Rightarrow> 'a list option" where
  "take_all slots [] = Some []"
| "take_all slots (i # is) =
     (if length slots \<le> i then None
      else (case slots ! i of
              None \<Rightarrow> None
            | Some r \<Rightarrow> map_option (\<lambda>rs. r # rs) (take_all (slots[i := None]) is)))"

definition topo_sort :: "RuleDef list \<Rightarrow> RuleDef list option" where
  "topo_sort rules0 =
     (let rules = sort_by_priority rules0;
          (in_degree, dependents) = rule_graph rules;
          queue = filter (\<lambda>i. in_degree ! i = 0) [0..<length rules]
      in (case drain dependents in_degree queue [] of
            None \<Rightarrow> None
          | Some order \<Rightarrow> take_all (map Some rules) order))"


section \<open>The worklist\<close>

text \<open>Nodes with an edge into \<open>j\<close>, and the number of those edges that do not start in \<open>D\<close>.\<close>

definition preds :: "nat list list \<Rightarrow> nat \<Rightarrow> nat set" where
  "preds dep j = {i. i < length dep \<and> j \<in> set (dep ! i)}"

definition edges_from :: "nat list list \<Rightarrow> nat set \<Rightarrow> nat \<Rightarrow> nat" where
  "edges_from dep D j = (\<Sum>i\<in>{..<length dep} - D. count_list (dep ! i) j)"

lemma edges_from_0: "edges_from dep D j = 0 \<longleftrightarrow> preds dep j \<subseteq> D"
  by (auto simp: edges_from_def preds_def count_list_0_iff)

lemma edges_from_insert:
  "i < length dep \<Longrightarrow> i \<notin> D
    \<Longrightarrow> edges_from dep D j = count_list (dep ! i) j + edges_from dep (insert i D) j"
  unfolding edges_from_def by (subst sum.remove [of _ i]) (auto intro!: sum.cong)

lemma release_spec:
  assumes "\<forall>j<length deg. count_list ds j \<le> deg ! j" "set ds \<subseteq> {..<length deg}"
  shows "\<exists>deg' new. release ds deg q = Some (deg', q @ new) \<and> length deg' = length deg
    \<and> (\<forall>j<length deg. deg' ! j = deg ! j - count_list ds j)
    \<and> distinct new \<and> set new = {j \<in> set ds. deg' ! j = 0}"
  using assms
proof (induction ds arbitrary: deg q)
  case Nil
  show ?case by simp
next
  case (Cons d ds)
  let ?deg = "deg[d := deg ! d - 1]"
  let ?q = "if ?deg ! d = 0 then q @ [d] else q"
  have d: "d < length deg" "0 < deg ! d"
    using Cons.prems by (auto dest: spec [of _ d])
  have "\<forall>j<length ?deg. count_list ds j \<le> ?deg ! j"
    using Cons.prems(1) d by (auto simp: nth_list_update split: if_splits)
  moreover have "set ds \<subseteq> {..<length ?deg}" using Cons.prems(2) by simp
  ultimately obtain deg' new where r: "release ds ?deg ?q = Some (deg', ?q @ new)"
    and len: "length deg' = length ?deg"
    and deg': "\<forall>j<length ?deg. deg' ! j = ?deg ! j - count_list ds j"
    and new: "distinct new" "set new = {j \<in> set ds. deg' ! j = 0}"
    using Cons.IH by blast
  have all: "\<forall>j<length deg. deg' ! j = deg ! j - count_list (d # ds) j"
    using deg' d by (auto simp: nth_list_update)
  have once: "?deg ! d = 0 \<Longrightarrow> d \<notin> set ds"
    using \<open>\<forall>j<length ?deg. count_list ds j \<le> ?deg ! j\<close> d by (auto simp: count_list_0_iff)
  have again: "?deg ! d \<noteq> 0 \<Longrightarrow> deg' ! d = 0 \<Longrightarrow> d \<in> set ds"
    using deg' d by (metis count_notin diff_zero length_list_update)
  have "release (d # ds) deg q = Some (deg', ?q @ new)"
    using d r by (simp add: Let_def)
  moreover have "?deg ! d = 0 \<Longrightarrow> deg' ! d = 0" using deg' d by simp
  ultimately show ?case
    using all len new once again
    by (intro exI [of _ deg'] exI [of _ "if ?deg ! d = 0 then d # new else new"]) auto
qed

definition sorting :: "nat list list \<Rightarrow> nat list \<Rightarrow> nat list \<Rightarrow> nat list \<Rightarrow> bool" where
  "sorting dep deg queue order \<longleftrightarrow>
     length deg = length dep
     \<and> (\<forall>j<length dep. deg ! j = edges_from dep (set order) j)
     \<and> distinct (order @ queue)
     \<and> set (order @ queue) = {j. j < length dep \<and> deg ! j = 0}
     \<and> (\<forall>xs y ys. order = xs @ y # ys \<longrightarrow> preds dep y \<subseteq> set xs)"

lemma sorting_step:
  assumes inv: "sorting dep deg (i # queue) order" and dep: "\<forall>ds\<in>set dep. set ds \<subseteq> {..<length dep}"
  shows "\<exists>deg' queue'. release (dep ! i) deg queue = Some (deg', queue')
    \<and> sorting dep deg' queue' (order @ [i])"
proof -
  from inv have len: "length deg = length dep"
    and deg: "\<And>j. j < length dep \<Longrightarrow> deg ! j = edges_from dep (set order) j"
    and dist: "distinct (order @ i # queue)"
    and zero: "set (order @ i # queue) = {j. j < length dep \<and> deg ! j = 0}"
    and pre: "\<And>xs y ys. order = xs @ y # ys \<Longrightarrow> preds dep y \<subseteq> set xs"
    unfolding sorting_def by blast+
  have i: "i < length dep" "deg ! i = 0" "i \<notin> set order"
    using zero dist by auto
  have split: "deg ! j = count_list (dep ! i) j + edges_from dep (insert i (set order)) j"
    if "j < length dep" for j
    using deg [OF that] edges_from_insert [OF i(1,3)] by simp
  have "\<forall>j<length deg. count_list (dep ! i) j \<le> deg ! j" using split len by simp
  moreover have "set (dep ! i) \<subseteq> {..<length deg}" using dep i(1) len by simp
  ultimately obtain deg' new where r: "release (dep ! i) deg queue = Some (deg', queue @ new)"
    and len': "length deg' = length deg"
    and deg': "\<forall>j<length deg. deg' ! j = deg ! j - count_list (dep ! i) j"
    and new: "distinct new" "set new = {j \<in> set (dep ! i). deg' ! j = 0}"
    using release_spec [of deg "dep ! i" queue] by blast
  have deg'_edges: "deg' ! j = edges_from dep (set (order @ [i])) j" if "j < length dep" for j
    using split [OF that] deg' that len by simp
  have fresh: "j \<notin> set (order @ i # queue)" if "j \<in> set new" for j
  proof -
    have "j < length dep" "count_list (dep ! i) j \<noteq> 0"
      using that new(2) dep i(1) by (auto simp: count_list_0_iff intro: nth_mem)
    then show ?thesis using split [of j] zero by auto
  qed
  have zero': "set ((order @ [i]) @ queue @ new) = {j. j < length dep \<and> deg' ! j = 0}" (is "?L = ?R")
  proof
    have "set (order @ i # queue) \<subseteq> ?R" unfolding zero using deg' len by auto
    moreover have "set new \<subseteq> ?R" using new(2) dep i(1) nth_mem [of i dep] by blast
    ultimately show "?L \<subseteq> ?R" by simp
    show "?R \<subseteq> ?L"
    proof
      fix j
      assume j: "j \<in> ?R"
      show "j \<in> ?L"
      proof (cases "j \<in> set (dep ! i)")
        case True
        with j new(2) show ?thesis by simp
      next
        case False
        then have "count_list (dep ! i) j = 0" by simp
        then have "deg ! j = 0" using j deg' len by (metis (mono_tags) diff_zero mem_Collect_eq)
        then show ?thesis using j zero by auto
      qed
    qed
  qed
  have "preds dep i \<subseteq> set order"
    using deg [OF i(1)] i(2) by (simp add: edges_from_0)
  have pre': "preds dep y \<subseteq> set xs" if "order @ [i] = xs @ y # ys" for xs y ys
  proof (cases ys rule: rev_cases)
    case Nil
    with that \<open>preds dep i \<subseteq> set order\<close> show ?thesis by simp
  next
    case (snoc zs z)
    with that have "order = xs @ y # zs" by simp
    then show ?thesis by (rule pre)
  qed
  have "sorting dep deg' (queue @ new) (order @ [i])"
    unfolding sorting_def using len len' deg'_edges dist new(1) fresh zero' pre' by auto
  with r show ?thesis by blast
qed

lemma drain_spec:
  assumes "sorting dep deg queue order" "\<forall>ds\<in>set dep. set ds \<subseteq> {..<length dep}"
  shows "\<exists>deg' order'. drain dep deg queue order = Some order' \<and> sorting dep deg' [] order'"
  using assms
proof (induction dep deg queue order rule: drain.induct)
  case (1 dep deg order)
  then show ?case by auto
next
  case (2 dep deg i queue order)
  from sorting_step [OF "2.prems"] obtain deg' queue' where
    r: "release (dep ! i) deg queue = Some (deg', queue')" "sorting dep deg' queue' (order @ [i])"
    by blast
  have "\<not> length dep \<le> i" using "2.prems"(1) by (auto simp: sorting_def)
  with "2.IH" [OF this r(1) refl r(2) "2.prems"(2)] r(1) show ?case by simp
qed


section \<open>The graph\<close>

definition graph_inv :: "nat \<Rightarrow> graph \<Rightarrow> bool" where
  "graph_inv n g \<longleftrightarrow>
     (case g of (deg, dep) \<Rightarrow>
        length deg = n \<and> length dep = n \<and> (\<forall>ds\<in>set dep. set ds \<subseteq> {..<n})
        \<and> (\<forall>j<n. deg ! j = edges_from dep {} j))"

lemma edges_from_update:
  "d < length dep
    \<Longrightarrow> edges_from (dep[d := dep ! d @ [i]]) {} j = edges_from dep {} j + (if j = i then 1 else 0)"
  unfolding edges_from_def
  by (subst (1 2) sum.remove [of _ d]) (auto intro!: sum.cong)

lemma count_deps_spec:
  assumes "graph_inv n g" "i < n" "\<And>d k. idx d = Some k \<Longrightarrow> k < n"
  shows "graph_inv n (count_deps idx i deps g)"
    and "k < n \<Longrightarrow> set (snd (count_deps idx i deps g) ! k)
      = set (snd g ! k) \<union> {j. j = i \<and> (\<exists>d\<in>set deps. idx d = Some k)}"
proof -
  have "graph_inv n (count_deps idx i deps g) \<and> (\<forall>k<n. set (snd (count_deps idx i deps g) ! k)
      = set (snd g ! k) \<union> {j. j = i \<and> (\<exists>d\<in>set deps. idx d = Some k)})"
    using assms(1)
  proof (induction deps arbitrary: g)
    case Nil
    then show ?case by simp
  next
    case (Cons dep deps)
    obtain deg dp where g: "g = (deg, dp)" by (cases g)
    show ?case
    proof (cases "idx dep")
      case None
      with Cons.IH [OF Cons.prems] g show ?thesis by simp
    next
      case (Some d)
      have d: "d < n" using assms(3) [OF Some] .
      from Cons.prems have dp: "length deg = n" "length dp = n" "\<And>k. k < n \<Longrightarrow> set (dp ! k) \<subseteq> {..<n}"
        and deg: "\<And>j. j < n \<Longrightarrow> deg ! j = edges_from dp {} j"
        by (auto simp: g graph_inv_def dest: nth_mem)
      have "set (dp ! d @ [i]) \<subseteq> {..<n}" using dp(3) [OF d] assms(2) by simp
      then have "set ds \<subseteq> {..<n}" if "ds \<in> set (dp[d := dp ! d @ [i]])" for ds
        using that Cons.prems set_update_subset_insert [of dp d "dp ! d @ [i]"]
        unfolding g graph_inv_def by blast
      then have "graph_inv n (deg[i := deg ! i + 1], dp[d := dp ! d @ [i]])"
        using dp deg d by (auto simp: graph_inv_def edges_from_update nth_list_update)
      from Cons.IH [OF this] Some d show ?thesis
        unfolding g using Cons.prems by (auto simp: g graph_inv_def nth_list_update)
    qed
  qed
  then show "graph_inv n (count_deps idx i deps g)"
    and "k < n \<Longrightarrow> set (snd (count_deps idx i deps g) ! k)
      = set (snd g ! k) \<union> {j. j = i \<and> (\<exists>d\<in>set deps. idx d = Some k)}" by auto
qed

lemma count_rules_spec:
  assumes "graph_inv n g" "i + length rs \<le> n" "\<And>d k. idx d = Some k \<Longrightarrow> k < n"
  shows "graph_inv n (count_rules idx i rs g) \<and> (\<forall>k<n. set (snd (count_rules idx i rs g) ! k)
      = set (snd g ! k) \<union> {j. i \<le> j \<and> j < i + length rs
          \<and> (\<exists>d\<in>set (ru_depends_on (rs ! (j - i))). idx d = Some k)})"
  using assms
proof (induction rs arbitrary: i g)
  case Nil
  then show ?case by auto
next
  case (Cons r rs)
  let ?g = "count_deps idx i (ru_depends_on r) g"
  have "graph_inv n ?g" and step: "\<And>k. k < n \<Longrightarrow> set (snd ?g ! k)
      = set (snd g ! k) \<union> {j. j = i \<and> (\<exists>d\<in>set (ru_depends_on r). idx d = Some k)}"
    using count_deps_spec [of n g i idx] Cons.prems by auto
  with Cons.IH [of ?g "Suc i"] Cons.prems have IH: "graph_inv n (count_rules idx (Suc i) rs ?g)"
    "\<And>k. k < n \<Longrightarrow> set (snd (count_rules idx (Suc i) rs ?g) ! k) = set (snd ?g ! k)
       \<union> {j. Suc i \<le> j \<and> j < Suc i + length rs
            \<and> (\<exists>d\<in>set (ru_depends_on (rs ! (j - Suc i))). idx d = Some k)}" by auto
  have at: "{j. i \<le> j \<and> j < i + length (r # rs)
          \<and> (\<exists>d\<in>set (ru_depends_on ((r # rs) ! (j - i))). idx d = Some k)}
      = {j. j = i \<and> (\<exists>d\<in>set (ru_depends_on r). idx d = Some k)}
       \<union> {j. Suc i \<le> j \<and> j < Suc i + length rs
            \<and> (\<exists>d\<in>set (ru_depends_on (rs ! (j - Suc i))). idx d = Some k)}" for k
    by (auto simp: nth_Cons' Suc_le_eq)
  show ?case
    unfolding at using IH step by (simp add: Un_assoc)
qed


lemma name_to_idx_bound: "name_to_idx rules name = Some i \<Longrightarrow> i < length rules"
  by (auto simp: name_to_idx_def dest!: map_of_SomeD in_set_zipE)

lemma name_to_idx_name: "name_to_idx rules name = Some i \<Longrightarrow> ru_name (rules ! i) = name"
  by (auto simp: name_to_idx_def dest!: map_of_SomeD simp: in_set_zip)

lemma name_to_idx_Some:
  "distinct (map ru_name rules) \<Longrightarrow> i < length rules \<Longrightarrow> name_to_idx rules (ru_name (rules ! i)) = Some i"
  unfolding name_to_idx_def
  by (intro map_of_is_SomeI) (auto simp: rev_map [symmetric] in_set_zip intro!: exI [of _ i])

lemma rule_graph_spec:
  "graph_inv (length rules) (rule_graph rules)"
  "k < length rules \<Longrightarrow> set (snd (rule_graph rules) ! k)
    = {j. j < length rules \<and> (\<exists>d\<in>set (ru_depends_on (rules ! j)). name_to_idx rules d = Some k)}"
proof -
  let ?n = "length rules"
  have "graph_inv ?n (replicate ?n 0, replicate ?n [])"
    by (auto simp: graph_inv_def edges_from_def)
  from count_rules_spec [OF this, of 0 rules "name_to_idx rules"]
  show "graph_inv ?n (rule_graph rules)"
    and "k < ?n \<Longrightarrow> set (snd (rule_graph rules) ! k)
      = {j. j < ?n \<and> (\<exists>d\<in>set (ru_depends_on (rules ! j)). name_to_idx rules d = Some k)}"
    by (auto simp: rule_graph_def Let_def name_to_idx_bound)
qed

lemma take_all_spec:
  "distinct is \<Longrightarrow> \<forall>i\<in>set is. i < length slots \<and> slots ! i \<noteq> None
    \<Longrightarrow> take_all slots is = Some (map (\<lambda>i. the (slots ! i)) is)"
proof (induction "is" arbitrary: slots)
  case Nil
  show ?case by simp
next
  case (Cons i "is")
  then have "take_all (slots[i := None]) is = Some (map (\<lambda>j. the (slots[i := None] ! j)) is)"
    by (intro Cons.IH) (auto simp: nth_list_update)
  moreover have "map (\<lambda>j. the (slots[i := None] ! j)) is = map (\<lambda>j. the (slots ! j)) is"
    using Cons.prems(1) by (auto intro!: arg_cong [where f = the] nth_list_update_neq)
  ultimately show ?case using Cons.prems by auto
qed

text \<open>The rules a rule waits for, by index.\<close>

definition waits_for :: "RuleDef list \<Rightarrow> nat \<Rightarrow> nat set" where
  "waits_for rules j = {k. \<exists>d\<in>set (ru_depends_on (rules ! j)). name_to_idx rules d = Some k}"

lemma topo_sort_spec:
  assumes "rules = sort_by_priority rules0"
  shows "\<exists>order. topo_sort rules0 = Some (map ((!) rules) order)
    \<and> distinct order \<and> set order \<subseteq> {..<length rules}
    \<and> (\<forall>j<length rules. j \<in> set order \<longleftrightarrow> waits_for rules j \<subseteq> set order)
    \<and> (\<forall>xs y ys. order = xs @ y # ys \<longrightarrow> waits_for rules y \<subseteq> set xs)"
proof -
  let ?n = "length rules"
  obtain deg dep where g: "rule_graph rules = (deg, dep)" by (cases "rule_graph rules")
  have inv: "length deg = ?n" "length dep = ?n" "\<forall>ds\<in>set dep. set ds \<subseteq> {..<length dep}"
      "\<And>j. j < ?n \<Longrightarrow> deg ! j = edges_from dep {} j"
    using rule_graph_spec(1) [of rules] by (auto simp: g graph_inv_def)
  have preds: "preds dep j = waits_for rules j" if "j < ?n" for j
    using rule_graph_spec(2) [of _ rules] that name_to_idx_bound
    by (auto simp: g preds_def waits_for_def inv(2))
  let ?queue = "filter (\<lambda>i. deg ! i = 0) [0..<?n]"
  have "sorting dep deg ?queue []"
    unfolding sorting_def using inv(1,2,4) by auto
  from drain_spec [OF this inv(3)] obtain deg' order where
    drain: "drain dep deg ?queue [] = Some order" and s: "sorting dep deg' [] order" by blast
  have dist: "distinct order" and bound: "set order \<subseteq> {..<?n}"
    and closed: "\<And>j. j < ?n \<Longrightarrow> j \<in> set order \<longleftrightarrow> waits_for rules j \<subseteq> set order"
    using s inv(2) preds by (auto simp: sorting_def edges_from_0)
  have prefix: "waits_for rules y \<subseteq> set xs" if "order = xs @ y # ys" for xs y ys
  proof -
    have "y < ?n" using that bound by auto
    moreover have "preds dep y \<subseteq> set xs" using s that unfolding sorting_def by blast
    ultimately show ?thesis using preds by simp
  qed
  have "take_all (map Some rules) order = Some (map ((!) rules) order)"
    using bound by (subst take_all_spec) (auto simp: dist)
  then have "topo_sort rules0 = Some (map ((!) rules) order)"
    using drain g by (simp add: topo_sort_def assms)
  with dist bound closed prefix show ?thesis by blast
qed


section \<open>What the order guarantees\<close>

lemma set_sort_by_priority [simp]: "set (sort_by_priority rules) = set rules"
  by (simp add: sort_by_priority_def)

lemma mset_sort_by_priority [simp]: "mset (sort_by_priority rules) = mset rules"
  by (simp add: sort_by_priority_def)

lemma distinct_names_sort [simp]:
  "distinct (map ru_name (sort_by_priority rules)) \<longleftrightarrow> distinct (map ru_name rules)"
  by (metis mset_map mset_sort_by_priority mset_eq_imp_distinct_iff)

text \<open>A rule can be scheduled when everything it depends on can be.\<close>

inductive schedulable :: "RuleDef list \<Rightarrow> RuleDef \<Rightarrow> bool" for rules where
  "r \<in> set rules
    \<Longrightarrow> \<forall>q\<in>set rules. ru_name q \<in> set (ru_depends_on r) \<longrightarrow> schedulable rules q
    \<Longrightarrow> schedulable rules r"

lemma topo_sort_total: "topo_sort rules \<noteq> None"
  using topo_sort_spec [OF refl, of rules] by auto

lemma topo_sort_order:
  assumes "topo_sort rules0 = Some out" "distinct (map ru_name rules0)"
  obtains order rules where "rules = sort_by_priority rules0" "out = map ((!) rules) order"
    "distinct order" "set order \<subseteq> {..<length rules}"
    "\<And>j. j < length rules \<Longrightarrow> j \<in> set order \<longleftrightarrow> waits_for rules j \<subseteq> set order"
    "\<And>xs y ys. order = xs @ y # ys \<Longrightarrow> waits_for rules y \<subseteq> set xs"
    "\<And>k. k < length rules \<Longrightarrow> name_to_idx rules (ru_name (rules ! k)) = Some k"
  using topo_sort_spec [OF refl, of rules0] assms name_to_idx_Some [of "sort_by_priority rules0"]
  by auto

lemma topo_sort_submset:
  assumes "topo_sort rules = Some out"
  shows "mset out \<subseteq># mset rules"
proof -
  let ?rules = "sort_by_priority rules"
  obtain order where o: "out = map ((!) ?rules) order" "distinct order" "set order \<subseteq> {..<length ?rules}"
    using topo_sort_spec [OF refl, of rules] assms by auto
  have "mset order \<subseteq># mset [0..<length ?rules]"
    using o(2,3) subset_imp_msubset_mset_set [of "set order" "{..<length ?rules}"]
    by (simp add: mset_set_set mset_set_upto_eq_mset_upto lessThan_atLeast0)
  then have "mset (map ((!) ?rules) order) \<subseteq># mset (map ((!) ?rules) [0..<length ?rules])"
    by (simp add: image_mset_subseteq_mono)
  then show ?thesis by (simp only: o(1) map_nth mset_sort_by_priority)
qed

lemma topo_sort_schedulable:
  assumes "topo_sort rules0 = Some out" "distinct (map ru_name rules0)"
  shows "r \<in> set out \<longleftrightarrow> schedulable rules0 r"
proof -
  from topo_sort_order [OF assms] obtain order rules where
    rules: "rules = sort_by_priority rules0" and out: "out = map ((!) rules) order"
    and bound: "set order \<subseteq> {..<length rules}"
    and closed: "\<And>j. j < length rules \<Longrightarrow> j \<in> set order \<longleftrightarrow> waits_for rules j \<subseteq> set order"
    and prefix: "\<And>xs y ys. order = xs @ y # ys \<Longrightarrow> waits_for rules y \<subseteq> set xs"
    and idx: "\<And>k. k < length rules \<Longrightarrow> name_to_idx rules (ru_name (rules ! k)) = Some k" by metis
  have set_rules: "set rules0 = set rules" by (simp add: rules)
  have sound: "schedulable rules0 (rules ! j)" if "j \<in> set order" for j
  proof -
    have "\<forall>j\<in>set xs. schedulable rules0 (rules ! j)" if "order = xs @ ys" for xs ys
      using that
    proof (induction xs arbitrary: ys rule: rev_induct)
      case (snoc y xs)
      then have IH: "\<forall>j\<in>set xs. schedulable rules0 (rules ! j)" and y: "waits_for rules y \<subseteq> set xs"
        "y < length rules" using prefix [of xs y ys] bound by auto
      have "schedulable rules0 (rules ! y)"
      proof (rule schedulable.intros)
        show "rules ! y \<in> set rules0" using y(2) by (simp add: set_rules)
        show "\<forall>q\<in>set rules0. ru_name q \<in> set (ru_depends_on (rules ! y)) \<longrightarrow> schedulable rules0 q"
        proof (intro ballI impI)
          fix q
          assume q: "q \<in> set rules0" "ru_name q \<in> set (ru_depends_on (rules ! y))"
          then obtain k where k: "k < length rules" "q = rules ! k"
            by (auto simp: set_rules in_set_conv_nth)
          then have "k \<in> waits_for rules y" using q(2) idx by (auto simp: waits_for_def)
          with y(1) IH k(2) show "schedulable rules0 q" by auto
        qed
      qed
      with IH show ?case by simp
    qed simp
    from this [of order "[]"] that show ?thesis by simp
  qed
  have complete: "schedulable rules0 r \<Longrightarrow> \<forall>j<length rules. rules ! j = r \<longrightarrow> j \<in> set order" for r
  proof (induction rule: schedulable.induct)
    case (1 r)
    show ?case
    proof (intro allI impI)
      fix j
      assume j: "j < length rules" "rules ! j = r"
      have "waits_for rules j \<subseteq> set order"
      proof
        fix k
        assume "k \<in> waits_for rules j"
        then obtain d where "d \<in> set (ru_depends_on r)" "name_to_idx rules d = Some k"
          using j(2) by (auto simp: waits_for_def)
        then show "k \<in> set order"
          using 1(2) name_to_idx_bound name_to_idx_name set_rules by (metis nth_mem)
      qed
      with closed [OF j(1)] show "j \<in> set order" by simp
    qed
  qed
  show ?thesis
  proof
    show "r \<in> set out \<Longrightarrow> schedulable rules0 r" using sound by (auto simp: out)
    assume s: "schedulable rules0 r"
    then obtain j where "j < length rules" "rules ! j = r"
      by (cases rule: schedulable.cases) (auto simp: set_rules in_set_conv_nth)
    with complete [OF s] show "r \<in> set out" by (auto simp: out)
  qed
qed

lemma topo_sort_dependency_first:
  assumes "topo_sort rules0 = Some out" "distinct (map ru_name rules0)"
    "out = xs @ r # ys" "dep \<in> set (ru_depends_on r)" "q \<in> set rules0" "ru_name q = dep"
  shows "q \<in> set xs"
proof -
  from topo_sort_order [OF assms(1,2)] obtain order rules where
    rules: "rules = sort_by_priority rules0" and out: "out = map ((!) rules) order"
    and prefix: "\<And>xs y ys. order = xs @ y # ys \<Longrightarrow> waits_for rules y \<subseteq> set xs"
    and idx: "\<And>k. k < length rules \<Longrightarrow> name_to_idx rules (ru_name (rules ! k)) = Some k" by metis
  have "map ((!) rules) order = xs @ r # ys" using out assms(3) by simp
  then obtain os y ps where o: "order = os @ y # ps" "xs = map ((!) rules) os" "r = rules ! y"
    unfolding map_eq_append_conv map_eq_Cons_conv by blast
  from assms(5) obtain k where k: "k < length rules" "q = rules ! k"
    by (metis in_set_conv_nth rules set_sort_by_priority)
  with assms(4,6) o(3) idx have "k \<in> waits_for rules y" by (auto simp: waits_for_def)
  with prefix [OF o(1)] k(2) o(2) show ?thesis by auto
qed

end
