(* ===== verification/RuleActions.thy ===== *)
theory RuleActions
  imports RuleSchema
begin

text \<open>
  What actions do: \<open>Action::execute\<close> of \<open>rules/actions.rs\<close>. A request that changes something
  outside is recorded in \<open>sent\<close> and answered by the outside world (\<open>accepts\<close>: whether the
  client method returned \<open>Ok\<close>); a lookup is answered as in the caches. An error that is only
  logged is dropped, an early return inside an \<open>async\<close> block is a failed step. A missing issue
  number is unwrapped, which is \<open>None\<close> here.
\<close>

section \<open>Requests and the outside world\<close>

record RawRequest =
  rq_body :: "u8 list"
  rq_headers :: "(string \<times> string) list"

record ApiIssue =
  ai_number :: "i64 option"
  ai_labels :: "string option list option"

record CommitStatusParams =
  cp_owner :: string
  cp_repo :: string
  cp_sha :: string
  cp_state :: string
  cp_context :: string
  cp_description :: string
  cp_target_url :: string

datatype Request =
    ApprovePr string string u64 "string option"
  | MergePr string string u64 MergeDo bool
  | CommentPr string string u64 string
  | EnsureLabels string string "(string \<times> string) list"
  | AddLabelsByName string string u64 "string list"
  | RemoveLabelsByName string string u64 "string list"
  | CommentOnIssue string string u64 string
  | CreateIssueWithLabels string string string string "string list"
  | CloseIssueNumber string string u64
  | SetStatus CommitStatusParams
  | RerunWorkflow string string u64
  | ForwardWebhook RawRequest
  | SetPrState string string u64 string
  | RemoveBranch string string string
  | RunDiffAndComment PrEvent "string list"
  | ReactToComment string string i64 string
  | RevertAndPush string string string string string
  | CreatePullRequest string string string string string string
  | AutofixPr string string u64 "string option" "string option"
  | SyncApplication string

text \<open>
  \<open>latency\<close> and \<open>oversleep\<close> are the milliseconds a call takes and a sleep takes beyond what was
  asked for.
\<close>

record actors =
  accepts :: "nat \<Rightarrow> Request \<Rightarrow> bool"
  find_open_issue_by_title :: "nat \<Rightarrow> string \<Rightarrow> string \<Rightarrow> string \<Rightarrow> ApiIssue option option"
  commit_exists :: "nat \<Rightarrow> string \<Rightarrow> string \<Rightarrow> string \<Rightarrow> bool"
  latency :: "nat \<Rightarrow> nat"
  oversleep :: "nat \<Rightarrow> nat"

record xstate =
  est :: estate
  sent :: "Request list"

definition lookup :: "(estate \<Rightarrow> 'a \<times> estate) \<Rightarrow> xstate \<Rightarrow> 'a \<times> xstate" where
  "lookup f x = (let (a, st) = f (est x) in (a, x\<lparr>est := st\<rparr>))"

definition send :: "actors \<Rightarrow> Request \<Rightarrow> xstate \<Rightarrow> bool \<times> xstate" where
  "send X r x =
     (let (ok, st) = ask (\<lambda>t. accepts X t r) (est x) in (ok, x\<lparr>est := st, sent := sent x @ [r]\<rparr>))"

text \<open>\<open>?\<close>: the rest only runs when the step succeeded.\<close>

definition and_then :: "bool \<times> xstate \<Rightarrow> (xstate \<Rightarrow> bool \<times> xstate) \<Rightarrow> bool \<times> xstate" where
  "and_then r f = (if fst r then f (snd r) else r)"

definition send_if :: "actors \<Rightarrow> bool \<Rightarrow> Request \<Rightarrow> xstate \<Rightarrow> bool \<times> xstate" where
  "send_if X b r x = (if b then send X r x else (True, x))"

definition ACK_LABEL :: string where
  "ACK_LABEL = ''janitor/acknowledged''"

section \<open>Actions on the pull request\<close>

definition exec_approve ::
  "clients \<Rightarrow> actors \<Rightarrow> BotEvent \<Rightarrow> TemplateString option \<Rightarrow> xstate \<Rightarrow> xstate" where
  "exec_approve C X ev comment x =
     (case ev of
        ForgejoPr pr \<Rightarrow>
          snd (send X (ApprovePr (pe_owner pr) (pe_repo pr) (pe_pr_number pr)
                 (map_option (\<lambda>c. render_template c (template_vars (texts C) ev)) comment)) x)
      | _ \<Rightarrow> x)"

definition exec_merge :: "actors \<Rightarrow> BotEvent \<Rightarrow> MergeDo \<Rightarrow> bool \<Rightarrow> xstate \<Rightarrow> xstate" where
  "exec_merge X ev strategy delete_branch x =
     (case ev of
        ForgejoPr pr \<Rightarrow>
          snd (send X (MergePr (pe_owner pr) (pe_repo pr) (pe_pr_number pr) strategy delete_branch) x)
      | _ \<Rightarrow> x)"

definition exec_comment :: "clients \<Rightarrow> actors \<Rightarrow> BotEvent \<Rightarrow> TemplateString \<Rightarrow> xstate \<Rightarrow> xstate" where
  "exec_comment C X ev comment x =
     (case ev of
        ForgejoPr pr \<Rightarrow>
          snd (send X (CommentPr (pe_owner pr) (pe_repo pr) (pe_pr_number pr)
                 (render_template comment (template_vars (texts C) ev))) x)
      | _ \<Rightarrow> x)"

definition labels_to_ensure :: "LabelSpec list \<Rightarrow> (string \<times> string) list" where
  "labels_to_ensure labels =
     List.map_filter (\<lambda>l. map_option (\<lambda>c. (label_name l, c)) (label_color l)) labels"

definition exec_add_labels ::
  "actors \<Rightarrow> BotEvent \<Rightarrow> LabelSpec list \<Rightarrow> string option \<Rightarrow> string option \<Rightarrow> xstate \<Rightarrow> xstate" where
  "exec_add_labels X ev labels target_owner target_repo x =
     (case ev of
        ForgejoPr pr \<Rightarrow>
          (let (owner, repo) = (case (target_owner, target_repo) of
                 (Some o', Some r) \<Rightarrow> (o', r) | _ \<Rightarrow> (pe_owner pr, pe_repo pr));
               to_ensure = labels_to_ensure labels
           in snd (and_then (send_if X (to_ensure \<noteq> []) (EnsureLabels owner repo to_ensure) x)
                (send X (AddLabelsByName owner repo (pe_pr_number pr) (map label_name labels)))))
      | _ \<Rightarrow> x)"

definition labels_to_remove :: "string list \<Rightarrow> string list \<Rightarrow> Label list \<Rightarrow> string list" where
  "labels_to_remove labels prefixes pr_labels =
     (if prefixes = [] then labels
      else foldl (\<lambda>acc l. if list_ex (starts_with (l_name l)) prefixes \<and> \<not> List.member acc (l_name l)
                         then acc @ [l_name l] else acc) labels pr_labels)"

definition exec_remove_labels ::
  "actors \<Rightarrow> BotEvent \<Rightarrow> string list \<Rightarrow> string list \<Rightarrow> xstate \<Rightarrow> xstate" where
  "exec_remove_labels X ev labels prefixes x =
     (case ev of
        ForgejoPr pr \<Rightarrow>
          (let to_remove = labels_to_remove labels prefixes (pe_labels pr)
           in if to_remove = [] then x
              else snd (send X (RemoveLabelsByName (pe_owner pr) (pe_repo pr) (pe_pr_number pr)
                          to_remove) x))
      | _ \<Rightarrow> x)"

definition exec_close ::
  "clients \<Rightarrow> actors \<Rightarrow> BotEvent \<Rightarrow> TemplateString option \<Rightarrow> bool \<Rightarrow> xstate \<Rightarrow> xstate" where
  "exec_close C X ev comment delete_branch x =
     (case ev of
        ForgejoPr pr \<Rightarrow>
          (let x1 = (case comment of
                 None \<Rightarrow> x
               | Some tmpl \<Rightarrow> snd (send X (CommentOnIssue (pe_owner pr) (pe_repo pr) (pe_pr_number pr)
                                 (render_template tmpl (template_vars (texts C) ev))) x));
               (closed, x2) = send X (SetPrState (pe_owner pr) (pe_repo pr) (pe_pr_number pr) ''closed'') x1
           in if \<not> closed then x2
              else snd (send_if X (delete_branch \<and> pe_source_branch pr \<noteq> [])
                          (RemoveBranch (pe_owner pr) (pe_repo pr) (pe_source_branch pr)) x2))
      | _ \<Rightarrow> x)"

definition exec_delete_branch :: "actors \<Rightarrow> BotEvent \<Rightarrow> xstate \<Rightarrow> xstate" where
  "exec_delete_branch X ev x =
     (case ev of
        ForgejoPr pr \<Rightarrow>
          (if pe_source_branch pr = [] then x
           else snd (send X (RemoveBranch (pe_owner pr) (pe_repo pr) (pe_source_branch pr)) x))
      | _ \<Rightarrow> x)"

definition exec_argocd_diff :: "clients \<Rightarrow> actors \<Rightarrow> BotEvent \<Rightarrow> xstate \<Rightarrow> xstate" where
  "exec_argocd_diff C X ev x =
     (case ev of
        ForgejoPr pr \<Rightarrow>
          (let (files, x1) = lookup (get_changed_files_cached C pr) x
           in snd (send X (RunDiffAndComment pr files) x1))
      | _ \<Rightarrow> x)"

section \<open>Issues\<close>

definition is_acked :: "ApiIssue \<Rightarrow> bool" where
  "is_acked issue =
     (case ai_labels issue of None \<Rightarrow> False | Some ls \<Rightarrow> list_ex (\<lambda>l. l = Some ACK_LABEL) ls)"

text \<open>The duplicate that is open, if any: the outer \<open>None\<close> is a failed search.\<close>

definition find_duplicate ::
  "actors \<Rightarrow> bool \<Rightarrow> string \<Rightarrow> string \<Rightarrow> string \<Rightarrow> xstate \<Rightarrow> ApiIssue option option \<times> xstate" where
  "find_duplicate X dedup owner repo title x =
     (if dedup then lookup (ask (\<lambda>t. find_open_issue_by_title X t owner repo title)) x
      else (Some None, x))"

definition exec_create_issue ::
  "clients \<Rightarrow> actors \<Rightarrow> BotEvent \<Rightarrow> string \<Rightarrow> string \<Rightarrow> bool \<Rightarrow> TemplateString \<Rightarrow> TemplateString
     \<Rightarrow> TemplateString option \<Rightarrow> LabelSpec list \<Rightarrow> xstate \<Rightarrow> xstate option" where
  "exec_create_issue C X ev owner repo dedup title body on_duplicate labels x =
     (let vars = template_vars (texts C) ev;
          rendered_title = render_template title vars;
          rendered_body = render_template body vars
      in (case find_duplicate X dedup owner repo rendered_title x of
            (None, x1) \<Rightarrow> Some x1
          | (Some (Some issue), x1) \<Rightarrow>
              (case ai_number issue of
                 None \<Rightarrow> None
               | Some index \<Rightarrow>
                   if is_acked issue then Some x1
                   else Some (snd (send X (CommentOnIssue owner repo index
                          (case on_duplicate of Some t \<Rightarrow> render_template t vars
                           | None \<Rightarrow> rendered_body)) x1)))
          | (Some None, x1) \<Rightarrow>
              (let to_ensure = labels_to_ensure labels
               in Some (snd (and_then
                    (send_if X (to_ensure \<noteq> []) (EnsureLabels owner repo to_ensure) x1)
                    (send X (CreateIssueWithLabels owner repo rendered_title rendered_body
                       (map label_name labels))))))))"

definition exec_close_issue ::
  "clients \<Rightarrow> actors \<Rightarrow> BotEvent \<Rightarrow> string \<Rightarrow> string \<Rightarrow> TemplateString \<Rightarrow> TemplateString option
     \<Rightarrow> xstate \<Rightarrow> xstate option" where
  "exec_close_issue C X ev owner repo title comment x =
     (let vars = template_vars (texts C) ev
      in (case lookup (ask (\<lambda>t. find_open_issue_by_title X t owner repo (render_template title vars))) x of
            (Some (Some issue), x1) \<Rightarrow>
              (case ai_number issue of
                 None \<Rightarrow> None
               | Some index \<Rightarrow>
                   Some (snd (and_then
                     (case comment of None \<Rightarrow> (True, x1)
                      | Some tmpl \<Rightarrow> send X (CommentOnIssue owner repo index (render_template tmpl vars)) x1)
                     (send X (CloseIssueNumber owner repo index)))))
          | (_, x1) \<Rightarrow> Some x1))"

section \<open>Other systems\<close>

definition exec_set_commit_status ::
  "clients \<Rightarrow> actors \<Rightarrow> BotEvent \<Rightarrow> string hmap \<Rightarrow> string \<Rightarrow> string \<Rightarrow> TemplateString \<Rightarrow> TemplateString
     \<Rightarrow> TemplateString \<Rightarrow> TemplateString \<Rightarrow> TemplateString \<Rightarrow> xstate \<Rightarrow> xstate" where
  "exec_set_commit_status C X ev extra target_owner target_repo sha state ctx descr url x =
     (let vars = foldl (\<lambda>m (k, v). hinsert k v m) (template_vars (texts C) ev) extra;
          owner = render_template target_owner vars;
          repo = render_template target_repo vars
      in if owner = [] \<or> repo = [] then x
         else snd (send X (SetStatus
                \<lparr>cp_owner = owner, cp_repo = repo, cp_sha = render_template sha vars,
                 cp_state = render_template state vars, cp_context = render_template ctx vars,
                 cp_description = render_template descr vars,
                 cp_target_url = render_template url vars\<rparr>) x))"

definition exec_retry_workflow ::
  "clients \<Rightarrow> actors \<Rightarrow> BotEvent \<Rightarrow> TemplateString \<Rightarrow> TemplateString \<Rightarrow> xstate \<Rightarrow> xstate" where
  "exec_retry_workflow C X ev repository id_tmpl x =
     (let vars = template_vars (texts C) ev
      in (case split_once (CHR ''/'') (render_template repository vars) of
            None \<Rightarrow> x
          | Some (owner, repo) \<Rightarrow>
              (case str_parse_u64 (render_template id_tmpl vars) of
                 None \<Rightarrow> x
               | Some n \<Rightarrow> snd (send X (RerunWorkflow owner repo n) x))))"

text \<open>
  The polling loop: \<open>now\<close> and \<open>deadline\<close> are milliseconds. A sleep lasts at least as long as it
  is asked to, so the loop ends.
\<close>

definition poll_interval :: nat where
  "poll_interval = 5000"

function wait_loop ::
  "actors \<Rightarrow> string \<Rightarrow> string \<Rightarrow> string \<Rightarrow> nat \<Rightarrow> nat \<Rightarrow> xstate \<Rightarrow> xstate" where
  "wait_loop X owner repo sha deadline now x =
     (let (found, x1) = lookup (ask (\<lambda>t. commit_exists X t owner repo sha)) x;
          now1 = now + latency X (calls (est x))
      in if found then x1
         else if deadline \<le> now1 + poll_interval then x1
         else wait_loop X owner repo sha deadline
                (now1 + poll_interval + oversleep X (calls (est x))) x1)"
  by pat_completeness auto
termination
  by (relation "measure (\<lambda>(X, owner, repo, sha, deadline, now, x). deadline - now)")
    (auto simp: poll_interval_def)

declare wait_loop.simps [simp del]

definition exec_wait_for_github_sync ::
  "clients \<Rightarrow> actors \<Rightarrow> BotEvent \<Rightarrow> string \<Rightarrow> string \<Rightarrow> TemplateString \<Rightarrow> u64 \<Rightarrow> xstate \<Rightarrow> xstate" where
  "exec_wait_for_github_sync C X ev owner repo sha timeout x =
     wait_loop X owner repo (render_template sha (template_vars (texts C) ev))
       (unat timeout * 1000) 0 x"

definition exec_proxy_pass :: "actors \<Rightarrow> RawRequest option \<Rightarrow> ProxyService \<Rightarrow> xstate \<Rightarrow> xstate" where
  "exec_proxy_pass X raw service x =
     (case raw of None \<Rightarrow> x
      | Some rq \<Rightarrow> (case service of ProxyArgocd \<Rightarrow> snd (send X (ForwardWebhook rq) x)))"

section \<open>Closing superseded pull requests\<close>

text \<open>The metadata of another pull request by the author with the same field values.\<close>

definition candidate ::
  "text_crates \<Rightarrow> PrEvent \<Rightarrow> string \<Rightarrow> (string \<times> string) list \<Rightarrow> ApiPr \<Rightarrow> (string \<times> json) list option" where
  "candidate T pr author field_values other =
     (if pr_number_of other = pe_pr_number pr then None
      else if opt_default (ap_author other) \<noteq> author then None
      else (case parse_pr_metadata T (opt_default (ap_body other)) of
              None \<Rightarrow> None
            | Some meta \<Rightarrow>
                if list_all (\<lambda>(f, v). meta_str meta f = Some v) field_values then Some meta else None))"

text \<open>The criterion \<open>Older\<close>.\<close>

definition other_is_older ::
  "string option \<Rightarrow> i64 option \<Rightarrow> (string \<times> json) list \<Rightarrow> int option \<Rightarrow> int option \<Rightarrow> bool" where
  "other_is_older order_field current_key other_meta other_created current_created =
     (case (order_field, current_key) of
        (Some f, Some cur) \<Rightarrow>
          (case metadata_order_key other_meta f of
             Some k \<Rightarrow> sint k < sint cur
           | None \<Rightarrow> option_less other_created current_created)
      | _ \<Rightarrow> option_less other_created current_created)"

definition should_close ::
  "clients \<Rightarrow> CloseOtherPrsCriteria \<Rightarrow> string option \<Rightarrow> i64 option \<Rightarrow> int option \<Rightarrow> i64 option
     \<Rightarrow> string \<Rightarrow> string \<Rightarrow> (string \<times> json) list \<Rightarrow> ApiPr \<Rightarrow> xstate \<Rightarrow> bool \<times> xstate" where
  "should_close C criteria order_field current_key current_created current_ts images tag meta other x =
     (case criteria of
        Older \<Rightarrow>
          (other_is_older order_field current_key meta (ap_created_at other) current_created, x)
      | OlderPublishedImage \<Rightarrow>
          (let (other_ts, x1) = lookup (pr_image_committed_at C meta images tag) x
           in (case (current_ts, other_ts) of
                 (Some cur, Some t) \<Rightarrow> sint t < sint cur | _ \<Rightarrow> False, x1)))"

definition janitor_labels :: "ApiPr \<Rightarrow> string list" where
  "janitor_labels other =
     List.map_filter (\<lambda>l. case al_name l of Some n \<Rightarrow> if starts_with n ''janitor/'' then Some n else None
                           | None \<Rightarrow> None) (ap_labels other)"

definition close_one ::
  "clients \<Rightarrow> actors \<Rightarrow> PrEvent \<Rightarrow> bool \<Rightarrow> TemplateString option \<Rightarrow> ApiPr \<Rightarrow> xstate \<Rightarrow> bool \<times> xstate" where
  "close_one C X pr delete_branch comment other x =
     (let owner = pe_owner pr; repo = pe_repo pr; n = pr_number_of other; ls = janitor_labels other;
          r1 = send_if X (ls \<noteq> []) (RemoveLabelsByName owner repo n ls) x;
          r2 = and_then r1 (\<lambda>x. case comment of None \<Rightarrow> (True, x)
                 | Some tmpl \<Rightarrow> send X (CommentOnIssue owner repo n
                     (render_template tmpl (template_vars (texts C) (ForgejoPr pr)))) x);
          r3 = and_then r2 (send X (SetPrState owner repo n ''closed''))
      in and_then r3 (\<lambda>x. case (delete_branch, ap_head_ref other) of
            (True, Some branch) \<Rightarrow> (True, snd (send X (RemoveBranch owner repo branch) x))
          | _ \<Rightarrow> (True, x)))"

text \<open>The loop over the open pull requests; an error ends it.\<close>

fun close_loop ::
  "(ApiPr \<Rightarrow> (string \<times> json) list option) \<Rightarrow> ((string \<times> json) list \<Rightarrow> ApiPr \<Rightarrow> xstate \<Rightarrow> bool \<times> xstate)
     \<Rightarrow> (ApiPr \<Rightarrow> xstate \<Rightarrow> bool \<times> xstate) \<Rightarrow> ApiPr list \<Rightarrow> xstate \<Rightarrow> bool \<times> xstate" where
  "close_loop select test act [] x = (True, x)"
| "close_loop select test act (other # rest) x =
     (case select other of
        None \<Rightarrow> close_loop select test act rest x
      | Some meta \<Rightarrow>
          (let (old, x1) = test meta other x
           in if \<not> old then close_loop select test act rest x1
              else and_then (act other x1) (close_loop select test act rest)))"

definition exec_close_other_prs ::
  "clients \<Rightarrow> actors \<Rightarrow> BotEvent \<Rightarrow> string \<Rightarrow> CloseOtherPrsCriteria \<Rightarrow> string list \<Rightarrow> string option
     \<Rightarrow> string \<Rightarrow> string \<Rightarrow> bool \<Rightarrow> TemplateString option \<Rightarrow> xstate \<Rightarrow> xstate" where
  "exec_close_other_prs C X ev author criteria names order_field images tag delete_branch comment x =
     (case ev of
        ForgejoPr pr \<Rightarrow>
          (case lookup (ask (\<lambda>t. get_pr C t (pe_owner pr) (pe_repo pr) (pe_pr_number pr))) x of
             (None, x1) \<Rightarrow> x1
           | (Some current, x1) \<Rightarrow>
               (case parse_pr_metadata (texts C) (opt_default (ap_body current)) of
                  None \<Rightarrow> x1
                | Some meta \<Rightarrow>
                    (let vals = metadata_values meta names
                     in if length vals \<noteq> length names then x1
                        else
                          (let key = Option.bind order_field (metadata_order_key meta);
                               (ts, x2) = (case criteria of
                                   OlderPublishedImage \<Rightarrow> lookup (pr_image_committed_at C meta images tag) x1
                                 | Older \<Rightarrow> (None, x1))
                           in (case lookup (ask (\<lambda>t. list_open_prs C t (pe_owner pr) (pe_repo pr))) x2 of
                                 (None, x3) \<Rightarrow> x3
                               | (Some open_prs, x3) \<Rightarrow>
                                   snd (close_loop (candidate (texts C) pr author vals)
                                     (should_close C criteria order_field key (ap_created_at current) ts
                                        images tag)
                                     (close_one C X pr delete_branch comment) open_prs x3))))))
      | _ \<Rightarrow> x)"

section \<open>Execute\<close>

fun execute ::
  "clients \<Rightarrow> actors \<Rightarrow> BotEvent \<Rightarrow> RawRequest option \<Rightarrow> string hmap \<Rightarrow> Action \<Rightarrow> xstate \<Rightarrow> xstate option" where
  "execute C X ev raw extra (Approve comment) x = Some (exec_approve C X ev comment x)"
| "execute C X ev raw extra (Merge strategy delete_branch) x =
     Some (exec_merge X ev strategy delete_branch x)"
| "execute C X ev raw extra (CommentOn comment) x = Some (exec_comment C X ev comment x)"
| "execute C X ev raw extra (AddLabels labels target_owner target_repo) x =
     Some (exec_add_labels X ev labels target_owner target_repo x)"
| "execute C X ev raw extra (RemoveLabels labels prefixes) x =
     Some (exec_remove_labels X ev labels prefixes x)"
| "execute C X ev raw extra (CreateIssue owner repo dedup title body on_duplicate labels) x =
     exec_create_issue C X ev owner repo dedup title body on_duplicate labels x"
| "execute C X ev raw extra (CloseIssue owner repo title comment) x =
     exec_close_issue C X ev owner repo title comment x"
| "execute C X ev raw extra DeleteBranch x = Some (exec_delete_branch X ev x)"
| "execute C X ev raw extra ArgoCdDiff x = Some (exec_argocd_diff C X ev x)"
| "execute C X ev raw extra (RetryWorkflow target repository id_tmpl) x =
     Some (exec_retry_workflow C X ev repository id_tmpl x)"
| "execute C X ev raw extra (SetCommitStatus target_owner target_repo sha state ctx descr url) x =
     Some (exec_set_commit_status C X ev extra target_owner target_repo sha state ctx descr url x)"
| "execute C X ev raw extra (WaitForGithubSync owner repo sha timeout) x =
     Some (exec_wait_for_github_sync C X ev owner repo sha timeout x)"
| "execute C X ev raw extra (ProxyPass service) x = Some (exec_proxy_pass X raw service x)"
| "execute C X ev raw extra (Close comment delete_branch) x =
     Some (exec_close C X ev comment delete_branch x)"
| "execute C X ev raw extra
     (CloseOtherPrs author criteria names order_field images tag delete_branch comment) x =
     Some (exec_close_other_prs C X ev author criteria names order_field images tag delete_branch
             comment x)"


section \<open>The frame of an action\<close>

text \<open>Actions add requests and leave the results of leaf matchers alone.\<close>

definition frame :: "xstate \<Rightarrow> xstate \<Rightarrow> bool" where
  "frame x x' \<longleftrightarrow>
     matcher_results (est x') = matcher_results (est x) \<and> (\<exists>rs. sent x' = sent x @ rs)"

lemma frame_refl [simp]: "frame x x"
  by (simp add: frame_def)

lemma frame_trans [trans]: "frame x y \<Longrightarrow> frame y z \<Longrightarrow> frame x z"
  by (auto simp: frame_def)

lemma frame_send [simp]: "frame x (snd (send X r x))"
  by (auto simp: frame_def send_def ask_def Let_def)

lemma frame_send_if [simp]: "frame x (snd (send_if X b r x))"
  by (simp add: send_if_def)

lemma frame_sendI: "frame x y \<Longrightarrow> frame x (snd (send X r y))"
  by (erule frame_trans) simp

lemma frame_send_ifI: "frame x y \<Longrightarrow> frame x (snd (send_if X b r y))"
  by (erule frame_trans) simp

lemma frame_and_then:
  "frame x (snd r) \<Longrightarrow> (\<And>y. frame y (snd (f y))) \<Longrightarrow> frame x (snd (and_then r f))"
  by (auto simp: and_then_def intro: frame_trans)

lemma frame_lookup:
  "(\<And>st. matcher_results (snd (f st)) = matcher_results st) \<Longrightarrow> frame x (snd (lookup f x))"
  by (simp add: frame_def lookup_def case_prod_unfold Let_def)

lemma frame_ask [simp]: "frame x (snd (lookup (ask f) x))"
  by (rule frame_lookup) simp

lemma frame_ask_pair: "lookup (ask f) x = (a, y) \<Longrightarrow> frame x y"
  using frame_ask [of x f] by simp

lemma pr_image_results [simp]:
  "matcher_results (snd (pr_image_committed_at C meta i t st)) = matcher_results st"
  by (auto simp: pr_image_committed_at_def split: option.splits list.splits)

lemma sent_lookup [simp]: "sent (snd (lookup f x)) = sent x"
  by (simp add: lookup_def case_prod_unfold Let_def)

lemma frame_wait_loop: "frame x (wait_loop X owner repo sha deadline now x)"
proof (induction X owner repo sha deadline now x rule: wait_loop.induct)
  case (1 X owner repo sha deadline now x)
  obtain found x1 where l: "lookup (ask (\<lambda>t. commit_exists X t owner repo sha)) x = (found, x1)"
    by fastforce
  have "frame x x1" using frame_ask [of x "\<lambda>t. commit_exists X t owner repo sha"] l by simp
  with "1.IH" [OF l [symmetric] refl refl] show ?case
    by (subst wait_loop.simps) (auto simp: l Let_def intro: frame_trans)
qed

lemma frame_close_loop:
  assumes "\<And>m o' y. frame y (snd (test m o' y))" "\<And>o' y. frame y (snd (act o' y))"
  shows "frame x (snd (close_loop select test act others x))"
proof (induction others arbitrary: x)
  case Nil
  show ?case by simp
next
  case (Cons other others)
  show ?case
  proof (cases "select other")
    case None
    with Cons show ?thesis by simp
  next
    case (Some meta)
    have "frame x (snd (test meta other x))" by (rule assms)
    moreover have "frame y (snd (and_then (act other y) (close_loop select test act others)))" for y
      by (intro frame_and_then assms Cons)
    ultimately show ?thesis using Some Cons by (auto simp: case_prod_unfold Let_def intro: frame_trans)
  qed
qed

lemma frame_should_close: "frame x (snd (should_close C cr f k cc ts i t meta other x))"
  using frame_lookup [of "pr_image_committed_at C meta i t" x]
  by (auto simp: should_close_def case_prod_unfold Let_def split: CloseOtherPrsCriteria.splits)

lemma frame_close_one: "frame x (snd (close_one C X pr d comment other x))"
  unfolding close_one_def Let_def
  by (intro frame_and_then frame_send_if) (auto split: option.splits bool.splits)

lemma frame_close_other_prs:
  "frame x (exec_close_other_prs C X ev author cr names f i t d comment x)"
proof -
  have p: "frame y z" if "lookup (pr_image_committed_at C meta i t) y = (a, z)" for meta y a z
    using frame_lookup [of "pr_image_committed_at C meta i t" y] that by simp
  have c: "frame y (snd (close_loop s (should_close C cr f k cc ts i t) (close_one C X pr d comment) os y))"
    for y s k cc ts pr os cr by (intro frame_close_loop frame_should_close frame_close_one)
  show ?thesis
    unfolding exec_close_other_prs_def
    by (auto simp: Let_def split: BotEvent.splits option.splits prod.splits CloseOtherPrsCriteria.splits
        dest!: frame_ask_pair p intro!: frame_trans [OF _ c] elim: frame_trans)
qed

lemma frame_find_duplicate: "find_duplicate X b owner repo t x = (r, y) \<Longrightarrow> frame x y"
  by (auto simp: find_duplicate_def dest: frame_ask_pair split: if_splits)

lemma frame_create_issue:
  "exec_create_issue C X ev owner repo b t body d ls x = Some x' \<Longrightarrow> frame x x'"
  by (auto simp: exec_create_issue_def Let_def dest!: frame_find_duplicate
      split: prod.splits option.splits if_splits intro!: frame_and_then elim!: frame_trans)

lemma frame_close_issue:
  "exec_close_issue C X ev owner repo t c x = Some x' \<Longrightarrow> frame x x'"
  by (auto simp: exec_close_issue_def Let_def dest!: frame_ask_pair
      split: prod.splits option.splits if_splits intro!: frame_and_then elim!: frame_trans)

lemma frame_execute: "execute C X ev raw extra a x = Some x' \<Longrightarrow> frame x x'"
proof (cases a)
  case ArgoCdDiff
  assume "execute C X ev raw extra a x = Some x'"
  with ArgoCdDiff show ?thesis
    using frame_lookup [of "get_changed_files_cached C pr" x for pr]
    by (auto simp: exec_argocd_diff_def case_prod_unfold Let_def split: BotEvent.splits intro!: frame_sendI)
next
  case (Close c d)
  assume "execute C X ev raw extra a x = Some x'"
  with Close show ?thesis
    by (auto simp: exec_close_def case_prod_unfold Let_def split: BotEvent.splits option.splits if_splits
        intro!: frame_sendI frame_send_ifI)
next
  case (AddLabels ls o' r)
  assume "execute C X ev raw extra a x = Some x'"
  with AddLabels show ?thesis
    by (auto simp: exec_add_labels_def case_prod_unfold Let_def split: BotEvent.splits intro!: frame_and_then)
qed (auto simp: frame_close_other_prs frame_wait_loop frame_create_issue frame_close_issue
    exec_approve_def exec_merge_def exec_comment_def exec_remove_labels_def exec_delete_branch_def
    exec_set_commit_status_def exec_retry_workflow_def exec_wait_for_github_sync_def exec_proxy_pass_def
    Let_def split: BotEvent.splits option.splits prod.splits ProxyService.splits)

end
