(* ===== verification/RuleEngine.thy ===== *)
theory RuleEngine
  imports RuleOrder RuleActions
begin

text \<open>
  The orchestrator: \<open>rules/mod.rs\<close>. An evaluation threads the state of \<open>RuleActions\<close>: the
  cache with the number of calls made so far, and the requests sent. Reading the clock counts
  as a call, so the outside world and the clock may change between any two steps; the locks
  only delay a step and leave no other trace. \<open>None\<close> is a panic.
\<close>

section \<open>State\<close>

record ExplainAction =
  ea_action :: string
  ea_ran :: bool

record MatchedRule =
  mr_name :: string
  mr_dry_run :: bool
  mr_actions :: "ExplainAction list"

text \<open>The time stamp and the elapsed time of an entry are left out.\<close>

record EvalLogEntry =
  el_event_kind :: string
  el_event_key :: string
  el_matched_rules :: "MatchedRule list"

record RuleSummary =
  rs_name :: string
  rs_enabled :: string
  rs_priority :: int
  rs_depends_on :: "string list"

text \<open>\<open>RulesOrchestrator\<close> with what it reaches: the clients, the clock and two GitHub lookups.\<close>

record engine =
  en_rules :: RulesFile
  en_clients :: clients
  en_actors :: actors
  en_clock :: "nat \<Rightarrow> int"
  en_failed_job_logs :: "nat \<Rightarrow> string \<Rightarrow> string"
  en_workflow_run_name :: "nat \<Rightarrow> string \<Rightarrow> string \<Rightarrow> u64 \<Rightarrow> string option"

record wstate =
  eval_log :: "EvalLogEntry list"
  xst :: xstate

section \<open>Loading\<close>

definition RULES_SCHEMA_VERSION :: u32 where
  "RULES_SCHEMA_VERSION = 1"

text \<open>
  \<open>configmap\<close>: \<open>None\<close> when the variable is unset, \<open>Some None\<close> when the file cannot be read or
  parsed.
\<close>

definition load_rules :: "RulesFile \<Rightarrow> RulesFile option option \<Rightarrow> RulesFile option" where
  "load_rules baked_in configmap =
     (case configmap of
        None \<Rightarrow> Some baked_in
      | Some None \<Rightarrow> None
      | Some (Some rules) \<Rightarrow>
          if rf_version rules \<noteq> RULES_SCHEMA_VERSION then Some baked_in else Some rules)"

definition from_rules :: "RulesFile \<Rightarrow> RulesFile option" where
  "from_rules rules =
     (case resolve_checks rules of
        Err e \<Rightarrow> None
      | Ok resolved \<Rightarrow>
          (let colored = apply_label_colors resolved
           in map_option (\<lambda>sorted. colored\<lparr>rf_rules := sorted\<rparr>) (topo_sort (rf_rules colored))))"

definition EVAL_LOG_CAPACITY :: nat where
  "EVAL_LOG_CAPACITY = 200"

definition record_eval :: "EvalLogEntry \<Rightarrow> EvalLogEntry list \<Rightarrow> EvalLogEntry list" where
  "record_eval entry entries =
     (if EVAL_LOG_CAPACITY \<le> length entries then tl entries else entries) @ [entry]"

definition watch_repos :: "RulesFile \<Rightarrow> (string \<times> string) list" where
  "watch_repos rules =
     List.map_filter (\<lambda>r. split_once (CHR ''/'') (rp_repo r)) (filter rp_watched (rf_repos rules))"

definition mirror_vars :: "text_crates \<Rightarrow> RulesFile \<Rightarrow> BotEvent \<Rightarrow> string hmap" where
  "mirror_vars T rules ev =
     (case hget (template_vars T ev) ''repository'' of
        None \<Rightarrow> []
      | Some github_repo \<Rightarrow>
          (case Option.bind (List.find (\<lambda>r. rp_github_repo r = Some github_repo) (rf_repos rules))
                  (\<lambda>r. split_once (CHR ''/'') (rp_repo r)) of
             None \<Rightarrow> []
           | Some (owner, repo) \<Rightarrow>
               hinsert ''mirror.repo'' repo (hinsert ''mirror.owner'' owner [])))"

definition rules_summary :: "RulesFile \<Rightarrow> RuleSummary list" where
  "rules_summary rules =
     map (\<lambda>r. \<lparr>rs_name = ru_name r,
               rs_enabled = (if ru_dry_run r then ''dry_run''
                             else if \<not> is_disabled (ru_disabled r) then ''true'' else ''false''),
               rs_priority = ru_priority r, rs_depends_on = ru_depends_on r\<rparr>) (rf_rules rules)"

section \<open>Matching\<close>

definition matching ::
  "engine \<Rightarrow> BotEvent \<Rightarrow> RuleDef \<Rightarrow> int \<Rightarrow> Matcher \<Rightarrow> xstate \<Rightarrow> (bool \<times> xstate) option" where
  "matching E ev rule now m x =
     (case matches (en_clients E) ev (ru_name rule) now m (est x) of
        None \<Rightarrow> None
      | Some (b, st) \<Rightarrow> Some (b, x\<lparr>est := st\<rparr>))"

definition match_rule :: "engine \<Rightarrow> BotEvent \<Rightarrow> RuleDef \<Rightarrow> xstate \<Rightarrow> (bool \<times> xstate) option" where
  "match_rule E ev rule x =
     (let (now, x1) = lookup (ask (en_clock E)) x in matching E ev rule now (ru_when rule) x1)"

text \<open>The gate of a group, with the clock read for it.\<close>

definition match_group ::
  "engine \<Rightarrow> BotEvent \<Rightarrow> RuleDef \<Rightarrow> ActionGroup \<Rightarrow> xstate \<Rightarrow> (bool \<times> xstate) option" where
  "match_group E ev rule grp x =
     (case ag_when grp of
        None \<Rightarrow> Some (True, x)
      | Some m \<Rightarrow>
          (let (now, x1) = lookup (ask (en_clock E)) x in matching E ev rule now m x1))"

definition dependencies_met :: "RuleDef \<Rightarrow> string list \<Rightarrow> bool" where
  "dependencies_met rule executed = list_all (List.member executed) (ru_depends_on rule)"

text \<open>\<open>collect_resources\<close>: what the enabled rules need.\<close>

definition rule_matchers :: "RuleDef \<Rightarrow> Matcher list" where
  "rule_matchers rule = ru_when rule # List.map_filter ag_when (ru_actions rule)"

definition collect_resources :: "RulesFile \<Rightarrow> Resource set option" where
  "collect_resources rules =
     (let ms = concat (map rule_matchers (filter (\<lambda>r. \<not> is_disabled (ru_disabled r)) (rf_rules rules)))
      in if list_all (\<lambda>m. requires m \<noteq> None) ms then Some (\<Union>m\<in>set ms. the (requires m)) else None)"

section \<open>Running the actions of a rule\<close>

definition explained :: "bool \<Rightarrow> ActionDef \<Rightarrow> ExplainAction" where
  "explained did a = \<lparr>ea_action = action_kind (to_action a), ea_ran = did\<rparr>"

definition skipped :: "ActionGroup \<Rightarrow> ExplainAction list" where
  "skipped grp = map (explained False) (ag_run grp)"

record action_context =
  ac_rule :: RuleDef
  ac_event :: BotEvent
  ac_dry_run :: bool
  ac_raw :: "RawRequest option"
  ac_extra_vars :: "string hmap"

fun dispatch_actions ::
  "engine \<Rightarrow> action_context \<Rightarrow> ActionDef list \<Rightarrow> xstate \<Rightarrow> (ExplainAction list \<times> xstate) option" where
  "dispatch_actions E ctx [] x = Some ([], x)"
| "dispatch_actions E ctx (a # as) x =
     (let next = (if ac_dry_run ctx then Some x
                  else execute (en_clients E) (en_actors E) (ac_event ctx) (ac_raw ctx)
                         (ac_extra_vars ctx) (to_action a) x)
      in (case next of
            None \<Rightarrow> None
          | Some x1 \<Rightarrow>
              map_option (\<lambda>(acts, x2). (explained True a # acts, x2)) (dispatch_actions E ctx as x1)))"

text \<open>A fresh cache, and the old one with the calls made meanwhile.\<close>

definition with_fresh_cache :: "xstate \<Rightarrow> xstate" where
  "with_fresh_cache x = x\<lparr>est := cache_new (calls (est x))\<rparr>"

definition back_to_cache :: "xstate \<Rightarrow> xstate \<Rightarrow> xstate" where
  "back_to_cache x x' = x'\<lparr>est := (est x)\<lparr>calls := calls (est x')\<rparr>\<rparr>"

text \<open>The part of a serial group under its lock.\<close>

definition run_serial ::
  "engine \<Rightarrow> action_context \<Rightarrow> ActionGroup \<Rightarrow> xstate \<Rightarrow> (ExplainAction list \<times> xstate) option" where
  "run_serial E ctx grp x =
     (case match_rule E (ac_event ctx) (ac_rule ctx) (with_fresh_cache x) of
        None \<Rightarrow> None
      | Some (rule_ok, x1) \<Rightarrow>
          (case match_group E (ac_event ctx) (ac_rule ctx) grp x1 of
             None \<Rightarrow> None
           | Some (group_ok, x2) \<Rightarrow>
               if \<not> rule_ok \<or> \<not> group_ok then Some (skipped grp, back_to_cache x x2)
               else map_option (\<lambda>(acts, x3). (acts, back_to_cache x x3))
                      (dispatch_actions E ctx (ag_run grp) x2)))"

definition run_action_group ::
  "engine \<Rightarrow> action_context \<Rightarrow> ActionGroup \<Rightarrow> xstate \<Rightarrow> (ExplainAction list \<times> xstate) option" where
  "run_action_group E ctx grp x =
     (case match_group E (ac_event ctx) (ac_rule ctx) grp x of
        None \<Rightarrow> None
      | Some (gate_ok, x1) \<Rightarrow>
          if \<not> gate_ok then Some (skipped grp, x1)
          else (case ag_serial grp of
                  None \<Rightarrow> dispatch_actions E ctx (ag_run grp) x1
                | Some key_tmpl \<Rightarrow> run_serial E ctx grp x1))"

fun run_groups ::
  "engine \<Rightarrow> action_context \<Rightarrow> ActionGroup list \<Rightarrow> xstate \<Rightarrow> (ExplainAction list \<times> xstate) option" where
  "run_groups E ctx [] x = Some ([], x)"
| "run_groups E ctx (g # gs) x =
     (case run_action_group E ctx g x of
        None \<Rightarrow> None
      | Some (acts, x1) \<Rightarrow> map_option (\<lambda>(rest, x2). (acts @ rest, x2)) (run_groups E ctx gs x1))"

definition execute_actions ::
  "engine \<Rightarrow> BotEvent \<Rightarrow> RawRequest option \<Rightarrow> RuleDef \<Rightarrow> bool \<Rightarrow> xstate
     \<Rightarrow> (ExplainAction list \<times> xstate) option" where
  "execute_actions E ev raw rule dry x =
     run_groups E \<lparr>ac_rule = rule, ac_event = ev, ac_dry_run = dry, ac_raw = raw,
         ac_extra_vars = mirror_vars (texts (en_clients E)) (en_rules E) ev\<rparr> (ru_actions rule) x"

section \<open>Running the rules\<close>

fun run_loop ::
  "engine \<Rightarrow> BotEvent \<Rightarrow> RawRequest option \<Rightarrow> RuleDef list \<Rightarrow> string list \<Rightarrow> xstate
     \<Rightarrow> (MatchedRule list \<times> xstate) option" where
  "run_loop E ev raw [] executed x = Some ([], x)"
| "run_loop E ev raw (rule # rest) executed x =
     (if is_disabled (ru_disabled rule) then run_loop E ev raw rest executed x
      else if \<not> dependencies_met rule executed then run_loop E ev raw rest executed x
      else (case match_rule E ev rule x of
              None \<Rightarrow> None
            | Some (b, x1) \<Rightarrow>
                if \<not> b then run_loop E ev raw rest executed x1
                else (case execute_actions E ev raw rule (ru_dry_run rule) x1 of
                        None \<Rightarrow> None
                      | Some (acts, x2) \<Rightarrow>
                          map_option
                            (\<lambda>(ms, x3). (\<lparr>mr_name = ru_name rule, mr_dry_run = ru_dry_run rule,
                                          mr_actions = acts\<rparr> # ms, x3))
                            (run_loop E ev raw rest
                              (if list_ex ea_ran acts then ru_name rule # executed else executed) x2))))"

definition run_rules_with_cache ::
  "engine \<Rightarrow> BotEvent \<Rightarrow> RawRequest option \<Rightarrow> wstate \<Rightarrow> wstate option" where
  "run_rules_with_cache E ev raw w =
     map_option (\<lambda>(ms, x). \<lparr>eval_log = record_eval
           \<lparr>el_event_kind = event_kind ev, el_event_key = event_key ev, el_matched_rules = ms\<rparr>
           (eval_log w), xst = x\<rparr>)
       (run_loop E ev raw (rf_rules (en_rules E)) [] (xst w))"

text \<open>The explanation of a rule reads the clock once for all its groups.\<close>

fun explain_groups ::
  "engine \<Rightarrow> BotEvent \<Rightarrow> RuleDef \<Rightarrow> int \<Rightarrow> ActionGroup list \<Rightarrow> xstate
     \<Rightarrow> (ExplainAction list \<times> xstate) option" where
  "explain_groups E ev rule now [] x = Some ([], x)"
| "explain_groups E ev rule now (g # gs) x =
     (case (case ag_when g of None \<Rightarrow> Some (True, x) | Some m \<Rightarrow> matching E ev rule now m x) of
        None \<Rightarrow> None
      | Some (gate_ok, x1) \<Rightarrow>
          map_option (\<lambda>(rest, x2). (map (explained gate_ok) (ag_run g) @ rest, x2))
            (explain_groups E ev rule now gs x1))"

definition explain_action_runs ::
  "engine \<Rightarrow> BotEvent \<Rightarrow> RuleDef \<Rightarrow> xstate \<Rightarrow> (ExplainAction list \<times> xstate) option" where
  "explain_action_runs E ev rule x =
     (let (now, x1) = lookup (ask (en_clock E)) x in explain_groups E ev rule now (ru_actions rule) x1)"

fun explain_loop ::
  "engine \<Rightarrow> BotEvent \<Rightarrow> RuleDef list \<Rightarrow> string list \<Rightarrow> xstate \<Rightarrow> (MatchedRule list \<times> xstate) option" where
  "explain_loop E ev [] executed x = Some ([], x)"
| "explain_loop E ev (rule # rest) executed x =
     (if is_disabled (ru_disabled rule) then explain_loop E ev rest executed x
      else if \<not> dependencies_met rule executed then explain_loop E ev rest executed x
      else (case match_rule E ev rule x of
              None \<Rightarrow> None
            | Some (b, x1) \<Rightarrow>
                if \<not> b then explain_loop E ev rest executed x1
                else (case explain_action_runs E ev rule x1 of
                        None \<Rightarrow> None
                      | Some (acts, x2) \<Rightarrow>
                          map_option
                            (\<lambda>(ms, x3). (\<lparr>mr_name = ru_name rule, mr_dry_run = ru_dry_run rule,
                                          mr_actions = acts\<rparr> # ms, x3))
                            (explain_loop E ev rest
                              (if list_ex ea_ran acts then ru_name rule # executed else executed) x2))))"

definition explain_rules_with_cache ::
  "engine \<Rightarrow> BotEvent \<Rightarrow> xstate \<Rightarrow> (MatchedRule list \<times> xstate) option" where
  "explain_rules_with_cache E ev x = explain_loop E ev (rf_rules (en_rules E)) [] x"

section \<open>Entry points\<close>

text \<open>A new cache with what the rules need fetched.\<close>

definition prefetched :: "engine \<Rightarrow> BotEvent \<Rightarrow> xstate \<Rightarrow> xstate option" where
  "prefetched E ev x =
     map_option (\<lambda>rs. x\<lparr>est := prefetch (en_clients E) ev rs (cache_new (calls (est x)))\<rparr>)
       (collect_resources (en_rules E))"

definition run_rules :: "engine \<Rightarrow> BotEvent \<Rightarrow> RawRequest option \<Rightarrow> wstate \<Rightarrow> wstate option" where
  "run_rules E ev raw w =
     (case prefetched E ev (xst w) of
        None \<Rightarrow> None
      | Some x \<Rightarrow> run_rules_with_cache E ev raw (w\<lparr>xst := x\<rparr>))"

definition explain_rules :: "engine \<Rightarrow> BotEvent \<Rightarrow> wstate \<Rightarrow> (MatchedRule list \<times> wstate) option" where
  "explain_rules E ev w =
     (case prefetched E ev (xst w) of
        None \<Rightarrow> None
      | Some x \<Rightarrow> map_option (\<lambda>(ms, x1). (ms, w\<lparr>xst := x1\<rparr>)) (explain_rules_with_cache E ev x))"

definition IGNORE_LABEL :: string where
  "IGNORE_LABEL = ''janitor/ignore''"

definition ignored :: "PrEvent \<Rightarrow> bool" where
  "ignored pr = list_ex (\<lambda>l. l_name l = IGNORE_LABEL) (pe_labels pr)"

definition explain_pr :: "engine \<Rightarrow> PrEvent \<Rightarrow> wstate \<Rightarrow> (MatchedRule list \<times> wstate) option" where
  "explain_pr E pr w = explain_rules E (ForgejoPr pr) w"

definition evaluate_pr :: "engine \<Rightarrow> PrEvent \<Rightarrow> wstate \<Rightarrow> wstate option" where
  "evaluate_pr E pr w = (if ignored pr then Some w else run_rules E (ForgejoPr pr) None w)"

definition explain_and_evaluate_pr ::
  "engine \<Rightarrow> PrEvent \<Rightarrow> wstate \<Rightarrow> (MatchedRule list \<times> wstate) option" where
  "explain_and_evaluate_pr E pr w =
     (if ignored pr then Some ([], w)
      else (case prefetched E (ForgejoPr pr) (xst w) of
              None \<Rightarrow> None
            | Some x \<Rightarrow>
                (case explain_rules_with_cache E (ForgejoPr pr) x of
                   None \<Rightarrow> None
                 | Some (matched, x1) \<Rightarrow>
                     map_option (\<lambda>w'. (matched, w'))
                       (run_rules_with_cache E (ForgejoPr pr) None (w\<lparr>xst := x1\<rparr>)))))"

definition enrich_workflow :: "engine \<Rightarrow> WorkflowEvent \<Rightarrow> wstate \<Rightarrow> WorkflowEvent \<times> wstate" where
  "enrich_workflow E ev w =
     (if wf_conclusion ev = ''failure''
      then (let (output, x) = lookup (ask (\<lambda>t. en_failed_job_logs E t (wf_jobs_url ev))) (xst w)
            in (ev\<lparr>wf_failed_jobs_logs := output\<rparr>, w\<lparr>xst := x\<rparr>))
      else (ev, w))"

definition explain_workflow ::
  "engine \<Rightarrow> WorkflowEvent \<Rightarrow> wstate \<Rightarrow> (MatchedRule list \<times> wstate) option" where
  "explain_workflow E ev w =
     (let (ev', w1) = enrich_workflow E ev w in explain_rules E (GitHubWorkflow ev') w1)"

definition evaluate_workflow :: "engine \<Rightarrow> WorkflowEvent \<Rightarrow> wstate \<Rightarrow> wstate option" where
  "evaluate_workflow E ev w =
     (let (ev', w1) = enrich_workflow E ev w in run_rules E (GitHubWorkflow ev') None w1)"

definition enrich_check_run :: "engine \<Rightarrow> CheckRunEvent \<Rightarrow> wstate \<Rightarrow> CheckRunEvent \<times> wstate" where
  "enrich_check_run E ev w =
     (case (ck_run_id ev, split_once (CHR ''/'') (ck_repository ev)) of
        (Some run_id, Some (owner, repo)) \<Rightarrow>
          (case lookup (ask (\<lambda>t. en_workflow_run_name E t owner repo run_id)) (xst w) of
             (None, x) \<Rightarrow> (ev, w\<lparr>xst := x\<rparr>)
           | (Some name, x) \<Rightarrow> (ev\<lparr>ck_workflow_name := name\<rparr>, w\<lparr>xst := x\<rparr>))
      | _ \<Rightarrow> (ev, w))"

definition explain_check_run ::
  "engine \<Rightarrow> CheckRunEvent \<Rightarrow> wstate \<Rightarrow> (MatchedRule list \<times> wstate) option" where
  "explain_check_run E ev w =
     (let (ev', w1) = enrich_check_run E ev w in explain_rules E (GitHubCheckRun ev') w1)"

definition evaluate_check_run :: "engine \<Rightarrow> CheckRunEvent \<Rightarrow> wstate \<Rightarrow> wstate option" where
  "evaluate_check_run E ev w =
     (let (ev', w1) = enrich_check_run E ev w in run_rules E (GitHubCheckRun ev') None w1)"

definition explain_commit_status ::
  "engine \<Rightarrow> CommitStatusEvent \<Rightarrow> wstate \<Rightarrow> (MatchedRule list \<times> wstate) option" where
  "explain_commit_status E ev w = explain_rules E (GitHubCommitStatus ev) w"

definition evaluate_commit_status :: "engine \<Rightarrow> CommitStatusEvent \<Rightarrow> wstate \<Rightarrow> wstate option" where
  "evaluate_commit_status E ev w = run_rules E (GitHubCommitStatus ev) None w"

definition explain_argocd_sync ::
  "engine \<Rightarrow> ArgoSyncEvent \<Rightarrow> wstate \<Rightarrow> (MatchedRule list \<times> wstate) option" where
  "explain_argocd_sync E ev w = explain_rules E (ArgoSync ev) w"

definition evaluate_argocd_sync :: "engine \<Rightarrow> ArgoSyncEvent \<Rightarrow> wstate \<Rightarrow> wstate option" where
  "evaluate_argocd_sync E ev w = run_rules E (ArgoSync ev) None w"

definition explain_push :: "engine \<Rightarrow> PushEvent \<Rightarrow> wstate \<Rightarrow> (MatchedRule list \<times> wstate) option" where
  "explain_push E ev w = explain_rules E (GitHubPush ev) w"

definition evaluate_push :: "engine \<Rightarrow> PushEvent \<Rightarrow> RawRequest \<Rightarrow> wstate \<Rightarrow> wstate option" where
  "evaluate_push E ev raw w = run_rules E (GitHubPush ev) (Some raw) w"

text \<open>\<open>Err\<close> when no rule has the name; the inner \<open>None\<close> is a panic.\<close>

definition run_rule_by_name_unconditionally ::
  "engine \<Rightarrow> PrEvent \<Rightarrow> string \<Rightarrow> wstate \<Rightarrow> (string, wstate option) result" where
  "run_rule_by_name_unconditionally E pr action_name w =
     (case List.find (\<lambda>r. ru_name r = action_name) (rf_rules (en_rules E)) of
        None \<Rightarrow> Err (''no rule named `'' @ action_name @ ''`'')
      | Some rule \<Rightarrow>
          Ok (case prefetched E (ForgejoPr pr) (xst w) of
                None \<Rightarrow> None
              | Some x \<Rightarrow>
                  map_option (\<lambda>(acts, x1). w\<lparr>xst := x1\<rparr>)
                    (execute_actions E (ForgejoPr pr) None rule False x)))"

end
