(* ===== verification/RuleRun.thy ===== *)
theory RuleRun
  imports RuleEngine
begin

text \<open>
  What a run of the rules does: which rules run, what their logs hold, that dry runs send
  nothing, that an explanation predicts the run after it, and that loaded rules do not panic.
\<close>

section \<open>Matching\<close>

lemma matching_sent: "matching E ev r now m x = Some (b, x') \<Longrightarrow> sent x' = sent x"
  by (auto simp: matching_def split: option.splits)

lemma match_rule_sent: "match_rule E ev r x = Some (b, x') \<Longrightarrow> sent x' = sent x"
  by (auto simp: match_rule_def case_prod_unfold Let_def dest: matching_sent)

lemma match_group_sent: "match_group E ev r g x = Some (b, x') \<Longrightarrow> sent x' = sent x"
  by (auto simp: match_group_def case_prod_unfold Let_def dest: matching_sent split: option.splits)

lemmas match_sent = matching_sent match_rule_sent match_group_sent

abbreviation xextends :: "xstate \<Rightarrow> xstate \<Rightarrow> bool" where
  "xextends x y \<equiv> extends (est x) (est y)"

lemma extends_calls [simp]:
  "extends (s\<lparr>calls := n\<rparr>) t \<longleftrightarrow> extends s t" "extends s (t\<lparr>calls := n\<rparr>) \<longleftrightarrow> extends s t"
  by (simp_all add: extends_def)

lemma xextends_ask [simp]:
  "xextends (snd (lookup (ask f) x)) y \<longleftrightarrow> xextends x y"
  "xextends x (snd (lookup (ask f) y)) \<longleftrightarrow> xextends x y"
  by (simp_all add: lookup_def ask_def)

lemma xextends_frame: "frame x y \<Longrightarrow> xextends x y"
  by (simp add: frame_def extends_def)

lemma matching_extends: "matching E ev r now m x = Some (b, x') \<Longrightarrow> xextends x x'"
  by (auto simp: matching_def dest: matches_extends(1) split: option.splits)

lemma match_rule_extends: "match_rule E ev r x = Some (b, x') \<Longrightarrow> xextends x x'"
  by (auto simp: match_rule_def case_prod_unfold Let_def dest: matching_extends)

lemma match_group_extends: "match_group E ev r g x = Some (b, x') \<Longrightarrow> xextends x x'"
  by (auto simp: match_group_def case_prod_unfold Let_def dest: matching_extends split: option.splits)

section \<open>Dry runs\<close>

lemma dispatch_dry:
  "ac_dry_run ctx \<Longrightarrow> dispatch_actions E ctx as x = Some (l, x') \<Longrightarrow> x' = x"
  by (induction as arbitrary: l) auto

lemma back_to_cache_sent [simp]: "sent (back_to_cache x y) = sent y"
  by (simp add: back_to_cache_def)

lemma with_fresh_cache_sent [simp]: "sent (with_fresh_cache x) = sent x"
  by (simp add: with_fresh_cache_def)

lemma run_serial_dry:
  "ac_dry_run ctx \<Longrightarrow> run_serial E ctx g x = Some (l, x') \<Longrightarrow> sent x' = sent x"
  by (auto simp: run_serial_def dest!: match_sent dispatch_dry [rotated] split: option.splits if_splits)

lemma run_group_dry:
  "ac_dry_run ctx \<Longrightarrow> run_action_group E ctx g x = Some (l, x') \<Longrightarrow> sent x' = sent x"
  by (auto simp: run_action_group_def dest!: match_sent dispatch_dry [rotated] run_serial_dry [rotated]
      split: option.splits if_splits)

lemma run_groups_dry:
  "ac_dry_run ctx \<Longrightarrow> run_groups E ctx gs x = Some (l, x') \<Longrightarrow> sent x' = sent x"
  by (induction gs arbitrary: x l) (auto dest!: run_group_dry [rotated] split: option.splits)

lemma run_loop_dry:
  "\<forall>r\<in>set rules. \<not> is_disabled (ru_disabled r) \<longrightarrow> ru_dry_run r
    \<Longrightarrow> run_loop E ev raw rules executed x = Some (ms, x') \<Longrightarrow> sent x' = sent x"
proof (induction rules arbitrary: executed x ms)
  case Nil
  then show ?case by simp
next
  case (Cons r rules)
  then show ?case
    by (auto simp: execute_actions_def dest!: match_rule_sent run_groups_dry [rotated]
        split: option.splits if_splits)
qed

section \<open>The log of a rule\<close>

definition rule_kinds :: "RuleDef \<Rightarrow> string list" where
  "rule_kinds r = concat (map (\<lambda>g. map (\<lambda>a. action_kind (to_action a)) (ag_run g)) (ru_actions r))"

lemma dispatch_log: "dispatch_actions E ctx as x = Some (l, x') \<Longrightarrow> l = map (explained True) as"
  by (induction as arbitrary: x l) (auto simp: Let_def split: option.splits)

lemma group_log:
  "run_action_group E ctx g x = Some (l, x') \<Longrightarrow> l = skipped g \<or> l = map (explained True) (ag_run g)"
  by (auto simp: run_action_group_def run_serial_def dest!: dispatch_log
      split: option.splits if_splits)

lemma explained_kind [simp]: "ea_action (explained b a) = action_kind (to_action a)"
  by (simp add: explained_def)

lemma groups_log:
  "run_groups E ctx gs x = Some (l, x')
    \<Longrightarrow> map ea_action l = concat (map (\<lambda>g. map (\<lambda>a. action_kind (to_action a)) (ag_run g)) gs)"
  by (induction gs arbitrary: x l) (auto dest!: group_log simp: o_def skipped_def split: option.splits)

section \<open>Which rules run\<close>

lemma run_loop_log:
  assumes "run_loop E ev raw rules executed x = Some (ms, x')" "ms = before @ m # after"
  shows "\<exists>r\<in>set rules. mr_name m = ru_name r \<and> mr_dry_run m = ru_dry_run r
    \<and> \<not> is_disabled (ru_disabled r) \<and> map ea_action (mr_actions m) = rule_kinds r
    \<and> (\<forall>d\<in>set (ru_depends_on r). d \<in> set executed
        \<or> (\<exists>m'\<in>set before. mr_name m' = d \<and> list_ex ea_ran (mr_actions m')))"
  using assms
proof (induction rules arbitrary: executed x ms before)
  case Nil
  then show ?case by simp
next
  case (Cons r rules)
  show ?case
  proof (cases "\<not> is_disabled (ru_disabled r) \<and> dependencies_met r executed")
    case False
    then have "run_loop E ev raw rules executed x = Some (ms, x')"
      using Cons.prems(1) by (auto split: if_splits)
    from Cons.IH [OF this Cons.prems(2)] show ?thesis by auto
  next
    case True
    with Cons.prems(1) obtain b x1 where b: "match_rule E ev r x = Some (b, x1)"
      by (auto split: option.splits)
    show ?thesis
    proof (cases b)
      case False
      then have "run_loop E ev raw rules executed x1 = Some (ms, x')" using Cons.prems(1) True b by auto
      from Cons.IH [OF this Cons.prems(2)] show ?thesis by auto
    next
      case match: True
      let ?ex = "\<lambda>l. if list_ex ea_ran l then ru_name r # executed else executed"
      from Cons.prems(1) True b match obtain l x2 ms' where
        l: "execute_actions E ev raw r (ru_dry_run r) x1 = Some (l, x2)"
        and ms': "run_loop E ev raw rules (?ex l) x2 = Some (ms', x')"
        and ms: "ms = \<lparr>mr_name = ru_name r, mr_dry_run = ru_dry_run r, mr_actions = l\<rparr> # ms'"
        by (auto split: option.splits)
      have kinds: "map ea_action l = rule_kinds r"
        using l by (auto simp: execute_actions_def rule_kinds_def dest: groups_log)
      show ?thesis
      proof (cases before)
        case Nil
        with ms Cons.prems(2) True kinds show ?thesis
          by (auto simp: dependencies_met_def list_all_iff)
      next
        case before: (Cons e before')
        with ms Cons.prems(2) have "ms' = before' @ m # after"
          and e: "e = \<lparr>mr_name = ru_name r, mr_dry_run = ru_dry_run r, mr_actions = l\<rparr>" by auto
        from Cons.IH [OF ms' this(1)] show ?thesis
          by (auto simp: before e split: if_splits)
      qed
    qed
  qed
qed

section \<open>Explanations\<close>

text \<open>Rules whose matchers have no expressions and no serial groups.\<close>

definition plain_rule :: "RuleDef \<Rightarrow> bool" where
  "plain_rule r \<longleftrightarrow> list_all plain (rule_matchers r) \<and> list_all (\<lambda>g. ag_serial g = None) (ru_actions r)"

lemma plain_when: "plain_rule r \<Longrightarrow> plain (ru_when r)"
  by (simp add: plain_rule_def rule_matchers_def)

lemma matching_replay:
  "matching E ev r now m x = Some (b, x1) \<Longrightarrow> plain m \<Longrightarrow> xextends x1 y
    \<Longrightarrow> matching E' ev' r' now' m y = Some (b, y)"
  by (auto simp: matching_def matches_replay(1) split: option.splits)

lemma match_rule_replay:
  assumes "match_rule E ev r x = Some (b, x1)" "plain_rule r" "xextends x1 y"
  obtains y1 where "match_rule E ev r y = Some (b, y1)" "xextends y y1"
  using assms matching_replay [of E ev r _ "ru_when r" _ b x1]
  by (auto simp: match_rule_def case_prod_unfold Let_def plain_when match_rule_extends)


lemma match_group_replay:
  assumes "match_group E ev r g y = Some (b', y1)" "plain m" "ag_when g = Some m" "xextends x1 y"
    and "matching E ev r now m x = Some (b, x1)"
  shows "b' = b \<and> xextends y y1"
  using assms(1,3,4) matching_replay [OF assms(5,2), of "snd (lookup (ask (en_clock E)) y)"]
  by (auto simp: match_group_def case_prod_unfold Let_def)

lemma dispatch_frame: "dispatch_actions E ctx as x = Some (l, x') \<Longrightarrow> frame x x'"
  by (induction as arbitrary: x l)
    (auto simp: Let_def dest!: frame_execute split: option.splits if_splits elim: frame_trans)

lemma explain_groups_extends: "explain_groups E ev r now gs x = Some (l, x') \<Longrightarrow> xextends x x'"
  by (induction gs arbitrary: x l)
    (auto dest!: matching_extends split: option.splits elim: extends_trans)

lemma explain_actions_extends: "explain_action_runs E ev r x = Some (l, x') \<Longrightarrow> xextends x x'"
  by (auto simp: explain_action_runs_def case_prod_unfold Let_def dest: explain_groups_extends)

lemma explain_loop_extends: "explain_loop E ev rules executed x = Some (ms, x') \<Longrightarrow> xextends x x'"
proof (induction rules arbitrary: executed x ms)
  case Nil
  then show ?case by simp
next
  case (Cons r rules)
  then show ?case
    by (auto dest!: match_rule_extends explain_actions_extends split: option.splits if_splits
        elim: extends_trans) (blast intro: extends_trans)+
qed

lemma groups_predicted:
  assumes "explain_groups E ev r now gs x = Some (l, x1)" "xextends x1 y"
    "list_all (\<lambda>g. ag_serial g = None) gs" "list_all plain (List.map_filter ag_when gs)"
    "run_groups E ctx gs y = Some (l', y')" "ac_rule ctx = r" "ac_event ctx = ev"
  shows "l' = l \<and> xextends y y'"
  using assms
proof (induction gs arbitrary: x l y l')
  case Nil
  then show ?case by simp
next
  case (Cons g gs)
  from Cons.prems(1) obtain b x2 rest where
    gate: "(case ag_when g of None \<Rightarrow> Some (True, x) | Some m \<Rightarrow> matching E ev r now m x) = Some (b, x2)"
    and rest: "explain_groups E ev r now gs x2 = Some (rest, x1)"
    and l: "l = map (explained b) (ag_run g) @ rest"
    by (auto split: option.splits)
  have x2: "xextends x2 y"
    using explain_groups_extends [OF rest] Cons.prems(2) extends_trans by blast
  from Cons.prems(5) obtain lg y1 rest' where
    run: "run_action_group E ctx g y = Some (lg, y1)"
    and rest': "run_groups E ctx gs y1 = Some (rest', y')" and l': "l' = lg @ rest'"
    by (auto split: option.splits)
  from run Cons.prems(3,6,7) obtain b' y0 where g: "match_group E ev r g y = Some (b', y0)"
    and lg: "if b' then dispatch_actions E ctx (ag_run g) y0 = Some (lg, y1)
      else lg = skipped g \<and> y1 = y0"
    by (auto simp: run_action_group_def split: option.splits if_splits)
  have y0: "b' = b \<and> xextends y y0"
  proof (cases "ag_when g")
    case None
    with gate g show ?thesis by (auto simp: match_group_def)
  next
    case (Some m)
    with gate Cons.prems(4) have "matching E ev r now m x = Some (b, x2)" "plain m" by simp_all
    with match_group_replay [OF g] Some x2 show ?thesis by blast
  qed
  have y1: "lg = map (explained b) (ag_run g) \<and> xextends y0 y1"
    using lg y0 by (cases b) (auto simp: skipped_def dest: dispatch_log dispatch_frame xextends_frame)
  have "xextends y y1" using y0 y1 extends_trans by blast
  moreover from this have "xextends x1 y1" using Cons.prems(2) extends_trans by blast
  with Cons.IH [OF rest _ _ _ rest' Cons.prems(6,7)] Cons.prems(3,4)
  have "rest' = rest \<and> xextends y1 y'" by (simp split: option.splits)
  ultimately show ?case using l l' y1 extends_trans by blast
qed

lemma loop_predicted:
  assumes "explain_loop E ev rules executed x = Some (ms, x1)" "xextends x1 y"
    "list_all plain_rule rules" "run_loop E ev raw rules executed y = Some (ms', y')"
  shows "ms' = ms"
  using assms
proof (induction rules arbitrary: executed x ms y ms')
  case Nil
  then show ?case by simp
next
  case (Cons r rules)
  show ?case
  proof (cases "is_disabled (ru_disabled r) \<or> \<not> dependencies_met r executed")
    case True
    with Cons show ?thesis by (auto split: if_splits)
  next
    case False
    with Cons.prems(1) obtain b x2 where m: "match_rule E ev r x = Some (b, x2)"
      by (auto split: option.splits)
    from Cons.prems(1) False m have "xextends x2 x1"
      by (auto split: if_splits option.splits dest!: explain_loop_extends explain_actions_extends
          elim: extends_trans)
    then have x2: "xextends x2 y" using Cons.prems(2) extends_trans by blast
    have r: "plain_rule r" using Cons.prems(3) by simp
    obtain y1 where y1: "match_rule E ev r y = Some (b, y1)" "xextends y y1"
      by (rule match_rule_replay [OF m r x2])
    show ?thesis
    proof (cases b)
      case no: False
      then show ?thesis
        using Cons.prems False m y1 extends_trans Cons.IH [of executed x2 ms y1 ms'] by auto
    next
      case True
      let ?ex = "\<lambda>l. if list_ex ea_ran l then ru_name r # executed else executed"
      let ?m = "\<lambda>l. \<lparr>mr_name = ru_name r, mr_dry_run = ru_dry_run r, mr_actions = l\<rparr>"
      from Cons.prems(1) False m True obtain l x3 ms0 where
        l: "explain_action_runs E ev r x2 = Some (l, x3)"
        and ms0: "explain_loop E ev rules (?ex l) x3 = Some (ms0, x1)" and ms: "ms = ?m l # ms0"
        by (auto split: option.splits)
      from Cons.prems(4) False y1(1) True obtain l' y2 ms0' where
        l': "execute_actions E ev raw r (ru_dry_run r) y1 = Some (l', y2)"
        and ms0': "run_loop E ev raw rules (?ex l') y2 = Some (ms0', y')" and ms': "ms' = ?m l' # ms0'"
        by (auto split: option.splits)
      have "xextends x3 y1"
        using explain_loop_extends [OF ms0] Cons.prems(2) y1(2) extends_trans by blast
      moreover have "list_all (\<lambda>g. ag_serial g = None) (ru_actions r)"
        "list_all plain (List.map_filter ag_when (ru_actions r))"
        using r by (simp_all add: plain_rule_def rule_matchers_def)
      ultimately have same: "l' = l \<and> xextends y1 y2"
        using l l' groups_predicted [of E ev r _ "ru_actions r"]
        unfolding explain_action_runs_def execute_actions_def case_prod_unfold Let_def by fastforce
      then have "xextends x1 y2" using Cons.prems(2) y1(2) extends_trans by blast
      with Cons.IH [OF ms0 this] Cons.prems(3) ms0' same ms ms' show ?thesis by auto
    qed
  qed
qed


section \<open>Loaded rules do not panic\<close>

definition rule_ref_free :: "RuleDef \<Rightarrow> bool" where
  "rule_ref_free r = list_all ref_free (rule_matchers r)"

lemma rule_ref_free_iff:
  "rule_ref_free r \<longleftrightarrow> ref_free (ru_when r)
    \<and> (\<forall>g\<in>set (ru_actions r). \<forall>m. ag_when g = Some m \<longrightarrow> ref_free m)"
  by (auto simp: rule_ref_free_def rule_matchers_def list_all_iff List.map_filter_def)

lemma resolve_group_ref_free:
  "resolve_group locals globals g = Ok g' \<Longrightarrow> ag_when g' = Some m \<Longrightarrow> ref_free m"
  by (auto simp: resolve_group_def dest: resolve_ref_free split: option.splits sum.splits)

lemma resolve_rule_ref_free:
  assumes "resolve_rule globals r = Ok r'"
  shows "rule_ref_free r'"
proof -
  from assms obtain w gs where w: "resolve_in_matcher (ru_checks r) globals [] (ru_when r) = Ok w"
    and gs: "traverse (resolve_group (ru_checks r) globals) (ru_actions r) = Ok gs"
    and r': "r' = r\<lparr>ru_when := w, ru_actions := gs\<rparr>"
    by (auto simp: resolve_rule_def in_rule_def split: sum.splits)
  have "ref_free m" if "g \<in> set gs" "ag_when g = Some m" for g m
    using traverse_Ok_set [OF gs that(1)] that(2) resolve_group_ref_free by blast
  with resolve_ref_free [OF w] show ?thesis by (simp add: r' rule_ref_free_iff)
qed

lemma resolve_checks_ref_free:
  "resolve_checks rules = Ok rules' \<Longrightarrow> r \<in> set (rf_rules rules') \<Longrightarrow> rule_ref_free r"
  by (auto simp: resolve_checks_def dest!: traverse_Ok_set resolve_rule_ref_free split: sum.splits)

lemma apply_label_colors_ref_free:
  "\<forall>r\<in>set (rf_rules rules). rule_ref_free r
    \<Longrightarrow> r \<in> set (rf_rules (apply_label_colors rules)) \<Longrightarrow> rule_ref_free r"
  by (auto simp: apply_label_colors_def Let_def rule_ref_free_iff split: if_splits)

lemma from_rules_ref_free:
  assumes "from_rules rules = Some rules'"
  shows "list_all rule_ref_free (rf_rules rules')"
proof -
  from assms obtain r1 sorted where r1: "resolve_checks rules = Ok r1"
    and sorted: "topo_sort (rf_rules (apply_label_colors r1)) = Some sorted" "rf_rules rules' = sorted"
    by (auto simp: from_rules_def Let_def split: sum.splits)
  have "set sorted \<subseteq> set (rf_rules (apply_label_colors r1))"
    using topo_sort_submset [OF sorted(1)] set_mset_mono by fastforce
  then show ?thesis
    using apply_label_colors_ref_free resolve_checks_ref_free [OF r1] sorted(2)
    by (auto simp: list_all_iff)
qed

lemma matching_total: "ref_free m \<Longrightarrow> matching E ev r now m x \<noteq> None"
  using matches_total(1) [of m "en_clients E" ev "ru_name r" now "est x"]
  by (auto simp: matching_def)

lemma match_rule_total: "rule_ref_free r \<Longrightarrow> match_rule E ev r x \<noteq> None"
  by (auto simp: match_rule_def case_prod_unfold Let_def rule_ref_free_iff matching_total)

lemma match_group_total:
  "rule_ref_free r \<Longrightarrow> g \<in> set (ru_actions r) \<Longrightarrow> match_group E ev r g x \<noteq> None"
  by (auto simp: match_group_def case_prod_unfold Let_def rule_ref_free_iff matching_total
      split: option.splits simp del: not_None_eq)

lemma explain_groups_total:
  "rule_ref_free r \<Longrightarrow> set gs \<subseteq> set (ru_actions r) \<Longrightarrow> explain_groups E ev r now gs x \<noteq> None"
proof (induction gs arbitrary: x)
  case Nil
  then show ?case by simp
next
  case (Cons g gs)
  have "(case ag_when g of None \<Rightarrow> Some (True, x) | Some m \<Rightarrow> matching E ev r now m x) \<noteq> None"
  proof (cases "ag_when g")
    case (Some m)
    then have "ref_free m" using Cons.prems by (auto simp: rule_ref_free_iff)
    from matching_total [OF this, of E ev r now x] Some show ?thesis by simp
  qed simp
  moreover have "explain_groups E ev r now gs y \<noteq> None" for y using Cons by simp
  ultimately show ?case by (auto split: option.splits simp del: not_None_eq)
qed

lemma explain_loop_total:
  "list_all rule_ref_free rules \<Longrightarrow> explain_loop E ev rules executed x \<noteq> None"
proof (induction rules arbitrary: executed x)
  case Nil
  then show ?case by simp
next
  case (Cons r rules)
  have "match_rule E ev r x \<noteq> None" using Cons.prems by (simp add: match_rule_total)
  moreover have "explain_action_runs E ev r y \<noteq> None" for y
    using Cons.prems explain_groups_total [of r "ru_actions r"]
    by (simp add: explain_action_runs_def case_prod_unfold Let_def)
  moreover have "explain_loop E ev rules ex y \<noteq> None" for ex y using Cons by simp
  ultimately show ?case by (auto split: option.splits simp del: not_None_eq)
qed

lemma collect_resources_total:
  assumes "list_all rule_ref_free (rf_rules rules)"
  shows "collect_resources rules \<noteq> None"
proof -
  have "requires m \<noteq> None" if "r \<in> set (rf_rules rules)" "m \<in> set (rule_matchers r)" for r m
    using assms that by (auto simp: requires_ref_free list_all_iff rule_ref_free_def simp del: not_None_eq)
  then show ?thesis by (auto simp: collect_resources_def Let_def list_all_iff)
qed

lemma explain_rules_total:
  "list_all rule_ref_free (rf_rules (en_rules E)) \<Longrightarrow> explain_rules E ev w \<noteq> None"
  using collect_resources_total [of "en_rules E"]
    explain_loop_total [of "rf_rules (en_rules E)" E ev "[]"]
  by (auto simp: explain_rules_def prefetched_def explain_rules_with_cache_def split: option.splits simp del: not_None_eq)

text \<open>A run can only panic on an issue without a number.\<close>

definition issues_numbered :: "actors \<Rightarrow> bool" where
  "issues_numbered X \<longleftrightarrow>
     (\<forall>t owner repo title issue. find_open_issue_by_title X t owner repo title = Some (Some issue)
        \<longrightarrow> ai_number issue \<noteq> None)"

lemma lookup_issue_numbered:
  "issues_numbered X \<Longrightarrow> lookup (ask (\<lambda>t. find_open_issue_by_title X t owner repo title)) x = (Some (Some i), y)
    \<Longrightarrow> \<exists>n. ai_number i = Some n"
  by (auto simp: issues_numbered_def lookup_def ask_def)

lemma execute_total: "issues_numbered X \<Longrightarrow> execute C X ev raw extra a x \<noteq> None"
  by (cases a) (auto simp: exec_create_issue_def exec_close_issue_def find_duplicate_def Let_def
      dest: lookup_issue_numbered split: prod.splits option.splits if_splits)

lemma dispatch_total: "issues_numbered (en_actors E) \<Longrightarrow> dispatch_actions E ctx as x \<noteq> None"
  by (induction as arbitrary: x) (auto simp: Let_def execute_total split: option.splits simp del: not_None_eq)

lemma run_groups_total:
  assumes "issues_numbered (en_actors E)" "rule_ref_free (ac_rule ctx)"
    "set gs \<subseteq> set (ru_actions (ac_rule ctx))"
  shows "run_groups E ctx gs x \<noteq> None"
  using assms(3)
proof (induction gs arbitrary: x)
  case Nil
  then show ?case by simp
next
  case (Cons g gs)
  have d: "dispatch_actions E ctx as y \<noteq> None" for as y using assms(1) by (rule dispatch_total)
  have g: "match_group E (ac_event ctx) (ac_rule ctx) g y \<noteq> None" for y
    using assms(2) Cons.prems by (simp add: match_group_total)
  have r: "match_rule E (ac_event ctx) (ac_rule ctx) y \<noteq> None" for y
    using assms(2) by (rule match_rule_total)
  have "run_serial E ctx g y \<noteq> None" for y
    using d g r by (auto simp: run_serial_def split: option.splits simp del: not_None_eq)
  then have "run_action_group E ctx g x \<noteq> None"
    using d g by (auto simp: run_action_group_def split: option.splits simp del: not_None_eq)
  with Cons show ?case by (auto split: option.splits simp del: not_None_eq)
qed

lemma run_loop_total:
  assumes "issues_numbered (en_actors E)"
  shows "list_all rule_ref_free rules \<Longrightarrow> run_loop E ev raw rules executed x \<noteq> None"
proof (induction rules arbitrary: executed x)
  case Nil
  then show ?case by simp
next
  case (Cons r rules)
  have "match_rule E ev r x \<noteq> None" using Cons.prems by (simp add: match_rule_total)
  moreover have "execute_actions E ev raw r dry y \<noteq> None" for dry y
    using assms Cons.prems unfolding execute_actions_def by (intro run_groups_total) simp_all
  moreover have "run_loop E ev raw rules ex y \<noteq> None" for ex y using Cons by simp
  ultimately show ?case by (auto split: option.splits simp del: not_None_eq)
qed

lemma run_rules_total:
  "issues_numbered (en_actors E) \<Longrightarrow> list_all rule_ref_free (rf_rules (en_rules E))
    \<Longrightarrow> run_rules E ev raw w \<noteq> None"
  using collect_resources_total [of "en_rules E"] run_loop_total [of E "rf_rules (en_rules E)" ev raw "[]"]
  by (auto simp: run_rules_def prefetched_def run_rules_with_cache_def split: option.splits simp del: not_None_eq)

section \<open>The evaluation log\<close>

lemma record_eval_length: "length entries \<le> EVAL_LOG_CAPACITY \<Longrightarrow> length (record_eval e entries) \<le> EVAL_LOG_CAPACITY"
  by (auto simp: record_eval_def EVAL_LOG_CAPACITY_def)

lemma record_eval_last:
  "length entries \<le> EVAL_LOG_CAPACITY
    \<Longrightarrow> record_eval e entries = drop (Suc (length entries) - EVAL_LOG_CAPACITY) (entries @ [e])"
  by (cases entries) (auto simp: record_eval_def EVAL_LOG_CAPACITY_def)

end
