(* ===== verification/RuleClose.thy ===== *)
theory RuleClose
  imports RuleActions
begin

text \<open>
  Which pull requests \<open>close_other_prs\<close> touches, and how often \<open>wait_for_github_sync\<close> polls.
\<close>

section \<open>Closing one pull request\<close>

text \<open>Requests about another pull request of the repository: they only clean it up and close it.\<close>

fun closes_other :: "PrEvent \<Rightarrow> ApiPr \<Rightarrow> Request \<Rightarrow> bool" where
  "closes_other pr other (RemoveLabelsByName owner repo n ls) \<longleftrightarrow>
     owner = pe_owner pr \<and> repo = pe_repo pr \<and> n = pr_number_of other
     \<and> list_all (\<lambda>l. starts_with l ''janitor/'' \<and> Some l \<in> al_name ` set (ap_labels other)) ls"
| "closes_other pr other (CommentOnIssue owner repo n txt) \<longleftrightarrow>
     owner = pe_owner pr \<and> repo = pe_repo pr \<and> n = pr_number_of other"
| "closes_other pr other (SetPrState owner repo n s) \<longleftrightarrow>
     owner = pe_owner pr \<and> repo = pe_repo pr \<and> n = pr_number_of other \<and> s = ''closed''"
| "closes_other pr other (RemoveBranch owner repo branch) \<longleftrightarrow>
     owner = pe_owner pr \<and> repo = pe_repo pr \<and> ap_head_ref other = Some branch"
| "closes_other pr other _ \<longleftrightarrow> False"

text \<open>A step that only adds requests with a property.\<close>

definition adds :: "(Request \<Rightarrow> bool) \<Rightarrow> xstate \<Rightarrow> xstate \<Rightarrow> bool" where
  "adds P x y \<longleftrightarrow> (\<exists>rs. sent y = sent x @ rs \<and> list_all P rs)"

lemma adds_refl [simp]: "adds P x x"
  by (simp add: adds_def)

lemma adds_trans: "adds P x y \<Longrightarrow> adds P y z \<Longrightarrow> adds P x z"
  unfolding adds_def by (metis append.assoc list_all_append)

lemma adds_send: "P r \<Longrightarrow> adds P x (snd (send X r x))"
  by (auto simp: adds_def send_def ask_def Let_def)

lemma adds_send_if: "(b \<Longrightarrow> P r) \<Longrightarrow> adds P x (snd (send_if X b r x))"
  by (simp add: send_if_def adds_send)

lemma adds_lookup [simp]: "adds P x (snd (lookup f x))"
  by (simp add: adds_def)

lemma adds_and_then:
  "adds P x (snd r) \<Longrightarrow> (\<And>y. adds P y (snd (f y))) \<Longrightarrow> adds P x (snd (and_then r f))"
  by (auto simp: and_then_def intro: adds_trans)

lemma adds_mono: "adds P x y \<Longrightarrow> (\<And>r. P r \<Longrightarrow> Q r) \<Longrightarrow> adds Q x y"
  by (auto simp: adds_def intro: list.pred_mono_strong)

lemma map_filter_member: "y \<in> set (List.map_filter f xs) \<longleftrightarrow> (\<exists>x\<in>set xs. f x = Some y)"
  by (force simp: List.map_filter_def)

lemma janitor_labels_own:
  assumes "l \<in> set (janitor_labels other)"
  shows "starts_with l ''janitor/'' \<and> Some l \<in> al_name ` set (ap_labels other)"
proof -
  from assms obtain x where x: "x \<in> set (ap_labels other)"
    and l: "(case al_name x of Some n \<Rightarrow> if starts_with n ''janitor/'' then Some n else None
      | None \<Rightarrow> None) = Some l"
    unfolding janitor_labels_def map_filter_member by blast
  from l have "al_name x = Some l" "starts_with l ''janitor/''"
    by (cases "al_name x"; simp split: if_splits)+
  with x show ?thesis by (metis image_eqI)
qed

lemma close_one_adds: "adds (closes_other pr other) x (snd (close_one C X pr d comment other x))"
  unfolding close_one_def Let_def
  by (intro adds_and_then adds_send_if)
    (auto simp: list_all_iff adds_send dest: janitor_labels_own split: option.splits bool.splits)

section \<open>The loop\<close>

lemma close_loop_adds:
  assumes "\<And>m y o'. sent (snd (test m o' y)) = sent y"
    and "\<And>o' y. adds (P o') y (snd (act o' y))"
  shows "adds (\<lambda>r. \<exists>other\<in>set others. \<exists>meta. select other = Some meta
      \<and> (\<exists>y. fst (test meta other y)) \<and> P other r) x (snd (close_loop select test act others x))"
proof (induction others arbitrary: x)
  case Nil
  show ?case by simp
next
  case (Cons other others)
  let ?Q = "\<lambda>os r. \<exists>other\<in>set os. \<exists>meta. select other = Some meta
      \<and> (\<exists>y. fst (test meta other y)) \<and> P other r"
  have rest: "adds (?Q (other # others)) y (snd (close_loop select test act others y))" for y
    by (rule adds_mono [OF Cons]) auto
  show ?case
  proof (cases "select other")
    case None
    with rest show ?thesis by simp
  next
    case (Some meta)
    obtain old x1 where t: "test meta other x = (old, x1)" by fastforce
    have "sent x1 = sent x" using assms(1) [of meta other x] t by simp
    then have same: "adds Q x z \<longleftrightarrow> adds Q x1 z" for Q z by (simp add: adds_def)
    show ?thesis
    proof (cases old)
      case False
      with Some t rest show ?thesis by (simp add: same)
    next
      case True
      have "adds (?Q (other # others)) x1 (snd (act other x1))"
        by (rule adds_mono [OF assms(2)]) (use Some t True in \<open>auto intro!: exI [of _ x]\<close>)
      then have "adds (?Q (other # others)) x1
          (snd (and_then (act other x1) (close_loop select test act others)))"
        by (rule adds_and_then) (rule rest)
      with Some t True show ?thesis by (simp add: same)
    qed
  qed
qed

lemma should_close_sent [simp]:
  "sent (snd (should_close C cr f k cc ts i t meta other x)) = sent x"
  by (auto simp: should_close_def case_prod_unfold Let_def split: CloseOtherPrsCriteria.splits)

section \<open>What is closed\<close>

lemma length_map_filter_le: "length (List.map_filter g xs) \<le> length xs"
  by (induction xs) (auto split: option.splits)

lemma candidate_Some:
  "candidate T pr author vals other = Some meta \<longleftrightarrow>
     pr_number_of other \<noteq> pe_pr_number pr \<and> opt_default (ap_author other) = author
     \<and> parse_pr_metadata T (opt_default (ap_body other)) = Some meta
     \<and> (\<forall>(f, v)\<in>set vals. meta_str meta f = Some v)"
  by (auto simp: candidate_def list_all_iff split: option.splits)

lemma metadata_values_all:
  "length (metadata_values meta names) = length names
    \<Longrightarrow> f \<in> set names \<Longrightarrow> \<exists>v. meta_str meta f = Some v \<and> (f, v) \<in> set (metadata_values meta names)"
proof -
  assume len: "length (metadata_values meta names) = length names" and f: "f \<in> set names"
  have "length (List.map_filter g names) = length names \<Longrightarrow> g f \<noteq> None" for g :: "string \<Rightarrow> (string \<times> string) option"
    using f by (induction names) (auto simp: length_map_filter_le [THEN le_imp_less_Suc, THEN less_imp_neq] split: option.splits)
  with len have "meta_str meta f \<noteq> None" by (fastforce simp: metadata_values_def)
  then show ?thesis
    using f by (force simp: metadata_values_def List.map_filter_def)
qed

text \<open>The state of \<open>pr\<close> and of \<open>other\<close> under which \<open>pr\<close> closes \<open>other\<close> by age.\<close>

definition superseded ::
  "text_crates \<Rightarrow> string \<Rightarrow> string list \<Rightarrow> string option \<Rightarrow> PrEvent \<Rightarrow> ApiPr \<Rightarrow> ApiPr \<Rightarrow> bool" where
  "superseded T author names order_field pr current other \<longleftrightarrow>
     pr_number_of other \<noteq> pe_pr_number pr \<and> opt_default (ap_author other) = author
     \<and> (\<exists>cur meta. parse_pr_metadata T (opt_default (ap_body current)) = Some cur
          \<and> parse_pr_metadata T (opt_default (ap_body other)) = Some meta
          \<and> (\<forall>f\<in>set names. meta_str cur f \<noteq> None \<and> meta_str meta f = meta_str cur f)
          \<and> other_is_older order_field (Option.bind order_field (metadata_order_key cur)) meta
               (ap_created_at other) (ap_created_at current))"

lemma lookup_ask_Some: "lookup (ask f) x = (Some a, y) \<Longrightarrow> \<exists>t. f t = Some a"
  by (auto simp: lookup_def ask_def)

lemma close_other_prs_adds:
  "adds (\<lambda>r. \<exists>t u current open_prs. get_pr C t (pe_owner pr) (pe_repo pr) (pe_pr_number pr) = Some current
      \<and> list_open_prs C u (pe_owner pr) (pe_repo pr) = Some open_prs
      \<and> (\<exists>other\<in>set open_prs. superseded (texts C) author names order_field pr current other
            \<and> closes_other pr other r))
    x (exec_close_other_prs C X (ForgejoPr pr) author Older names order_field images tag d comment x)"
  (is "adds ?P x ?x'")
proof -
  obtain c x1 where 1: "lookup (ask (\<lambda>t. get_pr C t (pe_owner pr) (pe_repo pr) (pe_pr_number pr))) x = (c, x1)"
    by fastforce
  obtain os x3 where 3: "lookup (ask (\<lambda>t. list_open_prs C t (pe_owner pr) (pe_repo pr))) x1 = (os, x3)"
    by fastforce
  have sent: "sent x1 = sent x" "sent x3 = sent x" using sent_lookup 1 3 by (metis snd_conv)+
  show ?thesis
  proof (cases "c = None \<or> parse_pr_metadata (texts C) (opt_default (ap_body (the c))) = None
      \<or> length (metadata_values (the (parse_pr_metadata (texts C) (opt_default (ap_body (the c))))) names)
          \<noteq> length names \<or> os = None")
    case True
    then have "?x' = x1 \<or> ?x' = x3"
      by (auto simp: exec_close_other_prs_def 1 3 Let_def split: option.splits)
    then show ?thesis using sent by (auto simp: adds_def)
  next
    case False
    then obtain current cur open_prs where c: "c = Some current" "os = Some open_prs"
      and cur: "parse_pr_metadata (texts C) (opt_default (ap_body current)) = Some cur"
      and len: "length (metadata_values cur names) = length names" by auto
    let ?key = "Option.bind order_field (metadata_order_key cur)"
    let ?test = "should_close C Older order_field ?key (ap_created_at current) None images tag"
    have x': "?x' = snd (close_loop (candidate (texts C) pr author (metadata_values cur names)) ?test
        (close_one C X pr d comment) open_prs x3)"
      by (simp add: exec_close_other_prs_def 1 3 c cur len)
    have "adds ?P x3 ?x'"
      unfolding x'
    proof (rule adds_mono [OF close_loop_adds [where P = "closes_other pr"]])
      fix r
      assume "\<exists>other\<in>set open_prs. \<exists>meta.
          candidate (texts C) pr author (metadata_values cur names) other = Some meta
          \<and> (\<exists>y. fst (?test meta other y)) \<and> closes_other pr other r"
      then obtain other meta where o: "other \<in> set open_prs" "closes_other pr other r"
        and meta: "candidate (texts C) pr author (metadata_values cur names) other = Some meta"
        and old: "other_is_older order_field ?key meta (ap_created_at other) (ap_created_at current)"
        by (auto simp: should_close_def)
      have "superseded (texts C) author names order_field pr current other"
        using meta old cur metadata_values_all [OF len] unfolding superseded_def candidate_Some by fastforce
      with o lookup_ask_Some [of _ x current x1] lookup_ask_Some [of _ x1 open_prs x3] 1 3 c show "?P r"
        by blast
    qed (auto simp: close_one_adds)
    then show ?thesis using sent by (simp add: adds_def)
  qed
qed

section \<open>The age criterion\<close>

lemma option_less_asym: "option_less a b \<Longrightarrow> \<not> option_less b a"
  by (cases a; cases b) auto

text \<open>It is the mirror image of the one of \<open>is_latest_by_metadata\<close>, and no two pull requests close each other.\<close>

lemma older_iff_newer:
  "other_is_older f (Option.bind f (metadata_order_key cur)) meta oc cc
    \<longleftrightarrow> other_is_newer f (Option.bind f (metadata_order_key meta)) cur cc oc"
  by (auto simp: other_is_older_def other_is_newer_def split: option.splits)

lemma older_asym:
  "other_is_older f (Option.bind f (metadata_order_key a)) b bc ac
    \<Longrightarrow> \<not> other_is_older f (Option.bind f (metadata_order_key b)) a ac bc"
  by (auto simp: other_is_older_def dest: option_less_asym split: option.splits)

section \<open>Polling\<close>

lemma wait_loop_polls:
  "calls (est (wait_loop X owner repo sha deadline now x))
    \<le> calls (est x) + Suc ((deadline - now) div poll_interval)"
proof (induction X owner repo sha deadline now x rule: wait_loop.induct)
  case (1 X owner repo sha deadline now x)
  obtain found x1 where l: "lookup (ask (\<lambda>t. commit_exists X t owner repo sha)) x = (found, x1)"
    by fastforce
  have x1: "calls (est x1) = Suc (calls (est x))" using l by (auto simp: lookup_def ask_def)
  let ?now1 = "now + latency X (calls (est x))"
  let ?next = "?now1 + poll_interval + oversleep X (calls (est x))"
  show ?case
  proof (cases "found \<or> deadline \<le> ?now1 + poll_interval")
    case True
    then show ?thesis by (subst wait_loop.simps) (auto simp: l Let_def x1)
  next
    case False
    have "(deadline - ?next) div poll_interval \<le> (deadline - now - poll_interval) div poll_interval"
      by (rule div_le_mono) simp
    moreover have "poll_interval \<le> deadline - now" using False by auto
    ultimately have "Suc ((deadline - ?next) div poll_interval) \<le> (deadline - now) div poll_interval"
      using le_div_geq [of poll_interval "deadline - now"] by (simp add: poll_interval_def)
    moreover have "calls (est (wait_loop X owner repo sha deadline ?next x1))
        \<le> calls (est x1) + Suc ((deadline - ?next) div poll_interval)"
      using "1.IH" [OF l [symmetric] refl] False by simp
    moreover have "wait_loop X owner repo sha deadline now x = wait_loop X owner repo sha deadline ?next x1"
      using False by (subst wait_loop.simps) (auto simp: l Let_def)
    ultimately show ?thesis using x1 by simp
  qed
qed

end
