(* ===== verification/RuleProperties.thy ===== *)
theory RuleProperties
  imports RuleRun RuleClose
begin

text \<open>
  The properties of the rule engine, each with an application to a concrete rule file and a
  concrete outside world, and the facts behind the findings of the development.
\<close>

section \<open>A small world\<close>

definition ex_texts :: text_crates where
  "ex_texts = \<lparr>metadata_capture = (\<lambda>s. if s = [] then None else Some s),
     json_from_str = (\<lambda>s. Some (JObject [(''app'', JString s)])), json_to_string = (\<lambda>v. [])\<rparr>"

definition ex_api_pr :: "u64 \<Rightarrow> int \<Rightarrow> ApiPr" where
  "ex_api_pr n created = \<lparr>ap_number = Some n, ap_author = Some ''bot'', ap_body = Some ''m'',
     ap_is_open = True, ap_merged = None, ap_mergeable = None, ap_head_sha = None,
     ap_created_at = Some created, ap_title = Some ''t'',
     ap_labels = [\<lparr>al_id = Some 1, al_name = Some ''janitor/old''\<rparr>,
       \<lparr>al_id = Some 2, al_name = Some ''bug''\<rparr>],
     ap_base = Some (Some ''main''), ap_head_ref = Some ''topic'', ap_merge_commit_sha = None\<rparr>"

definition ex_clients :: clients where
  "ex_clients = \<lparr>get_pr_changed_files = (\<lambda>t owner repo n. None),
     get_pr = (\<lambda>t owner repo n. Some (ex_api_pr 7 20)),
     is_pr_approved_by_bot = (\<lambda>t owner repo n. False),
     find_bot_comment = (\<lambda>t owner repo n m. None), get_combined_status = (\<lambda>t owner repo sha. None),
     list_open_prs = (\<lambda>t owner repo. Some [ex_api_pr 7 20, ex_api_pr 5 10]),
     get_raw_file = (\<lambda>t owner repo p b. None),
     kustomization = (\<lambda>s. None), committed_at = (\<lambda>t i tag. None),
     app_changed_in_commit = (\<lambda>t owner repo ev. False),
     bool_flag = (\<lambda>t name rn dflt ctx. rn = ''first''), texts = ex_texts,
     globs = (\<lambda>p. Some (\<lambda>s. s = p)), parse_tz = (\<lambda>s. None), parse_hm = (\<lambda>s. None)\<rparr>"

definition ex_actors :: actors where
  "ex_actors = \<lparr>accepts = (\<lambda>t r. True), find_open_issue_by_title = (\<lambda>t owner repo title. Some None),
     commit_exists = (\<lambda>t owner repo sha. False), latency = (\<lambda>t. 0), oversleep = (\<lambda>t. 0)\<rparr>"

definition ex_flag :: Matcher where
  "ex_flag = MLeaf (LFeatureFlag ''merge'' False [])"

definition ex_rule :: "string \<Rightarrow> string list \<Rightarrow> bool \<Rightarrow> RuleDef" where
  "ex_rule name deps dry = \<lparr>ru_name = name, ru_disabled = DBool False, ru_dry_run = dry, ru_priority = 0,
     ru_depends_on = deps, ru_checks = [], ru_when = ex_flag,
     ru_actions = [\<lparr>ag_when = None, ag_serial = None, ag_run = [DComment ''hi'', DMerge SSquash True]\<rparr>]\<rparr>"

definition ex_rules :: "RuleDef list \<Rightarrow> RulesFile" where
  "ex_rules rs = \<lparr>rf_version = 1, rf_repos = [], rf_checks = [], rf_label_colors = [], rf_rules = rs\<rparr>"

definition ex_engine :: "RuleDef list \<Rightarrow> engine" where
  "ex_engine rs = \<lparr>en_rules = ex_rules rs, en_clients = ex_clients, en_actors = ex_actors,
     en_clock = (\<lambda>t. 0), en_failed_job_logs = (\<lambda>t url. []),
     en_workflow_run_name = (\<lambda>t owner repo n. None)\<rparr>"

definition ex_pr :: PrEvent where
  "ex_pr = \<lparr>pe_action = ''opened'', pe_author = ''bot'', pe_owner = ''o'', pe_repo = ''r'',
     pe_pr_number = 7, pe_title = ''t'', pe_body = [], pe_target_branch = ''main'',
     pe_source_branch = ''topic'', pe_labels = [], pe_merged = False, pe_merge_commit_sha = None\<rparr>"

definition ex_state :: wstate where
  "ex_state = \<lparr>eval_log = [], xst = \<lparr>est = cache_new 0, sent = []\<rparr>\<rparr>"

lemmas ex_defs = ex_texts_def ex_api_pr_def ex_clients_def ex_actors_def ex_flag_def ex_rule_def
  ex_rules_def ex_engine_def ex_pr_def ex_state_def

section \<open>Resolution and order\<close>

text \<open>
  C27: Resolution of named checks succeeds exactly when the matcher has a finite expansion, every
  reference replaced by the check it names, and it returns that expansion. So a cycle between
  checks and an unknown check are always rejected, and nothing else is: a check used twice, or
  through several paths, is not taken for a cycle.
\<close>

theorem resolution_is_expansion:
  "resolve_in_matcher locals globals [] m = Ok m' \<longleftrightarrow> (\<exists>h. expands locals globals h m m')"
  by (rule resolve_iff_expands)

text \<open>
  C28: Sorting never panics and returns some of the rules, each once: exactly those that can be
  scheduled, that is, whose dependencies within the file can all be scheduled before them. Rules
  on a dependency cycle, and rules that need them, are left out without an error.
\<close>

theorem rule_order_exact:
  assumes "distinct (map ru_name rules)"
  shows "\<exists>out. topo_sort rules = Some out \<and> mset out \<subseteq># mset rules
    \<and> set out = {r. schedulable rules r}"
proof -
  obtain out where "topo_sort rules = Some out" using topo_sort_total by auto
  with topo_sort_submset topo_sort_schedulable assms show ?thesis by blast
qed

theorem rule_order_exact_witness:
  "\<exists>out. topo_sort [ex_rule ''b'' [''a''] False, ex_rule ''a'' [] False] = Some out
    \<and> mset out \<subseteq># {#ex_rule ''b'' [''a''] False, ex_rule ''a'' [] False#}
    \<and> set out = {r. schedulable [ex_rule ''b'' [''a''] False, ex_rule ''a'' [] False] r}"
  using rule_order_exact [of "[ex_rule ''b'' [''a''] False, ex_rule ''a'' [] False]"]
  by (simp add: ex_rule_def)

text \<open>In the order the rules run in, a rule comes after every rule it depends on.\<close>

theorem dependencies_run_first:
  assumes "topo_sort rules = Some out" "distinct (map ru_name rules)"
    and "i < length out" "q \<in> set rules" "ru_name q \<in> set (ru_depends_on (out ! i))"
  shows "\<exists>j<i. out ! j = q"
proof -
  have "out = take i out @ out ! i # drop (Suc i) out" using assms(3) by (rule id_take_nth_drop)
  from topo_sort_dependency_first [OF assms(1,2) this assms(5,4) refl]
  have "q \<in> set (take i out)" .
  then show ?thesis using assms(3) by (auto simp: in_set_conv_nth)
qed

lemma ex_sorted:
  "topo_sort [ex_rule ''b'' [''a''] False, ex_rule ''a'' [] False]
    = Some [ex_rule ''a'' [] False, ex_rule ''b'' [''a''] False]"
  by code_simp

theorem dependencies_run_first_witness:
  "\<exists>j<1. [ex_rule ''a'' [] False, ex_rule ''b'' [''a''] False] ! j = ex_rule ''a'' [] False"
  by (rule dependencies_run_first [OF ex_sorted]) (simp_all add: ex_rule_def)

lemma cyclic_rules_dropped:
  "topo_sort [ex_rule ''a'' [''b''] False, ex_rule ''b'' [''a''] False, ex_rule ''c'' [] False]
    = Some [ex_rule ''c'' [] False]"
  by code_simp


section \<open>Runs\<close>

text \<open>
  C25: The log of a run is true: every entry is an enabled rule of the file, lists the kind of each
  of its actions once and in order, and every dependency of the rule has an earlier entry in
  which an action ran. A rule whose dependency did not match, was skipped or does not exist
  never runs.
\<close>

theorem runs_after_dependencies:
  assumes "run_rules_with_cache E ev raw w = Some w'"
    and "el_matched_rules (last (eval_log w')) = before @ m # after"
  shows "\<exists>r\<in>set (rf_rules (en_rules E)). mr_name m = ru_name r \<and> \<not> is_disabled (ru_disabled r)
    \<and> map ea_action (mr_actions m) = rule_kinds r
    \<and> (\<forall>d\<in>set (ru_depends_on r). \<exists>m'\<in>set before. mr_name m' = d \<and> list_ex ea_ran (mr_actions m'))"
proof -
  from assms obtain x' where
    "run_loop E ev raw (rf_rules (en_rules E)) [] (xst w) = Some (before @ m # after, x')"
    by (auto simp: run_rules_with_cache_def record_eval_def)
  from run_loop_log [OF this refl] show ?thesis by auto
qed

definition ex_log :: "bool \<Rightarrow> bool \<Rightarrow> string \<Rightarrow> MatchedRule" where
  "ex_log dry did name = \<lparr>mr_name = name, mr_dry_run = dry,
     mr_actions = [\<lparr>ea_action = ''comment'', ea_ran = did\<rparr>, \<lparr>ea_action = ''merge'', ea_ran = did\<rparr>]\<rparr>"

lemma ex_run:
  "map_option (\<lambda>w. (el_matched_rules (last (eval_log w)), sent (xst w)))
     (run_rules_with_cache (ex_engine [ex_rule ''first'' [] False, ex_rule ''second'' [''first''] False])
       (ForgejoPr ex_pr) None ex_state)
   = Some ([ex_log False True ''first'', ex_log False True ''second''],
       [CommentPr ''o'' ''r'' 7 ''hi'', MergePr ''o'' ''r'' 7 DoSquash True,
        CommentPr ''o'' ''r'' 7 ''hi'', MergePr ''o'' ''r'' 7 DoSquash True])"
  by code_simp

theorem runs_after_dependencies_witness:
  "\<exists>r\<in>set [ex_rule ''first'' [] False, ex_rule ''second'' [''first''] False].
     mr_name (ex_log False True ''second'') = ru_name r \<and> \<not> is_disabled (ru_disabled r)
     \<and> map ea_action (mr_actions (ex_log False True ''second'')) = rule_kinds r
     \<and> (\<forall>d\<in>set (ru_depends_on r). \<exists>m'\<in>set [ex_log False True ''first''].
          mr_name m' = d \<and> list_ex ea_ran (mr_actions m'))"
proof -
  let ?E = "ex_engine [ex_rule ''first'' [] False, ex_rule ''second'' [''first''] False]"
  from ex_run obtain w' where w': "run_rules_with_cache ?E (ForgejoPr ex_pr) None ex_state = Some w'"
    and log: "el_matched_rules (last (eval_log w'))
      = [ex_log False True ''first''] @ ex_log False True ''second'' # []" by auto
  have rules: "rf_rules (en_rules ?E) = [ex_rule ''first'' [] False, ex_rule ''second'' [''first''] False]"
    by (simp add: ex_engine_def ex_rules_def)
  from runs_after_dependencies [OF w' log] show ?thesis unfolding rules .
qed

text \<open>
  When no matcher uses an expression and no group is serial, the explanation shown for a
  pull request is what the evaluation right after it does: the same rules match, and the same
  actions run or are skipped, although the outside world and the clock may change in between
  and actions of earlier rules may have changed it.
\<close>

theorem explanation_predicts_run:
  assumes "explain_and_evaluate_pr E pr w = Some (matched, w')" "\<not> ignored pr"
    and "list_all plain_rule (rf_rules (en_rules E))"
  shows "el_matched_rules (last (eval_log w')) = matched"
proof -
  from assms(1,2) obtain x x1 where
    ex: "explain_loop E (ForgejoPr pr) (rf_rules (en_rules E)) [] x = Some (matched, x1)"
    and run: "run_rules_with_cache E (ForgejoPr pr) None (w\<lparr>xst := x1\<rparr>) = Some w'"
    by (auto simp: explain_and_evaluate_pr_def explain_rules_with_cache_def split: option.splits)
  from run obtain ms x2 where
    "run_loop E (ForgejoPr pr) None (rf_rules (en_rules E)) [] x1 = Some (ms, x2)"
    and ms: "el_matched_rules (last (eval_log w')) = ms"
    by (auto simp: run_rules_with_cache_def record_eval_def)
  from loop_predicted [OF ex extends_refl assms(3) this(1)] ms show ?thesis by simp
qed

lemma ex_explain_run:
  "map_option (\<lambda>(ms, w). (ms, sent (xst w)))
     (explain_and_evaluate_pr (ex_engine [ex_rule ''first'' [] False]) ex_pr ex_state)
   = Some ([ex_log False True ''first''],
       [CommentPr ''o'' ''r'' 7 ''hi'', MergePr ''o'' ''r'' 7 DoSquash True])"
  by code_simp

theorem explanation_predicts_run_witness:
  "\<exists>w'. explain_and_evaluate_pr (ex_engine [ex_rule ''first'' [] False]) ex_pr ex_state
      = Some ([ex_log False True ''first''], w')
    \<and> el_matched_rules (last (eval_log w')) = [ex_log False True ''first'']"
proof -
  let ?E = "ex_engine [ex_rule ''first'' [] False]"
  from ex_explain_run obtain w' where
    w': "explain_and_evaluate_pr ?E ex_pr ex_state = Some ([ex_log False True ''first''], w')" by auto
  moreover have "\<not> ignored ex_pr" "list_all plain_rule (rf_rules (en_rules ?E))"
    by (simp_all add: ignored_def ex_defs plain_rule_def rule_matchers_def)
  ultimately show ?thesis using explanation_predicts_run [OF w'] by blast
qed

text \<open>
  C26: Rules that were loaded are never found with an unresolved check: explaining any event
  returns a result, and so does running the rules unless Forgejo reports an issue without a
  number.
\<close>

theorem loaded_rules_never_panic:
  assumes "from_rules rules = Some loaded" "en_rules E = loaded"
  shows "explain_rules E ev w \<noteq> None
    \<and> (issues_numbered (en_actors E) \<longrightarrow> run_rules E ev raw w \<noteq> None)"
  using from_rules_ref_free [OF assms(1)] assms(2) explain_rules_total [of E] run_rules_total [of E]
  by auto

lemma ex_loaded:
  "from_rules (ex_rules [(ex_rule ''a'' [] False)\<lparr>ru_checks := [(''ok'', MNot (MRef ''on'')), (''on'', ex_flag)],
      ru_when := MAll [MRef ''ok'', MRef ''on'']\<rparr>])
    = Some (ex_rules [(ex_rule ''a'' [] False)\<lparr>ru_checks := [(''ok'', MNot (MRef ''on'')), (''on'', ex_flag)],
      ru_when := MAll [MNot ex_flag, ex_flag]\<rparr>])"
  by code_simp

theorem loaded_rules_never_panic_witness:
  "run_rules (ex_engine [(ex_rule ''a'' [] False)\<lparr>ru_checks := [(''ok'', MNot (MRef ''on'')), (''on'', ex_flag)],
      ru_when := MAll [MNot ex_flag, ex_flag]\<rparr>]) (ForgejoPr ex_pr) None ex_state \<noteq> None"
proof -
  let ?E = "ex_engine [(ex_rule ''a'' [] False)\<lparr>ru_checks := [(''ok'', MNot (MRef ''on'')), (''on'', ex_flag)],
      ru_when := MAll [MNot ex_flag, ex_flag]\<rparr>]"
  have "en_rules ?E = ex_rules [(ex_rule ''a'' [] False)\<lparr>ru_checks := [(''ok'', MNot (MRef ''on'')), (''on'', ex_flag)],
      ru_when := MAll [MNot ex_flag, ex_flag]\<rparr>]" by (simp add: ex_engine_def)
  moreover have "issues_numbered (en_actors ?E)" by (simp add: issues_numbered_def ex_engine_def ex_actors_def)
  ultimately show ?thesis using loaded_rules_never_panic [OF ex_loaded] by blast
qed

text \<open>
  A file whose enabled rules are all dry runs sends nothing to any other system, whatever
  matches, serial groups included.
\<close>

theorem dry_run_sends_nothing:
  assumes "run_rules E ev raw w = Some w'"
    and "\<forall>r\<in>set (rf_rules (en_rules E)). \<not> is_disabled (ru_disabled r) \<longrightarrow> ru_dry_run r"
  shows "sent (xst w') = sent (xst w)"
  using assms(1) run_loop_dry [OF assms(2)]
  by (auto simp: run_rules_def prefetched_def run_rules_with_cache_def split: option.splits)


lemma ex_dry_run:
  "map_option (\<lambda>w. (el_matched_rules (last (eval_log w)), sent (xst w)))
     (run_rules (ex_engine [ex_rule ''first'' [] True]) (ForgejoPr ex_pr) None ex_state)
   = Some ([ex_log True True ''first''], [])"
  by code_simp

theorem dry_run_sends_nothing_witness:
  "\<exists>w'. run_rules (ex_engine [ex_rule ''first'' [] True]) (ForgejoPr ex_pr) None ex_state = Some w'
    \<and> el_matched_rules (last (eval_log w')) = [ex_log True True ''first'']
    \<and> sent (xst w') = sent (xst ex_state)"
proof -
  let ?E = "ex_engine [ex_rule ''first'' [] True]"
  from ex_dry_run obtain w' where w': "run_rules ?E (ForgejoPr ex_pr) None ex_state = Some w'"
    "el_matched_rules (last (eval_log w')) = [ex_log True True ''first'']" by auto
  moreover have "\<forall>r\<in>set (rf_rules (en_rules ?E)). \<not> is_disabled (ru_disabled r) \<longrightarrow> ru_dry_run r"
    by (simp add: ex_engine_def ex_rules_def ex_rule_def)
  ultimately show ?thesis using dry_run_sends_nothing [OF w'(1)] by blast
qed

section \<open>Matchers\<close>

text \<open>
  C29: Within one evaluation a matcher without expressions means a boolean formula: whatever the
  outside world answers and whenever it changes its mind, there is one valuation of the leaves,
  the results kept at the end, under which every matcher evaluated so far had its boolean value,
  short cuts of all and any included.
\<close>

theorem matcher_is_boolean:
  assumes "matches C ev rn now m st = Some (b, st')" "plain m"
    and "extends st' final" "valuation_of v final"
  shows "b = holds v m"
  using matches_holds(1) [OF assms(1,2) valuation_of_extends [OF assms(4,3)]] .

theorem matcher_is_boolean_witness:
  "True = holds (\<lambda>leaf. leaf = LFeatureFlag ''merge'' False []) (MAny [MNot ex_flag, ex_flag])"
proof (rule matcher_is_boolean)
  let ?st = "(cache_new 1)\<lparr>matcher_results := [(LFeatureFlag ''merge'' False [], True)]\<rparr>"
  show "matches ex_clients (ForgejoPr ex_pr) ''first'' 0 (MAny [MNot ex_flag, ex_flag]) (cache_new 0)
      = Some (True, ?st)"
    by code_simp
  show "plain (MAny [MNot ex_flag, ex_flag])" by (simp add: ex_flag_def)
  show "extends ?st ?st" by simp
  show "valuation_of (\<lambda>leaf. leaf = LFeatureFlag ''merge'' False []) ?st"
    by (simp add: valuation_of_def cache_new_def)
qed

text \<open>
  The valuation is kept per leaf and not per rule, although a feature flag is asked for the rule:
  with a flag that is on for the rule \<open>first\<close> only, \<open>second\<close> alone does not match, but after
  \<open>first\<close> it does.
\<close>

lemma flag_answer_shared_between_rules:
  "map_option (map mr_name \<circ> fst)
     (explain_rules_with_cache (ex_engine [ex_rule ''second'' [] False]) (ForgejoPr ex_pr) (xst ex_state))
     = Some []"
  "map_option (map mr_name \<circ> fst)
     (explain_rules_with_cache (ex_engine [ex_rule ''first'' [] False, ex_rule ''second'' [] False])
       (ForgejoPr ex_pr) (xst ex_state)) = Some [''first'', ''second'']"
  by code_simp+

section \<open>Actions\<close>

text \<open>
  Closing superseded pull requests by age never touches the pull request it runs for. Every
  request it sends cleans up or closes a pull request that was open, has another number and the
  configured author, carries the same value in each of the matched metadata fields and is
  older.
\<close>

theorem closes_only_superseded:
  assumes "r \<in> set (drop (length (sent x)) (sent (exec_close_other_prs C X (ForgejoPr pr) author Older
      names order_field images tag delete_branch comment x)))"
  shows "\<exists>t u current open_prs other.
      get_pr C t (pe_owner pr) (pe_repo pr) (pe_pr_number pr) = Some current
      \<and> list_open_prs C u (pe_owner pr) (pe_repo pr) = Some open_prs \<and> other \<in> set open_prs
      \<and> superseded (texts C) author names order_field pr current other \<and> closes_other pr other r"
  using close_other_prs_adds [of C pr author names order_field x X images tag delete_branch comment] assms
  by (auto simp: adds_def list_all_iff) blast

lemma ex_close:
  "sent (exec_close_other_prs ex_clients ex_actors (ForgejoPr ex_pr) ''bot'' Older [''app''] None
      ''images'' ''tag'' True None (xst ex_state))
    = [RemoveLabelsByName ''o'' ''r'' 5 [''janitor/old''], SetPrState ''o'' ''r'' 5 ''closed'',
       RemoveBranch ''o'' ''r'' ''topic'']"
  by code_simp

theorem closes_only_superseded_witness:
  "\<exists>t u current open_prs other.
      get_pr ex_clients t ''o'' ''r'' 7 = Some current
      \<and> list_open_prs ex_clients u ''o'' ''r'' = Some open_prs \<and> other \<in> set open_prs
      \<and> superseded (texts ex_clients) ''bot'' [''app''] None ex_pr current other
      \<and> closes_other ex_pr other (SetPrState ''o'' ''r'' 5 ''closed'')"
  using closes_only_superseded [where r = "SetPrState ''o'' ''r'' 5 ''closed''", of "xst ex_state"
      ex_clients ex_actors ex_pr "''bot''" "[''app'']" None "''images''" "''tag''" True None]
  unfolding ex_close by (simp add: ex_state_def ex_pr_def)

text \<open>
  Waiting for a commit to reach GitHub asks at most once every five seconds of the timeout and
  once more, however long calls and sleeps take.
\<close>

theorem github_sync_polls:
  "calls (est (exec_wait_for_github_sync C X ev owner repo sha timeout x))
    \<le> calls (est x) + (unat timeout div 5 + 1)"
proof -
  have "unat timeout * 1000 div poll_interval = unat timeout div 5"
    using div_mult_mult2 [of 1000 "unat timeout" 5] by (simp add: poll_interval_def)
  then show ?thesis
    using wait_loop_polls [of X owner repo _ "unat timeout * 1000" 0 x]
    by (simp add: exec_wait_for_github_sync_def)
qed

section \<open>Templates\<close>

text \<open>
  Variables are substituted one after the other in the order of a hash map, so a value that
  contains a placeholder is expanded in one order and not in the other.
\<close>

lemma rendering_depends_on_order:
  "render_template ''{a}'' [(''a'', ''{b}''), (''b'', ''x'')] = ''x''"
  "render_template ''{a}'' [(''b'', ''x''), (''a'', ''{b}'')] = ''{b}''"
  by code_simp+


section \<open>Authors\<close>

text \<open>
  The author of an event is the sender for a webhook and the author of the pull request for the
  API. With two open pull requests of \<open>bot\<close> for the same application, the older one is not
  the latest when \<open>bot\<close> sent the event, and is when somebody else did.
\<close>

lemma into_pr_event_author: "into_pr_event w = Some pr \<Longrightarrow> wh_sender w = Some (pe_author pr)"
  by (auto simp: into_pr_event_def split: option.splits prod.splits)

lemma from_api_pr_author: "from_api_pr api owner repo = Some pr \<Longrightarrow> ap_author api = Some (pe_author pr)"
  by (auto simp: from_api_pr_def split: option.splits)

definition ex_older :: clients where
  "ex_older = ex_clients\<lparr>get_pr := (\<lambda>t owner repo n. Some (ex_api_pr 7 5))\<rparr>"

lemma sender_hides_newer_prs:
  "fst (is_latest_by_metadata ex_older ex_pr [''app''] None (cache_new 0)) = False"
  "fst (is_latest_by_metadata ex_older (ex_pr\<lparr>pe_author := ''alice''\<rparr>) [''app''] None (cache_new 0)) = True"
  by code_simp+

end
