(* ===== verification/GateConfig.thy ===== *)
theory GateConfig
  imports Text
begin

text \<open>
  The AI gateway's configuration: \<open>platform-services/ai-gateway/src/config.rs\<close>, with the
  provider dialects and model kinds of \<open>providers/mod.rs\<close>. \<open>serde_yaml\<close> is a parameter that
  reads a file into a \<open>FileConfig\<close>; the environment and the file system are functions.
\<close>

section \<open>Dialects and model kinds\<close>

datatype Dialect = Anthropic | OpenAiCompatible

datatype ModelKind = Chat | Embedding

definition dialect_for_sub_path :: "string \<Rightarrow> Dialect" where
  "dialect_for_sub_path sub_path =
     (if ends_with sub_path ''/messages'' then Anthropic else OpenAiCompatible)"

definition kind_for_sub_path :: "string \<Rightarrow> ModelKind" where
  "kind_for_sub_path sub_path =
     (if ends_with sub_path ''/embeddings'' then Embedding else Chat)"

section \<open>Configuration\<close>

record ProviderConfig =
  pc_dialect :: Dialect
  pc_base_url :: string
  pc_api_key_env :: "string option"
  pc_models :: "string list"
  pc_embedding_models :: "string list"
  pc_priority :: "32 word"
  pc_fallback :: bool

record RuleMatch =
  rm_key :: "string option"
  rm_model :: "string option"

record RouteAction =
  ra_provider :: string
  ra_as_model :: "string option"

record ModelRule =
  mr_matcher :: RuleMatch
  mr_set_model :: "string option"
  mr_route :: "RouteAction option"
  mr_deny :: bool

record KeyConfig =
  kc_name :: string
  kc_allowed_models :: "string list"
  kc_monthly_token_budget :: "i64 option"
  kc_revoked :: bool

record FileConfig =
  fl_version :: u32
  fl_providers :: "ProviderConfig hmap"
  fl_keys :: "KeyConfig list"
  fl_rules :: "ModelRule list"

record GateConfig =
  gc_admin_token :: string
  gc_providers :: "ProviderConfig hmap"
  gc_keys :: "KeyConfig list"
  gc_rules :: "ModelRule list"

definition api_key_env :: "ProviderConfig \<Rightarrow> string \<Rightarrow> string" where
  "api_key_env pc name =
     (case pc_api_key_env pc of
        Some v \<Rightarrow> v | None \<Rightarrow> to_uppercase name @ ''_API_KEY'')"

section \<open>Loading\<close>

datatype config_error =
    ReadConfigMap string
  | ParseConfigMap string
  | ParseBakedIn

definition CONFIG_SCHEMA_VERSION :: u32 where
  "CONFIG_SCHEMA_VERSION = 2"

definition baked_in_config :: "(string \<Rightarrow> FileConfig option) \<Rightarrow> string \<Rightarrow> (config_error, FileConfig) result" where
  "baked_in_config yaml config_yaml =
     (case yaml config_yaml of None \<Rightarrow> Err ParseBakedIn | Some f \<Rightarrow> Ok f)"

definition load_file ::
  "(string \<Rightarrow> FileConfig option) \<Rightarrow> string \<Rightarrow> (string \<Rightarrow> string option) \<Rightarrow> (string \<Rightarrow> string option)
     \<Rightarrow> (config_error, FileConfig) result" where
  "load_file yaml config_yaml env read_to_string =
     (case env ''CONFIG_PATH'' of
        None \<Rightarrow> baked_in_config yaml config_yaml
      | Some path \<Rightarrow>
          (case read_to_string path of
             None \<Rightarrow> Err (ReadConfigMap path)
           | Some contents \<Rightarrow>
               (case yaml contents of
                  None \<Rightarrow> Err (ParseConfigMap path)
                | Some file \<Rightarrow>
                    if fl_version file \<noteq> CONFIG_SCHEMA_VERSION then baked_in_config yaml config_yaml
                    else Ok file)))"

definition config_load ::
  "(string \<Rightarrow> FileConfig option) \<Rightarrow> string \<Rightarrow> (string \<Rightarrow> string option) \<Rightarrow> (string \<Rightarrow> string option)
     \<Rightarrow> (config_error, GateConfig) result" where
  "config_load yaml config_yaml env read_to_string =
     (case load_file yaml config_yaml env read_to_string of
        Err e \<Rightarrow> Err e
      | Ok file \<Rightarrow>
          Ok \<lparr>gc_admin_token = (case env ''ADMIN_TOKEN'' of None \<Rightarrow> [] | Some t \<Rightarrow> t),
              gc_providers = fl_providers file, gc_keys = fl_keys file, gc_rules = fl_rules file\<rparr>)"

lemma config_load_version:
  assumes "config_load yaml baked env rd = Ok cfg" "env ''CONFIG_PATH'' = Some path"
  shows "\<exists>f. (yaml baked = Some f
        \<or> (\<exists>c. rd path = Some c \<and> yaml c = Some f \<and> fl_version f = CONFIG_SCHEMA_VERSION))
      \<and> gc_rules cfg = fl_rules f \<and> gc_providers cfg = fl_providers f \<and> gc_keys cfg = fl_keys f"
  using assms
  by (auto simp: config_load_def load_file_def baked_in_config_def
      split: option.splits sum.splits if_splits)

section \<open>Resolving a model\<close>

datatype Resolved = Route string "string option" | Denied

definition rule_match_matches :: "RuleMatch \<Rightarrow> string \<Rightarrow> string \<Rightarrow> bool" where
  "rule_match_matches m key model =
     ((case rm_key m of None \<Rightarrow> True | Some k \<Rightarrow> k = key)
      \<and> (case rm_model m of None \<Rightarrow> True | Some v \<Rightarrow> v = model))"

text \<open>\<open>Config::resolve\<close>: the loop over the rules; a matching rule without an action goes on.\<close>

fun resolve_from :: "ModelRule list \<Rightarrow> string \<Rightarrow> string \<Rightarrow> Resolved" where
  "resolve_from [] key_name requested = Route requested None"
| "resolve_from (r # rs) key_name requested =
     (if \<not> rule_match_matches (mr_matcher r) key_name requested then resolve_from rs key_name requested
      else if mr_deny r then Denied
      else (case mr_route r of
              Some route \<Rightarrow>
                Route (case ra_as_model route of None \<Rightarrow> requested | Some m \<Rightarrow> m)
                  (Some (ra_provider route))
            | None \<Rightarrow>
                (case mr_set_model r of
                   Some model \<Rightarrow> Route model None
                 | None \<Rightarrow> resolve_from rs key_name requested)))"

definition config_resolve :: "GateConfig \<Rightarrow> string \<Rightarrow> string \<Rightarrow> Resolved" where
  "config_resolve cfg key_name requested = resolve_from (gc_rules cfg) key_name requested"

text \<open>The reference: what one rule does, and the first rule that does something.\<close>

definition rule_action :: "ModelRule \<Rightarrow> string \<Rightarrow> Resolved option" where
  "rule_action r requested =
     (if mr_deny r then Some Denied
      else case mr_route r of
        Some route \<Rightarrow> Some (Route (case ra_as_model route of None \<Rightarrow> requested | Some m \<Rightarrow> m)
                              (Some (ra_provider route)))
      | None \<Rightarrow> map_option (\<lambda>m. Route m None) (mr_set_model r))"

definition has_action :: "ModelRule \<Rightarrow> bool" where
  "has_action r \<longleftrightarrow> mr_deny r \<or> mr_route r \<noteq> None \<or> mr_set_model r \<noteq> None"

lemma rule_action_None_iff: "rule_action r requested = None \<longleftrightarrow> \<not> has_action r"
  by (auto simp: rule_action_def has_action_def split: option.splits)

lemma resolve_from_Cons:
  "resolve_from (r # rs) key m =
     (if rule_match_matches (mr_matcher r) key m
      then (case rule_action r m of Some a \<Rightarrow> a | None \<Rightarrow> resolve_from rs key m)
      else resolve_from rs key m)"
  by (simp add: rule_action_def split: option.splits)

declare resolve_from.simps(2) [simp del]

lemma resolve_from_find:
  "resolve_from rs key m =
     (case find (\<lambda>r. rule_match_matches (mr_matcher r) key m \<and> has_action r) rs of
        None \<Rightarrow> Route m None
      | Some r \<Rightarrow> the (rule_action r m))"
proof (induction rs)
  case Nil
  show ?case by simp
next
  case (Cons r rs)
  then show ?case
    using rule_action_None_iff [of r m] by (auto simp: resolve_from_Cons split: option.splits)
qed

section \<open>Advertising models\<close>

text \<open>
  \<open>Config::advertise\<close> on the \<open>BTreeMap\<close> from model to owner, kept here as a map whose order
  is irrelevant; \<open>list_models\<close> below puts it in key order.
\<close>

definition advertise_rule :: "ModelRule \<Rightarrow> string hmap \<Rightarrow> string hmap" where
  "advertise_rule r models =
     (if rm_key (mr_matcher r) \<noteq> None then models
      else (case rm_model (mr_matcher r) of
              None \<Rightarrow> models
            | Some model \<Rightarrow>
                if mr_deny r then AList.delete model models
                else (case mr_route r of
                        Some route \<Rightarrow> hinsert model (ra_provider route) models
                      | None \<Rightarrow>
                          (case mr_set_model r of
                             Some target \<Rightarrow>
                               hinsert model (case hget models target of None \<Rightarrow> [] | Some p \<Rightarrow> p) models
                           | None \<Rightarrow> models))))"

definition advertise :: "GateConfig \<Rightarrow> string hmap \<Rightarrow> string hmap" where
  "advertise cfg models = fold advertise_rule (gc_rules cfg) models"

definition names_model :: "string \<Rightarrow> ModelRule \<Rightarrow> bool" where
  "names_model m r \<longleftrightarrow> rm_key (mr_matcher r) = None \<and> rm_model (mr_matcher r) = Some m \<and> has_action r"

lemma advertise_rule_other: "\<not> names_model m r \<Longrightarrow> hget (advertise_rule r models) m = hget models m"
  by (auto simp: advertise_rule_def names_model_def has_action_def update_conv' delete_conv'
      split: option.splits)

lemma fold_advertise_other:
  "\<forall>r\<in>set rs. \<not> names_model m r \<Longrightarrow> hget (fold advertise_rule rs models) m = hget models m"
  by (induction rs arbitrary: models) (simp_all add: advertise_rule_other)

lemma advertise_rule_same:
  "names_model m r \<Longrightarrow>
     hget (advertise_rule r models) m =
       (case the (rule_action r m) of
          Denied \<Rightarrow> None
        | Route m' (Some p) \<Rightarrow> Some p
        | Route m' None \<Rightarrow> Some (case hget models m' of None \<Rightarrow> [] | Some p \<Rightarrow> p))"
  by (auto simp: advertise_rule_def names_model_def has_action_def rule_action_def update_conv'
      delete_conv' split: option.splits)

text \<open>A rule list in which the first match for a model is also its only one.\<close>

fun one_rule_per_model :: "ModelRule list \<Rightarrow> bool" where
  "one_rule_per_model [] = True"
| "one_rule_per_model (r # rs) =
     ((rm_key (mr_matcher r) = None \<and> has_action r \<longrightarrow>
        (case rm_model (mr_matcher r) of
           None \<Rightarrow> False
         | Some m \<Rightarrow> list_all (\<lambda>s. \<not> names_model m s) rs))
      \<and> one_rule_per_model rs)"

lemma unnamed_key_matches:
  assumes "one_rule_per_model (r # rs)" "rm_key (mr_matcher r) \<noteq> Some key" "has_action r"
  shows "rule_match_matches (mr_matcher r) key m \<longleftrightarrow> names_model m r"
  using assms by (auto simp: rule_match_matches_def names_model_def split: option.splits)

lemma advertise_resolve:
  assumes "one_rule_per_model rs" "\<forall>r\<in>set rs. rm_key (mr_matcher r) \<noteq> Some key"
  shows "case resolve_from rs key m of
      Denied \<Rightarrow> hget (fold advertise_rule rs models) m = None
    | Route m' (Some p) \<Rightarrow> hget (fold advertise_rule rs models) m = Some p
    | Route m' None \<Rightarrow>
        if list_ex (names_model m) rs then hget (fold advertise_rule rs models) m \<noteq> None
        else m' = m \<and> hget (fold advertise_rule rs models) m = hget models m"
  using assms
proof (induction rs arbitrary: models)
  case Nil
  show ?case by simp
next
  case (Cons r rs)
  show ?case
  proof (cases "names_model m r")
    case True
    then have act: "has_action r" and rest: "\<forall>s\<in>set rs. \<not> names_model m s"
      using Cons.prems(1) by (auto simp: names_model_def list_all_iff)
    have "rule_match_matches (mr_matcher r) key m"
      using True Cons.prems unnamed_key_matches [OF Cons.prems(1) _ act] by simp
    moreover obtain a where a: "rule_action r m = Some a"
      using act rule_action_None_iff [of r m] by auto
    ultimately have "resolve_from (r # rs) key m = a" by (simp add: resolve_from_Cons)
    then show ?thesis
      using True a by (simp add: fold_advertise_other [OF rest] advertise_rule_same
          split: Resolved.splits option.splits)
  next
    case False
    have "rule_match_matches (mr_matcher r) key m \<Longrightarrow> rule_action r m = None"
      using False unnamed_key_matches [OF Cons.prems(1)] Cons.prems(2) rule_action_None_iff [of r m]
      by auto
    then have "resolve_from (r # rs) key m = resolve_from rs key m"
      by (auto simp: resolve_from_Cons)
    moreover have "hget (advertise_rule r models) m = hget models m"
      by (rule advertise_rule_other [OF False])
    moreover have "list_ex (names_model m) (r # rs) = list_ex (names_model m) rs"
      using False by simp
    moreover have "fold advertise_rule (r # rs) models = fold advertise_rule rs (advertise_rule r models)"
      by simp
    moreover have "one_rule_per_model rs" "\<forall>r\<in>set rs. rm_key (mr_matcher r) \<noteq> Some key"
      using Cons.prems by simp_all
    ultimately show ?thesis
      using Cons.IH [of "advertise_rule r models"] by (simp only:)
  qed
qed

text \<open>
  With two rules for one model the two disagree: the request takes the first one, the listing
  ends with the last one.
\<close>

definition rule_for :: "string \<Rightarrow> RouteAction option \<Rightarrow> bool \<Rightarrow> ModelRule" where
  "rule_for model route deny =
     \<lparr>mr_matcher = \<lparr>rm_key = None, rm_model = Some model\<rparr>, mr_set_model = None, mr_route = route,
      mr_deny = deny\<rparr>"

lemma advertise_disagrees:
  "resolve_from [rule_for ''m'' None True,
      rule_for ''m'' (Some \<lparr>ra_provider = ''p'', ra_as_model = None\<rparr>) False] ''k'' ''m'' = Denied
   \<and> hget (fold advertise_rule [rule_for ''m'' None True,
      rule_for ''m'' (Some \<lparr>ra_provider = ''p'', ra_as_model = None\<rparr>) False] []) ''m'' = Some ''p''"
  by (simp add: resolve_from_Cons rule_action_def rule_for_def rule_match_matches_def
      advertise_rule_def)

end
