(* ===== verification/GateRegistry.thy ===== *)
theory GateRegistry
  imports GateConfig "HOL-Library.Product_Lexorder" "HOL-Library.Multiset"
begin

text \<open>
  Upstream providers and the routing table of the AI gateway: \<open>providers/registry.rs\<close> and the
  provider structs of \<open>providers/anthropic.rs\<close> and \<open>providers/openai.rs\<close>. The list order of
  \<open>gc_providers\<close> is the order in which one run iterates over the \<open>HashMap\<close>.
\<close>

section \<open>Providers\<close>

text \<open>Name, base URL and API key; an Anthropic provider also has its API version.\<close>

datatype Provider =
    AnthropicProvider string string string string
  | OpenAiProvider string string string

fun provider_name :: "Provider \<Rightarrow> string" where
  "provider_name (AnthropicProvider name base_url api_key version) = name"
| "provider_name (OpenAiProvider name base_url api_key) = name"

fun provider_dialect :: "Provider \<Rightarrow> Dialect" where
  "provider_dialect (AnthropicProvider name base_url api_key version) = Anthropic"
| "provider_dialect (OpenAiProvider name base_url api_key) = OpenAiCompatible"

definition anthropic_new ::
  "(string \<Rightarrow> string option) \<Rightarrow> string \<Rightarrow> string \<Rightarrow> string \<Rightarrow> Provider" where
  "anthropic_new env name base_url api_key =
     AnthropicProvider name base_url api_key
       (case env ''ANTHROPIC_VERSION'' of None \<Rightarrow> ''2023-06-01'' | Some v \<Rightarrow> v)"

definition env_value :: "(string \<Rightarrow> string option) \<Rightarrow> string \<Rightarrow> string option" where
  "env_value env name =
     (case env name of None \<Rightarrow> None | Some v \<Rightarrow> if v = [] then None else Some v)"

text \<open>The provider of one configuration entry, unless its key is unset.\<close>

definition make_provider ::
  "(string \<Rightarrow> string option) \<Rightarrow> string \<Rightarrow> ProviderConfig \<Rightarrow> Provider option" where
  "make_provider env name pc =
     (case env_value env (api_key_env pc name) of
        None \<Rightarrow> None
      | Some key \<Rightarrow>
          (let base = trim_end_slashes (pc_base_url pc)
           in Some (case pc_dialect pc of
                      Anthropic \<Rightarrow> anthropic_new env name base key
                    | OpenAiCompatible \<Rightarrow> OpenAiProvider name base key)))"

lemma make_provider_name: "make_provider env name pc = Some p \<Longrightarrow> provider_name p = name"
  by (auto simp: make_provider_def anthropic_new_def Let_def split: option.splits Dialect.splits)

section \<open>The registry\<close>

type_synonym route = "string \<times> ModelKind"

record Registry =
  rg_providers :: "Provider hmap"
  rg_routes :: "(route \<times> string list) list"
  rg_fallbacks :: "string list"

text \<open>\<open>routes.entry(route).or_default().push(name)\<close>\<close>

definition push_route :: "string \<Rightarrow> route \<Rightarrow> (route \<times> string list) list \<Rightarrow> (route \<times> string list) list" where
  "push_route name route routes =
     AList.update route ((case map_of routes route of None \<Rightarrow> [] | Some ns \<Rightarrow> ns) @ [name]) routes"

definition declared_routes :: "ProviderConfig \<Rightarrow> route list" where
  "declared_routes pc =
     map (\<lambda>m. (m, Chat)) (pc_models pc) @ map (\<lambda>m. (m, Embedding)) (pc_embedding_models pc)"

text \<open>One turn of the loop over the configured providers.\<close>

definition register ::
  "(string \<Rightarrow> string option) \<Rightarrow> string \<times> ProviderConfig \<Rightarrow> Registry \<Rightarrow> Registry" where
  "register env entry rg =
     (let (name, pc) = entry;
          fallbacks = (if pc_fallback pc then rg_fallbacks rg @ [name] else rg_fallbacks rg);
          routes = fold (push_route name) (declared_routes pc) (rg_routes rg)
      in \<lparr>rg_providers = (case make_provider env name pc of
                            None \<Rightarrow> rg_providers rg
                          | Some p \<Rightarrow> hinsert name p (rg_providers rg)),
          rg_routes = routes, rg_fallbacks = fallbacks\<rparr>)"

definition priority_of :: "GateConfig \<Rightarrow> string \<Rightarrow> int" where
  "priority_of cfg name =
     (case hget (gc_providers cfg) name of None \<Rightarrow> 2 ^ 31 - 1 | Some pc \<Rightarrow> sint (pc_priority pc))"

definition by_priority :: "GateConfig \<Rightarrow> string list \<Rightarrow> string list" where
  "by_priority cfg = sort_key (\<lambda>name. (priority_of cfg name, name))"

definition from_config :: "(string \<Rightarrow> string option) \<Rightarrow> GateConfig \<Rightarrow> Registry" where
  "from_config env cfg =
     (let rg = fold (register env) (gc_providers cfg)
                 \<lparr>rg_providers = [], rg_routes = [], rg_fallbacks = []\<rparr>
      in rg\<lparr>rg_routes := map (\<lambda>(r, ns). (r, by_priority cfg ns)) (rg_routes rg),
            rg_fallbacks := by_priority cfg (rg_fallbacks rg)\<rparr>)"

definition registry_get :: "Registry \<Rightarrow> string \<Rightarrow> Provider option" where
  "registry_get rg name = hget (rg_providers rg) name"

definition providers_for_model :: "Registry \<Rightarrow> string \<Rightarrow> ModelKind \<Rightarrow> Provider list" where
  "providers_for_model rg model kind =
     (let declared = List.map_filter (registry_get rg)
            (case map_of (rg_routes rg) (model, kind) of None \<Rightarrow> [] | Some ns \<Rightarrow> ns)
      in if declared \<noteq> [] then declared
         else List.map_filter (registry_get rg) (rg_fallbacks rg))"

definition registry_names :: "Registry \<Rightarrow> string list" where
  "registry_names rg = hkeys (rg_providers rg)"

text \<open>\<open>models\<close>: the first route of a model in the iteration order of the map decides.\<close>

definition models_step :: "route \<times> string list \<Rightarrow> string hmap \<Rightarrow> string hmap" where
  "models_step entry by_model =
     (case snd entry of
        [] \<Rightarrow> by_model
      | primary # _ \<Rightarrow>
          if hget by_model (fst (fst entry)) = None
          then hinsert (fst (fst entry)) primary by_model else by_model)"

definition registry_models :: "Registry \<Rightarrow> (string \<times> string) list" where
  "registry_models rg = sort_key fst (fold models_step (rg_routes rg) [])"

section \<open>What the loop builds\<close>

lemma push_route_get:
  "map_of (push_route name r routes) r' =
     (if r' = r then Some ((case map_of routes r of None \<Rightarrow> [] | Some ns \<Rightarrow> ns) @ [name])
      else map_of routes r')"
  by (simp add: push_route_def update_conv')

definition route_names :: "(route \<times> string list) list \<Rightarrow> route \<Rightarrow> string list" where
  "route_names routes r = (case map_of routes r of None \<Rightarrow> [] | Some ns \<Rightarrow> ns)"

lemma route_names_push:
  "route_names (push_route name r routes) r' = route_names routes r' @ (if r' = r then [name] else [])"
  by (simp add: route_names_def push_route_get)

lemma route_names_fold_push:
  "route_names (fold (push_route name) rs routes) r =
     route_names routes r @ replicate (count_list rs r) name"
  by (induction rs arbitrary: routes) (simp_all add: route_names_push)

definition declarers :: "(string \<times> ProviderConfig) list \<Rightarrow> route \<Rightarrow> string list" where
  "declarers ps r =
     concat (map (\<lambda>(name, pc). replicate (count_list (declared_routes pc) r) name) ps)"

lemma register_routes:
  "route_names (rg_routes (fold (register env) ps rg)) r = route_names (rg_routes rg) r @ declarers ps r"
proof (induction ps arbitrary: rg)
  case Nil
  show ?case by (simp add: declarers_def)
next
  case (Cons p ps)
  obtain name pc where p: "p = (name, pc)" by (cases p)
  have "rg_routes (register env p rg) = fold (push_route name) (declared_routes pc) (rg_routes rg)"
    by (simp add: p register_def Let_def)
  then show ?case
    using Cons.IH [of "register env p rg"] by (simp add: route_names_fold_push declarers_def p)
qed

lemma register_fallbacks:
  "rg_fallbacks (fold (register env) ps rg) =
     rg_fallbacks rg @ map fst (filter (\<lambda>(name, pc). pc_fallback pc) ps)"
  by (induction ps arbitrary: rg) (auto simp: register_def Let_def)

lemma register_providers:
  assumes "distinct (map fst ps)"
  shows "hget (rg_providers (fold (register env) ps rg)) n =
     (case hget ps n of
        None \<Rightarrow> hget (rg_providers rg) n
      | Some pc \<Rightarrow> (case make_provider env n pc of None \<Rightarrow> hget (rg_providers rg) n | Some p \<Rightarrow> Some p))"
  using assms
proof (induction ps arbitrary: rg)
  case Nil
  show ?case by simp
next
  case (Cons e ps)
  obtain name pc where e: "e = (name, pc)" by (cases e)
  have one: "hget (rg_providers (register env e rg)) n =
      (if n = name then (case make_provider env name pc of None \<Rightarrow> hget (rg_providers rg) n | Some p \<Rightarrow> Some p)
       else hget (rg_providers rg) n)"
    by (simp add: e register_def Let_def update_conv' split: option.split)
  have fresh: "n = name \<Longrightarrow> hget ps n = None"
    using Cons.prems by (simp add: e map_of_eq_None_iff)
  show ?case
    using Cons.IH [of "register env e rg"] Cons.prems one fresh by (auto simp: e split: option.split)
qed

lemma map_of_map_value: "map_of (map (\<lambda>(k, v). (k, f v)) xs) k = map_option f (map_of xs k)"
  by (induction xs) auto

lemma from_config_routes:
  "route_names (rg_routes (from_config env cfg)) r = by_priority cfg (declarers (gc_providers cfg) r)"
proof -
  have "route_names (map (\<lambda>(r, ns). (r, by_priority cfg ns)) routes) r = by_priority cfg (route_names routes r)"
    for routes
    by (auto simp: route_names_def map_of_map_value by_priority_def split: option.split)
  then show ?thesis
    by (simp add: from_config_def Let_def register_routes) (simp add: route_names_def)
qed

lemma from_config_fallbacks:
  "rg_fallbacks (from_config env cfg) =
     by_priority cfg (map fst (filter (\<lambda>(name, pc). pc_fallback pc) (gc_providers cfg)))"
  by (simp add: from_config_def Let_def register_fallbacks)

lemma from_config_get:
  "hwf (gc_providers cfg) \<Longrightarrow>
     registry_get (from_config env cfg) n =
       Option.bind (hget (gc_providers cfg) n) (make_provider env n)"
  by (simp add: from_config_def Let_def registry_get_def register_providers split: option.split)

lemma providers_for_model_alt:
  "providers_for_model rg model kind =
     (let declared = List.map_filter (registry_get rg) (route_names (rg_routes rg) (model, kind))
      in if declared \<noteq> [] then declared else List.map_filter (registry_get rg) (rg_fallbacks rg))"
  by (simp add: providers_for_model_def route_names_def)

section \<open>Order and independence of the iteration order\<close>

lemma filter_same_mset: "mset xs = mset ys \<Longrightarrow> filter (\<lambda>x. k = x) xs = filter (\<lambda>x. k = x) ys"
proof -
  assume "mset xs = mset ys"
  then have "mset (filter (\<lambda>x. k = x) xs) = mset (filter (\<lambda>x. k = x) ys)" by simp
  then have "length (filter (\<lambda>x. k = x) xs) = length (filter (\<lambda>x. k = x) ys)"
    by (metis size_mset)
  then show ?thesis by (metis replicate_length_filter)
qed

lemma by_priority_cong:
  assumes "mset xs = mset ys" "\<And>n. priority_of c n = priority_of d n"
  shows "by_priority c xs = by_priority d ys"
proof -
  have prio: "priority_of c = priority_of d" using assms(2) by (rule ext)
  show ?thesis
    unfolding by_priority_def prio
  proof (rule properties_for_sort_key)
    show "mset (sort_key (\<lambda>n. (priority_of d n, n)) ys) = mset xs" using assms(1) by simp
    show "filter (\<lambda>x. (priority_of d k, k) = (priority_of d x, x)) (sort_key (\<lambda>n. (priority_of d n, n)) ys) =
        filter (\<lambda>x. (priority_of d k, k) = (priority_of d x, x)) xs" for k
    proof -
      have "(\<lambda>x. (priority_of d k, k) = (priority_of d x, x)) = (\<lambda>x. k = x)" by auto
      then show ?thesis
        using filter_same_mset [of "sort_key (\<lambda>n. (priority_of d n, n)) ys" xs k] assms(1) by simp
    qed
    show "sorted (map (\<lambda>n. (priority_of d n, n)) (sort_key (\<lambda>n. (priority_of d n, n)) ys))" by simp
  qed
qed

lemma sorted_by_priority: "sorted (map (\<lambda>n. (priority_of cfg n, n)) (by_priority cfg ns))"
  by (simp add: by_priority_def)

lemma set_by_priority [simp]: "set (by_priority cfg ns) = set ns"
  by (simp add: by_priority_def)

lemma sorted_map_filter_names:
  "sorted (map g xs) \<Longrightarrow> (\<And>x y. f x = Some y \<Longrightarrow> h y = x) \<Longrightarrow> sorted (map (\<lambda>y. g (h y)) (List.map_filter f xs))"
proof (induction xs)
  case Nil
  show ?case by (simp add: map_filter_simps)
next
  case (Cons x xs)
  have rest: "sorted (map (\<lambda>y. g (h y)) (List.map_filter f xs))"
    using Cons by simp
  show ?case
  proof (cases "f x")
    case None
    then show ?thesis using rest by (simp add: map_filter_simps)
  next
    case (Some y)
    have "g x \<le> g (h z)" if z: "z \<in> set (List.map_filter f xs)" for z
    proof -
      obtain w where "w \<in> set xs" "f w = Some z" using z by (auto simp: map_filter_def)
      then show ?thesis using Cons.prems by auto
    qed
    then show ?thesis using rest Some Cons.prems(2) by (simp add: map_filter_simps)
  qed
qed

lemma registry_get_name:
  "hwf (gc_providers cfg) \<Longrightarrow> registry_get (from_config env cfg) n = Some p \<Longrightarrow> provider_name p = n"
  by (auto simp: from_config_get bind_eq_Some_conv dest: make_provider_name)

lemma providers_sorted:
  assumes "hwf (gc_providers cfg)"
  shows "sorted (map (\<lambda>p. (priority_of cfg (provider_name p), provider_name p))
      (providers_for_model (from_config env cfg) model kind))"
proof -
  have "sorted (map (\<lambda>p. (priority_of cfg (provider_name p), provider_name p))
      (List.map_filter (registry_get (from_config env cfg)) (by_priority cfg ns)))" for ns
    using sorted_map_filter_names [OF sorted_by_priority [of cfg ns], of
        "registry_get (from_config env cfg)" provider_name] registry_get_name [OF assms]
    by blast
  then show ?thesis
    by (simp add: providers_for_model_alt from_config_routes from_config_fallbacks Let_def)
qed

text \<open>Which providers a request can reach: the enabled declarers, else the enabled fallbacks.\<close>

definition enabled ::
  "(string \<Rightarrow> string option) \<Rightarrow> GateConfig \<Rightarrow> string \<Rightarrow> ProviderConfig \<Rightarrow> bool" where
  "enabled env cfg name pc \<longleftrightarrow>
     (name, pc) \<in> set (gc_providers cfg) \<and> env_value env (api_key_env pc name) \<noteq> None"

definition declares :: "ProviderConfig \<Rightarrow> string \<Rightarrow> ModelKind \<Rightarrow> bool" where
  "declares pc model kind \<longleftrightarrow>
     model \<in> set (case kind of Chat \<Rightarrow> pc_models pc | Embedding \<Rightarrow> pc_embedding_models pc)"

lemma declares_iff: "declares pc model kind \<longleftrightarrow> (model, kind) \<in> set (declared_routes pc)"
  by (auto simp: declares_def declared_routes_def split: ModelKind.splits)

lemma count_list_pos: "count_list xs x = 0 \<longleftrightarrow> x \<notin> set xs"
  by (induction xs) auto

lemma in_declarers:
  "n \<in> set (declarers ps (model, kind)) \<longleftrightarrow> (\<exists>pc. (n, pc) \<in> set ps \<and> declares pc model kind)"
  by (force simp: declarers_def declares_iff count_list_pos)

lemma registry_get_iff:
  assumes "hwf (gc_providers cfg)"
  shows "(\<exists>p. registry_get (from_config env cfg) n = Some p) \<longleftrightarrow> (\<exists>pc. enabled env cfg n pc)"
proof -
  have "hget (gc_providers cfg) n = Some pc \<longleftrightarrow> (n, pc) \<in> set (gc_providers cfg)" for pc
    using assms by (simp add: map_of_eq_Some_iff)
  moreover have "(\<exists>p. make_provider env n pc = Some p) \<longleftrightarrow> env_value env (api_key_env pc n) \<noteq> None" for pc
    by (auto simp: make_provider_def Let_def split: option.split)
  ultimately show ?thesis
    unfolding enabled_def from_config_get [OF assms] bind_eq_Some_conv by blast
qed

lemma in_enabled_names:
  assumes "hwf (gc_providers cfg)"
  shows "provider_name ` set (List.map_filter (registry_get (from_config env cfg)) ns) =
     {n \<in> set ns. \<exists>pc. enabled env cfg n pc}"
proof -
  have "provider_name ` set (List.map_filter (registry_get (from_config env cfg)) ns) =
      {n \<in> set ns. \<exists>p. registry_get (from_config env cfg) n = Some p}"
    using registry_get_name [OF assms] by (force simp: map_filter_def)
  then show ?thesis by (simp only: registry_get_iff [OF assms])
qed

lemma providers_reach:
  assumes wf': "hwf (gc_providers cfg)"
  shows "provider_name ` set (providers_for_model (from_config env cfg) model kind) =
     (if \<exists>n pc. enabled env cfg n pc \<and> declares pc model kind
      then {n. \<exists>pc. enabled env cfg n pc \<and> declares pc model kind}
      else {n. \<exists>pc. enabled env cfg n pc \<and> pc_fallback pc})"
proof -
  let ?get = "registry_get (from_config env cfg)"
  let ?d = "by_priority cfg (declarers (gc_providers cfg) (model, kind))"
  have uniq: "enabled env cfg n pc \<Longrightarrow> (n, pc') \<in> set (gc_providers cfg) \<Longrightarrow> pc' = pc" for n pc pc'
    using wf' unfolding enabled_def by (metis eq_key_imp_eq_value)
  have d: "provider_name ` set (List.map_filter ?get ?d) =
      {n. \<exists>pc. enabled env cfg n pc \<and> declares pc model kind}"
    unfolding in_enabled_names [OF wf'] set_by_priority
    using uniq by (auto simp: in_declarers) (auto simp: enabled_def)
  have f: "provider_name ` set (List.map_filter ?get
        (by_priority cfg (map fst (filter (\<lambda>(n, pc). pc_fallback pc) (gc_providers cfg))))) =
      {n. \<exists>pc. enabled env cfg n pc \<and> pc_fallback pc}"
    unfolding in_enabled_names [OF wf'] set_by_priority
    using uniq by (auto simp: image_iff) (force simp: enabled_def)
  have "List.map_filter ?get ?d \<noteq> [] \<longleftrightarrow> (\<exists>n pc. enabled env cfg n pc \<and> declares pc model kind)"
  proof -
    have "List.map_filter ?get ?d = [] \<longleftrightarrow> provider_name ` set (List.map_filter ?get ?d) = {}" by simp
    then show ?thesis unfolding d by blast
  qed
  then show ?thesis
    by (simp add: providers_for_model_alt from_config_routes from_config_fallbacks Let_def d f) blast
qed

lemma registry_order_independent:
  assumes "hwf (gc_providers c)" "mset (gc_providers c) = mset (gc_providers d)"
  shows "providers_for_model (from_config env c) model kind =
    providers_for_model (from_config env d) model kind"
proof -
  have wf': "hwf (gc_providers d)" using assms by (metis mset_eq_imp_distinct_iff mset_map)
  have get: "hget (gc_providers c) n = hget (gc_providers d) n" for n
    using assms wf' by (metis map_of_eqI map_of_eq_Some_iff mset_eq_setD option.exhaust)
  have prio: "priority_of c n = priority_of d n" for n by (simp add: priority_of_def get)
  have "registry_get (from_config env c) = registry_get (from_config env d)"
    using assms wf' by (simp add: fun_eq_iff from_config_get get)
  moreover have "mset (declarers (gc_providers c) r) = mset (declarers (gc_providers d) r)" for r
  proof -
    let ?f = "\<lambda>e :: string \<times> ProviderConfig. mset (case e of (name, pc) \<Rightarrow> replicate (count_list (declared_routes pc) r) name)"
    have "mset (declarers ps r) = sum_mset (image_mset ?f (mset ps))" for ps
      by (simp add: declarers_def mset_concat comp_def flip: sum_mset_sum_list)
    then show ?thesis using assms(2) by simp
  qed
  moreover have "by_priority c (map fst (filter (\<lambda>(n, pc). pc_fallback pc) (gc_providers c))) =
      by_priority d (map fst (filter (\<lambda>(n, pc). pc_fallback pc) (gc_providers d)))"
    using assms(2) by (intro by_priority_cong [OF _ prio]) simp
  moreover have "by_priority c (declarers (gc_providers c) r) = by_priority d (declarers (gc_providers d) r)"
    if "mset (declarers (gc_providers c) r) = mset (declarers (gc_providers d) r)" for r
    using that by (rule by_priority_cong [OF _ prio])
  ultimately show ?thesis
    by (simp only: providers_for_model_alt from_config_routes from_config_fallbacks Let_def)
qed

end
