(* ===== verification/GateRequest.thy ===== *)
theory GateRequest
  imports GateRegistry
begin

text \<open>
  What the AI gateway reads and writes: request bodies and token usage (\<open>providers/mod.rs\<close>,
  \<open>providers/anthropic.rs\<close>, \<open>providers/openai.rs\<close>), errors (\<open>error.rs\<close>), translation between the
  dialects (\<open>providers/translate\<close>). \<open>serde_json\<close>'s reader and writer and the conversions of
  \<open>llm-bridge-core\<close> are the fields of \<open>wire\<close>; a body is its list of bytes.
\<close>

section \<open>Third-party conversions\<close>

text \<open>
  The conversions take the path of the request and a body, and return a body or the message of
  the error. \<open>stream_to\<close> is \<open>transform_stream\<close> and \<open>transform_stream_to_openai\<close>, by target.
\<close>

record 's wire =
  from_slice :: "string \<Rightarrow> (string, json) result"
  to_vec :: "json \<Rightarrow> (string, string) result"
  anthropic_to_openai :: "string \<Rightarrow> string \<Rightarrow> (string, string) result"
  openai_to_anthropic :: "string \<Rightarrow> string \<Rightarrow> (string, string) result"
  openai_response_to_anthropic :: "string \<Rightarrow> string \<Rightarrow> (string, string) result"
  anthropic_response_to_openai :: "string \<Rightarrow> string \<Rightarrow> (string, string) result"
  stream_to :: "Dialect \<Rightarrow> Dialect \<Rightarrow> string \<Rightarrow> 's \<Rightarrow> string option \<times> 's"
  stream_default :: 's

section \<open>Errors\<close>

datatype GatewayError =
    MissingKey
  | InvalidKey
  | ModelNotAllowed string string
  | ModelDenied string
  | BudgetExceeded string
  | NoProvider string
  | Disabled
  | BadRequest string
  | Upstream string
  | Database string

fun error_status :: "GatewayError \<Rightarrow> nat" where
  "error_status MissingKey = 401"
| "error_status InvalidKey = 401"
| "error_status (ModelNotAllowed _ _) = 403"
| "error_status (ModelDenied _) = 403"
| "error_status (BudgetExceeded _) = 429"
| "error_status (NoProvider _) = 400"
| "error_status (BadRequest _) = 400"
| "error_status Disabled = 503"
| "error_status (Upstream _) = 502"
| "error_status (Database _) = 500"

fun error_message :: "GatewayError \<Rightarrow> string" where
  "error_message MissingKey = ''missing or malformed Authorization header''"
| "error_message InvalidKey = ''invalid or revoked api key''"
| "error_message (ModelNotAllowed k m) = ''key '' @ k @ '' is not allowed to use model '' @ m"
| "error_message (ModelDenied m) = ''model '' @ m @ '' is denied by config''"
| "error_message (BudgetExceeded k) = ''key '' @ k @ '' has exceeded its monthly token budget''"
| "error_message (NoProvider m) = ''no provider configured for model '' @ m"
| "error_message Disabled = ''gateway disabled by feature flag''"
| "error_message (BadRequest e) = ''bad request: '' @ e"
| "error_message (Upstream e) = ''upstream request failed: '' @ e"
| "error_message (Database e) = ''database error: '' @ e"

record Response =
  rp_status :: nat
  rp_headers :: "(string \<times> string) list"
  rp_body :: json

text \<open>\<open>GatewayError::into_response\<close>\<close>

definition error_response :: "GatewayError \<Rightarrow> Response" where
  "error_response e =
     \<lparr>rp_status = error_status e,
      rp_headers = (if error_status e = 503 then [(''Retry-After'', ''30'')] else []),
      rp_body = JObject [(''error'', JObject [(''message'', JString (error_message e)),
                                              (''type'', JString ''ai_gateway_error'')])]\<rparr>"

section \<open>Request bodies\<close>

definition json_get :: "string \<Rightarrow> json \<Rightarrow> json option" where
  "json_get k v = (case v of JObject es \<Rightarrow> map_of es k | _ \<Rightarrow> None)"

text \<open>\<open>v[k] = x\<close>: into a sorted map; a null becomes an object, any other value panics.\<close>

fun obj_insert :: "string \<Rightarrow> json \<Rightarrow> (string \<times> json) list \<Rightarrow> (string \<times> json) list" where
  "obj_insert k v [] = [(k, v)]"
| "obj_insert k v ((k', v') # es) =
     (if k = k' then (k, v) # es
      else if k < k' then (k, v) # (k', v') # es
      else (k', v') # obj_insert k v es)"

definition json_set :: "string \<Rightarrow> json \<Rightarrow> json \<Rightarrow> json option" where
  "json_set k x v =
     (case v of
        JObject es \<Rightarrow> Some (JObject (obj_insert k x es))
      | JNull \<Rightarrow> Some (JObject [(k, x)])
      | _ \<Rightarrow> None)"

lemma map_of_obj_insert:
  "sorted (map fst es) \<Longrightarrow> map_of (obj_insert k v es) = (map_of es)(k \<mapsto> v)"
proof (induction k v es rule: obj_insert.induct)
  case (2 k v k' v' es)
  have "k < k' \<Longrightarrow> map_of es k = None"
    using "2.prems" by (auto simp: map_of_eq_None_iff)
  with 2 show ?case by (auto simp: fun_eq_iff)
qed simp

lemma map_of_obj_insert_same: "map_of (obj_insert k v es) k = Some v"
  by (induction k v es rule: obj_insert.induct) auto

lemma map_of_obj_insert_other: "k' \<noteq> k \<Longrightarrow> map_of (obj_insert k v es) k' = map_of es k'"
  by (induction k v es rule: obj_insert.induct) auto

definition request_from_slice :: "'s wire \<Rightarrow> string \<Rightarrow> (GatewayError, json) result" where
  "request_from_slice W body =
     (case from_slice W body of Err e \<Rightarrow> Err (BadRequest e) | Ok v \<Rightarrow> Ok v)"

definition request_model :: "json \<Rightarrow> (GatewayError, string) result" where
  "request_model req =
     (case Option.bind (json_get ''model'' req) as_str of
        None \<Rightarrow> Err (BadRequest ''missing model'') | Some m \<Rightarrow> Ok m)"

definition is_stream :: "json \<Rightarrow> bool" where
  "is_stream req =
     (case Option.bind (json_get ''stream'' req) as_bool of None \<Rightarrow> False | Some b \<Rightarrow> b)"

definition is_cacheable :: "json \<Rightarrow> ModelKind \<Rightarrow> bool" where
  "is_cacheable req kind =
     (case kind of
        Embedding \<Rightarrow> True
      | Chat \<Rightarrow> Option.bind (json_get ''temperature'' req) as_f64 = Some 0)"

definition set_model :: "string \<Rightarrow> json \<Rightarrow> json option" where
  "set_model model req = json_set ''model'' (JString model) req"

definition request_to_bytes :: "'s wire \<Rightarrow> json \<Rightarrow> (GatewayError, string) result" where
  "request_to_bytes W req =
     (case to_vec W req of Err e \<Rightarrow> Err (BadRequest e) | Ok b \<Rightarrow> Ok b)"

lemma request_model_Ok:
  "request_model req = Ok m \<longleftrightarrow> (\<exists>es. req = JObject es \<and> map_of es ''model'' = Some (JString m))"
proof -
  have "as_str v = Some s \<longleftrightarrow> v = JString s" for v s by (cases v) auto
  then show ?thesis
    by (auto simp: request_model_def json_get_def bind_eq_Some_conv split: option.splits json.splits)
qed

lemma set_model_rewrites:
  assumes "request_model req = Ok m"
  obtains req' where "set_model m' req = Some req'" "request_model req' = Ok m'"
    "\<And>k. k \<noteq> ''model'' \<Longrightarrow> json_get k req' = json_get k req"
    "is_stream req' = is_stream req" "is_cacheable req' = is_cacheable req"
proof -
  obtain es where es: "req = JObject es" using assms by (auto simp: request_model_Ok)
  let ?r = "JObject (obj_insert ''model'' (JString m') es)"
  have other: "json_get k ?r = json_get k req" if "k \<noteq> ''model''" for k
    using that by (simp add: json_get_def es map_of_obj_insert_other)
  show thesis
  proof (rule that)
    show "set_model m' req = Some ?r" by (simp add: set_model_def json_set_def es)
    show "request_model ?r = Ok m'" by (simp add: request_model_Ok map_of_obj_insert_same)
    show "is_stream ?r = is_stream req" by (simp add: is_stream_def other)
    show "is_cacheable ?r = is_cacheable req"
      by (simp add: is_cacheable_def other fun_eq_iff split: ModelKind.split)
  qed (rule other)
qed

section \<open>Token usage\<close>

record Usage =
  us_input :: i64
  us_output :: i64

definition usage_default :: Usage where
  "usage_default = \<lparr>us_input = 0, us_output = 0\<rparr>"

definition token_field :: "string \<Rightarrow> json \<Rightarrow> i64" where
  "token_field k u = (case Option.bind (json_get k u) as_i64 of None \<Rightarrow> 0 | Some n \<Rightarrow> n)"

fun usage_of :: "Dialect \<Rightarrow> json option \<Rightarrow> Usage" where
  "usage_of _ None = usage_default"
| "usage_of Anthropic (Some u) =
     \<lparr>us_input = token_field ''input_tokens'' u, us_output = token_field ''output_tokens'' u\<rparr>"
| "usage_of OpenAiCompatible (Some u) =
     \<lparr>us_input = token_field ''prompt_tokens'' u, us_output = token_field ''completion_tokens'' u\<rparr>"

definition parse_usage :: "'s wire \<Rightarrow> Dialect \<Rightarrow> string \<Rightarrow> Usage" where
  "parse_usage W d body =
     (case from_slice W body of Err _ \<Rightarrow> usage_default | Ok v \<Rightarrow> usage_of d (json_get ''usage'' v))"

text \<open>The JSON payloads \<open>for_each_sse_event\<close> hands to its callback, in order.\<close>

definition sse_payload :: "'s wire \<Rightarrow> string \<Rightarrow> json option" where
  "sse_payload W line =
     (case strip_prefix ''data:'' line of
        None \<Rightarrow> None
      | Some rest \<Rightarrow>
          (let data = trim rest
           in if data = [] \<or> data = ''[DONE]'' then None
              else (case from_slice W data of Err _ \<Rightarrow> None | Ok v \<Rightarrow> Some v)))"

definition sse_events :: "'s wire \<Rightarrow> string \<Rightarrow> json list" where
  "sse_events W body = List.map_filter (sse_payload W) (str_lines (from_utf8_lossy body))"

definition take_input :: "Usage \<Rightarrow> Usage \<Rightarrow> Usage" where
  "take_input found usage = (if 0 < sint (us_input found) then usage\<lparr>us_input := us_input found\<rparr> else usage)"

definition take_output :: "Usage \<Rightarrow> Usage \<Rightarrow> Usage" where
  "take_output found usage = (if 0 < sint (us_output found) then usage\<lparr>us_output := us_output found\<rparr> else usage)"

fun usage_event :: "Dialect \<Rightarrow> json \<Rightarrow> Usage \<Rightarrow> Usage" where
  "usage_event Anthropic event usage =
     (let usage1 = (case Option.bind (json_get ''message'' event) (json_get ''usage'') of
                      None \<Rightarrow> usage | Some u \<Rightarrow> take_input (usage_of Anthropic (Some u)) usage)
      in (case json_get ''usage'' event of
            None \<Rightarrow> usage1 | Some u \<Rightarrow> take_output (usage_of Anthropic (Some u)) usage1))"
| "usage_event OpenAiCompatible event usage =
     (case json_get ''usage'' event of
        None \<Rightarrow> usage
      | Some u \<Rightarrow>
          if u = JNull then usage
          else (let found = usage_of OpenAiCompatible (Some u) in take_output found (take_input found usage)))"

definition parse_stream_usage :: "'s wire \<Rightarrow> Dialect \<Rightarrow> string \<Rightarrow> Usage" where
  "parse_stream_usage W d body = fold (usage_event d) (sse_events W body) usage_default"

definition usage_nonneg :: "Usage \<Rightarrow> bool" where
  "usage_nonneg u \<longleftrightarrow> 0 \<le> sint (us_input u) \<and> 0 \<le> sint (us_output u)"

lemma usage_nonneg_steps [simp]:
  "usage_nonneg usage_default"
  "usage_nonneg u \<Longrightarrow> usage_nonneg (take_input f u)"
  "usage_nonneg u \<Longrightarrow> usage_nonneg (take_output f u)"
  by (simp_all add: usage_nonneg_def usage_default_def take_input_def take_output_def)

lemma usage_event_nonneg: "usage_nonneg u \<Longrightarrow> usage_nonneg (usage_event d e u)"
  by (cases d) (simp_all add: Let_def split: option.split)

lemma parse_stream_usage_nonneg: "usage_nonneg (parse_stream_usage W d body)"
proof -
  have "usage_nonneg u \<Longrightarrow> usage_nonneg (fold (usage_event d) es u)" for es u
    by (induction es arbitrary: u) (simp_all add: usage_event_nonneg)
  then show ?thesis by (simp add: parse_stream_usage_def)
qed

section \<open>Translation of bodies\<close>

definition DEFAULT_ANTHROPIC_MAX_TOKENS :: u64 where
  "DEFAULT_ANTHROPIC_MAX_TOKENS = 4096"

definition body_of :: "(string, string) result \<Rightarrow> (GatewayError, string) result" where
  "body_of r = (case r of Err e \<Rightarrow> Err (BadRequest e) | Ok b \<Rightarrow> Ok b)"

text \<open>
  The bodies both backfilling functions change are objects; on another value \<open>json[k] = x\<close>
  panics, which is \<open>None\<close>. \<open>now\<close> is the current Unix time in seconds.
\<close>

definition ensure_max_tokens_and_caching ::
  "'s wire \<Rightarrow> string \<Rightarrow> (GatewayError, string) result option" where
  "ensure_max_tokens_and_caching W body =
     (case from_slice W body of
        Err e \<Rightarrow> Some (Err (BadRequest e))
      | Ok v \<Rightarrow>
          if json_get ''max_tokens'' v \<noteq> None then Some (Ok body)
          else (case Option.bind (json_set ''max_tokens'' (JNumber (PosInt DEFAULT_ANTHROPIC_MAX_TOKENS)) v)
                       (json_set ''cache_control'' (JObject [(''type'', JString ''ephemeral'')])) of
                  None \<Rightarrow> None
                | Some v' \<Rightarrow>
                    Some (case to_vec W v' of Err e \<Rightarrow> Err (BadRequest e) | Ok b \<Rightarrow> Ok b)))"

definition translate_request ::
  "'s wire \<Rightarrow> string \<Rightarrow> Dialect \<Rightarrow> Dialect \<Rightarrow> (GatewayError, string) result option" where
  "translate_request W body source target =
     (if source = target then Some (Ok body)
      else
        (case body_of (case source of
                         Anthropic \<Rightarrow> anthropic_to_openai W ''/v1/messages'' body
                       | OpenAiCompatible \<Rightarrow> openai_to_anthropic W ''/v1/chat/completions'' body) of
           Err e \<Rightarrow> Some (Err e)
         | Ok bytes \<Rightarrow>
             if target = Anthropic then ensure_max_tokens_and_caching W bytes else Some (Ok bytes)))"

definition ensure_created :: "'s wire \<Rightarrow> i64 \<Rightarrow> string \<Rightarrow> (GatewayError, string) result option" where
  "ensure_created W now body =
     (case from_slice W body of
        Err e \<Rightarrow> Some (Err (BadRequest e))
      | Ok v \<Rightarrow>
          if json_get ''created'' v \<noteq> None then Some (Ok body)
          else (case json_set ''created'' (JNumber (if sint now < 0 then NegInt now else PosInt now)) v of
                  None \<Rightarrow> None
                | Some v' \<Rightarrow>
                    Some (case to_vec W v' of Err e \<Rightarrow> Err (BadRequest e) | Ok b \<Rightarrow> Ok b)))"

definition translate_response ::
  "'s wire \<Rightarrow> i64 \<Rightarrow> string \<Rightarrow> Dialect \<Rightarrow> Dialect \<Rightarrow> (GatewayError, string) result option" where
  "translate_response W now body source target =
     (if source = target then Some (Ok body)
      else
        (case body_of (case source of
                         OpenAiCompatible \<Rightarrow> openai_response_to_anthropic W ''/v1/chat/completions'' body
                       | Anthropic \<Rightarrow> anthropic_response_to_openai W ''/v1/messages'' body) of
           Err e \<Rightarrow> Some (Err e)
         | Ok bytes \<Rightarrow>
             if target = OpenAiCompatible then ensure_created W now bytes else Some (Ok bytes)))"

text \<open>\<open>outbound_for\<close> of \<open>routes/proxy.rs\<close>\<close>

definition outbound_for ::
  "'s wire \<Rightarrow> json \<Rightarrow> Dialect \<Rightarrow> Dialect \<Rightarrow> (GatewayError, string) result option" where
  "outbound_for W req client provider =
     (if client = provider then Some (request_to_bytes W req)
      else (case request_to_bytes W req of
              Err e \<Rightarrow> Some (Err e)
            | Ok b \<Rightarrow> translate_request W b client provider))"

end
