(* ===== verification/GateStream.thy ===== *)
theory GateStream
  imports GateRequest
begin

text \<open>
  Streaming responses of the AI gateway: \<open>SseTranslator\<close> of \<open>providers/translate/streaming.rs\<close> and
  the loop of \<open>stream_response\<close> in \<open>routes/proxy.rs\<close>. The state of \<open>llm-bridge-core\<close> is the type
  variable of \<open>wire\<close>.
\<close>

section \<open>Frames\<close>

text \<open>The end of the last \<open>\n\n\<close>: \<open>windows(2).enumerate().rfind\<close>.\<close>

fun last_boundary :: "string \<Rightarrow> nat option" where
  "last_boundary (a # b # cs) =
     (case last_boundary (b # cs) of
        Some n \<Rightarrow> Some (Suc n)
      | None \<Rightarrow> if a = CHR 0x0A \<and> b = CHR 0x0A then Some 2 else None)"
| "last_boundary _ = None"

definition take_complete_frames :: "string \<Rightarrow> (string \<times> string) option" where
  "take_complete_frames pending =
     (case last_boundary pending of
        None \<Rightarrow> None | Some n \<Rightarrow> Some (take n pending, drop n pending))"

definition frame_end :: "string \<Rightarrow> bool" where
  "frame_end s \<longleftrightarrow> (\<exists>t. s = t @ [CHR 0x0A, CHR 0x0A])"

lemma last_boundary_Some:
  "last_boundary s = Some n \<Longrightarrow> n \<le> length s \<and> frame_end (take n s) \<and> last_boundary (drop n s) = None"
proof (induction s arbitrary: n rule: last_boundary.induct)
  case (1 a b cs)
  show ?case
  proof (cases "last_boundary (b # cs)")
    case None
    with 1 have n: "n = 2" and ab: "a = CHR 0x0A" "b = CHR 0x0A" by (auto split: if_splits)
    have "last_boundary cs = None"
      using None by (cases cs) (auto split: option.splits)
    then show ?thesis using n ab by (simp add: frame_end_def)
  next
    case (Some m)
    then have n: "n = Suc m" using 1 by simp
    from "1.IH" [OF Some] obtain t where "take m (b # cs) = t @ [CHR 0x0A, CHR 0x0A]"
      by (auto simp: frame_end_def)
    then have "take n (a # b # cs) = (a # t) @ [CHR 0x0A, CHR 0x0A]" by (simp add: n)
    then have "frame_end (take n (a # b # cs))" unfolding frame_end_def by blast
    then show ?thesis using "1.IH" [OF Some] n by simp
  qed
qed simp_all

lemma last_boundary_None: "last_boundary s = None \<longleftrightarrow> \<not> (\<exists>t u. s = t @ [CHR 0x0A, CHR 0x0A] @ u)"
proof (induction s rule: last_boundary.induct)
  case (1 a b cs)
  have "(\<exists>t u. a # b # cs = t @ [CHR 0x0A, CHR 0x0A] @ u) \<longleftrightarrow>
      (a = CHR 0x0A \<and> b = CHR 0x0A) \<or> (\<exists>t u. b # cs = t @ [CHR 0x0A, CHR 0x0A] @ u)"
    by (auto simp: Cons_eq_append_conv)
  then show ?case using 1 by (auto split: option.splits)
qed (auto simp: Cons_eq_append_conv)

lemma take_complete_frames_Some:
  assumes "take_complete_frames p = Some (f, r)"
  shows "f @ r = p" "frame_end f" "take_complete_frames r = None"
proof -
  obtain n where n: "last_boundary p = Some n" "f = take n p" "r = drop n p"
    using assms by (auto simp: take_complete_frames_def split: option.splits)
  show "f @ r = p" by (simp add: n)
  show "frame_end f" "take_complete_frames r = None"
    using last_boundary_Some [OF n(1)] by (simp_all add: n take_complete_frames_def)
qed

section \<open>The translator\<close>

record 's SseTranslator =
  tr_source :: Dialect
  tr_target :: Dialect
  tr_state :: 's
  tr_pending :: string
  tr_passthrough :: bool

definition translator_new :: "'s wire \<Rightarrow> Dialect \<Rightarrow> Dialect \<Rightarrow> 's SseTranslator" where
  "translator_new W source target =
     \<lparr>tr_source = source, tr_target = target, tr_state = stream_default W, tr_pending = [],
      tr_passthrough = (source = target)\<rparr>"

definition bridge_step :: "'s wire \<Rightarrow> Dialect \<Rightarrow> Dialect \<Rightarrow> string \<Rightarrow> 's \<Rightarrow> string \<times> 's" where
  "bridge_step W target source frames st =
     (case stream_to W target source frames st of
        (None, st') \<Rightarrow> ([], st') | (Some b, st') \<Rightarrow> (b, st'))"

definition translator_transform ::
  "'s wire \<Rightarrow> string \<Rightarrow> 's SseTranslator \<Rightarrow> string \<times> 's SseTranslator" where
  "translator_transform W frames t =
     (let (out, st) = bridge_step W (tr_target t) (tr_source t) frames (tr_state t)
      in (out, t\<lparr>tr_state := st\<rparr>))"

definition translator_push ::
  "'s wire \<Rightarrow> string \<Rightarrow> 's SseTranslator \<Rightarrow> string \<times> 's SseTranslator" where
  "translator_push W chunk t =
     (if tr_passthrough t then (chunk, t)
      else (case take_complete_frames (tr_pending t @ chunk) of
              Some (frames, rest) \<Rightarrow> translator_transform W frames (t\<lparr>tr_pending := rest\<rparr>)
            | None \<Rightarrow> ([], t\<lparr>tr_pending := tr_pending t @ chunk\<rparr>)))"

definition translator_finish :: "'s wire \<Rightarrow> 's SseTranslator \<Rightarrow> string \<times> 's SseTranslator" where
  "translator_finish W t =
     (if tr_passthrough t \<or> tr_pending t = [] then ([], t)
      else translator_transform W (tr_pending t) (t\<lparr>tr_pending := []\<rparr>))"

text \<open>All a client gets for a sequence of chunks.\<close>

fun translate_stream :: "'s wire \<Rightarrow> 's SseTranslator \<Rightarrow> string list \<Rightarrow> string" where
  "translate_stream W t [] = fst (translator_finish W t)"
| "translate_stream W t (c # cs) =
     (let (out, t') = translator_push W c t in out @ translate_stream W t' cs)"

section \<open>What the bridge is fed\<close>

text \<open>The pieces the bridge gets, without the bridge.\<close>

fun feeds :: "string \<Rightarrow> string list \<Rightarrow> string list" where
  "feeds pending [] = (if pending = [] then [] else [pending])"
| "feeds pending (c # cs) =
     (case take_complete_frames (pending @ c) of
        Some (frames, rest) \<Rightarrow> frames # feeds rest cs
      | None \<Rightarrow> feeds (pending @ c) cs)"

fun bridge_run :: "'s wire \<Rightarrow> Dialect \<Rightarrow> Dialect \<Rightarrow> string list \<Rightarrow> 's \<Rightarrow> string" where
  "bridge_run W target source [] st = []"
| "bridge_run W target source (f # fs) st =
     (let (out, st') = bridge_step W target source f st
      in out @ bridge_run W target source fs st')"

lemma translate_stream_feeds:
  "\<not> tr_passthrough t \<Longrightarrow>
     translate_stream W t cs = bridge_run W (tr_target t) (tr_source t) (feeds (tr_pending t) cs) (tr_state t)"
proof (induction cs arbitrary: t)
  case Nil
  then show ?case
    by (simp add: translator_finish_def translator_transform_def Let_def split: prod.split)
next
  case (Cons c cs)
  show ?case
  proof (cases "take_complete_frames (tr_pending t @ c)")
    case None
    then show ?thesis using Cons by (simp add: translator_push_def)
  next
    case (Some fr)
    obtain f r where fr: "fr = (f, r)" by (cases fr)
    obtain out st where step: "bridge_step W (tr_target t) (tr_source t) f (tr_state t) = (out, st)"
      by (cases "bridge_step W (tr_target t) (tr_source t) f (tr_state t)")
    have "translator_push W c t = (out, t\<lparr>tr_pending := r, tr_state := st\<rparr>)"
      using Some Cons.prems by (simp add: translator_push_def translator_transform_def fr step)
    then show ?thesis
      using Cons.IH [of "t\<lparr>tr_pending := r, tr_state := st\<rparr>"] Cons.prems Some
      by (simp add: fr step)
  qed
qed

lemma concat_feeds: "concat (feeds pending cs) = pending @ concat cs"
  by (induction pending cs rule: feeds.induct)
    (auto split: option.split dest: take_complete_frames_Some(1) simp flip: append_assoc)

lemma feeds_nonempty: "[] \<notin> set (feeds pending cs)"
  by (induction pending cs rule: feeds.induct)
    (auto split: option.splits dest: take_complete_frames_Some(2) simp: frame_end_def)

lemma feeds_end_frames: "f \<in> set (butlast (feeds pending cs)) \<Longrightarrow> frame_end f"
  by (induction pending cs rule: feeds.induct)
    (auto split: option.splits if_splits dest: take_complete_frames_Some(2))

text \<open>
  What the bridge is documented to do, a stateful conversion of whole frames: cutting its input
  between two frames does not change what it puts out or the state it ends in.
\<close>

definition frame_additive :: "'s wire \<Rightarrow> bool" where
  "frame_additive W \<longleftrightarrow>
     (\<forall>target source a b st. frame_end a \<longrightarrow> b \<noteq> [] \<longrightarrow>
        bridge_step W target source (a @ b) st =
          (let (out1, st1) = bridge_step W target source a st;
               (out2, st2) = bridge_step W target source b st1
           in (out1 @ out2, st2)))"

lemma bridge_run_merge:
  assumes "frame_additive W" "frame_end a" "b \<noteq> []"
  shows "bridge_run W target source (a # b # fs) st = bridge_run W target source ((a @ b) # fs) st"
proof -
  have "bridge_step W target source (a @ b) st =
      (let (out1, st1) = bridge_step W target source a st;
           (out2, st2) = bridge_step W target source b st1
       in (out1 @ out2, st2))"
    using assms unfolding frame_additive_def by blast
  then show ?thesis by (simp add: Let_def split: prod.split)
qed

lemma bridge_run_concat:
  assumes "frame_additive W"
  shows "fs \<noteq> [] \<Longrightarrow> [] \<notin> set fs \<Longrightarrow> (\<And>f. f \<in> set (butlast fs) \<Longrightarrow> frame_end f)
    \<Longrightarrow> bridge_run W target source fs st = bridge_run W target source [concat fs] st"
proof (induction "length fs" arbitrary: fs)
  case 0
  then show ?case by simp
next
  case (Suc n)
  show ?case
  proof (cases fs)
    case Nil
    then show ?thesis using Suc by simp
  next
    case (Cons f gs)
    show ?thesis
    proof (cases gs)
      case Nil
      then show ?thesis by (simp add: Cons)
    next
      case (Cons g hs)
      note fs = \<open>fs = f # gs\<close> Cons
      have fe: "frame_end f" using Suc.prems(3) by (simp add: fs)
      have "frame_end (f @ g)" if "hs \<noteq> []"
        using Suc.prems(3) [of g] that by (auto simp: fs frame_end_def)
      then have ends: "\<And>x. x \<in> set (butlast ((f @ g) # hs)) \<Longrightarrow> frame_end x"
        using Suc.prems(3) by (auto simp: fs split: if_splits)
      have "bridge_run W target source fs st = bridge_run W target source ((f @ g) # hs) st"
        unfolding fs using Suc.prems(2) by (intro bridge_run_merge [OF assms fe]) (auto simp: fs)
      also have "\<dots> = bridge_run W target source [concat ((f @ g) # hs)] st"
      proof (rule Suc.hyps(1))
        show "n = length ((f @ g) # hs)" "(f @ g) # hs \<noteq> []" using Suc.hyps(2) by (simp_all add: fs)
        show "[] \<notin> set ((f @ g) # hs)" using Suc.prems(2) by (auto simp: fs)
      qed (rule ends)
      finally show ?thesis by (simp add: fs del: bridge_run.simps)
    qed
  qed
qed

lemma translate_stream_chunking:
  assumes "frame_additive W" "concat cs = concat ds"
  shows "translate_stream W (translator_new W src tgt) cs = translate_stream W (translator_new W src tgt) ds"
proof -
  let ?run = "\<lambda>fs. bridge_run W tgt src fs (stream_default W)"
  have fd: "?run (feeds [] xs) = (if concat xs = [] then [] else ?run [concat xs])" for xs
  proof (cases "feeds [] xs = []")
    case True
    then show ?thesis using concat_feeds [of "[]" xs] by simp
  next
    case False
    moreover have "concat xs \<noteq> []"
      using False concat_feeds [of "[]" xs] feeds_nonempty [of "[]" xs]
      by (metis append_Nil concat_eq_Nil_conv list.set_intros(1) neq_Nil_conv)
    moreover have "?run (feeds [] xs) = ?run [concat (feeds [] xs)]"
      by (rule bridge_run_concat [OF assms(1) False feeds_nonempty]) (rule feeds_end_frames)
    ultimately show ?thesis by (simp only: concat_feeds append_Nil if_False)
  qed
  have pass: "tr_passthrough t \<Longrightarrow> translate_stream W t xs = concat xs" for t :: "'a SseTranslator" and xs
    by (induction xs arbitrary: t) (simp_all add: translator_finish_def translator_push_def)
  show ?thesis
  proof (cases "src = tgt")
    case True
    then show ?thesis using assms(2) pass by (simp add: translator_new_def)
  next
    case False
    then show ?thesis
      using assms(2) by (simp add: translate_stream_feeds translator_new_def fd)
  qed
qed

lemma translate_stream_passthrough:
  "tr_passthrough t \<Longrightarrow> translate_stream W t xs = concat xs"
  by (induction xs arbitrary: t) (simp_all add: translator_finish_def translator_push_def)

section \<open>The response stream\<close>

text \<open>
  What the upstream connection yields, and the task that forwards it. \<open>accepts n\<close> is whether the
  client still takes the message after the first \<open>n\<close>; \<open>pu_sent\<close> is what it took.
\<close>

datatype stream_item = Chunk string | Broken string

record 's pump =
  pu_translator :: "'s SseTranslator"
  pu_raw :: string
  pu_truncated :: bool
  pu_aborted :: bool
  pu_client_gone :: bool
  pu_sent :: "(string, string) result list"

definition STREAM_USAGE_CAP :: nat where
  "STREAM_USAGE_CAP = 8 * 1024 * 1024"

definition CLIENT_CLOSED :: nat where
  "CLIENT_CLOSED = 499"

definition pump_new :: "'s wire \<Rightarrow> Dialect \<Rightarrow> Dialect \<Rightarrow> 's pump" where
  "pump_new W provider client =
     \<lparr>pu_translator = translator_new W provider client, pu_raw = [], pu_truncated = False,
      pu_aborted = False, pu_client_gone = False, pu_sent = []\<rparr>"

definition keep_raw :: "string \<Rightarrow> 's pump \<Rightarrow> 's pump" where
  "keep_raw b p =
     (if length (pu_raw p) < STREAM_USAGE_CAP
      then p\<lparr>pu_raw := pu_raw p @ b, pu_truncated := STREAM_USAGE_CAP \<le> length (pu_raw p @ b)\<rparr>
      else p)"

definition pump_chunk :: "'s wire \<Rightarrow> (nat \<Rightarrow> bool) \<Rightarrow> string \<Rightarrow> 's pump \<Rightarrow> 's pump" where
  "pump_chunk W accepts b p =
     (let p1 = keep_raw b p;
          (out, t) = translator_push W b (pu_translator p1);
          p2 = p1\<lparr>pu_translator := t\<rparr>
      in if out = [] then p2
         else if accepts (length (pu_sent p2)) then p2\<lparr>pu_sent := pu_sent p2 @ [Ok out]\<rparr>
         else p2\<lparr>pu_client_gone := True\<rparr>)"

definition pump_error :: "(nat \<Rightarrow> bool) \<Rightarrow> string \<Rightarrow> 's pump \<Rightarrow> 's pump" where
  "pump_error accepts e p =
     p\<lparr>pu_sent := pu_sent p @ (if accepts (length (pu_sent p)) then [Err e] else []), pu_aborted := True\<rparr>"

fun pump_loop :: "'s wire \<Rightarrow> (nat \<Rightarrow> bool) \<Rightarrow> stream_item list \<Rightarrow> 's pump \<Rightarrow> 's pump" where
  "pump_loop W accepts [] p = p"
| "pump_loop W accepts (Chunk b # is) p =
     (let p' = pump_chunk W accepts b p in if pu_client_gone p' then p' else pump_loop W accepts is p')"
| "pump_loop W accepts (Broken e # is) p = pump_error accepts e p"

definition pump_finish :: "'s wire \<Rightarrow> (nat \<Rightarrow> bool) \<Rightarrow> 's pump \<Rightarrow> 's pump" where
  "pump_finish W accepts p =
     (if pu_aborted p \<or> pu_client_gone p then p
      else (let (tail, t) = translator_finish W (pu_translator p); p1 = p\<lparr>pu_translator := t\<rparr>
            in if tail \<noteq> [] \<and> accepts (length (pu_sent p1))
               then p1\<lparr>pu_sent := pu_sent p1 @ [Ok tail]\<rparr> else p1))"

definition stream_outcome :: "nat \<Rightarrow> 's pump \<Rightarrow> nat" where
  "stream_outcome status p =
     (if pu_aborted p then 502 else if pu_client_gone p then CLIENT_CLOSED else status)"

definition run_stream ::
  "'s wire \<Rightarrow> (nat \<Rightarrow> bool) \<Rightarrow> Dialect \<Rightarrow> Dialect \<Rightarrow> stream_item list \<Rightarrow> 's pump" where
  "run_stream W accepts provider client is =
     pump_finish W accepts (pump_loop W accepts is (pump_new W provider client))"

section \<open>What is delivered and what is kept\<close>

definition sent_bytes :: "'s pump \<Rightarrow> string" where
  "sent_bytes p = concat (map (\<lambda>r. case r of Err _ \<Rightarrow> [] | Ok b \<Rightarrow> b) (pu_sent p))"

lemma keep_raw_simps [simp]:
  "pu_translator (keep_raw b p) = pu_translator p" "pu_sent (keep_raw b p) = pu_sent p"
  "pu_aborted (keep_raw b p) = pu_aborted p" "pu_client_gone (keep_raw b p) = pu_client_gone p"
  by (simp_all add: keep_raw_def)

lemma pump_chunk_open:
  assumes "\<And>n. accepts n" "translator_push W b (pu_translator p) = (out, t)"
  shows "pu_translator (pump_chunk W accepts b p) = t"
    "sent_bytes (pump_chunk W accepts b p) = sent_bytes p @ out"
    "pu_aborted (pump_chunk W accepts b p) = pu_aborted p"
    "pu_client_gone (pump_chunk W accepts b p) = pu_client_gone p"
  using assms by (simp_all add: pump_chunk_def sent_bytes_def Let_def)

lemma pump_delivers:
  assumes "\<And>n. accepts n"
  shows "\<not> pu_aborted p \<Longrightarrow> \<not> pu_client_gone p \<Longrightarrow>
      (let q = pump_finish W accepts (pump_loop W accepts (map Chunk cs) p)
       in sent_bytes q = sent_bytes p @ translate_stream W (pu_translator p) cs
          \<and> \<not> pu_aborted q \<and> \<not> pu_client_gone q)"
proof (induction cs arbitrary: p)
  case Nil
  then show ?case
    using assms by (simp add: pump_finish_def Let_def sent_bytes_def split: prod.split)
next
  case (Cons c cs)
  obtain out t where push: "translator_push W c (pu_translator p) = (out, t)"
    by (cases "translator_push W c (pu_translator p)")
  note step = pump_chunk_open [OF assms push]
  show ?case
    using Cons.IH [of "pump_chunk W accepts c p"] Cons.prems step by (simp add: Let_def push)
qed

text \<open>The bytes kept for usage: all of what came, or at least the first cap's worth.\<close>

definition raw_ok :: "string \<Rightarrow> 's pump \<Rightarrow> bool" where
  "raw_ok seen p \<longleftrightarrow>
     (\<exists>rest. seen = pu_raw p @ rest \<and> (rest \<noteq> [] \<longrightarrow> STREAM_USAGE_CAP \<le> length (pu_raw p)))
     \<and> (pu_truncated p \<longleftrightarrow> STREAM_USAGE_CAP \<le> length (pu_raw p))"

lemma raw_ok_keep: "raw_ok seen p \<Longrightarrow> raw_ok (seen @ b) (keep_raw b p)"
  by (auto simp: raw_ok_def keep_raw_def)

lemma raw_ok_chunk:
  assumes "raw_ok seen p"
  shows "raw_ok (seen @ b) (pump_chunk W accepts b p)"
proof -
  have "pu_raw (pump_chunk W accepts b p) = pu_raw (keep_raw b p)"
    "pu_truncated (pump_chunk W accepts b p) = pu_truncated (keep_raw b p)"
    by (simp_all add: pump_chunk_def Let_def split: prod.split)
  with raw_ok_keep [OF assms] show ?thesis by (simp add: raw_ok_def)
qed

lemma raw_ok_finish [simp]: "raw_ok seen (pump_finish W accepts p) = raw_ok seen p"
  by (simp add: raw_ok_def pump_finish_def Let_def split: prod.split)

fun item_bytes :: "stream_item \<Rightarrow> string" where
  "item_bytes (Chunk b) = b"
| "item_bytes (Broken e) = []"

lemma raw_ok_loop:
  "raw_ok seen p \<Longrightarrow>
     \<exists>n. raw_ok (seen @ concat (map item_bytes (take n is))) (pump_loop W accepts is p)"
proof (induction W accepts "is" p arbitrary: seen rule: pump_loop.induct)
  case (1 W accepts p)
  then show ?case by simp
next
  case (2 W accepts b "is" p)
  let ?p = "pump_chunk W accepts b p"
  have ok: "raw_ok (seen @ b) ?p" by (rule raw_ok_chunk [OF "2.prems"])
  show ?case
  proof (cases "pu_client_gone ?p")
    case True
    then show ?thesis using ok by (intro exI [of _ 1]) simp
  next
    case False
    then obtain n where "raw_ok ((seen @ b) @ concat (map item_bytes (take n is))) (pump_loop W accepts is ?p)"
      using "2.IH" [OF refl False ok] by blast
    then show ?thesis using False by (intro exI [of _ "Suc n"]) simp
  qed
next
  case (3 W accepts e "is" p)
  then show ?case by (intro exI [of _ 0]) (simp add: pump_error_def raw_ok_def)
qed

lemma run_stream_raw:
  "\<exists>n. raw_ok (concat (map item_bytes (take n is))) (run_stream W accepts provider client is)"
proof -
  have "raw_ok [] (pump_new W provider client)"
    by (simp add: raw_ok_def pump_new_def STREAM_USAGE_CAP_def)
  from raw_ok_loop [OF this] show ?thesis by (simp add: run_stream_def)
qed

end
