(* ===== verification/GateFailover.thy ===== *)
theory GateFailover
  imports GateStream
begin

text \<open>
  Calling the upstream providers: \<open>build_request\<close> of the two providers, \<open>Retry-After\<close> and the
  failover loop of \<open>routes/proxy.rs\<close>. The outside world answers the \<open>n\<close>-th request it gets.
  Waiting times are in milliseconds.
\<close>

section \<open>Requests and answers\<close>

record Outgoing =
  og_url :: string
  og_headers :: "(string \<times> string) list"
  og_body :: string
  og_timeout :: "nat option"

text \<open>
  A response: its status, the two headers the gateway reads, the outcome of reading the whole
  body, and the chunks it arrives in when it is streamed.
\<close>

record UpResponse =
  ur_status :: nat
  ur_content_type :: "string option"
  ur_retry_after :: "string option"
  ur_bytes :: "(string, string) result"
  ur_stream :: "stream_item list"

datatype reply = Reply UpResponse | TransportError string

definition is_success :: "nat \<Rightarrow> bool" where
  "is_success status \<longleftrightarrow> 200 \<le> status \<and> status < 300"

definition is_retryable :: "nat \<Rightarrow> bool" where
  "is_retryable status \<longleftrightarrow> status = 429 \<or> (500 \<le> status \<and> status < 600)"

section \<open>Headers\<close>

definition forward_headers :: "string hmap \<Rightarrow> string list \<Rightarrow> (string \<times> string) list" where
  "forward_headers client names =
     List.map_filter (\<lambda>n. map_option (\<lambda>v. (n, v)) (hget client n)) names"

lemma forward_headers_cong:
  "\<forall>n\<in>set ns. hget h n = hget h' n \<Longrightarrow> forward_headers h ns = forward_headers h' ns"
  by (induction ns) (simp_all add: forward_headers_def map_filter_simps split: option.split)

fun build_request :: "Provider \<Rightarrow> ModelKind \<Rightarrow> string \<Rightarrow> string hmap \<Rightarrow> Outgoing" where
  "build_request (AnthropicProvider name base_url api_key version) kind body client_headers =
     \<lparr>og_url = base_url @ ''/v1/messages'',
      og_headers =
        [(''content-type'', ''application/json''), (''x-api-key'', api_key),
         (''anthropic-version'',
            case Option.bind (hget client_headers ''anthropic-version'') to_str of
              None \<Rightarrow> version | Some v \<Rightarrow> v)]
        @ forward_headers client_headers [''anthropic-beta''],
      og_body = body, og_timeout = None\<rparr>"
| "build_request (OpenAiProvider name base_url api_key) kind body client_headers =
     \<lparr>og_url = base_url @ (case kind of Chat \<Rightarrow> ''/chat/completions'' | Embedding \<Rightarrow> ''/embeddings''),
      og_headers =
        [(''content-type'', ''application/json''), (''authorization'', ''Bearer '' @ api_key)]
        @ forward_headers client_headers [''openai-beta'', ''openai-organization'', ''openai-project''],
      og_body = body, og_timeout = None\<rparr>"

text \<open>\<open>http_date_wait\<close> is chrono: the seconds until an RFC 2822 date, negative for the past.\<close>

definition parse_retry_after :: "(string \<Rightarrow> int option) \<Rightarrow> string \<Rightarrow> nat option" where
  "parse_retry_after http_date_wait v =
     (let s = trim v
      in case str_parse_u64 s of
           Some secs \<Rightarrow> Some (unat secs * 1000)
         | None \<Rightarrow> map_option (\<lambda>secs. nat (max secs 0) * 1000) (http_date_wait s))"

definition retry_after_delay :: "(string \<Rightarrow> int option) \<Rightarrow> UpResponse \<Rightarrow> nat option" where
  "retry_after_delay http_date_wait resp =
     Option.bind (Option.bind (ur_retry_after resp) to_str) (parse_retry_after http_date_wait)"

definition MAX_ATTEMPTS_PER_PROVIDER :: nat where
  "MAX_ATTEMPTS_PER_PROVIDER = 3"

definition RETRY_BASE_DELAY :: nat where
  "RETRY_BASE_DELAY = 100"

definition MAX_RETRY_AFTER :: nat where
  "MAX_RETRY_AFTER = 2000"

definition REQUEST_TIMEOUT :: nat where
  "REQUEST_TIMEOUT = 300000"

section \<open>The failover loop\<close>

text \<open>
  What the loop has done: the requests it sent with their answers, the time it slept before
  each, and the three variables the source keeps.
\<close>

type_synonym hit = "Provider \<times> UpResponse \<times> string"

record failover_state =
  fo_served :: "hit option"
  fo_fallback :: "hit option"
  fo_last_err :: "GatewayError option"
  fo_sent :: "(Provider \<times> Outgoing \<times> reply) list"
  fo_slept :: "nat list"

definition failover_new :: failover_state where
  "failover_new = \<lparr>fo_served = None, fo_fallback = None, fo_last_err = None, fo_sent = [], fo_slept = []\<rparr>"

text \<open>What the loop uses of the request: \<open>up_answer n\<close> answers the \<open>n\<close>-th request.\<close>

record upstream_call =
  up_answer :: "nat \<Rightarrow> Outgoing \<Rightarrow> reply"
  up_http_date_wait :: "string \<Rightarrow> int option"
  up_kind :: ModelKind
  up_streaming :: bool
  up_headers :: "string hmap"

definition send_upstream ::
  "upstream_call \<Rightarrow> Provider \<Rightarrow> string \<Rightarrow> failover_state \<Rightarrow> reply \<times> failover_state" where
  "send_upstream U provider outbound st =
     (let req = build_request provider (up_kind U) outbound (up_headers U);
          req = (if up_streaming U then req else req\<lparr>og_timeout := Some REQUEST_TIMEOUT\<rparr>);
          r = up_answer U (length (fo_sent st)) req
      in (r, st\<lparr>fo_sent := fo_sent st @ [(provider, req, r)]\<rparr>))"

datatype control = BreakFailover | NextProvider

text \<open>
  The inner loop: \<open>left\<close> attempts from number \<open>attempt\<close> on; \<open>retry_after\<close> is the delay the
  previous answer asked for.
\<close>

fun attempts ::
  "upstream_call \<Rightarrow> Provider \<Rightarrow> string \<Rightarrow> nat \<Rightarrow> nat \<Rightarrow> nat option \<Rightarrow> failover_state
     \<Rightarrow> control \<times> failover_state" where
  "attempts U provider outbound attempt 0 retry_after st = (NextProvider, st)"
| "attempts U provider outbound attempt (Suc left) retry_after st =
     (let delay = (case retry_after of Some d \<Rightarrow> d | None \<Rightarrow> RETRY_BASE_DELAY * 2 ^ (attempt - 1));
          st0 = (if 0 < attempt then st\<lparr>fo_slept := fo_slept st @ [delay]\<rparr> else st);
          (r, st1) = send_upstream U provider outbound st0
      in case r of
           Reply resp \<Rightarrow>
             if is_retryable (ur_status resp)
             then (let wait = (if ur_status resp = 429
                               then retry_after_delay (up_http_date_wait U) resp else None);
                       st2 = st1\<lparr>fo_fallback := Some (provider, resp, outbound)\<rparr>
                   in case wait of
                        Some d \<Rightarrow>
                          if MAX_RETRY_AFTER < d then (NextProvider, st2)
                          else attempts U provider outbound (Suc attempt) left (Some d) st2
                      | None \<Rightarrow> attempts U provider outbound (Suc attempt) left None st2)
             else (BreakFailover, st1\<lparr>fo_served := Some (provider, resp, outbound)\<rparr>)
         | TransportError e \<Rightarrow>
             attempts U provider outbound (Suc attempt) left None (st1\<lparr>fo_last_err := Some (Upstream e)\<rparr>))"

text \<open>
  The loop over the candidates. An error of \<open>outbound_for\<close> returns from the handler at once
  (\<open>Inl (Some e)\<close>); a panic is \<open>Inl None\<close>.
\<close>

fun failover ::
  "upstream_call \<Rightarrow> (Provider \<Rightarrow> (GatewayError, string) result option) \<Rightarrow> Provider list \<Rightarrow> failover_state
     \<Rightarrow> (GatewayError option, unit) result \<times> failover_state" where
  "failover U outbound [] st = (Ok (), st)"
| "failover U outbound (p # ps) st =
     (case outbound p of
        None \<Rightarrow> (Err None, st)
      | Some (Err e) \<Rightarrow> (Err (Some e), st)
      | Some (Ok b) \<Rightarrow>
          (case attempts U p b 0 MAX_ATTEMPTS_PER_PROVIDER None st of
             (BreakFailover, st') \<Rightarrow> (Ok (), st')
           | (NextProvider, st') \<Rightarrow> failover U outbound ps st'))"

text \<open>\<open>served.or(fallback)\<close>, else the last error.\<close>

definition failover_result ::
  "string \<Rightarrow> failover_state \<Rightarrow> (GatewayError, hit) result" where
  "failover_result resolved_model st =
     (case fo_served st of
        Some v \<Rightarrow> Ok v
      | None \<Rightarrow>
          (case fo_fallback st of
             Some v \<Rightarrow> Ok v
           | None \<Rightarrow>
               Err (case fo_last_err st of Some e \<Rightarrow> e | None \<Rightarrow> NoProvider resolved_model)))"

section \<open>The attempts at one provider\<close>

text \<open>
  \<open>sent_by\<close> relates the states before and after a run of the inner loop: at most \<open>n\<close> requests,
  all to this provider, each answer but a served one retryable or a transport error.
\<close>

definition retryable_reply :: "reply \<Rightarrow> bool" where
  "retryable_reply r = (case r of Reply resp \<Rightarrow> is_retryable (ur_status resp) | TransportError _ \<Rightarrow> True)"

definition sent_by :: "Provider \<Rightarrow> string \<Rightarrow> nat \<Rightarrow> failover_state \<Rightarrow> control \<times> failover_state \<Rightarrow> bool" where
  "sent_by p b n st res \<longleftrightarrow>
     (\<exists>new naps. fo_sent (snd res) = fo_sent st @ new \<and> fo_slept (snd res) = fo_slept st @ naps
        \<and> length new \<le> n \<and> list_all (\<lambda>(q, out, r). q = p \<and> og_body out = b) new
        \<and> length naps \<le> n \<and> list_all (\<lambda>d. d \<le> MAX_RETRY_AFTER) naps
        \<and> (case fst res of
             NextProvider \<Rightarrow> list_all (\<lambda>(q, out, r). retryable_reply r) new \<and> fo_served (snd res) = fo_served st
           | BreakFailover \<Rightarrow>
               (\<exists>init out resp. new = init @ [(p, out, Reply resp)] \<and> \<not> is_retryable (ur_status resp)
                  \<and> list_all (\<lambda>(q, out, r). retryable_reply r) init
                  \<and> fo_served (snd res) = Some (p, resp, b))))"

lemma build_request_body [simp]: "og_body (build_request p k b h) = b"
  by (cases p) simp_all

lemma sent_by_step:
  assumes "sent_by p b n st2 res" "fo_sent st2 = fo_sent st @ [(p, out, r)]" "og_body out = b"
    and "retryable_reply r" "fo_served st2 = fo_served st"
    and "fo_slept st2 = fo_slept st @ naps" "length naps \<le> 1" "list_all (\<lambda>d. d \<le> MAX_RETRY_AFTER) naps"
  shows "sent_by p b (Suc n) st res"
proof -
  obtain new naps' where new: "fo_sent (snd res) = fo_sent st2 @ new" "fo_slept (snd res) = fo_slept st2 @ naps'"
    "length new \<le> n" "list_all (\<lambda>(q, out, r). q = p \<and> og_body out = b) new"
    "length naps' \<le> n" "list_all (\<lambda>d. d \<le> MAX_RETRY_AFTER) naps'"
    and ctl: "case fst res of
        NextProvider \<Rightarrow> list_all (\<lambda>(q, out, r). retryable_reply r) new \<and> fo_served (snd res) = fo_served st2
      | BreakFailover \<Rightarrow>
          (\<exists>init out resp. new = init @ [(p, out, Reply resp)] \<and> \<not> is_retryable (ur_status resp)
             \<and> list_all (\<lambda>(q, out, r). retryable_reply r) init
             \<and> fo_served (snd res) = Some (p, resp, b))"
    using assms(1) unfolding sent_by_def by blast
  let ?new = "(p, out, r) # new"
  have "case fst res of
        NextProvider \<Rightarrow> list_all (\<lambda>(q, out, r). retryable_reply r) ?new \<and> fo_served (snd res) = fo_served st
      | BreakFailover \<Rightarrow>
          (\<exists>init out resp. ?new = init @ [(p, out, Reply resp)] \<and> \<not> is_retryable (ur_status resp)
             \<and> list_all (\<lambda>(q, out, r). retryable_reply r) init
             \<and> fo_served (snd res) = Some (p, resp, b))"
  proof (cases "fst res")
    case BreakFailover
    then obtain init out' resp where i: "new = init @ [(p, out', Reply resp)]" "\<not> is_retryable (ur_status resp)"
      "list_all (\<lambda>(q, out, r). retryable_reply r) init" "fo_served (snd res) = Some (p, resp, b)"
      using ctl by auto
    then have "?new = ((p, out, r) # init) @ [(p, out', Reply resp)]
        \<and> list_all (\<lambda>(q, out, r). retryable_reply r) ((p, out, r) # init)"
      using assms(4) by simp
    then show ?thesis using i(2,4) BreakFailover by (simp only: control.case) blast
  next
    case NextProvider
    then show ?thesis using ctl assms(4,5) by simp
  qed
  then show ?thesis
    unfolding sent_by_def using new assms(2,3,6-8)
    by (intro exI [of _ ?new] exI [of _ "naps @ naps'"]) auto
qed

lemma sent_by_none: "sent_by p b n st (NextProvider, st)"
  by (simp add: sent_by_def)

lemma send_upstream_simps:
  assumes "send_upstream U p b st = (r, st1)"
  shows "\<exists>out. fo_sent st1 = fo_sent st @ [(p, out, r)] \<and> og_body out = b"
    "fo_served st1 = fo_served st" "fo_slept st1 = fo_slept st" "fo_fallback st1 = fo_fallback st"
    "fo_last_err st1 = fo_last_err st"
  using assms by (auto simp: send_upstream_def Let_def)

lemma wait_sent_by:
  assumes "\<And>w. (\<And>d. w = Some d \<Longrightarrow> d \<le> MAX_RETRY_AFTER) \<Longrightarrow> sent_by p b n st (k w)"
  shows "sent_by p b n st
      (case wait of
         Some d \<Rightarrow> if MAX_RETRY_AFTER < d then (NextProvider, st) else k (Some d)
       | None \<Rightarrow> k None)"
  using assms [of None] assms [of wait] by (auto simp: sent_by_none split: option.split)

lemma served_sent_by:
  assumes "fo_sent st1 = fo_sent st @ [(p, out, Reply resp)]" "og_body out = b"
    and "\<not> is_retryable (ur_status resp)" "fo_slept st1 = fo_slept st @ naps" "length naps \<le> 1"
    and "list_all (\<lambda>d. d \<le> MAX_RETRY_AFTER) naps"
  shows "sent_by p b (Suc n) st (BreakFailover, st1\<lparr>fo_served := Some (p, resp, b)\<rparr>)"
  using assms unfolding sent_by_def
  by (intro exI [of _ "[(p, out, Reply resp)]"] exI [of _ naps]) auto

lemma attempts_sent_by:
  "attempt + left \<le> MAX_ATTEMPTS_PER_PROVIDER \<Longrightarrow> (\<And>d. ra = Some d \<Longrightarrow> d \<le> MAX_RETRY_AFTER)
     \<Longrightarrow> sent_by p b left st (attempts U p b attempt left ra st)"
proof (induction left arbitrary: attempt ra st)
  case 0
  show ?case by (simp add: sent_by_none)
next
  case (Suc n)
  let ?delay = "case ra of Some d \<Rightarrow> d | None \<Rightarrow> RETRY_BASE_DELAY * 2 ^ (attempt - 1)"
  let ?naps = "if 0 < attempt then [?delay] else []"
  let ?st0 = "if 0 < attempt then st\<lparr>fo_slept := fo_slept st @ [?delay]\<rparr> else st"
  have "attempt - 1 \<le> 1" using Suc.prems(1) by (simp add: MAX_ATTEMPTS_PER_PROVIDER_def)
  then have "(2::nat) ^ (attempt - 1) \<le> 2 ^ 1" by (rule power_increasing) simp
  then have naps: "length ?naps \<le> 1" "list_all (\<lambda>d. d \<le> MAX_RETRY_AFTER) ?naps"
    using Suc.prems(2) by (auto simp: RETRY_BASE_DELAY_def MAX_RETRY_AFTER_def split: option.split)
  obtain r st1 where send: "send_upstream U p b ?st0 = (r, st1)" by (cases "send_upstream U p b ?st0")
  obtain out where out: "fo_sent st1 = fo_sent st @ [(p, out, r)]" "og_body out = b"
    and st1: "fo_served st1 = fo_served st" "fo_slept st1 = fo_slept st @ ?naps"
    using send_upstream_simps [OF send] by (auto split: if_splits)
  have next_ok: "attempt + 1 + n \<le> MAX_ATTEMPTS_PER_PROVIDER" using Suc.prems(1) by simp
  have go_on: "sent_by p b (Suc n) st res" if "sent_by p b n st2 res" "fo_sent st2 = fo_sent st1"
    "fo_served st2 = fo_served st1" "fo_slept st2 = fo_slept st1" "retryable_reply r" for st2 res
    using sent_by_step [OF that(1) _ out(2) that(5), of st ?naps] naps that out(1) st1 by simp
  show ?case
  proof (cases r)
    case (TransportError e)
    then have "attempts U p b attempt (Suc n) ra st =
        attempts U p b (Suc attempt) n None (st1\<lparr>fo_last_err := Some (Upstream e)\<rparr>)"
      using send by (simp add: Let_def)
    moreover have "sent_by p b n (st1\<lparr>fo_last_err := Some (Upstream e)\<rparr>)
        (attempts U p b (Suc attempt) n None (st1\<lparr>fo_last_err := Some (Upstream e)\<rparr>))"
      by (rule Suc.IH) (use next_ok in simp_all)
    ultimately show ?thesis
      using go_on [of "st1\<lparr>fo_last_err := Some (Upstream e)\<rparr>"] TransportError
      by (simp add: retryable_reply_def)
  next
    case (Reply resp)
    show ?thesis
    proof (cases "is_retryable (ur_status resp)")
      case False
      then have "attempts U p b attempt (Suc n) ra st = (BreakFailover, st1\<lparr>fo_served := Some (p, resp, b)\<rparr>)"
        using send Reply by (simp add: Let_def)
      then show ?thesis using served_sent_by [OF _ out(2) False st1(2) naps] out(1) Reply by simp
    next
      case True
      let ?st2 = "st1\<lparr>fo_fallback := Some (p, resp, b)\<rparr>"
      have at: "attempts U p b attempt (Suc n) ra st =
          (case if ur_status resp = 429 then retry_after_delay (up_http_date_wait U) resp else None of
             Some d \<Rightarrow> if MAX_RETRY_AFTER < d then (NextProvider, ?st2)
                       else attempts U p b (Suc attempt) n (Some d) ?st2
           | None \<Rightarrow> attempts U p b (Suc attempt) n None ?st2)"
        using send Reply True by (simp add: Let_def)
      have run: "sent_by p b n ?st2 (attempts U p b (Suc attempt) n w ?st2)"
        if "\<And>d. w = Some d \<Longrightarrow> d \<le> MAX_RETRY_AFTER" for w
        by (rule Suc.IH) (use next_ok that in simp_all)
      have "sent_by p b n ?st2 (attempts U p b attempt (Suc n) ra st)"
        unfolding at by (rule wait_sent_by) (rule run, blast)
      then show ?thesis using go_on [of ?st2] Reply True by (simp add: retryable_reply_def)
    qed
  qed
qed

section \<open>The whole loop\<close>

text \<open>
  A reference for what is returned, from the answers in the order they came: the first that is
  not retryable, else the last response, else the last transport error.
\<close>

fun reply_hit :: "Provider \<times> Outgoing \<times> reply \<Rightarrow> hit option" where
  "reply_hit (p, out, Reply resp) = Some (p, resp, og_body out)"
| "reply_hit (p, out, TransportError e) = None"

fun reply_error :: "Provider \<times> Outgoing \<times> reply \<Rightarrow> GatewayError option" where
  "reply_error (p, out, Reply resp) = None"
| "reply_error (p, out, TransportError e) = Some (Upstream e)"

definition retryable_entry :: "Provider \<times> Outgoing \<times> reply \<Rightarrow> bool" where
  "retryable_entry x = retryable_reply (snd (snd x))"

definition last_some :: "('a \<Rightarrow> 'b option) \<Rightarrow> 'a list \<Rightarrow> 'b option" where
  "last_some f xs = fold (\<lambda>x acc. case f x of Some y \<Rightarrow> Some y | None \<Rightarrow> acc) xs None"

lemma last_some_snoc [simp]:
  "last_some f [] = None"
  "last_some f (xs @ [x]) = (case f x of Some y \<Rightarrow> Some y | None \<Rightarrow> last_some f xs)"
  unfolding last_some_def by (simp_all split: option.split)

definition reference_result ::
  "string \<Rightarrow> (Provider \<times> Outgoing \<times> reply) list \<Rightarrow> (GatewayError, hit) result" where
  "reference_result resolved_model sent =
     (case Option.bind (find (\<lambda>x. \<not> retryable_entry x) sent) reply_hit of
        Some h \<Rightarrow> Ok h
      | None \<Rightarrow>
          (case last_some reply_hit sent of
             Some h \<Rightarrow> Ok h
           | None \<Rightarrow>
               Err (case last_some reply_error sent of
                      Some e \<Rightarrow> e | None \<Rightarrow> NoProvider resolved_model)))"

text \<open>What the variables of the loop stand for, until a response is served.\<close>

definition fo_ok :: "failover_state \<Rightarrow> bool" where
  "fo_ok st \<longleftrightarrow>
     (case fo_served st of
        Some h \<Rightarrow> (\<exists>init x. fo_sent st = init @ [x] \<and> list_all retryable_entry init
                     \<and> \<not> retryable_entry x \<and> reply_hit x = Some h)
      | None \<Rightarrow> list_all retryable_entry (fo_sent st)
                \<and> fo_fallback st = last_some reply_hit (fo_sent st)
                \<and> fo_last_err st = last_some reply_error (fo_sent st))"

lemma fo_ok_result:
  assumes "fo_ok st"
  shows "failover_result m st = reference_result m (fo_sent st)"
proof (cases "fo_served st")
  case None
  then have "find (\<lambda>x. \<not> retryable_entry x) (fo_sent st) = None"
    using assms by (auto simp: fo_ok_def find_None_iff list_all_iff)
  then show ?thesis
    using None assms by (simp add: failover_result_def reference_result_def fo_ok_def split: option.splits)
next
  case (Some h)
  then obtain init x where x: "fo_sent st = init @ [x]" "list_all retryable_entry init"
    "\<not> retryable_entry x" "reply_hit x = Some h"
    using assms by (auto simp: fo_ok_def)
  have "find (\<lambda>x. \<not> retryable_entry x) (init @ [x]) = Some x"
    using x(2,3) by (induction init) simp_all
  then show ?thesis using Some x by (simp add: failover_result_def reference_result_def)
qed

lemma fo_ok_new: "fo_ok failover_new"
  by (simp add: fo_ok_def failover_new_def)

lemma attempts_ok:
  "fo_ok st \<Longrightarrow> fo_served st = None \<Longrightarrow> attempts U p b attempt left ra st = (c, st')
     \<Longrightarrow> fo_ok st' \<and> (c = NextProvider \<longrightarrow> fo_served st' = None)"
proof (induction left arbitrary: attempt ra st)
  case 0
  then show ?case by simp
next
  case (Suc n)
  let ?st0 = "if 0 < attempt
      then st\<lparr>fo_slept := fo_slept st @ [case ra of Some d \<Rightarrow> d | None \<Rightarrow> RETRY_BASE_DELAY * 2 ^ (attempt - 1)]\<rparr>
      else st"
  obtain r st1 where send: "send_upstream U p b ?st0 = (r, st1)" by (cases "send_upstream U p b ?st0")
  have "fo_ok ?st0" "fo_served ?st0 = None" "fo_sent ?st0 = fo_sent st"
    using Suc.prems by (simp_all add: fo_ok_def)
  then obtain out where out: "fo_sent st1 = fo_sent st @ [(p, out, r)]" "og_body out = b" "fo_served st1 = None"
    and st1: "list_all retryable_entry (fo_sent st)" "fo_fallback st1 = last_some reply_hit (fo_sent st)"
    "fo_last_err st1 = last_some reply_error (fo_sent st)"
    using send_upstream_simps [OF send] by (auto simp: fo_ok_def)
  show ?case
  proof (cases r)
    case (TransportError e)
    then have "fo_ok (st1\<lparr>fo_last_err := Some (Upstream e)\<rparr>)"
      using out st1 by (simp add: fo_ok_def retryable_entry_def retryable_reply_def)
    moreover have "attempts U p b (Suc attempt) n None (st1\<lparr>fo_last_err := Some (Upstream e)\<rparr>) = (c, st')"
      using Suc.prems(3) send TransportError by (simp add: Let_def)
    moreover have "fo_served (st1\<lparr>fo_last_err := Some (Upstream e)\<rparr>) = None" using out(3) by simp
    ultimately show ?thesis using Suc.IH by blast
  next
    case (Reply resp)
    show ?thesis
    proof (cases "is_retryable (ur_status resp)")
      case False
      then have "st' = st1\<lparr>fo_served := Some (p, resp, b)\<rparr>" "c = BreakFailover"
        using Suc.prems(3) send Reply by (simp_all add: Let_def)
      then show ?thesis
        using False Reply out st1 by (simp add: fo_ok_def retryable_entry_def retryable_reply_def)
    next
      case True
      let ?st2 = "st1\<lparr>fo_fallback := Some (p, resp, b)\<rparr>"
      have ok: "fo_ok ?st2" "fo_served ?st2 = None"
        using True Reply out st1 by (simp_all add: fo_ok_def retryable_entry_def retryable_reply_def)
      have "(c, st') = (NextProvider, ?st2) \<or> (\<exists>w. attempts U p b (Suc attempt) n w ?st2 = (c, st'))"
        using Suc.prems(3) send Reply True by (auto simp: Let_def split: option.splits if_splits)
      then show ?thesis using ok Suc.IH by blast
    qed
  qed
qed

lemma failover_ok:
  "fo_ok st \<Longrightarrow> fo_served st = None \<Longrightarrow> failover U outbound ps st = (r, st') \<Longrightarrow> fo_ok st'"
proof (induction ps arbitrary: st)
  case Nil
  then show ?case by simp
next
  case (Cons p ps)
  show ?case
  proof (cases "\<exists>b. outbound p = Some (Ok b)")
    case True
    then obtain b c st1 where b: "outbound p = Some (Ok b)"
      and at: "attempts U p b 0 MAX_ATTEMPTS_PER_PROVIDER None st = (c, st1)"
      by (metis surj_pair)
    note ok = attempts_ok [OF Cons.prems(1,2) at]
    show ?thesis
    proof (cases c)
      case BreakFailover
      then show ?thesis using ok Cons.prems(3) b at by simp
    next
      case NextProvider
      then have "failover U outbound ps st1 = (r, st')" using Cons.prems(3) b at by simp
      then show ?thesis using Cons.IH [of st1] ok NextProvider by simp
    qed
  next
    case False
    then show ?thesis using Cons.prems by (auto split: option.splits sum.splits)
  qed
qed

text \<open>Which candidates were tried, in order, and how often.\<close>

definition tried :: "Provider list \<Rightarrow> (Provider \<times> Outgoing \<times> reply) list \<Rightarrow> bool" where
  "tried ps sent \<longleftrightarrow>
     (\<exists>ns. length ns \<le> length ps \<and> (\<forall>n\<in>set ns. n \<le> MAX_ATTEMPTS_PER_PROVIDER)
        \<and> map fst sent = concat (map (\<lambda>(p, n). replicate n p) (zip ps ns)))"

lemma tried_length: "tried ps sent \<Longrightarrow> length sent \<le> MAX_ATTEMPTS_PER_PROVIDER * length ps"
proof -
  assume "tried ps sent"
  then obtain ns where ns: "length ns \<le> length ps" "\<forall>n\<in>set ns. n \<le> MAX_ATTEMPTS_PER_PROVIDER"
    "map fst sent = concat (map (\<lambda>(p, n). replicate n p) (zip ps ns))"
    by (auto simp: tried_def)
  have "length (concat (map (\<lambda>(p, n). replicate n p) (zip ps ns))) \<le> MAX_ATTEMPTS_PER_PROVIDER * length ps"
    using ns(1,2)
  proof (induction ps arbitrary: ns)
    case (Cons p ps)
    then show ?case by (cases ns) fastforce+
  qed simp
  then show ?thesis by (metis length_map ns(3))
qed

lemma tried_Nil: "tried ps []"
  by (auto simp: tried_def intro!: exI [of _ "[]"])

lemma tried_Cons:
  assumes "length new \<le> MAX_ATTEMPTS_PER_PROVIDER" "list_all (\<lambda>(q, out, r). q = p \<and> og_body out = b) new"
    and "tried ps rest"
  shows "tried (p # ps) (new @ rest)"
proof -
  obtain ns where ns: "length ns \<le> length ps" "\<forall>n\<in>set ns. n \<le> MAX_ATTEMPTS_PER_PROVIDER"
    "map fst rest = concat (map (\<lambda>(p, n). replicate n p) (zip ps ns))"
    using assms(3) by (auto simp: tried_def)
  have "map fst new = replicate (length new) p"
    using assms(2) by (intro replicate_eqI) (auto simp: list_all_iff)
  then show ?thesis
    unfolding tried_def using ns assms(1) by (intro exI [of _ "length new # ns"]) simp
qed

lemma sent_byE:
  assumes "sent_by p b n st (c, st')"
  obtains new naps where "fo_sent st' = fo_sent st @ new" "fo_slept st' = fo_slept st @ naps"
    "length new \<le> n" "list_all (\<lambda>(q, out, r). q = p \<and> og_body out = b) new"
    "length naps \<le> n" "list_all (\<lambda>d. d \<le> MAX_RETRY_AFTER) naps"
    "c = NextProvider \<Longrightarrow> list_all (\<lambda>(q, out, r). retryable_reply r) new \<and> fo_served st' = fo_served st"
    "c = BreakFailover \<Longrightarrow> \<exists>init out resp. new = init @ [(p, out, Reply resp)]
       \<and> \<not> is_retryable (ur_status resp) \<and> list_all (\<lambda>(q, out, r). retryable_reply r) init
       \<and> fo_served st' = Some (p, resp, b)"
  using assms unfolding sent_by_def by (cases c) auto

lemma failover_tried:
  assumes "failover U outbound ps st = (r, st')"
  shows "\<exists>new naps. fo_sent st' = fo_sent st @ new \<and> tried ps new
    \<and> fo_slept st' = fo_slept st @ naps \<and> list_all (\<lambda>d. d \<le> MAX_RETRY_AFTER) naps
    \<and> list_all (\<lambda>(p, out, r). outbound p = Some (Ok (og_body out))) new"
  using assms
proof (induction ps arbitrary: st)
  case Nil
  then show ?case by (simp add: tried_Nil)
next
  case (Cons p ps)
  show ?case
  proof (cases "\<exists>b. outbound p = Some (Ok b)")
    case False
    then show ?thesis using Cons.prems by (auto simp: tried_Nil split: option.splits sum.splits)
  next
    case True
    then obtain b c st1 where b: "outbound p = Some (Ok b)"
      and at: "attempts U p b 0 MAX_ATTEMPTS_PER_PROVIDER None st = (c, st1)"
      by (metis surj_pair)
    have "sent_by p b MAX_ATTEMPTS_PER_PROVIDER st (c, st1)"
      using attempts_sent_by [of 0 MAX_ATTEMPTS_PER_PROVIDER None p b st U] at by simp
    then obtain new naps where n: "fo_sent st1 = fo_sent st @ new" "fo_slept st1 = fo_slept st @ naps"
      "length new \<le> MAX_ATTEMPTS_PER_PROVIDER" "list_all (\<lambda>(q, out, r). q = p \<and> og_body out = b) new"
      "list_all (\<lambda>d. d \<le> MAX_RETRY_AFTER) naps"
      by (rule sent_byE) blast
    have body: "list_all (\<lambda>(p, out, r). outbound p = Some (Ok (og_body out))) new"
      using n(4) b by (auto simp: list_all_iff)
    show ?thesis
    proof (cases c)
      case BreakFailover
      then have "st' = st1" using Cons.prems b at by simp
      then show ?thesis using n body tried_Cons [OF n(3,4) tried_Nil] by fastforce
    next
      case NextProvider
      then have "failover U outbound ps st1 = (r, st')" using Cons.prems b at by simp
      then obtain rest naps' where r: "fo_sent st' = fo_sent st1 @ rest" "tried ps rest"
        "fo_slept st' = fo_slept st1 @ naps'" "list_all (\<lambda>d. d \<le> MAX_RETRY_AFTER) naps'"
        "list_all (\<lambda>(p, out, r). outbound p = Some (Ok (og_body out))) rest"
        using Cons.IH by blast
      then show ?thesis
        using n body tried_Cons [OF n(3,4) r(2)]
        by (intro exI [of _ "new @ rest"] exI [of _ "naps @ naps'"]) simp
    qed
  qed
qed

text \<open>Every request is built for its provider from the client's headers.\<close>

definition built :: "upstream_call \<Rightarrow> failover_state \<Rightarrow> bool" where
  "built U st \<longleftrightarrow> (\<forall>(p, out, r)\<in>set (fo_sent st).
     og_headers out = og_headers (build_request p (up_kind U) (og_body out) (up_headers U)))"

lemma send_upstream_built: "send_upstream U p b st = (r, st') \<Longrightarrow> built U st \<Longrightarrow> built U st'"
  by (auto simp: send_upstream_def built_def Let_def)

lemma attempts_built: "attempts U p b attempt left ra st = (c, st') \<Longrightarrow> built U st \<Longrightarrow> built U st'"
proof (induction left arbitrary: attempt ra st)
  case 0
  then show ?case by simp
next
  case (Suc n)
  let ?st0 = "if 0 < attempt
      then st\<lparr>fo_slept := fo_slept st @ [case ra of Some d \<Rightarrow> d | None \<Rightarrow> RETRY_BASE_DELAY * 2 ^ (attempt - 1)]\<rparr>
      else st"
  obtain r st1 where send: "send_upstream U p b ?st0 = (r, st1)" by (cases "send_upstream U p b ?st0")
  have same: "built U (s\<lparr>fo_fallback := f\<rparr>) = built U s" "built U (s\<lparr>fo_served := f\<rparr>) = built U s"
    "built U (s\<lparr>fo_last_err := e\<rparr>) = built U s" "built U (s\<lparr>fo_slept := n\<rparr>) = built U s" for s f e n
    by (simp_all add: built_def)
  have st1: "built U st1" using send_upstream_built [OF send] Suc.prems(2) by (simp add: same)
  have "st' = st1\<lparr>fo_served := fo_served st'\<rparr> \<or> st' = st1\<lparr>fo_fallback := fo_fallback st'\<rparr>
      \<or> (\<exists>w f. attempts U p b (Suc attempt) n w (st1\<lparr>fo_fallback := f\<rparr>) = (c, st'))
      \<or> (\<exists>w e. attempts U p b (Suc attempt) n w (st1\<lparr>fo_last_err := e\<rparr>) = (c, st'))"
    using Suc.prems(1) send by (auto simp: Let_def split: reply.splits option.splits if_splits)
  then show ?case using Suc.IH same st1 by metis
qed

lemma failover_built: "failover U outbound ps st = (r, st') \<Longrightarrow> built U st
    \<Longrightarrow> (p, out, rep) \<in> set (fo_sent st')
    \<Longrightarrow> og_headers out = og_headers (build_request p (up_kind U) (og_body out) (up_headers U))"
proof -
  have "failover U outbound ps st = (r, st') \<Longrightarrow> built U st \<Longrightarrow> built U st'"
    by (induction ps arbitrary: st)
      (auto split: option.splits sum.splits prod.splits control.splits dest: attempts_built)
  then show "failover U outbound ps st = (r, st') \<Longrightarrow> built U st
    \<Longrightarrow> (p, out, rep) \<in> set (fo_sent st')
    \<Longrightarrow> og_headers out = og_headers (build_request p (up_kind U) (og_body out) (up_headers U))"
    by (fastforce simp: built_def)
qed

text \<open>
  An error while translating for a later candidate returns at once, although an earlier one has
  answered: the response kept for this case is dropped.
\<close>

lemma attempts_503:
  assumes "\<And>n out. up_answer U n out = Reply resp" "ur_status resp = 503"
  shows "\<exists>st'. attempts U p b k (Suc n) ra st = (NextProvider, st')
      \<and> fo_served st' = fo_served st \<and> fo_fallback st' = Some (p, resp, b)"
proof (induction n arbitrary: k ra st)
  case 0
  show ?case using assms by (simp add: send_upstream_def Let_def is_retryable_def)
next
  case (Suc n)
  let ?st0 = "if 0 < k
      then st\<lparr>fo_slept := fo_slept st @ [case ra of Some d \<Rightarrow> d | None \<Rightarrow> RETRY_BASE_DELAY * 2 ^ (k - 1)]\<rparr>
      else st"
  obtain st1 where st1: "send_upstream U p b ?st0 = (Reply resp, st1)" "fo_served st1 = fo_served st"
    using assms(1) by (auto simp: send_upstream_def Let_def)
  then have "attempts U p b k (Suc (Suc n)) ra st =
      attempts U p b (Suc k) (Suc n) None (st1\<lparr>fo_fallback := Some (p, resp, b)\<rparr>)"
    using assms(2) by (subst attempts.simps(2)) (simp add: Let_def is_retryable_def del: attempts.simps)
  then show ?case
    using Suc.IH [of "Suc k" None "st1\<lparr>fo_fallback := Some (p, resp, b)\<rparr>"] st1(2) by simp
qed

lemma kept_response_dropped:
  assumes "outbound p = Some (Ok b)" "outbound q = Some (Err e)"
    and "\<And>n out. up_answer U n out = Reply resp" "ur_status resp = 503"
  shows "\<exists>st. failover U outbound [p, q] failover_new = (Err (Some e), st)
    \<and> failover_result m st = Ok (p, resp, b)"
proof -
  obtain st' where "attempts U p b 0 (Suc 2) None failover_new = (NextProvider, st')"
    "fo_served st' = fo_served failover_new" "fo_fallback st' = Some (p, resp, b)"
    using attempts_503 [OF assms(3,4)] by blast
  moreover have "MAX_ATTEMPTS_PER_PROVIDER = Suc 2" by (simp add: MAX_ATTEMPTS_PER_PROVIDER_def)
  ultimately show ?thesis
    using assms(1,2) by (simp add: failover_result_def failover_new_def del: attempts.simps)
qed

end
