(* ===== verification/GateCache.thy ===== *)
theory GateCache
  imports GateRequest
begin

text \<open>
  The cache shared by all replicas of the AI gateway (\<open>cache.rs\<close>) and the interface its users
  rely on. A stored value is kept with the namespace's type instead of its JSON text; the time
  is in seconds. While the connection is down every read is a miss and every write is lost.
\<close>

section \<open>Stored values\<close>

record VirtualKey =
  vk_id :: string
  vk_name :: string
  vk_allowed_models :: "string list"
  vk_monthly_token_budget :: "i64 option"

record CachedResponse =
  cr_status :: nat
  cr_content_type :: string
  cr_body :: string
  cr_input_tokens :: i64
  cr_output_tokens :: i64

datatype cache_value =
    KeyJson VirtualKey
  | Total i64
  | ResponseJson CachedResponse

record Cache =
  ca_entries :: "(cache_value \<times> int) hmap"
  ca_up :: bool

section \<open>Operations\<close>

definition cache_peek :: "Cache \<Rightarrow> int \<Rightarrow> string \<Rightarrow> cache_value option" where
  "cache_peek c now k =
     (case hget (ca_entries c) k of
        None \<Rightarrow> None | Some (v, expiry) \<Rightarrow> if now < expiry then Some v else None)"

definition cache_get :: "Cache \<Rightarrow> int \<Rightarrow> string \<Rightarrow> cache_value option" where
  "cache_get c now k = (if ca_up c then cache_peek c now k else None)"

definition cache_set :: "int \<Rightarrow> string \<Rightarrow> cache_value \<Rightarrow> int \<Rightarrow> Cache \<Rightarrow> Cache" where
  "cache_set ttl k v now c =
     (if ca_up c then c\<lparr>ca_entries := hinsert k (v, now + ttl) (ca_entries c)\<rparr> else c)"

text \<open>\<open>invalidate\<close> of a prefix followed by \<open>*\<close>: the scan, or nothing when it fails.\<close>

definition cache_invalidate :: "string \<Rightarrow> Cache \<Rightarrow> Cache" where
  "cache_invalidate prefix c =
     (if ca_up c then c\<lparr>ca_entries := filter (\<lambda>(k, _). \<not> starts_with k prefix) (ca_entries c)\<rparr> else c)"

text \<open>The typed reads: a value of another type does not parse.\<close>

fun as_key_json :: "cache_value \<Rightarrow> VirtualKey option" where
  "as_key_json (KeyJson v) = Some v"
| "as_key_json _ = None"

fun as_total :: "cache_value \<Rightarrow> i64 option" where
  "as_total (Total n) = Some n"
| "as_total _ = None"

fun as_response_json :: "cache_value \<Rightarrow> CachedResponse option" where
  "as_response_json (ResponseJson r) = Some r"
| "as_response_json _ = None"

definition get_key_json :: "Cache \<Rightarrow> int \<Rightarrow> string \<Rightarrow> VirtualKey option" where
  "get_key_json c now k = Option.bind (cache_get c now k) as_key_json"

definition get_i64 :: "Cache \<Rightarrow> int \<Rightarrow> string \<Rightarrow> i64 option" where
  "get_i64 c now k = Option.bind (cache_get c now k) as_total"

definition get_response_json :: "Cache \<Rightarrow> int \<Rightarrow> string \<Rightarrow> CachedResponse option" where
  "get_response_json c now k = Option.bind (cache_get c now k) as_response_json"

text \<open>The typed writes.\<close>

definition set_key_json :: "int \<Rightarrow> string \<Rightarrow> VirtualKey \<Rightarrow> int \<Rightarrow> Cache \<Rightarrow> Cache" where
  "set_key_json ttl k v now c = cache_set ttl k (KeyJson v) now c"

definition set_i64 :: "int \<Rightarrow> string \<Rightarrow> i64 \<Rightarrow> int \<Rightarrow> Cache \<Rightarrow> Cache" where
  "set_i64 ttl k n now c = cache_set ttl k (Total n) now c"

definition set_response_json :: "int \<Rightarrow> string \<Rightarrow> CachedResponse \<Rightarrow> int \<Rightarrow> Cache \<Rightarrow> Cache" where
  "set_response_json ttl k r now c = cache_set ttl k (ResponseJson r) now c"

section \<open>The interface\<close>

text \<open>
  What a user of a cache with expiry relies on: a read yields nothing that was not stored under
  that key, and time only takes values away. \<open>sound\<close> is what a user wants of all it may read.
\<close>

locale ttl_cache =
  fixes look :: "'c \<Rightarrow> int \<Rightarrow> string \<Rightarrow> 'v option"
    and store :: "string \<Rightarrow> 'v \<Rightarrow> int \<Rightarrow> 'c \<Rightarrow> 'c"
  assumes look_store:
      "look (store k v now c) t k' = Some v' \<Longrightarrow> k' = k \<and> v' = v \<or> look c t k' = Some v'"
    and look_later: "t \<le> t' \<Longrightarrow> look c t' k = Some v \<Longrightarrow> look c t k = Some v"
begin

definition sound :: "(string \<Rightarrow> 'v \<Rightarrow> bool) \<Rightarrow> 'c \<Rightarrow> int \<Rightarrow> bool" where
  "sound P c now \<longleftrightarrow> (\<forall>k v. look c now k = Some v \<longrightarrow> P k v)"

lemma soundD: "sound P c now \<Longrightarrow> look c now k = Some v \<Longrightarrow> P k v"
  by (simp add: sound_def)

lemma sound_store: "sound P c now \<Longrightarrow> P k v \<Longrightarrow> sound P (store k v t c) now"
  unfolding sound_def by (blast dest: look_store)

lemma sound_later: "sound P c now \<Longrightarrow> now \<le> now' \<Longrightarrow> sound P c now'"
  unfolding sound_def by (blast dest: look_later)

lemma sound_weaken: "sound P c now \<Longrightarrow> (\<And>k v. P k v \<Longrightarrow> Q k v) \<Longrightarrow> sound Q c now"
  unfolding sound_def by blast

text \<open>Reading through: a hit, or the value the source of truth gives, which is then stored.\<close>

definition read_through ::
  "('a \<Rightarrow> ('e, 'v) result) \<Rightarrow> 'a \<Rightarrow> string \<Rightarrow> int \<Rightarrow> 'c \<Rightarrow> ('e, 'v) result \<times> 'c" where
  "read_through source x k now c =
     (case look c now k of
        Some v \<Rightarrow> (Ok v, c)
      | None \<Rightarrow> (case source x of Err e \<Rightarrow> (Err e, c) | Ok v \<Rightarrow> (Ok v, store k v now c)))"

lemma read_through_sound:
  assumes "sound P c now" "\<And>v. source x = Ok v \<Longrightarrow> P k v"
    and "read_through source x k now c = (r, c')"
  shows "sound P c' now" "r = Ok v \<Longrightarrow> P k v"
  using assms sound_store [OF assms(1), of k]
  by (auto simp: read_through_def dest: soundD split: option.splits sum.splits)

lemma read_through_miss:
  "look c now k = None \<Longrightarrow> fst (read_through source x k now c) = source x"
  by (simp add: read_through_def split: sum.split)

end

lemma cache_peek_set:
  "cache_peek (cache_set ttl k v now c) t k' =
     (if ca_up c \<and> k' = k then (if t < now + ttl then Some v else None) else cache_peek c t k')"
  by (simp add: cache_peek_def cache_set_def update_conv')

lemma cache_set_up [simp]: "ca_up (cache_set ttl k v now c) = ca_up c"
  by (simp add: cache_set_def)

lemma cache_invalidate_up [simp]: "ca_up (cache_invalidate p c) = ca_up c"
  by (simp add: cache_invalidate_def)

lemma cache_get_set:
  "cache_get (cache_set ttl k v now c) t k' = Some v' \<Longrightarrow> k' = k \<and> v' = v \<or> cache_get c t k' = Some v'"
  by (auto simp: cache_get_def cache_peek_set split: if_splits)

lemma cache_get_later: "t \<le> t' \<Longrightarrow> cache_get c t' k = Some v \<Longrightarrow> cache_get c t k = Some v"
  by (auto simp: cache_get_def cache_peek_def split: option.splits if_splits)

lemma map_of_filter_key:
  "map_of (filter (\<lambda>(k, _). P k) es) k = (if P k then map_of es k else None)"
  by (induction es) auto

lemma cache_peek_invalidate:
  "cache_peek (cache_invalidate p c) t k =
     (if ca_up c \<and> starts_with k p then None else cache_peek c t k)"
  by (auto simp: cache_peek_def cache_invalidate_def map_of_filter_key)

lemma cache_peek_set':
  "cache_peek (cache_set ttl k v now c) t k' = Some v' \<Longrightarrow> k' = k \<and> v' = v \<or> cache_peek c t k' = Some v'"
  by (auto simp: cache_peek_set split: if_splits)

lemma cache_peek_later: "t \<le> t' \<Longrightarrow> cache_peek c t' k = Some v \<Longrightarrow> cache_peek c t k = Some v"
  by (auto simp: cache_peek_def split: option.splits if_splits)

text \<open>Every namespace is such a cache, whatever the type of its values.\<close>

lemma typed_cache:
  fixes g :: "Cache \<Rightarrow> int \<Rightarrow> string \<Rightarrow> cache_value option"
  assumes con: "\<And>x v. proj x = Some v \<longleftrightarrow> x = con v"
    and set_law: "\<And>k v now c t k' v'. g (cache_set ttl k v now c) t k' = Some v'
      \<Longrightarrow> k' = k \<and> v' = v \<or> g c t k' = Some v'"
    and later: "\<And>t t' c k v. t \<le> t' \<Longrightarrow> g c t' k = Some v \<Longrightarrow> g c t k = Some v"
  shows "ttl_cache (\<lambda>c now k. Option.bind (g c now k) proj) (\<lambda>k v. cache_set ttl k (con v))"
proof
  fix k v now c t k' v'
  assume "Option.bind (g (cache_set ttl k (con v) now c) t k') proj = Some v'"
  then have "g (cache_set ttl k (con v) now c) t k' = Some (con v')"
    using con by (auto simp: bind_eq_Some_conv)
  then have "k' = k \<and> con v' = con v \<or> g c t k' = Some (con v')"
    by (rule set_law)
  then show "k' = k \<and> v' = v \<or> Option.bind (g c t k') proj = Some v'"
    using con by (metis bind.bind_lunit option.inject)
next
  fix t t' :: int and c k v
  assume "t \<le> t'" "Option.bind (g c t' k) proj = Some v"
  then show "Option.bind (g c t k) proj = Some v"
    by (auto simp: bind_eq_Some_conv intro: later)
qed

lemma as_value_iff:
  "as_key_json x = Some v \<longleftrightarrow> x = KeyJson v" "as_total x = Some n \<longleftrightarrow> x = Total n"
  "as_response_json x = Some r \<longleftrightarrow> x = ResponseJson r"
  by (cases x; simp; blast)+

interpretation key_cache: ttl_cache get_key_json "set_key_json ttl" for ttl
  unfolding get_key_json_def [abs_def] set_key_json_def [abs_def]
  by (rule typed_cache [OF as_value_iff(1) cache_get_set cache_get_later])

interpretation total_cache: ttl_cache get_i64 "set_i64 ttl" for ttl
  unfolding get_i64_def [abs_def] set_i64_def [abs_def]
  by (rule typed_cache [OF as_value_iff(2) cache_get_set cache_get_later])

interpretation response_cache: ttl_cache get_response_json "set_response_json ttl" for ttl
  unfolding get_response_json_def [abs_def] set_response_json_def [abs_def]
  by (rule typed_cache [OF as_value_iff(3) cache_get_set cache_get_later])

text \<open>What the key namespace holds, also while the connection is down.\<close>

definition held_key :: "Cache \<Rightarrow> int \<Rightarrow> string \<Rightarrow> VirtualKey option" where
  "held_key c now k = Option.bind (cache_peek c now k) as_key_json"

interpretation held_keys: ttl_cache held_key "set_key_json ttl" for ttl
  unfolding held_key_def [abs_def] set_key_json_def [abs_def]
  by (rule typed_cache [OF as_value_iff(1) cache_peek_set' cache_peek_later])

lemma get_key_json_held: "get_key_json c now k = (if ca_up c then held_key c now k else None)"
  by (simp add: get_key_json_def held_key_def cache_get_def)

lemma held_key_invalidate:
  "held_key (cache_invalidate p c) now k =
     (if ca_up c \<and> starts_with k p then None else held_key c now k)"
  by (simp add: held_key_def cache_peek_invalidate)

end
