(* ===== verification/GateKeys.thy ===== *)
theory GateKeys
  imports GateCache
begin

text \<open>
  The virtual keys of the AI gateway: \<open>keys/mod.rs\<close> and \<open>keys/types.rs\<close> over the tables of
  \<open>migrations/\<close>. Each SQL statement is one atomic change of the tables; a statement fails as a
  whole when the database is unreachable (\<open>gd_fault\<close>) or a unique index is violated. SHA-256
  and the random draws are arguments; the time is in seconds.
\<close>

section \<open>Tables\<close>

record KeyRow =
  kr_id :: string
  kr_name :: string
  kr_key_hash :: string
  kr_allowed_models :: "string list"
  kr_monthly_token_budget :: "i64 option"
  kr_revoked :: bool
  kr_created_at :: int

record UsageEvent =
  ue_key_id :: "string option"
  ue_key_name :: string
  ue_provider :: string
  ue_requested_model :: string
  ue_resolved_model :: string
  ue_input_tokens :: i64
  ue_output_tokens :: i64
  ue_latency_ms :: i64
  ue_status :: nat
  ue_cost_usd :: f64
  ue_cache_hit :: bool
  ue_request_body :: "string option"
  ue_response_body :: "string option"

record ModelPrice =
  mp_id :: string
  mp_input_usd_per_mtok :: f64
  mp_output_usd_per_mtok :: f64
  mp_cached_usd_per_mtok :: "f64 option"

record GateDb =
  gd_keys :: "KeyRow list"
  gd_usage :: "(UsageEvent \<times> int) list"
  gd_prices :: "ModelPrice list"
  gd_fault :: "string option"

record KeyStore =
  ks_db :: GateDb
  ks_cache :: "Cache option"

definition query :: "KeyStore \<Rightarrow> 'a \<Rightarrow> (GatewayError, 'a) result" where
  "query ks a = (case gd_fault (ks_db ks) of Some e \<Rightarrow> Err (Database e) | None \<Rightarrow> Ok a)"

section \<open>Keys\<close>

definition key_allows :: "VirtualKey \<Rightarrow> string \<Rightarrow> bool" where
  "key_allows key model = (vk_allowed_models key = [] \<or> model \<in> set (vk_allowed_models key))"

record KeyInfo =
  ki_id :: string
  ki_name :: string
  ki_allowed_models :: "string list"
  ki_monthly_token_budget :: "i64 option"
  ki_revoked :: bool
  ki_created_at :: int

definition key_info :: "KeyRow \<Rightarrow> KeyInfo" where
  "key_info r =
     \<lparr>ki_id = kr_id r, ki_name = kr_name r, ki_allowed_models = kr_allowed_models r,
      ki_monthly_token_budget = kr_monthly_token_budget r, ki_revoked = kr_revoked r,
      ki_created_at = kr_created_at r\<rparr>"

record UpdateKey =
  uk_name :: "string option"
  uk_allowed_models :: "string list option"
  uk_monthly_token_budget :: "i64 option"
  uk_revoked :: "bool option"

definition BASE62 :: string where
  "BASE62 = ''0123456789ABCDEFGHIJKLMNOPQRSTUVWXYZabcdefghijklmnopqrstuvwxyz''"

text \<open>\<open>generate_token\<close> for the numbers the random generator draws.\<close>

definition generate_token :: "nat list \<Rightarrow> string" where
  "generate_token draws = ''aig_'' @ map (\<lambda>i. BASE62 ! i) draws"

definition key_cache_key :: "string \<Rightarrow> string" where
  "key_cache_key h = ''aig:key:'' @ h"

definition budget_key :: "string \<Rightarrow> string" where
  "budget_key i = ''aig:budget:'' @ i"

definition KEY_CACHE_TTL :: int where
  "KEY_CACHE_TTL = 3600"

definition BUDGET_CACHE_TTL :: int where
  "BUDGET_CACHE_TTL = 60"

definition invalidate_keys :: "KeyStore \<Rightarrow> KeyStore" where
  "invalidate_keys ks = ks\<lparr>ks_cache := map_option (cache_invalidate ''aig:key:'') (ks_cache ks)\<rparr>"

section \<open>Authentication\<close>

definition find_key :: "GateDb \<Rightarrow> string \<Rightarrow> VirtualKey option" where
  "find_key db h =
     map_option (\<lambda>r. \<lparr>vk_id = kr_id r, vk_name = kr_name r, vk_allowed_models = kr_allowed_models r,
                      vk_monthly_token_budget = kr_monthly_token_budget r\<rparr>)
       (find (\<lambda>r. kr_key_hash r = h \<and> \<not> kr_revoked r) (gd_keys db))"

definition select_key :: "KeyStore \<Rightarrow> string \<Rightarrow> (GatewayError, VirtualKey) result" where
  "select_key ks h =
     (case query ks (find_key (ks_db ks) h) of
        Err e \<Rightarrow> Err e
      | Ok None \<Rightarrow> Err InvalidKey
      | Ok (Some key) \<Rightarrow> Ok key)"

definition authenticate ::
  "(string \<Rightarrow> string) \<Rightarrow> int \<Rightarrow> string \<Rightarrow> KeyStore \<Rightarrow> (GatewayError, VirtualKey) result \<times> KeyStore" where
  "authenticate sha now raw ks =
     (let h = sha raw
      in case Option.bind (ks_cache ks) (\<lambda>c. get_key_json c now (key_cache_key h)) of
           Some key \<Rightarrow> (Ok key, ks)
         | None \<Rightarrow>
             (case select_key ks h of
                Err e \<Rightarrow> (Err e, ks)
              | Ok key \<Rightarrow>
                  (Ok key,
                   ks\<lparr>ks_cache := map_option (set_key_json KEY_CACHE_TTL (key_cache_key h) key now)
                        (ks_cache ks)\<rparr>)))"

section \<open>Budgets\<close>

text \<open>
  \<open>month_start\<close> is \<open>date_trunc('month', now())\<close>. \<open>input_tokens + output_tokens\<close> and the cast of
  the sum to \<open>bigint\<close> fail outside the range of \<open>i64\<close>.
\<close>

definition in_i64 :: "int \<Rightarrow> bool" where
  "in_i64 n \<longleftrightarrow> - (2 ^ 63) \<le> n \<and> n < 2 ^ 63"

definition tokens :: "UsageEvent \<Rightarrow> int" where
  "tokens u = sint (ue_input_tokens u) + sint (ue_output_tokens u)"

definition month_events :: "(int \<Rightarrow> int) \<Rightarrow> int \<Rightarrow> GateDb \<Rightarrow> string \<Rightarrow> UsageEvent list" where
  "month_events month_start now db i =
     map fst (filter (\<lambda>(u, t). ue_key_id u = Some i \<and> month_start now \<le> t) (gd_usage db))"

definition sum_tokens :: "UsageEvent list \<Rightarrow> (GatewayError, i64) result" where
  "sum_tokens us =
     (if list_all (\<lambda>u. in_i64 (tokens u)) us \<and> in_i64 (sum_list (map tokens us))
      then Ok (word_of_int (sum_list (map tokens us))) else Err (Database ''bigint out of range''))"

definition month_to_date_tokens ::
  "(int \<Rightarrow> int) \<Rightarrow> int \<Rightarrow> string \<Rightarrow> KeyStore \<Rightarrow> (GatewayError, i64) result \<times> KeyStore" where
  "month_to_date_tokens month_start now i ks =
     (case Option.bind (ks_cache ks) (\<lambda>c. get_i64 c now (budget_key i)) of
        Some n \<Rightarrow> (Ok n, ks)
      | None \<Rightarrow>
          (case query ks (month_events month_start now (ks_db ks) i) of
             Err e \<Rightarrow> (Err e, ks)
           | Ok us \<Rightarrow>
               (case sum_tokens us of
                  Err e \<Rightarrow> (Err e, ks)
                | Ok n \<Rightarrow>
                    (Ok n,
                     ks\<lparr>ks_cache := map_option (set_i64 BUDGET_CACHE_TTL (budget_key i) n now)
                          (ks_cache ks)\<rparr>))))"

text \<open>\<open>usage::record\<close>: a failure is only logged.\<close>

definition record_usage :: "UsageEvent \<Rightarrow> int \<Rightarrow> KeyStore \<Rightarrow> KeyStore" where
  "record_usage u now ks =
     (case gd_fault (ks_db ks) of
        Some _ \<Rightarrow> ks
      | None \<Rightarrow> ks\<lparr>ks_db := (ks_db ks)\<lparr>gd_usage := gd_usage (ks_db ks) @ [(u, now)]\<rparr>\<rparr>)"

section \<open>Administration\<close>

definition set_keys :: "KeyRow list \<Rightarrow> KeyStore \<Rightarrow> KeyStore" where
  "set_keys rows ks = ks\<lparr>ks_db := (ks_db ks)\<lparr>gd_keys := rows\<rparr>\<rparr>"

text \<open>The unique indexes on \<open>id\<close>, \<open>name\<close> and \<open>key_hash\<close>.\<close>

definition keys_unique :: "KeyRow list \<Rightarrow> bool" where
  "keys_unique rows \<longleftrightarrow>
     distinct (map kr_id rows) \<and> distinct (map kr_name rows) \<and> distinct (map kr_key_hash rows)"

definition write_keys :: "KeyRow list \<Rightarrow> 'a \<Rightarrow> KeyStore \<Rightarrow> (GatewayError, 'a) result \<times> KeyStore" where
  "write_keys rows a ks =
     (case query ks a of
        Err e \<Rightarrow> (Err e, ks)
      | Ok a \<Rightarrow>
          if keys_unique rows then (Ok a, set_keys rows ks)
          else (Err (Database ''duplicate key value violates unique constraint''), ks))"

definition key_create ::
  "(string \<Rightarrow> string) \<Rightarrow> nat list \<Rightarrow> string \<Rightarrow> int \<Rightarrow> string \<Rightarrow> string list \<Rightarrow> i64 option \<Rightarrow> KeyStore
     \<Rightarrow> (GatewayError, string \<times> KeyInfo) result \<times> KeyStore" where
  "key_create sha draws new_id now name allowed_models budget ks =
     (let raw = generate_token draws;
          row = \<lparr>kr_id = new_id, kr_name = name, kr_key_hash = sha raw,
                 kr_allowed_models = allowed_models, kr_monthly_token_budget = budget,
                 kr_revoked = False, kr_created_at = now\<rparr>
      in write_keys (gd_keys (ks_db ks) @ [row]) (raw, key_info row) ks)"

definition claim_differs :: "string list \<Rightarrow> i64 option \<Rightarrow> bool \<Rightarrow> KeyRow \<Rightarrow> bool" where
  "claim_differs allowed_models budget revoked r \<longleftrightarrow>
     kr_allowed_models r \<noteq> allowed_models \<or> kr_monthly_token_budget r \<noteq> budget \<or> kr_revoked r \<noteq> revoked"

definition key_claim ::
  "string \<Rightarrow> string list \<Rightarrow> i64 option \<Rightarrow> bool \<Rightarrow> KeyStore \<Rightarrow> (GatewayError, bool) result \<times> KeyStore" where
  "key_claim name allowed_models budget revoked ks =
     (let rows = gd_keys (ks_db ks);
          found = list_ex (\<lambda>r. kr_name r = name) rows;
          hit = (\<lambda>r. kr_name r = name \<and> claim_differs allowed_models budget revoked r);
          rows' = map (\<lambda>r. if hit r
                           then r\<lparr>kr_allowed_models := allowed_models, kr_monthly_token_budget := budget,
                                  kr_revoked := revoked\<rparr>
                           else r) rows
      in case write_keys rows' found ks of
           (Err e, ks') \<Rightarrow> (Err e, ks')
         | (Ok f, ks') \<Rightarrow> (Ok f, if list_ex hit rows then invalidate_keys ks' else ks'))"

text \<open>An \<open>UPDATE ... WHERE id = $1 RETURNING ...\<close> that flushes the cache when a row was hit.\<close>

definition update_by_id ::
  "string \<Rightarrow> (KeyRow \<Rightarrow> KeyRow) \<Rightarrow> KeyStore \<Rightarrow> (GatewayError, KeyRow option) result \<times> KeyStore" where
  "update_by_id i f ks =
     (let rows = gd_keys (ks_db ks); rows' = map (\<lambda>r. if kr_id r = i then f r else r) rows
      in case write_keys rows' (find (\<lambda>r. kr_id r = i) rows') ks of
           (Err e, ks') \<Rightarrow> (Err e, ks')
         | (Ok None, ks') \<Rightarrow> (Ok None, ks')
         | (Ok (Some r), ks') \<Rightarrow> (Ok (Some r), invalidate_keys ks'))"

definition key_regenerate ::
  "(string \<Rightarrow> string) \<Rightarrow> nat list \<Rightarrow> string \<Rightarrow> KeyStore
     \<Rightarrow> (GatewayError, (string \<times> KeyInfo) option) result \<times> KeyStore" where
  "key_regenerate sha draws i ks =
     (let raw = generate_token draws
      in case update_by_id i (\<lambda>r. r\<lparr>kr_key_hash := sha raw\<rparr>) ks of
           (Err e, ks') \<Rightarrow> (Err e, ks')
         | (Ok r, ks') \<Rightarrow> (Ok (map_option (\<lambda>r. (raw, key_info r)) r), ks'))"

definition key_list :: "KeyStore \<Rightarrow> (GatewayError, KeyInfo list) result" where
  "key_list ks = query ks (map key_info (sort_key (\<lambda>r. - kr_created_at r) (gd_keys (ks_db ks))))"

definition key_revoke :: "string \<Rightarrow> KeyStore \<Rightarrow> (GatewayError, bool) result \<times> KeyStore" where
  "key_revoke i ks =
     (case update_by_id i (\<lambda>r. r\<lparr>kr_revoked := True\<rparr>) ks of
        (Err e, ks') \<Rightarrow> (Err e, ks')
      | (Ok r, ks') \<Rightarrow> (Ok (r \<noteq> None), ks'))"

definition coalesce :: "'a option \<Rightarrow> 'a \<Rightarrow> 'a" where
  "coalesce x y = (case x of Some v \<Rightarrow> v | None \<Rightarrow> y)"

definition update_row :: "UpdateKey \<Rightarrow> KeyRow \<Rightarrow> KeyRow" where
  "update_row u r =
     r\<lparr>kr_name := coalesce (uk_name u) (kr_name r),
       kr_allowed_models := coalesce (uk_allowed_models u) (kr_allowed_models r),
       kr_monthly_token_budget :=
         (case uk_monthly_token_budget u of Some b \<Rightarrow> Some b | None \<Rightarrow> kr_monthly_token_budget r),
       kr_revoked := coalesce (uk_revoked u) (kr_revoked r)\<rparr>"

definition key_update ::
  "string \<Rightarrow> UpdateKey \<Rightarrow> KeyStore \<Rightarrow> (GatewayError, KeyInfo option) result \<times> KeyStore" where
  "key_update i u ks =
     (case update_by_id i (update_row u) ks of
        (Err e, ks') \<Rightarrow> (Err e, ks')
      | (Ok r, ks') \<Rightarrow> (Ok (map_option key_info r), ks'))"

section \<open>Tokens\<close>

lemma BASE62_distinct: "distinct BASE62" "length BASE62 = 62"
  by (simp_all add: BASE62_def)

lemma generate_token_inj:
  assumes "\<forall>i\<in>set ds. i < 62" "\<forall>i\<in>set es. i < 62" "generate_token ds = generate_token es"
  shows "ds = es"
proof -
  have "inj_on (\<lambda>i. BASE62 ! i) (set ds \<union> set es)"
    using assms(1,2) BASE62_distinct by (auto simp: inj_on_def nth_eq_iff_index_eq)
  moreover have "map (\<lambda>i. BASE62 ! i) ds = map (\<lambda>i. BASE62 ! i) es"
    using assms(3) by (simp add: generate_token_def)
  ultimately show ?thesis by (simp add: inj_on_map_eq_map)
qed

lemma generate_token_shape:
  "starts_with (generate_token ds) ''aig_'' \<and> length (generate_token ds) = 4 + length ds"
  by (simp add: generate_token_def starts_with_iff)

end
