(* ===== verification/GatePricing.thy ===== *)
theory GatePricing
  imports GateKeys
begin

text \<open>
  Prices of the AI gateway: \<open>pricing.rs\<close>, the table \<open>model_prices\<close> and the map in memory, with
  the arithmetic of \<open>f64\<close> the cost is computed in.
\<close>

section \<open>Arithmetic\<close>

text \<open>
  IEEE multiplication, division by a positive finite number and addition, on the values of
  \<open>f64\<close> (the two zeros are one value).
\<close>

definition f64_sign :: "f64 \<Rightarrow> int" where
  "f64_sign a = (case a of NaN \<Rightarrow> 0 | PosInf \<Rightarrow> 1 | NegInf \<Rightarrow> - 1 | Fin r \<Rightarrow> if r < 0 then - 1 else if r = 0 then 0 else 1)"

definition f64_mul :: "f64 \<Rightarrow> f64 \<Rightarrow> f64" where
  "f64_mul a b =
     (case (a, b) of
        (NaN, _) \<Rightarrow> NaN
      | (_, NaN) \<Rightarrow> NaN
      | (Fin r, Fin s) \<Rightarrow> round_f64 (r * s)
      | _ \<Rightarrow> (if f64_sign a * f64_sign b = 0 then NaN else if 0 < f64_sign a * f64_sign b then PosInf else NegInf))"

definition f64_div_pos :: "f64 \<Rightarrow> rat \<Rightarrow> f64" where
  "f64_div_pos a d = (case a of Fin r \<Rightarrow> round_f64 (r / d) | _ \<Rightarrow> a)"

definition f64_add :: "f64 \<Rightarrow> f64 \<Rightarrow> f64" where
  "f64_add a b =
     (case (a, b) of
        (NaN, _) \<Rightarrow> NaN
      | (_, NaN) \<Rightarrow> NaN
      | (Fin r, Fin s) \<Rightarrow> round_f64 (r + s)
      | (PosInf, NegInf) \<Rightarrow> NaN
      | (NegInf, PosInf) \<Rightarrow> NaN
      | (Fin _, _) \<Rightarrow> b
      | _ \<Rightarrow> a)"

lemma round_even_nonneg: "0 \<le> r \<Longrightarrow> 0 \<le> round_even r"
proof -
  assume "0 \<le> r"
  then have "0 \<le> \<lfloor>r\<rfloor>" by simp
  then show ?thesis by (auto simp: round_even_def Let_def)
qed

lemma round_f64_nonneg: "0 \<le> r \<Longrightarrow> round_f64 r = PosInf \<or> (\<exists>v. round_f64 r = Fin v \<and> 0 \<le> v)"
proof (cases "r = 0")
  case True
  then show ?thesis by (simp add: round_f64_def)
next
  case False
  assume "0 \<le> r"
  then have pos: "0 < r" using False by simp
  let ?s = "2 powi (max (floor_log2 \<bar>r\<bar> - 52) (- 1074)) :: rat"
  have "0 \<le> of_int (round_even (\<bar>r\<bar> / ?s)) * ?s"
    using round_even_nonneg [of "\<bar>r\<bar> / ?s"] by simp
  then show ?thesis using pos by (simp add: round_f64_def Let_def)
qed

definition f64_nonneg :: "f64 \<Rightarrow> bool" where
  "f64_nonneg a \<longleftrightarrow> a = PosInf \<or> (\<exists>v. a = Fin v \<and> 0 \<le> v)"

lemma f64_nonneg_le: "f64_nonneg a \<Longrightarrow> f64_le (Fin 0) a"
  by (auto simp: f64_nonneg_def f64_le_def)

lemma f64_nonneg_round: "0 \<le> r \<Longrightarrow> f64_nonneg (round_f64 r)"
  using round_f64_nonneg by (simp add: f64_nonneg_def)

lemma f64_add_nonneg: "f64_nonneg a \<Longrightarrow> f64_nonneg b \<Longrightarrow> f64_nonneg (f64_add a b)"
  unfolding f64_nonneg_def [of a] f64_nonneg_def [of b]
  by (auto simp: f64_add_def f64_nonneg_round) (simp_all add: f64_nonneg_def)

lemma f64_mul_nonneg: "0 \<le> r \<Longrightarrow> 0 \<le> s \<Longrightarrow> f64_nonneg (f64_mul (Fin r) (Fin s))"
  by (simp add: f64_mul_def f64_nonneg_round)

text \<open>The exponent that is rounded to is right, so no value a token count can have overflows.\<close>

lemma floor_log2_le:
  assumes "0 < r"
  shows "2 powi (floor_log2 r) \<le> r"
proof -
  obtain p q where pq: "quotient_of r = (p, q)" by (cases "quotient_of r")
  then have q: "0 < q" and r: "r = of_int p / of_int q"
    using quotient_of_denom_pos quotient_of_div by blast+
  have p: "0 < p" using assms q r by (simp add: zero_less_divide_iff)
  let ?e = "int (floorlog 2 (nat p)) - int (floorlog 2 (nat q))"
  have "2 powi (?e - 1) \<le> r"
  proof -
    have "2 ^ (floorlog 2 (nat p) - 1) \<le> nat p" "nat q < 2 ^ floorlog 2 (nat q)"
      using p q floorlog_bounds [of "nat p" 2] floorlog_bounds [of "nat q" 2] by auto
    then have b: "2 ^ (floorlog 2 (nat p) - 1) \<le> p" "q < 2 ^ floorlog 2 (nat q)"
      using p q by (simp_all add: nat_le_iff nat_less_iff le_nat_iff)
    have "0 < floorlog 2 (nat p)" using p by (simp add: floorlog_def)
    then have "(2::rat) powi (?e - 1) = 2 ^ (floorlog 2 (nat p) - 1) / 2 ^ floorlog 2 (nat q)"
      by (simp add: power_int_diff flip: power_int_of_nat)
    also have "\<dots> \<le> of_int p / of_int q"
    proof (rule frac_le)
      have "(of_int (2 ^ (floorlog 2 (nat p) - 1)) :: rat) \<le> of_int p" using b(1) by (simp only: of_int_le_iff)
      then show "(2 :: rat) ^ (floorlog 2 (nat p) - 1) \<le> of_int p" by simp
      have "(of_int q :: rat) \<le> of_int (2 ^ floorlog 2 (nat q))" using b(2) by (simp only: of_int_le_iff)
      then show "(of_int q :: rat) \<le> 2 ^ floorlog 2 (nat q)" by simp
    qed (use p q in simp_all)
    finally show ?thesis by (simp add: r)
  qed
  then show ?thesis by (auto simp: floor_log2_def pq Let_def)
qed

lemma round_even_le: "of_int (round_even r) \<le> r + 1"
  by (simp add: round_even_def Let_def) linarith

lemma round_f64_finite:
  assumes "0 \<le> r" "r < 2 ^ 100"
  shows "\<exists>v. round_f64 r = Fin v \<and> 0 \<le> v"
proof (cases "r = 0")
  case True
  then show ?thesis by (simp add: round_f64_def)
next
  case False
  then have pos: "0 < r" using assms(1) by simp
  let ?s = "2 powi (max (floor_log2 r - 52) (- 1074)) :: rat"
  have s: "0 < ?s" by simp
  have "?s \<le> r + 1"
  proof (cases "- 1074 \<le> floor_log2 r - 52")
    case True
    have "(2 :: rat) powi (floor_log2 r - 52) \<le> 2 powi (floor_log2 r)"
      by (rule power_int_increasing) simp_all
    then show ?thesis using floor_log2_le [OF pos] by (simp only: max_absorb1 [OF True])
  next
    case False
    have "(2 :: rat) powi (- 1074) \<le> 2 powi 0" by (rule power_int_increasing) simp_all
    then show ?thesis using False pos by (simp add: max_def)
  qed
  moreover have "of_int (round_even (r / ?s)) * ?s \<le> (r / ?s + 1) * ?s"
    using round_even_le [of "r / ?s"] s by (intro mult_right_mono) simp_all
  moreover have "(r / ?s + 1) * ?s = r + ?s" using s by (simp add: field_simps)
  ultimately have "of_int (round_even (r / ?s)) * ?s < 2 ^ 1024"
    using assms(2) by (simp; linarith)
  moreover have "0 \<le> of_int (round_even (r / ?s)) * ?s"
    using round_even_nonneg [of "r / ?s"] pos s by simp
  ultimately show ?thesis using pos by (simp add: round_f64_def Let_def not_le)
qed

section \<open>Cost\<close>

type_synonym Pricing = "ModelPrice hmap"

definition token_count :: "i64 \<Rightarrow> f64" where
  "token_count n = Fin (f64_of_int (max (sint n) 0))"

definition pricing_cost :: "Pricing \<Rightarrow> string \<Rightarrow> Usage \<Rightarrow> f64" where
  "pricing_cost prices model usage =
     (case hget prices model of
        None \<Rightarrow> Fin 0
      | Some price \<Rightarrow>
          f64_add
            (f64_mul (f64_div_pos (token_count (us_input usage)) 1000000) (mp_input_usd_per_mtok price))
            (f64_mul (f64_div_pos (token_count (us_output usage)) 1000000) (mp_output_usd_per_mtok price)))"

definition price_ok :: "ModelPrice \<Rightarrow> bool" where
  "price_ok p \<longleftrightarrow> (\<exists>r s. mp_input_usd_per_mtok p = Fin r \<and> mp_output_usd_per_mtok p = Fin s \<and> 0 \<le> r \<and> 0 \<le> s)"

lemma power_excess_bits: "2 ^ excess_bits n \<le> max 1 n"
proof (induction n rule: excess_bits.induct)
  case (1 n)
  show ?case
  proof (cases "n < 2 ^ 53")
    case True
    then show ?thesis by simp
  next
    case False
    then have "2 ^ excess_bits (n div 2) \<le> n div 2" using "1.IH" by simp
    then show ?thesis using False by (simp add: excess_bits.simps [of n])
  qed
qed

lemma round53_le: "round53 n \<le> 2 * n + 1"
proof -
  let ?k = "excess_bits n"
  have "round53 n \<le> (n div 2 ^ ?k + 1) * 2 ^ ?k" by (simp add: round53_def Let_def)
  also have "\<dots> \<le> n + 2 ^ ?k" by (simp add: algebra_simps div_times_less_eq_dividend)
  also have "\<dots> \<le> 2 * n + 1" using power_excess_bits [of n] by simp
  finally show ?thesis .
qed

lemma token_share: "\<exists>r. f64_div_pos (token_count n) 1000000 = Fin r \<and> 0 \<le> r"
proof -
  let ?k = "nat (max (sint n) 0)"
  have "sint n < 2 ^ 63" using sint_lt [of n] by simp
  then have "?k \<le> 2 ^ 63" by simp
  then have "round53 ?k \<le> 2 ^ 64 + 1" using round53_le [of ?k] by simp
  then have "(of_nat (round53 ?k) :: rat) \<le> of_nat (2 ^ 64 + 1)" by (simp only: of_nat_le_iff)
  moreover have "token_count n = Fin (of_nat (round53 ?k))" by (simp add: token_count_def f64_of_int_def)
  ultimately show ?thesis
    using round_f64_finite [of "of_nat (round53 ?k) / 1000000"] by (simp add: f64_div_pos_def)
qed

lemma cost_nonneg:
  assumes "\<And>p. hget prices model = Some p \<Longrightarrow> price_ok p"
  shows "f64_nonneg (pricing_cost prices model usage)"
proof (cases "hget prices model")
  case None
  then show ?thesis by (simp add: pricing_cost_def f64_nonneg_def)
next
  case (Some p)
  then obtain r s where p: "mp_input_usd_per_mtok p = Fin r" "mp_output_usd_per_mtok p = Fin s" "0 \<le> r" "0 \<le> s"
    using assms by (auto simp: price_ok_def)
  obtain a b where "f64_div_pos (token_count (us_input usage)) 1000000 = Fin a" "0 \<le> a"
    "f64_div_pos (token_count (us_output usage)) 1000000 = Fin b" "0 \<le> b"
    using token_share by meson
  then show ?thesis using p by (simp add: pricing_cost_def Some f64_add_nonneg f64_mul_nonneg)
qed

section \<open>The table and the map\<close>

definition pricing_refresh :: "KeyStore \<Rightarrow> Pricing \<Rightarrow> (GatewayError, unit) result \<times> Pricing" where
  "pricing_refresh ks prices =
     (case query ks (gd_prices (ks_db ks)) of
        Err e \<Rightarrow> (Err e, prices)
      | Ok rows \<Rightarrow> (Ok (), fold (\<lambda>p m. hinsert (mp_id p) p m) rows []))"

text \<open>\<open>Pricing::load\<close>: a failed load starts empty.\<close>

definition pricing_load :: "KeyStore \<Rightarrow> Pricing" where
  "pricing_load ks = snd (pricing_refresh ks [])"

definition upsert_price :: "ModelPrice \<Rightarrow> ModelPrice list \<Rightarrow> ModelPrice list" where
  "upsert_price p rows =
     (if list_ex (\<lambda>q. mp_id q = mp_id p) rows
      then map (\<lambda>q. if mp_id q = mp_id p then p else q) rows else rows @ [p])"

fun pricing_upsert :: "ModelPrice list \<Rightarrow> nat \<Rightarrow> KeyStore \<Rightarrow> (GatewayError, nat) result \<times> KeyStore" where
  "pricing_upsert [] written ks = (Ok written, ks)"
| "pricing_upsert (p # ps) written ks =
     (case query ks () of
        Err e \<Rightarrow> (Err e, ks)
      | Ok _ \<Rightarrow>
          pricing_upsert ps (Suc written)
            (ks\<lparr>ks_db := (ks_db ks)\<lparr>gd_prices := upsert_price p (gd_prices (ks_db ks))\<rparr>\<rparr>))"

definition find_price :: "ModelPrice list \<Rightarrow> string \<Rightarrow> ModelPrice option" where
  "find_price rows i = find (\<lambda>p. mp_id p = i) rows"

lemma find_price_upsert:
  "find_price (upsert_price p rows) i = (if i = mp_id p then Some p else find_price rows i)"
proof -
  have "find_price (map (\<lambda>q. if mp_id q = mp_id p then p else q) rows) i =
      (if i = mp_id p \<and> list_ex (\<lambda>q. mp_id q = mp_id p) rows then Some p else find_price rows i)"
    by (induction rows) (auto simp: find_price_def)
  moreover have "find_price (rows @ [p]) i =
      (case find_price rows i of Some q \<Rightarrow> Some q | None \<Rightarrow> if i = mp_id p then Some p else None)"
    by (induction rows) (auto simp: find_price_def)
  moreover have "\<not> list_ex (\<lambda>q. mp_id q = mp_id p) rows \<Longrightarrow> find_price rows (mp_id p) = None"
    by (auto simp: find_price_def find_None_iff list_ex_iff)
  ultimately show ?thesis by (auto simp: upsert_price_def split: option.split)
qed

lemma upsert_price_distinct:
  "distinct (map mp_id rows) \<Longrightarrow> distinct (map mp_id (upsert_price p rows))"
proof -
  assume d: "distinct (map mp_id rows)"
  have same: "map mp_id (map (\<lambda>q. if mp_id q = mp_id p then p else q) rows) = map mp_id rows" by simp
  show ?thesis
  proof (cases "list_ex (\<lambda>q. mp_id q = mp_id p) rows")
    case True
    then show ?thesis using d by (simp only: upsert_price_def if_True same)
  next
    case False
    then show ?thesis using d by (auto simp: upsert_price_def list_ex_iff)
  qed
qed

lemma refresh_get:
  "distinct (map mp_id rows) \<Longrightarrow>
     hget (fold (\<lambda>p m. hinsert (mp_id p) p m) rows m) i =
       (case find_price rows i of Some p \<Rightarrow> Some p | None \<Rightarrow> hget m i)"
proof (induction rows arbitrary: m)
  case Nil
  show ?case by (simp add: find_price_def)
next
  case (Cons r rows)
  have "find_price rows (mp_id r) = None"
    using Cons.prems by (simp add: find_price_def find_None_iff) (metis image_eqI)
  then show ?case using Cons by (auto simp: find_price_def update_conv' split: option.split)
qed

definition last_price :: "ModelPrice list \<Rightarrow> string \<Rightarrow> ModelPrice option" where
  "last_price ps i = find (\<lambda>p. mp_id p = i) (rev ps)"

lemma last_price_Cons:
  "last_price (p # ps) i =
     (case last_price ps i of Some q \<Rightarrow> Some q | None \<Rightarrow> if mp_id p = i then Some p else None)"
proof -
  have "find P (xs @ [p]) = (case find P xs of Some q \<Rightarrow> Some q | None \<Rightarrow> if P p then Some p else None)" for P xs
    by (induction xs) auto
  then show ?thesis by (simp add: last_price_def)
qed

lemma upsert_all:
  "gd_fault (ks_db ks) = None \<Longrightarrow> distinct (map mp_id (gd_prices (ks_db ks))) \<Longrightarrow>
     (\<exists>rows. pricing_upsert ps n ks = (Ok (n + length ps), ks\<lparr>ks_db := (ks_db ks)\<lparr>gd_prices := rows\<rparr>\<rparr>)
        \<and> distinct (map mp_id rows)
        \<and> (\<forall>i. find_price rows i =
             (case last_price ps i of Some p \<Rightarrow> Some p | None \<Rightarrow> find_price (gd_prices (ks_db ks)) i)))"
proof (induction ps arbitrary: n ks)
  case Nil
  show ?case
    by (intro exI [of _ "gd_prices (ks_db ks)"]) (simp add: last_price_def Nil)
next
  case (Cons p ps)
  let ?ks = "ks\<lparr>ks_db := (ks_db ks)\<lparr>gd_prices := upsert_price p (gd_prices (ks_db ks))\<rparr>\<rparr>"
  obtain rows where rows:
    "pricing_upsert ps (Suc n) ?ks = (Ok (Suc n + length ps), ?ks\<lparr>ks_db := (ks_db ?ks)\<lparr>gd_prices := rows\<rparr>\<rparr>)"
    "distinct (map mp_id rows)"
    "\<forall>i. find_price rows i =
       (case last_price ps i of Some p \<Rightarrow> Some p | None \<Rightarrow> find_price (gd_prices (ks_db ?ks)) i)"
    using Cons.IH [of ?ks "Suc n"] Cons.prems upsert_price_distinct by auto
  have "\<forall>i. find_price rows i =
      (case last_price (p # ps) i of Some p \<Rightarrow> Some p | None \<Rightarrow> find_price (gd_prices (ks_db ks)) i)"
    using rows(3) by (auto simp: last_price_Cons find_price_upsert split: option.split)
  moreover have "pricing_upsert (p # ps) n ks =
      (Ok (n + length (p # ps)), ks\<lparr>ks_db := (ks_db ks)\<lparr>gd_prices := rows\<rparr>\<rparr>)"
    using rows(1) Cons.prems(1) by (simp add: query_def)
  ultimately show ?case using rows(2) by blast
qed

end
