(* ===== verification/GateAuth.thy ===== *)
theory GateAuth
  imports GateKeys
begin

text \<open>
  What the key store promises: with operations one after the other and the cache reachable, a
  token is accepted exactly when a live row has its hash; with operations interleaved, a
  revoked token may still be accepted, but not for longer than the cache keeps an entry.
\<close>

section \<open>Looking up a key\<close>

definition key_of :: "KeyRow \<Rightarrow> VirtualKey" where
  "key_of r = \<lparr>vk_id = kr_id r, vk_name = kr_name r, vk_allowed_models = kr_allowed_models r,
               vk_monthly_token_budget = kr_monthly_token_budget r\<rparr>"

definition live_row :: "GateDb \<Rightarrow> string \<Rightarrow> KeyRow \<Rightarrow> bool" where
  "live_row db h r \<longleftrightarrow> r \<in> set (gd_keys db) \<and> kr_key_hash r = h \<and> \<not> kr_revoked r"

lemma key_row_Some: "find_key db h = Some vk \<Longrightarrow> \<exists>r. live_row db h r \<and> vk = key_of r"
proof -
  assume "find_key db h = Some vk"
  then obtain r where r: "find (\<lambda>r. kr_key_hash r = h \<and> \<not> kr_revoked r) (gd_keys db) = Some r" "vk = key_of r"
    by (auto simp: find_key_def key_of_def)
  then have "live_row db h r" unfolding live_row_def by (metis (mono_tags, lifting) find_Some_iff nth_mem)
  with r(2) show ?thesis by blast
qed

lemma key_row_None: "find_key db h = None \<longleftrightarrow> (\<forall>r. \<not> live_row db h r)"
  by (auto simp: find_key_def live_row_def find_None_iff)

lemma unique_hash:
  "keys_unique rows \<Longrightarrow> r \<in> set rows \<Longrightarrow> s \<in> set rows \<Longrightarrow> kr_key_hash r = kr_key_hash s \<Longrightarrow> r = s"
  by (auto simp: keys_unique_def distinct_map dest: inj_onD)

lemma find_key_live:
  "keys_unique (gd_keys db) \<Longrightarrow> live_row db h r \<Longrightarrow> find_key db h = Some (key_of r)"
proof -
  assume u: "keys_unique (gd_keys db)" and r: "live_row db h r"
  then have "find_key db h \<noteq> None" by (auto simp: key_row_None)
  then obtain s where "live_row db h s" "find_key db h = Some (key_of s)"
    using key_row_Some by blast
  then show ?thesis using u r by (metis live_row_def unique_hash)
qed

section \<open>Coherence\<close>

definition key_ok :: "GateDb \<Rightarrow> string \<Rightarrow> VirtualKey \<Rightarrow> bool" where
  "key_ok db k vk \<longleftrightarrow> (\<exists>h. k = key_cache_key h \<and> find_key db h = Some vk)"

definition cache_ready :: "KeyStore \<Rightarrow> bool" where
  "cache_ready ks \<longleftrightarrow> (\<forall>c. ks_cache ks = Some c \<longrightarrow> ca_up c)"

text \<open>All the cache holds, also while it cannot be reached.\<close>

definition coherent :: "int \<Rightarrow> KeyStore \<Rightarrow> bool" where
  "coherent now ks \<longleftrightarrow>
     (case ks_cache ks of None \<Rightarrow> True | Some c \<Rightarrow> held_keys.sound (key_ok (ks_db ks)) c now)"

lemma key_ok_cache_key [simp]: "key_ok db (key_cache_key h) vk \<longleftrightarrow> find_key db h = Some vk"
  by (auto simp: key_ok_def key_cache_key_def)

lemma coherent_hit:
  assumes "coherent now ks"
    and "Option.bind (ks_cache ks) (\<lambda>c. get_key_json c now (key_cache_key h)) = Some vk"
  shows "find_key (ks_db ks) h = Some vk"
proof -
  obtain c where "ks_cache ks = Some c" "held_key c now (key_cache_key h) = Some vk"
    using assms(2) by (auto simp: bind_eq_Some_conv get_key_json_held split: if_splits)
  with assms(1) show ?thesis by (auto simp: coherent_def dest: held_keys.soundD)
qed

lemma select_key_Ok: "select_key ks h = Ok key \<Longrightarrow> find_key (ks_db ks) h = Some key"
  by (simp add: select_key_def split: sum.splits option.splits) (simp add: query_def split: option.splits)

lemma authenticate_Ok:
  assumes "coherent now ks" "authenticate sha now raw ks = (Ok vk, ks')"
  shows "find_key (ks_db ks) (sha raw) = Some vk"
  using assms(2) coherent_hit [OF assms(1), of "sha raw"] select_key_Ok [of ks "sha raw"]
  by (auto simp: authenticate_def Let_def split: option.splits sum.splits)

lemma authenticate_db:
  "authenticate sha now raw ks = (r, ks') \<Longrightarrow> ks_db ks' = ks_db ks"
  by (auto simp: authenticate_def Let_def split: option.splits sum.splits)

lemma coherent_store:
  assumes "coherent now ks" "find_key (ks_db ks) h = Some key"
  shows "coherent now (ks\<lparr>ks_cache := map_option (set_key_json ttl (key_cache_key h) key now) (ks_cache ks)\<rparr>)"
  using assms held_keys.sound_store by (simp add: coherent_def split: option.splits)

lemma authenticate_coherent:
  assumes "coherent now ks" "authenticate sha now raw ks = (r, ks')"
  shows "coherent now ks'"
  using assms(2) coherent_store [OF assms(1)] select_key_Ok [of ks "sha raw"] assms(1)
  by (auto simp: authenticate_def Let_def split: option.splits sum.splits)

text \<open>With the database reachable, the cache makes no difference to the answer.\<close>

lemma authenticate_reference:
  assumes "coherent now ks" "gd_fault (ks_db ks) = None"
  shows "fst (authenticate sha now raw ks) =
    (case find_key (ks_db ks) (sha raw) of None \<Rightarrow> Err InvalidKey | Some key \<Rightarrow> Ok key)"
proof (cases "Option.bind (ks_cache ks) (\<lambda>c. get_key_json c now (key_cache_key (sha raw)))")
  case None
  then show ?thesis
    using assms(2) by (simp add: authenticate_def Let_def select_key_def query_def split: option.split)
next
  case (Some key)
  then show ?thesis using coherent_hit [OF assms(1) Some] by (simp add: authenticate_def Let_def)
qed

section \<open>Flushing\<close>

lemma flushed_key: "ca_up c \<Longrightarrow> held_key (cache_invalidate ''aig:key:'' c) now (key_cache_key h) = None"
  by (simp add: held_key_invalidate key_cache_key_def starts_with_iff)

lemma flushed_cache:
  assumes "held_keys.sound (\<lambda>k v. \<exists>h. k = key_cache_key h) c now" "ca_up c"
  shows "held_keys.sound P (cache_invalidate ''aig:key:'' c) now"
  unfolding held_keys.sound_def
proof (intro allI impI)
  fix k v
  assume look: "held_key (cache_invalidate ''aig:key:'' c) now k = Some v"
  then have "held_key c now k = Some v" by (simp add: held_key_invalidate split: if_splits)
  then obtain h where "k = key_cache_key h" using held_keys.soundD [OF assms(1)] by blast
  then show "P k v" using look flushed_key [OF assms(2)] by simp
qed

lemma invalidate_coherent:
  assumes "coherent now ks" "cache_ready ks"
  shows "coherent now (invalidate_keys (set_keys rows ks))"
proof (cases "ks_cache ks")
  case None
  then show ?thesis by (simp add: coherent_def invalidate_keys_def set_keys_def)
next
  case (Some c)
  then have "held_keys.sound (key_ok (ks_db ks)) c now" using assms(1) by (simp add: coherent_def)
  then have "held_keys.sound (\<lambda>k v. \<exists>h. k = key_cache_key h) c now"
    by (rule held_keys.sound_weaken) (auto simp: key_ok_def)
  moreover have "ca_up c" using assms(2) Some by (simp add: cache_ready_def)
  ultimately show ?thesis
    using flushed_cache by (simp add: coherent_def invalidate_keys_def set_keys_def Some)
qed

lemma authenticate_flushed:
  assumes "cache_ready ks" "gd_fault (ks_db ks) = None"
  shows "fst (authenticate sha now raw (invalidate_keys (set_keys rows ks))) =
    (case find_key ((ks_db ks)\<lparr>gd_keys := rows\<rparr>) (sha raw) of
       None \<Rightarrow> Err InvalidKey | Some key \<Rightarrow> Ok key)"
proof -
  let ?ks = "invalidate_keys (set_keys rows ks)"
  have "Option.bind (ks_cache ?ks) (\<lambda>c. get_key_json c now (key_cache_key (sha raw))) = None"
    using assms(1)
    by (cases "ks_cache ks") (simp_all add: invalidate_keys_def set_keys_def get_key_json_held
        cache_ready_def flushed_key)
  moreover have "gd_fault (ks_db ?ks) = None" "ks_db ?ks = (ks_db ks)\<lparr>gd_keys := rows\<rparr>"
    using assms(2) by (simp_all add: invalidate_keys_def set_keys_def)
  ultimately show ?thesis
    by (simp add: authenticate_def Let_def select_key_def query_def split: option.split)
qed

section \<open>Mutations\<close>

lemma write_keys_cases:
  assumes "write_keys rows a ks = (r, ks')"
  shows "r = Ok a \<and> ks' = set_keys rows ks \<and> keys_unique rows \<and> gd_fault (ks_db ks) = None
    \<or> (\<exists>e. r = Err e) \<and> ks' = ks"
  using assms by (auto simp: write_keys_def query_def split: option.splits if_splits)

definition mapped :: "string \<Rightarrow> (KeyRow \<Rightarrow> KeyRow) \<Rightarrow> KeyStore \<Rightarrow> KeyRow list" where
  "mapped i f ks = map (\<lambda>r. if kr_id r = i then f r else r) (gd_keys (ks_db ks))"

lemma update_by_id_cases:
  assumes "update_by_id i f ks = (r, ks')"
  shows "r = Ok (find (\<lambda>r. kr_id r = i) (mapped i f ks)) \<and> keys_unique (mapped i f ks)
      \<and> gd_fault (ks_db ks) = None
      \<and> ks' = (if \<exists>s\<in>set (mapped i f ks). kr_id s = i then invalidate_keys (set_keys (mapped i f ks) ks)
               else set_keys (mapped i f ks) ks)
    \<or> (\<exists>e. r = Err e) \<and> ks' = ks"
proof -
  let ?found = "find (\<lambda>r. kr_id r = i) (mapped i f ks)"
  obtain q kq where q: "write_keys (mapped i f ks) ?found ks = (q, kq)"
    by (cases "write_keys (mapped i f ks) ?found ks")
  have r: "(r, ks') = (case (q, kq) of
      (Err e, ks') \<Rightarrow> (Err e, ks') | (Ok None, ks') \<Rightarrow> (Ok None, ks')
    | (Ok (Some r), ks') \<Rightarrow> (Ok (Some r), invalidate_keys ks'))"
    using assms q by (simp add: update_by_id_def mapped_def Let_def)
  have found: "(\<exists>s\<in>set (mapped i f ks). kr_id s = i) \<longleftrightarrow> ?found \<noteq> None"
    by (auto simp: find_None_iff)
  from write_keys_cases [OF q] show ?thesis
  proof (elim disjE conjE)
    assume ok: "q = Ok ?found" "kq = set_keys (mapped i f ks) ks" "keys_unique (mapped i f ks)"
      "gd_fault (ks_db ks) = None"
    show ?thesis
    proof (cases ?found)
      case None
      then show ?thesis using ok r found by simp
    next
      case (Some s)
      then show ?thesis using ok r found by simp
    qed
  next
    assume "\<exists>e. q = Err e" "kq = ks"
    then show ?thesis using r by (elim exE) simp
  qed
qed

lemma no_hit_unchanged:
  assumes "\<not> (\<exists>s\<in>set (mapped i f ks). kr_id s = i)" "\<And>r. kr_id (f r) = kr_id r"
  shows "mapped i f ks = gd_keys (ks_db ks)"
proof -
  have "kr_id r \<noteq> i" if "r \<in> set (gd_keys (ks_db ks))" for r
  proof
    assume "kr_id r = i"
    then have "f r \<in> set (mapped i f ks)" "kr_id (f r) = i"
      using that assms(2) [of r] by (force simp: mapped_def)+
    then show False using assms(1) by blast
  qed
  then show ?thesis unfolding mapped_def by (intro map_idI) simp
qed

lemma set_keys_same [simp]: "set_keys (gd_keys (ks_db ks)) ks = ks"
  by (simp add: set_keys_def)

text \<open>Each update by id: the error leaves all as it was, else the new rows are there and flushed.\<close>

lemma set_keys_simps [simp]:
  "ks_db (set_keys rows ks) = (ks_db ks)\<lparr>gd_keys := rows\<rparr>" "ks_cache (set_keys rows ks) = ks_cache ks"
  "ks_db (invalidate_keys ks) = ks_db ks"
  by (simp_all add: set_keys_def invalidate_keys_def)

lemma update_by_id_coherent:
  assumes "update_by_id i f ks = (r, ks')" "\<And>r. kr_id (f r) = kr_id r"
    and "keys_unique (gd_keys (ks_db ks))" "coherent now ks" "cache_ready ks"
  shows "keys_unique (gd_keys (ks_db ks')) \<and> coherent now ks'"
  using update_by_id_cases [OF assms(1)]
proof (elim disjE conjE)
  assume ks': "ks' = (if \<exists>s\<in>set (mapped i f ks). kr_id s = i
      then invalidate_keys (set_keys (mapped i f ks) ks) else set_keys (mapped i f ks) ks)"
    and unique: "keys_unique (mapped i f ks)"
  show ?thesis
  proof (cases "\<exists>s\<in>set (mapped i f ks). kr_id s = i")
    case True
    then show ?thesis using ks' unique invalidate_coherent [OF assms(4,5)] by simp
  next
    case False
    then have "ks' = ks" using ks' no_hit_unchanged [OF False assms(2)] by simp
    then show ?thesis using assms(3,4) by simp
  qed
qed (simp add: assms(3,4))

lemma update_fields:
  "kr_id (r\<lparr>kr_revoked := True\<rparr>) = kr_id r" "kr_id (r\<lparr>kr_key_hash := h\<rparr>) = kr_id r"
  "kr_id (update_row u r) = kr_id r"
  by (simp_all add: update_row_def)

lemma claim_coherent:
  assumes "key_claim name am b rv ks = (r, ks')"
    and "keys_unique (gd_keys (ks_db ks))" "coherent now ks" "cache_ready ks"
  shows "keys_unique (gd_keys (ks_db ks')) \<and> coherent now ks'"
proof -
  let ?hit = "\<lambda>r. kr_name r = name \<and> claim_differs am b rv r"
  let ?rows = "map (\<lambda>r. if ?hit r then r\<lparr>kr_allowed_models := am, kr_monthly_token_budget := b,
      kr_revoked := rv\<rparr> else r) (gd_keys (ks_db ks))"
  let ?found = "list_ex (\<lambda>r. kr_name r = name) (gd_keys (ks_db ks))"
  obtain q kq where q: "write_keys ?rows ?found ks = (q, kq)" by (cases "write_keys ?rows ?found ks")
  have ks': "ks' = (if (\<exists>e. q = Err e) \<or> \<not> list_ex ?hit (gd_keys (ks_db ks)) then kq else invalidate_keys kq)"
    using assms(1) q by (auto simp: key_claim_def Let_def split: sum.splits)
  have same: "\<not> list_ex ?hit (gd_keys (ks_db ks)) \<Longrightarrow> ?rows = gd_keys (ks_db ks)"
    by (auto simp: list_ex_iff intro!: map_idI)
  have inv: "coherent now (invalidate_keys (set_keys ?rows ks))"
    by (rule invalidate_coherent [OF assms(3,4)])
  from write_keys_cases [OF q] show ?thesis
  proof (elim disjE conjE)
    assume "q = Ok ?found" "kq = set_keys ?rows ks" "keys_unique ?rows"
    then show ?thesis
      using ks' same inv assms(2,3) by (cases "list_ex ?hit (gd_keys (ks_db ks))") simp_all
  next
    assume "\<exists>e. q = Err e" "kq = ks"
    then show ?thesis using ks' assms(2,3) by simp
  qed
qed

lemma find_append_Some: "find P xs = Some x \<Longrightarrow> find P (xs @ ys) = Some x"
  by (induction xs) auto

lemma create_coherent:
  assumes "key_create sha ds i t name am b ks = (r, ks')"
    and "keys_unique (gd_keys (ks_db ks))" "coherent now ks"
  shows "keys_unique (gd_keys (ks_db ks')) \<and> coherent now ks'"
proof -
  obtain rows row where rows: "rows = gd_keys (ks_db ks) @ [row]" and "\<exists>a. write_keys rows a ks = (r, ks')"
    using assms(1) by (auto simp: key_create_def Let_def)
  then obtain a where w: "write_keys rows a ks = (r, ks')" by blast
  have mono: "find_key (ks_db ks) h = Some vk \<Longrightarrow> find_key ((ks_db ks)\<lparr>gd_keys := rows\<rparr>) h = Some vk" for h vk
    by (auto simp: find_key_def rows find_append_Some)
  have "key_ok (ks_db ks) k vk \<Longrightarrow> key_ok (ks_db (set_keys rows ks)) k vk" for k vk
    using mono by (auto simp: key_ok_def)
  then have "coherent now (set_keys rows ks)"
    using assms(3) held_keys.sound_weaken by (fastforce simp: coherent_def split: option.splits)
  then show ?thesis using write_keys_cases [OF w] assms(2,3) by (elim disjE conjE) simp_all
qed

section \<open>One operation at a time\<close>

text \<open>
  The key store over time, the cache reachable: any operation with any arguments, the database
  coming and going, time passing.
\<close>

inductive key_step :: "(string \<Rightarrow> string) \<Rightarrow> int \<times> KeyStore \<Rightarrow> int \<times> KeyStore \<Rightarrow> bool" for sha where
  tick: "now \<le> now' \<Longrightarrow> key_step sha (now, ks) (now', ks)"
| fault: "key_step sha (now, ks) (now, ks\<lparr>ks_db := (ks_db ks)\<lparr>gd_fault := f\<rparr>\<rparr>)"
| auth: "key_step sha (now, ks) (now, snd (authenticate sha now raw ks))"
| budget: "key_step sha (now, ks) (now, snd (month_to_date_tokens month_start now i ks))"
| usage: "key_step sha (now, ks) (now, record_usage u now ks)"
| create: "key_step sha (now, ks) (now, snd (key_create sha draws i now name am b ks))"
| claim: "key_step sha (now, ks) (now, snd (key_claim name am b rv ks))"
| regenerate: "key_step sha (now, ks) (now, snd (key_regenerate sha draws i ks))"
| revoke: "key_step sha (now, ks) (now, snd (key_revoke i ks))"
| update: "key_step sha (now, ks) (now, snd (key_update i u ks))"

inductive_cases key_stepE: "key_step sha s s'"

fun key_inv :: "int \<times> KeyStore \<Rightarrow> bool" where
  "key_inv (now, ks) \<longleftrightarrow> keys_unique (gd_keys (ks_db ks)) \<and> coherent now ks \<and> cache_ready ks"

lemma cache_ready_map:
  "cache_ready ks \<Longrightarrow> (\<And>c. ca_up (f c) = ca_up c) \<Longrightarrow> cache_ready (ks\<lparr>ks_cache := map_option f (ks_cache ks)\<rparr>)"
  by (auto simp: cache_ready_def)

lemma set_json_up [simp]:
  "ca_up (set_key_json ttl k v now c) = ca_up c" "ca_up (set_i64 ttl k n now c) = ca_up c"
  by (simp_all add: set_key_json_def set_i64_def)

lemma cache_ready_set_keys [simp]: "cache_ready (set_keys rows ks) = cache_ready ks"
  by (simp add: cache_ready_def)

lemma cache_ready_invalidate: "cache_ready ks \<Longrightarrow> cache_ready (invalidate_keys ks)"
  unfolding invalidate_keys_def by (rule cache_ready_map) simp_all

lemma authenticate_ready:
  "authenticate sha now raw ks = (r, ks') \<Longrightarrow> cache_ready ks \<Longrightarrow> cache_ready ks'"
  by (auto simp: authenticate_def Let_def cache_ready_map split: option.splits sum.splits)

lemma write_keys_ready: "write_keys rows a ks = (r, ks') \<Longrightarrow> cache_ready ks \<Longrightarrow> cache_ready ks'"
  using write_keys_cases [of rows a ks r ks'] by auto

lemma update_by_id_ready:
  "update_by_id i f ks = (r, ks') \<Longrightarrow> cache_ready ks \<Longrightarrow> cache_ready ks'"
  using update_by_id_cases [of i f ks r ks'] by (auto simp: cache_ready_invalidate split: if_splits)

lemma claim_ready:
  assumes "key_claim name am b rv ks = (r, ks')" "cache_ready ks"
  shows "cache_ready ks'"
proof -
  have "\<exists>rows (a :: bool) q kq. write_keys rows a ks = (q, kq) \<and> (ks' = kq \<or> ks' = invalidate_keys kq)"
    using assms(1) unfolding key_claim_def Let_def
    by (auto split: prod.splits sum.splits if_splits)
  then obtain rows and a :: bool and q kq where q: "write_keys rows a ks = (q, kq)" and "ks' = kq \<or> ks' = invalidate_keys kq"
    by blast
  then show ?thesis using write_keys_ready [OF q assms(2)] cache_ready_invalidate by auto
qed

text \<open>The state each wrapper of \<open>update_by_id\<close> leaves.\<close>

lemma update_wrappers:
  "snd (key_regenerate sha draws i ks) =
     snd (update_by_id i (\<lambda>r. r\<lparr>kr_key_hash := sha (generate_token draws)\<rparr>) ks)"
  "snd (key_revoke i ks) = snd (update_by_id i (\<lambda>r. r\<lparr>kr_revoked := True\<rparr>) ks)"
  "snd (key_update i u ks) = snd (update_by_id i (update_row u) ks)"
  by (simp_all add: key_regenerate_def key_revoke_def key_update_def Let_def split: prod.split sum.split)

lemma update_by_id_inv:
  assumes "key_inv (now, ks)" "\<And>r. kr_id (f r) = kr_id r"
  shows "key_inv (now, snd (update_by_id i f ks))"
proof -
  obtain r ks' where u: "update_by_id i f ks = (r, ks')" by (cases "update_by_id i f ks")
  then show ?thesis
    using assms(1) update_by_id_coherent [OF u assms(2), of now] update_by_id_ready [OF u] by simp
qed

lemma budget_inv:
  assumes "key_inv (now, ks)"
  shows "key_inv (now, snd (month_to_date_tokens month_start now i ks))"
proof -
  obtain r ks' where m: "month_to_date_tokens month_start now i ks = (r, ks')"
    by (cases "month_to_date_tokens month_start now i ks")
  then have "ks' = ks \<or> (\<exists>n. ks' = ks\<lparr>ks_cache :=
      map_option (set_i64 BUDGET_CACHE_TTL (budget_key i) n now) (ks_cache ks)\<rparr>)"
    by (auto simp: month_to_date_tokens_def split: option.splits sum.splits)
  moreover have "held_keys.sound P c now \<Longrightarrow> held_keys.sound P (set_i64 ttl k n now c) now" for P ttl k n c
    by (auto simp: held_keys.sound_def held_key_def set_i64_def cache_peek_set split: if_splits)
  ultimately show ?thesis
    using assms by (auto simp: m coherent_def cache_ready_def split: option.splits)
qed

lemma key_step_inv: "key_step sha s s' \<Longrightarrow> key_inv s \<Longrightarrow> key_inv s'"
proof (induction rule: key_step.induct)
  case (tick now now' ks)
  then show ?case by (auto simp: coherent_def intro: held_keys.sound_later split: option.splits)
next
  case (fault now ks f)
  have "key_ok ((ks_db ks)\<lparr>gd_fault := f\<rparr>) = key_ok (ks_db ks)"
    by (simp add: fun_eq_iff key_ok_def find_key_def)
  then show ?case using fault by (simp add: coherent_def cache_ready_def split: option.splits)
next
  case (auth now ks raw)
  obtain r ks' where a: "authenticate sha now raw ks = (r, ks')" by (cases "authenticate sha now raw ks")
  then show ?case
    using auth authenticate_coherent [OF _ a] authenticate_ready [OF a] authenticate_db [OF a] by simp
next
  case (budget now ks month_start i)
  then show ?case by (rule budget_inv)
next
  case (usage now ks u)
  have "key_ok ((ks_db ks)\<lparr>gd_usage := us\<rparr>) = key_ok (ks_db ks)" for us
    by (simp add: fun_eq_iff key_ok_def find_key_def)
  then show ?case
    using usage by (simp add: record_usage_def coherent_def cache_ready_def split: option.splits)
next
  case (create now ks draws i name am b)
  obtain r ks' where c: "key_create sha draws i now name am b ks = (r, ks')"
    by (cases "key_create sha draws i now name am b ks")
  then have "\<exists>rows a. write_keys rows a ks = (r, ks')" by (auto simp: key_create_def Let_def)
  then show ?case using create create_coherent [OF c] write_keys_ready c by auto
next
  case (claim now ks name am b rv)
  obtain r ks' where c: "key_claim name am b rv ks = (r, ks')" by (cases "key_claim name am b rv ks")
  then show ?case using claim claim_coherent [OF c, of now] claim_ready [OF c] by simp
next
  case (regenerate now ks draws i)
  then show ?case unfolding update_wrappers by (rule update_by_id_inv) (rule update_fields)
next
  case (revoke now ks i)
  then show ?case unfolding update_wrappers by (rule update_by_id_inv) (rule update_fields)
next
  case (update now ks i u)
  then show ?case unfolding update_wrappers by (rule update_by_id_inv) (rule update_fields)
qed

lemma key_steps_inv: "(key_step sha)\<^sup>*\<^sup>* s s' \<Longrightarrow> key_inv s \<Longrightarrow> key_inv s'"
  by (induction rule: rtranclp_induct) (auto intro: key_step_inv)

section \<open>Revoking\<close>

lemma mapped_live:
  "live_row ((ks_db ks)\<lparr>gd_keys := mapped i f ks\<rparr>) h r \<longleftrightarrow>
     (\<exists>s\<in>set (gd_keys (ks_db ks)). r = (if kr_id s = i then f s else s) \<and> kr_key_hash r = h \<and> \<not> kr_revoked r)"
proof -
  have "set (gd_keys ((ks_db ks)\<lparr>gd_keys := mapped i f ks\<rparr>)) =
      (\<lambda>r. if kr_id r = i then f r else r) ` set (gd_keys (ks_db ks))" by (simp add: mapped_def)
  then show ?thesis unfolding live_row_def by (simp only: image_iff) blast
qed

lemma update_by_id_Ok_Some:
  assumes "update_by_id i f ks = (Ok (Some r), ks')" "\<And>r. kr_id (f r) = kr_id r"
  shows "ks' = invalidate_keys (set_keys (mapped i f ks) ks)" "gd_fault (ks_db ks) = None"
    "keys_unique (mapped i f ks)" "\<exists>s\<in>set (gd_keys (ks_db ks)). kr_id s = i \<and> r = f s"
proof -
  have u: "find (\<lambda>r. kr_id r = i) (mapped i f ks) = Some r"
    "ks' = (if \<exists>s\<in>set (mapped i f ks). kr_id s = i then invalidate_keys (set_keys (mapped i f ks) ks)
             else set_keys (mapped i f ks) ks)"
    "gd_fault (ks_db ks) = None" "keys_unique (mapped i f ks)"
    using update_by_id_cases [OF assms(1)] by auto
  have r: "r \<in> set (mapped i f ks)" "kr_id r = i"
    using u(1) by (auto simp: find_Some_iff)
  then show "ks' = invalidate_keys (set_keys (mapped i f ks) ks)" using u(2) by auto
  show "gd_fault (ks_db ks) = None" "keys_unique (mapped i f ks)" by (rule u)+
  show "\<exists>s\<in>set (gd_keys (ks_db ks)). kr_id s = i \<and> r = f s"
    using r assms(2) by (auto simp: mapped_def split: if_splits)
qed

text \<open>Right after a revocation that succeeded, no token of the key is accepted.\<close>

lemma revoke_refused:
  assumes "key_revoke i ks = (Ok True, ks')" "cache_ready ks" "keys_unique (gd_keys (ks_db ks))"
    and "r \<in> set (gd_keys (ks_db ks))" "kr_id r = i" "sha raw = kr_key_hash r"
  shows "fst (authenticate sha now raw ks') = Err InvalidKey"
proof -
  let ?f = "\<lambda>r :: KeyRow. r\<lparr>kr_revoked := True\<rparr>"
  obtain s where "update_by_id i ?f ks = (Ok (Some s), ks')"
    using assms(1) by (auto simp: key_revoke_def split: prod.splits sum.splits)
  note u = update_by_id_Ok_Some [OF this update_fields(1)]
  have "\<not> live_row ((ks_db ks)\<lparr>gd_keys := mapped i ?f ks\<rparr>) (sha raw) t" for t
  proof
    assume "live_row ((ks_db ks)\<lparr>gd_keys := mapped i ?f ks\<rparr>) (sha raw) t"
    then obtain s where s: "s \<in> set (gd_keys (ks_db ks))" "t = (if kr_id s = i then ?f s else s)"
      "kr_key_hash t = sha raw" "\<not> kr_revoked t"
      unfolding mapped_live by blast
    then have "kr_id s \<noteq> i" "t = s" by (auto split: if_splits)
    then show False using unique_hash [OF assms(3) s(1) assms(4)] s(3) assms(5,6) by simp
  qed
  then have "find_key ((ks_db ks)\<lparr>gd_keys := mapped i ?f ks\<rparr>) (sha raw) = None"
    by (simp add: key_row_None)
  then show ?thesis by (simp add: u(1) authenticate_flushed [OF assms(2) u(2)])
qed

text \<open>
  Right after a regeneration the new token is accepted for the key, unless it is revoked, and
  the old one is not.
\<close>

lemma regenerate_switches:
  assumes "key_regenerate sha draws i ks = (Ok (Some (tok, info)), ks')" "cache_ready ks"
    and "keys_unique (gd_keys (ks_db ks))" "r \<in> set (gd_keys (ks_db ks))" "kr_id r = i"
  shows "fst (authenticate sha now tok ks') =
      (if kr_revoked r then Err InvalidKey else Ok (key_of r))"
    "sha old = kr_key_hash r \<Longrightarrow> sha old \<noteq> sha tok \<Longrightarrow> fst (authenticate sha now old ks') = Err InvalidKey"
proof -
  let ?f = "\<lambda>r :: KeyRow. r\<lparr>kr_key_hash := sha (generate_token draws)\<rparr>"
  obtain s where up: "update_by_id i ?f ks = (Ok (Some s), ks')" and tok: "tok = generate_token draws"
    using assms(1) by (auto simp: key_regenerate_def Let_def split: prod.splits sum.splits)
  note u = update_by_id_Ok_Some [OF up update_fields(2)]
  let ?db = "(ks_db ks)\<lparr>gd_keys := mapped i ?f ks\<rparr>"
  have same: "s \<in> set (gd_keys (ks_db ks)) \<Longrightarrow> kr_id s = i \<Longrightarrow> s = r" for s
    using assms(3-5) by (auto simp: keys_unique_def distinct_map dest: inj_onD)
  have auth: "fst (authenticate sha now raw ks') =
      (case find_key ?db (sha raw) of None \<Rightarrow> Err InvalidKey | Some key \<Rightarrow> Ok key)" for raw
    by (simp add: u(1) authenticate_flushed [OF assms(2) u(2)])
  have new: "?f r \<in> set (gd_keys ?db)" using assms(4,5) by (force simp: mapped_def)
  show "fst (authenticate sha now tok ks') = (if kr_revoked r then Err InvalidKey else Ok (key_of r))"
  proof (cases "kr_revoked r")
    case True
    have "\<not> live_row ?db (sha tok) t" for t
    proof
      assume t: "live_row ?db (sha tok) t"
      then have "t = ?f r" using unique_hash [of "gd_keys ?db" t "?f r"] u(3) new
        by (simp add: live_row_def tok)
      then show False using t True by (simp add: live_row_def)
    qed
    then have "find_key ?db (sha tok) = None" by (simp add: key_row_None)
    then show ?thesis using True by (simp add: auth)
  next
    case False
    then have "live_row ?db (sha tok) (?f r)" using new by (simp add: live_row_def tok)
    then have "find_key ?db (sha tok) = Some (key_of (?f r))"
      using u(3) by (intro find_key_live) simp_all
    then show ?thesis using False by (simp add: auth key_of_def)
  qed
  assume old: "sha old = kr_key_hash r" "sha old \<noteq> sha tok"
  have "\<not> live_row ?db (sha old) t" for t
  proof
    assume "live_row ?db (sha old) t"
    then obtain s where s: "s \<in> set (gd_keys (ks_db ks))" "t = (if kr_id s = i then ?f s else s)"
      "kr_key_hash t = sha old"
      unfolding mapped_live by blast
    show False
    proof (cases "kr_id s = i")
      case True
      then show ?thesis using s(2,3) old(2) by (simp add: tok)
    next
      case False
      then show ?thesis using s unique_hash [OF assms(3) s(1) assms(4)] old(1) assms(5) by simp
    qed
  qed
  then have "find_key ?db (sha old) = None" by (simp add: key_row_None)
  then show "fst (authenticate sha now old ks') = Err InvalidKey" by (simp add: auth)
qed

end
