(* ===== verification/GateProxy.thy ===== *)
theory GateProxy
  imports GateFailover GatePricing GateAuth
begin

text \<open>
  The request path of the AI gateway: \<open>proxy\<close> and \<open>stream_response\<close> of \<open>routes/proxy.rs\<close>, the
  response cache of \<open>response_cache.rs\<close> and the flags of \<open>feature_flag.rs\<close>. \<open>AppState\<close> and the
  outside world of one request are the fields of \<open>gateway\<close>; the database and the cache are the
  \<open>KeyStore\<close>, which the request changes. Spans, logs and metrics are left out.
\<close>

section \<open>The gateway and its flags\<close>

record FlagContext =
  fx_targeting_key :: "string option"
  fx_fields :: "string hmap"

text \<open>
  \<open>gw_get_bool\<close> and \<open>gw_get_string\<close> are the OpenFeature client, \<open>gw_merge_missing\<close> its
  \<open>merge_missing\<close>; \<open>None\<close> is an evaluation error. \<open>gw_now\<close> is the time the request arrives,
  \<open>gw_done\<close> the time it is recorded.
\<close>

record 's gateway =
  gw_wire :: "'s wire"
  gw_sha :: "string \<Rightarrow> string"
  gw_config :: GateConfig
  gw_providers :: Registry
  gw_pricing :: Pricing
  gw_get_bool :: "string \<Rightarrow> FlagContext \<Rightarrow> bool option"
  gw_get_string :: "string \<Rightarrow> FlagContext \<Rightarrow> string option"
  gw_merge_missing :: "FlagContext \<Rightarrow> FlagContext \<Rightarrow> FlagContext"
  gw_default_context :: FlagContext
  gw_env :: "string \<Rightarrow> string option"
  gw_month_start :: "int \<Rightarrow> int"
  gw_http_date_wait :: "string \<Rightarrow> int option"
  gw_answer :: "nat \<Rightarrow> Outgoing \<Rightarrow> reply"
  gw_accepts :: "nat \<Rightarrow> bool"
  gw_now :: int
  gw_done :: int
  gw_latency_ms :: i64

definition bool_flag :: "'s gateway \<Rightarrow> string \<Rightarrow> FlagContext \<Rightarrow> bool \<Rightarrow> bool" where
  "bool_flag G flag ctx dflt =
     (case gw_get_bool G flag (gw_merge_missing G ctx (gw_default_context G)) of
        Some v \<Rightarrow> v | None \<Rightarrow> dflt)"

definition string_flag :: "'s gateway \<Rightarrow> string \<Rightarrow> FlagContext \<Rightarrow> string \<Rightarrow> string" where
  "string_flag G flag ctx dflt =
     (case gw_get_string G flag (gw_merge_missing G ctx (gw_default_context G)) of
        Some v \<Rightarrow> v | None \<Rightarrow> dflt)"

definition ENABLED_FLAG :: string where "ENABLED_FLAG = ''ai-gateway-enabled''"
definition MODEL_OVERRIDE_FLAG :: string where "MODEL_OVERRIDE_FLAG = ''ai-gateway-model-override''"
definition RESPONSE_CACHE_FLAG :: string where "RESPONSE_CACHE_FLAG = ''ai-gateway-response-cache''"

definition evaluation_context :: "VirtualKey \<Rightarrow> string \<Rightarrow> FlagContext" where
  "evaluation_context key requested_model =
     \<lparr>fx_targeting_key = Some (vk_name key),
      fx_fields = [(''key'', vk_name key), (''requested_model'', requested_model)]\<rparr>"

section \<open>Admission\<close>

definition bearer :: "string hmap \<Rightarrow> string option" where
  "bearer headers =
     (case Option.bind (Option.bind (hget headers ''authorization'') to_str) (strip_prefix ''Bearer '') of
        None \<Rightarrow> None
      | Some v \<Rightarrow> (let s = trim v in if s = [] then None else Some s))"

record Admitted =
  ad_key :: VirtualKey
  ad_request :: json
  ad_requested_model :: string

definition check_budget ::
  "'s gateway \<Rightarrow> VirtualKey \<Rightarrow> KeyStore \<Rightarrow> (GatewayError, unit) result \<times> KeyStore" where
  "check_budget G key ks =
     (case vk_monthly_token_budget key of
        None \<Rightarrow> (Ok (), ks)
      | Some budget \<Rightarrow>
          (case month_to_date_tokens (gw_month_start G) (gw_now G) (vk_id key) ks of
             (Err e, ks') \<Rightarrow> (Err e, ks')
           | (Ok used, ks') \<Rightarrow>
               if sint budget \<le> sint used then (Err (BudgetExceeded (vk_name key)), ks') else (Ok (), ks')))"

definition admit ::
  "'s gateway \<Rightarrow> string hmap \<Rightarrow> string \<Rightarrow> KeyStore \<Rightarrow> (GatewayError, Admitted) result \<times> KeyStore" where
  "admit G headers body ks =
     (case bearer headers of
        None \<Rightarrow> (Err MissingKey, ks)
      | Some raw_key \<Rightarrow>
          (case authenticate (gw_sha G) (gw_now G) raw_key ks of
             (Err e, ks1) \<Rightarrow> (Err e, ks1)
           | (Ok key, ks1) \<Rightarrow>
               (case request_from_slice (gw_wire G) body of
                  Err e \<Rightarrow> (Err e, ks1)
                | Ok request \<Rightarrow>
                    (case request_model request of
                       Err e \<Rightarrow> (Err e, ks1)
                     | Ok requested_model \<Rightarrow>
                         if \<not> bool_flag G ENABLED_FLAG (evaluation_context key requested_model) True
                         then (Err Disabled, ks1)
                         else if \<not> key_allows key requested_model
                         then (Err (ModelNotAllowed (vk_name key) requested_model), ks1)
                         else (case check_budget G key ks1 of
                                 (Err e, ks2) \<Rightarrow> (Err e, ks2)
                               | (Ok _, ks2) \<Rightarrow>
                                   (Ok \<lparr>ad_key = key, ad_request = request,
                                        ad_requested_model = requested_model\<rparr>, ks2))))))"

section \<open>Routing\<close>

definition route_request ::
  "'s gateway \<Rightarrow> VirtualKey \<Rightarrow> string \<Rightarrow> (GatewayError, string \<times> string option) result" where
  "route_request G key requested_model =
     (let override_model = string_flag G MODEL_OVERRIDE_FLAG (evaluation_context key requested_model) []
      in if override_model \<noteq> [] then Ok (override_model, None)
         else (case config_resolve (gw_config G) (vk_name key) requested_model of
                 Route model provider \<Rightarrow> Ok (model, provider)
               | Denied \<Rightarrow> Err (ModelDenied requested_model)))"

definition candidate_providers :: "'s gateway \<Rightarrow> string \<Rightarrow> string option \<Rightarrow> ModelKind \<Rightarrow> Provider list" where
  "candidate_providers G resolved_model pinned kind =
     (case pinned of
        Some name \<Rightarrow> (case registry_get (gw_providers G) name of None \<Rightarrow> [] | Some p \<Rightarrow> [p])
      | None \<Rightarrow> providers_for_model (gw_providers G) resolved_model kind)"

section \<open>The response cache\<close>

definition dialect_u8 :: "Dialect \<Rightarrow> char" where
  "dialect_u8 d = (case d of Anthropic \<Rightarrow> CHR 0x00 | OpenAiCompatible \<Rightarrow> CHR 0x01)"

definition response_key :: "(string \<Rightarrow> string) \<Rightarrow> Dialect \<Rightarrow> string \<Rightarrow> string \<Rightarrow> string" where
  "response_key sha d sub_path body = ''aig:resp:'' @ sha ([dialect_u8 d] @ sub_path @ body)"

definition ttl_secs :: "(string \<Rightarrow> string option) \<Rightarrow> int" where
  "ttl_secs env =
     (case Option.bind (env ''RESPONSE_CACHE_TTL_SECS'') str_parse_u64 of
        Some n \<Rightarrow> uint n | None \<Rightarrow> 3600)"

text \<open>What the client gets: the chunks of the body as they are sent.\<close>

record ProxyResponse =
  pr_status :: nat
  pr_content_type :: string
  pr_x_cache :: "string option"
  pr_body :: "(string, string) result list"

definition header_value_ok :: "string \<Rightarrow> bool" where
  "header_value_ok v = list_all (\<lambda>c. 32 \<le> byte c \<and> byte c \<noteq> 127 \<or> byte c = 9) v"

text \<open>\<open>CachedResponse::into_response\<close>\<close>

definition cached_into_response :: "CachedResponse \<Rightarrow> ProxyResponse" where
  "cached_into_response r =
     \<lparr>pr_status = (if 100 \<le> cr_status r \<and> cr_status r < 1000 then cr_status r else 200),
      pr_content_type =
        (if header_value_ok (cr_content_type r) then cr_content_type r else ''application/json''),
      pr_x_cache = Some ''HIT'', pr_body = [Ok (cr_body r)]\<rparr>"

definition choose_cache_key ::
  "'s gateway \<Rightarrow> VirtualKey \<Rightarrow> string \<Rightarrow> json \<Rightarrow> ModelKind \<Rightarrow> Dialect \<Rightarrow> string \<Rightarrow> KeyStore
     \<Rightarrow> (GatewayError, string option) result" where
  "choose_cache_key G key requested_model request kind client sub_path ks =
     (if \<not> is_stream request \<and> is_cacheable request kind \<and> ks_cache ks \<noteq> None
         \<and> bool_flag G RESPONSE_CACHE_FLAG (evaluation_context key requested_model) True
      then (case request_to_bytes (gw_wire G) request of
              Err e \<Rightarrow> Err e
            | Ok b \<Rightarrow> Ok (Some (response_key (gw_sha G) client sub_path b)))
      else Ok None)"

section \<open>Recording\<close>

text \<open>\<open>record\<close>: the usage row, with a cost of zero for a cache hit.\<close>

definition usage_event_of ::
  "'s gateway \<Rightarrow> VirtualKey \<Rightarrow> Provider \<Rightarrow> string \<Rightarrow> string \<Rightarrow> Usage \<Rightarrow> nat \<Rightarrow> bool
     \<Rightarrow> string option \<Rightarrow> string option \<Rightarrow> UsageEvent" where
  "usage_event_of G key provider requested_model resolved_model usage status cache_hit req_body resp_body =
     \<lparr>ue_key_id = Some (vk_id key), ue_key_name = vk_name key, ue_provider = provider_name provider,
      ue_requested_model = requested_model, ue_resolved_model = resolved_model,
      ue_input_tokens = us_input usage, ue_output_tokens = us_output usage,
      ue_latency_ms = gw_latency_ms G, ue_status = status,
      ue_cost_usd = (if cache_hit then Fin 0 else pricing_cost (gw_pricing G) resolved_model usage),
      ue_cache_hit = cache_hit, ue_request_body = req_body, ue_response_body = resp_body\<rparr>"

section \<open>Answering\<close>

datatype proxy_result = Answered ProxyResponse | Failed GatewayError | Panicked

record proxy_outcome =
  po_result :: proxy_result
  po_store :: KeyStore
  po_sent :: "(Provider \<times> Outgoing \<times> reply) list"

text \<open>A routed request: what \<open>RequestContext\<close> and the locals of the handler hold.\<close>

record Routed =
  rt_key :: VirtualKey
  rt_requested_model :: string
  rt_resolved_model :: string
  rt_request :: json
  rt_kind :: ModelKind
  rt_client :: Dialect
  rt_cache_key :: "string option"

definition content_type_of :: "UpResponse \<Rightarrow> string" where
  "content_type_of resp = (case ur_content_type resp of None \<Rightarrow> ''application/json'' | Some v \<Rightarrow> v)"

definition stream_response ::
  "'s gateway \<Rightarrow> Routed \<Rightarrow> hit \<Rightarrow> KeyStore \<Rightarrow> proxy_result \<times> KeyStore" where
  "stream_response G rt h ks =
     (let (provider, resp, request_body) = h;
          p = run_stream (gw_wire G) (gw_accepts G) (provider_dialect provider) (rt_client rt) (ur_stream resp);
          usage = parse_stream_usage (gw_wire G) (provider_dialect provider) (pu_raw p);
          event = usage_event_of G (rt_key rt) provider (rt_requested_model rt) (rt_resolved_model rt) usage
                    (stream_outcome (ur_status resp) p) False (Some (from_utf8_lossy request_body))
                    (Some (from_utf8_lossy (pu_raw p)))
      in (Answered \<lparr>pr_status = ur_status resp, pr_content_type = content_type_of resp, pr_x_cache = None,
                    pr_body = pu_sent p\<rparr>,
          record_usage event (gw_done G) ks))"

definition store_response ::
  "'s gateway \<Rightarrow> Routed \<Rightarrow> UpResponse \<Rightarrow> Usage \<Rightarrow> string \<Rightarrow> KeyStore \<Rightarrow> KeyStore" where
  "store_response G rt resp usage client_bytes ks =
     (case rt_cache_key rt of
        None \<Rightarrow> ks
      | Some k \<Rightarrow>
          if is_success (ur_status resp)
          then ks\<lparr>ks_cache := map_option (set_response_json (ttl_secs (gw_env G)) k
                    \<lparr>cr_status = ur_status resp,
                     cr_content_type = (case to_str (content_type_of resp) of
                                          None \<Rightarrow> ''application/json'' | Some s \<Rightarrow> s),
                     cr_body = client_bytes, cr_input_tokens = us_input usage,
                     cr_output_tokens = us_output usage\<rparr> (gw_done G)) (ks_cache ks)\<rparr>
          else ks)"

definition buffered_response ::
  "'s gateway \<Rightarrow> Routed \<Rightarrow> hit \<Rightarrow> KeyStore \<Rightarrow> proxy_result \<times> KeyStore" where
  "buffered_response G rt h ks =
     (let (provider, resp, request_body) = h
      in case ur_bytes resp of
           Err e \<Rightarrow> (Failed (Upstream e), ks)
         | Ok bytes \<Rightarrow>
             (let usage = parse_usage (gw_wire G) (provider_dialect provider) bytes
              in case (if provider_dialect provider = rt_client rt \<or> \<not> is_success (ur_status resp)
                       then Some (Ok bytes)
                       else translate_response (gw_wire G) (word_of_int (gw_done G)) bytes
                              (provider_dialect provider) (rt_client rt)) of
                   None \<Rightarrow> (Panicked, ks)
                 | Some (Err e) \<Rightarrow> (Failed e, ks)
                 | Some (Ok client_bytes) \<Rightarrow>
                     (Answered \<lparr>pr_status = ur_status resp, pr_content_type = content_type_of resp,
                                pr_x_cache = Some (if rt_cache_key rt \<noteq> None then ''MISS'' else ''BYPASS''),
                                pr_body = [Ok client_bytes]\<rparr>,
                      record_usage
                        (usage_event_of G (rt_key rt) provider (rt_requested_model rt) (rt_resolved_model rt)
                           usage (ur_status resp) False (Some (from_utf8_lossy request_body))
                           (Some (from_utf8_lossy bytes)))
                        (gw_done G) (store_response G rt resp usage client_bytes ks))))"

definition cache_hit_response ::
  "'s gateway \<Rightarrow> Routed \<Rightarrow> Provider \<Rightarrow> CachedResponse \<Rightarrow> KeyStore \<Rightarrow> proxy_result \<times> KeyStore" where
  "cache_hit_response G rt primary r ks =
     (Answered (cached_into_response r),
      record_usage
        (usage_event_of G (rt_key rt) primary (rt_requested_model rt) (rt_resolved_model rt)
           \<lparr>us_input = cr_input_tokens r, us_output = cr_output_tokens r\<rparr> (cr_status r) True None None)
        (gw_done G) ks)"

definition call_upstream ::
  "'s gateway \<Rightarrow> string hmap \<Rightarrow> Routed \<Rightarrow> Provider list
     \<Rightarrow> (GatewayError option, unit) result \<times> failover_state" where
  "call_upstream G headers rt candidates =
     failover
       \<lparr>up_answer = gw_answer G, up_http_date_wait = gw_http_date_wait G, up_kind = rt_kind rt,
        up_streaming = is_stream (rt_request rt), up_headers = headers\<rparr>
       (\<lambda>p. outbound_for (gw_wire G) (rt_request rt) (rt_client rt) (provider_dialect p))
       candidates failover_new"

definition dispatch ::
  "'s gateway \<Rightarrow> string hmap \<Rightarrow> Routed \<Rightarrow> Provider list \<Rightarrow> KeyStore \<Rightarrow> proxy_outcome" where
  "dispatch G headers rt candidates ks =
     (let (r, st) = call_upstream G headers rt candidates
      in case r of
           Err None \<Rightarrow> \<lparr>po_result = Panicked, po_store = ks, po_sent = fo_sent st\<rparr>
         | Err (Some e) \<Rightarrow> \<lparr>po_result = Failed e, po_store = ks, po_sent = fo_sent st\<rparr>
         | Ok _ \<Rightarrow>
             (case failover_result (rt_resolved_model rt) st of
                Err e \<Rightarrow> \<lparr>po_result = Failed e, po_store = ks, po_sent = fo_sent st\<rparr>
              | Ok h \<Rightarrow>
                  (let (res, ks') = (if is_stream (rt_request rt) then stream_response G rt h ks
                                     else buffered_response G rt h ks)
                   in \<lparr>po_result = res, po_store = ks', po_sent = fo_sent st\<rparr>)))"

text \<open>From the routed request to the answer: the cache, then the providers.\<close>

definition serve ::
  "'s gateway \<Rightarrow> string hmap \<Rightarrow> Routed \<Rightarrow> Provider \<Rightarrow> Provider list \<Rightarrow> KeyStore \<Rightarrow> proxy_outcome" where
  "serve G headers rt primary candidates ks =
     (case Option.bind (rt_cache_key rt)
             (\<lambda>k. Option.bind (ks_cache ks) (\<lambda>c. get_response_json c (gw_now G) k)) of
        Some r \<Rightarrow>
          (let (res, ks') = cache_hit_response G rt primary r ks
           in \<lparr>po_result = res, po_store = ks', po_sent = []\<rparr>)
      | None \<Rightarrow> dispatch G headers rt candidates ks)"

text \<open>The request with its model rewritten: the source writes it only when it differs.\<close>

definition rewrite_model :: "string \<Rightarrow> string \<Rightarrow> json \<Rightarrow> json option" where
  "rewrite_model requested_model resolved_model request =
     (if resolved_model \<noteq> requested_model then set_model resolved_model request else Some request)"

text \<open>The handler up to the cache lookup: a routed request and its candidates, or the end.\<close>

definition prepare ::
  "'s gateway \<Rightarrow> string hmap \<Rightarrow> string \<Rightarrow> string \<Rightarrow> KeyStore
     \<Rightarrow> (proxy_result, Routed \<times> Provider \<times> Provider list) result \<times> KeyStore" where
  "prepare G headers body sub_path ks =
     (case admit G headers body ks of
        (Err e, ks1) \<Rightarrow> (Err (Failed e), ks1)
      | (Ok ad, ks1) \<Rightarrow>
          (case route_request G (ad_key ad) (ad_requested_model ad) of
             Err e \<Rightarrow> (Err (Failed e), ks1)
           | Ok (resolved_model, pinned) \<Rightarrow>
               (case rewrite_model (ad_requested_model ad) resolved_model (ad_request ad) of
                  None \<Rightarrow> (Err Panicked, ks1)
                | Some request \<Rightarrow>
                    (let kind = kind_for_sub_path sub_path; client = dialect_for_sub_path sub_path;
                         candidates = candidate_providers G resolved_model pinned kind
                     in case candidates of
                          [] \<Rightarrow> (Err (Failed (NoProvider resolved_model)), ks1)
                        | primary # _ \<Rightarrow>
                            (case choose_cache_key G (ad_key ad) (ad_requested_model ad) request kind client
                                    sub_path ks1 of
                               Err e \<Rightarrow> (Err (Failed e), ks1)
                             | Ok k \<Rightarrow>
                                 (Ok (\<lparr>rt_key = ad_key ad, rt_requested_model = ad_requested_model ad,
                                       rt_resolved_model = resolved_model, rt_request = request,
                                       rt_kind = kind, rt_client = client, rt_cache_key = k\<rparr>,
                                      primary, candidates), ks1))))))"

definition proxy ::
  "'s gateway \<Rightarrow> string hmap \<Rightarrow> string \<Rightarrow> string \<Rightarrow> KeyStore \<Rightarrow> proxy_outcome" where
  "proxy G headers body sub_path ks =
     (case prepare G headers body sub_path ks of
        (Err res, ks1) \<Rightarrow> \<lparr>po_result = res, po_store = ks1, po_sent = []\<rparr>
      | (Ok (rt, primary, candidates), ks1) \<Rightarrow> serve G headers rt primary candidates ks1)"

text \<open>The three endpoints.\<close>

definition messages :: "'s gateway \<Rightarrow> string hmap \<Rightarrow> string \<Rightarrow> KeyStore \<Rightarrow> proxy_outcome" where
  "messages G headers body ks = proxy G headers body ''/v1/messages'' ks"

definition chat_completions :: "'s gateway \<Rightarrow> string hmap \<Rightarrow> string \<Rightarrow> KeyStore \<Rightarrow> proxy_outcome" where
  "chat_completions G headers body ks = proxy G headers body ''/chat/completions'' ks"

definition embeddings :: "'s gateway \<Rightarrow> string hmap \<Rightarrow> string \<Rightarrow> KeyStore \<Rightarrow> proxy_outcome" where
  "embeddings G headers body ks = proxy G headers body ''/embeddings'' ks"

end
