(* ===== verification/GateRace.thy ===== *)
theory GateRace
  imports GateAuth
begin

text \<open>
  The key store with its operations interleaved across requests and replicas. \<open>authenticate\<close>
  reads the row and later writes the cache entry: between the two, any other operation may run.
  Changes of the database and of the cache (a flush, an outage, a flush lost in an outage) are
  arbitrary here, they only never add an entry for a key.
\<close>

section \<open>The two halves of authentication\<close>

definition auth_fill :: "string \<Rightarrow> VirtualKey \<Rightarrow> int \<Rightarrow> KeyStore \<Rightarrow> KeyStore" where
  "auth_fill h key now ks =
     ks\<lparr>ks_cache := map_option (set_key_json KEY_CACHE_TTL (key_cache_key h) key now) (ks_cache ks)\<rparr>"

lemma authenticate_split:
  "authenticate sha now raw ks =
     (case Option.bind (ks_cache ks) (\<lambda>c. get_key_json c now (key_cache_key (sha raw))) of
        Some key \<Rightarrow> (Ok key, ks)
      | None \<Rightarrow>
          (case select_key ks (sha raw) of
             Err e \<Rightarrow> (Err e, ks)
           | Ok key \<Rightarrow> (Ok key, auth_fill (sha raw) key now ks)))"
  unfolding authenticate_def auth_fill_def Let_def by (rule refl)

section \<open>Interleaved steps\<close>

text \<open>
  \<open>kw_pending\<close> are the rows read and not yet written to the cache, with the time of the read;
  \<open>kw_seen\<close> the tables each read saw. No request takes longer than \<open>delay\<close> between its halves.
\<close>

record KeyWorld =
  kw_now :: int
  kw_store :: KeyStore
  kw_pending :: "(int \<times> string \<times> VirtualKey) list"
  kw_seen :: "(int \<times> GateDb) list"

definition fewer_keys :: "Cache option \<Rightarrow> Cache option \<Rightarrow> bool" where
  "fewer_keys old new \<longleftrightarrow>
     (\<forall>c' k v e. new = Some c' \<longrightarrow> hget (ca_entries c') k = Some (KeyJson v, e)
        \<longrightarrow> (\<exists>c. old = Some c \<and> hget (ca_entries c) k = Some (KeyJson v, e)))"

inductive world_step :: "(string \<Rightarrow> string) \<Rightarrow> int \<Rightarrow> KeyWorld \<Rightarrow> KeyWorld \<Rightarrow> bool" for sha delay where
  tick: "kw_now w \<le> now' \<Longrightarrow> \<forall>(s, h, key)\<in>set (kw_pending w). now' \<le> s + delay
    \<Longrightarrow> world_step sha delay w (w\<lparr>kw_now := now'\<rparr>)"
| read: "select_key (kw_store w) (sha raw) = Ok key
    \<Longrightarrow> world_step sha delay w
          (w\<lparr>kw_pending := (kw_now w, sha raw, key) # kw_pending w,
             kw_seen := (kw_now w, ks_db (kw_store w)) # kw_seen w\<rparr>)"
| fill: "(s, h, key) \<in> set (kw_pending w)
    \<Longrightarrow> world_step sha delay w
          (w\<lparr>kw_store := auth_fill h key (kw_now w) (kw_store w),
             kw_pending := removeAll (s, h, key) (kw_pending w)\<rparr>)"
| change: "fewer_keys (ks_cache (kw_store w)) (ks_cache ks')
    \<Longrightarrow> world_step sha delay w (w\<lparr>kw_store := ks'\<rparr>)"

text \<open>Every mutation of the key store, alone or with its flush lost, is such a change.\<close>

lemma fewer_keys_refl: "fewer_keys c c"
  by (simp add: fewer_keys_def)

lemma fewer_keys_invalidate: "fewer_keys c (map_option (cache_invalidate p) c)"
  by (auto simp: fewer_keys_def cache_invalidate_def map_of_filter_key split: if_splits)

lemma update_by_id_change: "fewer_keys (ks_cache ks) (ks_cache (snd (update_by_id i f ks)))"
proof -
  obtain r ks' where u: "update_by_id i f ks = (r, ks')" by (cases "update_by_id i f ks")
  have "ks_cache ks' = ks_cache ks \<or> ks_cache ks' = map_option (cache_invalidate ''aig:key:'') (ks_cache ks)"
    using update_by_id_cases [OF u] by (auto simp: invalidate_keys_def split: if_splits)
  then show ?thesis using u fewer_keys_refl fewer_keys_invalidate by auto
qed

section \<open>How stale an entry can be\<close>

definition seen_key :: "(int \<times> GateDb) list \<Rightarrow> int \<Rightarrow> string \<Rightarrow> VirtualKey \<Rightarrow> bool" where
  "seen_key seen s h key \<longleftrightarrow> (\<exists>db. (s, db) \<in> set seen \<and> find_key db h = Some key)"

definition world_inv :: "int \<Rightarrow> KeyWorld \<Rightarrow> bool" where
  "world_inv delay w \<longleftrightarrow>
     (\<forall>s h key. (s, h, key) \<in> set (kw_pending w) \<longrightarrow>
        seen_key (kw_seen w) s h key \<and> kw_now w \<le> s + delay)
     \<and> (\<forall>c k key e. ks_cache (kw_store w) = Some c \<longrightarrow> hget (ca_entries c) k = Some (KeyJson key, e) \<longrightarrow>
          (\<exists>h s. k = key_cache_key h \<and> seen_key (kw_seen w) s h key \<and> e \<le> s + delay + KEY_CACHE_TTL))"

lemma seen_key_mono: "seen_key seen s h key \<Longrightarrow> seen_key (x # seen) s h key"
  by (auto simp: seen_key_def)

lemma fill_entries:
  assumes "ks_cache (auth_fill h key now ks) = Some c" "hget (ca_entries c) k = Some (KeyJson v, e)"
  shows "k = key_cache_key h \<and> v = key \<and> e = now + KEY_CACHE_TTL
    \<or> (\<exists>c'. ks_cache ks = Some c' \<and> hget (ca_entries c') k = Some (KeyJson v, e))"
  using assms
  by (auto simp: auth_fill_def set_key_json_def cache_set_def update_conv' split: if_splits)

lemma world_step_inv:
  assumes "world_step sha delay w w'" "0 \<le> delay" "world_inv delay w"
  shows "world_inv delay w'"
  using assms
proof (induction rule: world_step.induct)
  case (tick w now')
  then show ?case by (fastforce simp: world_inv_def)
next
  case (read w raw key)
  have now: "seen_key ((kw_now w, ks_db (kw_store w)) # kw_seen w) (kw_now w) (sha raw) key"
    using select_key_Ok [OF read.hyps] by (auto simp: seen_key_def)
  with read.prems show ?case by (auto simp: world_inv_def intro: seen_key_mono) (meson seen_key_mono)
next
  case (fill s h key w)
  have s: "seen_key (kw_seen w) s h key" "kw_now w \<le> s + delay"
    using fill by (auto simp: world_inv_def)
  have "\<exists>h' s'. k = key_cache_key h' \<and> seen_key (kw_seen w) s' h' v \<and> e \<le> s' + delay + KEY_CACHE_TTL"
    if "ks_cache (auth_fill h key (kw_now w) (kw_store w)) = Some c" "hget (ca_entries c) k = Some (KeyJson v, e)"
    for c k v e
    using fill_entries [OF that] s fill.prems(2) by (fastforce simp: world_inv_def)
  moreover have "seen_key (kw_seen w) s' h' key' \<and> kw_now w \<le> s' + delay"
    if "(s', h', key') \<in> set (removeAll (s, h, key) (kw_pending w))" for s' h' key'
    using that fill.prems(2) unfolding world_inv_def by (metis DiffD1 set_removeAll)
  ultimately show ?case by (simp only: world_inv_def KeyWorld.simps) simp
next
  case (change w ks')
  then show ?case unfolding world_inv_def fewer_keys_def by (simp; metis)
qed

lemma world_steps_inv:
  "(world_step sha delay)\<^sup>*\<^sup>* w w' \<Longrightarrow> 0 \<le> delay \<Longrightarrow> world_inv delay w \<Longrightarrow> world_inv delay w'"
  by (induction rule: rtranclp_induct) (auto intro: world_step_inv)

lemma world_accepts:
  assumes "world_inv delay w" "0 \<le> delay" "fst (authenticate sha (kw_now w) raw (kw_store w)) = Ok key"
  shows "\<exists>s db. ((s, db) \<in> set (kw_seen w) \<or> (s, db) = (kw_now w, ks_db (kw_store w)))
    \<and> find_key db (sha raw) = Some key \<and> kw_now w \<le> s + delay + KEY_CACHE_TTL"
proof (cases "Option.bind (ks_cache (kw_store w)) (\<lambda>c. get_key_json c (kw_now w) (key_cache_key (sha raw)))")
  case None
  then have "select_key (kw_store w) (sha raw) = Ok key"
    using assms(3) by (simp add: authenticate_split split: sum.splits)
  then have "find_key (ks_db (kw_store w)) (sha raw) = Some key" by (rule select_key_Ok)
  then show ?thesis
    using assms(2)
    by (intro exI [of _ "kw_now w"] exI [of _ "ks_db (kw_store w)"]) (simp add: KEY_CACHE_TTL_def)
next
  case (Some k)
  then have "k = key" using assms(3) by (simp add: authenticate_split)
  then obtain c where c: "ks_cache (kw_store w) = Some c"
    "held_key c (kw_now w) (key_cache_key (sha raw)) = Some key"
    using Some by (auto simp: bind_eq_Some_conv get_key_json_held split: if_splits)
  then obtain e where e: "hget (ca_entries c) (key_cache_key (sha raw)) = Some (KeyJson key, e)" "kw_now w < e"
    by (auto simp: held_key_def cache_peek_def bind_eq_Some_conv as_value_iff split: option.splits if_splits)
  obtain h s where "key_cache_key (sha raw) = key_cache_key h" "seen_key (kw_seen w) s h key"
    "e \<le> s + delay + KEY_CACHE_TTL"
    using assms(1) c(1) e(1) unfolding world_inv_def by blast
  then have "seen_key (kw_seen w) s (sha raw) key" "kw_now w \<le> s + delay + KEY_CACHE_TTL"
    using e(2) by (simp_all add: key_cache_key_def)
  then show ?thesis by (auto simp: seen_key_def)
qed

section \<open>The race\<close>

text \<open>
  A request that has read its row when the key is revoked writes its entry after the flush: the
  revoked token is accepted from then on, until the entry expires.
\<close>

definition race_row :: KeyRow where
  "race_row = \<lparr>kr_id = ''k1'', kr_name = ''bot'', kr_key_hash = ''h'', kr_allowed_models = [],
               kr_monthly_token_budget = None, kr_revoked = False, kr_created_at = 0\<rparr>"

definition race_store :: KeyStore where
  "race_store =
     \<lparr>ks_db = \<lparr>gd_keys = [race_row], gd_usage = [], gd_prices = [], gd_fault = None\<rparr>,
      ks_cache = Some \<lparr>ca_entries = [], ca_up = True\<rparr>\<rparr>"

definition race_world :: KeyWorld where
  "race_world = \<lparr>kw_now = 0, kw_store = race_store, kw_pending = [], kw_seen = []\<rparr>"

definition raced :: KeyStore where
  "raced = auth_fill ''h'' (key_of race_row) 0 (snd (key_revoke ''k1'' race_store))"

lemmas race_defs = raced_def race_store_def race_row_def key_of_def auth_fill_def key_revoke_def
  update_by_id_def write_keys_def query_def keys_unique_def set_keys_def invalidate_keys_def
  set_key_json_def cache_set_def cache_invalidate_def

lemma raced_eq:
  "raced =
     \<lparr>ks_db = \<lparr>gd_keys = [race_row\<lparr>kr_revoked := True\<rparr>], gd_usage = [], gd_prices = [], gd_fault = None\<rparr>,
      ks_cache = Some \<lparr>ca_entries = [(key_cache_key ''h'', KeyJson (key_of race_row), KEY_CACHE_TTL)],
                       ca_up = True\<rparr>\<rparr>"
  by (simp add: race_defs)

lemma revoked_key_survives_race:
  "\<exists>w. (world_step (\<lambda>_. ''h'') 0)\<^sup>*\<^sup>* race_world w
     \<and> find_key (ks_db (kw_store w)) ''h'' = None
     \<and> fst (authenticate (\<lambda>_. ''h'') 3599 ''token'' (kw_store w)) = Ok (key_of race_row)"
proof -
  let ?w1 = "race_world\<lparr>kw_pending := [(0, ''h'', key_of race_row)], kw_seen := [(0, ks_db race_store)]\<rparr>"
  let ?w2 = "?w1\<lparr>kw_store := snd (key_revoke ''k1'' race_store)\<rparr>"
  let ?w3 = "?w2\<lparr>kw_store := raced, kw_pending := []\<rparr>"
  have sel: "select_key race_store ''h'' = Ok (key_of race_row)"
    by (simp add: select_key_def query_def find_key_def race_store_def race_row_def key_of_def)
  have "world_step (\<lambda>_. ''h'') 0 race_world ?w1"
    using world_step.read [of race_world "\<lambda>_. ''h''" raw "key_of race_row" 0 for raw] sel
    by (simp add: race_world_def)
  moreover have "world_step (\<lambda>_. ''h'') 0 ?w1 ?w2"
    using world_step.change [of ?w1 "snd (key_revoke ''k1'' race_store)" "\<lambda>_. ''h''" 0]
      update_by_id_change [of race_store "''k1''"]
    by (simp add: update_wrappers race_world_def)
  moreover have "world_step (\<lambda>_. ''h'') 0 ?w2 ?w3"
    using world_step.fill [of 0 "''h''" "key_of race_row" ?w2 "\<lambda>_. ''h''" 0]
    by (simp add: race_world_def raced_def)
  ultimately have "(world_step (\<lambda>_. ''h'') 0)\<^sup>*\<^sup>* race_world ?w3" by (meson r_into_rtranclp rtranclp_trans)
  moreover have "find_key (ks_db raced) ''h'' = None" by (simp add: raced_eq find_key_def race_row_def)
  moreover have "fst (authenticate (\<lambda>_. ''h'') 3599 ''token'' raced) = Ok (key_of race_row)"
    by (simp add: raced_eq authenticate_split get_key_json_held held_key_def cache_peek_def KEY_CACHE_TTL_def)
  ultimately show ?thesis by (intro exI [of _ ?w3]) simp
qed

end
