(* ===== verification/GateLaws.thy ===== *)
theory GateLaws
  imports GateProxy GateRace
begin

text \<open>
  The request path of the gateway, stage by stage: what an admitted request has passed, what is
  sent upstream, what is recorded and what the response cache gives back.
\<close>

section \<open>Admission\<close>

definition within_budget :: "'s gateway \<Rightarrow> VirtualKey \<Rightarrow> KeyStore \<Rightarrow> bool" where
  "within_budget G key ks \<longleftrightarrow>
     (\<forall>budget. vk_monthly_token_budget key = Some budget \<longrightarrow>
        (\<exists>used. fst (month_to_date_tokens (gw_month_start G) (gw_now G) (vk_id key) ks) = Ok used
           \<and> sint used < sint budget))"

lemma check_budget_Ok: "check_budget G key ks = (Ok u, ks') \<Longrightarrow> within_budget G key ks"
  by (auto simp: check_budget_def within_budget_def split: option.splits prod.splits sum.splits if_splits)

lemma check_budget_store:
  "check_budget G key ks = (r, ks') \<Longrightarrow>
     ks' = ks \<or> ks' = snd (month_to_date_tokens (gw_month_start G) (gw_now G) (vk_id key) ks)"
  by (auto simp: check_budget_def split: option.splits prod.splits sum.splits if_splits)

lemma admit_Ok:
  assumes "admit G headers body ks = (Ok ad, ks')"
  shows "\<exists>raw ks1. bearer headers = Some raw
    \<and> authenticate (gw_sha G) (gw_now G) raw ks = (Ok (ad_key ad), ks1)
    \<and> request_from_slice (gw_wire G) body = Ok (ad_request ad)
    \<and> request_model (ad_request ad) = Ok (ad_requested_model ad)
    \<and> bool_flag G ENABLED_FLAG (evaluation_context (ad_key ad) (ad_requested_model ad)) True
    \<and> key_allows (ad_key ad) (ad_requested_model ad) \<and> within_budget G (ad_key ad) ks1
    \<and> check_budget G (ad_key ad) ks1 = (Ok (), ks')"
  using assms check_budget_Ok
  by (auto simp: admit_def split: option.splits prod.splits sum.splits if_splits)

text \<open>What a prepared request is.\<close>

lemma prepare_Ok:
  assumes "prepare G headers body sub_path ks = (Ok (rt, primary, cs), ks1)"
  shows "\<exists>ad pinned. admit G headers body ks = (Ok ad, ks1)
    \<and> rt_key rt = ad_key ad \<and> rt_requested_model rt = ad_requested_model ad
    \<and> route_request G (ad_key ad) (ad_requested_model ad) = Ok (rt_resolved_model rt, pinned)
    \<and> rewrite_model (ad_requested_model ad) (rt_resolved_model rt) (ad_request ad) = Some (rt_request rt)
    \<and> rt_kind rt = kind_for_sub_path sub_path \<and> rt_client rt = dialect_for_sub_path sub_path
    \<and> cs = candidate_providers G (rt_resolved_model rt) pinned (kind_for_sub_path sub_path)
    \<and> cs \<noteq> [] \<and> primary = hd cs
    \<and> choose_cache_key G (ad_key ad) (ad_requested_model ad) (rt_request rt) (rt_kind rt) (rt_client rt)
        sub_path ks1 = Ok (rt_cache_key rt)"
  using assms
  by (auto simp: prepare_def Let_def split: prod.splits sum.splits option.splits list.splits)
    (metis list.sel(1))

lemma route_request_Ok:
  "route_request G key m = Ok (resolved, pinned) \<Longrightarrow>
     string_flag G MODEL_OVERRIDE_FLAG (evaluation_context key m) [] \<noteq> []
     \<or> config_resolve (gw_config G) (vk_name key) m \<noteq> Denied"
  by (auto simp: route_request_def Let_def split: Resolved.splits if_splits)

lemma rewrite_model_request:
  assumes "request_model req = Ok m" "rewrite_model m resolved req = Some req'"
  shows "request_model req' = Ok resolved"
  using assms set_model_rewrites [OF assms(1), of resolved]
  by (auto simp: rewrite_model_def split: if_splits)

lemma rewrite_model_keeps:
  assumes "request_model req = Ok m" "rewrite_model m resolved req = Some req'"
  shows "\<forall>k. k \<noteq> ''model'' \<longrightarrow> json_get k req' = json_get k req"
  using assms set_model_rewrites [OF assms(1), of resolved]
  by (auto simp: rewrite_model_def split: if_splits)

lemma rewrite_model_total:
  assumes "request_model req = Ok m"
  shows "rewrite_model m resolved req \<noteq> None"
  using set_model_rewrites [OF assms, of resolved] by (auto simp: rewrite_model_def)

text \<open>The part of the handler before the cache never panics.\<close>

lemma prepare_no_panic: "prepare G headers body sub_path ks \<noteq> (Err Panicked, ks1)"
proof
  assume p: "prepare G headers body sub_path ks = (Err Panicked, ks1)"
  then obtain ad where ad: "admit G headers body ks = (Ok ad, ks1)"
    and "\<exists>resolved. rewrite_model (ad_requested_model ad) resolved (ad_request ad) = None"
    by (auto simp: prepare_def Let_def split: prod.splits sum.splits option.splits list.splits)
  then show False using admit_Ok [OF ad] rewrite_model_total by blast
qed

lemma prepare_failed:
  "prepare G headers body sub_path ks = (Err res, ks1) \<Longrightarrow> \<exists>e. res = Failed e"
  using prepare_no_panic [of G headers body sub_path ks ks1]
  by (auto simp: prepare_def Let_def split: prod.splits sum.splits option.splits list.splits)

section \<open>What is sent\<close>

lemma call_upstream_tried:
  assumes "call_upstream G headers rt cs = (r, st)"
  shows "tried cs (fo_sent st)
    \<and> list_all (\<lambda>(p, out, rep). outbound_for (gw_wire G) (rt_request rt) (rt_client rt) (provider_dialect p)
         = Some (Ok (og_body out))) (fo_sent st)
    \<and> failover_result m st = reference_result m (fo_sent st)"
  using failover_tried [OF assms [unfolded call_upstream_def]]
    fo_ok_result [OF failover_ok [OF fo_ok_new _ assms [unfolded call_upstream_def]]]
  by (auto simp: failover_new_def)

lemma dispatch_sent:
  "po_sent (dispatch G headers rt cs ks) = fo_sent (snd (call_upstream G headers rt cs))"
  by (simp add: dispatch_def Let_def split: prod.split sum.split option.split)

lemma serve_cases:
  "(\<exists>k c r. rt_cache_key rt = Some k \<and> ks_cache ks = Some c \<and> get_response_json c (gw_now G) k = Some r
      \<and> serve G headers rt primary cs ks =
          \<lparr>po_result = fst (cache_hit_response G rt primary r ks),
           po_store = snd (cache_hit_response G rt primary r ks), po_sent = []\<rparr>)
   \<or> serve G headers rt primary cs ks = dispatch G headers rt cs ks"
  by (auto simp: serve_def bind_eq_Some_conv split: option.split prod.split)

lemma serve_tried:
  "tried cs (po_sent (serve G headers rt primary cs ks))
    \<and> list_all (\<lambda>(p, out, rep). outbound_for (gw_wire G) (rt_request rt) (rt_client rt) (provider_dialect p)
         = Some (Ok (og_body out))) (po_sent (serve G headers rt primary cs ks))"
proof -
  obtain r st where c: "call_upstream G headers rt cs = (r, st)" by (cases "call_upstream G headers rt cs")
  have "tried cs (po_sent (dispatch G headers rt cs ks))
      \<and> list_all (\<lambda>(p, out, rep). outbound_for (gw_wire G) (rt_request rt) (rt_client rt) (provider_dialect p)
         = Some (Ok (og_body out))) (po_sent (dispatch G headers rt cs ks))"
    using call_upstream_tried [OF c] by (simp add: dispatch_sent c)
  then show ?thesis using serve_cases [of rt ks G headers primary cs] by (auto simp: tried_Nil)
qed

text \<open>The credentials of the client stay here: only the forwarded headers are looked at.\<close>

definition forwarded_names :: "string list" where
  "forwarded_names = [''anthropic-version'', ''anthropic-beta'', ''openai-beta'', ''openai-organization'',
     ''openai-project'']"

lemma serve_built:
  assumes "(p, out, r) \<in> set (po_sent (serve G headers rt primary cs ks))"
  shows "og_headers out = og_headers (build_request p (rt_kind rt) (og_body out) headers)"
proof -
  obtain q st where c: "call_upstream G headers rt cs = (q, st)" by (cases "call_upstream G headers rt cs")
  have "(p, out, r) \<in> set (fo_sent st)"
    using assms serve_cases [of rt ks G headers primary cs] by (auto simp: dispatch_sent c)
  then show ?thesis
    using failover_built [OF c [unfolded call_upstream_def]] by (simp add: failover_new_def built_def)
qed

lemma build_request_headers:
  "\<forall>n\<in>set forwarded_names. hget h n = hget h' n \<Longrightarrow> build_request p k b h = build_request p k b h'"
  using forward_headers_cong [of "[''anthropic-beta'']" h h']
    forward_headers_cong [of "[''openai-beta'', ''openai-organization'', ''openai-project'']" h h']
  by (cases p) (simp_all add: forwarded_names_def)

section \<open>What is recorded\<close>

lemma record_usage_rows:
  "gd_fault (ks_db ks) = None \<Longrightarrow> gd_usage (ks_db (record_usage u t ks)) = gd_usage (ks_db ks) @ [(u, t)]"
  by (simp add: record_usage_def)

lemma store_response_db [simp]: "ks_db (store_response G rt resp usage b ks) = ks_db ks"
  by (simp add: store_response_def split: option.split)

lemma admit_db:
  assumes "admit G headers body ks = (r, ks')"
  shows "ks_db ks' = ks_db ks"
proof -
  have b: "ks_db (snd (month_to_date_tokens ms now i k)) = ks_db k" for ms now i k
    by (simp add: month_to_date_tokens_def split: option.split sum.split)
  have c: "ks_db k' = ks_db k" if "check_budget G key k = (q, k')" for key k q k'
    using check_budget_store [OF that] b by auto
  show ?thesis
    using assms
    by (auto simp: admit_def dest!: authenticate_db c
        split: option.splits prod.splits sum.splits if_splits)
qed

lemma prepare_db:
  assumes "prepare G headers body sub_path ks = (r, ks')"
  shows "ks_db ks' = ks_db ks"
  using assms admit_db
  by (auto simp: prepare_def Let_def split: prod.splits sum.splits option.splits list.splits)

text \<open>One row for an answered request, none for a failed one.\<close>

definition billed :: "'s gateway \<Rightarrow> Routed \<Rightarrow> bool \<Rightarrow> UsageEvent \<Rightarrow> bool" where
  "billed G rt hit u \<longleftrightarrow>
     ue_key_id u = Some (vk_id (rt_key rt)) \<and> ue_key_name u = vk_name (rt_key rt)
     \<and> ue_requested_model u = rt_requested_model rt \<and> ue_resolved_model u = rt_resolved_model rt
     \<and> ue_cache_hit u = hit
     \<and> ue_cost_usd u = (if hit then Fin 0 else pricing_cost (gw_pricing G) (rt_resolved_model rt)
          \<lparr>us_input = ue_input_tokens u, us_output = ue_output_tokens u\<rparr>)"

lemma usage_event_billed:
  "billed G rt hit (usage_event_of G (rt_key rt) p (rt_requested_model rt) (rt_resolved_model rt) usage st hit rq rs)"
  by (cases usage) (simp add: billed_def usage_event_of_def)

definition accounted :: "'s gateway \<Rightarrow> Routed \<Rightarrow> bool \<Rightarrow> KeyStore \<Rightarrow> proxy_result \<times> KeyStore \<Rightarrow> bool" where
  "accounted G rt hit ks res \<longleftrightarrow>
     (case fst res of
        Answered r \<Rightarrow> \<exists>u. gd_usage (ks_db (snd res)) = gd_usage (ks_db ks) @ [(u, gw_done G)] \<and> billed G rt hit u
      | _ \<Rightarrow> gd_usage (ks_db (snd res)) = gd_usage (ks_db ks))"

lemma cache_hit_accounted:
  "gd_fault (ks_db ks) = None \<Longrightarrow> accounted G rt True ks (cache_hit_response G rt primary r ks)"
  using usage_event_billed by (auto simp: accounted_def cache_hit_response_def record_usage_rows)

lemma stream_accounted:
  "gd_fault (ks_db ks) = None \<Longrightarrow> accounted G rt False ks (stream_response G rt h ks)"
  using usage_event_billed
  by (cases h) (auto simp: accounted_def stream_response_def Let_def record_usage_rows)

lemma buffered_accounted:
  "gd_fault (ks_db ks) = None \<Longrightarrow> accounted G rt False ks (buffered_response G rt h ks)"
  using usage_event_billed
  by (cases h) (auto simp: accounted_def buffered_response_def Let_def record_usage_rows
      split: sum.split option.split)

text \<open>An answer of a provider was asked for.\<close>

lemma dispatch_answers_sent:
  "po_result (dispatch G headers rt cs ks) = Answered r \<Longrightarrow> po_sent (dispatch G headers rt cs ks) \<noteq> []"
proof -
  assume ans: "po_result (dispatch G headers rt cs ks) = Answered r"
  obtain q st where c: "call_upstream G headers rt cs = (q, st)" by (cases "call_upstream G headers rt cs")
  have "\<exists>h. failover_result (rt_resolved_model rt) st = Ok h"
    using ans by (auto simp: dispatch_def c split: sum.splits option.splits)
  then have "fo_sent st \<noteq> []"
    using conjunct2 [OF conjunct2 [OF call_upstream_tried [OF c, of "rt_resolved_model rt"]]]
    by (auto simp: reference_result_def)
  then show ?thesis by (simp add: dispatch_sent c)
qed

lemma dispatch_accounted:
  assumes "gd_fault (ks_db ks) = None"
  shows "accounted G rt False ks (po_result (dispatch G headers rt cs ks), po_store (dispatch G headers rt cs ks))"
proof -
  have none: "accounted G rt False ks (Failed e, ks)" "accounted G rt False ks (Panicked, ks)" for e
    by (simp_all add: accounted_def)
  obtain r st where c: "call_upstream G headers rt cs = (r, st)" by (cases "call_upstream G headers rt cs")
  show ?thesis
    using none stream_accounted [OF assms, of G rt] buffered_accounted [OF assms, of G rt]
    by (auto simp: dispatch_def c split: sum.split option.split prod.split) (metis prod.collapse)+
qed

lemma serve_accounted:
  assumes "gd_fault (ks_db ks) = None"
  shows "accounted G rt (po_sent (serve G headers rt primary cs ks) = []) ks
    (po_result (serve G headers rt primary cs ks), po_store (serve G headers rt primary cs ks))"
  using serve_cases [of rt ks G headers primary cs]
proof (elim disjE exE conjE)
  fix k c r
  assume "serve G headers rt primary cs ks =
    \<lparr>po_result = fst (cache_hit_response G rt primary r ks),
     po_store = snd (cache_hit_response G rt primary r ks), po_sent = []\<rparr>"
  then show ?thesis using cache_hit_accounted [OF assms, of G rt primary r] by simp
next
  assume d: "serve G headers rt primary cs ks = dispatch G headers rt cs ks"
  have "accounted G rt (po_sent (dispatch G headers rt cs ks) = []) ks
      (po_result (dispatch G headers rt cs ks), po_store (dispatch G headers rt cs ks))"
    using dispatch_accounted [OF assms, of G rt headers cs] dispatch_answers_sent [of G headers rt cs ks]
    by (auto simp: accounted_def split: proxy_result.splits)
  then show ?thesis by (simp add: d)
qed

section \<open>What the response cache gives back\<close>

definition held_response :: "KeyStore \<Rightarrow> int \<Rightarrow> string \<Rightarrow> CachedResponse option" where
  "held_response ks now k = Option.bind (ks_cache ks) (\<lambda>c. get_response_json c now k)"

lemma get_response_other:
  "k' \<noteq> k \<Longrightarrow> get_response_json (cache_set ttl k v t c) now k' = get_response_json c now k'"
  by (simp add: get_response_json_def cache_get_def cache_peek_set)

lemma held_response_other:
  "k' \<noteq> k \<Longrightarrow> held_response (ks\<lparr>ks_cache := map_option (cache_set ttl k v t) (ks_cache ks)\<rparr>) now k'
     = held_response ks now k'"
  by (cases "ks_cache ks") (simp_all add: held_response_def get_response_other)

lemma resp_not_key: "''aig:resp:'' @ h \<noteq> key_cache_key h'" "''aig:resp:'' @ h \<noteq> budget_key i"
  by (simp_all add: key_cache_key_def budget_key_def)

lemma authenticate_responses:
  "authenticate sha t raw ks = (r, ks') \<Longrightarrow>
     held_response ks' now (''aig:resp:'' @ h) = held_response ks now (''aig:resp:'' @ h)"
  using held_response_other [OF resp_not_key(1)]
  by (auto simp: authenticate_split auth_fill_def set_key_json_def [abs_def] split: option.splits sum.splits)

lemma month_responses:
  "held_response (snd (month_to_date_tokens ms t i ks)) now (''aig:resp:'' @ h) =
     held_response ks now (''aig:resp:'' @ h)"
  using held_response_other [OF resp_not_key(2)]
  by (auto simp: month_to_date_tokens_def set_i64_def [abs_def] split: option.split sum.split)

lemma admit_responses:
  assumes "admit G headers body ks = (Ok ad, ks')"
  shows "held_response ks' now (''aig:resp:'' @ h) = held_response ks now (''aig:resp:'' @ h)"
proof -
  obtain raw ks1 where a: "authenticate (gw_sha G) (gw_now G) raw ks = (Ok (ad_key ad), ks1)"
    and b: "check_budget G (ad_key ad) ks1 = (Ok (), ks')"
    using admit_Ok [OF assms] by blast
  show ?thesis
    using check_budget_store [OF b] authenticate_responses [OF a] month_responses by auto
qed

lemma cache_key_shape:
  "choose_cache_key G key m req kind client path ks = Ok (Some k) \<Longrightarrow>
     \<not> is_stream req \<and> ks_cache ks \<noteq> None \<and>
     (\<exists>b. request_to_bytes (gw_wire G) req = Ok b \<and> k = response_key (gw_sha G) client path b)"
  by (auto simp: choose_cache_key_def split: if_splits sum.splits)

lemma to_str_header_ok: "to_str v = Some s \<Longrightarrow> s = v \<and> header_value_ok v"
  by (auto simp: to_str_def header_value_ok_def list_all_iff split: if_splits)

lemma buffered_stores:
  assumes "buffered_response G rt h ks = (Answered r, ks')" "rt_cache_key rt = Some k"
    and "is_success (pr_status r)" "ks_cache ks = Some c" "ca_up c" "t < gw_done G + ttl_secs (gw_env G)"
    and "to_str (pr_content_type r) \<noteq> None"
  shows "\<exists>cr. held_response ks' t k = Some cr
    \<and> cached_into_response cr = r\<lparr>pr_x_cache := Some ''HIT''\<rparr>"
proof -
  obtain p resp rq where h: "h = (p, resp, rq)" by (cases h)
  obtain b usage body u where r: "r = \<lparr>pr_status = ur_status resp, pr_content_type = content_type_of resp,
      pr_x_cache = Some ''MISS'', pr_body = [Ok body]\<rparr>"
    and ks': "ks' = record_usage u (gw_done G) (store_response G rt resp usage body ks)"
    using assms(1,2) by (auto simp: buffered_response_def h Let_def split: sum.splits option.splits)
  obtain s where s: "to_str (content_type_of resp) = Some s" using assms(7) r by auto
  then have ct: "s = content_type_of resp" "header_value_ok (content_type_of resp)"
    using to_str_header_ok by simp_all
  have "ks_cache (record_usage u t' k) = ks_cache k" for t' k
    by (simp add: record_usage_def split: option.split)
  then have "held_response ks' t k = Some \<lparr>cr_status = ur_status resp, cr_content_type = content_type_of resp,
      cr_body = body, cr_input_tokens = us_input usage, cr_output_tokens = us_output usage\<rparr>"
    using assms(2-6) ct s r
    by (simp add: held_response_def ks' store_response_def set_response_json_def get_response_json_def
        cache_get_def cache_peek_set)
  moreover have "100 \<le> ur_status resp" "ur_status resp < 1000"
    using assms(3) r by (simp_all add: is_success_def)
  ultimately show ?thesis using ct by (simp add: cached_into_response_def r)
qed

lemma serve_stores:
  assumes "po_result (serve G headers rt primary cs ks) = Answered r" "pr_x_cache r = Some ''MISS''"
    and "rt_cache_key rt = Some k" "\<not> is_stream (rt_request rt)"
    and "is_success (pr_status r)" "ks_cache ks = Some c" "ca_up c" "t < gw_done G + ttl_secs (gw_env G)"
    and "to_str (pr_content_type r) \<noteq> None"
  shows "\<exists>cr. held_response (po_store (serve G headers rt primary cs ks)) t k = Some cr
    \<and> cached_into_response cr = r\<lparr>pr_x_cache := Some ''HIT''\<rparr>"
proof -
  have "po_result (serve G headers rt primary cs ks) \<noteq> fst (cache_hit_response G rt primary r' ks)" for r'
    using assms(1,2) by (auto simp: cache_hit_response_def cached_into_response_def)
  then have d: "serve G headers rt primary cs ks = dispatch G headers rt cs ks"
    using serve_cases [of rt ks G headers primary cs] by fastforce
  obtain q st where c: "call_upstream G headers rt cs = (q, st)" by (cases "call_upstream G headers rt cs")
  obtain h ks' where h: "buffered_response G rt h ks = (Answered r, ks')"
    "po_store (dispatch G headers rt cs ks) = ks'"
    using assms(1,4) unfolding d
    by (auto simp: dispatch_def c Let_def split: sum.splits option.splits prod.splits)
  from buffered_stores [OF h(1) assms(3,5-9)] show ?thesis by (simp add: d h(2))
qed

end
