(* ===== verification/GateAdmin.thy ===== *)
theory GateAdmin
  imports GateLaws
begin

text \<open>
  The admin endpoints of the gateway and its start: \<open>routes/admin.rs\<close> and the claiming of
  configured keys in \<open>main.rs\<close>. A reply is the value the handler turns into a response.
\<close>

datatype admin_reply =
    Unauthorized
  | CreatedKey string KeyInfo
  | KeyInfos "KeyInfo list"
  | NoContent
  | NotFound
  | NewToken string KeyInfo
  | UpdatedKey KeyInfo
  | Upserted nat

definition admin_reply_status :: "admin_reply \<Rightarrow> nat" where
  "admin_reply_status r =
     (case r of Unauthorized \<Rightarrow> 401 | CreatedKey _ _ \<Rightarrow> 201 | NoContent \<Rightarrow> 204 | NotFound \<Rightarrow> 404 | _ \<Rightarrow> 200)"

definition authorize :: "GateConfig \<Rightarrow> string hmap \<Rightarrow> bool" where
  "authorize cfg headers =
     (let provided =
            (case Option.bind (Option.bind (hget headers ''authorization'') to_str) (strip_prefix ''Bearer '') of
               None \<Rightarrow> [] | Some v \<Rightarrow> trim v)
      in gc_admin_token cfg \<noteq> [] \<and> provided = gc_admin_token cfg)"

definition create_key ::
  "GateConfig \<Rightarrow> (string \<Rightarrow> string) \<Rightarrow> nat list \<Rightarrow> string \<Rightarrow> int \<Rightarrow> string hmap \<Rightarrow> string \<Rightarrow> string list
     \<Rightarrow> i64 option \<Rightarrow> KeyStore \<Rightarrow> (GatewayError, admin_reply) result \<times> KeyStore" where
  "create_key cfg sha draws new_id now headers name allowed_models budget ks =
     (if \<not> authorize cfg headers then (Ok Unauthorized, ks)
      else (case key_create sha draws new_id now name allowed_models budget ks of
              (Err e, ks') \<Rightarrow> (Err e, ks')
            | (Ok (token, info), ks') \<Rightarrow> (Ok (CreatedKey token info), ks')))"

definition list_keys ::
  "GateConfig \<Rightarrow> string hmap \<Rightarrow> KeyStore \<Rightarrow> (GatewayError, admin_reply) result \<times> KeyStore" where
  "list_keys cfg headers ks =
     (if \<not> authorize cfg headers then (Ok Unauthorized, ks)
      else (case key_list ks of Err e \<Rightarrow> (Err e, ks) | Ok is \<Rightarrow> (Ok (KeyInfos is), ks)))"

definition revoke_key ::
  "GateConfig \<Rightarrow> string hmap \<Rightarrow> string \<Rightarrow> KeyStore \<Rightarrow> (GatewayError, admin_reply) result \<times> KeyStore" where
  "revoke_key cfg headers i ks =
     (if \<not> authorize cfg headers then (Ok Unauthorized, ks)
      else (case key_revoke i ks of
              (Err e, ks') \<Rightarrow> (Err e, ks')
            | (Ok found, ks') \<Rightarrow> (Ok (if found then NoContent else NotFound), ks')))"

definition regenerate_key ::
  "GateConfig \<Rightarrow> (string \<Rightarrow> string) \<Rightarrow> nat list \<Rightarrow> string hmap \<Rightarrow> string \<Rightarrow> KeyStore
     \<Rightarrow> (GatewayError, admin_reply) result \<times> KeyStore" where
  "regenerate_key cfg sha draws headers i ks =
     (if \<not> authorize cfg headers then (Ok Unauthorized, ks)
      else (case key_regenerate sha draws i ks of
              (Err e, ks') \<Rightarrow> (Err e, ks')
            | (Ok None, ks') \<Rightarrow> (Ok NotFound, ks')
            | (Ok (Some (token, info)), ks') \<Rightarrow> (Ok (NewToken token info), ks')))"

definition update_key ::
  "GateConfig \<Rightarrow> string hmap \<Rightarrow> string \<Rightarrow> UpdateKey \<Rightarrow> KeyStore
     \<Rightarrow> (GatewayError, admin_reply) result \<times> KeyStore" where
  "update_key cfg headers i fs ks =
     (if \<not> authorize cfg headers then (Ok Unauthorized, ks)
      else (case key_update i fs ks of
              (Err e, ks') \<Rightarrow> (Err e, ks')
            | (Ok None, ks') \<Rightarrow> (Ok NotFound, ks')
            | (Ok (Some info), ks') \<Rightarrow> (Ok (UpdatedKey info), ks')))"

text \<open>\<open>sync_prices\<close> also replaces the map in memory.\<close>

definition sync_prices ::
  "GateConfig \<Rightarrow> string hmap \<Rightarrow> ModelPrice list \<Rightarrow> KeyStore \<times> Pricing
     \<Rightarrow> (GatewayError, admin_reply) result \<times> KeyStore \<times> Pricing" where
  "sync_prices cfg headers prices s =
     (let (ks, pricing) = s
      in if \<not> authorize cfg headers then (Ok Unauthorized, ks, pricing)
         else (case pricing_upsert prices 0 ks of
                 (Err e, ks') \<Rightarrow> (Err e, ks', pricing)
               | (Ok written, ks') \<Rightarrow>
                   (case pricing_refresh ks' pricing of
                      (Err e, pricing') \<Rightarrow> (Err e, ks', pricing')
                    | (Ok _, pricing') \<Rightarrow> (Ok (Upserted written), ks', pricing'))))"

text \<open>\<open>list_models\<close> needs no token: the ids and owners, by id.\<close>

definition list_models :: "GateConfig \<Rightarrow> Registry \<Rightarrow> (string \<times> string) list" where
  "list_models cfg rg = sort_key fst (advertise cfg (registry_models rg))"

text \<open>The claims at the start: the first database error stops it.\<close>

fun claim_all :: "KeyConfig list \<Rightarrow> KeyStore \<Rightarrow> (GatewayError, bool list) result \<times> KeyStore" where
  "claim_all [] ks = (Ok [], ks)"
| "claim_all (k # kc) ks =
     (case key_claim (kc_name k) (kc_allowed_models k) (kc_monthly_token_budget k) (kc_revoked k) ks of
        (Err e, ks') \<Rightarrow> (Err e, ks')
      | (Ok claimed, ks') \<Rightarrow>
          (case claim_all kc ks' of
             (Err e, ks'') \<Rightarrow> (Err e, ks'')
           | (Ok cs, ks'') \<Rightarrow> (Ok (claimed # cs), ks'')))"

section \<open>Claiming\<close>

text \<open>A claim makes the row of that name what the configuration says and touches no other.\<close>

definition claimed_row :: "KeyConfig \<Rightarrow> KeyRow \<Rightarrow> KeyRow" where
  "claimed_row k r =
     (if kr_name r = kc_name k
      then r\<lparr>kr_allowed_models := kc_allowed_models k,
             kr_monthly_token_budget := kc_monthly_token_budget k, kr_revoked := kc_revoked k\<rparr>
      else r)"

lemma claimed_row_keys [simp]:
  "kr_id (claimed_row k r) = kr_id r" "kr_name (claimed_row k r) = kr_name r"
  "kr_key_hash (claimed_row k r) = kr_key_hash r"
  by (simp_all add: claimed_row_def)

lemma keys_unique_claimed [simp]: "keys_unique (map (claimed_row k) rows) = keys_unique rows"
  by (simp add: keys_unique_def comp_def)

lemma claim_rows:
  assumes "key_claim (kc_name k) (kc_allowed_models k) (kc_monthly_token_budget k) (kc_revoked k) ks = (r, ks')"
    and "keys_unique (gd_keys (ks_db ks))" "gd_fault (ks_db ks) = None"
  shows "r = Ok (\<exists>x\<in>set (gd_keys (ks_db ks)). kr_name x = kc_name k)
    \<and> ks_db ks' = (ks_db ks)\<lparr>gd_keys := map (claimed_row k) (gd_keys (ks_db ks))\<rparr>"
proof -
  let ?am = "kc_allowed_models k" and ?b = "kc_monthly_token_budget k" and ?rv = "kc_revoked k"
  have rows: "(if kr_name x = kc_name k \<and> claim_differs ?am ?b ?rv x
      then x\<lparr>kr_allowed_models := ?am, kr_monthly_token_budget := ?b, kr_revoked := ?rv\<rparr> else x) = claimed_row k x" for x
    by (cases x) (auto simp: claimed_row_def claim_differs_def)
  show ?thesis
    using assms(1) assms(2,3)
    by (simp add: key_claim_def Let_def rows write_keys_def query_def set_keys_def list_ex_iff
        invalidate_keys_def split: if_splits) auto
qed

lemma claim_all_rows:
  assumes "claim_all kc ks = (r, ks')" "keys_unique (gd_keys (ks_db ks))" "gd_fault (ks_db ks) = None"
  shows "(\<exists>cs. r = Ok cs) \<and> gd_keys (ks_db ks') = map (\<lambda>x. fold claimed_row kc x) (gd_keys (ks_db ks))"
  using assms
proof (induction kc arbitrary: ks r)
  case Nil
  then show ?case by auto
next
  case (Cons k kc)
  obtain q ks1 where c:
    "key_claim (kc_name k) (kc_allowed_models k) (kc_monthly_token_budget k) (kc_revoked k) ks = (q, ks1)"
    by (meson surj_pair)
  note rows = claim_rows [OF c Cons.prems(2,3)]
  obtain r' where rest: "claim_all kc ks1 = (r', ks')"
    using Cons.prems(1) c rows by (auto split: prod.splits sum.splits)
  have "(\<exists>cs. r' = Ok cs) \<and> gd_keys (ks_db ks') = map (\<lambda>x. fold claimed_row kc x) (gd_keys (ks_db ks1))"
    by (rule Cons.IH [OF rest]) (use rows Cons.prems(2,3) in simp_all)
  then show ?case using Cons.prems(1) c rows rest by auto
qed

text \<open>Without the configured token no endpoint reads or changes anything.\<close>

lemma unauthorized_changes_nothing:
  assumes "\<not> authorize cfg headers"
  shows "create_key cfg sha draws i now headers name am b ks = (Ok Unauthorized, ks)"
    "list_keys cfg headers ks = (Ok Unauthorized, ks)"
    "revoke_key cfg headers i ks = (Ok Unauthorized, ks)"
    "regenerate_key cfg sha draws headers i ks = (Ok Unauthorized, ks)"
    "update_key cfg headers i u ks = (Ok Unauthorized, ks)"
    "sync_prices cfg headers ps (ks, pricing) = (Ok Unauthorized, ks, pricing)"
  using assms
  by (simp_all add: create_key_def list_keys_def revoke_key_def regenerate_key_def update_key_def sync_prices_def)

text \<open>A price sync takes effect at once: the map in memory is the table, the last price of an id wins.\<close>

lemma synced_prices:
  assumes "authorize cfg headers" "gd_fault (ks_db ks) = None" "distinct (map mp_id (gd_prices (ks_db ks)))"
  shows "\<exists>ks' pricing'. sync_prices cfg headers ps (ks, pricing) = (Ok (Upserted (length ps)), ks', pricing')
    \<and> (\<forall>i. hget pricing' i =
         (case last_price ps i of Some p \<Rightarrow> Some p | None \<Rightarrow> find_price (gd_prices (ks_db ks)) i))"
proof -
  obtain rows where rows: "pricing_upsert ps 0 ks = (Ok (length ps), ks\<lparr>ks_db := (ks_db ks)\<lparr>gd_prices := rows\<rparr>\<rparr>)"
    "distinct (map mp_id rows)"
    "\<forall>i. find_price rows i =
       (case last_price ps i of Some p \<Rightarrow> Some p | None \<Rightarrow> find_price (gd_prices (ks_db ks)) i)"
    using upsert_all [OF assms(2,3), of ps 0] by auto
  let ?ks = "ks\<lparr>ks_db := (ks_db ks)\<lparr>gd_prices := rows\<rparr>\<rparr>"
  have "pricing_refresh ?ks pricing = (Ok (), fold (\<lambda>p m. hinsert (mp_id p) p m) rows [])"
    using assms(2) by (simp add: pricing_refresh_def query_def)
  moreover have "hget (fold (\<lambda>p m. hinsert (mp_id p) p m) rows []) i = find_price rows i" for i
    using refresh_get [OF rows(2), of "[]" i] by (simp split: option.splits)
  ultimately show ?thesis using rows(1,3) assms(1) by (simp add: sync_prices_def)
qed

end
