(* ===== verification/GateProperties.thy ===== *)
theory GateProperties
  imports GateAdmin
begin

text \<open>
  The properties of the AI gateway: which requests go out, to which providers and how often, what
  is recorded, what the caches may answer, and who is accepted.
\<close>

section \<open>A concrete gateway\<close>

definition demo_wire :: "unit wire" where
  "demo_wire =
     \<lparr>from_slice = (\<lambda>b. if b = ''body''
                        then Ok (JObject [(''model'', JString ''m''), (''temperature'', JNumber (PosInt 0))])
                        else Ok JNull),
      to_vec = (\<lambda>v. Ok ''json''),
      anthropic_to_openai = (\<lambda>p b. Err ''no''), openai_to_anthropic = (\<lambda>p b. Err ''no''),
      openai_response_to_anthropic = (\<lambda>p b. Err ''no''), anthropic_response_to_openai = (\<lambda>p b. Err ''no''),
      stream_to = (\<lambda>t s f st. (Some f, st)), stream_default = ()\<rparr>"

definition demo_provider :: ProviderConfig where
  "demo_provider =
     \<lparr>pc_dialect = OpenAiCompatible, pc_base_url = ''u/'', pc_api_key_env = Some ''K'', pc_models = [''m''],
      pc_embedding_models = [], pc_priority = 1, pc_fallback = False\<rparr>"

definition demo_config :: GateConfig where
  "demo_config = \<lparr>gc_admin_token = [], gc_providers = [(''p'', demo_provider)], gc_keys = [],
                  gc_rules = [rule_for ''x'' None True]\<rparr>"

definition demo_response :: UpResponse where
  "demo_response = \<lparr>ur_status = 200, ur_content_type = Some ''t'', ur_retry_after = None,
                    ur_bytes = Ok ''ok'', ur_stream = []\<rparr>"

definition demo_gateway :: "unit gateway" where
  "demo_gateway =
     \<lparr>gw_wire = demo_wire, gw_sha = (\<lambda>_. ''h''), gw_config = demo_config,
      gw_providers = \<lparr>rg_providers = [(''p'', OpenAiProvider ''p'' ''u'' ''secret'')],
                      rg_routes = [((''m'', Chat), [''p''])], rg_fallbacks = []\<rparr>,
      gw_pricing = [], gw_get_bool = (\<lambda>_ _. None), gw_get_string = (\<lambda>_ _. None),
      gw_merge_missing = (\<lambda>c _. c), gw_default_context = \<lparr>fx_targeting_key = None, fx_fields = []\<rparr>,
      gw_env = (\<lambda>_. None), gw_month_start = (\<lambda>t. 0), gw_http_date_wait = (\<lambda>_. None),
      gw_answer = (\<lambda>n out. Reply demo_response), gw_accepts = (\<lambda>_. True),
      gw_now = 10, gw_done = 11, gw_latency_ms = 1000\<rparr>"

definition demo_headers :: "string hmap" where
  "demo_headers = [(''authorization'', ''Bearer token'')]"

lemmas demo_defs = demo_wire_def demo_provider_def demo_config_def demo_response_def demo_gateway_def
  demo_headers_def race_row_def race_store_def

lemma demo_bearer: "bearer demo_headers = Some ''token''"
  by code_simp

definition demo_request :: json where
  "demo_request = JObject [(''model'', JString ''m''), (''temperature'', JNumber (PosInt 0))]"

definition demo_store :: KeyStore where
  "demo_store = auth_fill ''h'' (key_of race_row) 10 race_store"

definition demo_routed :: Routed where
  "demo_routed =
     \<lparr>rt_key = key_of race_row, rt_requested_model = ''m'', rt_resolved_model = ''m'', rt_request = demo_request,
      rt_kind = Chat, rt_client = OpenAiCompatible, rt_cache_key = Some ''aig:resp:h''\<rparr>"

lemma demo_admit:
  "admit demo_gateway demo_headers ''body'' race_store =
     (Ok \<lparr>ad_key = key_of race_row, ad_request = demo_request, ad_requested_model = ''m''\<rparr>, demo_store)"
proof -
  have "authenticate (\<lambda>_. ''h'') 10 ''token'' race_store = (Ok (key_of race_row), demo_store)"
    by (simp add: authenticate_split race_store_def race_row_def select_key_def query_def find_key_def key_of_def
        get_key_json_held held_key_def cache_peek_def demo_store_def)
  then show ?thesis
    by (simp add: admit_def demo_bearer demo_gateway_def demo_wire_def demo_request_def request_from_slice_def
        request_model_def json_get_def bool_flag_def key_allows_def check_budget_def key_of_def race_row_def)
qed

lemma demo_prepare_from:
  assumes "admit demo_gateway demo_headers ''body'' ks =
      (Ok \<lparr>ad_key = key_of race_row, ad_request = demo_request, ad_requested_model = ''m''\<rparr>, ks1)"
    and "ks_cache ks1 \<noteq> None"
  shows "prepare demo_gateway demo_headers ''body'' ''/chat/completions'' ks =
     (Ok (demo_routed, OpenAiProvider ''p'' ''u'' ''secret'', [OpenAiProvider ''p'' ''u'' ''secret'']), ks1)"
proof -
  have route: "route_request demo_gateway (key_of race_row) ''m'' = Ok (''m'', None)"
    by (simp add: route_request_def demo_gateway_def demo_config_def string_flag_def config_resolve_def
        resolve_from_Cons rule_for_def rule_match_matches_def)
  have paths: "kind_for_sub_path ''/chat/completions'' = Chat" "dialect_for_sub_path ''/chat/completions'' = OpenAiCompatible"
    by code_simp+
  have cands: "candidate_providers demo_gateway ''m'' None Chat = [OpenAiProvider ''p'' ''u'' ''secret'']"
    by (simp add: candidate_providers_def demo_gateway_def providers_for_model_def registry_get_def map_filter_simps)
  have key: "choose_cache_key demo_gateway (key_of race_row) ''m'' demo_request Chat OpenAiCompatible
      ''/chat/completions'' ks1 = Ok (Some ''aig:resp:h'')"
    using assms(2)
    by (simp add: choose_cache_key_def demo_request_def is_stream_def is_cacheable_def json_get_def bool_flag_def
        demo_gateway_def demo_wire_def request_to_bytes_def response_key_def f64_of_int_def round53_small)
  show ?thesis
    unfolding prepare_def assms(1)
    by (simp add: route rewrite_model_def paths cands key demo_routed_def)
qed

lemma demo_cached: "ks_cache demo_store =
    Some \<lparr>ca_entries = [(key_cache_key ''h'', KeyJson (key_of race_row), 3610)], ca_up = True\<rparr>"
  by (simp add: demo_store_def auth_fill_def race_store_def set_key_json_def cache_set_def KEY_CACHE_TTL_def)

lemma demo_prepare:
  "prepare demo_gateway demo_headers ''body'' ''/chat/completions'' race_store =
     (Ok (demo_routed, OpenAiProvider ''p'' ''u'' ''secret'', [OpenAiProvider ''p'' ''u'' ''secret'']), demo_store)"
  by (rule demo_prepare_from [OF demo_admit]) (simp add: demo_cached)

text \<open>The same request once more, when its answer has been stored.\<close>

lemma demo_prepare_again:
  fixes cr u
  defines "ks \<equiv> record_usage u 11 (demo_store\<lparr>ks_cache :=
      map_option (set_response_json 3600 ''aig:resp:h'' cr 11) (ks_cache demo_store)\<rparr>)"
  shows "prepare demo_gateway demo_headers ''body'' ''/chat/completions'' ks =
     (Ok (demo_routed, OpenAiProvider ''p'' ''u'' ''secret'', [OpenAiProvider ''p'' ''u'' ''secret'']), ks)"
proof -
  have cache: "ks_cache ks = map_option (set_response_json 3600 ''aig:resp:h'' cr 11) (ks_cache demo_store)"
    by (simp add: ks_def record_usage_def split: option.split)
  then have "Option.bind (ks_cache ks) (\<lambda>c. get_key_json c 10 (key_cache_key ''h'')) = Some (key_of race_row)"
    by (simp add: demo_cached set_response_json_def get_key_json_held held_key_def cache_peek_set)
      (simp add: cache_peek_def key_cache_key_def)
  then have "authenticate (\<lambda>_. ''h'') 10 ''token'' ks = (Ok (key_of race_row), ks)"
    by (simp add: authenticate_split)
  then have "admit demo_gateway demo_headers ''body'' ks =
      (Ok \<lparr>ad_key = key_of race_row, ad_request = demo_request, ad_requested_model = ''m''\<rparr>, ks)"
    by (simp add: admit_def demo_bearer demo_gateway_def demo_wire_def demo_request_def request_from_slice_def
        request_model_def json_get_def bool_flag_def key_allows_def check_budget_def key_of_def race_row_def)
  then show ?thesis by (rule demo_prepare_from) (simp add: cache demo_cached)
qed

definition demo_outgoing :: Outgoing where
  "demo_outgoing =
     (build_request (OpenAiProvider ''p'' ''u'' ''secret'') Chat ''json'' demo_headers)\<lparr>og_timeout := Some REQUEST_TIMEOUT\<rparr>"

lemma demo_serve:
  "\<exists>u cr. proxy demo_gateway demo_headers ''body'' ''/chat/completions'' race_store =
     \<lparr>po_result = Answered \<lparr>pr_status = 200, pr_content_type = ''t'', pr_x_cache = Some ''MISS'',
                            pr_body = [Ok ''ok'']\<rparr>,
      po_store = record_usage u 11 (demo_store\<lparr>ks_cache :=
        map_option (set_response_json 3600 ''aig:resp:h'' cr 11) (ks_cache demo_store)\<rparr>),
      po_sent = [(OpenAiProvider ''p'' ''u'' ''secret'', demo_outgoing, Reply demo_response)]\<rparr>"
proof -
  let ?p = "OpenAiProvider ''p'' ''u'' ''secret''"
  have miss: "Option.bind (ks_cache demo_store) (\<lambda>c. get_response_json c 10 ''aig:resp:h'') = None"
    by (simp add: demo_store_def auth_fill_def race_store_def set_key_json_def cache_set_def get_response_json_def
        cache_get_def cache_peek_def key_cache_key_def)
  have out: "outbound_for demo_wire demo_request OpenAiCompatible OpenAiCompatible = Some (Ok ''json'')"
    by (simp add: outbound_for_def request_to_bytes_def demo_wire_def)
  have stream: "\<not> is_stream demo_request"
    by (simp add: demo_request_def is_stream_def json_get_def)
  have st: "call_upstream demo_gateway demo_headers demo_routed [?p] =
      (Ok (), \<lparr>fo_served = Some (?p, demo_response, ''json''), fo_fallback = None, fo_last_err = None,
               fo_sent = [(?p, demo_outgoing, Reply demo_response)], fo_slept = []\<rparr>)"
    by (simp add: call_upstream_def demo_routed_def demo_gateway_def out MAX_ATTEMPTS_PER_PROVIDER_def
        numeral_3_eq_3 send_upstream_def failover_new_def demo_response_def is_retryable_def stream Let_def
        demo_outgoing_def)
  obtain u cr where buf: "buffered_response demo_gateway demo_routed (?p, demo_response, ''json'') demo_store =
      (Answered \<lparr>pr_status = 200, pr_content_type = ''t'', pr_x_cache = Some ''MISS'', pr_body = [Ok ''ok'']\<rparr>,
       record_usage u 11 (demo_store\<lparr>ks_cache :=
         map_option (set_response_json 3600 ''aig:resp:h'' cr 11) (ks_cache demo_store)\<rparr>))"
    by (simp add: buffered_response_def demo_response_def demo_routed_def content_type_of_def Let_def
        store_response_def is_success_def demo_gateway_def ttl_secs_def)
  have "\<not> is_stream (rt_request demo_routed)"
    using stream by (simp add: demo_routed_def)
  moreover have "gw_now demo_gateway = 10" "rt_cache_key demo_routed = Some ''aig:resp:h''"
    by (simp_all add: demo_gateway_def demo_routed_def)
  ultimately show ?thesis
    by (intro exI [of _ u] exI [of _ cr])
      (simp add: proxy_def demo_prepare serve_def miss dispatch_def st failover_result_def buf)
qed

lemma demo_store_final:
  assumes "proxy demo_gateway demo_headers ''body'' ''/chat/completions'' race_store =
      \<lparr>po_result = res, po_store = ks, po_sent = sent\<rparr>"
  shows "\<exists>u cr. ks = record_usage u 11 (demo_store\<lparr>ks_cache :=
        map_option (set_response_json 3600 ''aig:resp:h'' cr 11) (ks_cache demo_store)\<rparr>)"
  using demo_serve assms by auto

lemma demo_sent: "po_sent (proxy demo_gateway demo_headers ''body'' ''/chat/completions'' race_store) \<noteq> []"
  using demo_serve by auto

section \<open>Configuration\<close>

text \<open>
  If no two key-independent rules name the same model and none of them is a catch-all, then for
  every key that no rule names, the model list agrees with what a request of that key gets: a denied
  model is not listed, a pinned one is listed under its provider, a rewritten one is listed, and a
  model without a rule is listed exactly as the providers declare it.
\<close>

theorem listing_agrees_with_resolution:
  assumes "one_rule_per_model (gc_rules cfg)" "\<forall>r\<in>set (gc_rules cfg). rm_key (mr_matcher r) \<noteq> Some key"
  shows "case config_resolve cfg key m of
      Denied \<Rightarrow> hget (advertise cfg models) m = None
    | Route m' (Some p) \<Rightarrow> hget (advertise cfg models) m = Some p
    | Route m' None \<Rightarrow>
        if list_ex (names_model m) (gc_rules cfg) then hget (advertise cfg models) m \<noteq> None
        else m' = m \<and> hget (advertise cfg models) m = hget models m"
  unfolding config_resolve_def advertise_def by (rule advertise_resolve [OF assms])

theorem listing_agrees_with_resolution_witness:
  "hget (advertise demo_config [(''x'', ''p''), (''m'', ''p'')]) ''x'' = None
   \<and> config_resolve demo_config ''bot'' ''x'' = Denied"
  using listing_agrees_with_resolution [of demo_config "''bot''" "''x''" "[(''x'', ''p''), (''m'', ''p'')]"]
  by (simp add: demo_config_def rule_for_def has_action_def config_resolve_def resolve_from_Cons
      rule_match_matches_def rule_action_def)

text \<open>
  The providers tried for a model are exactly the enabled providers that declare it for the
  endpoint's kind, or, when there is none, exactly the enabled fallback providers; they come in
  ascending order of priority and then name, and the order in which a run iterates over the
  configured providers makes no difference.
\<close>

theorem routing_characterised:
  assumes "hwf (gc_providers cfg)"
  shows "provider_name ` set (providers_for_model (from_config env cfg) model kind) =
      (if \<exists>n pc. enabled env cfg n pc \<and> declares pc model kind
       then {n. \<exists>pc. enabled env cfg n pc \<and> declares pc model kind}
       else {n. \<exists>pc. enabled env cfg n pc \<and> pc_fallback pc})
    \<and> sorted (map (\<lambda>p. (priority_of cfg (provider_name p), provider_name p))
        (providers_for_model (from_config env cfg) model kind))
    \<and> (\<forall>d. mset (gc_providers d) = mset (gc_providers cfg) \<longrightarrow>
        providers_for_model (from_config env d) model kind = providers_for_model (from_config env cfg) model kind)"
proof (intro conjI allI impI)
  fix d :: GateConfig
  assume "mset (gc_providers d) = mset (gc_providers cfg)"
  then show "providers_for_model (from_config env d) model kind = providers_for_model (from_config env cfg) model kind"
    using registry_order_independent [OF assms, of d env model kind] by simp
qed (rule providers_reach [OF assms], rule providers_sorted [OF assms])

theorem routing_characterised_witness:
  "provider_name ` set (providers_for_model (from_config (\<lambda>_. Some ''secret'') demo_config) ''m'' Chat) = {''p''}"
proof -
  let ?env = "\<lambda>_ :: string. Some ''secret''"
  have e: "enabled ?env demo_config n pc \<longleftrightarrow> n = ''p'' \<and> pc = demo_provider" for n pc
    by (simp add: enabled_def demo_config_def env_value_def)
  have d: "declares demo_provider ''m'' Chat" by (simp add: declares_def demo_provider_def)
  have "hwf (gc_providers demo_config)" by (simp add: demo_config_def)
  note reach = conjunct1 [OF routing_characterised [OF this, of ?env "''m''" Chat]]
  have "(\<exists>n pc. enabled ?env demo_config n pc \<and> declares pc ''m'' Chat)" using e d by blast
  moreover have "{n. \<exists>pc. enabled ?env demo_config n pc \<and> declares pc ''m'' Chat} = {''p''}" using e d by blast
  ultimately show ?thesis using reach by (simp only: if_True)
qed

section \<open>Keys\<close>

text \<open>
  C33: Whatever sequence of authentications, budget lookups, recordings and key administration has
  run, with the cache reachable and time passing, authenticating gives exactly what a lookup of the
  live row with the token's hash gives: the cache is invisible.
\<close>

theorem authentication_is_lookup:
  assumes "(key_step sha)\<^sup>*\<^sup>* s (now, ks)" "key_inv s" "gd_fault (ks_db ks) = None"
  shows "fst (authenticate sha now raw ks) =
    (case find_key (ks_db ks) (sha raw) of None \<Rightarrow> Err InvalidKey | Some key \<Rightarrow> Ok key)"
  using key_steps_inv [OF assms(1,2)] by (intro authenticate_reference) (simp_all add: assms(3))

theorem authentication_is_lookup_witness:
  "fst (authenticate (\<lambda>_. ''h'') 5 ''token'' (snd (authenticate (\<lambda>_. ''h'') 5 ''token'' race_store))) =
     Ok (key_of race_row)"
proof -
  have step: "(key_step (\<lambda>_. ''h''))\<^sup>*\<^sup>* (5, race_store) (5, snd (authenticate (\<lambda>_. ''h'') 5 ''token'' race_store))"
    by (rule r_into_rtranclp) (rule key_step.auth)
  have inv: "key_inv (5, race_store)"
    by (simp add: race_store_def keys_unique_def coherent_def held_keys.sound_def held_key_def
        cache_peek_def cache_ready_def)
  have db: "ks_db (snd (authenticate (\<lambda>_. ''h'') 5 ''token'' race_store)) = ks_db race_store"
    by (cases "authenticate (\<lambda>_. ''h'') 5 ''token'' race_store") (simp add: authenticate_db)
  show ?thesis
    using authentication_is_lookup [OF step inv, of "''token''"]
    by (simp add: db) (simp add: race_store_def race_row_def find_key_def key_of_def)
qed

text \<open>
  When revoking a key has succeeded with the cache reachable, its token is refused from then on,
  at any time and whatever the cache held before.
\<close>

theorem revocation_is_immediate:
  assumes "key_revoke i ks = (Ok True, ks')" "cache_ready ks" "keys_unique (gd_keys (ks_db ks))"
    and "r \<in> set (gd_keys (ks_db ks))" "kr_id r = i" "sha raw = kr_key_hash r"
  shows "fst (authenticate sha now raw ks') = Err InvalidKey"
  using assms by (rule revoke_refused)

theorem revocation_is_immediate_witness:
  "fst (authenticate (\<lambda>_. ''h'') 7 ''token'' (snd (key_revoke ''k1'' race_store))) = Err InvalidKey"
proof -
  have "key_revoke ''k1'' race_store = (Ok True, snd (key_revoke ''k1'' race_store))"
    by (simp add: race_defs)
  then show ?thesis
    by (rule revocation_is_immediate [where r = race_row])
      (simp_all add: race_store_def race_row_def cache_ready_def keys_unique_def)
qed

text \<open>
  C34: With requests and key administration interleaved in any way, also across replicas and with
  flushes lost, an accepted token belongs to a key that was live, with the fields the request sees,
  no longer ago than the lifetime of a cache entry and of one request.
\<close>

theorem accepted_keys_are_recent:
  assumes "(world_step sha delay)\<^sup>*\<^sup>* w w'" "world_inv delay w" "0 \<le> delay"
    and "fst (authenticate sha (kw_now w') raw (kw_store w')) = Ok key"
  shows "\<exists>s db. ((s, db) \<in> set (kw_seen w') \<or> (s, db) = (kw_now w', ks_db (kw_store w')))
    \<and> find_key db (sha raw) = Some key \<and> kw_now w' \<le> s + delay + KEY_CACHE_TTL"
  by (rule world_accepts [OF world_steps_inv [OF assms(1,3,2)] assms(3,4)])

theorem accepted_keys_are_recent_witness:
  "\<exists>s db. ((s, db) \<in> set (kw_seen race_world) \<or> (s, db) = (kw_now race_world, ks_db (kw_store race_world)))
    \<and> find_key db ''h'' = Some (key_of race_row) \<and> kw_now race_world \<le> s + 0 + KEY_CACHE_TTL"
proof -
  have "world_inv 0 race_world" by (simp add: world_inv_def race_world_def race_store_def)
  moreover have "fst (authenticate (\<lambda>_. ''h'') (kw_now race_world) ''token'' (kw_store race_world)) =
      Ok (key_of race_row)"
    by (simp add: race_world_def race_store_def race_row_def key_of_def authenticate_split select_key_def
        query_def find_key_def get_key_json_held held_key_def cache_peek_def)
  ultimately show ?thesis
    using accepted_keys_are_recent [OF rtranclp.rtrancl_refl, of 0 race_world "\<lambda>_. ''h''" "''token''" "key_of race_row"]
    by simp
qed

section \<open>Requests\<close>



text \<open>
  C35: The requests a handler call sends go to candidates of the resolved model only, one after the
  other in failover order, at most three per candidate; each carries the client's request with its
  model replaced by the resolved one and every other field kept, in the provider's dialect, and does
  not depend on any header of the client but the five that are forwarded: its credentials stay here.
\<close>

theorem upstream_requests_faithful:
  assumes "po_sent (proxy G headers body path ks) \<noteq> []"
  shows "\<exists>ad resolved pinned req ks1. admit G headers body ks = (Ok ad, ks1)
    \<and> route_request G (ad_key ad) (ad_requested_model ad) = Ok (resolved, pinned)
    \<and> tried (candidate_providers G resolved pinned (kind_for_sub_path path)) (po_sent (proxy G headers body path ks))
    \<and> length (po_sent (proxy G headers body path ks))
        \<le> 3 * length (candidate_providers G resolved pinned (kind_for_sub_path path))
    \<and> request_model req = Ok resolved
    \<and> (\<forall>k. k \<noteq> ''model'' \<longrightarrow> json_get k req = json_get k (ad_request ad))
    \<and> (\<forall>(p, out, r)\<in>set (po_sent (proxy G headers body path ks)).
         outbound_for (gw_wire G) req (dialect_for_sub_path path) (provider_dialect p) = Some (Ok (og_body out))
         \<and> (\<forall>h. (\<forall>n\<in>set forwarded_names. hget h n = hget headers n) \<longrightarrow>
              og_headers out = og_headers (build_request p (kind_for_sub_path path) (og_body out) h)))"
proof -
  obtain rt primary cs ks1 where p: "prepare G headers body path ks = (Ok (rt, primary, cs), ks1)"
    using assms prepare_failed by (cases "prepare G headers body path ks") (force simp: proxy_def split: sum.splits)
  then have sent: "po_sent (proxy G headers body path ks) = po_sent (serve G headers rt primary cs ks1)"
    by (simp add: proxy_def)
  obtain ad pinned where ad: "admit G headers body ks = (Ok ad, ks1)"
    "route_request G (ad_key ad) (ad_requested_model ad) = Ok (rt_resolved_model rt, pinned)"
    "rewrite_model (ad_requested_model ad) (rt_resolved_model rt) (ad_request ad) = Some (rt_request rt)"
    "rt_kind rt = kind_for_sub_path path" "rt_client rt = dialect_for_sub_path path"
    "cs = candidate_providers G (rt_resolved_model rt) pinned (kind_for_sub_path path)"
    using prepare_Ok [OF p] by blast
  have m: "request_model (ad_request ad) = Ok (ad_requested_model ad)" using admit_Ok [OF ad(1)] by blast
  note tried = serve_tried [of cs G headers rt primary ks1]
  have "length (po_sent (serve G headers rt primary cs ks1)) \<le> 3 * length cs"
    using tried_length [OF conjunct1 [OF tried]] by (simp add: MAX_ATTEMPTS_PER_PROVIDER_def)
  moreover have "og_headers out = og_headers (build_request q (kind_for_sub_path path) (og_body out) h)"
    if "(q, out, r) \<in> set (po_sent (serve G headers rt primary cs ks1))"
      and "\<forall>n\<in>set forwarded_names. hget h n = hget headers n" for q out r h
    using serve_built [OF that(1)] build_request_headers [OF that(2)] ad(4) by simp
  ultimately show ?thesis
    unfolding sent
    using ad m tried rewrite_model_request [OF m ad(3)] rewrite_model_keeps [OF m ad(3)]
    by (intro exI [of _ ad] exI [of _ "rt_resolved_model rt"] exI [of _ pinned] exI [of _ "rt_request rt"]
        exI [of _ ks1]) (auto simp: list_all_iff)
qed

theorem upstream_requests_faithful_witness:
  "\<exists>ad resolved pinned req ks1. admit demo_gateway demo_headers ''body'' race_store = (Ok ad, ks1)
    \<and> request_model req = Ok resolved
    \<and> tried (candidate_providers demo_gateway resolved pinned Chat)
        (po_sent (proxy demo_gateway demo_headers ''body'' ''/chat/completions'' race_store))"
proof -
  have "kind_for_sub_path ''/chat/completions'' = Chat" by code_simp
  then show ?thesis using upstream_requests_faithful [OF demo_sent] by auto
qed



section \<open>Cached answers\<close>

text \<open>
  After a successful buffered answer that could be cached, every later request with the same
  cache key gets, while the entry lives, the same status, content type and body without any provider
  being called, whatever the virtual key, the other headers and the state of the providers are then.
\<close>

theorem cached_answers_replay:
  assumes "prepare G headers body path ks = (Ok (rt, primary, cs), ks1)" "rt_cache_key rt = Some k"
    and "po_result (proxy G headers body path ks) = Answered r" "pr_x_cache r = Some ''MISS''"
    and "is_success (pr_status r)" "to_str (pr_content_type r) \<noteq> None" "cache_ready ks1"
    and "prepare G' headers' body' path' (po_store (proxy G headers body path ks)) = (Ok (rt', primary', cs'), ks2)"
    and "rt_cache_key rt' = Some k" "gw_now G' < gw_done G + ttl_secs (gw_env G)"
  shows "po_result (proxy G' headers' body' path' (po_store (proxy G headers body path ks))) =
      Answered (r\<lparr>pr_x_cache := Some ''HIT''\<rparr>)
    \<and> po_sent (proxy G' headers' body' path' (po_store (proxy G headers body path ks))) = []"
proof -
  have p: "proxy G headers body path ks = serve G headers rt primary cs ks1"
    using assms(1) by (simp add: proxy_def)
  obtain ad :: Admitted where key: "choose_cache_key G (ad_key ad) (ad_requested_model ad) (rt_request rt) (rt_kind rt)
      (rt_client rt) path ks1 = Ok (Some k)"
    using prepare_Ok [OF assms(1)] unfolding assms(2) by blast
  have key: "\<not> is_stream (rt_request rt)" "ks_cache ks1 \<noteq> None" "\<exists>h. k = ''aig:resp:'' @ h"
    using cache_key_shape [OF key] by (auto simp: response_key_def)
  then obtain c h where c: "ks_cache ks1 = Some c" "k = ''aig:resp:'' @ h" by auto
  then have "ca_up c" using assms(7) by (simp add: cache_ready_def)
  from serve_stores [OF assms(3) [unfolded p] assms(4,2) key(1) assms(5) c(1) this assms(10,6)]
  obtain cr where cr: "held_response (po_store (proxy G headers body path ks)) (gw_now G') k = Some cr"
    "cached_into_response cr = r\<lparr>pr_x_cache := Some ''HIT''\<rparr>"
    unfolding p by blast
  obtain ad where ad: "admit G' headers' body' (po_store (proxy G headers body path ks)) = (Ok ad, ks2)"
    using prepare_Ok [OF assms(8)] by blast
  have "held_response ks2 (gw_now G') k = Some cr" using admit_responses [OF ad] cr(1) c(2) by metis
  then show ?thesis
    using assms(8,9) cr(2) by (simp add: proxy_def serve_def held_response_def cache_hit_response_def)
qed

theorem cached_answers_replay_witness:
  "po_result (proxy demo_gateway demo_headers ''body'' ''/chat/completions''
      (po_store (proxy demo_gateway demo_headers ''body'' ''/chat/completions'' race_store))) =
     Answered \<lparr>pr_status = 200, pr_content_type = ''t'', pr_x_cache = Some ''HIT'', pr_body = [Ok ''ok'']\<rparr>"
proof -
  obtain ks where o1: "proxy demo_gateway demo_headers ''body'' ''/chat/completions'' race_store =
     \<lparr>po_result = Answered \<lparr>pr_status = 200, pr_content_type = ''t'', pr_x_cache = Some ''MISS'',
                            pr_body = [Ok ''ok'']\<rparr>,
      po_store = ks,
      po_sent = [(OpenAiProvider ''p'' ''u'' ''secret'', demo_outgoing, Reply demo_response)]\<rparr>"
    using demo_serve by blast
  then have again: "prepare demo_gateway demo_headers ''body'' ''/chat/completions'' ks =
      (Ok (demo_routed, OpenAiProvider ''p'' ''u'' ''secret'', [OpenAiProvider ''p'' ''u'' ''secret'']), ks)"
    using demo_store_final [OF o1] by (elim exE) (simp only: demo_prepare_again)
  have times: "gw_now demo_gateway < gw_done demo_gateway + ttl_secs (gw_env demo_gateway)"
    by (simp add: demo_gateway_def ttl_secs_def)
  have "cache_ready demo_store" by (simp add: cache_ready_def demo_cached)
  then show ?thesis
    using cached_answers_replay [OF demo_prepare, of "''aig:resp:h''" "\<lparr>pr_status = 200, pr_content_type = ''t'',
        pr_x_cache = Some ''MISS'', pr_body = [Ok ''ok'']\<rparr>" demo_gateway demo_headers "''body''"
        "''/chat/completions''" demo_routed] again times
    by (simp add: o1 demo_routed_def is_success_def to_str_def byte_def)
qed

section \<open>Failover and streams\<close>





end
