(* ===== verification/FlagAdmin.thy ===== *)
theory FlagAdmin
  imports StoreProperties Text
begin

text \<open>
  The Admin service: \<open>platform-services/feature-flags/src/grpc/admin.rs\<close> with the messages of
  \<open>admin.proto\<close>. A handler decodes its request, lets the store write, refreshes the snapshot and
  answers from it. The state is the tables and the snapshot manager of this replica. Other
  writers and reloads may run wherever a handler awaits; what they do is in \<open>Others\<close>.
  \<open>json_text\<close> is \<open>serde_json\<close>'s printer; the id and the time stamp of an audit row are not
  modelled.
\<close>

section \<open>Messages\<close>

datatype PbChangeOp = OpUnspecified | OpCreate | OpUpdate | OpDelete

definition pb_change_ops :: "PbChangeOp list" where
  "pb_change_ops = [OpUnspecified, OpCreate, OpUpdate, OpDelete]"

record PbConfigChange =
  pcc_target_kind :: string
  pcc_target_key :: string
  pcc_op :: int
  pcc_detail :: string

record PbFlagChange =
  pfc_version :: int
  pfc_actor :: string
  pfc_action :: string
  pfc_target_kind :: string
  pfc_target_key :: string
  pfc_detail :: string

record ApplyConfigResponse =
  acr_changes :: "PbConfigChange list"
  acr_from_version :: int
  acr_to_version :: int
  acr_applied :: bool

fun change_op_to_pb :: "ChangeOp \<Rightarrow> PbChangeOp" where
  "change_op_to_pb Create = OpCreate"
| "change_op_to_pb Update = OpUpdate"
| "change_op_to_pb Delete = OpDelete"

definition config_change_to_pb :: "(json \<Rightarrow> string) \<Rightarrow> ConfigChange \<Rightarrow> PbConfigChange" where
  "config_change_to_pb json_text c =
     \<lparr>pcc_target_kind = cc_target_kind c, pcc_target_key = cc_target_key c,
      pcc_op = index_of (change_op_to_pb (cc_op c)) pb_change_ops, pcc_detail = json_text (cc_detail c)\<rparr>"

definition flag_change_to_pb :: "(json \<Rightarrow> string) \<Rightarrow> FlagChange \<Rightarrow> PbFlagChange" where
  "flag_change_to_pb json_text c =
     \<lparr>pfc_version = fc_version c, pfc_actor = fc_actor c, pfc_action = fc_action c,
      pfc_target_kind = fc_target_kind c, pfc_target_key = fc_target_key c,
      pfc_detail = json_text (fc_detail c)\<rparr>"

text \<open>The caller, from the metadata value \<open>actor\<close>.\<close>

definition actor_of :: "string option \<Rightarrow> string" where
  "actor_of metadata =
     (case Option.bind metadata to_str of
        Some s \<Rightarrow> if s = [] then ''unknown'' else s
      | None \<Rightarrow> ''unknown'')"

section \<open>The service\<close>

record Backend =
  be_db :: Db
  be_mgr :: SnapshotManager

text \<open>
  What happens beside a handler: \<open>ot_plan\<close> between the plan and the transaction of
  \<open>apply_config\<close>, \<open>ot_load\<close> between the commit and the load of the refresh, \<open>ot_read\<close> between the
  refresh and the read that answers; \<open>ot_fault\<close> is what the load fails with, if it does.
\<close>

record Others =
  ot_has_cache :: bool
  ot_plan :: "Db \<Rightarrow> Db"
  ot_load :: "Backend \<Rightarrow> Backend"
  ot_fault :: "AppError option"
  ot_read :: "Backend \<Rightarrow> Backend"

definition alone :: "bool \<Rightarrow> Others" where
  "alone has_cache = \<lparr>ot_has_cache = has_cache, ot_plan = id, ot_load = id, ot_fault = None, ot_read = id\<rparr>"

definition refresh :: "Others \<Rightarrow> Backend \<Rightarrow> Backend" where
  "refresh E b =
     (let b1 = ot_load E b;
          loaded = (case ot_fault E of Some e \<Rightarrow> Err e | None \<Rightarrow> load_snapshot (be_db b1))
      in ot_read E (b1\<lparr>be_mgr := snd (reload (ot_has_cache E) loaded (be_mgr b1))\<rparr>))"

text \<open>The shape of every write: \<open>self.store.\<dots>.await?; self.refresh().await;\<close> and the answer.\<close>

definition written :: "Others \<Rightarrow> (Db \<Rightarrow> unit tx) \<Rightarrow> (Backend \<Rightarrow> (status, 'a) result) \<Rightarrow> Backend
    \<Rightarrow> (status, 'a) result \<times> Backend" where
  "written E write answer b =
     (case write (be_db b) of
        Err e \<Rightarrow> (Err (status_from e), b)
      | Ok (_, db) \<Rightarrow> (let b' = refresh E (b\<lparr>be_db := db\<rparr>) in (answer b', b')))"

definition read_flag :: "string \<Rightarrow> Backend \<Rightarrow> (status, PbFlag) result" where
  "read_flag key b =
     (case mgr_get_flag (be_mgr b) key of Err e \<Rightarrow> Err (status_from e) | Ok f \<Rightarrow> Ok (flag_to_pb f))"

definition read_segment :: "string \<Rightarrow> Backend \<Rightarrow> (status, PbSegment) result" where
  "read_segment key b =
     (case mgr_get_segment (be_mgr b) key of Err e \<Rightarrow> Err (status_from e) | Ok s \<Rightarrow> Ok (segment_to_pb s))"

definition invalid_argument :: "string \<Rightarrow> status" where
  "invalid_argument m = (CodeInvalidArgument, m)"

section \<open>Handlers\<close>

definition create_flag_rpc ::
  "Others \<Rightarrow> string \<Rightarrow> string \<Rightarrow> int \<Rightarrow> bool \<Rightarrow> string \<Rightarrow> PbVariant list \<Rightarrow> Backend
     \<Rightarrow> (status, PbFlag) result \<times> Backend" where
  "create_flag_rpc E actor key value_type enabled default_variant_key variants b =
     (case value_type_try_from (value_type_of_i32 value_type) of
        Err e \<Rightarrow> (Err (invalid_argument e), b)
      | Ok t \<Rightarrow>
          written E (create_flag actor key t enabled default_variant_key (map variant_from_pb variants))
            (read_flag key) b)"

definition get_flag_rpc :: "string \<Rightarrow> Backend \<Rightarrow> (status, PbFlag) result" where
  "get_flag_rpc key = read_flag key"

definition list_flags_rpc :: "bool \<Rightarrow> Backend \<Rightarrow> PbFlag list" where
  "list_flags_rpc include_archived b = map flag_to_pb (mgr_list_flags (be_mgr b) include_archived)"

definition update_flag_rpc ::
  "Others \<Rightarrow> string \<Rightarrow> string \<Rightarrow> bool \<Rightarrow> string \<Rightarrow> Backend \<Rightarrow> (status, PbFlag) result \<times> Backend" where
  "update_flag_rpc E actor key enabled default_variant_key =
     written E (update_flag actor key enabled default_variant_key) (read_flag key)"

definition archive_flag_rpc ::
  "Others \<Rightarrow> string \<Rightarrow> string \<Rightarrow> bool \<Rightarrow> Backend \<Rightarrow> (status, PbFlag) result \<times> Backend" where
  "archive_flag_rpc E actor key archived = written E (archive_flag actor key archived) (read_flag key)"

definition delete_flag_rpc :: "Others \<Rightarrow> string \<Rightarrow> string \<Rightarrow> Backend \<Rightarrow> (status, unit) result \<times> Backend" where
  "delete_flag_rpc E actor key = written E (delete_flag actor key) (\<lambda>_. Ok ())"

definition upsert_variant_rpc ::
  "Others \<Rightarrow> string \<Rightarrow> string \<Rightarrow> PbVariant option \<Rightarrow> Backend \<Rightarrow> (status, PbFlag) result \<times> Backend" where
  "upsert_variant_rpc E actor flag_key variant b =
     (case variant of
        None \<Rightarrow> (Err (invalid_argument ''variant is required''), b)
      | Some v \<Rightarrow> written E (upsert_variant actor flag_key (variant_from_pb v)) (read_flag flag_key) b)"

definition delete_variant_rpc ::
  "Others \<Rightarrow> string \<Rightarrow> string \<Rightarrow> string \<Rightarrow> Backend \<Rightarrow> (status, PbFlag) result \<times> Backend" where
  "delete_variant_rpc E actor flag_key variant_key =
     written E (delete_variant actor flag_key variant_key) (read_flag flag_key)"

text \<open>\<open>upsert_segment_inner\<close> is the body of \<open>create_segment\<close> and \<open>update_segment\<close>.\<close>

definition upsert_segment_inner ::
  "Others \<Rightarrow> string \<Rightarrow> PbSegment option \<Rightarrow> Backend \<Rightarrow> (status, PbSegment) result \<times> Backend" where
  "upsert_segment_inner E actor segment b =
     (case segment of
        None \<Rightarrow> (Err (invalid_argument ''segment is required''), b)
      | Some proto \<Rightarrow>
          (case segment_try_from proto of
             Err e \<Rightarrow> (Err (invalid_argument e), b)
           | Ok domain \<Rightarrow> written E (upsert_segment actor domain) (read_segment (s_key domain)) b))"

definition get_segment_rpc :: "string \<Rightarrow> Backend \<Rightarrow> (status, PbSegment) result" where
  "get_segment_rpc key = read_segment key"

definition list_segments_rpc :: "Backend \<Rightarrow> PbSegment list" where
  "list_segments_rpc b = map segment_to_pb (mgr_list_segments (be_mgr b))"

definition delete_segment_rpc :: "Others \<Rightarrow> string \<Rightarrow> string \<Rightarrow> Backend \<Rightarrow> (status, unit) result \<times> Backend" where
  "delete_segment_rpc E actor key = written E (delete_segment actor key) (\<lambda>_. Ok ())"

definition set_flag_rules_rpc ::
  "Others \<Rightarrow> string \<Rightarrow> string \<Rightarrow> PbRule list \<Rightarrow> Backend \<Rightarrow> (status, PbFlag) result \<times> Backend" where
  "set_flag_rules_rpc E actor flag_key rules b =
     (case traverse rule_try_from rules of
        Err e \<Rightarrow> (Err (invalid_argument e), b)
      | Ok rs \<Rightarrow> written E (set_flag_rules actor flag_key rs) (read_flag flag_key) b)"

definition apply_config_rpc ::
  "(json \<Rightarrow> string) \<Rightarrow> Others \<Rightarrow> string \<Rightarrow> PbFlag list \<Rightarrow> PbSegment list \<Rightarrow> bool \<Rightarrow> int \<Rightarrow> Backend
     \<Rightarrow> (status, ApplyConfigResponse) result \<times> Backend" where
  "apply_config_rpc json_text E actor flags segments dry_run expected_version b =
     (case traverse flag_try_from flags of
        Err e \<Rightarrow> (Err (invalid_argument e), b)
      | Ok fs \<Rightarrow>
          (case traverse segment_try_from segments of
             Err e \<Rightarrow> (Err (invalid_argument e), b)
           | Ok ss \<Rightarrow>
               (let later = ot_plan E (be_db b)
                in case apply_config actor fs ss dry_run expected_version (be_db b) later of
                     Err e \<Rightarrow> (Err (status_from e), b\<lparr>be_db := later\<rparr>)
                   | Ok (outcome, db) \<Rightarrow>
                       (Ok \<lparr>acr_changes = map (config_change_to_pb json_text) (ao_changes outcome),
                            acr_from_version = ao_from_version outcome,
                            acr_to_version = ao_to_version outcome,
                            acr_applied = ao_applied outcome\<rparr>,
                        if ao_applied outcome \<and> ao_changes outcome \<noteq> [] then refresh E (b\<lparr>be_db := db\<rparr>)
                        else b\<lparr>be_db := db\<rparr>))))"

definition list_changes_rpc ::
  "(json \<Rightarrow> string) \<Rightarrow> string \<Rightarrow> string \<Rightarrow> u32 \<Rightarrow> Backend \<Rightarrow> PbFlagChange list" where
  "list_changes_rpc json_text target_kind target_key limit b =
     map (flag_change_to_pb json_text) (list_changes target_kind target_key (uint limit) (be_db b))"

end
