(* ===== verification/CtlDoc.thy ===== *)
theory CtlDoc
  imports FlagAdmin FlagClient
begin

text \<open>
  The documents of \<open>ffctl config\<close>: \<open>platform-services/feature-flags/src/flag_config.rs\<close> and the
  conversions of \<open>src/bin/ffctl.rs\<close> between them and the messages of the Admin service. An
  \<open>anyhow::Error\<close> is the list of its messages, the outermost context first. Operator names are
  ASCII where their case is changed.
\<close>

type_synonym 'a anyhow = "(string list, 'a) result"

definition with_context :: "string \<Rightarrow> 'a anyhow \<Rightarrow> 'a anyhow" where
  "with_context m r = (case r of Err e \<Rightarrow> Err (m # e) | Ok x \<Rightarrow> Ok x)"

definition ok_or_context :: "string \<Rightarrow> 'a option \<Rightarrow> 'a anyhow" where
  "ok_or_context m o' = (case o' of None \<Rightarrow> Err [m] | Some x \<Rightarrow> Ok x)"

section \<open>Documents\<close>

record DistDoc =
  dd_variant :: string
  dd_weight :: u32

record ConstraintDoc =
  cd_attribute :: string
  cd_operator :: string
  cd_values :: "json list"

record RuleDoc =
  rd_segment :: "string option"
  rd_variant :: "string option"
  rd_distributions :: "DistDoc list"
  rd_constraints :: "ConstraintDoc list"
  rd_constraint_groups :: "ConstraintDoc list list"
  rd_bucket_salt :: string

text \<open>\<open>fd_variants\<close> is a \<open>BTreeMap\<close>: its entries in key order.\<close>

record FlagDoc =
  fd_key :: string
  fd_value_type :: string
  fd_enabled :: bool
  fd_default :: string
  fd_variants :: "(string \<times> json) list"
  fd_rules :: "RuleDoc list"

record SegmentDoc =
  sd_key :: string
  sd_name :: string
  sd_constraints :: "ConstraintDoc list"

record SegmentsFile =
  sf_segments :: "SegmentDoc list"

section \<open>JSON values\<close>

fun value_to_json :: "pvalue \<Rightarrow> json" where
  "value_to_json (PValue None) = JNull"
| "value_to_json (PValue (Some (NullValue _))) = JNull"
| "value_to_json (PValue (Some (BoolValue b))) = JBool b"
| "value_to_json (PValue (Some (NumberValue n))) =
     (case number_from_f64 n of Some m \<Rightarrow> JNumber m | None \<Rightarrow> JNull)"
| "value_to_json (PValue (Some (StringValue s))) = JString s"
| "value_to_json (PValue (Some (ListValue l))) = JArray (map value_to_json l)"
| "value_to_json (PValue (Some (StructValue s))) = JObject (map (\<lambda>(k, v). (k, value_to_json v)) s)"

fun value_of_json :: "json \<Rightarrow> pvalue" where
  "value_of_json JNull = PValue (Some (NullValue 0))"
| "value_of_json (JBool b) = PValue (Some (BoolValue b))"
| "value_of_json (JNumber n) = PValue (Some (NumberValue (Fin (number_as_f64 n))))"
| "value_of_json (JString s) = PValue (Some (StringValue s))"
| "value_of_json (JArray a) = PValue (Some (ListValue (map value_of_json a)))"
| "value_of_json (JObject obj) = PValue (Some (StructValue (map (\<lambda>(k, v). (k, value_of_json v)) obj)))"

lemma value_to_json_eq: "value_to_json v = prost_value_to_json v"
  by (induction v rule: value_to_json.induct) auto

lemma value_of_json_eq: "value_of_json j = json_to_prost_value j"
  by (induction j rule: value_of_json.induct) auto

section \<open>Names\<close>

text \<open>\<open>as_str_name\<close> and \<open>from_str_name\<close> of the generated enums.\<close>

fun operator_as_str_name :: "PbOperator \<Rightarrow> string" where
  "operator_as_str_name PoUnspecified = ''CONSTRAINT_OPERATOR_UNSPECIFIED''"
| "operator_as_str_name PoEq = ''CONSTRAINT_OPERATOR_EQ''"
| "operator_as_str_name PoNeq = ''CONSTRAINT_OPERATOR_NEQ''"
| "operator_as_str_name PoIn = ''CONSTRAINT_OPERATOR_IN''"
| "operator_as_str_name PoNotIn = ''CONSTRAINT_OPERATOR_NOT_IN''"
| "operator_as_str_name PoContains = ''CONSTRAINT_OPERATOR_CONTAINS''"
| "operator_as_str_name PoStartsWith = ''CONSTRAINT_OPERATOR_STARTS_WITH''"
| "operator_as_str_name PoEndsWith = ''CONSTRAINT_OPERATOR_ENDS_WITH''"
| "operator_as_str_name PoGt = ''CONSTRAINT_OPERATOR_GT''"
| "operator_as_str_name PoGte = ''CONSTRAINT_OPERATOR_GTE''"
| "operator_as_str_name PoLt = ''CONSTRAINT_OPERATOR_LT''"
| "operator_as_str_name PoLte = ''CONSTRAINT_OPERATOR_LTE''"
| "operator_as_str_name PoExists = ''CONSTRAINT_OPERATOR_EXISTS''"
| "operator_as_str_name PoRegex = ''CONSTRAINT_OPERATOR_REGEX''"
| "operator_as_str_name PoFlagMatches = ''CONSTRAINT_OPERATOR_FLAG_MATCHES''"

definition operator_from_str_name :: "string \<Rightarrow> PbOperator option" where
  "operator_from_str_name s = List.find (\<lambda>p. operator_as_str_name p = s) pb_operators"

fun value_type_as_str_name :: "PbValueType \<Rightarrow> string" where
  "value_type_as_str_name VtUnspecified = ''VALUE_TYPE_UNSPECIFIED''"
| "value_type_as_str_name VtBoolean = ''VALUE_TYPE_BOOLEAN''"
| "value_type_as_str_name VtString = ''VALUE_TYPE_STRING''"
| "value_type_as_str_name VtInteger = ''VALUE_TYPE_INTEGER''"
| "value_type_as_str_name VtFloat = ''VALUE_TYPE_FLOAT''"
| "value_type_as_str_name VtObject = ''VALUE_TYPE_OBJECT''"

definition value_type_from_name :: "string \<Rightarrow> PbValueType anyhow" where
  "value_type_from_name s =
     (if s = ''boolean'' then Ok VtBoolean
      else if s = ''string'' then Ok VtString
      else if s = ''integer'' then Ok VtInteger
      else if s = ''float'' then Ok VtFloat
      else if s = ''object'' then Ok VtObject
      else Err [''unknown flag type `'' @ s @ ''`''])"

definition value_type_name :: "int \<Rightarrow> string" where
  "value_type_name v =
     (case value_type_of_i32 v of
        VtBoolean \<Rightarrow> ''boolean'' | VtString \<Rightarrow> ''string'' | VtInteger \<Rightarrow> ''integer''
      | VtFloat \<Rightarrow> ''float'' | VtObject \<Rightarrow> ''object'' | VtUnspecified \<Rightarrow> ''unspecified'')"

definition operator_from_name :: "string \<Rightarrow> PbOperator anyhow" where
  "operator_from_name s =
     ok_or_context (''unknown operator `'' @ s @ ''`'')
       (operator_from_str_name (''CONSTRAINT_OPERATOR_'' @ to_uppercase s))"

text \<open>\<open>trim_start_matches\<close>: the prefix is removed as often as it is there.\<close>

function trim_start_matches :: "string \<Rightarrow> string \<Rightarrow> string" where
  "trim_start_matches p s =
     (case strip_prefix p s of Some t \<Rightarrow> if p = [] then t else trim_start_matches p t | None \<Rightarrow> s)"
  by pat_completeness auto
termination
  by (relation "measure (\<lambda>(p, s). length s)") (auto simp: strip_prefix_def starts_with_iff split: if_splits)

declare trim_start_matches.simps [simp del]

definition operator_name :: "int \<Rightarrow> string" where
  "operator_name op =
     to_lowercase (trim_start_matches ''CONSTRAINT_OPERATOR_'' (operator_as_str_name (operator_of_i32 op)))"

section \<open>From documents to messages\<close>

definition constraint_doc_to_pb :: "ConstraintDoc \<Rightarrow> PbConstraint anyhow" where
  "constraint_doc_to_pb c =
     (case operator_from_name (cd_operator c) of
        Err e \<Rightarrow> Err e
      | Ok p \<Rightarrow> Ok \<lparr>pc_attribute = cd_attribute c, pc_operator = operator_as_i32 p,
                    pc_values = map value_of_json (cd_values c)\<rparr>)"

definition group_of :: "ConstraintDoc list \<Rightarrow> PbConstraintGroup anyhow" where
  "group_of g = (case traverse constraint_doc_to_pb g of Err e \<Rightarrow> Err e | Ok cs \<Rightarrow> Ok \<lparr>pg_constraints = cs\<rparr>)"

definition rule_doc_to_pb :: "u32 \<Rightarrow> RuleDoc \<Rightarrow> PbRule anyhow" where
  "rule_doc_to_pb rank r =
     (let groups = (if rd_constraint_groups r \<noteq> [] then traverse group_of (rd_constraint_groups r)
                    else traverse (\<lambda>c. group_of [c]) (rd_constraints r))
      in case groups of
           Err e \<Rightarrow> Err e
         | Ok gs \<Rightarrow>
             Ok \<lparr>pr_rank = rank,
                 pr_segment_key = (case rd_segment r of Some s \<Rightarrow> s | None \<Rightarrow> []),
                 pr_variant_key = (case rd_variant r of Some v \<Rightarrow> v | None \<Rightarrow> []),
                 pr_distributions =
                   map (\<lambda>d. \<lparr>pd_variant_key = dd_variant d, pd_weight = dd_weight d\<rparr>) (rd_distributions r),
                 pr_constraint_groups = gs, pr_bucket_salt = rd_bucket_salt r\<rparr>)"

definition flag_doc_to_pb :: "FlagDoc \<Rightarrow> PbFlag anyhow" where
  "flag_doc_to_pb doc =
     (case value_type_from_name (fd_value_type doc) of
        Err e \<Rightarrow> Err e
      | Ok t \<Rightarrow>
          (case traverse (\<lambda>(i, r). rule_doc_to_pb (of_nat i) r) (List.enumerate 0 (fd_rules doc)) of
             Err e \<Rightarrow> Err e
           | Ok rs \<Rightarrow>
               Ok \<lparr>pf_key = fd_key doc, pf_value_type = value_type_as_i32 t, pf_enabled = fd_enabled doc,
                   pf_default_variant_key = fd_default doc, pf_archived = False,
                   pf_variants = map (\<lambda>(k, v). \<lparr>pv_key = k, pv_value = Some (value_of_json v)\<rparr>) (fd_variants doc),
                   pf_rules = rs\<rparr>))"

definition segment_doc_to_pb :: "SegmentDoc \<Rightarrow> PbSegment anyhow" where
  "segment_doc_to_pb doc =
     (case traverse constraint_doc_to_pb (sd_constraints doc) of
        Err e \<Rightarrow> Err e
      | Ok cs \<Rightarrow> Ok \<lparr>ps_key = sd_key doc, ps_name = sd_name doc, ps_constraints = cs\<rparr>)"

section \<open>From messages to documents\<close>

definition constraint_to_doc :: "PbConstraint \<Rightarrow> ConstraintDoc" where
  "constraint_to_doc c =
     \<lparr>cd_attribute = pc_attribute c, cd_operator = operator_name (pc_operator c),
      cd_values = map value_to_json (pc_values c)\<rparr>"

definition rule_to_doc :: "PbRule \<Rightarrow> RuleDoc" where
  "rule_to_doc r =
     (let flat = list_all (\<lambda>g. length (pg_constraints g) = 1) (pr_constraint_groups r)
      in \<lparr>rd_segment = (if pr_segment_key r \<noteq> [] then Some (pr_segment_key r) else None),
          rd_variant = (if pr_variant_key r \<noteq> [] then Some (pr_variant_key r) else None),
          rd_distributions =
            map (\<lambda>d. \<lparr>dd_variant = pd_variant_key d, dd_weight = pd_weight d\<rparr>) (pr_distributions r),
          rd_constraints =
            (if flat then map (\<lambda>g. constraint_to_doc (pg_constraints g ! 0)) (pr_constraint_groups r) else []),
          rd_constraint_groups =
            (if flat then [] else map (\<lambda>g. map constraint_to_doc (pg_constraints g)) (pr_constraint_groups r)),
          rd_bucket_salt = pr_bucket_salt r\<rparr>)"

definition flag_to_doc :: "PbFlag \<Rightarrow> FlagDoc" where
  "flag_to_doc f =
     \<lparr>fd_key = pf_key f, fd_value_type = value_type_name (pf_value_type f), fd_enabled = pf_enabled f,
      fd_default = pf_default_variant_key f,
      fd_variants =
        foldl (\<lambda>m v. btree_insert (pv_key v) (case pv_value v of Some x \<Rightarrow> value_to_json x | None \<Rightarrow> JNull) m)
          [] (pf_variants f),
      fd_rules = map rule_to_doc (pf_rules f)\<rparr>"

definition segment_to_doc :: "PbSegment \<Rightarrow> SegmentDoc" where
  "segment_to_doc s =
     \<lparr>sd_key = ps_key s, sd_name = ps_name s, sd_constraints = map constraint_to_doc (ps_constraints s)\<rparr>"

end
