(* ===== verification/CtlJson.thy ===== *)
theory CtlJson
  imports CtlDoc
begin

text \<open>
  The commands \<open>flag\<close>, \<open>variant\<close>, \<open>segment\<close> and \<open>rules\<close> of \<open>ffctl\<close> (\<open>src/bin/ffctl.rs\<close>): arguments
  that are parsed as JSON, calls of the Admin service, and results shown as JSON. The command-line
  parser, \<open>serde_json\<close>'s text format, the YAML printer and parser, the line diff, the text of a
  gRPC status and the answers of the file system are in \<open>tools\<close>.
\<close>

datatype ChangeTag = TagDelete | TagInsert | TagEqual

record tools =
  tl_from_str :: "string \<Rightarrow> json option"
  tl_json_text :: "json \<Rightarrow> string"
  tl_status :: "status \<Rightarrow> string"
  tl_flag_yaml :: "FlagDoc \<Rightarrow> string option"
  tl_segment_yaml :: "SegmentDoc \<Rightarrow> string option"
  tl_segments_yaml :: "SegmentsFile \<Rightarrow> string option"
  tl_flag_doc :: "string \<Rightarrow> (string, FlagDoc) result"
  tl_segments_doc :: "string \<Rightarrow> (string, SegmentsFile) result"
  tl_diff :: "string \<Rightarrow> string \<Rightarrow> (ChangeTag \<times> string) list"
  tl_writable :: "string \<Rightarrow> bool"
  tl_entry :: "string \<Rightarrow> string option"
  tl_io_error :: string
  tl_git_email :: "string option"

section \<open>Arguments\<close>

definition parse_json :: "tools \<Rightarrow> string \<Rightarrow> json" where
  "parse_json T s = (case tl_from_str T s of Some v \<Rightarrow> v | None \<Rightarrow> JString s)"

fun as_array :: "json \<Rightarrow> json list option" where
  "as_array (JArray a) = Some a"
| "as_array _ = None"

definition str_field :: "(string \<times> json) list \<Rightarrow> string \<Rightarrow> string anyhow" where
  "str_field obj field =
     ok_or_context (''missing string field `'' @ field @ ''`'') (Option.bind (map_of obj field) as_str)"

definition str_or_empty :: "(string \<times> json) list \<Rightarrow> string \<Rightarrow> string" where
  "str_or_empty obj field = (case Option.bind (map_of obj field) as_str of Some s \<Rightarrow> s | None \<Rightarrow> [])"

definition array_field :: "(string \<times> json) list \<Rightarrow> string \<Rightarrow> json list option" where
  "array_field obj field = Option.bind (map_of obj field) as_array"

definition parse_variant :: "tools \<Rightarrow> string \<Rightarrow> PbVariant anyhow" where
  "parse_variant T spec =
     (case split_once (CHR ''='') spec of
        None \<Rightarrow> Err [''variant must be key=value, got `'' @ spec @ ''`'']
      | Some (key, value) \<Rightarrow> Ok \<lparr>pv_key = key, pv_value = Some (value_of_json (parse_json T value))\<rparr>)"

definition parse_constraint :: "json \<Rightarrow> PbConstraint anyhow" where
  "parse_constraint j =
     (case as_object j of
        None \<Rightarrow> Err [''constraint must be a JSON object'']
      | Some obj \<Rightarrow>
          (case str_field obj ''operator'' of
             Err e \<Rightarrow> Err e
           | Ok op \<Rightarrow>
               (let op_name = ''CONSTRAINT_OPERATOR_'' @ to_uppercase op
                in case operator_from_str_name op_name of
                     None \<Rightarrow> Err [''unknown operator `'' @ op_name @ ''`'']
                   | Some p \<Rightarrow>
                       (case str_field obj ''attribute'' of
                          Err e \<Rightarrow> Err e
                        | Ok attribute \<Rightarrow>
                            Ok \<lparr>pc_attribute = attribute, pc_operator = operator_as_i32 p,
                                pc_values = (case array_field obj ''values'' of
                                               Some vs \<Rightarrow> map value_of_json vs | None \<Rightarrow> [])\<rparr>))))"

definition parse_segment :: "json \<Rightarrow> PbSegment anyhow" where
  "parse_segment j =
     (case as_object j of
        None \<Rightarrow> Err [''segment must be a JSON object'']
      | Some obj \<Rightarrow>
          (case (case array_field obj ''constraints'' of
                   Some cs \<Rightarrow> traverse parse_constraint cs | None \<Rightarrow> Ok []) of
             Err e \<Rightarrow> Err e
           | Ok cs \<Rightarrow>
               (case str_field obj ''key'' of
                  Err e \<Rightarrow> Err e
                | Ok key \<Rightarrow> Ok \<lparr>ps_key = key, ps_name = str_or_empty obj ''name'', ps_constraints = cs\<rparr>)))"

definition parse_group :: "json \<Rightarrow> PbConstraintGroup anyhow" where
  "parse_group g =
     (case as_array g of
        None \<Rightarrow> Err [''constraint group must be a JSON array'']
      | Some cs \<Rightarrow>
          (case traverse parse_constraint cs of Err e \<Rightarrow> Err e | Ok xs \<Rightarrow> Ok \<lparr>pg_constraints = xs\<rparr>))"

definition parse_single :: "json \<Rightarrow> PbConstraintGroup anyhow" where
  "parse_single c = (case parse_constraint c of Err e \<Rightarrow> Err e | Ok x \<Rightarrow> Ok \<lparr>pg_constraints = [x]\<rparr>)"

definition parse_constraint_groups :: "(string \<times> json) list \<Rightarrow> PbConstraintGroup list anyhow" where
  "parse_constraint_groups obj =
     (case array_field obj ''constraint_groups'' of
        Some groups \<Rightarrow> traverse parse_group groups
      | None \<Rightarrow>
          (case array_field obj ''constraints'' of
             Some cs \<Rightarrow> traverse parse_single cs
           | None \<Rightarrow> Ok []))"

text \<open>\<open>d.get("weight").and_then(Json::as_u64).unwrap_or(0) as u32\<close>\<close>

definition weight_field :: "(string \<times> json) list \<Rightarrow> u32" where
  "weight_field obj = (case map_of obj ''weight'' of Some (JNumber (PosInt n)) \<Rightarrow> ucast n | _ \<Rightarrow> 0)"

definition parse_distribution :: "json \<Rightarrow> PbDistribution anyhow" where
  "parse_distribution j =
     (case as_object j of
        None \<Rightarrow> Err [''distribution must be a JSON object'']
      | Some obj \<Rightarrow>
          (case str_field obj ''variant_key'' of
             Err e \<Rightarrow> Err e
           | Ok k \<Rightarrow> Ok \<lparr>pd_variant_key = k, pd_weight = weight_field obj\<rparr>))"

definition parse_rule :: "json \<Rightarrow> PbRule anyhow" where
  "parse_rule j =
     (case as_object j of
        None \<Rightarrow> Err [''rule must be a JSON object'']
      | Some obj \<Rightarrow>
          (case (case array_field obj ''distributions'' of
                   Some ds \<Rightarrow> traverse parse_distribution ds | None \<Rightarrow> Ok []) of
             Err e \<Rightarrow> Err e
           | Ok ds \<Rightarrow>
               (case parse_constraint_groups obj of
                  Err e \<Rightarrow> Err e
                | Ok gs \<Rightarrow>
                    Ok \<lparr>pr_rank = 0, pr_segment_key = str_or_empty obj ''segment_key'',
                        pr_variant_key = str_or_empty obj ''variant_key'', pr_distributions = ds,
                        pr_constraint_groups = gs, pr_bucket_salt = str_or_empty obj ''bucket_salt''\<rparr>)))"

section \<open>Results\<close>

text \<open>\<open>json!({...})\<close> is a \<open>BTreeMap\<close>: its entries in key order.\<close>

definition constraint_to_json :: "PbConstraint \<Rightarrow> json" where
  "constraint_to_json c =
     JObject [(''attribute'', JString (pc_attribute c)),
              (''operator'', JString (operator_as_str_name (operator_of_i32 (pc_operator c)))),
              (''values'', JArray (map value_to_json (pc_values c)))]"

definition rule_to_json :: "PbRule \<Rightarrow> json" where
  "rule_to_json r =
     JObject [(''bucket_salt'', JString (pr_bucket_salt r)),
              (''constraint_groups'',
                JArray (map (\<lambda>g. JArray (map constraint_to_json (pg_constraints g))) (pr_constraint_groups r))),
              (''distributions'',
                JArray (map (\<lambda>d. JObject [(''variant_key'', JString (pd_variant_key d)),
                                           (''weight'', JNumber (PosInt (ucast (pd_weight d))))])
                  (pr_distributions r))),
              (''rank'', JNumber (PosInt (ucast (pr_rank r)))),
              (''segment_key'', JString (pr_segment_key r)),
              (''variant_key'', JString (pr_variant_key r))]"

definition flag_to_json :: "PbFlag \<Rightarrow> json" where
  "flag_to_json f =
     JObject [(''archived'', JBool (pf_archived f)),
              (''default_variant_key'', JString (pf_default_variant_key f)),
              (''enabled'', JBool (pf_enabled f)),
              (''key'', JString (pf_key f)),
              (''rules'', JArray (map rule_to_json (pf_rules f))),
              (''value_type'', JString (value_type_as_str_name (value_type_of_i32 (pf_value_type f)))),
              (''variants'',
                JArray (map (\<lambda>v. JObject [(''key'', JString (pv_key v)),
                                           (''value'', case pv_value v of Some x \<Rightarrow> value_to_json x | None \<Rightarrow> JNull)])
                  (pf_variants f)))]"

definition segment_to_json :: "PbSegment \<Rightarrow> json" where
  "segment_to_json s =
     JObject [(''constraints'', JArray (map constraint_to_json (ps_constraints s))),
              (''key'', JString (ps_key s)), (''name'', JString (ps_name s))]"

section \<open>Commands\<close>

text \<open>What a command prints.\<close>

datatype Output = Shown json | ShownOk

definition call :: "tools \<Rightarrow> ('a \<Rightarrow> Output) \<Rightarrow> (status, 'a) result \<times> Backend \<Rightarrow> Output anyhow \<times> Backend" where
  "call T view r =
     (case fst r of Err e \<Rightarrow> (Err [tl_status T e], snd r) | Ok x \<Rightarrow> (Ok (view x), snd r))"

datatype CliFlagType = ClBool | ClString | ClInt | ClFloat | ClObject

fun cli_type_to_pb :: "CliFlagType \<Rightarrow> PbValueType" where
  "cli_type_to_pb ClBool = VtBoolean"
| "cli_type_to_pb ClString = VtString"
| "cli_type_to_pb ClInt = VtInteger"
| "cli_type_to_pb ClFloat = VtFloat"
| "cli_type_to_pb ClObject = VtObject"

datatype FlagAction =
    FaCreate string CliFlagType bool string "string list"
  | FaGet string
  | FaList bool
  | FaUpdate string bool string
  | FaArchive string bool
  | FaDelete string

text \<open>These commands send no \<open>actor\<close> metadata.\<close>

definition no_actor :: string where
  "no_actor = actor_of None"

fun run_flag :: "tools \<Rightarrow> Others \<Rightarrow> FlagAction \<Rightarrow> Backend \<Rightarrow> Output anyhow \<times> Backend" where
  "run_flag T E (FaCreate key t enabled dflt specs) b =
     (case traverse (parse_variant T) specs of
        Err e \<Rightarrow> (Err e, b)
      | Ok variants \<Rightarrow>
          call T (\<lambda>f. Shown (flag_to_json f))
            (create_flag_rpc E no_actor key (value_type_as_i32 (cli_type_to_pb t)) enabled dflt variants b))"
| "run_flag T E (FaGet key) b = call T (\<lambda>f. Shown (flag_to_json f)) (get_flag_rpc key b, b)"
| "run_flag T E (FaList archived) b = (Ok (Shown (JArray (map flag_to_json (list_flags_rpc archived b)))), b)"
| "run_flag T E (FaUpdate key enabled dflt) b =
     call T (\<lambda>f. Shown (flag_to_json f)) (update_flag_rpc E no_actor key enabled dflt b)"
| "run_flag T E (FaArchive key restore) b =
     call T (\<lambda>f. Shown (flag_to_json f)) (archive_flag_rpc E no_actor key (\<not> restore) b)"
| "run_flag T E (FaDelete key) b = call T (\<lambda>_. ShownOk) (delete_flag_rpc E no_actor key b)"

datatype VariantAction = VaSet string string string | VaDelete string string

fun run_variant :: "tools \<Rightarrow> Others \<Rightarrow> VariantAction \<Rightarrow> Backend \<Rightarrow> Output anyhow \<times> Backend" where
  "run_variant T E (VaSet flag_key variant_key value) b =
     call T (\<lambda>f. Shown (flag_to_json f))
       (upsert_variant_rpc E no_actor flag_key
          (Some \<lparr>pv_key = variant_key, pv_value = Some (value_of_json (parse_json T value))\<rparr>) b)"
| "run_variant T E (VaDelete flag_key variant_key) b =
     call T (\<lambda>f. Shown (flag_to_json f)) (delete_variant_rpc E no_actor flag_key variant_key b)"

datatype SegmentAction = SaSet string | SaGet string | SaList | SaDelete string

fun run_segment :: "tools \<Rightarrow> Others \<Rightarrow> SegmentAction \<Rightarrow> Backend \<Rightarrow> Output anyhow \<times> Backend" where
  "run_segment T E (SaSet j) b =
     (case parse_segment (parse_json T j) of
        Err e \<Rightarrow> (Err e, b)
      | Ok s \<Rightarrow> call T (\<lambda>s. Shown (segment_to_json s)) (upsert_segment_inner E no_actor (Some s) b))"
| "run_segment T E (SaGet key) b = call T (\<lambda>s. Shown (segment_to_json s)) (get_segment_rpc key b, b)"
| "run_segment T E SaList b = (Ok (Shown (JArray (map segment_to_json (list_segments_rpc b)))), b)"
| "run_segment T E (SaDelete key) b = call T (\<lambda>_. ShownOk) (delete_segment_rpc E no_actor key b)"

text \<open>\<open>ffctl rules set\<close>\<close>

definition run_rules_set :: "tools \<Rightarrow> Others \<Rightarrow> string \<Rightarrow> string \<Rightarrow> Backend \<Rightarrow> Output anyhow \<times> Backend" where
  "run_rules_set T E flag_key j b =
     (case as_array (parse_json T j) of
        None \<Rightarrow> (Err [''rules must be a JSON array''], b)
      | Some items \<Rightarrow>
          (case traverse parse_rule items of
             Err e \<Rightarrow> (Err e, b)
           | Ok rs \<Rightarrow> call T (\<lambda>f. Shown (flag_to_json f)) (set_flag_rules_rpc E no_actor flag_key rs b)))"

end
