(* ===== verification/CtlConfig.thy ===== *)
theory CtlConfig
  imports CtlJson
begin

text \<open>
  \<open>ffctl config\<close> (\<open>src/bin/ffctl.rs\<close>): loading and exporting a directory, the plan that is shown, and
  \<open>plan\<close>, \<open>apply\<close> and \<open>export\<close> against the Admin service. A directory is the entries of \<open>flags/\<close> and the
  file \<open>segments.yaml\<close>; a file is its text, \<open>None\<close> when it cannot be read. Which names the file
  system accepts, and which entry of \<open>flags/\<close> a name with a \<open>/\<close> leads to, is in \<^typ>\<open>tools\<close>.
\<close>

section \<open>The directory\<close>

record Dir =
  dr_path :: string
  dr_flags :: "(string \<times> string option) list option"
  dr_segments :: "string option option"

text \<open>\<open>Path::join\<close> with a relative name, and \<open>Path::extension\<close> of a file name.\<close>

definition path_join :: "string \<Rightarrow> string \<Rightarrow> string" where
  "path_join d n = (if d = [] then n else if last d = CHR ''/'' then d @ n else d @ ''/'' @ n)"

definition extension :: "string \<Rightarrow> string option" where
  "extension name =
     (if name = ''..'' then None
      else (case split_once (CHR ''.'') (rev name) of
              None \<Rightarrow> None
            | Some (after, before) \<Rightarrow> if before = [] then None else Some (rev after)))"

definition is_yaml :: "string \<Rightarrow> bool" where
  "is_yaml name \<longleftrightarrow> extension name = Some ''yaml'' \<or> extension name = Some ''yml''"

section \<open>Loading\<close>

definition read_file :: "tools \<Rightarrow> string option \<Rightarrow> string anyhow" where
  "read_file T content = ok_or_context (tl_io_error T) content"

definition load_flag :: "tools \<Rightarrow> string \<Rightarrow> string option \<Rightarrow> PbFlag anyhow" where
  "load_flag T path content =
     (case read_file T content of
        Err e \<Rightarrow> Err e
      | Ok t \<Rightarrow>
          (case tl_flag_doc T t of
             Err e \<Rightarrow> Err [''parsing '' @ path, e]
           | Ok doc \<Rightarrow> with_context (''in '' @ path) (flag_doc_to_pb doc)))"

definition load_segments :: "tools \<Rightarrow> string \<Rightarrow> string option \<Rightarrow> PbSegment list anyhow" where
  "load_segments T path content =
     (case read_file T content of
        Err e \<Rightarrow> Err e
      | Ok t \<Rightarrow>
          (case tl_segments_doc T t of
             Err e \<Rightarrow> Err [''parsing '' @ path, e]
           | Ok sf \<Rightarrow> traverse segment_doc_to_pb (sf_segments sf)))"

definition load_config :: "tools \<Rightarrow> Dir \<Rightarrow> (PbFlag list \<times> PbSegment list) anyhow" where
  "load_config T d =
     (let flags_dir = path_join (dr_path d) ''flags'';
          entries = (case dr_flags d of None \<Rightarrow> [] | Some es \<Rightarrow> filter (\<lambda>(n, _). is_yaml n) (sort_key fst es))
      in case traverse (\<lambda>(n, c). load_flag T (path_join flags_dir n) c) entries of
           Err e \<Rightarrow> Err e
         | Ok flags \<Rightarrow>
             (case dr_segments d of
                None \<Rightarrow> Ok (flags, [])
              | Some c \<Rightarrow>
                  (case load_segments T (path_join (dr_path d) ''segments.yaml'') c of
                     Err e \<Rightarrow> Err e
                   | Ok segments \<Rightarrow> Ok (flags, segments))))"

section \<open>Exporting\<close>

definition create_flags_dir :: "tools \<Rightarrow> Dir \<Rightarrow> unit anyhow \<times> Dir" where
  "create_flags_dir T d =
     (if tl_writable T ''flags''
      then (Ok (), d\<lparr>dr_flags := Some (case dr_flags d of None \<Rightarrow> [] | Some es \<Rightarrow> es)\<rparr>)
      else (Err [tl_io_error T], d))"

definition write_entry :: "tools \<Rightarrow> string \<Rightarrow> string \<Rightarrow> Dir \<Rightarrow> Dir" where
  "write_entry T name content d =
     (case (if CHR ''/'' \<in> set name then tl_entry T name else Some name) of
        None \<Rightarrow> d
      | Some n \<Rightarrow> d\<lparr>dr_flags := map_option (AList.update n (Some content)) (dr_flags d)\<rparr>)"

definition export_flag :: "tools \<Rightarrow> PbFlag \<Rightarrow> Dir \<Rightarrow> unit anyhow \<times> Dir" where
  "export_flag T f d =
     (case tl_flag_yaml T (flag_to_doc f) of
        None \<Rightarrow> (Err [''yaml''], d)
      | Some y \<Rightarrow>
          (let name = pf_key f @ ''.yaml''
           in if tl_writable T (''flags/'' @ name) then (Ok (), write_entry T name y d)
              else (Err [tl_io_error T], d)))"

fun export_flags :: "tools \<Rightarrow> PbFlag list \<Rightarrow> Dir \<Rightarrow> unit anyhow \<times> Dir" where
  "export_flags T [] d = (Ok (), d)"
| "export_flags T (f # fs) d =
     (case export_flag T f d of (Err e, d') \<Rightarrow> (Err e, d') | (Ok _, d') \<Rightarrow> export_flags T fs d')"

definition export_segments :: "tools \<Rightarrow> PbSegment list \<Rightarrow> Dir \<Rightarrow> unit anyhow \<times> Dir" where
  "export_segments T segments d =
     (case tl_segments_yaml T \<lparr>sf_segments = map segment_to_doc segments\<rparr> of
        None \<Rightarrow> (Err [''yaml''], d)
      | Some y \<Rightarrow>
          (if tl_writable T ''segments.yaml'' then (Ok (), d\<lparr>dr_segments := Some (Some y)\<rparr>)
           else (Err [tl_io_error T], d)))"

definition export_config :: "tools \<Rightarrow> PbFlag list \<Rightarrow> PbSegment list \<Rightarrow> Dir \<Rightarrow> unit anyhow \<times> Dir" where
  "export_config T flags segments d =
     (case create_flags_dir T d of
        (Err e, d1) \<Rightarrow> (Err e, d1)
      | (Ok _, d1) \<Rightarrow>
          (case export_flags T flags d1 of
             (Err e, d2) \<Rightarrow> (Err e, d2)
           | (Ok _, d2) \<Rightarrow> export_segments T segments d2))"

section \<open>The plan\<close>

record LiveState =
  lv_flags :: "PbFlag hmap"
  lv_segments :: "PbSegment hmap"

definition fetch_live :: "Backend \<Rightarrow> LiveState" where
  "fetch_live b =
     \<lparr>lv_flags = foldl (\<lambda>m f. hinsert (pf_key f) f m) [] (list_flags_rpc True b),
      lv_segments = foldl (\<lambda>m s. hinsert (ps_key s) s m) [] (list_segments_rpc b)\<rparr>"

definition yaml_of_flag :: "tools \<Rightarrow> PbFlag \<Rightarrow> string" where
  "yaml_of_flag T f = (case tl_flag_yaml T (flag_to_doc f) of Some y \<Rightarrow> y | None \<Rightarrow> [])"

definition yaml_of_segment :: "tools \<Rightarrow> PbSegment \<Rightarrow> string" where
  "yaml_of_segment T s = (case tl_segment_yaml T (segment_to_doc s) of Some y \<Rightarrow> y | None \<Rightarrow> [])"

definition strip_newline :: "string \<Rightarrow> string" where
  "strip_newline l = (if ends_with l [CHR 0x0A] then take (length l - 1) l else l)"

definition print_yaml_diff :: "tools \<Rightarrow> string \<Rightarrow> string \<Rightarrow> string list" where
  "print_yaml_diff T before after =
     map (\<lambda>(tag, line).
            (case tag of TagDelete \<Rightarrow> ''  - '' | TagInsert \<Rightarrow> ''  + '' | TagEqual \<Rightarrow> ''    '') @ strip_newline line)
       (tl_diff T before after)"

definition change_op_of :: "int \<Rightarrow> PbChangeOp" where
  "change_op_of i = (case nth_variant pb_change_ops i of Some p \<Rightarrow> p | None \<Rightarrow> OpUnspecified)"

fun change_symbol :: "PbChangeOp \<Rightarrow> string" where
  "change_symbol OpCreate = ''+''"
| "change_symbol OpUpdate = ''~''"
| "change_symbol OpDelete = ''-''"
| "change_symbol OpUnspecified = ''?''"

text \<open>The two texts a change is shown between; later entries of a map win.\<close>

definition text_or_empty :: "('v \<Rightarrow> string) \<Rightarrow> 'v option \<Rightarrow> string" where
  "text_or_empty yaml x = (case x of None \<Rightarrow> [] | Some v \<Rightarrow> yaml v)"

definition sides :: "tools \<Rightarrow> PbFlag list \<Rightarrow> PbSegment list \<Rightarrow> LiveState \<Rightarrow> PbConfigChange \<Rightarrow> string \<times> string" where
  "sides T desired_flags desired_segments live c =
     (let key = pcc_target_key c
      in if pcc_target_kind c = ''flag''
         then (text_or_empty (yaml_of_flag T) (hget (lv_flags live) key),
               text_or_empty (yaml_of_flag T) (map_of (rev (map (\<lambda>f. (pf_key f, f)) desired_flags)) key))
         else (text_or_empty (yaml_of_segment T) (hget (lv_segments live) key),
               text_or_empty (yaml_of_segment T) (map_of (rev (map (\<lambda>s. (ps_key s, s)) desired_segments)) key)))"

definition change_lines :: "tools \<Rightarrow> PbFlag list \<Rightarrow> PbSegment list \<Rightarrow> LiveState \<Rightarrow> PbConfigChange \<Rightarrow> string list" where
  "change_lines T desired_flags desired_segments live c =
     (let (before, after) = sides T desired_flags desired_segments live c
      in (change_symbol (change_op_of (pcc_op c)) @ '' '' @ pcc_target_kind c @ '' '' @ pcc_target_key c)
         # print_yaml_diff T before after)"

definition count_ops :: "PbChangeOp set \<Rightarrow> PbConfigChange list \<Rightarrow> nat" where
  "count_ops ops changes = length (filter (\<lambda>c. change_op_of (pcc_op c) \<in> ops) changes)"

definition render_plan ::
  "tools \<Rightarrow> PbConfigChange list \<Rightarrow> PbFlag list \<Rightarrow> PbSegment list \<Rightarrow> LiveState \<Rightarrow> string list" where
  "render_plan T changes desired_flags desired_segments live =
     (if changes = [] then [''No changes. Live state already matches the config.'']
      else concat (map (change_lines T desired_flags desired_segments live) changes)
        @ [''Plan: '' @ show_nat (count_ops {OpCreate} changes) @ '' to create, ''
           @ show_nat (count_ops {OpUpdate, OpUnspecified} changes) @ '' to update, ''
           @ show_nat (count_ops {OpDelete} changes) @ '' to delete.''])"

section \<open>Plan, apply and export\<close>

text \<open>The identity recorded in the audit log, and the metadata value it becomes.\<close>

definition resolve_actor :: "tools \<Rightarrow> string option \<Rightarrow> string" where
  "resolve_actor T actor =
     (case actor of
        Some (c # cs) \<Rightarrow> c # cs
      | _ \<Rightarrow>
          (case map_option trim (tl_git_email T) of
             Some (c # cs) \<Rightarrow> c # cs
           | _ \<Rightarrow> ''ffctl''))"

definition metadata_ok :: "string \<Rightarrow> bool" where
  "metadata_ok s = list_all (\<lambda>c. 32 \<le> byte c \<and> byte c \<noteq> 127 \<or> byte c = 9) s"

definition request_actor :: "string \<Rightarrow> string" where
  "request_actor actor = actor_of (if metadata_ok actor then Some actor else None)"

definition confirmed :: "string \<Rightarrow> bool" where
  "confirmed line \<longleftrightarrow> trim line \<in> {''y'', ''Y'', ''yes'', ''Yes''}"

definition config_plan :: "tools \<Rightarrow> Others \<Rightarrow> Dir \<Rightarrow> Backend \<Rightarrow> string list anyhow \<times> Backend" where
  "config_plan T E d b =
     (case load_config T d of
        Err e \<Rightarrow> (Err e, b)
      | Ok (flags, segments) \<Rightarrow>
          (case apply_config_rpc (tl_json_text T) E no_actor flags segments True 0 b of
             (Err e, b1) \<Rightarrow> (Err [tl_status T e], b1)
           | (Ok plan, b1) \<Rightarrow> (Ok (render_plan T (acr_changes plan) flags segments (fetch_live b1)), b1)))"

datatype Applied = NothingToApply | NotConfirmed | AppliedNow ApplyConfigResponse

text \<open>
  \<open>between\<close>: what others do before the live state is fetched, and while the plan waits for its
  confirmation. \<open>answer\<close> is the line typed at the prompt, \<open>None\<close> with \<open>--auto-approve\<close>.
\<close>

definition config_apply ::
  "tools \<Rightarrow> Others \<Rightarrow> Others \<Rightarrow> (Backend \<Rightarrow> Backend) \<Rightarrow> (Backend \<Rightarrow> Backend) \<Rightarrow> Dir \<Rightarrow> string option \<Rightarrow> string option
     \<Rightarrow> Backend \<Rightarrow> (string list \<times> PbConfigChange list \<times> Applied) anyhow \<times> Backend" where
  "config_apply T E E' before_fetch before_write d actor answer b =
     (let who = request_actor (resolve_actor T actor)
      in case load_config T d of
           Err e \<Rightarrow> (Err e, b)
         | Ok (flags, segments) \<Rightarrow>
             (case apply_config_rpc (tl_json_text T) E who flags segments True 0 b of
                (Err e, b1) \<Rightarrow> (Err [tl_status T e], b1)
              | (Ok plan, b1) \<Rightarrow>
                  (let b2 = before_fetch b1;
                       shown = render_plan T (acr_changes plan) flags segments (fetch_live b2)
                   in if acr_changes plan = [] then (Ok (shown, [], NothingToApply), b2)
                      else if (case answer of None \<Rightarrow> False | Some l \<Rightarrow> \<not> confirmed l)
                      then (Ok (shown, acr_changes plan, NotConfirmed), b2)
                      else (case apply_config_rpc (tl_json_text T) E' who flags segments False
                                   (acr_from_version plan) (before_write b2) of
                              (Err e, b3) \<Rightarrow>
                                (Err [''apply failed (config may have drifted; re-run plan)'', tl_status T e], b3)
                            | (Ok r, b3) \<Rightarrow> (Ok (shown, acr_changes plan, AppliedNow r), b3)))))"

definition config_export :: "tools \<Rightarrow> Dir \<Rightarrow> Backend \<Rightarrow> unit anyhow \<times> Dir" where
  "config_export T d b = export_config T (list_flags_rpc False b) (list_segments_rpc b) d"

end
