(* ===== verification/AdminProperties.thy ===== *)
theory AdminProperties
  imports FlagAdmin
begin

text \<open>
  The properties of the Admin service: what the snapshot of a replica may show while writers and
  reloads run beside a handler, and what a write answers.
\<close>

section \<open>What a replica serves\<close>

text \<open>The served snapshot is older than the tables or is exactly what they hold.\<close>

definition serves :: "Snapshot \<Rightarrow> Db \<Rightarrow> bool" where
  "serves sn db \<longleftrightarrow> sn_version sn < db_version db \<or> load_snapshot db = Ok sn"

definition backend_inv :: "Backend \<Rightarrow> bool" where
  "backend_inv b \<longleftrightarrow> db_inv (be_db b) \<and> serves (current (be_mgr b)) (be_db b)"

text \<open>
  What runs beside a handler: writers, on this or another replica, and reloads, which install
  what they loaded from the tables as they were at some earlier time.
\<close>

inductive backend_step :: "bool \<Rightarrow> Backend \<Rightarrow> Backend \<Rightarrow> bool" for has_cache where
  written: "store_step (be_db b) db' \<Longrightarrow> backend_step has_cache b (b\<lparr>be_db := db'\<rparr>)"
| other_reload: "store_step\<^sup>*\<^sup>* old (be_db b) \<Longrightarrow> db_inv old \<Longrightarrow>
    backend_step has_cache b (b\<lparr>be_mgr := snd (reload has_cache (load_snapshot old) (be_mgr b))\<rparr>)"

inductive_cases backend_stepE: "backend_step has_cache b b'"

lemma loaded_version: "db_inv db \<Longrightarrow> load_snapshot db = Ok sn \<Longrightarrow> sn_version sn = db_version db"
  using hget_loaded(3) by (simp add: db_inv_def)

lemma loads: "db_inv db \<Longrightarrow> \<exists>sn. load_snapshot db = Ok sn"
  using load_snapshot_view by (auto simp: db_inv_def)

lemma store_step_db_inv: "store_step db db' \<Longrightarrow> db_inv db \<Longrightarrow> db_inv db'"
proof (erule store_stepE)
  fix actor c assume "perform actor c db = Ok ((), db')" "db_inv db"
  then show ?thesis by (rule perform_inv [rotated])
next
  fix actor flags segs dry ev old out
  assume "apply_config actor flags segs dry ev old db = Ok (out, db')" and inv: "db_inv db"
  from apply_config_Ok [OF this(1)] show ?thesis
  proof (elim exE conjE disjE)
    fix cur db1
    assume tx: "each_tx (upsert_change flags segs) (ao_changes out) db = Ok ((), db1)"
      and db': "db' = foldl (audit_change actor) (foldl prune_segment (foldl prune_flag db1 (ao_changes out))
         (ao_changes out)) (ao_changes out)"
    have "db_inv db1" by (rule each_tx_inv [where P = db_inv, OF _ inv tx]) (rule upsert_change_inv)
    then show ?thesis using audit_pass prune_inv db' by simp
  qed (simp_all add: inv)
qed

lemma history_db_inv: "store_step\<^sup>*\<^sup>* db db' \<Longrightarrow> db_inv db \<Longrightarrow> db_inv db'"
  by (induction rule: rtranclp_induct) (auto dest: store_step_db_inv)

lemma serves_later:
  assumes "store_step\<^sup>*\<^sup>* db db'" "db_inv db" "serves sn db"
  shows "serves sn db'"
  using history_moves [OF assms(1)] assms(2,3) loaded_version by (auto simp: serves_def)

lemma reload_current:
  "current (snd (reload hc (Ok sn) m)) = (if sn_version sn \<le> sn_version (current m) then current m else sn)"
  by (simp add: reload_def Let_def)

lemma backend_step_inv:
  assumes "backend_step hc b b'" "backend_inv b"
  shows "backend_inv b' \<and> store_step\<^sup>*\<^sup>* (be_db b) (be_db b')
    \<and> mgr_version (be_mgr b) \<le> mgr_version (be_mgr b')"
  using assms(1)
proof cases
  case (written db')
  then have "store_step\<^sup>*\<^sup>* (be_db b) db'" by blast
  then show ?thesis
    using written assms(2) serves_later history_db_inv by (auto simp: backend_inv_def mgr_version_def)
next
  case (other_reload old)
  obtain sn where sn: "load_snapshot old = Ok sn" using loads other_reload(3) by blast
  then have "serves sn old" by (simp add: serves_def)
  then have "serves sn (be_db b)" using serves_later other_reload by blast
  then show ?thesis
    using other_reload(1) assms(2) sn by (simp add: backend_inv_def reload_current mgr_version_def)
qed

lemma backend_steps_inv:
  assumes "(backend_step hc)\<^sup>*\<^sup>* b b'" "backend_inv b"
  shows "backend_inv b' \<and> store_step\<^sup>*\<^sup>* (be_db b) (be_db b')
    \<and> mgr_version (be_mgr b) \<le> mgr_version (be_mgr b')"
  using assms
proof (induction rule: rtranclp_induct)
  case (step b1 b2)
  then show ?case
    using backend_step_inv [of hc b1 b2] rtranclp_trans [of store_step "be_db b" "be_db b1" "be_db b2"] by auto
qed simp

section \<open>The refresh\<close>

definition others_ok :: "Others \<Rightarrow> bool" where
  "others_ok E \<longleftrightarrow> (\<forall>b. (backend_step (ot_has_cache E))\<^sup>*\<^sup>* b (ot_load E b)
     \<and> (backend_step (ot_has_cache E))\<^sup>*\<^sup>* b (ot_read E b)) \<and> (\<forall>db. store_step\<^sup>*\<^sup>* db (ot_plan E db))"

lemma others_ok_alone [simp]: "others_ok (alone hc)"
  by (simp add: others_ok_def alone_def)

lemma refresh_installs:
  assumes "backend_inv b"
  shows "load_snapshot (be_db b) = Ok (current (snd (reload hc (load_snapshot (be_db b)) (be_mgr b))))"
proof -
  obtain sn where sn: "load_snapshot (be_db b) = Ok sn" using loads assms by (auto simp: backend_inv_def)
  then show ?thesis
    using assms loaded_version [of "be_db b" sn] by (auto simp: reload_current backend_inv_def serves_def)
qed

lemma refresh_version:
  assumes "backend_inv b" "others_ok E" "ot_fault E = None"
  shows "backend_inv (refresh E b) \<and> db_version (be_db b) \<le> mgr_version (be_mgr (refresh E b))
    \<and> store_step\<^sup>*\<^sup>* (be_db b) (be_db (refresh E b))"
proof -
  let ?b1 = "ot_load E b"
  let ?b2 = "?b1\<lparr>be_mgr := snd (reload (ot_has_cache E) (load_snapshot (be_db ?b1)) (be_mgr ?b1))\<rparr>"
  have b1: "backend_inv ?b1" "store_step\<^sup>*\<^sup>* (be_db b) (be_db ?b1)"
    using backend_steps_inv [of "ot_has_cache E" b ?b1] assms by (auto simp: others_ok_def)
  have "backend_step (ot_has_cache E) ?b1 ?b2"
    using b1(1) by (intro backend_step.other_reload) (simp_all add: backend_inv_def)
  then have b2: "backend_inv ?b2" using backend_step_inv b1(1) by blast
  have loaded: "load_snapshot (be_db ?b1) = Ok (current (be_mgr ?b2))"
    using refresh_installs [OF b1(1), of "ot_has_cache E"] by simp
  then have "mgr_version (be_mgr ?b2) = db_version (be_db ?b1)"
    using loaded_version b1(1) by (simp add: mgr_version_def backend_inv_def)
  moreover have "db_version (be_db b) \<le> db_version (be_db ?b1)" using history_moves [OF b1(2)] by auto
  moreover have "refresh E b = ot_read E ?b2" using assms(3) by (simp add: refresh_def Let_def)
  moreover have "backend_inv (ot_read E ?b2) \<and> store_step\<^sup>*\<^sup>* (be_db ?b2) (be_db (ot_read E ?b2))
      \<and> mgr_version (be_mgr ?b2) \<le> mgr_version (be_mgr (ot_read E ?b2))"
    using backend_steps_inv [OF _ b2, of "ot_has_cache E" "ot_read E ?b2"] assms(2) by (simp add: others_ok_def)
  ultimately show ?thesis using b1(2) by (auto intro: rtranclp_trans)
qed

lemma refresh_alone:
  assumes "backend_inv b"
  shows "be_db (refresh (alone hc) b) = be_db b"
    "load_snapshot (be_db b) = Ok (current (be_mgr (refresh (alone hc) b)))"
  using refresh_installs [OF assms, of hc] by (simp_all add: refresh_def alone_def Let_def)

section \<open>Writes\<close>

text \<open>The write requests and their answers, each served by its handler.\<close>

datatype WriteRequest =
    CreateFlagRequest string int bool string "PbVariant list"
  | UpdateFlagRequest string bool string
  | ArchiveFlagRequest string bool
  | DeleteFlagRequest string
  | UpsertVariantRequest string "PbVariant option"
  | DeleteVariantRequest string string
  | CreateSegmentRequest "PbSegment option"
  | UpdateSegmentRequest "PbSegment option"
  | DeleteSegmentRequest string
  | SetFlagRulesRequest string "PbRule list"

datatype Answer = FlagAnswer PbFlag | SegmentAnswer PbSegment | EmptyAnswer

definition answered :: "('a \<Rightarrow> Answer) \<Rightarrow> (status, 'a) result \<times> Backend \<Rightarrow> (status, Answer) result \<times> Backend" where
  "answered f x = (map_sum id f (fst x), snd x)"

fun serve_write :: "Others \<Rightarrow> string \<Rightarrow> WriteRequest \<Rightarrow> Backend \<Rightarrow> (status, Answer) result \<times> Backend" where
  "serve_write E actor (CreateFlagRequest k t en dv vs) b =
     answered FlagAnswer (create_flag_rpc E actor k t en dv vs b)"
| "serve_write E actor (UpdateFlagRequest k en dv) b = answered FlagAnswer (update_flag_rpc E actor k en dv b)"
| "serve_write E actor (ArchiveFlagRequest k a) b = answered FlagAnswer (archive_flag_rpc E actor k a b)"
| "serve_write E actor (DeleteFlagRequest k) b = answered (\<lambda>_. EmptyAnswer) (delete_flag_rpc E actor k b)"
| "serve_write E actor (UpsertVariantRequest k v) b = answered FlagAnswer (upsert_variant_rpc E actor k v b)"
| "serve_write E actor (DeleteVariantRequest k v) b = answered FlagAnswer (delete_variant_rpc E actor k v b)"
| "serve_write E actor (CreateSegmentRequest s) b = answered SegmentAnswer (upsert_segment_inner E actor s b)"
| "serve_write E actor (UpdateSegmentRequest s) b = answered SegmentAnswer (upsert_segment_inner E actor s b)"
| "serve_write E actor (DeleteSegmentRequest k) b = answered (\<lambda>_. EmptyAnswer) (delete_segment_rpc E actor k b)"
| "serve_write E actor (SetFlagRulesRequest k rs) b = answered FlagAnswer (set_flag_rules_rpc E actor k rs b)"

text \<open>The call of the store a request stands for; \<open>None\<close> when it cannot be decoded.\<close>

fun decoded :: "WriteRequest \<Rightarrow> StoreCall option" where
  "decoded (CreateFlagRequest k t en dv vs) =
     (case value_type_try_from (value_type_of_i32 t) of
        Err _ \<Rightarrow> None | Ok vt \<Rightarrow> Some (CreateFlag k vt en dv (map variant_from_pb vs)))"
| "decoded (UpdateFlagRequest k en dv) = Some (UpdateFlag k en dv)"
| "decoded (ArchiveFlagRequest k a) = Some (ArchiveFlag k a)"
| "decoded (DeleteFlagRequest k) = Some (DeleteFlag k)"
| "decoded (UpsertVariantRequest k v) = map_option (\<lambda>v. UpsertVariant k (variant_from_pb v)) v"
| "decoded (DeleteVariantRequest k v) = Some (DeleteVariant k v)"
| "decoded (CreateSegmentRequest s) =
     (case map_option segment_try_from s of Some (Ok d) \<Rightarrow> Some (UpsertSegment d) | _ \<Rightarrow> None)"
| "decoded (UpdateSegmentRequest s) =
     (case map_option segment_try_from s of Some (Ok d) \<Rightarrow> Some (UpsertSegment d) | _ \<Rightarrow> None)"
| "decoded (DeleteSegmentRequest k) = Some (DeleteSegment k)"
| "decoded (SetFlagRulesRequest k rs) =
     (case traverse rule_try_from rs of Err _ \<Rightarrow> None | Ok d \<Rightarrow> Some (SetFlagRules k d))"

text \<open>What each call answers from the manager.\<close>

fun answer_of :: "StoreCall \<Rightarrow> Backend \<Rightarrow> (status, Answer) result" where
  "answer_of (CreateFlag k _ _ _ _) = (\<lambda>b. map_sum id FlagAnswer (read_flag k b))"
| "answer_of (UpdateFlag k _ _) = (\<lambda>b. map_sum id FlagAnswer (read_flag k b))"
| "answer_of (ArchiveFlag k _) = (\<lambda>b. map_sum id FlagAnswer (read_flag k b))"
| "answer_of (DeleteFlag _) = (\<lambda>b. Ok EmptyAnswer)"
| "answer_of (UpsertVariant k _) = (\<lambda>b. map_sum id FlagAnswer (read_flag k b))"
| "answer_of (DeleteVariant k _) = (\<lambda>b. map_sum id FlagAnswer (read_flag k b))"
| "answer_of (UpsertSegment s) = (\<lambda>b. map_sum id SegmentAnswer (read_segment (s_key s) b))"
| "answer_of (DeleteSegment _) = (\<lambda>b. Ok EmptyAnswer)"
| "answer_of (SetFlagRules k _) = (\<lambda>b. map_sum id FlagAnswer (read_flag k b))"

lemma answered_written:
  "answered f (written E w ans b) = written E w (\<lambda>b. map_sum id f (ans b)) b"
  by (simp add: answered_def written_def Let_def split: sum.split prod.split)

lemma serve_write_undecoded:
  "decoded req = None \<Longrightarrow> \<exists>m. serve_write E actor req b = (Err (invalid_argument m), b)"
  by (cases req) (auto simp: create_flag_rpc_def upsert_variant_rpc_def upsert_segment_inner_def
      set_flag_rules_rpc_def answered_def split: sum.splits option.splits)

lemma serve_write_decoded:
  "decoded req = Some c \<Longrightarrow> serve_write E actor req b = written E (perform actor c) (answer_of c) b"
  by (cases req) (auto simp: create_flag_rpc_def upsert_variant_rpc_def upsert_segment_inner_def
      set_flag_rules_rpc_def update_flag_rpc_def archive_flag_rpc_def delete_flag_rpc_def
      delete_variant_rpc_def delete_segment_rpc_def answered_written split: sum.splits option.splits)

text \<open>A write that runs alone serves what it wrote.\<close>

lemma written_alone:
  assumes "backend_inv b" "store_step (be_db b) db" "write (be_db b) = Ok ((), db)"
  shows "\<exists>b'. written (alone hc) write answer b = (answer b', b') \<and> be_db b' = db \<and> backend_inv b'
    \<and> load_snapshot db = Ok (current (be_mgr b'))"
proof -
  let ?b1 = "b\<lparr>be_db := db\<rparr>"
  have "store_step\<^sup>*\<^sup>* (be_db b) db" using assms(2) by blast
  then have inv: "backend_inv ?b1"
    using assms(1) serves_later history_db_inv by (auto simp: backend_inv_def)
  have "backend_inv (refresh (alone hc) ?b1)"
    using refresh_version [OF inv others_ok_alone] by (simp add: alone_def)
  then show ?thesis
    using assms(3) refresh_alone [OF inv, of hc] by (simp add: written_def Let_def)
qed

text \<open>What the specification makes of a call is what the answer shows.\<close>

fun reports :: "StoreCall \<Rightarrow> config \<Rightarrow> Answer \<Rightarrow> bool" where
  "reports (CreateFlag k _ _ _ _) (fl, sg) a = (\<exists>f. fl k = Some f \<and> a = FlagAnswer (flag_to_pb f))"
| "reports (UpdateFlag k _ _) (fl, sg) a = (\<exists>f. fl k = Some f \<and> a = FlagAnswer (flag_to_pb f))"
| "reports (ArchiveFlag k _) (fl, sg) a = (\<exists>f. fl k = Some f \<and> a = FlagAnswer (flag_to_pb f))"
| "reports (DeleteFlag k) (fl, sg) a = (fl k = None \<and> a = EmptyAnswer)"
| "reports (UpsertVariant k _) (fl, sg) a = (\<exists>f. fl k = Some f \<and> a = FlagAnswer (flag_to_pb f))"
| "reports (DeleteVariant k _) (fl, sg) a = (\<exists>f. fl k = Some f \<and> a = FlagAnswer (flag_to_pb f))"
| "reports (UpsertSegment s) (fl, sg) a = (sg (s_key s) = Some s \<and> a = SegmentAnswer (segment_to_pb s))"
| "reports (DeleteSegment k) (fl, sg) a = (sg k = None \<and> a = EmptyAnswer)"
| "reports (SetFlagRules k _) (fl, sg) a = (\<exists>f. fl k = Some f \<and> a = FlagAnswer (flag_to_pb f))"

lemma answer_reports:
  assumes "spec_call c cfg = Some (fl, sg)"
    and "\<And>k. hget (sn_flags (current (be_mgr b))) k = fl k"
    and "\<And>k. hget (sn_segments (current (be_mgr b))) k = sg k"
  shows "\<exists>a. answer_of c b = Ok a \<and> reports c (fl, sg) a"
  using assms
  by (cases c; cases cfg)
    (auto simp: read_flag_def read_segment_def mgr_get_flag_def mgr_get_segment_def
      split: option.splits if_splits)

section \<open>A first flag\<close>

definition demo_request :: WriteRequest where
  "demo_request = CreateFlagRequest ''beta'' (value_type_as_i32 VtBoolean) True ''on''
     (map variant_to_pb [\<lparr>v_key = ''on'', v_value = JBool True\<rparr>, \<lparr>v_key = ''off'', v_value = JBool False\<rparr>])"

definition demo_backend :: Backend where
  "demo_backend = \<lparr>be_db = migrated,
     be_mgr = bootstrap (Ok 1) False None (load_snapshot migrated)\<rparr>"

lemma demo_decoded: "decoded demo_request = Some ex_create"
  by code_simp

lemma demo_inv: "backend_inv demo_backend"
proof -
  have "load_snapshot migrated = Ok (current (be_mgr demo_backend))" by code_simp
  then show ?thesis by (simp add: backend_inv_def serves_def) (simp add: demo_backend_def)
qed

lemma demo_step: "perform ''alice'' ex_create (be_db demo_backend) = Ok ((), ex_db)"
  by (simp add: demo_backend_def ex_db_step)

text \<open>
  When the load of the refresh fails, the error is only logged: the flag is created, and the caller
  is told that it does not exist.
\<close>

lemma failed_refresh_hides_write:
  "\<exists>m b'. serve_write ((alone False)\<lparr>ot_fault := Some (Sqlx ''timeout'')\<rparr>) ''alice'' demo_request demo_backend
      = (Err (CodeNotFound, m), b') \<and> flag_at (be_db b') ''beta'' \<noteq> None"
proof -
  let ?E = "(alone False)\<lparr>ot_fault := Some (Sqlx ''timeout'')\<rparr>"
  have "hget (sn_flags (current (be_mgr demo_backend))) ''beta'' = None" by code_simp
  moreover have "flag_at ex_db ''beta'' \<noteq> None" by code_simp
  moreover have "serve_write ?E ''alice'' demo_request demo_backend
      = (answer_of ex_create (demo_backend\<lparr>be_db := ex_db\<rparr>), demo_backend\<lparr>be_db := ex_db\<rparr>)"
    by (simp add: serve_write_decoded [OF demo_decoded] written_def demo_step refresh_def alone_def reload_def Let_def)
  ultimately show ?thesis by (simp add: ex_create_def read_flag_def mgr_get_flag_def)
qed

section \<open>The properties\<close>



text \<open>
  C9: With other writers and reloads running between any two steps of a handler, a write that
  commits leaves its replica serving a version at least as new as the one it wrote, and what is
  served is never anything but a state of the tables, or older than them.
\<close>

theorem admin_reads_its_writes:
  assumes "backend_inv b" "others_ok E" "ot_fault E = None" "decoded req = Some c"
    and "perform actor c (be_db b) = Ok ((), db)"
  shows "db_version db \<le> mgr_version (be_mgr (snd (serve_write E actor req b)))
    \<and> backend_inv (snd (serve_write E actor req b))"
proof -
  have "store_step\<^sup>*\<^sup>* (be_db b) db" using store_step.call [OF assms(5)] by blast
  then have "backend_inv (b\<lparr>be_db := db\<rparr>)"
    using assms(1) serves_later history_db_inv by (auto simp: backend_inv_def)
  from refresh_version [OF this assms(2,3)] show ?thesis
    by (simp add: serve_write_decoded [OF assms(4)] written_def assms(5) Let_def)
qed

theorem admin_reads_its_writes_witness:
  "db_version ex_db \<le> mgr_version (be_mgr (snd (serve_write (alone True) ''alice'' demo_request demo_backend)))"
  using admin_reads_its_writes [OF demo_inv _ _ demo_decoded demo_step, of "alone True"]
  by (simp add: alone_def others_ok_def)

text \<open>
  Applying a valid configuration through the service leaves tables that differ from it in
  nothing, and if anything had to change, the replica serves them when the call returns.
\<close>

theorem applied_config_is_served:
  assumes "backend_inv b" "traverse flag_try_from pfs = Ok flags" "traverse segment_try_from pss = Ok segs"
    and "validate_desired flags segs = Ok ()" "distinct (map f_key flags)" "distinct (map s_key segs)"
    and "\<forall>f\<in>set flags. flag_fits f \<and> (\<forall>r\<in>set (f_rules f). total_weight (r_distributions r) < 2 ^ 32)"
    and "ev = 0 \<or> ev = db_version (be_db b)"
  shows "\<exists>resp b' s. apply_config_rpc json_text (alone hc) actor pfs pss False ev b = (Ok resp, b')
    \<and> acr_applied resp \<and> load_snapshot (be_db b') = Ok s \<and> diff_config s flags segs = []
    \<and> (if acr_changes resp = [] then be_mgr b' = be_mgr b else current (be_mgr b') = s)"
proof -
  have inv: "db_inv (be_db b)" using assms(1) by (simp add: backend_inv_def)
  have "weights_ok r" if "f \<in> set flags" "r \<in> set (f_rules f)" for f r
    using rule_valid_weights [of "v_key ` set (f_variants f)" r] assms(4,7) that
    by (simp add: validate_desired_Ok validate_flag_Ok)
  then have "\<forall>f\<in>set flags. flag_storable f" using assms(7) by (simp add: flag_storable_def)
  from apply_config_settles [OF inv assms(4-6) this assms(8)] obtain out db' s where
    fin: "apply_config actor flags segs False ev (be_db b) (be_db b) = Ok (out, db')" "ao_applied out"
      "db_inv db'" "load_snapshot db' = Ok s" "diff_config s flags segs = []" by blast
  have "store_step\<^sup>*\<^sup>* (be_db b) db'" using store_step.apply_plan [OF fin(1)] by blast
  then have "backend_inv (b\<lparr>be_db := db'\<rparr>)"
    using assms(1) serves_later history_db_inv by (auto simp: backend_inv_def)
  from refresh_alone [OF this, of hc] have fresh: "be_db (refresh (alone hc) (b\<lparr>be_db := db'\<rparr>)) = db'"
    "current (be_mgr (refresh (alone hc) (b\<lparr>be_db := db'\<rparr>))) = s"
    using fin(4) by simp_all
  have plan: "ot_plan (alone hc) = id" by (simp add: alone_def)
  show ?thesis
    using fin by (simp add: apply_config_rpc_def assms(2,3) plan fresh)
qed

theorem applied_config_is_served_witness:
  "\<exists>resp b' s. apply_config_rpc (\<lambda>_. []) (alone False) ''alice'' [flag_to_pb ex_beta] [] False 0 demo_backend = (Ok resp, b')
    \<and> acr_applied resp \<and> load_snapshot (be_db b') = Ok s \<and> diff_config s [ex_beta] [] = []"
proof -
  have dec: "traverse flag_try_from [flag_to_pb ex_beta] = Ok [ex_beta]" by code_simp
  have valid: "validate_desired [ex_beta] [] = Ok ()" by code_simp
  have "\<forall>f\<in>set [ex_beta]. flag_fits f \<and> (\<forall>r\<in>set (f_rules f). total_weight (r_distributions r) < 2 ^ 32)"
    by (simp add: ex_flag_defs ex_rule_defs flag_fits_def rules_fit_def)
  then show ?thesis
    using applied_config_is_served [OF demo_inv dec _ valid, of "[]" 0 "\<lambda>_. []" False "''alice''"] by auto
qed

end
