(* ===== verification/CtlProperties.thy ===== *)
theory CtlProperties
  imports CtlConfig AdminProperties
begin

text \<open>
  The properties of \<open>ffctl config\<close>: an export is loaded back as what it was made of, planning it shows
  nothing but the deletion of archived flags, and \<open>apply\<close> performs the changes it showed.
\<close>

section \<open>Documents and messages\<close>

text \<open>The contract of encoders that the wire conversions satisfy, for the documents.\<close>

lemma operator_name_roundtrip: "operator_from_name (operator_name i) = Ok (operator_of_i32 i)"
proof -
  have "operator_from_name (to_lowercase (trim_start_matches ''CONSTRAINT_OPERATOR_'' (operator_as_str_name p))) = Ok p" for p
    by (cases p; hypsubst; code_simp)
  then show ?thesis by (simp add: operator_name_def)
qed

lemma value_type_name_roundtrip:
  "value_type_of_i32 i \<noteq> VtUnspecified \<Longrightarrow> value_type_from_name (value_type_name i) = Ok (value_type_of_i32 i)"
  by (cases "value_type_of_i32 i") (simp_all add: value_type_name_def value_type_from_name_def)

definition doc_constraint :: "PbConstraint \<Rightarrow> PbConstraint" where
  "doc_constraint c = c\<lparr>pc_operator := operator_as_i32 (operator_of_i32 (pc_operator c)),
     pc_values := map (\<lambda>v. value_of_json (value_to_json v)) (pc_values c)\<rparr>"

lemma value_doc_idem: "value_to_json (value_of_json (value_to_json v)) = value_to_json v"
  by (simp add: value_to_json_eq value_of_json_eq codec_simps)

lemma operator_name_idem: "operator_name (operator_as_i32 (operator_of_i32 i)) = operator_name i"
  by (simp add: operator_name_def codec_simps)

interpretation dc: codec constraint_to_doc constraint_doc_to_pb doc_constraint
  by unfold_locales
    (simp_all add: constraint_to_doc_def constraint_doc_to_pb_def doc_constraint_def operator_name_roundtrip
      operator_name_idem value_doc_idem comp_def)

lemma doc_constraint_sent [simp]: "doc_constraint (domain_constraint_to_pb c) = domain_constraint_to_pb c"
  by (simp add: doc_constraint_def domain_constraint_to_pb_def value_to_json_eq value_of_json_eq codec_simps comp_def)

definition doc_group :: "PbConstraintGroup \<Rightarrow> PbConstraintGroup" where
  "doc_group g = g\<lparr>pg_constraints := map doc_constraint (pg_constraints g)\<rparr>"

definition group_to_doc :: "PbConstraintGroup \<Rightarrow> ConstraintDoc list" where
  "group_to_doc g = map constraint_to_doc (pg_constraints g)"

interpretation dg: codec group_to_doc group_of doc_group
  by unfold_locales
    (simp_all add: group_to_doc_def group_of_def doc_group_def dc.traverse_enc dc.enc_norm comp_def)

lemma doc_group_sent [simp]: "doc_group (group_to_pb g) = group_to_pb g"
  by (simp add: doc_group_def group_to_pb_def comp_def)

definition doc_segment :: "PbSegment \<Rightarrow> PbSegment" where
  "doc_segment s = s\<lparr>ps_constraints := map doc_constraint (ps_constraints s)\<rparr>"

interpretation ds: codec segment_to_doc segment_doc_to_pb doc_segment
  by unfold_locales
    (simp_all add: segment_to_doc_def segment_doc_to_pb_def doc_segment_def dc.traverse_enc dc.enc_norm comp_def)

lemma doc_segment_sent [simp]: "doc_segment (segment_to_pb s) = segment_to_pb s"
  by (simp add: doc_segment_def segment_to_pb_def comp_def)

text \<open>A rule keeps everything but its rank, which is its position in the document.\<close>

lemma flat_groups:
  "list_all (\<lambda>g. length (pg_constraints g) = 1) gs \<Longrightarrow>
     traverse (\<lambda>c. group_of [c]) (map (\<lambda>g. constraint_to_doc (pg_constraints g ! 0)) gs) = Ok (map doc_group gs)"
proof (induction gs)
  case (Cons g gs)
  then obtain c where c: "pg_constraints g = [c]" by (auto simp: length_Suc_conv)
  then have "group_of [constraint_to_doc (pg_constraints g ! 0)] = Ok (doc_group g)"
    using dg.dec_enc [of g] by (simp add: group_to_doc_def)
  with Cons show ?case by simp
qed simp

lemma rule_doc_roundtrip:
  "rule_doc_to_pb i (rule_to_doc r) =
     Ok (r\<lparr>pr_rank := i, pr_constraint_groups := map doc_group (pr_constraint_groups r)\<rparr>)"
proof -
  have ds: "map (\<lambda>d. \<lparr>pd_variant_key = dd_variant d, pd_weight = dd_weight d\<rparr>)
      (map (\<lambda>d. \<lparr>dd_variant = pd_variant_key d, dd_weight = pd_weight d\<rparr>) xs) = xs" for xs :: "PbDistribution list"
    by (simp add: map_idI)
  show ?thesis
  proof (cases "list_all (\<lambda>g. length (pg_constraints g) = 1) (pr_constraint_groups r)")
    case True
    then show ?thesis
      by (cases r) (simp add: rule_doc_to_pb_def rule_to_doc_def flat_groups ds del: map_map)
  next
    case False
    then have "pr_constraint_groups r \<noteq> []" by auto
    moreover have "(\<lambda>g. map constraint_to_doc (pg_constraints g)) = group_to_doc"
      by (simp add: group_to_doc_def fun_eq_iff)
    ultimately show ?thesis
      using False by (cases r) (simp add: rule_doc_to_pb_def rule_to_doc_def dg.traverse_enc ds del: map_map)
  qed
qed

section \<open>A flag and its document\<close>

lemma sort_key_snoc_distinct: "f x \<notin> f ` set xs \<Longrightarrow> sort_key f (xs @ [x]) = insort_key f x (sort_key f xs)"
proof (induction xs)
  case (Cons y xs)
  then have "f y \<noteq> f x" by auto
  with Cons show ?case using insort_key_left_comm [of f y x "sort_key f xs"] by simp
qed simp

lemma btree_insert_insort:
  "key x \<notin> key ` set ys \<Longrightarrow>
     btree_insert (key x) (val x) (map (\<lambda>y. (key y, val y)) ys) = map (\<lambda>y. (key y, val y)) (insort_key key x ys)"
  by (induction ys) (auto simp: less_le)

lemma btree_collect:
  "distinct (map key xs) \<Longrightarrow>
     foldl (\<lambda>m x. btree_insert (key x) (val x) m) [] xs = map (\<lambda>x. (key x, val x)) (sort_key key xs)"
  by (induction xs rule: rev_induct) (simp_all add: btree_insert_insort sort_key_snoc_distinct)

lemma sort_key_map: "sort_key f (map g xs) = map g (sort_key (\<lambda>x. f (g x)) xs)"
proof (induction xs)
  case (Cons x xs)
  have "insort_key f (g x) (map g ys) = map g (insort_key (\<lambda>x. f (g x)) x ys)" for ys
    by (induction ys) simp_all
  with Cons show ?case by simp
qed simp

text \<open>What a flag is after an export: unarchived, its variants by key, its rules ranked by position.\<close>

definition relisted :: "Flag \<Rightarrow> Flag" where
  "relisted f = f\<lparr>f_archived := False, f_variants := sort_key v_key (f_variants f),
     f_rules := map (\<lambda>(i, r). r\<lparr>r_rank := of_nat i\<rparr>) (List.enumerate 0 (f_rules f))\<rparr>"

lemma ranked_rules:
  "traverse (\<lambda>(i, r). rule_doc_to_pb (of_nat i) r) (List.enumerate n (map rule_to_doc (map rule_to_pb rs)))
     = Ok (map rule_to_pb (map (\<lambda>(i, r). r\<lparr>r_rank := of_nat i\<rparr>) (List.enumerate n rs)))"
proof (induction rs arbitrary: n)
  case (Cons r rs)
  have "rule_doc_to_pb (of_nat n) (rule_to_doc (rule_to_pb r)) = Ok (rule_to_pb (r\<lparr>r_rank := of_nat n\<rparr>))"
    by (simp add: rule_doc_roundtrip rule_to_pb_def comp_def)
  with Cons show ?case by simp
qed simp

lemma flag_doc_roundtrip:
  assumes "distinct (map v_key (f_variants f))"
  shows "flag_doc_to_pb (flag_to_doc (flag_to_pb f)) = Ok (flag_to_pb (relisted f))"
proof -
  have type_: "value_type_from_name (value_type_name (value_type_as_i32 (value_type_to_pb t))) = Ok (value_type_to_pb t)" for t
    using value_type_name_roundtrip [of "value_type_as_i32 (value_type_to_pb t)"]
    by (cases t) (simp_all add: codec_simps)
  have keyed: "foldl (\<lambda>m v. btree_insert (pv_key v) (case pv_value v of Some x \<Rightarrow> value_to_json x | None \<Rightarrow> JNull) m) []
      (map variant_to_pb (f_variants f))
    = map (\<lambda>v. (v_key v, value_to_json (json_to_prost_value (v_value v)))) (sort_key v_key (f_variants f))"
    using assms btree_collect [of v_key "f_variants f" "\<lambda>v. value_to_json (json_to_prost_value (v_value v))"]
    by (simp add: foldl_map variant_to_pb_def)
  show ?thesis
    by (simp add: flag_doc_to_pb_def flag_to_doc_def flag_to_pb_def type_ keyed ranked_rules [unfolded map_map comp_def]
        relisted_def variant_to_pb_def value_to_json_eq value_of_json_eq codec_simps comp_def)
qed

lemma enumerate_forget: "map (\<lambda>(i, r). g r) (List.enumerate n rs) = map g rs"
  by (induction rs arbitrary: n) simp_all

lemma relisted_fields [simp]:
  "f_key (relisted f) = f_key f" "f_archived (relisted f) = False" "f_value_type (relisted f) = f_value_type f"
  "f_default_variant_key (relisted f) = f_default_variant_key f" "f_enabled (relisted f) = f_enabled f"
  by (simp_all add: relisted_def)

lemma norm_rule_rank: "norm_rule (r\<lparr>r_rank := i\<rparr>) = (norm_rule r)\<lparr>r_rank := i\<rparr>"
  by (simp add: norm_rule_def)

lemma same_relisted: "same_flag (norm_flag (f\<lparr>f_archived := False\<rparr>)) (norm_flag (relisted f))"
proof -
  have "map (\<lambda>r. r\<lparr>r_rank := 0\<rparr>) (map norm_rule (map (\<lambda>(i, r). r\<lparr>r_rank := of_nat i\<rparr>) (List.enumerate 0 (f_rules f))))
      = map (\<lambda>(i, r). (norm_rule r)\<lparr>r_rank := 0\<rparr>) (List.enumerate 0 (f_rules f))"
    by (auto simp: norm_rule_rank)
  then have rules: "map (\<lambda>r. r\<lparr>r_rank := 0\<rparr>) (f_rules (norm_flag (relisted f)))
      = map (\<lambda>r. (norm_rule r)\<lparr>r_rank := 0\<rparr>) (f_rules f)"
    by (simp add: norm_flag_def relisted_def enumerate_forget)
  have "sort_key v_key (map norm_variant (sort_key v_key vs)) = sort_key v_key (map norm_variant vs)" for vs
    by (simp add: sort_key_map norm_variant_def sort_key_id_if_sorted)
  then show ?thesis
    using rules by (simp add: same_flag_def norm_flag_def relisted_def)
qed

text \<open>
  C11: A flag that is exported and loaded again is, for the server, the flag it was, unarchived: its
  variants may come in another order and its rules with new ranks, which no plan counts as a
  difference. A segment is loaded back exactly.
\<close>

theorem exported_documents_load_back:
  assumes "distinct (map v_key (f_variants f))"
  shows "\<exists>pb. flag_doc_to_pb (flag_to_doc (flag_to_pb f)) = Ok pb
    \<and> flag_try_from pb = Ok (norm_flag (relisted f))
    \<and> same_flag (norm_flag (f\<lparr>f_archived := False\<rparr>)) (norm_flag (relisted f))
    \<and> segment_doc_to_pb (segment_to_doc (segment_to_pb s)) = Ok (segment_to_pb s)"
  using flag_doc_roundtrip [OF assms] cf.dec_enc same_relisted ds.dec_enc [of "segment_to_pb s"] by simp

theorem exported_documents_load_back_witness:
  "\<exists>pb. flag_doc_to_pb (flag_to_doc (flag_to_pb ex_checkout)) = Ok pb
    \<and> flag_try_from pb = Ok (norm_flag (relisted ex_checkout))"
proof -
  have "distinct (map v_key (f_variants ex_checkout))" by code_simp
  from exported_documents_load_back [OF this, of ex_staff] show ?thesis by blast
qed

section \<open>Exporting and planning\<close>

lemma revalidated:
  assumes "validate_flag f = Ok ()" "norm_flag f = f"
  shows "validate_flag (norm_flag (relisted f)) = Ok ()"
proof -
  have vs: "norm_variant v = v" if "v \<in> set (f_variants f)" for v
    using assms(2) that map_eq_conv [of norm_variant "f_variants f" "\<lambda>x. x"]
    by (metis Flag.select_convs(6) Flag.surjective norm_flag_def Flag.update_convs(6) Flag.update_convs(7) list.map_ident)
  then have variants: "set (f_variants (norm_flag (relisted f))) = set (f_variants f)"
    by (force simp: norm_flag_def relisted_def)
  have "rule_valid A (norm_rule (r\<lparr>r_rank := i\<rparr>))" if "rule_valid A r" for A r and i :: u32
    using that by (auto simp: rule_valid_def norm_rule_def norm_key_def split: if_splits)
  then have rules: "rule_valid A q" if "q \<in> set (f_rules (norm_flag (relisted f)))" "\<forall>r\<in>set (f_rules f). rule_valid A r" for A q
    using that by (auto simp: norm_flag_def relisted_def in_set_enumerate_eq)
  show ?thesis
    using assms(1) rules unfolding validate_flag_Ok variants variant_known_def
    by (simp add: norm_flag_def [of "relisted f"] variants [unfolded norm_flag_def])
qed

lemma concat_keep: "concat (map (\<lambda>k. if P k then [g k] else []) ks) = map g (filter P ks)"
  by (induction ks) simp_all

definition file_key :: "string \<Rightarrow> bool" where
  "file_key k \<longleftrightarrow> k \<noteq> [] \<and> CHR ''/'' \<notin> set k"

lemma split_once_rev_yaml: "split_once (CHR ''.'') (rev (k @ ''.yaml'')) = Some (''lmay'', rev k)"
  by simp

lemma is_yaml_name: "file_key k \<Longrightarrow> is_yaml (k @ ''.yaml'')"
  using split_once_rev_yaml [of k] by (auto simp: is_yaml_def extension_def file_key_def)

definition entry_of :: "tools \<Rightarrow> PbFlag \<Rightarrow> string \<times> string option" where
  "entry_of T f = (pf_key f @ ''.yaml'', tl_flag_yaml T (flag_to_doc f))"

lemma update_new: "k \<notin> fst ` set es \<Longrightarrow> AList.update k v es = es @ [(k, v)]"
  by (induction es) auto

lemma export_flags_written:
  assumes T: "\<forall>n. tl_writable T n" and "\<forall>f\<in>set fs. file_key (pf_key f) \<and> tl_flag_yaml T (flag_to_doc f) \<noteq> None"
      "distinct (map pf_key fs)"
    and "dr_flags d = Some es" "\<forall>f\<in>set fs. pf_key f @ ''.yaml'' \<notin> fst ` set es"
  shows "export_flags T fs d = (Ok (), d\<lparr>dr_flags := Some (es @ map (entry_of T) fs)\<rparr>)"
  using assms(2-)
proof (induction fs arbitrary: d es)
  case (Cons f fs)
  obtain y where y: "tl_flag_yaml T (flag_to_doc f) = Some y" using Cons.prems by auto
  let ?d = "d\<lparr>dr_flags := Some (es @ [entry_of T f])\<rparr>"
  have "export_flag T f d = (Ok (), ?d)"
    using T Cons.prems y
    by (simp add: export_flag_def write_entry_def entry_of_def file_key_def update_new Let_def)
  moreover have "export_flags T fs ?d = (Ok (), ?d\<lparr>dr_flags := Some ((es @ [entry_of T f]) @ map (entry_of T) fs)\<rparr>)"
    by (rule Cons.IH) (use Cons.prems in \<open>auto simp: entry_of_def intro: rev_image_eqI\<close>)
  ultimately show ?case by simp
qed simp

text \<open>The configuration that an export writes, and the tools it needs: every file may be written, and
  what is printed is read back.\<close>

definition kept :: "Snapshot \<Rightarrow> Flag list" where
  "kept sn = sort_key f_key (filter (\<lambda>f. \<not> f_archived f) (hvalues (sn_flags sn)))"

definition kept_segments :: "Snapshot \<Rightarrow> SegmentsFile" where
  "kept_segments sn = \<lparr>sf_segments = map segment_to_doc (map segment_to_pb (sort_key s_key (hvalues (sn_segments sn))))\<rparr>"

definition reads_back :: "('d \<Rightarrow> string option) \<Rightarrow> (string \<Rightarrow> (string, 'd) result) \<Rightarrow> 'd \<Rightarrow> bool" where
  "reads_back yaml doc d \<longleftrightarrow> (case yaml d of None \<Rightarrow> False | Some y \<Rightarrow> doc y = Ok d)"

definition tools_ok :: "tools \<Rightarrow> Snapshot \<Rightarrow> bool" where
  "tools_ok T sn \<longleftrightarrow> (\<forall>n. tl_writable T n)
     \<and> (\<forall>f\<in>set (kept sn). reads_back (tl_flag_yaml T) (tl_flag_doc T) (flag_to_doc (flag_to_pb f)))
     \<and> reads_back (tl_segments_yaml T) (tl_segments_doc T) (kept_segments sn)"

definition exportable :: "Snapshot \<Rightarrow> bool" where
  "exportable sn \<longleftrightarrow> snapshot_wf sn \<and> wire_normal sn
     \<and> (\<forall>f\<in>set (hvalues (sn_flags sn)). file_key (f_key f) \<and> distinct (map v_key (f_variants f)) \<and> validate_flag f = Ok ())"

lemma load_entry:
  assumes "reads_back (tl_flag_yaml T) (tl_flag_doc T) (flag_to_doc (flag_to_pb f))" "distinct (map v_key (f_variants f))"
  shows "load_flag T p (snd (entry_of T (flag_to_pb f))) = Ok (flag_to_pb (relisted f))"
  using assms(1)
  by (auto simp: reads_back_def load_flag_def read_file_def ok_or_context_def entry_of_def with_context_def
      flag_doc_roundtrip [OF assms(2)] split: option.splits)

lemma load_written:
  assumes T: "tools_ok T sn" and sn: "exportable sn"
    and d: "dr_flags d = Some (map (entry_of T) (map flag_to_pb (kept sn)))"
      "dr_segments d = Some (tl_segments_yaml T (kept_segments sn))"
  shows "load_config T d = Ok (map (\<lambda>f. flag_to_pb (relisted f)) (sort_key (\<lambda>f. f_key f @ ''.yaml'') (kept sn)),
    map segment_to_pb (sort_key s_key (hvalues (sn_segments sn))))"
proof -
  let ?sorted = "sort_key (\<lambda>f. f_key f @ ''.yaml'') (kept sn)"
  have "sort_key fst (map (entry_of T) (map flag_to_pb (kept sn))) = map (\<lambda>f. entry_of T (flag_to_pb f)) ?sorted"
    by (simp add: sort_key_map entry_of_def flag_to_pb_def)
  moreover have "filter (\<lambda>(n, _). is_yaml n) (map (\<lambda>f. entry_of T (flag_to_pb f)) ?sorted)
      = map (\<lambda>f. entry_of T (flag_to_pb f)) ?sorted"
    using sn by (intro filter_True) (auto simp: entry_of_def is_yaml_name flag_to_pb_def exportable_def kept_def)
  moreover have "traverse (\<lambda>(n, c). load_flag T (path_join p n) c) (map (\<lambda>f. entry_of T (flag_to_pb f)) ?sorted)
      = Ok (map (\<lambda>f. flag_to_pb (relisted f)) ?sorted)" for p
    unfolding traverse_map
    using T sn by (intro traverse_Ok_map) (auto simp: case_prod_unfold tools_ok_def exportable_def kept_def intro!: load_entry)
  moreover have "load_segments T p (tl_segments_yaml T (kept_segments sn))
      = Ok (map segment_to_pb (sort_key s_key (hvalues (sn_segments sn))))" for p
    using T ds.traverse_enc [of "map segment_to_pb (sort_key s_key (hvalues (sn_segments sn)))"]
    by (auto simp: tools_ok_def reads_back_def load_segments_def read_file_def ok_or_context_def kept_segments_def
        split: option.splits)
  ultimately show ?thesis using d by (simp add: load_config_def)
qed

lemma export_writes:
  assumes T: "tools_ok T (current (be_mgr b))" and sn: "exportable (current (be_mgr b))" and d: "dr_flags d = None \<or> dr_flags d = Some []"
  obtains d' where "config_export T d b = (Ok (), d')"
    "dr_flags d' = Some (map (entry_of T) (map flag_to_pb (kept (current (be_mgr b)))))"
    "dr_segments d' = Some (tl_segments_yaml T (kept_segments (current (be_mgr b))))"
proof -
  let ?sn = "current (be_mgr b)"
  let ?fs = "map flag_to_pb (kept ?sn)"
  have list: "list_flags_rpc False b = ?fs" by (simp add: list_flags_rpc_def mgr_list_flags_def kept_def)
  have keys: "hkeys (sn_flags ?sn) = map f_key (hvalues (sn_flags ?sn))" "distinct (hkeys (sn_flags ?sn))"
    using sn by (auto simp: exportable_def snapshot_wf_def)
  from keys(2) have "distinct (map f_key (filter (\<lambda>f. \<not> f_archived f) (hvalues (sn_flags ?sn))))"
    unfolding keys(1) by (rule distinct_map_filter)
  then have dist: "distinct (map pf_key ?fs)" by (simp add: kept_def flag_to_pb_def comp_def distinct_map)
  have fk: "\<forall>f\<in>set ?fs. file_key (pf_key f) \<and> tl_flag_yaml T (flag_to_doc f) \<noteq> None"
  proof -
    have "\<forall>f\<in>set (kept ?sn). file_key (f_key f)" using sn by (auto simp: kept_def exportable_def)
    then show ?thesis using T by (auto simp: tools_ok_def reads_back_def flag_to_pb_def split: option.splits)
  qed
  from T obtain y where y: "tl_segments_yaml T (kept_segments ?sn) = Some y"
    by (auto simp: tools_ok_def reads_back_def split: option.splits)
  have w: "\<forall>n. tl_writable T n" using T by (simp add: tools_ok_def)
  let ?d1 = "d\<lparr>dr_flags := Some []\<rparr>"
  have "create_flags_dir T d = (Ok (), ?d1)" using w d by (auto simp: create_flags_dir_def)
  moreover have "export_flags T ?fs ?d1 = (Ok (), ?d1\<lparr>dr_flags := Some (map (entry_of T) ?fs)\<rparr>)"
    using export_flags_written [OF w fk dist, of ?d1 "[]"] by simp
  ultimately have "config_export T d b = (Ok (), d\<lparr>dr_flags := Some (map (entry_of T) ?fs), dr_segments := Some (Some y)\<rparr>)"
    using w y list
    by (simp add: config_export_def export_config_def export_segments_def list_segments_rpc_def mgr_list_segments_def
        kept_segments_def)
  then show thesis using that y by simp
qed

lemma exported_plan:
  assumes "exportable sn"
  shows "diff_config sn (map (\<lambda>f. norm_flag (relisted f)) (sort_key k (kept sn))) (sort_key s_key (hvalues (sn_segments sn)))
    = map (\<lambda>f. change ''flag'' (f_key f) Delete JNull) (filter f_archived (hvalues (sn_flags sn)))"
proof -
  let ?fs = "map (\<lambda>f. norm_flag (relisted f)) (sort_key k (kept sn))"
  let ?ss = "sort_key s_key (hvalues (sn_segments sn))"
  have wf: "snapshot_wf sn" and normal: "wire_normal sn" using assms by (auto simp: exportable_def)
  have look: "hget (sn_flags sn) (f_key f) = Some f" "norm_flag f = f" if "f \<in> set (hvalues (sn_flags sn))" for f
    using wf normal that by (auto simp: snapshot_wf_def wire_normal_def hget_in_iff)
  have flags: "concat (map (flag_change sn) ?fs) = []"
  proof -
    have "same_flag f (norm_flag (relisted f))" if "f \<in> set (kept sn)" for f
    proof -
      have f: "f \<in> set (hvalues (sn_flags sn))" "\<not> f_archived f" using that by (auto simp: kept_def)
      then have "f\<lparr>f_archived := False\<rparr> = f" by simp
      then show ?thesis using same_relisted [of f] look(2) [OF f(1)] by simp
    qed
    then show ?thesis using look(1) by (auto simp: flag_change_Nil kept_def)
  qed
  have "hget (sn_segments sn) (s_key s) = Some s" if "s \<in> set (hvalues (sn_segments sn))" for s
    using wf that by (auto simp: snapshot_wf_def hget_in_iff)
  then have segs: "concat (map (segment_change sn) ?ss) = []" by (auto simp: segment_change_Nil)
  have "concat (map (prune_change ''segment'' (map s_key ?ss)) (hkeys (sn_segments sn))) = []"
    using wf by (auto simp: prune_change_Nil snapshot_wf_def intro!: rev_image_eqI)
  moreover have "concat (map (prune_change ''flag'' (map f_key ?fs)) (hkeys (sn_flags sn)))
      = map (\<lambda>f. change ''flag'' (f_key f) Delete JNull) (filter f_archived (hvalues (sn_flags sn)))"
  proof -
    have keys: "hkeys (sn_flags sn) = map f_key (hvalues (sn_flags sn))" using wf by (auto simp: snapshot_wf_def)
    have gone: "f_key f \<notin> f_key ` set (kept sn) \<longleftrightarrow> f_archived f" if "f \<in> set (hvalues (sn_flags sn))" for f
    proof -
      have "f' = f" if "f' \<in> set (hvalues (sn_flags sn))" "f_key f' = f_key f" for f'
        using look(1) [OF that(1)] look(1) [of f] that(2) \<open>f \<in> _\<close> by simp
      then have same: "\<forall>f'\<in>set (hvalues (sn_flags sn)). f_key f' = f_key f \<longrightarrow> f' = f" by blast
      have "set (kept sn) = {f' \<in> set (hvalues (sn_flags sn)). \<not> f_archived f'}" by (simp add: kept_def)
      then show ?thesis using same that by (metis (mono_tags, lifting) imageE image_eqI mem_Collect_eq)
    qed
    have "prune_change ''flag'' (map f_key ?fs) = (\<lambda>k. if k \<notin> f_key ` set (kept sn) then [change ''flag'' k Delete JNull] else [])"
      by (auto simp: prune_change_def list_ex_iff fun_eq_iff)
    then show ?thesis
      unfolding keys using gone by (simp add: concat_keep filter_map comp_def cong: filter_cong)
  qed
  ultimately show ?thesis using flags segs by (simp add: diff_config_def)
qed

text \<open>
  After \<open>ffctl config export\<close> into an empty directory, the plan for that directory contains nothing
  but the deletion of every archived flag: an export describes the whole live configuration, less
  what is archived.
\<close>

theorem export_plans_only_archived:
  assumes "tools_ok T (current (be_mgr b))" "dr_flags d = None \<or> dr_flags d = Some []"
    and "load_snapshot (be_db b) = Ok (current (be_mgr b))" "exportable (current (be_mgr b))"
  shows "\<exists>d' fs ss resp b'. config_export T d b = (Ok (), d') \<and> load_config T d' = Ok (fs, ss)
    \<and> apply_config_rpc (tl_json_text T) E actor fs ss True 0 b = (Ok resp, b')
    \<and> acr_changes resp = map (\<lambda>f. config_change_to_pb (tl_json_text T) (change ''flag'' (f_key f) Delete JNull))
        (filter f_archived (hvalues (sn_flags (current (be_mgr b)))))"
proof -
  let ?sn = "current (be_mgr b)"
  let ?k = "\<lambda>f. f_key f @ ''.yaml''"
  let ?fs = "map (\<lambda>f. flag_to_pb (relisted f)) (sort_key ?k (kept ?sn))"
  let ?ss = "map segment_to_pb (mgr_list_segments (be_mgr b))"
  let ?ds = "map (\<lambda>f. norm_flag (relisted f)) (sort_key ?k (kept ?sn))"
  obtain d' where d': "config_export T d b = (Ok (), d')"
      "dr_flags d' = Some (map (entry_of T) (map flag_to_pb (kept ?sn)))"
      "dr_segments d' = Some (tl_segments_yaml T (kept_segments ?sn))"
    using assms(1,4,2) by (rule export_writes)
  have "traverse flag_try_from ?fs = Ok ?ds" by (simp add: traverse_map traverse_Ok_map cf.dec_enc)
  moreover have "traverse segment_try_from ?ss = Ok (mgr_list_segments (be_mgr b))"
  proof -
    have "norm_segment s = s" if "s \<in> set (mgr_list_segments (be_mgr b))" for s
      using that assms(4) by (force simp: mgr_list_segments_def exportable_def wire_normal_def)
    then have "map norm_segment (mgr_list_segments (be_mgr b)) = mgr_list_segments (be_mgr b)" by (rule map_idI)
    then show ?thesis using cs.traverse_enc [of "mgr_list_segments (be_mgr b)"] by simp
  qed
  moreover have "validate_desired ?ds (mgr_list_segments (be_mgr b)) = Ok ()"
    using assms(4) by (auto simp: validate_desired_def kept_def exportable_def wire_normal_def intro!: revalidated)
  ultimately have "\<exists>resp b'. apply_config_rpc (tl_json_text T) E actor ?fs ?ss True 0 b = (Ok resp, b')
    \<and> acr_changes resp = map (\<lambda>f. config_change_to_pb (tl_json_text T) (change ''flag'' (f_key f) Delete JNull))
        (filter f_archived (hvalues (sn_flags ?sn)))"
    using assms(3) exported_plan [OF assms(4), of ?k]
    by (simp add: apply_config_rpc_def apply_config_def Let_def mgr_list_segments_def comp_def)
  then show ?thesis using d'(1) load_written [OF assms(1,4) d'(2,3)]
    by (auto simp: mgr_list_segments_def)
qed

text \<open>\<open>checkout\<close> is live and \<open>beta\<close> archived.\<close>

definition ex_archived_db :: Db where
  "ex_archived_db =
     (case and_tx (perform ''alice'' (CreateFlag ''checkout'' Boolean True ''off'' ex_variants) ex_db)
             (\<lambda>_. perform ''alice'' (ArchiveFlag ''beta'' True)) of Ok (_, db) \<Rightarrow> db | Err _ \<Rightarrow> ex_db)"

definition ex_live_flag :: Flag where
  "ex_live_flag = \<lparr>f_key = ''checkout'', f_value_type = Boolean, f_enabled = True, f_default_variant_key = ''off'',
     f_archived = False, f_variants = ex_variants, f_rules = []\<rparr>"

definition ex_backend :: Backend where
  "ex_backend = \<lparr>be_db = ex_archived_db, be_mgr = bootstrap (Ok 1) False None (load_snapshot ex_archived_db)\<rparr>"

definition ex_tools :: tools where
  "ex_tools = \<lparr>tl_from_str = (\<lambda>s. None), tl_json_text = (\<lambda>j. []), tl_status = snd,
     tl_flag_yaml = (\<lambda>d. Some (fd_key d)), tl_segment_yaml = (\<lambda>d. Some (sd_key d)), tl_segments_yaml = (\<lambda>d. Some []),
     tl_flag_doc = (\<lambda>s. if s = ''checkout'' then Ok (flag_to_doc (flag_to_pb ex_live_flag)) else Err ''no such flag''),
     tl_segments_doc = (\<lambda>s. Ok \<lparr>sf_segments = []\<rparr>),
     tl_diff = (\<lambda>a b. []), tl_writable = (\<lambda>n. True), tl_entry = (\<lambda>n. None), tl_io_error = ''io'', tl_git_email = None\<rparr>"

definition ex_dir :: Dir where
  "ex_dir = \<lparr>dr_path = ''config'', dr_flags = None, dr_segments = None\<rparr>"

lemma ex_current: "load_snapshot (be_db ex_backend) = Ok (current (be_mgr ex_backend))"
  by code_simp

lemma ex_kept: "kept (current (be_mgr ex_backend)) = [ex_live_flag]"
  "hkeys (sn_flags (current (be_mgr ex_backend))) = [''beta'', ''checkout'']"
  "map (\<lambda>f. (f_key f, f_archived f)) (hvalues (sn_flags (current (be_mgr ex_backend)))) = [(''beta'', True), (''checkout'', False)]"
  "sn_segments (current (be_mgr ex_backend)) = []"
  by code_simp+

lemma ex_exportable: "exportable (current (be_mgr ex_backend))"
  by code_simp

lemma ex_tools_ok: "tools_ok ex_tools (current (be_mgr ex_backend))"
  unfolding tools_ok_def ex_kept
  by (simp add: reads_back_def ex_tools_def kept_segments_def ex_kept) (simp add: flag_to_doc_def flag_to_pb_def ex_live_flag_def)

theorem export_plans_only_archived_witness:
  "\<exists>fs ss resp b'. apply_config_rpc (tl_json_text ex_tools) (alone False) ''bob'' fs ss True 0 ex_backend = (Ok resp, b')
     \<and> map pcc_target_key (acr_changes resp) = [''beta'']"
proof -
  have "map f_key (filter f_archived (hvalues (sn_flags (current (be_mgr ex_backend))))) = [''beta'']" by code_simp
  then show ?thesis
    using export_plans_only_archived [OF ex_tools_ok _ ex_current ex_exportable, of ex_dir "alone False" "''bob''"]
    by (fastforce simp: ex_dir_def config_change_to_pb_def change_def comp_def)
qed

section \<open>Applying what was shown\<close>

lemma apply_config_reads:
  assumes "apply_config actor flags segs dry ev old later = Ok (out, db')"
  shows "\<exists>cur. load_snapshot old = Ok cur \<and> ao_changes out = diff_config cur flags segs \<and> ao_from_version out = sn_version cur
    \<and> (dry \<or> ao_changes out = [] \<longrightarrow> ao_to_version out = sn_version cur \<and> db' = later)
    \<and> (\<not> dry \<and> ao_changes out \<noteq> [] \<longrightarrow> db_version later = sn_version cur \<and> (ev = 0 \<or> db_version later = ev))"
  using assms by (auto simp: apply_config_def Let_def and_tx_Ok split: sum.splits if_splits)

lemma apply_rpc_reads:
  assumes "apply_config_rpc jt E actor fs ss dry ev b = (Ok r, b')"
  obtains flags segs out db' where "traverse flag_try_from fs = Ok flags" "traverse segment_try_from ss = Ok segs"
    "apply_config actor flags segs dry ev (be_db b) (ot_plan E (be_db b)) = Ok (out, db')"
    "acr_changes r = map (config_change_to_pb jt) (ao_changes out)" "acr_from_version r = ao_from_version out"
    "acr_to_version r = ao_to_version out" "dry \<longrightarrow> b' = b\<lparr>be_db := db'\<rparr>"
  using assms
  by (auto simp: apply_config_rpc_def Let_def apply_config_def split: sum.splits if_splits prod.splits)


definition ex_config :: Dir where
  "ex_config = ex_dir\<lparr>dr_flags := Some [(''checkout.yaml'', Some ''checkout''), (''README.md'', None)]\<rparr>"

fun performed :: "(string list \<times> PbConfigChange list \<times> Applied) anyhow \<Rightarrow> PbConfigChange list" where
  "performed (Inr (_, _, AppliedNow r)) = acr_changes r"
| "performed _ = []"

lemma performed_some: "performed res \<noteq> [] \<Longrightarrow> \<exists>shown planned r. res = Ok (shown, planned, AppliedNow r) \<and> acr_changes r \<noteq> []"
  by (cases res rule: performed.cases) auto


section \<open>Surprises\<close>

text \<open>A file of a flag that is no longer live stays in the directory, and is loaded with the others.\<close>

lemma export_keeps_stale_files:
  "map_option (map fst) (dr_flags (snd (config_export ex_tools
      (ex_dir\<lparr>dr_flags := Some [(''old.yaml'', Some ''checkout'')]\<rparr>) ex_backend))) = Some [''old.yaml'', ''checkout.yaml'']"
  by code_simp

text \<open>A weight beyond \<open>2^32\<close> is cut to its low bits, and what is not a number counts as 0.\<close>

lemma weight_wraps:
  "weight_field [(''weight'', JNumber (PosInt 4294967396))] = 100" "weight_field [(''weight'', JString ''60'')] = 0"
  by code_simp+

end
