(* ===== verification/RuleCommand.thy ===== *)
theory RuleCommand
  imports RuleEngine
begin

text \<open>
  Commands in comments: \<open>janitor-bot/src/command.rs\<close> and \<open>marker.rs\<close>. A comment that addresses the
  bot becomes a command; running it sends requests as actions do. Constructors of the two command
  types carry a prefix. The text of an error that a client returns, the unix time and the answer of
  Forgejo about an issue are functions of the number of calls, like every other answer.
\<close>

section \<open>Parsing\<close>

datatype PrCommand =
    PcApprove
  | PcMerge MergeDo
  | PcRevert
  | PcRecheck
  | PcClose
  | PcReopen
  | PcIgnore
  | PcExplain
  | PcRunRule string
  | PcFix "string option" "string option"

datatype IssueCommand = IcRetryWorkflow | IcAck

definition addressed :: "string \<Rightarrow> bool" where
  "addressed l = starts_with (trim_start l) ''@janitor''"

text \<open>The words after \<open>@janitor\<close> on the first line that begins with it.\<close>

definition command_words :: "string \<Rightarrow> string list option" where
  "command_words body =
     (case List.find addressed (str_lines body) of
        None \<Rightarrow> None
      | Some line \<Rightarrow>
          (case strip_prefix ''@janitor'' (trim_start line) of
             None \<Rightarrow> None
           | Some rest \<Rightarrow> Some (split_whitespace (trim rest))))"

definition parse_strategy :: "string list \<Rightarrow> MergeDo option" where
  "parse_strategy ws =
     (case ws of
        [] \<Rightarrow> Some DoSquash
      | w # _ \<Rightarrow> if w = ''rebase'' then Some DoRebase
                else if w = ''merge'' then Some DoMerge
                else if w = ''squash'' then Some DoSquash else None)"

fun parse_fix :: "string list \<Rightarrow> PrCommand" where
  "parse_fix [] = PcFix None None"
| "parse_fix (m # rest) = PcFix (Some m) (if rest = [] then None else Some (join '' '' rest))"

fun parse_run :: "string list \<Rightarrow> PrCommand option" where
  "parse_run (w # name # _) = (if w = ''rule'' then Some (PcRunRule name) else None)"
| "parse_run _ = None"

definition parse_pr_command :: "string \<Rightarrow> PrCommand option" where
  "parse_pr_command body =
     (case command_words body of
        Some (w # ws) \<Rightarrow>
          if w = ''approve'' then Some PcApprove
          else if w = ''merge'' then map_option PcMerge (parse_strategy ws)
          else if w = ''revert'' then Some PcRevert
          else if w = ''recheck'' then Some PcRecheck
          else if w = ''close'' then Some PcClose
          else if w = ''reopen'' then Some PcReopen
          else if w = ''ignore'' then Some PcIgnore
          else if w = ''explain'' then Some PcExplain
          else if w = ''fix'' then Some (parse_fix ws)
          else if w = ''run'' then parse_run ws
          else None
      | _ \<Rightarrow> None)"

definition parse_issue_command :: "string \<Rightarrow> IssueCommand option" where
  "parse_issue_command body =
     (case command_words body of
        Some (w # ws) \<Rightarrow>
          if w = ''retry-workflow'' then Some IcRetryWorkflow
          else if w = ''ack'' then Some IcAck
          else None
      | _ \<Rightarrow> None)"

section \<open>Texts\<close>

definition newline :: string where
  "newline = [CHR 0x0A]"

text \<open>The two marks are three bytes each in UTF-8; the names of actions are ASCII.\<close>

definition ran_mark :: "bool \<Rightarrow> string" where
  "ran_mark b = (if b then [CHR 0xE2, CHR 0x9C, CHR 0x93] @ '' ran''
                 else [CHR 0xE2, CHR 0x9C, CHR 0x97] @ '' skipped'')"

definition explain_line :: "nat \<Rightarrow> string \<times> string \<Rightarrow> string" where
  "explain_line width l =
     (case l of (code, comment) \<Rightarrow>
        (if comment = [] then code
         else code @ replicate (width - length code) (CHR '' '') @ ''  # '' @ comment) @ newline)"

definition explain_rule :: "MatchedRule \<Rightarrow> string" where
  "explain_rule rule =
     (let lines = (''actions:'', []) #
            map (\<lambda>e. (''  - '' @ ea_action e, ran_mark (ea_ran e))) (mr_actions rule);
          width = foldl max 0 (map (\<lambda>(code, _). length code) lines)
      in newline @ ''### `'' @ mr_name rule @ ''`'' @ (if mr_dry_run rule then '' _(dry-run)_'' else [])
           @ newline @ newline @ ''```yaml'' @ newline
           @ concat (map (explain_line width) lines) @ ''```'' @ newline)"

definition format_explain :: "MatchedRule list \<Rightarrow> string" where
  "format_explain matched =
     (if matched = [] then ''## janitor explain'' @ newline @ newline @ ''No rules matched this PR.''
      else ''## janitor explain'' @ newline @ concat (map explain_rule matched))"

text \<open>\<open>Marker\<close> and its \<open>Display\<close>.\<close>

record Marker =
  mk_feature :: string
  mk_key :: "string option"

definition marker_text :: "Marker \<Rightarrow> string" where
  "marker_text m =
     ''<!-- janitor-bot:'' @ mk_feature m
       @ (case mk_key m of Some key \<Rightarrow> '':'' @ key | None \<Rightarrow> []) @ '' -->''"

text \<open>\<open>find\<close> and \<open>rfind\<close> of a pattern: the offset of the first and of the last occurrence.\<close>

fun find_str :: "string \<Rightarrow> string \<Rightarrow> nat option" where
  "find_str p [] = (if p = [] then Some 0 else None)"
| "find_str p (c # cs) =
     (if starts_with (c # cs) p then Some 0 else map_option Suc (find_str p cs))"

definition rfind_str :: "string \<Rightarrow> string \<Rightarrow> nat option" where
  "rfind_str p s = map_option (\<lambda>n. length s - length p - n) (find_str (rev p) (rev s))"

definition extract_metadata_json :: "text_crates \<Rightarrow> string \<Rightarrow> json option" where
  "extract_metadata_json T t =
     (case rfind_str ''<!-- '' t of
        None \<Rightarrow> None
      | Some n \<Rightarrow>
          (let body = drop (n + 5) t
           in case find_str '' -->'' body of
                None \<Rightarrow> None
              | Some m \<Rightarrow> json_from_str T (trim (take m body))))"

section \<open>Running a command\<close>

record bot =
  bo_engine :: engine
  bo_base_url :: string
  bo_unix_time :: "nat \<Rightarrow> nat"
  bo_error :: "nat \<Rightarrow> string"

abbreviation bot_clients :: "bot \<Rightarrow> clients" where
  "bot_clients B \<equiv> en_clients (bo_engine B)"

abbreviation bot_actors :: "bot \<Rightarrow> actors" where
  "bot_actors B \<equiv> en_actors (bo_engine B)"

text \<open>A pull request number as the \<open>i64\<close> it is shown as.\<close>

definition show_i64 :: "u64 \<Rightarrow> string" where
  "show_i64 n = (if sint n < 0 then ''-'' @ show_nat (nat (- sint n)) else show_nat (nat (sint n)))"

definition fetch_pr :: "bot \<Rightarrow> string \<Rightarrow> string \<Rightarrow> u64 \<Rightarrow> xstate \<Rightarrow> ApiPr option \<times> xstate" where
  "fetch_pr B owner repo pr = lookup (ask (\<lambda>t. get_pr (bot_clients B) t owner repo pr))"

definition approved_by_bot :: "bot \<Rightarrow> string \<Rightarrow> string \<Rightarrow> u64 \<Rightarrow> xstate \<Rightarrow> bool \<times> xstate" where
  "approved_by_bot B owner repo pr =
     lookup (ask (\<lambda>t. is_pr_approved_by_bot (bot_clients B) t owner repo pr))"

text \<open>Approve unless the bot has approved already; false when the approval failed.\<close>

definition ensure_approved :: "bot \<Rightarrow> string \<Rightarrow> string \<Rightarrow> u64 \<Rightarrow> string option \<Rightarrow> xstate \<Rightarrow> bool \<times> xstate" where
  "ensure_approved B owner repo pr comment x =
     (let (approved, x1) = approved_by_bot B owner repo pr x
      in send_if (bot_actors B) (\<not> approved) (ApprovePr owner repo pr comment) x1)"

definition remove_janitor_labels :: "bot \<Rightarrow> string \<Rightarrow> string \<Rightarrow> u64 \<Rightarrow> xstate \<Rightarrow> xstate" where
  "remove_janitor_labels B owner repo pr x =
     (case fetch_pr B owner repo pr x of
        (None, x1) \<Rightarrow> x1
      | (Some api_pr, x1) \<Rightarrow>
          snd (send_if (bot_actors B) (janitor_labels api_pr \<noteq> [])
                 (RemoveLabelsByName owner repo pr (janitor_labels api_pr)) x1))"

definition clone_url :: "bot \<Rightarrow> string \<Rightarrow> string \<Rightarrow> string" where
  "clone_url B owner repo = bo_base_url B @ ''/'' @ owner @ ''/'' @ repo @ ''.git''"

definition revert_pr :: "bot \<Rightarrow> string \<Rightarrow> string \<Rightarrow> u64 \<Rightarrow> xstate \<Rightarrow> bool \<times> xstate" where
  "revert_pr B owner repo pr x =
     (case fetch_pr B owner repo pr x of
        (None, x1) \<Rightarrow> (False, x1)
      | (Some api_pr, x1) \<Rightarrow>
          if ap_merged api_pr \<noteq> Some True then (False, x1)
          else (case ap_merge_commit_sha api_pr of
                  None \<Rightarrow> (False, x1)
                | Some merge_sha \<Rightarrow>
                    if merge_sha = [] then (False, x1)
                    else
                      (let title = (case ap_title api_pr of Some t \<Rightarrow> t | None \<Rightarrow> ''unknown'');
                           (timestamp, x2) = lookup (ask (bo_unix_time B)) x1;
                           branch = ''revert-pr-'' @ show_i64 pr @ ''-'' @ show_nat timestamp;
                           target = (case ap_base api_pr of Some (Some r) \<Rightarrow> r | _ \<Rightarrow> ''main'');
                           quoted_title = [CHR 0x22] @ title @ [CHR 0x22]
                       in and_then
                            (send (bot_actors B) (RevertAndPush (clone_url B owner repo) merge_sha
                               (''Revert '' @ quoted_title @ '' (#'' @ show_i64 pr @ '')'') branch target) x2)
                            (send (bot_actors B) (CreatePullRequest owner repo (''Revert '' @ quoted_title)
                               (''Reverts #'' @ show_i64 pr) branch target)))))"

text \<open>The pull request a command is about, as an event: \<open>get_pr\<close> and \<open>from_api_pr\<close>.\<close>

definition command_event :: "bot \<Rightarrow> CommentEvent \<Rightarrow> wstate \<Rightarrow> PrEvent option \<times> wstate" where
  "command_event B cmd w =
     (case fetch_pr B (ce_owner cmd) (ce_repo cmd) (ce_pr_number cmd) (xst w) of
        (None, x) \<Rightarrow> (None, w\<lparr>xst := x\<rparr>)
      | (Some api_pr, x) \<Rightarrow> (from_api_pr api_pr (ce_owner cmd) (ce_repo cmd), w\<lparr>xst := x\<rparr>))"

definition handle_pr_command :: "bot \<Rightarrow> CommentEvent \<Rightarrow> PrCommand \<Rightarrow> wstate \<Rightarrow> wstate option" where
  "handle_pr_command B cmd command w0 =
     (let X = bot_actors B; owner = ce_owner cmd; repo = ce_repo cmd; pr = ce_pr_number cmd;
          x = snd (send X (ReactToComment owner repo (ce_comment_id cmd) ''+1'') (xst w0));
          w = w0\<lparr>xst := x\<rparr>
      in case command of
           PcApprove \<Rightarrow> Some (w\<lparr>xst := snd (ensure_approved B owner repo pr None x)\<rparr>)
         | PcMerge strategy \<Rightarrow>
             (case ensure_approved B owner repo pr None x of
                (False, x1) \<Rightarrow> Some (w\<lparr>xst := x1\<rparr>)
              | (True, x1) \<Rightarrow>
                  Some (w\<lparr>xst := snd (send X (MergePr owner repo pr strategy True)
                               (remove_janitor_labels B owner repo pr x1))\<rparr>))
         | PcRevert \<Rightarrow> Some (w\<lparr>xst := snd (revert_pr B owner repo pr x)\<rparr>)
         | PcIgnore \<Rightarrow>
             Some (w\<lparr>xst := snd (and_then (send X (EnsureLabels owner repo [(IGNORE_LABEL, ''#cccccc'')]) x)
                          (send X (AddLabelsByName owner repo pr [IGNORE_LABEL])))\<rparr>)
         | PcClose \<Rightarrow>
             Some (w\<lparr>xst := snd (send X (SetPrState owner repo pr ''closed'')
                                   (remove_janitor_labels B owner repo pr x))\<rparr>)
         | PcReopen \<Rightarrow> Some (w\<lparr>xst := snd (send X (SetPrState owner repo pr ''open'') x)\<rparr>)
         | PcExplain \<Rightarrow>
             (case command_event B cmd w of
                (None, w1) \<Rightarrow> Some w1
              | (Some ev, w1) \<Rightarrow>
                  (case explain_pr (bo_engine B) ev w1 of
                     None \<Rightarrow> None
                   | Some (matched, w2) \<Rightarrow>
                       Some (w2\<lparr>xst := snd (send X (CommentPr owner repo pr (format_explain matched)) (xst w2))\<rparr>)))
         | PcRunRule name \<Rightarrow>
             (case command_event B cmd w of
                (None, w1) \<Rightarrow> Some w1
              | (Some ev, w1) \<Rightarrow>
                  (case run_rule_by_name_unconditionally (bo_engine B) ev name w1 of
                     Err e \<Rightarrow>
                       Some (w1\<lparr>xst := snd (send X (CommentPr owner repo pr
                         (''Failed to run action `'' @ name @ ''`: '' @ e)) (xst w1))\<rparr>)
                   | Ok r \<Rightarrow> r))
         | PcFix model instructions \<Rightarrow>
             Some (w\<lparr>xst := snd (send X (AutofixPr owner repo pr model instructions) x)\<rparr>)
         | PcRecheck \<Rightarrow>
             (case command_event B cmd w of
                (None, w1) \<Rightarrow> Some w1
              | (Some ev, w1) \<Rightarrow> evaluate_pr (bo_engine B) ev w1))"

section \<open>Commands on issues\<close>

text \<open>\<open>Value::as_u64\<close>, and indexing by a key, which is \<open>Null\<close> on anything but an object with it.\<close>

fun as_u64 :: "json \<Rightarrow> u64 option" where
  "as_u64 (JNumber (PosInt n)) = Some n"
| "as_u64 _ = None"

definition json_field :: "string \<Rightarrow> json \<Rightarrow> json" where
  "json_field k v =
     (case as_object v of
        Some fs \<Rightarrow> (case map_of fs k of Some x \<Rightarrow> x | None \<Rightarrow> JNull)
      | None \<Rightarrow> JNull)"

text \<open>\<open>https://github.com/{owner}/{repo}/\<dots>\<close>\<close>

definition repo_of_url :: "json \<Rightarrow> (string \<times> string) option" where
  "repo_of_url v =
     (case v of
        JString url \<Rightarrow>
          (case strip_prefix ''https://github.com/'' url of
             None \<Rightarrow> None
           | Some path \<Rightarrow>
               (case split_once (CHR ''/'') path of
                  None \<Rightarrow> None
                | Some (owner, rest) \<Rightarrow>
                    Some (owner, (case split_once (CHR ''/'') rest of None \<Rightarrow> rest | Some (repo, _) \<Rightarrow> repo))))
      | _ \<Rightarrow> None)"

definition retry_workflow :: "bot \<Rightarrow> IssueCommentEvent \<Rightarrow> xstate \<Rightarrow> xstate" where
  "retry_workflow B ev x =
     (if \<not> List.member (ie_issue_labels ev) ''github-ci-failure'' then x
      else (case extract_metadata_json (texts (bot_clients B)) (ie_issue_body ev) of
              None \<Rightarrow> x
            | Some metadata \<Rightarrow>
                (case as_u64 (json_field ''run_id'' metadata) of
                   None \<Rightarrow> x
                 | Some run_id \<Rightarrow>
                     (case repo_of_url (json_field ''html_url'' metadata) of
                        None \<Rightarrow> x
                      | Some (owner, repo) \<Rightarrow>
                          (case send (bot_actors B) (RerunWorkflow owner repo run_id) x of
                             (True, x1) \<Rightarrow> x1
                           | (False, x1) \<Rightarrow>
                               snd (send (bot_actors B) (CommentOnIssue (ie_owner ev) (ie_repo ev)
                                 (ie_issue_number ev) (''Failed to retry workflow run '' @ show_u64 run_id
                                    @ '': '' @ bo_error B (calls (est x)))) x1))))))"

definition handle_issue_command :: "bot \<Rightarrow> IssueCommentEvent \<Rightarrow> IssueCommand \<Rightarrow> xstate \<Rightarrow> xstate" where
  "handle_issue_command B ev command x0 =
     (let X = bot_actors B;
          x = snd (send X (ReactToComment (ie_owner ev) (ie_repo ev) (ie_comment_id ev) ''+1'') x0)
      in case command of
           IcRetryWorkflow \<Rightarrow> retry_workflow B ev x
         | IcAck \<Rightarrow>
             snd (and_then (send X (EnsureLabels (ie_owner ev) (ie_repo ev) [(ACK_LABEL, ''#c5def5'')]) x)
               (send X (AddLabelsByName (ie_owner ev) (ie_repo ev) (ie_issue_number ev) [ACK_LABEL]))))"

end
