(* ===== verification/RuleWebhook.thy ===== *)
theory RuleWebhook
  imports RuleCommand
begin

text \<open>
  What reaches the bot: the payloads of GitHub (\<open>github/mod.rs\<close>, \<open>github/types.rs\<close>), the webhook
  handlers (\<open>routes/forgejo.rs\<close>, \<open>routes/github.rs\<close>, \<open>routes/argocd.rs\<close>), the admin routes
  (\<open>routes/admin.rs\<close>) and the jobs of \<open>main.rs\<close>. A handler answers with a status and at most one
  task, which runs on its own afterwards (\<open>run_task\<close>). The parser of JSON and HMAC-SHA256 are
  arguments; header names are in lower case.
\<close>

section \<open>Signatures\<close>

definition hex_digit :: "char \<Rightarrow> nat option" where
  "hex_digit c =
     (let n = byte c
      in if 48 \<le> n \<and> n \<le> 57 then Some (n - 48)
         else if 97 \<le> n \<and> n \<le> 102 then Some (n - 87)
         else if 65 \<le> n \<and> n \<le> 70 then Some (n - 55) else None)"

fun hex_decode :: "string \<Rightarrow> u8 list option" where
  "hex_decode [] = Some []"
| "hex_decode [c] = None"
| "hex_decode (c # d # cs) =
     (case (hex_digit c, hex_digit d, hex_decode cs) of
        (Some h, Some l, Some bs) \<Rightarrow> Some (of_nat (16 * h + l) # bs)
      | _ \<Rightarrow> None)"

definition hex_char :: "nat \<Rightarrow> char" where
  "hex_char n = char_of (if n < 10 then 48 + n else 87 + n)"

definition hex_encode :: "u8 list \<Rightarrow> string" where
  "hex_encode bs = concat (map (\<lambda>b. [hex_char (unat b div 16), hex_char (unat b mod 16)]) bs)"

definition verify_signature :: "(string \<Rightarrow> u8 list \<Rightarrow> u8 list) \<Rightarrow> string \<Rightarrow> string \<Rightarrow> u8 list \<Rightarrow> bool" where
  "verify_signature hmac secret signature body =
     (case strip_prefix ''sha256='' signature of
        None \<Rightarrow> False
      | Some hex_sig \<Rightarrow>
          (case hex_decode hex_sig of None \<Rightarrow> False | Some decoded \<Rightarrow> hmac secret body = decoded))"

definition sign_payload :: "(string \<Rightarrow> u8 list \<Rightarrow> u8 list) \<Rightarrow> string \<Rightarrow> u8 list \<Rightarrow> string" where
  "sign_payload hmac secret body = ''sha256='' @ hex_encode (hmac secret body)"

section \<open>GitHub payloads\<close>

text \<open>Nested objects that hold one optional string are that string.\<close>

record HeadCommit =
  hc_message :: "string option"
  hc_author :: "string option"

record WorkflowRun =
  wr_id :: "u64 option"
  wr_name :: "string option"
  wr_conclusion :: "string option"
  wr_html_url :: "string option"
  wr_head_branch :: "string option"
  wr_head_sha :: "string option"
  wr_head_commit :: "HeadCommit option"
  wr_actor :: "string option"
  wr_run_number :: "u64 option"
  wr_run_attempt :: "u64 option"
  wr_jobs_url :: "string option"
  wr_display_title :: "string option"
  wr_created_at :: "string option"
  wr_updated_at :: "string option"

record WorkflowRunPayload =
  wp_workflow_run :: "WorkflowRun option"
  wp_repository :: "string option"

record CommitStatusPayload =
  sp_sha :: "string option"
  sp_state :: "string option"
  sp_context :: "string option"
  sp_description :: "string option"
  sp_target_url :: "string option"
  sp_repository :: "string option"

record PushPayload =
  pp_ref :: "string option"
  pp_repository :: "string option"

record CheckRun =
  cr_name :: "string option"
  cr_head_sha :: "string option"
  cr_status :: "string option"
  cr_conclusion :: "string option"
  cr_details_url :: "string option"
  cr_app :: "string option"

record CheckRunPayload =
  kp_action :: "string option"
  kp_check_run :: "CheckRun option"
  kp_repository :: "string option"

definition extract_run_id :: "string \<Rightarrow> u64 option" where
  "extract_run_id url =
     (case find_str ''/actions/runs/'' url of
        None \<Rightarrow> None
      | Some n \<Rightarrow>
          (let rest = drop (n + 14) url;
               part = (case find_str ''/actions/runs/'' rest of None \<Rightarrow> rest | Some m \<Rightarrow> take m rest)
           in str_parse_u64 (hd (split_on (CHR ''/'') part))))"

definition parse_check_run_event :: "CheckRunPayload option \<Rightarrow> CheckRunEvent option" where
  "parse_check_run_event parsed =
     (case parsed of
        None \<Rightarrow> None
      | Some payload \<Rightarrow>
          (case kp_action payload of
             None \<Rightarrow> None
           | Some action \<Rightarrow>
               if action \<noteq> ''completed'' \<and> action \<noteq> ''created'' then None
               else (case (kp_check_run payload, kp_repository payload) of
                       (Some cr, Some repository) \<Rightarrow>
                         map_option (\<lambda>sha.
                           \<lparr>ck_repository = repository, ck_sha = sha, ck_name = opt_default (cr_name cr),
                            ck_status = opt_default (cr_status cr), ck_conclusion = opt_default (cr_conclusion cr),
                            ck_details_url = opt_default (cr_details_url cr), ck_app_name = opt_default (cr_app cr),
                            ck_run_id = extract_run_id (opt_default (cr_details_url cr)), ck_workflow_name = []\<rparr>)
                         (cr_head_sha cr)
                     | _ \<Rightarrow> None)))"

definition parse_push_event :: "PushPayload option \<Rightarrow> PushEvent option" where
  "parse_push_event parsed =
     (case parsed of
        None \<Rightarrow> None
      | Some payload \<Rightarrow>
          map_option (\<lambda>repository. \<lparr>pu_repository = repository,
              pu_branch = opt_default (Option.bind (pp_ref payload) (strip_prefix ''refs/heads/''))\<rparr>)
            (pp_repository payload))"

definition parse_commit_status_event :: "CommitStatusPayload option \<Rightarrow> CommitStatusEvent option" where
  "parse_commit_status_event parsed =
     (case parsed of
        None \<Rightarrow> None
      | Some payload \<Rightarrow>
          (case (sp_repository payload, sp_sha payload, sp_state payload) of
             (Some repository, Some sha, Some state) \<Rightarrow>
               Some \<lparr>st_repository = repository, st_sha = sha, st_state = state,
                     st_context = opt_default (sp_context payload),
                     st_description = opt_default (sp_description payload),
                     st_target_url = opt_default (sp_target_url payload)\<rparr>
           | _ \<Rightarrow> None))"

definition parse_workflow_event :: "WorkflowRunPayload option \<Rightarrow> WorkflowEvent option" where
  "parse_workflow_event parsed =
     (case parsed of
        None \<Rightarrow> None
      | Some payload \<Rightarrow>
          (case wp_workflow_run payload of
             None \<Rightarrow> None
           | Some run \<Rightarrow>
               (case (wr_id run, wr_name run, wr_html_url run, wp_repository payload) of
                  (Some i, Some name, Some url, Some repository) \<Rightarrow>
                    Some \<lparr>wf_run_id = i, wf_workflow_name = name,
                      wf_conclusion = opt_default (wr_conclusion run), wf_run_url = url,
                      wf_repository = repository, wf_branch = opt_default (wr_head_branch run),
                      wf_head_sha = opt_default (wr_head_sha run),
                      wf_commit_message = opt_default (Option.bind (wr_head_commit run) hc_message),
                      wf_commit_author = opt_default (Option.bind (wr_head_commit run) hc_author),
                      wf_actor = opt_default (wr_actor run),
                      wf_run_number = (case wr_run_number run of Some n \<Rightarrow> n | None \<Rightarrow> 0),
                      wf_run_attempt = (case wr_run_attempt run of Some n \<Rightarrow> n | None \<Rightarrow> 1),
                      wf_jobs_url = opt_default (wr_jobs_url run),
                      wf_display_title = opt_default (wr_display_title run), wf_failed_jobs_logs = [],
                      wf_created_at = opt_default (wr_created_at run),
                      wf_updated_at = opt_default (wr_updated_at run)\<rparr>
                | _ \<Rightarrow> None)))"

text \<open>\<open>infer_event\<close> on the parsed body.\<close>

definition infer_event :: "json option \<Rightarrow> string option" where
  "infer_event parsed =
     (case Option.bind parsed as_object of
        None \<Rightarrow> None
      | Some obj \<Rightarrow>
          (let has = (\<lambda>k. map_of obj k \<noteq> None);
               has_object = (\<lambda>k. case map_of obj k of Some v \<Rightarrow> is_object v | None \<Rightarrow> False)
           in if has_object ''workflow_run'' then Some ''workflow_run''
              else if has_object ''check_run'' then Some ''check_run''
              else if has ''ref'' \<and> (has ''pusher'' \<or> has ''commits'') then Some ''push''
              else if has ''context'' \<and> has ''state'' \<and> has ''sha'' then Some ''status''
              else None))"

section \<open>Webhooks\<close>

datatype Task =
    EvaluatePr PrEvent
  | EvaluateWorkflow WorkflowEvent
  | EvaluateCommitStatus CommitStatusEvent
  | EvaluateCheckRun CheckRunEvent
  | EvaluatePush PushEvent RawRequest
  | EvaluateArgocdSync ArgoSyncEvent
  | RunPrCommand CommentEvent PrCommand
  | RunIssueCommand IssueCommentEvent IssueCommand

fun run_task :: "bot \<Rightarrow> Task \<Rightarrow> wstate \<Rightarrow> wstate option" where
  "run_task B (EvaluatePr ev) w = evaluate_pr (bo_engine B) ev w"
| "run_task B (EvaluateWorkflow ev) w = evaluate_workflow (bo_engine B) ev w"
| "run_task B (EvaluateCommitStatus ev) w = evaluate_commit_status (bo_engine B) ev w"
| "run_task B (EvaluateCheckRun ev) w = evaluate_check_run (bo_engine B) ev w"
| "run_task B (EvaluatePush ev raw) w = evaluate_push (bo_engine B) ev raw w"
| "run_task B (EvaluateArgocdSync ev) w = evaluate_argocd_sync (bo_engine B) ev w"
| "run_task B (RunPrCommand ev c) w = handle_pr_command B ev c w"
| "run_task B (RunIssueCommand ev c) w = Some (w\<lparr>xst := handle_issue_command B ev c (xst w)\<rparr>)"

definition FORGEJO_OWNER :: string where
  "FORGEJO_OWNER = ''anurag''"

definition header_text :: "string hmap \<Rightarrow> string \<Rightarrow> string" where
  "header_text headers name = opt_default (Option.bind (hget headers name) to_str)"

text \<open>\<open>event\<close> is the body as axum's \<open>Json\<close> extractor parsed it.\<close>

definition handle_forgejo_webhook :: "string \<Rightarrow> string hmap \<Rightarrow> WebhookEvent \<Rightarrow> nat \<times> Task option" where
  "handle_forgejo_webhook secret headers event =
     (if header_text headers ''authorization'' \<noteq> secret then (401, None)
      else
        (let forgejo_event = header_text headers ''x-forgejo-event'';
             forgejo_event_type = header_text headers ''x-forgejo-event-type'';
             comment_created = (wh_action event = ''created'')
         in if forgejo_event = ''issue_comment'' \<and> forgejo_event_type \<noteq> ''pull_request_comment''
            then (200, (case into_issue_comment_event event of
                          None \<Rightarrow> None
                        | Some cmd \<Rightarrow>
                            if comment_created \<and> ie_author cmd = FORGEJO_OWNER
                            then map_option (RunIssueCommand cmd) (parse_issue_command (ie_comment_body cmd))
                            else None))
            else if forgejo_event = ''issue_comment'' \<and> forgejo_event_type = ''pull_request_comment''
            then (200, (case into_comment_event event of
                          None \<Rightarrow> None
                        | Some cmd \<Rightarrow>
                            if comment_created \<and> ce_author cmd = FORGEJO_OWNER
                            then map_option (RunPrCommand cmd) (parse_pr_command (ce_body cmd))
                            else None))
            else if forgejo_event \<noteq> ''pull_request'' then (200, None)
            else (200, map_option EvaluatePr (into_pr_event event))))"

definition FORWARD_HEADERS :: "string list" where
  "FORWARD_HEADERS =
     [''content-type'', ''user-agent'', ''x-github-event'', ''x-github-delivery'',
      ''x-hub-signature'', ''x-hub-signature-256'']"

definition forward_headers :: "string hmap \<Rightarrow> (string \<times> string) list" where
  "forward_headers headers =
     List.map_filter (\<lambda>name. map_option (Pair name) (Option.bind (hget headers name) to_str)) FORWARD_HEADERS"

text \<open>The payload parsers of one body.\<close>

record payloads =
  pl_status :: "u8 list \<Rightarrow> CommitStatusPayload option"
  pl_check_run :: "u8 list \<Rightarrow> CheckRunPayload option"
  pl_push :: "u8 list \<Rightarrow> PushPayload option"
  pl_workflow :: "u8 list \<Rightarrow> WorkflowRunPayload option"

definition handle_github_webhook ::
  "(string \<Rightarrow> u8 list \<Rightarrow> u8 list) \<Rightarrow> payloads \<Rightarrow> string \<Rightarrow> string hmap \<Rightarrow> u8 list \<Rightarrow> nat \<times> Task option" where
  "handle_github_webhook hmac J secret headers body =
     (if \<not> verify_signature hmac secret (header_text headers ''x-hub-signature-256'') body then (401, None)
      else
        (let github_event = header_text headers ''x-github-event''
         in if github_event = ''status''
            then (200, map_option EvaluateCommitStatus (parse_commit_status_event (pl_status J body)))
            else if github_event = ''check_run''
            then (200, map_option EvaluateCheckRun (parse_check_run_event (pl_check_run J body)))
            else if github_event = ''push''
            then (200, map_option (\<lambda>ev. EvaluatePush ev
                          \<lparr>rq_body = body, rq_headers = forward_headers headers\<rparr>)
                         (parse_push_event (pl_push J body)))
            else (200, map_option EvaluateWorkflow (parse_workflow_event (pl_workflow J body)))))"

definition handle_argocd_webhook :: "string \<Rightarrow> string hmap \<Rightarrow> ArgoSyncEvent \<Rightarrow> nat \<times> Task option" where
  "handle_argocd_webhook secret headers payload =
     (if header_text headers ''authorization'' \<noteq> secret then (401, None)
      else if sy_sha payload = [] then (200, None)
      else (200, Some (EvaluateArgocdSync payload)))"

section \<open>Administration\<close>

definition QUEUED_LABEL :: string where
  "QUEUED_LABEL = ''janitor/queued''"

definition has_queued :: "ApiPr \<Rightarrow> bool" where
  "has_queued pr = list_ex (\<lambda>l. al_name l = Some QUEUED_LABEL) (ap_labels pr)"

definition merge_queued :: "bot \<Rightarrow> string \<Rightarrow> string \<Rightarrow> ApiPr \<Rightarrow> xstate \<Rightarrow> xstate" where
  "merge_queued B owner repo pr x =
     (case ap_number pr of
        None \<Rightarrow> x
      | Some n \<Rightarrow>
          if \<not> has_queued pr then x
          else snd (and_then
                 (and_then (ensure_approved B owner repo n (Some ''Auto-approved via /admin/merge-queued'') x)
                    (send (bot_actors B) (MergePr owner repo n DoSquash True)))
                 (send (bot_actors B) (RemoveLabelsByName owner repo n [QUEUED_LABEL]))))"

definition open_prs :: "bot \<Rightarrow> string \<Rightarrow> string \<Rightarrow> xstate \<Rightarrow> ApiPr list option \<times> xstate" where
  "open_prs B owner repo = lookup (ask (\<lambda>t. list_open_prs (bot_clients B) t owner repo))"

fun merge_queued_repos :: "bot \<Rightarrow> (string \<times> string) list \<Rightarrow> xstate \<Rightarrow> xstate" where
  "merge_queued_repos B [] x = x"
| "merge_queued_repos B ((owner, repo) # rs) x =
     (case open_prs B owner repo x of
        (None, x1) \<Rightarrow> merge_queued_repos B rs x1
      | (Some prs, x1) \<Rightarrow> merge_queued_repos B rs (foldl (\<lambda>x pr. merge_queued B owner repo pr x) x1 prs))"

definition run_admin_merge_queued :: "bot \<Rightarrow> xstate \<Rightarrow> xstate" where
  "run_admin_merge_queued B = merge_queued_repos B (watch_repos (en_rules (bo_engine B)))"

text \<open>\<open>evaluate_open_prs\<close>, the job behind the schedule and \<open>/admin/cron\<close>.\<close>

fun evaluate_prs :: "bot \<Rightarrow> string \<Rightarrow> string \<Rightarrow> ApiPr list \<Rightarrow> wstate \<Rightarrow> wstate option" where
  "evaluate_prs B owner repo [] w = Some w"
| "evaluate_prs B owner repo (pr # prs) w =
     (case from_api_pr pr owner repo of
        None \<Rightarrow> evaluate_prs B owner repo prs w
      | Some ev \<Rightarrow>
          (case evaluate_pr (bo_engine B) ev w of
             None \<Rightarrow> None
           | Some w1 \<Rightarrow> evaluate_prs B owner repo prs w1))"

fun evaluate_repos :: "bot \<Rightarrow> (string \<times> string) list \<Rightarrow> wstate \<Rightarrow> wstate option" where
  "evaluate_repos B [] w = Some w"
| "evaluate_repos B ((owner, repo) # rs) w =
     (case open_prs B owner repo (xst w) of
        (None, x1) \<Rightarrow> evaluate_repos B rs (w\<lparr>xst := x1\<rparr>)
      | (Some prs, x1) \<Rightarrow>
          (case evaluate_prs B owner repo prs (w\<lparr>xst := x1\<rparr>) of
             None \<Rightarrow> None
           | Some w1 \<Rightarrow> evaluate_repos B rs w1))"

definition evaluate_open_prs :: "bot \<Rightarrow> wstate \<Rightarrow> wstate option" where
  "evaluate_open_prs B = evaluate_repos B (watch_repos (en_rules (bo_engine B)))"

text \<open>\<open>/admin/evaluate\<close> and \<open>/admin/dry-run\<close>: the request names the pull request.\<close>

definition handle_admin_evaluate_pr :: "bot \<Rightarrow> string \<Rightarrow> string \<Rightarrow> u64 \<Rightarrow> wstate \<Rightarrow> wstate option" where
  "handle_admin_evaluate_pr B owner repo n w =
     (case fetch_pr B owner repo n (xst w) of
        (None, x) \<Rightarrow> Some (w\<lparr>xst := x\<rparr>)
      | (Some pr, x) \<Rightarrow>
          (case from_api_pr pr owner repo of
             None \<Rightarrow> Some (w\<lparr>xst := x\<rparr>)
           | Some ev \<Rightarrow> evaluate_pr (bo_engine B) ev (w\<lparr>xst := x\<rparr>)))"

definition handle_admin_dry_run ::
  "bot \<Rightarrow> string \<Rightarrow> string \<Rightarrow> u64 \<Rightarrow> wstate \<Rightarrow> ((nat \<times> MatchedRule list) \<times> wstate) option" where
  "handle_admin_dry_run B owner repo n w =
     (case fetch_pr B owner repo n (xst w) of
        (None, x) \<Rightarrow> Some ((400, []), w\<lparr>xst := x\<rparr>)
      | (Some pr, x) \<Rightarrow>
          (case from_api_pr pr owner repo of
             None \<Rightarrow> Some ((400, []), w\<lparr>xst := x\<rparr>)
           | Some ev \<Rightarrow>
               map_option (\<lambda>(matched, w1). ((200, matched), w1)) (explain_pr (bo_engine B) ev (w\<lparr>xst := x\<rparr>))))"

datatype AdminCommandKind = KindPr | KindIssue

record AdminCommandRequest =
  am_owner :: string
  am_repo :: string
  am_number :: u64
  am_kind :: AdminCommandKind
  am_body :: string

text \<open>\<open>get_issue\<close> answers with the body and the label names of the issue.\<close>

definition handle_admin_command ::
  "bot \<Rightarrow> (nat \<Rightarrow> string \<Rightarrow> string \<Rightarrow> u64 \<Rightarrow> (string option \<times> string option list) option)
     \<Rightarrow> AdminCommandRequest \<Rightarrow> wstate \<Rightarrow> (nat \<times> wstate) option" where
  "handle_admin_command B get_issue req w =
     (case am_kind req of
        KindPr \<Rightarrow>
          (case parse_pr_command (am_body req) of
             None \<Rightarrow> Some (400, w)
           | Some parsed \<Rightarrow>
               map_option (Pair 200) (handle_pr_command B
                 \<lparr>ce_owner = am_owner req, ce_repo = am_repo req, ce_pr_number = am_number req,
                  ce_comment_id = 0, ce_author = FORGEJO_OWNER, ce_body = am_body req\<rparr> parsed w))
      | KindIssue \<Rightarrow>
          (case parse_issue_command (am_body req) of
             None \<Rightarrow> Some (400, w)
           | Some parsed \<Rightarrow>
               (case lookup (ask (\<lambda>t. get_issue t (am_owner req) (am_repo req) (am_number req))) (xst w) of
                  (None, x) \<Rightarrow> Some (400, w\<lparr>xst := x\<rparr>)
                | (Some (body, labels), x) \<Rightarrow>
                    Some (200, w\<lparr>xst := handle_issue_command B
                      \<lparr>ie_owner = am_owner req, ie_repo = am_repo req, ie_issue_number = am_number req,
                       ie_comment_id = 0, ie_author = FORGEJO_OWNER, ie_comment_body = am_body req,
                       ie_issue_body = opt_default body, ie_issue_labels = List.map_filter id labels\<rparr>
                      parsed x\<rparr>))))"

definition handle_admin_argocd_resync :: "bot \<Rightarrow> string \<Rightarrow> xstate \<Rightarrow> nat \<times> xstate" where
  "handle_admin_argocd_resync B app x =
     (let (ok, x1) = send (bot_actors B) (SyncApplication app) x in (if ok then 200 else 502, x1))"

end
