(* ===== verification/CommandProperties.thy ===== *)
theory CommandProperties
  imports CommandParse RuleProperties
begin

text \<open>
  The properties of the bot's commands, webhooks and merge queue: who may make it act, what a
  command may touch, and when it merges.
\<close>

section \<open>What a step sends\<close>

lemma send_result: "fst (send X r x) = accepts X (calls (est x)) r"
  by (simp add: send_def ask_def Let_def)

lemma send_effect: "sent (snd (send X r x)) = sent x @ [r]" "calls (est (snd (send X r x))) = Suc (calls (est x))"
  by (simp_all add: send_def ask_def Let_def)

lemma send_sent: "send X r x = (b, x') \<Longrightarrow> sent x' = sent x @ [r]"
  using send_effect(1) [of X r x] by simp

lemma ask_calls: "calls (est (snd (lookup (ask f) x))) = Suc (calls (est x))"
  by (simp add: lookup_def ask_def Let_def)

lemma ask_result: "fst (lookup (ask f) x) = f (calls (est x))"
  by (simp add: lookup_def ask_def Let_def)

lemma bot_ask_pair: "lookup (ask f) x = (a, y) \<Longrightarrow> a = f (calls (est x)) \<and> sent y = sent x"
  using ask_result [of f x] sent_lookup [of "ask f" x] by auto

lemma ensure_approved_adds:
  "P (ApprovePr owner repo n c) \<Longrightarrow> adds P x (snd (ensure_approved B owner repo n c x))"
  unfolding ensure_approved_def approved_by_bot_def Let_def case_prod_unfold
  by (rule adds_trans [OF adds_lookup adds_send_if])

lemma ensure_approved_true:
  assumes "fst (ensure_approved B owner repo n c x)"
  shows "is_pr_approved_by_bot (bot_clients B) (calls (est x)) owner repo n
    \<or> accepts (bot_actors B) (Suc (calls (est x))) (ApprovePr owner repo n c)"
  using assms
  by (auto simp: ensure_approved_def approved_by_bot_def Let_def case_prod_unfold send_if_def ask_result
      ask_calls send_result split: if_splits)

lemma lookup_adds: "lookup (ask f) x = (a, y) \<Longrightarrow> adds P x y"
  using bot_ask_pair [of f x a y] by (simp add: adds_def)

lemma fetch_adds: "fetch_pr B owner repo n x = (a, y) \<Longrightarrow> adds P x y"
  unfolding fetch_pr_def by (rule lookup_adds)

lemma remove_labels_adds:
  assumes "\<And>ls. P (RemoveLabelsByName owner repo n ls)"
  shows "adds P x (remove_janitor_labels B owner repo n x)"
proof -
  obtain a x1 where f: "fetch_pr B owner repo n x = (a, x1)" by (meson surj_pair)
  have x1: "adds P x x1" by (rule fetch_adds [OF f])
  show ?thesis
    using x1 adds_trans [OF x1 adds_send_if] assms by (simp add: remove_janitor_labels_def f split: option.split)
qed

lemma and_then_adds: "adds P x y \<Longrightarrow> P r \<Longrightarrow> P r' \<Longrightarrow>
    adds P x (snd (and_then (send X r y) (send X r')))"
  by (rule adds_trans, assumption, rule adds_and_then; rule adds_send)

lemma revert_adds:
  assumes "\<And>u sha m br tg. P (RevertAndPush u sha m br tg)" "\<And>t b br tg. P (CreatePullRequest owner repo t b br tg)"
  shows "adds P x (snd (revert_pr B owner repo n x))"
proof -
  obtain a x1 where f: "fetch_pr B owner repo n x = (a, x1)" by (meson surj_pair)
  obtain ts x2 where l: "lookup (ask (bo_unix_time B)) x1 = (ts, x2)" by (meson surj_pair)
  have x1: "adds P x x1" by (rule fetch_adds [OF f])
  have "adds P x x2" by (rule adds_trans [OF x1 lookup_adds [OF l]])
  from and_then_adds [OF this assms] show ?thesis
    using x1 by (simp add: revert_pr_def f l Let_def split: option.split)
qed

lemma matching_quiet: "explain_groups E ev r now gs x = Some (l, x') \<Longrightarrow> sent x' = sent x"
  by (induction gs arbitrary: x l) (auto dest!: matching_sent split: option.splits)

lemma explain_loop_quiet: "explain_loop E ev rules executed x = Some (ms, x') \<Longrightarrow> sent x' = sent x"
proof (induction rules arbitrary: executed x ms)
  case (Cons r rules)
  then show ?case
    by (auto simp: explain_action_runs_def Let_def case_prod_unfold dest!: match_rule_sent matching_quiet
        split: option.splits if_splits)
qed simp

lemma explain_pr_quiet: "explain_pr E ev w = Some (ms, w') \<Longrightarrow> sent (xst w') = sent (xst w)"
  by (auto simp: explain_pr_def explain_rules_def explain_rules_with_cache_def prefetched_def
      dest!: explain_loop_quiet split: option.splits)

section \<open>A bot\<close>

definition ex_bot :: bot where
  "ex_bot = \<lparr>bo_engine = (ex_engine [])\<lparr>en_rules := (ex_rules [])\<lparr>rf_repos :=
       [\<lparr>rp_repo = ''o/r'', rp_watched = True, rp_github_repo = None\<rparr>]\<rparr>\<rparr>,
     bo_base_url = ''https://git'', bo_unix_time = (\<lambda>t. 5), bo_error = (\<lambda>t. ''error'')\<rparr>"

definition ex_comment :: CommentEvent where
  "ex_comment = \<lparr>ce_owner = ''o'', ce_repo = ''r'', ce_pr_number = 7, ce_comment_id = 3, ce_author = FORGEJO_OWNER,
     ce_body = ''@janitor merge''\<rparr>"

section \<open>Texts\<close>



section \<open>Commands on pull requests\<close>

text \<open>The requests a command that runs no rule may send.\<close>

fun own_request :: "CommentEvent \<Rightarrow> Request \<Rightarrow> bool" where
  "own_request cmd (ReactToComment o' r i s) \<longleftrightarrow>
     o' = ce_owner cmd \<and> r = ce_repo cmd \<and> i = ce_comment_id cmd \<and> s = ''+1''"
| "own_request cmd (ApprovePr o' r n c) \<longleftrightarrow> o' = ce_owner cmd \<and> r = ce_repo cmd \<and> n = ce_pr_number cmd"
| "own_request cmd (MergePr o' r n st d) \<longleftrightarrow> o' = ce_owner cmd \<and> r = ce_repo cmd \<and> n = ce_pr_number cmd"
| "own_request cmd (CommentPr o' r n t) \<longleftrightarrow> o' = ce_owner cmd \<and> r = ce_repo cmd \<and> n = ce_pr_number cmd"
| "own_request cmd (SetPrState o' r n st) \<longleftrightarrow> o' = ce_owner cmd \<and> r = ce_repo cmd \<and> n = ce_pr_number cmd"
| "own_request cmd (AutofixPr o' r n m i) \<longleftrightarrow> o' = ce_owner cmd \<and> r = ce_repo cmd \<and> n = ce_pr_number cmd"
| "own_request cmd (EnsureLabels o' r ls) \<longleftrightarrow> o' = ce_owner cmd \<and> r = ce_repo cmd"
| "own_request cmd (AddLabelsByName o' r n ls) \<longleftrightarrow>
     o' = ce_owner cmd \<and> r = ce_repo cmd \<and> n = ce_pr_number cmd \<and> ls = [IGNORE_LABEL]"
| "own_request cmd (RemoveLabelsByName o' r n ls) \<longleftrightarrow> o' = ce_owner cmd \<and> r = ce_repo cmd \<and> n = ce_pr_number cmd"
| "own_request cmd (RevertAndPush u sha m br tg) \<longleftrightarrow> True"
| "own_request cmd (CreatePullRequest o' r t b br tg) \<longleftrightarrow> o' = ce_owner cmd \<and> r = ce_repo cmd"
| "own_request cmd _ \<longleftrightarrow> False"

fun runs_rules :: "PrCommand \<Rightarrow> bool" where
  "runs_rules (PcRunRule _) = True" | "runs_rules PcRecheck = True" | "runs_rules _ = False"

lemma ensure_then_adds:
  "P (ApprovePr owner repo n c) \<Longrightarrow> ensure_approved B owner repo n c x = (b, y) \<Longrightarrow> adds P x y"
  using ensure_approved_adds [of P owner repo n c x B] by simp

lemma handle_pr_command_start:
  "adds (own_request cmd) (xst w)
     (snd (send X (ReactToComment (ce_owner cmd) (ce_repo cmd) (ce_comment_id cmd) ''+1'') (xst w)))"
  by (rule adds_send) simp

lemma command_event_adds: "command_event B cmd w = (ev, w1) \<Longrightarrow> adds P (xst w) (xst w1)"
  by (auto simp: command_event_def split: prod.splits option.splits dest: fetch_adds)



fun is_merge :: "Request \<Rightarrow> bool" where
  "is_merge (MergePr _ _ _ _ _) = True" | "is_merge _ = False"

text \<open>
  C13: The merge command merges the pull request only after the bot's approval: the bot has approved
  it already or its approval was just accepted.
\<close>

theorem merge_commands_are_approved:
  assumes "handle_pr_command B cmd (PcMerge st) w = Some w'"
    and "MergePr owner repo n st' d \<in> set (drop (length (sent (xst w))) (sent (xst w')))"
  shows "owner = ce_owner cmd \<and> repo = ce_repo cmd \<and> n = ce_pr_number cmd \<and> st' = st
    \<and> (is_pr_approved_by_bot (bot_clients B) (calls (est (xst w)) + 1) owner repo n
       \<or> accepts (bot_actors B) (calls (est (xst w)) + 2) (ApprovePr owner repo n None))"
proof -
  let ?x = "snd (send (bot_actors B) (ReactToComment (ce_owner cmd) (ce_repo cmd) (ce_comment_id cmd) ''+1'') (xst w))"
  let ?P = "\<lambda>r. \<not> is_merge r"
  obtain b x1 where e: "ensure_approved B (ce_owner cmd) (ce_repo cmd) (ce_pr_number cmd) None ?x = (b, x1)"
    by (meson surj_pair)
  have "adds ?P (xst w) ?x" by (rule adds_send) simp
  moreover have "adds ?P ?x x1" by (rule ensure_then_adds [OF _ e]) simp
  ultimately have x1: "adds ?P (xst w) x1" by (rule adds_trans)
  have b
  proof (rule ccontr)
    assume "\<not> b"
    then have "xst w' = x1" using assms(1) e by (auto simp: handle_pr_command_def Let_def)
    then show False using assms(2) x1 by (fastforce simp: adds_def list_all_iff)
  qed
  let ?y = "remove_janitor_labels B (ce_owner cmd) (ce_repo cmd) (ce_pr_number cmd) x1"
  have "adds ?P x1 ?y" by (rule remove_labels_adds) simp
  with x1 have "adds ?P (xst w) ?y" by (rule adds_trans)
  then obtain rs where rs: "sent ?y = sent (xst w) @ rs" "list_all ?P rs" by (auto simp: adds_def)
  have "sent (xst w') = sent ?y @ [MergePr (ce_owner cmd) (ce_repo cmd) (ce_pr_number cmd) st True]"
    using assms(1) e \<open>b\<close> by (auto simp: handle_pr_command_def Let_def send_effect)
  then have "MergePr owner repo n st' d = MergePr (ce_owner cmd) (ce_repo cmd) (ce_pr_number cmd) st True"
    using assms(2) rs by (auto simp: list_all_iff)
  then show ?thesis
    using ensure_approved_true [of B "ce_owner cmd" "ce_repo cmd" "ce_pr_number cmd" None ?x] e \<open>b\<close>
    by (simp add: send_effect)
qed

lemma ex_merge:
  "map_option (\<lambda>w. MergePr ''o'' ''r'' 7 DoSquash True \<in> set (drop (length (sent (xst ex_state))) (sent (xst w))))
     (handle_pr_command ex_bot ex_comment (PcMerge DoSquash) ex_state) = Some True"
  by code_simp

theorem merge_commands_are_approved_witness:
  "is_pr_approved_by_bot (bot_clients ex_bot) 1 ''o'' ''r'' 7
    \<or> accepts (bot_actors ex_bot) 2 (ApprovePr ''o'' ''r'' 7 None)"
proof -
  obtain w' where "handle_pr_command ex_bot ex_comment (PcMerge DoSquash) ex_state = Some w'"
    "MergePr ''o'' ''r'' 7 DoSquash True \<in> set (drop (length (sent (xst ex_state))) (sent (xst w')))"
    using ex_merge by auto
  from merge_commands_are_approved [OF this] show ?thesis
    by (simp add: ex_state_def ex_comment_def cache_new_def numeral_2_eq_2)
qed

section \<open>The merge queue\<close>

text \<open>What the queue may send for the pull requests that were listed as open.\<close>

definition queue_request :: "bot \<Rightarrow> Request \<Rightarrow> bool" where
  "queue_request B r =
     (case r of
        MergePr owner repo n st d \<Rightarrow> st = DoSquash \<and> d
          \<and> (owner, repo) \<in> set (watch_repos (en_rules (bo_engine B)))
          \<and> (\<exists>t prs pr. list_open_prs (bot_clients B) t owner repo = Some prs \<and> pr \<in> set prs
               \<and> ap_number pr = Some n \<and> has_queued pr)
          \<and> (\<exists>t. is_pr_approved_by_bot (bot_clients B) t owner repo n
               \<or> accepts (bot_actors B) t (ApprovePr owner repo n (Some ''Auto-approved via /admin/merge-queued'')))
      | _ \<Rightarrow> True)"

lemma merge_queued_adds:
  assumes "(owner, repo) \<in> set (watch_repos (en_rules (bo_engine B)))"
    and "list_open_prs (bot_clients B) t owner repo = Some prs" "pr \<in> set prs"
  shows "adds (queue_request B) x (merge_queued B owner repo pr x)"
proof (cases "ap_number pr")
  case (Some n)
  let ?c = "Some ''Auto-approved via /admin/merge-queued''"
  have approve: "adds (queue_request B) x (snd (ensure_approved B owner repo n ?c x))"
    by (rule ensure_approved_adds) (simp add: queue_request_def)
  show ?thesis
  proof (cases "has_queued pr \<and> fst (ensure_approved B owner repo n ?c x)")
    case True
    then have ok: "queue_request B (MergePr owner repo n DoSquash True)"
      using assms Some ensure_approved_true [of B owner repo n ?c x] by (auto simp: queue_request_def)
    have rest: "adds (queue_request B) (snd (ensure_approved B owner repo n ?c x))
        (snd (and_then (send (bot_actors B) (MergePr owner repo n DoSquash True)
               (snd (ensure_approved B owner repo n ?c x)))
             (send (bot_actors B) (RemoveLabelsByName owner repo n [QUEUED_LABEL]))))"
      using ok queue_request_def [of B "RemoveLabelsByName owner repo n [QUEUED_LABEL]"]
      by (intro and_then_adds [where P = "queue_request B"] adds_refl) (simp_all only: Request.case)
    show ?thesis
      using adds_trans [OF approve rest] True Some by (simp add: merge_queued_def and_then_def [of "ensure_approved _ _ _ _ _ _"])
  next
    case False
    then show ?thesis using approve Some by (auto simp: merge_queued_def and_then_def)
  qed
qed (simp add: merge_queued_def)

lemma merge_queued_prs_adds:
  "(owner, repo) \<in> set (watch_repos (en_rules (bo_engine B))) \<Longrightarrow>
     list_open_prs (bot_clients B) t owner repo = Some prs \<Longrightarrow> set ps \<subseteq> set prs \<Longrightarrow>
     adds (queue_request B) x (foldl (\<lambda>x pr. merge_queued B owner repo pr x) x ps)"
  by (induction ps arbitrary: x) (auto intro: adds_trans merge_queued_adds)

lemma merge_queued_repos_adds:
  "set rs \<subseteq> set (watch_repos (en_rules (bo_engine B))) \<Longrightarrow> adds (queue_request B) x (merge_queued_repos B rs x)"
proof (induction rs arbitrary: x)
  case (Cons r rs)
  obtain owner repo where r: "r = (owner, repo)" by (cases r)
  obtain a x1 where o: "open_prs B owner repo x = (a, x1)" by (meson surj_pair)
  then have a: "a = list_open_prs (bot_clients B) (calls (est x)) owner repo" "adds (queue_request B) x x1"
    using bot_ask_pair [OF o [unfolded open_prs_def]] lookup_adds [OF o [unfolded open_prs_def]] by simp_all
  have fold: "adds (queue_request B) x1 (foldl (\<lambda>x pr. merge_queued B owner repo pr x) x1 prs)" if "a = Some prs" for prs
    using merge_queued_prs_adds [of owner repo B "calls (est x)" prs prs x1] that a(1) Cons.prems r by simp
  show ?case
  proof (cases a)
    case None
    then show ?thesis using Cons.IH [of x1] Cons.prems adds_trans [OF a(2)] by (simp add: r o)
  next
    case (Some prs)
    let ?y = "foldl (\<lambda>x pr. merge_queued B owner repo pr x) x1 prs"
    have "adds (queue_request B) ?y (merge_queued_repos B rs ?y)" using Cons.IH Cons.prems by simp
    then show ?thesis
      using adds_trans [OF a(2) adds_trans [OF fold [OF Some]]] Some by (simp add: r o)
  qed
qed simp

text \<open>
  The merge queue squashes and deletes only open pull requests of watched repositories that
  carry the label \<open>janitor/queued\<close>, and only once the bot has approved them.
\<close>

theorem queue_merges_only_approved:
  assumes "MergePr owner repo n st d \<in> set (drop (length (sent x)) (sent (run_admin_merge_queued B x)))"
  shows "st = DoSquash \<and> d \<and> (owner, repo) \<in> set (watch_repos (en_rules (bo_engine B)))
    \<and> (\<exists>t prs pr. list_open_prs (bot_clients B) t owner repo = Some prs \<and> pr \<in> set prs
         \<and> ap_number pr = Some n \<and> has_queued pr)
    \<and> (\<exists>t. is_pr_approved_by_bot (bot_clients B) t owner repo n
         \<or> accepts (bot_actors B) t (ApprovePr owner repo n (Some ''Auto-approved via /admin/merge-queued'')))"
proof -
  have "adds (queue_request B) x (run_admin_merge_queued B x)"
    unfolding run_admin_merge_queued_def by (rule merge_queued_repos_adds) simp
  then obtain rs where "sent (run_admin_merge_queued B x) = sent x @ rs" "list_all (queue_request B) rs"
    by (auto simp: adds_def)
  with assms have "queue_request B (MergePr owner repo n st d)" by (auto simp: list_all_iff)
  then show ?thesis by (simp add: queue_request_def)
qed

definition ex_queue_bot :: bot where
  "ex_queue_bot = ex_bot\<lparr>bo_engine := (bo_engine ex_bot)\<lparr>en_clients := ex_clients\<lparr>list_open_prs := (\<lambda>t owner repo.
     Some [(ex_api_pr 4 10)\<lparr>ap_labels := [\<lparr>al_id = Some 1, al_name = Some QUEUED_LABEL\<rparr>]\<rparr>])\<rparr>\<rparr>\<rparr>"

theorem queue_merges_only_approved_witness:
  "\<exists>t. is_pr_approved_by_bot (bot_clients ex_queue_bot) t ''o'' ''r'' 4
     \<or> accepts (bot_actors ex_queue_bot) t (ApprovePr ''o'' ''r'' 4 (Some ''Auto-approved via /admin/merge-queued''))"
proof -
  have "MergePr ''o'' ''r'' 4 DoSquash True \<in> set (drop (length (sent (xst ex_state)))
      (sent (run_admin_merge_queued ex_queue_bot (xst ex_state))))"
    by code_simp
  from queue_merges_only_approved [OF this] show ?thesis by blast
qed

section \<open>Webhooks\<close>

text \<open>
  C23: A Forgejo webhook starts a task only when it carries the secret; it runs a command only for a
  comment that was just created by the owner and parses to that command; otherwise it evaluates the
  pull request of the event. Nothing else is started.
\<close>

theorem only_owner_commands_run:
  assumes "handle_forgejo_webhook secret headers ev = (status, Some task)"
  shows "status = 200 \<and> header_text headers ''authorization'' = secret
    \<and> (case task of
         RunPrCommand cmd c \<Rightarrow> wh_action ev = ''created'' \<and> wh_sender ev = Some FORGEJO_OWNER
           \<and> into_comment_event ev = Some cmd \<and> parse_pr_command (ce_body cmd) = Some c
       | RunIssueCommand cmd c \<Rightarrow> wh_action ev = ''created'' \<and> wh_sender ev = Some FORGEJO_OWNER
           \<and> into_issue_comment_event ev = Some cmd \<and> parse_issue_command (ie_comment_body cmd) = Some c
       | EvaluatePr pr \<Rightarrow> header_text headers ''x-forgejo-event'' = ''pull_request'' \<and> into_pr_event ev = Some pr
       | _ \<Rightarrow> False)"
proof -
  have senders: "into_comment_event ev = Some cmd \<Longrightarrow> wh_sender ev = Some (ce_author cmd)"
    "into_issue_comment_event ev = Some icmd \<Longrightarrow> wh_sender ev = Some (ie_author icmd)" for cmd icmd
    by (auto simp: into_comment_event_def into_issue_comment_event_def split: option.splits prod.splits)
  show ?thesis
    using assms senders
    by (auto simp: handle_forgejo_webhook_def Let_def split: if_splits option.splits)
qed

definition ex_webhook :: WebhookEvent where
  "ex_webhook = \<lparr>wh_action = ''created'', wh_pull_request = None,
     wh_issue = Some \<lparr>i_number = 7, i_body = None, i_labels = []\<rparr>,
     wh_comment = Some \<lparr>k_id = 3, k_body = ''@janitor merge''\<rparr>, wh_sender = Some FORGEJO_OWNER,
     wh_repository = Some ''o/r''\<rparr>"

theorem only_owner_commands_run_witness:
  "handle_forgejo_webhook ''s''
     [(''authorization'', ''s''), (''x-forgejo-event'', ''issue_comment''), (''x-forgejo-event-type'', ''pull_request_comment'')]
     ex_webhook = (200, Some (RunPrCommand ex_comment (PcMerge DoSquash)))
   \<and> wh_sender ex_webhook = Some FORGEJO_OWNER"
proof -
  have run: "handle_forgejo_webhook ''s''
     [(''authorization'', ''s''), (''x-forgejo-event'', ''issue_comment''), (''x-forgejo-event-type'', ''pull_request_comment'')]
     ex_webhook = (200, Some (RunPrCommand ex_comment (PcMerge DoSquash)))"
    by code_simp
  from only_owner_commands_run [OF run] show ?thesis using run by simp
qed

text \<open>
  \<open>main.rs\<close> takes an unset \<open>ARGOCD_WEBHOOK_SECRET\<close> as the empty string, which is also what a request
  without an \<open>Authorization\<close> header carries: such a request is then accepted.
\<close>

lemma unset_secret_accepts_anyone:
  "sy_sha ev \<noteq> [] \<Longrightarrow> handle_argocd_webhook [] [] ev = (200, Some (EvaluateArgocdSync ev))"
  by (simp add: handle_argocd_webhook_def header_text_def opt_default_def)

text \<open>Hexadecimal digits.\<close>

lemma byte_char_of: "n < 256 \<Longrightarrow> byte (char_of n) = n"
  by (simp add: byte_def)

lemma byte_less: "byte c < 256"
  by (simp add: byte_def)

lemma byte_eq: "byte c = byte d \<longleftrightarrow> c = d"
  by (simp add: byte_def)

lemma byte_lower: "byte (ascii_lower c) = (if 65 \<le> byte c \<and> byte c \<le> 90 then byte c + 32 else byte c)"
  using byte_less [of c] by (simp add: ascii_lower_def byte_def Let_def)

lemma hex_digit_char: "hex_digit c = Some n \<longleftrightarrow> n < 16 \<and> ascii_lower c = hex_char n"
proof (cases "n < 16")
  case True
  then have "byte (hex_char n) = (if n < 10 then 48 + n else 87 + n)"
    by (simp add: hex_char_def byte_char_of)
  then show ?thesis
    using True by (auto simp: hex_digit_def Let_def byte_lower byte_eq [symmetric])
qed (auto simp: hex_digit_def Let_def split: if_splits)

lemma nibbles:
  assumes "h < 16" "l < 16"
  shows "(of_nat (16 * h + l) :: u8) = b \<longleftrightarrow> h = unat b div 16 \<and> l = unat b mod 16"
proof -
  have "unat (of_nat (16 * h + l) :: u8) = 16 * h + l"
    using assms by (subst unat_of_nat) simp
  then have "(of_nat (16 * h + l) :: u8) = b \<longleftrightarrow> 16 * h + l = unat b" by (metis word_unat_eq_iff)
  also have "\<dots> \<longleftrightarrow> h = unat b div 16 \<and> l = unat b mod 16"
  proof
    assume "16 * h + l = unat b"
    from this [symmetric] show "h = unat b div 16 \<and> l = unat b mod 16" using assms(2) by simp
  qed simp
  finally show ?thesis .
qed

lemma hex_decode_encode: "hex_decode s = Some bs \<longleftrightarrow> map ascii_lower s = hex_encode bs"
proof (induction s arbitrary: bs rule: hex_decode.induct)
  case 1
  then show ?case by (cases bs) (auto simp: hex_encode_def)
next
  case (2 c)
  then show ?case by (cases bs) (auto simp: hex_encode_def)
next
  case (3 c d cs)
  show ?case
  proof (cases bs)
    case Nil
    then show ?thesis by (auto simp: hex_encode_def split: option.splits)
  next
    case (Cons b bs')
    have b: "unat b div 16 < 16" "unat b mod 16 < 16" using unsigned_less [of b, where ?'a = nat] by auto
    have "hex_digit c = Some h \<Longrightarrow> h < 16" "hex_digit d = Some l \<Longrightarrow> l < 16" for h l
      by (simp_all add: hex_digit_char)
    then have "(\<exists>h l. hex_digit c = Some h \<and> hex_digit d = Some l \<and> (of_nat (16 * h + l) :: u8) = b)
        \<longleftrightarrow> hex_digit c = Some (unat b div 16) \<and> hex_digit d = Some (unat b mod 16)"
      using nibbles b by metis
    moreover have "hex_decode (c # d # cs) = Some (b # bs') \<longleftrightarrow>
        (\<exists>h l. hex_digit c = Some h \<and> hex_digit d = Some l \<and> (of_nat (16 * h + l) :: u8) = b) \<and> hex_decode cs = Some bs'"
      by (auto split: option.splits)
    ultimately show ?thesis
      using 3 [of bs'] b by (simp add: Cons hex_digit_char) (auto simp: hex_encode_def)
  qed
qed

lemma hex_char_lower: "n < 16 \<Longrightarrow> ascii_lower (hex_char n) = hex_char n"
  by (simp add: byte_eq [symmetric] byte_lower hex_char_def byte_char_of)

lemma hex_encode_lower: "map ascii_lower (hex_encode bs) = hex_encode bs"
proof (induction bs)
  case (Cons b bs)
  have "unat b div 16 < 16" "unat b mod 16 < 16" using unsigned_less [of b, where ?'a = nat] by auto
  then show ?case using Cons by (simp add: hex_encode_def hex_char_lower)
qed (simp add: hex_encode_def)

lemma hex_encode_inj: "hex_encode bs = hex_encode cs \<longleftrightarrow> bs = cs"
  using hex_decode_encode [of "hex_encode bs"] by (metis hex_encode_lower option.inject)

text \<open>
  A signature is accepted exactly when it is \<open>sha256=\<close> followed by the hexadecimal digits of the
  MAC of the body, in either case; so what \<open>sign_payload\<close> makes is accepted, and only for the bodies
  and secrets that share its MAC.
\<close>

theorem signatures_verify_exactly:
  "(verify_signature hmac secret signature body \<longleftrightarrow>
      (\<exists>h. signature = ''sha256='' @ h \<and> map ascii_lower h = hex_encode (hmac secret body)))
   \<and> verify_signature hmac secret (sign_payload hmac secret' body') body
       = (hmac secret body = hmac secret' body')"
proof -
  have prefix: "strip_prefix ''sha256='' signature = Some h \<longleftrightarrow> signature = ''sha256='' @ h" for signature h
    by (auto simp: strip_prefix_def starts_with_iff)
  have char: "verify_signature hmac secret sig body \<longleftrightarrow>
      (\<exists>h. sig = ''sha256='' @ h \<and> map ascii_lower h = hex_encode (hmac secret body))" for sig
  proof -
    have "verify_signature hmac secret sig body \<longleftrightarrow>
        (\<exists>h bs. strip_prefix ''sha256='' sig = Some h \<and> hex_decode h = Some bs \<and> hmac secret body = bs)"
      by (auto simp: verify_signature_def split: option.split)
    then show ?thesis unfolding prefix hex_decode_encode by blast
  qed
  show ?thesis
    unfolding char sign_payload_def
    by (auto simp: hex_encode_lower hex_encode_inj)
qed

section \<open>Commands on issues\<close>

lemma retried_run:
  assumes "RerunWorkflow owner repo run_id \<in> set (drop (length (sent x)) (sent (handle_issue_command B ev c x)))"
  obtains metadata where "c = IcRetryWorkflow" "''github-ci-failure'' \<in> set (ie_issue_labels ev)"
    "extract_metadata_json (texts (bot_clients B)) (ie_issue_body ev) = Some metadata"
    "as_u64 (json_field ''run_id'' metadata) = Some run_id"
    "repo_of_url (json_field ''html_url'' metadata) = Some (owner, repo)"
  using assms
  by (cases c) (auto simp: handle_issue_command_def retry_workflow_def and_then_def send_effect Let_def
      dest!: send_sent split: if_splits option.splits prod.splits bool.splits)

text \<open>
  A workflow is run again only for an issue labelled \<open>github-ci-failure\<close>, and it is the run that the
  metadata in the issue's body names: its id, and the repository of its URL.
\<close>

theorem retries_the_described_run:
  assumes "RerunWorkflow owner repo run_id \<in> set (drop (length (sent x)) (sent (handle_issue_command B ev c x)))"
  shows "c = IcRetryWorkflow \<and> ''github-ci-failure'' \<in> set (ie_issue_labels ev)
    \<and> (\<exists>metadata rest. extract_metadata_json (texts (bot_clients B)) (ie_issue_body ev) = Some metadata
         \<and> as_u64 (json_field ''run_id'' metadata) = Some run_id
         \<and> json_field ''html_url'' metadata = JString (''https://github.com/'' @ owner @ ''/'' @ repo @ rest)
         \<and> CHR ''/'' \<notin> set owner \<and> CHR ''/'' \<notin> set repo \<and> (rest = [] \<or> hd rest = CHR ''/''))"
proof -
  have url: "repo_of_url v = Some (o', r') \<Longrightarrow> \<exists>rest. v = JString (''https://github.com/'' @ o' @ ''/'' @ r' @ rest)
      \<and> CHR ''/'' \<notin> set o' \<and> CHR ''/'' \<notin> set r' \<and> (rest = [] \<or> hd rest = CHR ''/'')" for v o' r'
    by (force simp: repo_of_url_def strip_prefix_def starts_with_iff split_once_Some split_once_None
        split: json.splits option.splits if_splits)
  obtain metadata where m: "c = IcRetryWorkflow" "''github-ci-failure'' \<in> set (ie_issue_labels ev)"
      "extract_metadata_json (texts (bot_clients B)) (ie_issue_body ev) = Some metadata"
      "as_u64 (json_field ''run_id'' metadata) = Some run_id"
      "repo_of_url (json_field ''html_url'' metadata) = Some (owner, repo)"
    using assms by (rule retried_run)
  from url [OF m(5)] m(1-4) show ?thesis by auto
qed

definition ex_retry_bot :: bot where
  "ex_retry_bot = ex_bot\<lparr>bo_engine := (bo_engine ex_bot)\<lparr>en_clients := ex_clients\<lparr>texts := ex_texts\<lparr>json_from_str :=
     (\<lambda>s. Some (JObject [(''html_url'', JString ''https://github.com/o/r/runs/12''), (''run_id'', JNumber (PosInt 12))]))\<rparr>\<rparr>\<rparr>\<rparr>"

definition ex_failure :: IssueCommentEvent where
  "ex_failure = \<lparr>ie_owner = ''a'', ie_repo = ''b'', ie_issue_number = 2, ie_comment_id = 3, ie_author = FORGEJO_OWNER,
     ie_comment_body = ''@janitor retry'', ie_issue_body = ''<!-- {} -->'', ie_issue_labels = [''github-ci-failure'']\<rparr>"

theorem retries_the_described_run_witness:
  "\<exists>rest. JString ''https://github.com/o/r/runs/12'' = JString (''https://github.com/'' @ ''o'' @ ''/'' @ ''r'' @ rest)"
proof -
  have sends: "RerunWorkflow ''o'' ''r'' 12 \<in> set (drop (length (sent (xst ex_state)))
      (sent (handle_issue_command ex_retry_bot ex_failure IcRetryWorkflow (xst ex_state))))"
    by code_simp
  have meta: "map_option (json_field ''html_url'') (extract_metadata_json (texts (bot_clients ex_retry_bot)) (ie_issue_body ex_failure))
      = Some (JString ''https://github.com/o/r/runs/12'')"
    by code_simp
  from retries_the_described_run [OF sends] meta show ?thesis by auto
qed

end
