(* ===== verification/Reconcile.thy ===== *)
theory Reconcile
  imports Text
begin

text \<open>
  What the Kubernetes controllers \<open>platform-services/kanidm-sync\<close> and
  \<open>platform-services/pg-db-controller\<close> share, and the bot's clients use: steps. A controller asks its servers and sends them requests; a
  server answers by a function of the world so far, that is of the calls made and the requests
  sent, so it may change between any two calls. A step fails with an error or returns a value, and
  leaves the world it has reached either way. Below the steps: \<open>metav1.Condition\<close> and the status that
  both controllers write.
\<close>

section \<open>Steps\<close>

record 'r world =
  wd_calls :: nat
  wd_sent :: "'r list"

type_synonym ('r, 'e, 'a) io = "'r world \<Rightarrow> ('e, 'a) result \<times> 'r world"

definition ret :: "'a \<Rightarrow> ('r, 'e, 'a) io" where
  "ret x w = (Ok x, w)"

definition throw :: "'e \<Rightarrow> ('r, 'e, 'a) io" where
  "throw e w = (Err e, w)"

definition of_result :: "('e, 'a) result \<Rightarrow> ('r, 'e, 'a) io" where
  "of_result r w = (r, w)"

text \<open>\<open>?\<close> after a step.\<close>

definition bind_io :: "('r, 'e, 'a) io \<Rightarrow> ('a \<Rightarrow> ('r, 'e, 'b) io) \<Rightarrow> ('r, 'e, 'b) io" where
  "bind_io m f w = (case m w of (Err e, w1) \<Rightarrow> (Err e, w1) | (Ok x, w1) \<Rightarrow> f x w1)"

definition then_io :: "('r, 'e, unit) io \<Rightarrow> ('r, 'e, 'b) io \<Rightarrow> ('r, 'e, 'b) io" where
  "then_io m k = bind_io m (\<lambda>_. k)"

fun each_io :: "('x \<Rightarrow> ('r, 'e, unit) io) \<Rightarrow> 'x list \<Rightarrow> ('r, 'e, unit) io" where
  "each_io f [] = ret ()"
| "each_io f (x # xs) = then_io (f x) (each_io f xs)"

text \<open>The result of a step as a value: \<open>if let Err(e) = \<dots>\<close>.\<close>

definition try_io :: "('r, 'e, 'a) io \<Rightarrow> ('r, 'f, ('e, 'a) result) io" where
  "try_io m w = (case m w of (r, w1) \<Rightarrow> (Ok r, w1))"

definition ask_io :: "('r world \<Rightarrow> ('e, 'a) result) \<Rightarrow> ('r, 'e, 'a) io" where
  "ask_io f w = (f w, w\<lparr>wd_calls := Suc (wd_calls w)\<rparr>)"

definition send_io :: "('r world \<Rightarrow> 'r \<Rightarrow> ('e, unit) result) \<Rightarrow> 'r \<Rightarrow> ('r, 'e, unit) io" where
  "send_io f r w = (f w r, w\<lparr>wd_calls := Suc (wd_calls w), wd_sent := wd_sent w @ [r]\<rparr>)"

definition when_io :: "bool \<Rightarrow> ('r, 'e, unit) io \<Rightarrow> ('r, 'e, unit) io" where
  "when_io b m = (if b then m else ret ())"

text \<open>\<open>map_err\<close>, and the conversion of an error by \<open>?\<close>.\<close>

definition err_as :: "('e \<Rightarrow> 'f) \<Rightarrow> ('e, 'a) result \<Rightarrow> ('f, 'a) result" where
  "err_as f r = (case r of Err e \<Rightarrow> Err (f e) | Ok x \<Rightarrow> Ok x)"

lemma err_as_Ok [simp]: "err_as f r = Ok x \<longleftrightarrow> r = Ok x"
  by (simp add: err_as_def split: sum.split)

section \<open>What a step has done when it returns\<close>

named_theorems io_simps \<open>what a step that returns a value has done\<close>

lemma ret_Ok [io_simps]: "ret x w = (Ok y, w') \<longleftrightarrow> y = x \<and> w' = w"
  by (auto simp: ret_def)

lemma throw_Ok [io_simps]: "throw e w = (Ok y, w') \<longleftrightarrow> False"
  by (simp add: throw_def)

lemma of_result_Ok [io_simps]: "of_result r w = (Ok y, w') \<longleftrightarrow> r = Ok y \<and> w' = w"
  by (auto simp: of_result_def)

lemma bind_Ok [io_simps]: "bind_io m f w = (Ok y, w') \<longleftrightarrow> (\<exists>x w1. m w = (Ok x, w1) \<and> f x w1 = (Ok y, w'))"
  by (auto simp: bind_io_def split: prod.splits sum.splits)

lemma then_Ok [io_simps]: "then_io m k w = (Ok y, w') \<longleftrightarrow> (\<exists>w1. m w = (Ok (), w1) \<and> k w1 = (Ok y, w'))"
  by (simp add: then_io_def bind_Ok)

lemma try_Ok [io_simps]: "try_io m w = (Ok r, w') \<longleftrightarrow> m w = (r, w')"
  by (auto simp: try_io_def split: prod.splits)

lemma ask_Ok [io_simps]: "ask_io f w = (Ok y, w') \<longleftrightarrow> f w = Ok y \<and> w' = w\<lparr>wd_calls := Suc (wd_calls w)\<rparr>"
  by (auto simp: ask_io_def)

lemma send_Ok [io_simps]:
  "send_io f r w = (Ok y, w') \<longleftrightarrow> f w r = Ok () \<and> w' = w\<lparr>wd_calls := Suc (wd_calls w), wd_sent := wd_sent w @ [r]\<rparr>"
  by (auto simp: send_io_def)

lemma when_Ok [io_simps]: "when_io b m w = (Ok y, w') \<longleftrightarrow> (if b then m w = (Ok y, w') else w' = w)"
  by (auto simp: when_io_def ret_def)

lemma each_sent:
  assumes "\<And>x w w'. f x w = (Ok (), w') \<Longrightarrow> wd_sent w' = wd_sent w @ g x"
  shows "each_io f xs w = (Ok (), w') \<Longrightarrow> wd_sent w' = wd_sent w @ concat (map g xs)"
proof (induction xs arbitrary: w)
  case (Cons x xs)
  then obtain w1 where "f x w = (Ok (), w1)" "each_io f xs w1 = (Ok (), w')" by (auto simp: io_simps)
  then show ?case using assms [of x w w1] Cons.IH [of w1] by simp
qed (simp add: io_simps)

lemma each_send_sent: "each_io (\<lambda>x. send_io f (g x)) xs w = (Ok (), w') \<Longrightarrow> wd_sent w' = wd_sent w @ map g xs"
  using each_sent [of "\<lambda>x. send_io f (g x)" "\<lambda>x. [g x]"] by (simp add: io_simps concat_map_singleton)

text \<open>Whether it returns or fails, a step only adds requests that satisfy \<open>P\<close>.\<close>

definition only :: "('r \<Rightarrow> bool) \<Rightarrow> ('r, 'e, 'a) io \<Rightarrow> bool" where
  "only P m \<longleftrightarrow> (\<forall>w. \<exists>rs. wd_sent (snd (m w)) = wd_sent w @ rs \<and> list_all P rs)"

named_theorems only_intros \<open>steps that only send certain requests\<close>

lemma only_ret [only_intros]: "only P (ret x)"
  by (simp add: only_def ret_def)

lemma only_throw [only_intros]: "only P (throw e)"
  by (simp add: only_def throw_def)

lemma only_of_result [only_intros]: "only P (of_result r)"
  by (simp add: only_def of_result_def)

lemma only_ask [only_intros]: "only P (ask_io f)"
  by (simp add: only_def ask_io_def)

lemma only_send [only_intros]: "P r \<Longrightarrow> only P (send_io f r)"
  by (simp add: only_def send_io_def)

lemma only_bind [only_intros]:
  assumes "only P m" and "\<And>x. only P (f x)"
  shows "only P (bind_io m f)"
  unfolding only_def
proof
  fix w
  obtain rs where rs: "wd_sent (snd (m w)) = wd_sent w @ rs" "list_all P rs" using assms(1) by (auto simp: only_def)
  show "\<exists>rs. wd_sent (snd (bind_io m f w)) = wd_sent w @ rs \<and> list_all P rs"
  proof (cases "fst (m w)")
    case (Inl e)
    then show ?thesis using rs by (auto simp: bind_io_def split: prod.splits)
  next
    case (Inr x)
    obtain qs where "wd_sent (snd (f x (snd (m w)))) = wd_sent (snd (m w)) @ qs" "list_all P qs"
      using assms(2) [of x] by (auto simp: only_def)
    then show ?thesis using rs Inr by (auto simp: bind_io_def split: prod.splits intro!: exI [of _ "rs @ qs"])
  qed
qed

lemma only_then [only_intros]: "only P m \<Longrightarrow> only P k \<Longrightarrow> only P (then_io m k)"
  unfolding then_io_def by (rule only_bind)

lemma only_each [only_intros]: "(\<And>x. x \<in> set xs \<Longrightarrow> only P (f x)) \<Longrightarrow> only P (each_io f xs)"
  by (induction xs) (auto intro: only_intros)

lemma only_when [only_intros]: "(b \<Longrightarrow> only P m) \<Longrightarrow> only P (when_io b m)"
  by (simp add: when_io_def only_ret)

lemma only_try [only_intros]: "only P m \<Longrightarrow> only P (try_io m)"
  by (simp add: only_def try_io_def case_prod_unfold)

lemma only_option [only_intros]:
  "(x = None \<Longrightarrow> only P m) \<Longrightarrow> (\<And>y. x = Some y \<Longrightarrow> only P (f y)) \<Longrightarrow> only P (case x of None \<Rightarrow> m | Some y \<Rightarrow> f y)"
  by (cases x) simp_all

lemma only_if [only_intros]: "(b \<Longrightarrow> only P m) \<Longrightarrow> (\<not> b \<Longrightarrow> only P k) \<Longrightarrow> only P (if b then m else k)"
  by simp

lemma only_let [only_intros]: "only P (f x) \<Longrightarrow> only P (Let x f)"
  by simp

lemma only_mono: "only P m \<Longrightarrow> (\<And>r. P r \<Longrightarrow> Q r) \<Longrightarrow> only Q m"
  unfolding only_def by (metis list_all_iff)

lemma only_sent: "only P m \<Longrightarrow> m w = (r, w') \<Longrightarrow> \<exists>rs. wd_sent w' = wd_sent w @ rs \<and> list_all P rs"
  by (metis only_def snd_conv)

section \<open>Conditions\<close>

datatype KubeError = KubeApi nat string | KubeOther string

fun kube_text :: "KubeError \<Rightarrow> string" where
  "kube_text (KubeApi code m) = m"
| "kube_text (KubeOther m) = m"

record Meta =
  mt_name :: string
  mt_namespace :: "string option"
  mt_generation :: "i64 option"

record Condition =
  cn_type :: string
  cn_status :: string
  cn_reason :: string
  cn_message :: string
  cn_observed_generation :: i64
  cn_last_transition_time :: string

definition condition ::
  "Condition list option \<Rightarrow> string \<Rightarrow> string \<Rightarrow> string \<Rightarrow> string \<Rightarrow> i64 \<Rightarrow> string \<Rightarrow> Condition" where
  "condition existing ctype status reason message observed_generation now =
     \<lparr>cn_type = ctype, cn_status = status, cn_reason = reason, cn_message = message,
      cn_observed_generation = observed_generation,
      cn_last_transition_time =
        (case Option.bind existing (List.find (\<lambda>c. cn_type c = ctype)) of
           Some c \<Rightarrow> if cn_status c = status then cn_last_transition_time c else now
         | None \<Rightarrow> now)\<rparr>"

text \<open>The conditions of \<open>write_status\<close>: \<open>accepted\<close> is the validation, \<open>failure\<close> the text of the
  error of the provisioning, \<open>now\<close> and \<open>now'\<close> the clock at the two conditions.\<close>

definition status_conditions ::
  "string \<Rightarrow> string \<Rightarrow> Condition list option \<Rightarrow> i64 option \<Rightarrow> (string, unit) result \<Rightarrow> string option
     \<Rightarrow> string \<Rightarrow> string \<Rightarrow> Condition list" where
  "status_conditions kind programmed_ok existing generation accepted failure now now' =
     (let gen = (case generation of Some g \<Rightarrow> g | None \<Rightarrow> 0);
          (a_status, a_reason, a_message) =
            (case accepted of
               Ok _ \<Rightarrow> (''True'', ''Accepted'', kind @ '' has been accepted'')
             | Err m \<Rightarrow> (''False'', ''InvalidSpec'', m));
          (p_status, p_reason, p_message) =
            (case accepted of
               Err _ \<Rightarrow> (''False'', ''NotAccepted'', ''spec validation failed'')
             | Ok _ \<Rightarrow>
                 (case failure of
                    None \<Rightarrow> (''True'', ''Programmed'', programmed_ok)
                  | Some e \<Rightarrow> (''False'', ''ReconcileFailed'', e)))
      in [condition existing ''Accepted'' a_status a_reason a_message gen now,
          condition existing ''Programmed'' p_status p_reason p_message gen now'])"

lemma status_conditions_types [simp]:
  "map cn_type (status_conditions kind ok ex gen acc fail now now') = [''Accepted'', ''Programmed'']"
  by (simp add: status_conditions_def condition_def Let_def split: sum.split option.split)

lemma status_conditions_status:
  "map cn_status (status_conditions kind ok ex gen acc fail now now') =
     [if is_ok acc then ''True'' else ''False'', if is_ok acc \<and> fail = None then ''True'' else ''False'']"
  by (cases acc; cases fail) (simp_all add: status_conditions_def condition_def Let_def is_ok_def)

text \<open>The transition time moves exactly when the status of the condition does.\<close>

lemma transition_time_kept:
  assumes "old \<in> set conds" "distinct (map cn_type conds)" "cn_type old = ctype"
  shows "cn_last_transition_time (condition (Some conds) ctype status reason message gen now)
    = (if cn_status old = status then cn_last_transition_time old else now)"
proof -
  have "List.find (\<lambda>c. cn_type c = ctype) conds = Some old"
    using assms by (induction conds) auto
  then show ?thesis by (simp add: condition_def)
qed

end
