(* ===== verification/Kanidm.thy ===== *)
theory Kanidm
  imports Reconcile "HOL-Library.Product_Lexorder"
begin

text \<open>
  The controller \<open>platform-services/kanidm-sync\<close>, \<open>src/lib.rs\<close> with \<open>src/main.rs\<close>, \<open>oauth2.rs\<close>, \<open>group.rs\<close> and
  \<open>user.rs\<close>: the custom resources, the requests to the identity server and to Kubernetes, and the
  answers they get. A \<open>BTreeMap\<close> is its entries in key order, a \<open>BTreeSet\<close> its elements in order. The
  clients of both servers, the URL parser, SHA-256, the table of image types and the clock are in
  \<open>kanidm_env\<close>.
\<close>

section \<open>Resources\<close>

record IconRef =
  ic_config_map :: string
  ic_key :: string
  ic_namespace :: "string option"

datatype ClaimMapJoin = JoinArray | JoinCsv | JoinSsv

record ClaimMap =
  cm_join :: ClaimMapJoin
  cm_values_by_group :: "(string \<times> string list) list"

record SecretKeys =
  sk_client_id :: string
  sk_client_secret :: string
  sk_issuer_url :: string

definition secret_keys_default :: SecretKeys where
  "secret_keys_default = \<lparr>sk_client_id = ''clientId'', sk_client_secret = ''clientSecret'', sk_issuer_url = ''issuerUrl''\<rparr>"

record OAuth2Spec =
  oa_name :: string
  oa_display_name :: string
  oa_origin :: string
  oa_redirect_urls :: "string list"
  oa_scope_maps :: "(string \<times> string list) list"
  oa_claim_maps :: "(string \<times> ClaimMap) list"
  oa_secret_name :: string
  oa_secret_namespace :: string
  oa_secret_keys :: SecretKeys
  oa_secret_labels :: "(string \<times> string) list"
  oa_public :: bool
  oa_allow_insecure_client_disable_pkce :: bool
  oa_enable_legacy_crypto :: bool
  oa_prefer_short_username :: bool
  oa_icon :: "IconRef option"

record OAuth2Status =
  os_conditions :: "Condition list"
  os_icon_hash :: "string option"

record OAuth2Client =
  oc_meta :: Meta
  oc_spec :: OAuth2Spec
  oc_status :: "OAuth2Status option"

record GroupSpec =
  gs_name :: string
  gs_members :: "string list"
  gs_entry_managed_by :: "string option"

record KanidmGroup =
  kg_meta :: Meta
  kg_spec :: GroupSpec
  kg_conditions :: "Condition list option"

record UserSpec =
  us_name :: string
  us_display_name :: string
  us_legal_name :: "string option"
  us_mail :: "string list"

record KanidmUser =
  ku_meta :: Meta
  ku_spec :: UserSpec
  ku_conditions :: "Condition list option"

section \<open>Errors\<close>

datatype KanidmError =
    Kube KubeError
  | KanidmE string
  | UrlE string
  | MissingSecret string
  | MissingNamespace string
  | MissingConfigMapKey string string
  | UnsupportedImageType string string
  | Validation string
  | FinalizerE KanidmError

fun kanidm_error_text :: "KanidmError \<Rightarrow> string" where
  "kanidm_error_text (Kube e) = ''kube error: '' @ kube_text e"
| "kanidm_error_text (KanidmE m) = ''kanidm client error: '' @ m"
| "kanidm_error_text (UrlE m) = ''invalid redirect url: '' @ m"
| "kanidm_error_text (MissingSecret c) = ''kanidm returned no basic secret for client '' @ c"
| "kanidm_error_text (MissingNamespace n) = ''object '' @ n @ '' is missing a namespace''"
| "kanidm_error_text (MissingConfigMapKey m k) = ''configmap '' @ m @ '' has no key '' @ k"
| "kanidm_error_text (UnsupportedImageType k t) = ''unsupported image type for '' @ k @ '': '' @ t"
| "kanidm_error_text (Validation m) = ''invalid spec: '' @ m"
| "kanidm_error_text (FinalizerE e) = ''finalizer error: '' @ kanidm_error_text e"

section \<open>Requests and answers\<close>

text \<open>A \<open>Secret\<close> as it is written; the owner is the resource itself.\<close>

record KSecret =
  kx_name :: string
  kx_namespace :: string
  kx_owned :: bool
  kx_labels :: "(string \<times> string) list option"
  kx_data :: "(string \<times> string) list"
  kx_resource_version :: "string option"

datatype KRequest =
    GroupCreate string "string option"
  | GroupSetManagedBy string string
  | GroupSetMembers string "string list"
  | PersonCreate string string
  | PersonUpdate string string "string option" "string list option"
  | RsDelete string
  | RsPublicCreate string string string
  | RsBasicCreate string string string
  | RsUpdate string string string
  | RsAddOrigin string string
  | RsRemoveOrigin string string
  | RsPreferShort string
  | RsPreferSpn string
  | RsDisablePkce string
  | RsEnablePkce string
  | RsEnableLegacyCrypto string
  | RsDisableLegacyCrypto string
  | RsUpdateScopeMap string string "string list"
  | RsDeleteScopeMap string string
  | RsClaimJoin string string ClaimMapJoin
  | RsUpdateClaimMap string string string "string list"
  | RsDeleteClaimMap string string string
  | RsUpdateImage string string string string
  | SecretReplace KSecret
  | SecretCreate KSecret
  | PatchIconHash string string string
  | PatchConditions string string "Condition list"

text \<open>An entry of the identity server: its attributes with their values.\<close>

type_synonym Entry = "(string \<times> string list) list"

record ConfigMap =
  mp_binary_data :: "(string \<times> string) list"
  mp_data :: "(string \<times> string) list"

type_synonym kworld = "KRequest world"

type_synonym 'a kio = "(KRequest, KanidmError, 'a) io"

record kanidm_env =
  ke_rs_get :: "kworld \<Rightarrow> string \<Rightarrow> (string, Entry option) result"
  ke_group_get :: "kworld \<Rightarrow> string \<Rightarrow> (string, bool) result"
  ke_person_get :: "kworld \<Rightarrow> string \<Rightarrow> (string, bool) result"
  ke_basic_secret :: "kworld \<Rightarrow> string \<Rightarrow> (string, string option) result"
  ke_config_map :: "kworld \<Rightarrow> string \<Rightarrow> string \<Rightarrow> (KubeError, ConfigMap) result"
  ke_secret_version :: "kworld \<Rightarrow> string \<Rightarrow> string \<Rightarrow> (KubeError, string option) result"
  ke_kanidm :: "kworld \<Rightarrow> KRequest \<Rightarrow> (string, unit) result"
  ke_kube :: "kworld \<Rightarrow> KRequest \<Rightarrow> (KubeError, unit) result"
  ke_url :: "string \<Rightarrow> (string, string) result"
  ke_sha256_hex :: "string \<Rightarrow> string"
  ke_image_type :: "string \<Rightarrow> string option"
  ke_now :: "kworld \<Rightarrow> string"
  ke_url_base :: string

definition kanidm_get :: "(kworld \<Rightarrow> string \<Rightarrow> (string, 'a) result) \<Rightarrow> string \<Rightarrow> 'a kio" where
  "kanidm_get f name = ask_io (\<lambda>w. err_as KanidmE (f w name))"

definition kanidm_do :: "kanidm_env \<Rightarrow> KRequest \<Rightarrow> unit kio" where
  "kanidm_do K = send_io (\<lambda>w r. err_as KanidmE (ke_kanidm K w r))"

definition kube_do :: "kanidm_env \<Rightarrow> KRequest \<Rightarrow> unit kio" where
  "kube_do K = send_io (\<lambda>w r. err_as Kube (ke_kube K w r))"

definition url_parse :: "kanidm_env \<Rightarrow> string \<Rightarrow> string kio" where
  "url_parse K u = of_result (err_as UrlE (ke_url K u))"

definition namespace_of :: "Meta \<Rightarrow> string kio" where
  "namespace_of m = of_result (case mt_namespace m of None \<Rightarrow> Err (MissingNamespace (mt_name m)) | Some n \<Rightarrow> Ok n)"

text \<open>A \<open>BTreeSet\<close> collected from a sequence, and \<open>difference\<close>.\<close>

definition btree_of :: "'a::linorder list \<Rightarrow> 'a list" where
  "btree_of xs = sort (remdups xs)"

definition difference :: "'a list \<Rightarrow> 'a list \<Rightarrow> 'a list" where
  "difference xs ys = filter (\<lambda>x. \<not> List.member ys x) xs"

lemma set_btree_of [simp]: "set (btree_of xs) = set xs"
  by (simp add: btree_of_def)

lemma set_difference [simp]: "set (difference xs ys) = set xs - set ys"
  by (auto simp: difference_def)

end
