(* ===== verification/KanidmSync.thy ===== *)
theory KanidmSync
  imports Kanidm
begin

text \<open>
  The reconciliation of \<open>kanidm-sync\<close>: \<open>oauth2.rs\<close>, \<open>group.rs\<close>, \<open>user.rs\<close> and the generic part in
  \<open>main.rs\<close>, one definition per function and per paragraph of \<open>provision\<close>.
\<close>

section \<open>What an entry says\<close>

definition class_is_public :: "Entry \<Rightarrow> bool" where
  "class_is_public entry =
     (case map_of entry ''class'' of None \<Rightarrow> False | Some cs \<Rightarrow> List.member cs ''oauth2_resource_server_public'')"

definition attr_values :: "string \<Rightarrow> Entry option \<Rightarrow> string list" where
  "attr_values name entry = (case Option.bind entry (\<lambda>e. map_of e name) of None \<Rightarrow> [] | Some vs \<Rightarrow> vs)"

text \<open>\<open>split(c).next()\<close>: everything before the first \<open>c\<close>.\<close>

definition before_char :: "char \<Rightarrow> string \<Rightarrow> string" where
  "before_char c s = takeWhile (\<lambda>d. d \<noteq> c) s"

definition short_group_name :: "string \<Rightarrow> string" where
  "short_group_name spn = trim (before_char (CHR ''@'') (trim spn))"

definition scope_map_groups :: "Entry option \<Rightarrow> string list" where
  "scope_map_groups entry =
     btree_of (map (\<lambda>v. short_group_name (before_char (CHR '':'') v)) (attr_values ''oauth2_rs_scope_map'' entry))"

text \<open>\<open>splitn(3, ':')\<close>: the first two parts.\<close>

definition claim_pair :: "string \<Rightarrow> (string \<times> string) option" where
  "claim_pair v =
     (case split_once (CHR '':'') v of
        None \<Rightarrow> None
      | Some (c, rest) \<Rightarrow>
          (let claim = trim c; grp = before_char (CHR '':'') rest
           in if claim = [] then None else Some (claim, short_group_name grp)))"

definition claim_map_pairs :: "Entry option \<Rightarrow> (string \<times> string) list" where
  "claim_map_pairs entry = btree_of (List.map_filter claim_pair (attr_values ''oauth2_rs_claim_map'' entry))"

section \<open>OAuth2 clients\<close>

definition validate_oauth2 :: "kanidm_env \<Rightarrow> OAuth2Client \<Rightarrow> (string, unit) result" where
  "validate_oauth2 K obj =
     (let spec = oc_spec obj
      in if oa_name spec = [] then Err ''spec.name must not be empty''
         else if oa_redirect_urls spec = [] then Err ''spec.redirectUrls must not be empty''
         else (case ke_url K (oa_origin spec) of
                 Err e \<Rightarrow> Err (''spec.origin is not a valid URL: '' @ e)
               | Ok _ \<Rightarrow>
                   check_all (\<lambda>u. case ke_url K u of
                       Err e \<Rightarrow> Err (''spec.redirectUrls entry '' @ debug_text u @ '' is invalid: '' @ e)
                     | Ok _ \<Rightarrow> Ok ()) (oa_redirect_urls spec)))"

definition ensure_group :: "kanidm_env \<Rightarrow> string \<Rightarrow> unit kio" where
  "ensure_group K g =
     bind_io (kanidm_get (ke_group_get K) g) (\<lambda>there. when_io (\<not> there) (kanidm_do K (GroupCreate g None)))"

definition referenced_groups :: "OAuth2Spec \<Rightarrow> string list" where
  "referenced_groups spec =
     btree_of (map fst (oa_scope_maps spec)
       @ concat (map (\<lambda>(_, m). map fst (cm_values_by_group m)) (oa_claim_maps spec)))"

text \<open>Delete a client of the other type, create a missing one, update it.\<close>

definition ensure_client :: "kanidm_env \<Rightarrow> OAuth2Spec \<Rightarrow> unit kio" where
  "ensure_client K spec =
     (let name = oa_name spec
      in bind_io (kanidm_get (ke_rs_get K) name) (\<lambda>existing.
         let needs_recreate = (case existing of None \<Rightarrow> False | Some e \<Rightarrow> class_is_public e \<noteq> oa_public spec)
         in then_io (when_io needs_recreate (kanidm_do K (RsDelete name)))
            (then_io (when_io (existing = None \<or> needs_recreate)
               (kanidm_do K ((if oa_public spec then RsPublicCreate else RsBasicCreate)
                  name (oa_display_name spec) (oa_origin spec))))
             (kanidm_do K (RsUpdate name (oa_display_name spec) (oa_origin spec))))))"

definition sync_origins :: "kanidm_env \<Rightarrow> OAuth2Spec \<Rightarrow> Entry option \<Rightarrow> unit kio" where
  "sync_origins K spec entry =
     (let name = oa_name spec;
          present = btree_of (attr_values ''oauth2_rs_origin'' entry);
          desired = btree_of (oa_redirect_urls spec)
      in then_io (each_io (\<lambda>u. bind_io (url_parse K u) (\<lambda>p. kanidm_do K (RsAddOrigin name p))) (difference desired present))
           (each_io (\<lambda>u. bind_io (url_parse K u) (\<lambda>p. kanidm_do K (RsRemoveOrigin name p))) (difference present desired)))"

definition sync_options :: "kanidm_env \<Rightarrow> OAuth2Spec \<Rightarrow> unit kio" where
  "sync_options K spec =
     (let name = oa_name spec
      in then_io (kanidm_do K (if oa_prefer_short_username spec then RsPreferShort name else RsPreferSpn name))
         (then_io (when_io (\<not> oa_public spec)
            (kanidm_do K (if oa_allow_insecure_client_disable_pkce spec then RsDisablePkce name else RsEnablePkce name)))
          (kanidm_do K (if oa_enable_legacy_crypto spec then RsEnableLegacyCrypto name else RsDisableLegacyCrypto name))))"

definition sync_scope_maps :: "kanidm_env \<Rightarrow> OAuth2Spec \<Rightarrow> Entry option \<Rightarrow> unit kio" where
  "sync_scope_maps K spec entry =
     then_io (each_io (\<lambda>(g, scopes). kanidm_do K (RsUpdateScopeMap (oa_name spec) g scopes)) (oa_scope_maps spec))
       (each_io (\<lambda>g. kanidm_do K (RsDeleteScopeMap (oa_name spec) g))
          (difference (scope_map_groups entry) (map fst (oa_scope_maps spec))))"

definition desired_claim_pairs :: "OAuth2Spec \<Rightarrow> (string \<times> string) list" where
  "desired_claim_pairs spec =
     btree_of (concat (map (\<lambda>(claim, m). map (\<lambda>(g, _). (claim, g)) (cm_values_by_group m)) (oa_claim_maps spec)))"

definition sync_claim_map :: "kanidm_env \<Rightarrow> string \<Rightarrow> string \<times> ClaimMap \<Rightarrow> unit kio" where
  "sync_claim_map K name = (\<lambda>(claim, m).
     then_io (kanidm_do K (RsClaimJoin name claim (cm_join m)))
       (each_io (\<lambda>(g, values). kanidm_do K (RsUpdateClaimMap name claim g values)) (cm_values_by_group m)))"

definition sync_claim_maps :: "kanidm_env \<Rightarrow> OAuth2Spec \<Rightarrow> Entry option \<Rightarrow> unit kio" where
  "sync_claim_maps K spec entry =
     then_io (each_io (sync_claim_map K (oa_name spec)) (oa_claim_maps spec))
       (each_io (\<lambda>(claim, g). kanidm_do K (RsDeleteClaimMap (oa_name spec) claim g))
          (difference (claim_map_pairs entry) (desired_claim_pairs spec)))"

text \<open>\<open>rsplit('.').next()\<close>: everything after the last dot.\<close>

definition file_ext :: "string \<Rightarrow> string" where
  "file_ext key = rev (before_char (CHR ''.'') (rev key))"

definition icon_contents :: "ConfigMap \<Rightarrow> string \<Rightarrow> string option" where
  "icon_contents cm key = (case map_of (mp_binary_data cm) key of Some b \<Rightarrow> Some b | None \<Rightarrow> map_of (mp_data cm) key)"

definition upload_icon :: "kanidm_env \<Rightarrow> OAuth2Client \<Rightarrow> IconRef \<Rightarrow> unit kio" where
  "upload_icon K obj icon =
     (let name = oa_name (oc_spec obj)
      in bind_io (namespace_of (oc_meta obj)) (\<lambda>cr_namespace.
         let ns = (case ic_namespace icon of Some n \<Rightarrow> n | None \<Rightarrow> cr_namespace)
         in bind_io (ask_io (\<lambda>w. err_as Kube (ke_config_map K w ns (ic_config_map icon)))) (\<lambda>cm.
            bind_io (of_result (case icon_contents cm (ic_key icon) of
                Some c \<Rightarrow> Ok c | None \<Rightarrow> Err (MissingConfigMapKey (ic_config_map icon) (ic_key icon)))) (\<lambda>contents.
            bind_io (of_result (case ke_image_type K (file_ext (ic_key icon)) of
                Some t \<Rightarrow> Ok t | None \<Rightarrow> Err (UnsupportedImageType (ic_key icon) (file_ext (ic_key icon))))) (\<lambda>filetype.
            let hash = ke_sha256_hex K contents
            in if Option.bind (oc_status obj) os_icon_hash = Some hash then ret ()
               else then_io (kanidm_do K (RsUpdateImage name (ic_key icon) filetype contents))
                      (kube_do K (PatchIconHash cr_namespace (mt_name (oc_meta obj)) hash)))))))"

definition client_secret :: "kanidm_env \<Rightarrow> OAuth2Client \<Rightarrow> string \<Rightarrow> string \<Rightarrow> KSecret" where
  "client_secret K obj cr_namespace secret =
     (let spec = oc_spec obj; keys = oa_secret_keys spec
      in \<lparr>kx_name = oa_secret_name spec, kx_namespace = oa_secret_namespace spec,
          kx_owned = (cr_namespace = oa_secret_namespace spec),
          kx_labels = (if oa_secret_labels spec = [] then None else Some (oa_secret_labels spec)),
          kx_data = sort_key fst (foldl (\<lambda>m (k, v). AList.update k v m) []
            [(sk_client_id keys, oa_name spec), (sk_client_secret keys, secret),
             (sk_issuer_url keys, ke_url_base K @ ''/oauth2/openid/'' @ oa_name spec)]),
          kx_resource_version = None\<rparr>)"

definition write_secret :: "kanidm_env \<Rightarrow> OAuth2Client \<Rightarrow> string \<Rightarrow> unit kio" where
  "write_secret K obj secret =
     bind_io (namespace_of (oc_meta obj)) (\<lambda>cr_namespace.
       let spec = oc_spec obj; s = client_secret K obj cr_namespace secret
       in bind_io (try_io (ask_io (\<lambda>w. ke_secret_version K w (oa_secret_namespace spec) (oa_secret_name spec)))) (\<lambda>r.
            case r of
              Ok version \<Rightarrow> kube_do K (SecretReplace (s\<lparr>kx_resource_version := version\<rparr>))
            | Err (KubeApi code m) \<Rightarrow>
                if code = 404 then kube_do K (SecretCreate s) else throw (Kube (KubeApi code m))
            | Err e \<Rightarrow> throw (Kube e)))"

definition provision_secret :: "kanidm_env \<Rightarrow> OAuth2Client \<Rightarrow> unit kio" where
  "provision_secret K obj =
     bind_io (kanidm_get (ke_basic_secret K) (oa_name (oc_spec obj))) (\<lambda>s.
       case s of None \<Rightarrow> throw (MissingSecret (oa_name (oc_spec obj))) | Some v \<Rightarrow> write_secret K obj v)"

definition provision_icon :: "kanidm_env \<Rightarrow> OAuth2Client \<Rightarrow> unit kio" where
  "provision_icon K obj =
     (case oa_icon (oc_spec obj) of
        None \<Rightarrow> ret ()
      | Some icon \<Rightarrow> bind_io (try_io (upload_icon K obj icon)) (\<lambda>_ :: (KanidmError, unit) result. ret ()))"

definition provision_oauth2 :: "kanidm_env \<Rightarrow> OAuth2Client \<Rightarrow> unit kio" where
  "provision_oauth2 K obj =
     (let spec = oc_spec obj
      in then_io (each_io (ensure_group K) (referenced_groups spec))
         (then_io (ensure_client K spec)
         (bind_io (kanidm_get (ke_rs_get K) (oa_name spec)) (\<lambda>entry.
          then_io (sync_origins K spec entry)
         (then_io (sync_options K spec)
         (then_io (sync_scope_maps K spec entry)
         (then_io (sync_claim_maps K spec entry)
         (then_io (provision_icon K obj)
          (when_io (\<not> oa_public spec) (provision_secret K obj))))))))))"

definition cleanup :: "kanidm_env \<Rightarrow> OAuth2Client \<Rightarrow> unit kio" where
  "cleanup K obj =
     bind_io (kanidm_get (ke_rs_get K) (oa_name (oc_spec obj))) (\<lambda>entry.
       when_io (entry \<noteq> None) (kanidm_do K (RsDelete (oa_name (oc_spec obj)))))"

section \<open>Groups and users\<close>

definition validate_group :: "KanidmGroup \<Rightarrow> (string, unit) result" where
  "validate_group obj = (if gs_name (kg_spec obj) = [] then Err ''spec.name must not be empty'' else Ok ())"

definition provision_group :: "kanidm_env \<Rightarrow> KanidmGroup \<Rightarrow> unit kio" where
  "provision_group K obj =
     (let spec = kg_spec obj; name = gs_name spec
      in bind_io (kanidm_get (ke_group_get K) name) (\<lambda>there.
         then_io (when_io (\<not> there) (kanidm_do K (GroupCreate name (gs_entry_managed_by spec))))
         (then_io (case gs_entry_managed_by spec of None \<Rightarrow> ret () | Some m \<Rightarrow> kanidm_do K (GroupSetManagedBy name m))
          (when_io (gs_members spec \<noteq> []) (kanidm_do K (GroupSetMembers name (gs_members spec)))))))"

definition validate_user :: "KanidmUser \<Rightarrow> (string, unit) result" where
  "validate_user obj = (if us_name (ku_spec obj) = [] then Err ''spec.name must not be empty'' else Ok ())"

definition provision_user :: "kanidm_env \<Rightarrow> KanidmUser \<Rightarrow> unit kio" where
  "provision_user K obj =
     (let spec = ku_spec obj; name = us_name spec
      in bind_io (kanidm_get (ke_person_get K) name) (\<lambda>there.
         then_io (when_io (\<not> there) (kanidm_do K (PersonCreate name (us_display_name spec))))
          (kanidm_do K (PersonUpdate name (us_display_name spec) (us_legal_name spec)
             (if us_mail spec = [] then None else Some (us_mail spec))))))"

section \<open>Reconciliation\<close>

text \<open>The trait \<open>Reconcile\<close>.\<close>

record 'o reconcile_ops =
  rc_kind :: string
  rc_programmed_ok :: string
  rc_meta :: "'o \<Rightarrow> Meta"
  rc_validate :: "'o \<Rightarrow> (string, unit) result"
  rc_existing :: "'o \<Rightarrow> Condition list option"
  rc_provision :: "'o \<Rightarrow> unit kio"

definition oauth2_reconcile :: "kanidm_env \<Rightarrow> OAuth2Client reconcile_ops" where
  "oauth2_reconcile K =
     \<lparr>rc_kind = ''KanidmOAuth2Client'', rc_programmed_ok = ''OAuth2 client provisioned in kanidm'', rc_meta = oc_meta,
      rc_validate = validate_oauth2 K, rc_existing = (\<lambda>obj. map_option os_conditions (oc_status obj)),
      rc_provision = provision_oauth2 K\<rparr>"

definition group_reconcile :: "kanidm_env \<Rightarrow> KanidmGroup reconcile_ops" where
  "group_reconcile K =
     \<lparr>rc_kind = ''KanidmGroup'', rc_programmed_ok = ''Group provisioned in kanidm'', rc_meta = kg_meta,
      rc_validate = validate_group, rc_existing = kg_conditions, rc_provision = provision_group K\<rparr>"

definition user_reconcile :: "kanidm_env \<Rightarrow> KanidmUser reconcile_ops" where
  "user_reconcile K =
     \<lparr>rc_kind = ''KanidmUser'', rc_programmed_ok = ''User provisioned in kanidm'', rc_meta = ku_meta,
      rc_validate = validate_user, rc_existing = ku_conditions, rc_provision = provision_user K\<rparr>"

definition write_status ::
  "kanidm_env \<Rightarrow> 'o reconcile_ops \<Rightarrow> 'o \<Rightarrow> (string, unit) result \<Rightarrow> KanidmError option \<Rightarrow> unit kio" where
  "write_status K R obj accepted failure =
     bind_io (namespace_of (rc_meta R obj)) (\<lambda>ns.
     bind_io (ask_io (\<lambda>w. Ok (ke_now K w))) (\<lambda>now.
     bind_io (ask_io (\<lambda>w. Ok (ke_now K w))) (\<lambda>now'.
       kube_do K (PatchConditions ns (mt_name (rc_meta R obj))
         (status_conditions (rc_kind R) (rc_programmed_ok R) (rc_existing R obj) (mt_generation (rc_meta R obj))
            accepted (map_option kanidm_error_text failure) now now')))))"

text \<open>The \<open>Action\<close> is the delay in seconds until the next run; \<open>None\<close> is \<open>await_change\<close>.\<close>

definition reconcile :: "kanidm_env \<Rightarrow> 'o reconcile_ops \<Rightarrow> 'o \<Rightarrow> nat option kio" where
  "reconcile K R obj =
     (let accepted = rc_validate R obj
      in bind_io (case accepted of Ok _ \<Rightarrow> try_io (rc_provision R obj) | Err _ \<Rightarrow> ret (Ok ())) (\<lambda>provisioned.
         bind_io (try_io (write_status K R obj accepted (case provisioned of Err e \<Rightarrow> Some e | Ok _ \<Rightarrow> None)))
           (\<lambda>_ :: (KanidmError, unit) result.
         then_io (of_result (err_as Validation accepted))
         (then_io (of_result provisioned) (ret (Some 3600))))))"

text \<open>What \<open>kube\<close>'s finalizer helper asks for: it calls the closure with one of its events.\<close>

datatype FinalizerEvent = FinalApply | FinalCleanup

definition reconcile_oauth2 :: "kanidm_env \<Rightarrow> FinalizerEvent \<Rightarrow> OAuth2Client \<Rightarrow> nat option kio" where
  "reconcile_oauth2 K event obj =
     bind_io (namespace_of (oc_meta obj)) (\<lambda>_.
       (\<lambda>w. case (case event of
                     FinalApply \<Rightarrow> reconcile K (oauth2_reconcile K) obj
                   | FinalCleanup \<Rightarrow> then_io (cleanup K obj) (ret None)) w of
              (r, w1) \<Rightarrow> (err_as FinalizerE r, w1)))"

definition error_policy :: "KanidmError \<Rightarrow> nat" where
  "error_policy e = 300"

end
