(* ===== verification/KanidmProperties.thy ===== *)
theory KanidmProperties
  imports KanidmSync
begin

text \<open>
  The properties of \<open>kanidm-sync\<close>: a client that was provisioned has exactly the redirect origins, scope
  maps and claim maps of its resource, a reconciliation touches nothing but what its resource names,
  and the conditions it writes tell its outcome.
\<close>

section \<open>What a successful provisioning sent\<close>

lemma kanidm_get_Ok [io_simps]:
  "kanidm_get f n w = (Ok x, w') \<longleftrightarrow> f w n = Ok x \<and> w' = w\<lparr>wd_calls := Suc (wd_calls w)\<rparr>"
  by (simp add: kanidm_get_def ask_Ok)

lemma kanidm_do_Ok [io_simps]:
  "kanidm_do K r w = (Ok x, w') \<longleftrightarrow> ke_kanidm K w r = Ok () \<and> w' = w\<lparr>wd_calls := Suc (wd_calls w), wd_sent := wd_sent w @ [r]\<rparr>"
  by (simp add: kanidm_do_def send_Ok)

lemma kube_do_Ok [io_simps]:
  "kube_do K r w = (Ok x, w') \<longleftrightarrow> ke_kube K w r = Ok () \<and> w' = w\<lparr>wd_calls := Suc (wd_calls w), wd_sent := wd_sent w @ [r]\<rparr>"
  by (simp add: kube_do_def send_Ok)

lemma url_parse_Ok [io_simps]: "url_parse K u w = (Ok p, w') \<longleftrightarrow> ke_url K u = Ok p \<and> w' = w"
  by (auto simp: url_parse_def of_result_Ok)

lemma kanidm_only [only_intros]: "only P (kanidm_get f n)" "P r \<Longrightarrow> only P (kanidm_do K r)" "P r \<Longrightarrow> only P (kube_do K r)"
  "only P (url_parse K u)" "only P (namespace_of m)"
  by (auto simp: kanidm_get_def kanidm_do_def kube_do_def url_parse_def namespace_of_def intro: only_intros)

definition url_of :: "kanidm_env \<Rightarrow> string \<Rightarrow> string" where
  "url_of K u = (case ke_url K u of Ok p \<Rightarrow> p | Err _ \<Rightarrow> [])"

definition origin_requests :: "kanidm_env \<Rightarrow> OAuth2Spec \<Rightarrow> Entry option \<Rightarrow> KRequest list" where
  "origin_requests K spec entry =
     (let present = btree_of (attr_values ''oauth2_rs_origin'' entry); desired = btree_of (oa_redirect_urls spec)
      in map (\<lambda>u. RsAddOrigin (oa_name spec) (url_of K u)) (difference desired present)
         @ map (\<lambda>u. RsRemoveOrigin (oa_name spec) (url_of K u)) (difference present desired))"

definition scope_requests :: "OAuth2Spec \<Rightarrow> Entry option \<Rightarrow> KRequest list" where
  "scope_requests spec entry =
     map (\<lambda>(g, scopes). RsUpdateScopeMap (oa_name spec) g scopes) (oa_scope_maps spec)
     @ map (RsDeleteScopeMap (oa_name spec)) (difference (scope_map_groups entry) (map fst (oa_scope_maps spec)))"

definition claim_requests :: "OAuth2Spec \<Rightarrow> Entry option \<Rightarrow> KRequest list" where
  "claim_requests spec entry =
     concat (map (\<lambda>(claim, m). RsClaimJoin (oa_name spec) claim (cm_join m)
         # map (\<lambda>(g, values). RsUpdateClaimMap (oa_name spec) claim g values) (cm_values_by_group m)) (oa_claim_maps spec))
     @ map (\<lambda>(claim, g). RsDeleteClaimMap (oa_name spec) claim g)
         (difference (claim_map_pairs entry) (desired_claim_pairs spec))"

lemma each_url:
  assumes "each_io (\<lambda>u. bind_io (url_parse K u) (\<lambda>p. kanidm_do K (g p))) xs w = (Ok (), w')"
  shows "wd_sent w' = wd_sent w @ map (\<lambda>u. g (url_of K u)) xs"
proof -
  have "wd_sent w' = wd_sent w @ concat (map (\<lambda>u. [g (url_of K u)]) xs)"
    by (rule each_sent [OF _ assms]) (auto simp: bind_Ok url_parse_Ok kanidm_do_Ok url_of_def)
  then show ?thesis by simp
qed

lemma sync_origins_sent:
  assumes "sync_origins K spec entry w = (Ok (), w')"
  shows "wd_sent w' = wd_sent w @ origin_requests K spec entry"
proof -
  let ?p = "btree_of (attr_values ''oauth2_rs_origin'' entry)" and ?d = "btree_of (oa_redirect_urls spec)"
  from assms obtain w1 where
      "each_io (\<lambda>u. bind_io (url_parse K u) (\<lambda>p. kanidm_do K (RsAddOrigin (oa_name spec) p))) (difference ?d ?p) w = (Ok (), w1)"
      "each_io (\<lambda>u. bind_io (url_parse K u) (\<lambda>p. kanidm_do K (RsRemoveOrigin (oa_name spec) p))) (difference ?p ?d) w1 = (Ok (), w')"
    unfolding sync_origins_def Let_def then_Ok by blast
  from each_url [OF this(1)] each_url [OF this(2)] show ?thesis by (simp add: origin_requests_def Let_def)
qed

lemma each_kanidm: "each_io (\<lambda>x. kanidm_do K (g x)) xs w = (Ok (), w') \<Longrightarrow> wd_sent w' = wd_sent w @ map g xs"
  unfolding kanidm_do_def by (rule each_send_sent)

lemma each_kanidm_pair:
  "each_io (\<lambda>(a, b). kanidm_do K (g a b)) xs w = (Ok (), w') \<Longrightarrow> wd_sent w' = wd_sent w @ map (\<lambda>(a, b). g a b) xs"
  using each_kanidm [of K "\<lambda>x. g (fst x) (snd x)" xs w w'] by (simp add: case_prod_unfold)

lemma sync_scope_maps_sent:
  assumes "sync_scope_maps K spec entry w = (Ok (), w')"
  shows "wd_sent w' = wd_sent w @ scope_requests spec entry"
proof -
  from assms obtain w1 where "each_io (\<lambda>(g, scopes). kanidm_do K (RsUpdateScopeMap (oa_name spec) g scopes)) (oa_scope_maps spec) w = (Ok (), w1)"
      "each_io (\<lambda>g. kanidm_do K (RsDeleteScopeMap (oa_name spec) g))
          (difference (scope_map_groups entry) (map fst (oa_scope_maps spec))) w1 = (Ok (), w')"
    by (auto simp: sync_scope_maps_def then_Ok)
  from each_kanidm_pair [OF this(1)] each_kanidm [OF this(2)] show ?thesis by (simp add: scope_requests_def)
qed

lemma sync_claim_map_sent:
  assumes "sync_claim_map K n (claim, m) w = (Ok (), w')"
  shows "wd_sent w' = wd_sent w @ RsClaimJoin n claim (cm_join m)
       # map (\<lambda>(g, values). RsUpdateClaimMap n claim g values) (cm_values_by_group m)"
proof -
  from assms obtain w1 where "kanidm_do K (RsClaimJoin n claim (cm_join m)) w = (Ok (), w1)"
      "each_io (\<lambda>(g, values). kanidm_do K (RsUpdateClaimMap n claim g values)) (cm_values_by_group m) w1 = (Ok (), w')"
    by (auto simp: sync_claim_map_def then_Ok)
  from each_kanidm_pair [OF this(2)] this(1) show ?thesis by (simp add: kanidm_do_Ok)
qed

lemma sync_claim_maps_sent:
  assumes "sync_claim_maps K spec entry w = (Ok (), w')"
  shows "wd_sent w' = wd_sent w @ claim_requests spec entry"
proof -
  from assms obtain w1 where "each_io (sync_claim_map K (oa_name spec)) (oa_claim_maps spec) w = (Ok (), w1)"
      "each_io (\<lambda>(claim, g). kanidm_do K (RsDeleteClaimMap (oa_name spec) claim g))
          (difference (claim_map_pairs entry) (desired_claim_pairs spec)) w1 = (Ok (), w')"
    by (auto simp: sync_claim_maps_def then_Ok)
  note tail = each_kanidm_pair [OF this(2)] and claims = this(1)
  have "wd_sent w1 = wd_sent w @ concat (map (\<lambda>(claim, m). RsClaimJoin (oa_name spec) claim (cm_join m)
         # map (\<lambda>(g, values). RsUpdateClaimMap (oa_name spec) claim g values) (cm_values_by_group m)) (oa_claim_maps spec))"
    by (rule each_sent [OF _ claims]) (auto simp: sync_claim_map_sent)
  with tail show ?thesis by (simp add: claim_requests_def)
qed

text \<open>The other steps send none of these requests.\<close>

definition settles :: "KRequest \<Rightarrow> bool" where
  "settles r \<longleftrightarrow> (case r of
      RsPreferShort _ \<Rightarrow> True | RsPreferSpn _ \<Rightarrow> True | RsDisablePkce _ \<Rightarrow> True | RsEnablePkce _ \<Rightarrow> True
    | RsEnableLegacyCrypto _ \<Rightarrow> True | RsDisableLegacyCrypto _ \<Rightarrow> True | RsUpdateImage _ _ _ _ \<Rightarrow> True
    | PatchIconHash _ _ _ \<Rightarrow> True | SecretReplace _ \<Rightarrow> True | SecretCreate _ \<Rightarrow> True | _ \<Rightarrow> False)"

lemma settles_simps [simp]:
  "settles (RsPreferShort n)" "settles (RsPreferSpn n)" "settles (RsDisablePkce n)" "settles (RsEnablePkce n)"
  "settles (RsEnableLegacyCrypto n)" "settles (RsDisableLegacyCrypto n)" "settles (RsUpdateImage n a b c)"
  "settles (PatchIconHash n a b)" "settles (SecretReplace s)" "settles (SecretCreate s)"
  by (simp_all add: settles_def)

lemma only_error_cases [only_intros]:
  "(\<And>x. r = Ok x \<Longrightarrow> only P (f x)) \<Longrightarrow> (\<And>c m. r = Err (KubeApi c m) \<Longrightarrow> only P (g c m)) \<Longrightarrow> (\<And>m. r = Err (KubeOther m) \<Longrightarrow> only P (h m))
    \<Longrightarrow> only P (case r of Inl (KubeApi c m) \<Rightarrow> g c m | Inl (KubeOther m) \<Rightarrow> h m | Inr x \<Rightarrow> f x)"
  by (cases r) (simp_all split: KubeError.split)

lemma namespace_bind_only:
  "(\<And>ns. mt_namespace m = Some ns \<Longrightarrow> only P (f ns)) \<Longrightarrow> only P (bind_io (namespace_of m) f)"
  by (cases "mt_namespace m") (simp_all add: only_def namespace_of_def bind_io_def of_result_def)

lemma write_secret_only:
  assumes "\<And>ns v. mt_namespace (oc_meta obj) = Some ns \<Longrightarrow> P (SecretReplace ((client_secret K obj ns s)\<lparr>kx_resource_version := v\<rparr>))"
    and "\<And>ns. mt_namespace (oc_meta obj) = Some ns \<Longrightarrow> P (SecretCreate (client_secret K obj ns s))"
  shows "only P (write_secret K obj s)"
  unfolding write_secret_def Let_def
  by (rule namespace_bind_only, intro only_intros) (auto split: sum.split KubeError.split intro: only_intros assms)

lemma upload_icon_only:
  "(\<And>a b c. P (RsUpdateImage (oa_name (oc_spec obj)) a b c)) \<Longrightarrow> (\<And>ns h. P (PatchIconHash ns (mt_name (oc_meta obj)) h))
    \<Longrightarrow> only P (upload_icon K obj icon)"
  unfolding upload_icon_def Let_def by (intro only_intros) simp_all

lemma sync_options_only: "only settles (sync_options K spec)"
  unfolding sync_options_def Let_def by (intro only_intros) simp_all

lemma provision_icon_only: "only settles (provision_icon K obj)"
  unfolding provision_icon_def by (intro only_intros upload_icon_only) simp_all

lemma provision_secret_only: "only settles (provision_secret K obj)"
  unfolding provision_secret_def by (intro only_intros write_secret_only) simp_all

lemma provision_sent:
  assumes "provision_oauth2 K obj w = (Ok (), w')"
  obtains w2 entry os rs where "ke_rs_get K w2 (oa_name (oc_spec obj)) = Ok entry"
    "wd_sent w' = wd_sent w2 @ origin_requests K (oc_spec obj) entry @ os @ scope_requests (oc_spec obj) entry
       @ claim_requests (oc_spec obj) entry @ rs" "list_all settles os" "list_all settles rs"
proof -
  let ?spec = "oc_spec obj"
  from assms obtain w2 entry w3 w4 w5 w6 w7 where get: "ke_rs_get K w2 (oa_name ?spec) = Ok entry"
      and o': "sync_origins K ?spec entry (w2\<lparr>wd_calls := Suc (wd_calls w2)\<rparr>) = (Ok (), w3)"
      and p: "sync_options K ?spec w3 = (Ok (), w4)" and s: "sync_scope_maps K ?spec entry w4 = (Ok (), w5)"
      and c: "sync_claim_maps K ?spec entry w5 = (Ok (), w6)" and i: "provision_icon K obj w6 = (Ok (), w7)"
      and x: "when_io (\<not> oa_public ?spec) (provision_secret K obj) w7 = (Ok (), w')"
    by (auto simp: provision_oauth2_def Let_def then_Ok bind_Ok kanidm_get_Ok)
  obtain os where os: "wd_sent w4 = wd_sent w3 @ os" "list_all settles os" using only_sent [OF sync_options_only p] by auto
  obtain js where i: "wd_sent w7 = wd_sent w6 @ js" "list_all settles js" using only_sent [OF provision_icon_only i] by auto
  have so: "only settles (when_io (\<not> oa_public ?spec) (provision_secret K obj))" by (intro only_intros provision_secret_only)
  obtain xs where "wd_sent w' = wd_sent w7 @ xs" "list_all settles xs" using only_sent [OF so x] by auto
  with that [OF get _ os(2), of "js @ xs"] i os sync_origins_sent [OF o'] sync_scope_maps_sent [OF s] sync_claim_maps_sent [OF c]
  show thesis by simp
qed

section \<open>The identity server afterwards\<close>

text \<open>
  What the requests are documented to do to the redirect origins, the scope maps and the claim maps
  of the client \<open>n\<close>; a group may be written with its domain. \<open>step\<close> is the server's transition;
  requests that create, delete or rename a client are left open.
\<close>

fun origin_effect :: "string \<Rightarrow> KRequest \<Rightarrow> string set \<Rightarrow> string set" where
  "origin_effect n (RsAddOrigin m u) = (if m = n then insert u else id)"
| "origin_effect n (RsRemoveOrigin m u) = (if m = n then (\<lambda>os. os - {u}) else id)"
| "origin_effect n _ = id"

fun scope_effect :: "string \<Rightarrow> KRequest \<Rightarrow> (string \<rightharpoonup> string list) \<Rightarrow> (string \<rightharpoonup> string list)" where
  "scope_effect n (RsUpdateScopeMap m g v) = (if m = n then (\<lambda>f. f(short_group_name g \<mapsto> v)) else id)"
| "scope_effect n (RsDeleteScopeMap m g) = (if m = n then (\<lambda>f. f(short_group_name g := None)) else id)"
| "scope_effect n _ = id"

fun claim_effect :: "string \<Rightarrow> KRequest \<Rightarrow> (string \<times> string \<rightharpoonup> string list) \<Rightarrow> (string \<times> string \<rightharpoonup> string list)" where
  "claim_effect n (RsUpdateClaimMap m c g v) = (if m = n then (\<lambda>f. f((c, short_group_name g) \<mapsto> v)) else id)"
| "claim_effect n (RsDeleteClaimMap m c g) = (if m = n then (\<lambda>f. f((c, short_group_name g) := None)) else id)"
| "claim_effect n _ = id"

fun lifecycle :: "KRequest \<Rightarrow> bool" where
  "lifecycle (RsDelete _) = True"
| "lifecycle (RsPublicCreate _ _ _) = True"
| "lifecycle (RsBasicCreate _ _ _) = True"
| "lifecycle (RsUpdate _ _ _) = True"
| "lifecycle _ = False"

definition has_effect :: "(KRequest \<Rightarrow> 's \<Rightarrow> 's) \<Rightarrow> ('s \<Rightarrow> 'v) \<Rightarrow> (KRequest \<Rightarrow> 'v \<Rightarrow> 'v) \<Rightarrow> bool" where
  "has_effect step view eff \<longleftrightarrow> (\<forall>r s. \<not> lifecycle r \<longrightarrow> view (step r s) = eff r (view s))"

text \<open>
  The server the controller relies on: the requests have these effects, and what it answers about the
  client shows what was done, the URLs in the form the URL parser gives them.
\<close>

definition documented_server :: "kanidm_env \<Rightarrow> string \<Rightarrow> (KRequest \<Rightarrow> 's \<Rightarrow> 's) \<Rightarrow> 's \<Rightarrow> ('s \<Rightarrow> string set)
    \<Rightarrow> ('s \<Rightarrow> (string \<rightharpoonup> string list)) \<Rightarrow> ('s \<Rightarrow> (string \<times> string \<rightharpoonup> string list)) \<Rightarrow> bool" where
  "documented_server K n step s0 origins scopes claims \<longleftrightarrow>
     has_effect step origins (origin_effect n) \<and> has_effect step scopes (scope_effect n)
     \<and> has_effect step claims (claim_effect n)
     \<and> (\<forall>w entry. ke_rs_get K w n = Ok entry \<longrightarrow>
           set (attr_values ''oauth2_rs_origin'' entry) = origins (fold step (wd_sent w) s0)
           \<and> (\<forall>u\<in>origins (fold step (wd_sent w) s0). ke_url K u = Ok u)
           \<and> set (scope_map_groups entry) = dom (scopes (fold step (wd_sent w) s0))
           \<and> set (claim_map_pairs entry) = dom (claims (fold step (wd_sent w) s0)))"

text \<open>The keys of the resource's maps are distinct, and name groups without their domain.\<close>

definition claim_entries :: "OAuth2Spec \<Rightarrow> ((string \<times> string) \<times> string list) list" where
  "claim_entries spec = concat (map (\<lambda>(claim, m). map (\<lambda>(g, values). ((claim, g), values)) (cm_values_by_group m)) (oa_claim_maps spec))"

definition plain_keys :: "OAuth2Spec \<Rightarrow> bool" where
  "plain_keys spec \<longleftrightarrow> distinct (map fst (oa_scope_maps spec)) \<and> distinct (map fst (claim_entries spec))
     \<and> list_all (\<lambda>g. short_group_name g = g) (map fst (oa_scope_maps spec) @ map (snd \<circ> fst) (claim_entries spec))"

lemma fold_view:
  "has_effect step view eff \<Longrightarrow> list_all (\<lambda>r. \<not> lifecycle r) rs \<Longrightarrow> view (fold step rs s) = fold eff rs (view s)"
  by (induction rs arbitrary: s) (simp_all add: has_effect_def)

lemma fold_idle: "list_all (\<lambda>r. eff r = id) rs \<Longrightarrow> fold eff rs v = v"
  by (induction rs arbitrary: v) simp_all

lemma settles_idle:
  "settles r \<Longrightarrow> \<not> lifecycle r \<and> origin_effect n r = id \<and> scope_effect n r = id \<and> claim_effect n r = id"
  by (cases r) (simp_all add: settles_def)

lemma settles_all:
  "list_all settles rs \<Longrightarrow> list_all (\<lambda>r. \<not> lifecycle r) rs \<and> list_all (\<lambda>r. origin_effect n r = id) rs
    \<and> list_all (\<lambda>r. scope_effect n r = id) rs \<and> list_all (\<lambda>r. claim_effect n r = id) rs"
  using settles_idle by (auto simp: list_all_iff)

lemma request_kinds:
  "list_all (\<lambda>r. \<not> lifecycle r) (origin_requests K spec e @ scope_requests spec e @ claim_requests spec e)"
  "list_all (\<lambda>r. scope_effect n r = id \<and> claim_effect n r = id) (origin_requests K spec e)"
  "list_all (\<lambda>r. origin_effect n r = id \<and> claim_effect n r = id) (scope_requests spec e)"
  "list_all (\<lambda>r. origin_effect n r = id \<and> scope_effect n r = id) (claim_requests spec e)"
  by (auto simp: list_all_iff origin_requests_def scope_requests_def claim_requests_def Let_def)

lemma fold_origins:
  assumes "\<forall>u\<in>set (oa_redirect_urls spec) \<union> os. ke_url K u = Ok u" "set (attr_values ''oauth2_rs_origin'' entry) = os"
  shows "fold (origin_effect (oa_name spec)) (origin_requests K spec entry) os = set (oa_redirect_urls spec)"
proof -
  let ?n = "oa_name spec"
  have add: "fold (origin_effect ?n) (map (\<lambda>u. RsAddOrigin ?n (url_of K u)) us) X = X \<union> url_of K ` set us" for us X
    by (induction us arbitrary: X) auto
  have remove: "fold (origin_effect ?n) (map (\<lambda>u. RsRemoveOrigin ?n (url_of K u)) us) X = X - url_of K ` set us" for us X
    by (induction us arbitrary: X) auto
  have "url_of K ` A = A" if "A \<subseteq> set (oa_redirect_urls spec) \<union> os" for A
    using that assms(1) by (force simp: url_of_def)
  from this [of "set (oa_redirect_urls spec) - os"] this [of "os - set (oa_redirect_urls spec)"]
  show ?thesis using assms(2) by (auto simp: origin_requests_def Let_def add remove)
qed

lemma fold_put:
  "distinct (map fst ms) \<Longrightarrow> fold (\<lambda>(k, v) f. f(k \<mapsto> v)) ms f = f ++ map_of ms"
proof (induction ms arbitrary: f)
  case (Cons m ms)
  obtain k v where m: "m = (k, v)" by (cases m)
  then have "map_of ms k = None" using Cons.prems by (simp add: map_of_eq_None_iff)
  then show ?case using Cons m by (auto simp: map_add_def fun_eq_iff split: option.split)
qed simp

lemma fold_drop: "fold (\<lambda>k f. f(k := None)) ks f = (\<lambda>k. if k \<in> set ks then None else f k)"
  by (induction ks arbitrary: f) (auto simp: fun_eq_iff)

text \<open>Entries written over a map, then the old keys without an entry removed: the entries are left.\<close>

lemma put_then_drop:
  assumes "set stale = dom f - fst ` set ms"
  shows "(\<lambda>k. if k \<in> set stale then None else (f ++ map_of ms) k) = map_of ms"
proof
  fix k show "(if k \<in> set stale then None else (f ++ map_of ms) k) = map_of ms k"
  proof (cases "map_of ms k")
    case None
    then have "k \<notin> fst ` set ms" by (simp add: map_of_eq_None_iff)
    with None show ?thesis using assms by (auto simp: map_add_def dom_def split: option.split)
  next
    case (Some v)
    then have "k \<in> fst ` set ms" by (metis image_eqI fst_conv map_of_SomeD)
    with Some show ?thesis using assms by simp
  qed
qed

lemma dropWhile_again [simp]: "dropWhile P (dropWhile P xs) = dropWhile P xs"
  by (induction xs) simp_all

lemma trim_trim [simp]: "trim (trim s) = trim s"
proof -
  define a where "a = dropWhile is_space s"
  define b where "b = rev (dropWhile is_space (rev a))"
  have "a = b @ rev (takeWhile is_space (rev a))"
    unfolding b_def by (metis rev_append rev_rev_ident takeWhile_dropWhile_id)
  moreover have "dropWhile is_space a = a" by (simp add: a_def)
  ultimately have "dropWhile is_space b = b"
    by (cases b) (simp, metis append_Cons dropWhile_eq_Cons_conv hd_dropWhile list.discI list.sel(1) dropWhile.simps(2))
  moreover have "trim s = b" by (simp add: trim_def a_def b_def)
  moreover have "dropWhile is_space (rev b) = rev b" by (simp add: b_def)
  ultimately show ?thesis by (simp add: trim_def)
qed

lemma set_trim: "set (trim s) \<subseteq> set s"
  by (auto simp: trim_def dest!: set_dropWhileD)

lemma short_idem [simp]: "short_group_name (short_group_name g) = short_group_name g"
proof -
  define t where "t = before_char (CHR ''@'') (trim g)"
  have "CHR ''@'' \<notin> set (trim t)" using set_trim [of t] by (auto simp: t_def before_char_def dest: set_takeWhileD)
  then have "before_char (CHR ''@'') (trim t) = trim t" by (auto simp: before_char_def takeWhile_eq_all_conv)
  then show ?thesis by (simp add: short_group_name_def flip: t_def)
qed

lemma fold_scopes:
  assumes "plain_keys spec" "set (scope_map_groups entry) = dom f"
  shows "fold (scope_effect (oa_name spec)) (scope_requests spec entry) f = map_of (oa_scope_maps spec)"
proof -
  let ?n = "oa_name spec" and ?ms = "oa_scope_maps spec"
  let ?stale = "difference (scope_map_groups entry) (map fst ?ms)"
  have "fold (scope_effect ?n) (map (\<lambda>(g, v). RsUpdateScopeMap ?n g v) ms) f = fold (\<lambda>(k, v) f. f(k \<mapsto> v)) ms f"
    if "list_all (\<lambda>g. short_group_name g = g) (map fst ms)" for ms f
    using that by (induction ms arbitrary: f) auto
  then have put: "fold (scope_effect ?n) (map (\<lambda>(g, v). RsUpdateScopeMap ?n g v) ?ms) f = f ++ map_of ?ms"
    using assms(1) by (simp add: plain_keys_def fold_put)
  have drop: "fold (scope_effect ?n) (map (RsDeleteScopeMap ?n) gs) f = fold (\<lambda>k f. f(k := None)) gs f"
    if "\<forall>g\<in>set gs. short_group_name g = g" for gs f
    using that by (induction gs arbitrary: f) auto
  have "\<forall>g\<in>set ?stale. short_group_name g = g" by (auto simp: scope_map_groups_def)
  moreover have "set ?stale = dom f - fst ` set ?ms" using assms(2) by simp
  ultimately show ?thesis
    using put_then_drop [of ?stale f ?ms] by (simp add: scope_requests_def put drop fold_drop)
qed

lemma claim_pair_short: "claim_pair v = Some (c, g) \<Longrightarrow> short_group_name g = g"
  by (auto simp: claim_pair_def Let_def split: option.splits if_splits prod.splits)

lemma set_map_filter: "set (List.map_filter f xs) = {y. \<exists>x\<in>set xs. f x = Some y}"
  by (induction xs) (auto simp: map_filter_simps split: option.split)

lemma claim_map_pairs_short: "(c, g) \<in> set (claim_map_pairs entry) \<Longrightarrow> short_group_name g = g"
proof -
  assume "(c, g) \<in> set (claim_map_pairs entry)"
  then obtain v where "claim_pair v = Some (c, g)" by (auto simp: claim_map_pairs_def set_map_filter)
  then show ?thesis by (rule claim_pair_short)
qed

lemma fold_claims:
  assumes "plain_keys spec" "set (claim_map_pairs entry) = dom f"
  shows "fold (claim_effect (oa_name spec)) (claim_requests spec entry) f = map_of (claim_entries spec)"
proof -
  let ?n = "oa_name spec" and ?ms = "claim_entries spec"
  let ?stale = "difference (claim_map_pairs entry) (desired_claim_pairs spec)"
  let ?put = "\<lambda>(claim, m). RsClaimJoin ?n claim (cm_join m) # map (\<lambda>(g, values). RsUpdateClaimMap ?n claim g values) (cm_values_by_group m)"
  have one: "fold (claim_effect ?n) (map (\<lambda>(g, values). RsUpdateClaimMap ?n c g values) vs) f = fold (\<lambda>(k, v) f. f(k \<mapsto> v)) (map (\<lambda>(g, values). ((c, g), values)) vs) f"
    if "\<forall>(g, v)\<in>set vs. short_group_name g = g" for c vs f
    using that by (induction vs arbitrary: f) auto
  have "fold (claim_effect ?n) (concat (map ?put ms)) f
      = fold (\<lambda>(k, v) f. f(k \<mapsto> v)) (concat (map (\<lambda>(claim, m). map (\<lambda>(g, values). ((claim, g), values)) (cm_values_by_group m)) ms)) f"
    if "\<forall>(c, m)\<in>set ms. \<forall>(g, v)\<in>set (cm_values_by_group m). short_group_name g = g" for ms f
    using that by (induction ms arbitrary: f) (auto simp: one)
  moreover have "\<forall>(c, m)\<in>set (oa_claim_maps spec). \<forall>(g, v)\<in>set (cm_values_by_group m). short_group_name g = g"
    using assms(1) by (force simp: plain_keys_def claim_entries_def list_all_iff)
  ultimately have "fold (claim_effect ?n) (concat (map ?put (oa_claim_maps spec))) f = fold (\<lambda>(k, v) f. f(k \<mapsto> v)) ?ms f"
    unfolding claim_entries_def by blast
  also have "\<dots> = f ++ map_of ?ms"
    using assms(1) by (intro fold_put) (simp add: plain_keys_def)
  finally have put: "fold (claim_effect ?n) (concat (map ?put (oa_claim_maps spec))) f = f ++ map_of ?ms" .
  have drop: "fold (claim_effect ?n) (map (\<lambda>(claim, g). RsDeleteClaimMap ?n claim g) ps) f = fold (\<lambda>k f. f(k := None)) ps f"
    if "\<forall>p\<in>set ps. short_group_name (snd p) = snd p" for ps f
    using that by (induction ps arbitrary: f) auto
  have "\<forall>p\<in>set ?stale. short_group_name (snd p) = snd p"
    by (auto dest: claim_map_pairs_short)
  moreover have "fst ` set ?ms = set (desired_claim_pairs spec)"
    by (simp add: desired_claim_pairs_def claim_entries_def image_UN image_image case_prod_unfold)
  then have "set ?stale = dom f - fst ` set ?ms" using assms(2) by simp
  ultimately show ?thesis
    using put_then_drop [of ?stale f ?ms] by (simp add: claim_requests_def put drop fold_drop)
qed


text \<open>
  A server for examples: its client \<open>app\<close> has a redirect URL, a scope map and a claim map of an older
  resource, and it shows them until the client is changed.
\<close>

type_synonym client_state = "string set \<times> (string \<rightharpoonup> string list) \<times> (string \<times> string \<rightharpoonup> string list)"

fun example_step :: "KRequest \<Rightarrow> client_state \<Rightarrow> client_state" where
  "example_step r (os, f, m) =
     (if lifecycle r then (os, f, m) else (origin_effect ''app'' r os, scope_effect ''app'' r f, claim_effect ''app'' r m))"

definition example_state :: client_state where
  "example_state = ({''https://old/''}, [''g0'' \<mapsto> [''openid'']], [(''roles'', ''g0'') \<mapsto> [''user'']])"

fun touches :: "KRequest \<Rightarrow> bool" where
  "touches (RsAddOrigin _ _) = True"
| "touches (RsRemoveOrigin _ _) = True"
| "touches (RsUpdateScopeMap _ _ _) = True"
| "touches (RsDeleteScopeMap _ _) = True"
| "touches (RsUpdateClaimMap _ _ _ _) = True"
| "touches (RsDeleteClaimMap _ _ _) = True"
| "touches _ = False"

definition example_entry :: Entry where
  "example_entry = [(''class'', [''oauth2_resource_server_public'']), (''oauth2_rs_origin'', [''https://old/'']),
     (''oauth2_rs_scope_map'', [''g0@idm: {openid}'']), (''oauth2_rs_claim_map'', [''roles:g0@idm:,:user''])]"

definition example_kanidm :: kanidm_env where
  "example_kanidm = \<lparr>ke_rs_get = (\<lambda>w n. if list_all (\<lambda>r. \<not> touches r) (wd_sent w) then Ok (Some example_entry) else Err ''busy''),
     ke_group_get = (\<lambda>_ g. Ok (g = ''g0'')), ke_person_get = (\<lambda>_ _. Ok False),
     ke_basic_secret = (\<lambda>_ _. Ok (Some ''s3cret'')), ke_config_map = (\<lambda>_ _ _. Ok \<lparr>mp_binary_data = [], mp_data = [(''app.svg'', ''<svg/>'')]\<rparr>),
     ke_secret_version = (\<lambda>_ _ _. Err (KubeApi 404 ''not found'')), ke_kanidm = (\<lambda>_ _. Ok ()), ke_kube = (\<lambda>_ _. Ok ()),
     ke_url = Ok, ke_sha256_hex = (\<lambda>s. s), ke_image_type = (\<lambda>e. if e = ''svg'' then Some ''Svg'' else None),
     ke_now = (\<lambda>_. ''now''), ke_url_base = ''https://idm''\<rparr>"

definition example_client :: OAuth2Client where
  "example_client = \<lparr>oc_meta = \<lparr>mt_name = ''app'', mt_namespace = Some ''apps'', mt_generation = Some 3\<rparr>,
     oc_spec = \<lparr>oa_name = ''app'', oa_display_name = ''App'', oa_origin = ''https://app/'', oa_redirect_urls = [''https://app/cb''],
       oa_scope_maps = [(''g1'', [''openid'', ''email''])],
       oa_claim_maps = [(''roles'', \<lparr>cm_join = JoinArray, cm_values_by_group = [(''g1'', [''admin''])]\<rparr>)],
       oa_secret_name = ''app-oauth2'', oa_secret_namespace = ''apps'', oa_secret_keys = secret_keys_default, oa_secret_labels = [],
       oa_public = False, oa_allow_insecure_client_disable_pkce = False, oa_enable_legacy_crypto = False,
       oa_prefer_short_username = True, oa_icon = None\<rparr>,
     oc_status = None\<rparr>"

definition start :: kworld where
  "start = \<lparr>wd_calls = 0, wd_sent = []\<rparr>"

lemma untouched_state:
  "list_all (\<lambda>r. \<not> touches r) rs \<Longrightarrow> fold example_step rs s = s"
proof (induction rs arbitrary: s)
  case (Cons r rs)
  then have "example_step r s = s" by (cases r; cases s) simp_all
  with Cons show ?case by simp
qed simp

lemma example_attrs:
  "attr_values ''oauth2_rs_origin'' (Some example_entry) = [''https://old/'']"
  "scope_map_groups (Some example_entry) = [''g0'']" "claim_map_pairs (Some example_entry) = [(''roles'', ''g0'')]"
  by code_simp+

lemma example_documented:
  "documented_server example_kanidm ''app'' example_step example_state fst (fst \<circ> snd) (snd \<circ> snd)"
proof -
  have "has_effect example_step fst (origin_effect ''app'')" "has_effect example_step (fst \<circ> snd) (scope_effect ''app'')"
    "has_effect example_step (snd \<circ> snd) (claim_effect ''app'')"
    by (simp_all add: has_effect_def split_paired_all)
  moreover have "set (attr_values ''oauth2_rs_origin'' entry) = fst (fold example_step (wd_sent w) example_state)
      \<and> (\<forall>u\<in>fst (fold example_step (wd_sent w) example_state). ke_url example_kanidm u = Ok u)
      \<and> set (scope_map_groups entry) = dom ((fst \<circ> snd) (fold example_step (wd_sent w) example_state))
      \<and> set (claim_map_pairs entry) = dom ((snd \<circ> snd) (fold example_step (wd_sent w) example_state))"
    if "ke_rs_get example_kanidm w ''app'' = Ok entry" for w entry
  proof -
    have "entry = Some example_entry" "fold example_step (wd_sent w) example_state = example_state"
      using that untouched_state [of "wd_sent w"] by (simp_all add: example_kanidm_def split: if_splits)
    then show ?thesis by (simp add: example_attrs example_state_def example_kanidm_def)
  qed
  ultimately show ?thesis unfolding documented_server_def by blast
qed

lemma example_diffs:
  "referenced_groups (oc_spec example_client) = [''g1'']" "plain_keys (oc_spec example_client)"
  "difference (btree_of [''https://app/cb'']) (btree_of [''https://old/'']) = [''https://app/cb'']"
  "difference (btree_of [''https://old/'']) (btree_of [''https://app/cb'']) = [''https://old/'']"
  "desired_claim_pairs (oc_spec example_client) = [(''roles'', ''g1'')]" "class_is_public example_entry"
  by code_simp+

lemma example_returns: "\<exists>w'. provision_oauth2 example_kanidm example_client start = (Ok (), w')"
  using example_diffs
  by (simp add: provision_oauth2_def io_simps Let_def ensure_group_def ensure_client_def sync_origins_def sync_options_def
      sync_scope_maps_def sync_claim_maps_def sync_claim_map_def provision_icon_def provision_secret_def write_secret_def
      example_client_def example_kanidm_def example_attrs start_def difference_def ask_io_def try_io_def namespace_of_def ex_bool_eq)


section \<open>What a reconciliation may touch\<close>

text \<open>The requests that concern a resource: its own client, group or person, the groups it names, its secret, its status.\<close>

definition status_of :: "Meta \<Rightarrow> KRequest \<Rightarrow> bool" where
  "status_of m r \<longleftrightarrow> (case r of
      PatchConditions ns n _ \<Rightarrow> mt_namespace m = Some ns \<and> n = mt_name m
    | PatchIconHash ns n _ \<Rightarrow> mt_namespace m = Some ns \<and> n = mt_name m
    | _ \<Rightarrow> False)"

definition rs_request :: "string \<Rightarrow> KRequest \<Rightarrow> bool" where
  "rs_request name r \<longleftrightarrow> (case r of
      RsDelete n \<Rightarrow> n = name | RsPublicCreate n _ _ \<Rightarrow> n = name | RsBasicCreate n _ _ \<Rightarrow> n = name
    | RsUpdate n _ _ \<Rightarrow> n = name | RsAddOrigin n _ \<Rightarrow> n = name | RsRemoveOrigin n _ \<Rightarrow> n = name
    | RsPreferShort n \<Rightarrow> n = name | RsPreferSpn n \<Rightarrow> n = name | RsDisablePkce n \<Rightarrow> n = name | RsEnablePkce n \<Rightarrow> n = name
    | RsEnableLegacyCrypto n \<Rightarrow> n = name | RsDisableLegacyCrypto n \<Rightarrow> n = name
    | RsUpdateScopeMap n _ _ \<Rightarrow> n = name | RsDeleteScopeMap n _ \<Rightarrow> n = name | RsClaimJoin n _ _ \<Rightarrow> n = name
    | RsUpdateClaimMap n _ _ _ \<Rightarrow> n = name | RsDeleteClaimMap n _ _ \<Rightarrow> n = name | RsUpdateImage n _ _ _ \<Rightarrow> n = name
    | _ \<Rightarrow> False)"

definition secret_request :: "OAuth2Client \<Rightarrow> KRequest \<Rightarrow> bool" where
  "secret_request obj r \<longleftrightarrow> (\<exists>s. (r = SecretReplace s \<or> r = SecretCreate s)
     \<and> kx_name s = oa_secret_name (oc_spec obj) \<and> kx_namespace s = oa_secret_namespace (oc_spec obj)
     \<and> (kx_owned s \<longleftrightarrow> mt_namespace (oc_meta obj) = Some (oa_secret_namespace (oc_spec obj))) \<and> \<not> oa_public (oc_spec obj))"

definition concerns_client :: "OAuth2Client \<Rightarrow> KRequest \<Rightarrow> bool" where
  "concerns_client obj r \<longleftrightarrow> rs_request (oa_name (oc_spec obj)) r \<or> secret_request obj r \<or> status_of (oc_meta obj) r
     \<or> (\<exists>g\<in>set (referenced_groups (oc_spec obj)). r = GroupCreate g None)"

definition concerns_group :: "KanidmGroup \<Rightarrow> KRequest \<Rightarrow> bool" where
  "concerns_group obj r \<longleftrightarrow> status_of (kg_meta obj) r \<or> (case r of
      GroupCreate n _ \<Rightarrow> n = gs_name (kg_spec obj) | GroupSetManagedBy n _ \<Rightarrow> n = gs_name (kg_spec obj)
    | GroupSetMembers n _ \<Rightarrow> n = gs_name (kg_spec obj) | _ \<Rightarrow> False)"

definition concerns_user :: "KanidmUser \<Rightarrow> KRequest \<Rightarrow> bool" where
  "concerns_user obj r \<longleftrightarrow> status_of (ku_meta obj) r \<or> (case r of
      PersonCreate n _ \<Rightarrow> n = us_name (ku_spec obj) | PersonUpdate n _ _ _ \<Rightarrow> n = us_name (ku_spec obj) | _ \<Rightarrow> False)"

text \<open>A kind of resource that reconciles itself: the contract of the trait.\<close>

locale reconciler =
  fixes K :: kanidm_env and R :: "'o reconcile_ops" and concerns :: "'o \<Rightarrow> KRequest \<Rightarrow> bool"
  assumes provision_concerns: "only (concerns obj) (rc_provision R obj)"
    and status_concerns: "status_of (rc_meta R obj) r \<Longrightarrow> concerns obj r"
begin

lemma status_only: "only (concerns obj) (write_status K R obj accepted failure)"
proof (cases "mt_namespace (rc_meta R obj)")
  case None
  then show ?thesis by (simp add: only_def write_status_def namespace_of_def bind_io_def of_result_def)
next
  case (Some ns)
  then have "concerns obj (PatchConditions ns (mt_name (rc_meta R obj)) cs)" for cs
    by (simp add: status_concerns status_of_def)
  then show ?thesis
    using Some unfolding only_def write_status_def
    by (simp add: namespace_of_def bind_io_def of_result_def ask_io_def kube_do_def send_io_def)
qed

lemma reconcile_only: "only (concerns obj) (reconcile K R obj)"
  unfolding reconcile_def Let_def
  by (intro only_intros status_only) (auto split: sum.split intro: only_intros provision_concerns)

end

lemma concerns_client_simps [simp]:
  "concerns_client obj (RsDelete (oa_name (oc_spec obj)))" "concerns_client obj (RsPublicCreate (oa_name (oc_spec obj)) d u)"
  "concerns_client obj (RsBasicCreate (oa_name (oc_spec obj)) d u)" "concerns_client obj (RsUpdate (oa_name (oc_spec obj)) d u)"
  "concerns_client obj (RsAddOrigin (oa_name (oc_spec obj)) u)" "concerns_client obj (RsRemoveOrigin (oa_name (oc_spec obj)) u)"
  "concerns_client obj (RsPreferShort (oa_name (oc_spec obj)))" "concerns_client obj (RsPreferSpn (oa_name (oc_spec obj)))"
  "concerns_client obj (RsDisablePkce (oa_name (oc_spec obj)))" "concerns_client obj (RsEnablePkce (oa_name (oc_spec obj)))"
  "concerns_client obj (RsEnableLegacyCrypto (oa_name (oc_spec obj)))" "concerns_client obj (RsDisableLegacyCrypto (oa_name (oc_spec obj)))"
  "concerns_client obj (RsUpdateScopeMap (oa_name (oc_spec obj)) g v)" "concerns_client obj (RsDeleteScopeMap (oa_name (oc_spec obj)) g)"
  "concerns_client obj (RsClaimJoin (oa_name (oc_spec obj)) c j)" "concerns_client obj (RsUpdateClaimMap (oa_name (oc_spec obj)) c g v)"
  "concerns_client obj (RsDeleteClaimMap (oa_name (oc_spec obj)) c g)" "concerns_client obj (RsUpdateImage (oa_name (oc_spec obj)) f t b)"
  by (simp_all add: concerns_client_def rs_request_def)

lemma upload_icon_concerns: "only (concerns_client obj) (upload_icon K obj icon)"
  unfolding upload_icon_def Let_def
  by (intro namespace_bind_only only_bind only_if only_then only_intros)
    (simp_all add: concerns_client_def rs_request_def status_of_def)

lemma write_secret_concerns: "\<not> oa_public (oc_spec obj) \<Longrightarrow> only (concerns_client obj) (write_secret K obj v)"
  by (rule write_secret_only) (simp_all add: concerns_client_def secret_request_def client_secret_def Let_def)

lemma provision_oauth2_concerns: "only (concerns_client obj) (provision_oauth2 K obj)"
  unfolding provision_oauth2_def ensure_group_def ensure_client_def sync_origins_def sync_options_def sync_scope_maps_def
    sync_claim_maps_def sync_claim_map_def provision_icon_def provision_secret_def Let_def
  by (intro only_intros upload_icon_concerns write_secret_concerns)
    (auto intro!: only_intros simp: concerns_client_def [of obj "GroupCreate _ _"])

lemma provision_group_concerns: "only (concerns_group obj) (provision_group K obj)"
  unfolding provision_group_def Let_def by (intro only_intros) (simp_all add: concerns_group_def)

lemma provision_user_concerns: "only (concerns_user obj) (provision_user K obj)"
  unfolding provision_user_def Let_def by (intro only_intros) (simp_all add: concerns_user_def)

interpretation oauth2: reconciler K "oauth2_reconcile K" concerns_client for K
  by unfold_locales (simp_all add: oauth2_reconcile_def provision_oauth2_concerns concerns_client_def)

interpretation grp: reconciler K "group_reconcile K" concerns_group for K
  by unfold_locales (simp_all add: group_reconcile_def provision_group_concerns concerns_group_def)

interpretation user: reconciler K "user_reconcile K" concerns_user for K
  by unfold_locales (simp_all add: user_reconcile_def provision_user_concerns concerns_user_def)

lemma only_wrapped: "only P m \<Longrightarrow> only P (\<lambda>w. case m w of (r, w1) \<Rightarrow> (f r, w1))"
  by (simp add: only_def case_prod_unfold)

text \<open>
  C19: Whatever the servers answer and whether or not it fails, a reconciliation or a cleanup sends only
  requests that concern its own resource: its client, group or person, the groups the resource names, the
  secret it names, owned by the resource exactly when both are in one namespace, and its status.
\<close>

theorem reconciliation_stays_in_its_resource:
  "only (concerns_client obj) (reconcile_oauth2 K event obj)
   \<and> only (concerns_group g) (reconcile K (group_reconcile K) g)
   \<and> only (concerns_user u) (reconcile K (user_reconcile K) u)"
proof -
  have "only (concerns_client obj) (then_io (cleanup K obj) (ret None))"
    unfolding cleanup_def by (intro only_intros) simp
  then have "only (concerns_client obj) (reconcile_oauth2 K event obj)"
    unfolding reconcile_oauth2_def
    by (cases event) (auto intro!: namespace_bind_only only_wrapped oauth2.reconcile_only)
  then show ?thesis using grp.reconcile_only user.reconcile_only by blast
qed

section \<open>The status\<close>

text \<open>
  The last request of a reconciliation writes its conditions: \<open>Accepted\<close> is true exactly when the
  resource is valid and \<open>Programmed\<close> exactly when the reconciliation returns without an error, which it then
  repeats in an hour. An invalid resource is not provisioned: the conditions are all it writes.
\<close>

theorem status_tells_the_outcome:
  assumes "mt_namespace (rc_meta R obj) = Some ns"
  shows "\<exists>conds. wd_sent (snd (reconcile K R obj w))
        = wd_sent (if is_ok (rc_validate R obj) then snd (rc_provision R obj w) else w) @ [PatchConditions ns (mt_name (rc_meta R obj)) conds]
      \<and> map cn_type conds = [''Accepted'', ''Programmed'']
      \<and> map cn_status conds = [if is_ok (rc_validate R obj) then ''True'' else ''False'',
          if is_ok (fst (reconcile K R obj w)) then ''True'' else ''False'']
      \<and> fst (reconcile K R obj w) = (case rc_validate R obj of Err m \<Rightarrow> Err (Validation m)
          | Ok _ \<Rightarrow> (case fst (rc_provision R obj w) of Err e \<Rightarrow> Err e | Ok _ \<Rightarrow> Ok (Some 3600)))"
proof -
  obtain p w1 where p: "rc_provision R obj w = (p, w1)" by fastforce
  show ?thesis
    using assms p
    by (cases "rc_validate R obj"; cases p)
      (auto simp: reconcile_def write_status_def Let_def bind_io_def then_io_def try_io_def ret_def of_result_def namespace_of_def
        ask_io_def kube_do_def send_io_def err_as_def is_ok_def status_conditions_status)
qed

lemma status_tells_the_outcome_witness:
  "\<exists>conds. wd_sent (snd (reconcile example_kanidm (group_reconcile example_kanidm)
      \<lparr>kg_meta = \<lparr>mt_name = ''g'', mt_namespace = Some ''apps'', mt_generation = None\<rparr>,
       kg_spec = \<lparr>gs_name = [], gs_members = [], gs_entry_managed_by = None\<rparr>, kg_conditions = None\<rparr> start))
     = [PatchConditions ''apps'' ''g'' conds] \<and> map cn_status conds = [''False'', ''False'']"
proof -
  let ?g = "\<lparr>kg_meta = \<lparr>mt_name = ''g'', mt_namespace = Some ''apps'', mt_generation = None\<rparr>,
       kg_spec = \<lparr>gs_name = [], gs_members = [], gs_entry_managed_by = None\<rparr>, kg_conditions = None\<rparr>"
  show ?thesis
    using status_tells_the_outcome [of "group_reconcile example_kanidm" ?g "''apps''" example_kanidm start]
    by (auto simp: group_reconcile_def validate_group_def is_ok_def start_def)
qed

section \<open>Where the code falls short of its documents\<close>

text \<open>An empty list of members is not reconciled to the empty set: the members stay as they are.\<close>

lemma empty_members_kept:
  assumes "gs_members (kg_spec obj) = []"
  shows "only (\<lambda>r. \<forall>n ms. r \<noteq> GroupSetMembers n ms) (provision_group K obj)"
  unfolding provision_group_def Let_def using assms by (intro only_intros) simp_all

text \<open>A scope map whose key carries the domain of the group is removed again once the server shows it.\<close>

lemma spn_scope_map_is_removed:
  "fold (scope_effect ''app'') (scope_requests ((oc_spec example_client)\<lparr>oa_scope_maps := [(''g0@idm'', [''openid''])]\<rparr>) (Some example_entry))
     [''g0'' \<mapsto> [''openid'']] ''g0'' = None"
  by code_simp

text \<open>A redirect URL that the parser rewrites is removed again once the server shows it.\<close>

lemma rewritten_redirect_is_removed:
  "fold (origin_effect ''app'') (origin_requests (example_kanidm\<lparr>ke_url := (\<lambda>u. Ok ''https://old/'')\<rparr>)
     ((oc_spec example_client)\<lparr>oa_redirect_urls := [''https://old'']\<rparr>) (Some example_entry)) {''https://old/''} = {}"
  by code_simp

text \<open>A client that is deleted and created again with the other type gets no icon while the icon is unchanged.\<close>

lemma recreated_client_gets_no_icon:
  assumes "oa_icon (oc_spec obj) = Some icon" "\<And>w ns. ke_config_map K w ns (ic_config_map icon) = Ok cm"
    and "icon_contents cm (ic_key icon) = Some c" "Option.bind (oc_status obj) os_icon_hash = Some (ke_sha256_hex K c)"
  shows "only (\<lambda>r. \<forall>n f t b. r \<noteq> RsUpdateImage n f t b) (provision_icon K obj)"
  using assms by (simp add: provision_icon_def upload_icon_def only_def Let_def bind_io_def try_io_def ask_io_def of_result_def
      namespace_of_def err_as_def ret_def split: option.split)

end
