(* ===== verification/PgControl.thy ===== *)
theory PgControl
  imports Reconcile
begin

text \<open>
  The controller \<open>platform-services/pg-db-controller\<close>: \<open>src/sql.rs\<close>, \<open>crd.rs\<close>, \<open>error.rs\<close> and
  \<open>controller.rs\<close>. A statement is the text that is executed. The answers of the database and of
  Kubernetes, the random password and the clock are in \<open>pg_env\<close>.
\<close>

section \<open>Identifiers and literals\<close>

definition ident_start :: "char \<Rightarrow> bool" where
  "ident_start c = (let n = (of_char c :: nat) in (97 \<le> n \<and> n \<le> 122) \<or> (65 \<le> n \<and> n \<le> 90) \<or> n = 95)"

definition ident_digit :: "char \<Rightarrow> bool" where
  "ident_digit c = (let n = (of_char c :: nat) in 48 \<le> n \<and> n \<le> 57)"

definition is_valid_ident :: "string \<Rightarrow> bool" where
  "is_valid_ident ident =
     (ident \<noteq> [] \<and> length ident \<le> 63
      \<and> list_all (\<lambda>(i, b). ident_start b \<or> (0 < i \<and> ident_digit b)) (enumerate 0 ident))"

record PgSpec =
  ps_database_name :: string
  ps_role_name :: "string option"
  ps_additional_databases :: "string list option"
  ps_secret_name :: string
  ps_secret_namespace :: string

record PgDatabase =
  pd_meta :: Meta
  pd_spec :: PgSpec
  pd_conditions :: "Condition list option"

datatype PgError =
    Sqlx string
  | PgKube KubeError
  | InvalidIdentifier string
  | PgValidation string
  | PgMissingNamespace string

fun pg_error_text :: "PgError \<Rightarrow> string" where
  "pg_error_text (Sqlx m) = ''sqlx error: '' @ m"
| "pg_error_text (PgKube e) = ''kube error: '' @ kube_text e"
| "pg_error_text (InvalidIdentifier i) = ''invalid postgres identifier: '' @ debug_text i"
| "pg_error_text (PgValidation m) = ''invalid spec: '' @ m"
| "pg_error_text (PgMissingNamespace n) = ''object '' @ n @ '' is missing a namespace''"

definition quote_ident :: "string \<Rightarrow> (PgError, string) result" where
  "quote_ident ident = (if is_valid_ident ident then Ok (CHR 0x22 # ident @ [CHR 0x22]) else Err (InvalidIdentifier ident))"

definition quote_literal :: "string \<Rightarrow> string" where
  "quote_literal s = CHR 0x27 # concat (map (\<lambda>c. if c = CHR 0x27 then [c, c] else [c]) s) @ [CHR 0x27]"

section \<open>Requests and answers\<close>

record PgSecret =
  px_name :: string
  px_namespace :: string
  px_immutable :: bool
  px_owned :: bool
  px_string_data :: "(string \<times> string) list"

datatype PgRequest =
    Execute string
  | ApplySecret PgSecret
  | PatchPgStatus string string "Condition list"

type_synonym pworld = "PgRequest world"

type_synonym 'a pio = "(PgRequest, PgError, 'a) io"

record pg_env =
  pe_secret_present :: "pworld \<Rightarrow> string \<Rightarrow> string \<Rightarrow> (KubeError, bool) result"
  pe_role_exists :: "pworld \<Rightarrow> string \<Rightarrow> (string, bool) result"
  pe_database_exists :: "pworld \<Rightarrow> string \<Rightarrow> (string, bool) result"
  pe_database_owner :: "pworld \<Rightarrow> string \<Rightarrow> (string, string option) result"
  pe_execute :: "pworld \<Rightarrow> string \<Rightarrow> (string, unit) result"
  pe_kube :: "pworld \<Rightarrow> PgRequest \<Rightarrow> (KubeError, unit) result"
  pe_password :: "pworld \<Rightarrow> string"
  pe_host :: string
  pe_port :: "16 word"
  pe_now :: "pworld \<Rightarrow> string"

definition ask_db :: "(pworld \<Rightarrow> string \<Rightarrow> (string, 'a) result) \<Rightarrow> string \<Rightarrow> 'a pio" where
  "ask_db f name = ask_io (\<lambda>w. err_as Sqlx (f w name))"

definition run_sql :: "pg_env \<Rightarrow> string \<Rightarrow> unit pio" where
  "run_sql E stmt = send_io (\<lambda>w r. case r of Execute s \<Rightarrow> err_as Sqlx (pe_execute E w s) | _ \<Rightarrow> Ok ()) (Execute stmt)"

definition apply_kube :: "pg_env \<Rightarrow> PgRequest \<Rightarrow> unit pio" where
  "apply_kube E = send_io (\<lambda>w r. err_as PgKube (pe_kube E w r))"

section \<open>Provisioning\<close>

definition validate_pg :: "PgDatabase \<Rightarrow> (string, unit) result" where
  "validate_pg obj =
     (let spec = pd_spec obj
      in if \<not> is_valid_ident (ps_database_name spec) then Err (''invalid databaseName: '' @ debug_text (ps_database_name spec))
         else (case (case ps_role_name spec of
                       Some r \<Rightarrow> if is_valid_ident r then Ok () else Err (''invalid roleName: '' @ debug_text r)
                     | None \<Rightarrow> Ok ()) of
                 Err e \<Rightarrow> Err e
               | Ok _ \<Rightarrow> check_all (\<lambda>db. if is_valid_ident db then Ok ()
                     else Err (''invalid additionalDatabases entry: '' @ debug_text db))
                   (case ps_additional_databases spec of None \<Rightarrow> [] | Some dbs \<Rightarrow> dbs)))"

definition role_raw :: "PgSpec \<Rightarrow> string" where
  "role_raw spec = (case ps_role_name spec of Some r \<Rightarrow> r | None \<Rightarrow> ps_database_name spec)"

definition create_role :: "string \<Rightarrow> string \<Rightarrow> string" where
  "create_role role pw = ''CREATE ROLE '' @ role @ '' WITH LOGIN PASSWORD '' @ quote_literal pw"

definition alter_role :: "string \<Rightarrow> string \<Rightarrow> string" where
  "alter_role role pw = ''ALTER ROLE '' @ role @ '' WITH LOGIN PASSWORD '' @ quote_literal pw"

definition create_database :: "string \<Rightarrow> string \<Rightarrow> string" where
  "create_database database role = ''CREATE DATABASE '' @ database @ '' OWNER '' @ role"

definition alter_database :: "string \<Rightarrow> string \<Rightarrow> string" where
  "alter_database database role = ''ALTER DATABASE '' @ database @ '' OWNER TO '' @ role"

definition grant_database :: "string \<Rightarrow> string \<Rightarrow> string" where
  "grant_database database role = ''GRANT ALL PRIVILEGES ON DATABASE '' @ database @ '' TO '' @ role"

definition grant_role :: "string \<Rightarrow> string \<Rightarrow> string" where
  "grant_role owner role = ''GRANT '' @ owner @ '' TO '' @ role"

definition grant_one :: "pg_env \<Rightarrow> string \<Rightarrow> string \<Rightarrow> string \<Rightarrow> unit pio" where
  "grant_one E raw role name =
     bind_io (ask_db (pe_database_owner E) name) (\<lambda>found.
       case found of
         None \<Rightarrow> ret ()
       | Some owner \<Rightarrow>
           if owner = raw then ret ()
           else bind_io (of_result (quote_ident name)) (\<lambda>database.
             then_io (run_sql E (grant_database database role))
             (bind_io (of_result (quote_ident owner)) (\<lambda>owner_role. run_sql E (grant_role owner_role role)))))"

definition grant_additional :: "pg_env \<Rightarrow> PgDatabase \<Rightarrow> string \<Rightarrow> string \<Rightarrow> unit pio" where
  "grant_additional E obj raw role =
     each_io (grant_one E raw role) (case ps_additional_databases (pd_spec obj) of None \<Rightarrow> [] | Some dbs \<Rightarrow> dbs)"

definition build_secret :: "pg_env \<Rightarrow> PgDatabase \<Rightarrow> string \<Rightarrow> string \<Rightarrow> PgSecret" where
  "build_secret E obj role password =
     (let host = pe_host E; port = show_nat (unat (pe_port E)); database = ps_database_name (pd_spec obj);
          db_url = ''postgresql://'' @ role @ '':'' @ password @ ''@'' @ host @ '':'' @ port @ ''/'' @ database
      in \<lparr>px_name = ps_secret_name (pd_spec obj), px_namespace = ps_secret_namespace (pd_spec obj),
          px_immutable = True, px_owned = True,
          px_string_data = sort_key fst
            [(''PGPASSWORD'', password), (''DATABASE_URL'', db_url), (''PGHOST'', host), (''PGPORT'', port),
             (''PGDATABASE'', database), (''PGUSER'', role)]\<rparr>)"

definition provision_role :: "pg_env \<Rightarrow> string \<Rightarrow> string option \<Rightarrow> bool \<Rightarrow> unit pio" where
  "provision_role E role password role_exists =
     (if \<not> role_exists then run_sql E (create_role role (case password of Some pw \<Rightarrow> pw | None \<Rightarrow> []))
      else (case password of Some pw \<Rightarrow> run_sql E (alter_role role pw) | None \<Rightarrow> ret ()))"

text \<open>\<open>(!secret_present).then(generate_password)\<close>, and the statement on the resource's own database.\<close>

definition fresh_password :: "pg_env \<Rightarrow> bool \<Rightarrow> string option pio" where
  "fresh_password E secret_present = (if secret_present then ret None else ask_io (\<lambda>w. Ok (Some (pe_password E w))))"

definition provision_database :: "pg_env \<Rightarrow> string \<Rightarrow> string \<Rightarrow> bool \<Rightarrow> unit pio" where
  "provision_database E database role db_exists =
     (if \<not> db_exists then run_sql E (create_database database role) else run_sql E (alter_database database role))"

definition provision_credentials :: "pg_env \<Rightarrow> PgDatabase \<Rightarrow> string \<Rightarrow> string option \<Rightarrow> unit pio" where
  "provision_credentials E obj raw password =
     (case password of Some pw \<Rightarrow> apply_kube E (ApplySecret (build_secret E obj raw pw)) | None \<Rightarrow> ret ())"

definition provision_pg :: "pg_env \<Rightarrow> PgDatabase \<Rightarrow> unit pio" where
  "provision_pg E obj =
     (let spec = pd_spec obj; raw = role_raw spec
      in bind_io (of_result (quote_ident (ps_database_name spec))) (\<lambda>database.
         bind_io (of_result (quote_ident raw)) (\<lambda>role.
         bind_io (ask_io (\<lambda>w. err_as PgKube (pe_secret_present E w (ps_secret_namespace spec) (ps_secret_name spec)))) (\<lambda>secret_present.
         bind_io (ask_db (pe_role_exists E) raw) (\<lambda>role_exists.
         bind_io (fresh_password E secret_present) (\<lambda>password.
         then_io (provision_role E role password role_exists)
         (bind_io (ask_db (pe_database_exists E) (ps_database_name spec)) (\<lambda>db_exists.
          then_io (provision_database E database role db_exists)
         (then_io (grant_additional E obj raw role)
          (provision_credentials E obj raw password))))))))))"

section \<open>Reconciliation\<close>

definition write_pg_status :: "pg_env \<Rightarrow> PgDatabase \<Rightarrow> (string, unit) result \<Rightarrow> PgError option \<Rightarrow> unit pio" where
  "write_pg_status E obj accepted failure =
     bind_io (of_result (case mt_namespace (pd_meta obj) of None \<Rightarrow> Err (PgMissingNamespace (mt_name (pd_meta obj))) | Some ns \<Rightarrow> Ok ns)) (\<lambda>ns.
     bind_io (ask_io (\<lambda>w. Ok (pe_now E w))) (\<lambda>now.
     bind_io (ask_io (\<lambda>w. Ok (pe_now E w))) (\<lambda>now'.
       apply_kube E (PatchPgStatus ns (mt_name (pd_meta obj))
         (status_conditions ''PostgresDatabase'' ''database, role, and credentials secret provisioned'' (pd_conditions obj)
            (mt_generation (pd_meta obj)) accepted (map_option pg_error_text failure) now now')))))"

definition reconcile_pg :: "pg_env \<Rightarrow> PgDatabase \<Rightarrow> nat option pio" where
  "reconcile_pg E obj =
     (let accepted = validate_pg obj
      in bind_io (case accepted of Ok _ \<Rightarrow> try_io (provision_pg E obj) | Err _ \<Rightarrow> ret (Ok ())) (\<lambda>provisioned.
         bind_io (try_io (write_pg_status E obj accepted (case provisioned of Err e \<Rightarrow> Some e | Ok _ \<Rightarrow> None)))
           (\<lambda>_ :: (PgError, unit) result.
         then_io (of_result (err_as PgValidation accepted))
         (then_io (of_result provisioned) (ret (Some 3600))))))"

definition pg_error_policy :: "PgError \<Rightarrow> nat" where
  "pg_error_policy e = 30"

end
