(* ===== verification/PgProperties.thy ===== *)
theory PgProperties
  imports PgControl
begin

text \<open>
  The properties of \<open>pg-db-controller\<close>: every statement reads back as one of the few commands its
  resource allows, and the secret holds the password the role was given.
\<close>

section \<open>Reading a statement\<close>

text \<open>A reader of statements for reference: words, quoted identifiers and string literals.\<close>

datatype sql_token = Word string | Ident string | Lit string

definition flush :: "string \<Rightarrow> sql_token list" where
  "flush w = (if w = [] then [] else [Word w])"

fun sql_word :: "string \<Rightarrow> string \<Rightarrow> sql_token list option"
  and sql_ident :: "string \<Rightarrow> string \<Rightarrow> sql_token list option"
  and sql_lit :: "string \<Rightarrow> string \<Rightarrow> sql_token list option" where
  "sql_word w [] = Some (flush w)"
| "sql_word w (c # cs) =
     (if c = CHR 0x20 then map_option ((@) (flush w)) (sql_word [] cs)
      else if c = CHR 0x22 then map_option ((@) (flush w)) (sql_ident [] cs)
      else if c = CHR 0x27 then map_option ((@) (flush w)) (sql_lit [] cs)
      else sql_word (w @ [c]) cs)"
| "sql_ident w [] = None"
| "sql_ident w (c # cs) =
     (if c = CHR 0x22 then
        (case cs of
           [] \<Rightarrow> Some [Ident w]
         | d # ds \<Rightarrow> if d = CHR 0x22 then sql_ident (w @ [c]) ds else map_option ((#) (Ident w)) (sql_word [] cs))
      else sql_ident (w @ [c]) cs)"
| "sql_lit w [] = None"
| "sql_lit w (c # cs) =
     (if c = CHR 0x27 then
        (case cs of
           [] \<Rightarrow> Some [Lit w]
         | d # ds \<Rightarrow> if d = CHR 0x27 then sql_lit (w @ [c]) ds else map_option ((#) (Lit w)) (sql_word [] cs))
      else sql_lit (w @ [c]) cs)"

definition read_sql :: "string \<Rightarrow> sql_token list option" where
  "read_sql = sql_word []"

text \<open>The commands of the controller.\<close>

datatype command =
    CreateRole string string
  | AlterRole string string
  | CreateDatabase string string
  | AlterDatabase string string
  | GrantDatabase string string
  | GrantRole string string

fun command_tokens :: "command \<Rightarrow> sql_token list" where
  "command_tokens (CreateRole r pw) = [Word ''CREATE'', Word ''ROLE'', Ident r, Word ''WITH'', Word ''LOGIN'', Word ''PASSWORD'', Lit pw]"
| "command_tokens (AlterRole r pw) = [Word ''ALTER'', Word ''ROLE'', Ident r, Word ''WITH'', Word ''LOGIN'', Word ''PASSWORD'', Lit pw]"
| "command_tokens (CreateDatabase d r) = [Word ''CREATE'', Word ''DATABASE'', Ident d, Word ''OWNER'', Ident r]"
| "command_tokens (AlterDatabase d r) = [Word ''ALTER'', Word ''DATABASE'', Ident d, Word ''OWNER'', Word ''TO'', Ident r]"
| "command_tokens (GrantDatabase d r) =
     [Word ''GRANT'', Word ''ALL'', Word ''PRIVILEGES'', Word ''ON'', Word ''DATABASE'', Ident d, Word ''TO'', Ident r]"
| "command_tokens (GrantRole owner r) = [Word ''GRANT'', Ident owner, Word ''TO'', Ident r]"

lemma valid_ident_chars:
  assumes "is_valid_ident i" "c \<in> set i"
  shows "ident_start c \<or> ident_digit c"
proof -
  have "c \<in> snd ` set (enumerate 0 i)" using assms(2) by (metis list.set_map map_snd_enumerate)
  then show ?thesis using assms(1) by (auto simp: is_valid_ident_def list_all_iff)
qed

lemma ident_no_quote: "is_valid_ident i \<Longrightarrow> CHR 0x22 \<notin> set i"
  using valid_ident_chars [of i "CHR 0x22"] by (auto simp: ident_start_def ident_digit_def)

lemma prepend_nothing [simp]: "map_option ((@) []) x = x"
  by (cases x) simp_all

lemma sql_ident_reads:
  "CHR 0x22 \<notin> set i \<Longrightarrow> s = [] \<or> hd s \<noteq> CHR 0x22 \<Longrightarrow>
     sql_ident w (i @ CHR 0x22 # s) = map_option ((#) (Ident (w @ i))) (sql_word [] s)"
proof (induction i arbitrary: w)
  case Nil
  then show ?case by (cases s) (auto simp: flush_def)
qed auto

lemma sql_lit_reads: "sql_lit w (concat (map (\<lambda>c. if c = CHR 0x27 then [c, c] else [c]) s) @ [CHR 0x27]) = Some [Lit (w @ s)]"
  by (induction s arbitrary: w) simp_all

lemma quoted_reads:
  assumes "quote_ident i = Ok q" "s = [] \<or> hd s \<noteq> CHR 0x22"
  shows "sql_word [] (q @ s) = map_option ((#) (Ident i)) (sql_word [] s)"
  using assms sql_ident_reads [of i s "[]"]
  by (auto simp: quote_ident_def ident_no_quote flush_def split: if_splits)

lemma literal_reads: "sql_word [] (quote_literal s) = Some [Lit s]"
  using sql_lit_reads [of "[]" s] by (simp add: quote_literal_def flush_def)

lemma quote_ident_Ok: "quote_ident i = Ok q \<longleftrightarrow> is_valid_ident i \<and> q = CHR 0x22 # i @ [CHR 0x22]"
  by (auto simp: quote_ident_def)

lemma statements_read:
  assumes "quote_ident r = Ok role"
  shows "read_sql (create_role role pw) = Some (command_tokens (CreateRole r pw))"
    and "read_sql (alter_role role pw) = Some (command_tokens (AlterRole r pw))"
    and "quote_ident d = Ok database \<Longrightarrow> read_sql (create_database database role) = Some (command_tokens (CreateDatabase d r))"
    and "quote_ident d = Ok database \<Longrightarrow> read_sql (alter_database database role) = Some (command_tokens (AlterDatabase d r))"
    and "quote_ident d = Ok database \<Longrightarrow> read_sql (grant_database database role) = Some (command_tokens (GrantDatabase d r))"
    and "quote_ident d = Ok database \<Longrightarrow> read_sql (grant_role database role) = Some (command_tokens (GrantRole d r))"
  using quoted_reads [OF assms, of "[]"] quoted_reads [OF assms, of "'' WITH LOGIN PASSWORD '' @ quote_literal pw"] literal_reads [of pw]
    quoted_reads [of d database]
  by (simp_all add: read_sql_def create_role_def alter_role_def create_database_def alter_database_def grant_database_def
      grant_role_def flush_def)

section \<open>What a reconciliation may execute\<close>

text \<open>
  The commands a resource allows: its own role gets a password, its own database gets its own role as
  owner, a database it lists is opened to the role, and so is the role that owns such a database.
\<close>

fun permitted :: "PgSpec \<Rightarrow> command \<Rightarrow> bool" where
  "permitted spec (CreateRole r pw) = (r = role_raw spec)"
| "permitted spec (AlterRole r pw) = (r = role_raw spec)"
| "permitted spec (CreateDatabase d r) = (d = ps_database_name spec \<and> r = role_raw spec)"
| "permitted spec (AlterDatabase d r) = (d = ps_database_name spec \<and> r = role_raw spec)"
| "permitted spec (GrantDatabase d r) = (List.member (concat (case ps_additional_databases spec of None \<Rightarrow> [] | Some ds \<Rightarrow> [ds])) d \<and> r = role_raw spec)"
| "permitted spec (GrantRole owner r) = (ps_additional_databases spec \<noteq> None \<and> owner \<noteq> r \<and> r = role_raw spec)"

definition concerns_pg :: "PgDatabase \<Rightarrow> PgRequest \<Rightarrow> bool" where
  "concerns_pg obj r \<longleftrightarrow> (case r of
      Execute stmt \<Rightarrow> (\<exists>c. read_sql stmt = Some (command_tokens c) \<and> permitted (pd_spec obj) c)
    | ApplySecret s \<Rightarrow> px_name s = ps_secret_name (pd_spec obj) \<and> px_namespace s = ps_secret_namespace (pd_spec obj)
        \<and> map_of (px_string_data s) ''PGUSER'' = Some (role_raw (pd_spec obj))
    | PatchPgStatus ns n _ \<Rightarrow> mt_namespace (pd_meta obj) = Some ns \<and> n = mt_name (pd_meta obj))"

lemma only_result_bind: "(\<And>x. r = Ok x \<Longrightarrow> only P (f x)) \<Longrightarrow> only P (bind_io (of_result r) f)"
  by (cases r) (simp_all add: only_def bind_io_def of_result_def)

lemma run_sql_only: "P (Execute s) \<Longrightarrow> only P (run_sql E s)"
  unfolding run_sql_def by (rule only_send)

lemma concerns_execute: "read_sql stmt = Some (command_tokens c) \<Longrightarrow> permitted (pd_spec obj) c \<Longrightarrow> concerns_pg obj (Execute stmt)"
  unfolding concerns_pg_def by auto

lemma executes:
  assumes "quote_ident (role_raw (pd_spec obj)) = Ok role"
  shows "concerns_pg obj (Execute (create_role role pw))" "concerns_pg obj (Execute (alter_role role pw))"
    and "quote_ident (ps_database_name (pd_spec obj)) = Ok database \<Longrightarrow> concerns_pg obj (Execute (create_database database role))"
    and "quote_ident (ps_database_name (pd_spec obj)) = Ok database \<Longrightarrow> concerns_pg obj (Execute (alter_database database role))"
    and "ps_additional_databases (pd_spec obj) = Some ds \<Longrightarrow> d \<in> set ds \<Longrightarrow> quote_ident d = Ok database \<Longrightarrow>
           concerns_pg obj (Execute (grant_database database role))"
    and "ps_additional_databases (pd_spec obj) = Some ds \<Longrightarrow> owner \<noteq> role_raw (pd_spec obj) \<Longrightarrow> quote_ident owner = Ok database \<Longrightarrow>
           concerns_pg obj (Execute (grant_role database role))"
proof -
  note reads = statements_read [OF assms]
  show "concerns_pg obj (Execute (create_role role pw))" "concerns_pg obj (Execute (alter_role role pw))"
    by (rule concerns_execute [OF reads(1)], simp, rule concerns_execute [OF reads(2)], simp)
  show "quote_ident (ps_database_name (pd_spec obj)) = Ok database \<Longrightarrow> concerns_pg obj (Execute (create_database database role))"
    by (rule concerns_execute [OF reads(3)]) simp_all
  show "quote_ident (ps_database_name (pd_spec obj)) = Ok database \<Longrightarrow> concerns_pg obj (Execute (alter_database database role))"
    by (rule concerns_execute [OF reads(4)]) simp_all
  show "ps_additional_databases (pd_spec obj) = Some ds \<Longrightarrow> d \<in> set ds \<Longrightarrow> quote_ident d = Ok database \<Longrightarrow>
           concerns_pg obj (Execute (grant_database database role))"
    by (rule concerns_execute [OF reads(5)]) simp_all
  show "ps_additional_databases (pd_spec obj) = Some ds \<Longrightarrow> owner \<noteq> role_raw (pd_spec obj) \<Longrightarrow> quote_ident owner = Ok database \<Longrightarrow>
           concerns_pg obj (Execute (grant_role database role))"
    by (rule concerns_execute [OF reads(6)]) simp_all
qed

lemma grant_concerns:
  assumes "quote_ident (role_raw (pd_spec obj)) = Ok role"
  shows "only (concerns_pg obj) (grant_additional E obj (role_raw (pd_spec obj)) role)"
proof (cases "ps_additional_databases (pd_spec obj)")
  case None
  then show ?thesis by (simp add: grant_additional_def only_ret)
next
  case (Some ds)
  have "only (concerns_pg obj) (grant_one E (role_raw (pd_spec obj)) role d)" if "d \<in> set ds" for d
    unfolding grant_one_def ask_db_def
    by (rule only_bind, rule only_ask)
      (auto split: option.split intro!: only_intros only_result_bind run_sql_only executes [OF assms] Some that)
  then show ?thesis using Some by (auto simp: grant_additional_def intro: only_each)
qed

lemma provision_pg_concerns: "only (concerns_pg obj) (provision_pg E obj)"
  unfolding provision_pg_def provision_role_def fresh_password_def provision_database_def provision_credentials_def ask_db_def apply_kube_def Let_def
  by (intro only_result_bind only_bind only_then only_if only_ask only_ret)
    (auto split: option.split intro!: only_intros run_sql_only executes grant_concerns simp: concerns_pg_def [of obj "ApplySecret _"] build_secret_def Let_def)

text \<open>
  C20: Whatever the database and Kubernetes answer, every statement a reconciliation executes reads back as
  one of the commands that its resource allows, with the names and the password in place as one
  identifier or one literal each: nothing in a resource, in the password or in the name of an owner can add
  to a statement. In particular the owner of a database listed under \<open>additionalDatabases\<close> is never
  changed. The secret and the status it writes are those of the resource.
\<close>

theorem statements_are_confined: "only (concerns_pg obj) (reconcile_pg E obj)"
proof -
  have "only (concerns_pg obj) (write_pg_status E obj accepted failure)" for accepted failure
    unfolding write_pg_status_def apply_kube_def
    by (rule only_result_bind, intro only_intros) (auto simp: concerns_pg_def split: option.splits)
  then show ?thesis
    unfolding reconcile_pg_def Let_def
    by (intro only_intros) (auto split: sum.split intro: only_intros provision_pg_concerns)
qed

section \<open>The credentials\<close>

text \<open>The password a statement gives to a role, and the password the role has after some requests.\<close>

fun given_password :: "string \<Rightarrow> sql_token list \<Rightarrow> string option" where
  "given_password r [Word verb, Word kind, Ident r', Word _, Word _, Word _, Lit pw] =
     (if kind = ''ROLE'' \<and> r' = r then Some pw else None)"
| "given_password r _ = None"

definition gives :: "string \<Rightarrow> PgRequest \<Rightarrow> string option" where
  "gives r req = (case req of Execute stmt \<Rightarrow> Option.bind (read_sql stmt) (given_password r) | _ \<Rightarrow> None)"

definition role_password :: "string \<Rightarrow> PgRequest list \<Rightarrow> string option \<Rightarrow> string option" where
  "role_password r = fold (\<lambda>req acc. case gives r req of None \<Rightarrow> acc | Some pw \<Rightarrow> Some pw)"

definition neutral :: "string \<Rightarrow> PgRequest \<Rightarrow> bool" where
  "neutral r req \<longleftrightarrow> gives r req = None \<and> (\<forall>s. req \<noteq> ApplySecret s)"

lemma role_password_simps [simp]:
  "role_password r [] old = old"
  "role_password r (req # reqs) old = role_password r reqs (case gives r req of None \<Rightarrow> old | Some pw \<Rightarrow> Some pw)"
  "role_password r (xs @ ys) old = role_password r ys (role_password r xs old)"
  by (simp_all add: role_password_def)

lemma neutral_keeps: "list_all (neutral r) reqs \<Longrightarrow> role_password r reqs old = old"
  by (induction reqs arbitrary: old) (simp_all add: neutral_def)

lemma run_sql_Ok: "run_sql E s w = (Ok x, w') \<longleftrightarrow>
    pe_execute E w s = Ok () \<and> w' = w\<lparr>wd_calls := Suc (wd_calls w), wd_sent := wd_sent w @ [Execute s]\<rparr>"
  by (simp add: run_sql_def send_Ok)

lemma statements_neutral:
  assumes "quote_ident r = Ok role"
  shows "quote_ident d = Ok database \<Longrightarrow> neutral r' (Execute (create_database database role))"
    and "quote_ident d = Ok database \<Longrightarrow> neutral r' (Execute (alter_database database role))"
    and "quote_ident d = Ok database \<Longrightarrow> neutral r' (Execute (grant_database database role))"
    and "quote_ident d = Ok database \<Longrightarrow> neutral r' (Execute (grant_role database role))"
  using statements_read [OF assms] by (simp_all add: neutral_def gives_def)

lemma statements_give:
  assumes "quote_ident r = Ok role"
  shows "gives r (Execute (create_role role pw)) = Some pw" "gives r (Execute (alter_role role pw)) = Some pw"
  using statements_read [OF assms] by (simp_all add: gives_def)

lemma grant_neutral:
  assumes "quote_ident r = Ok role"
  shows "only (neutral r') (grant_additional E obj raw role)"
  unfolding grant_additional_def
proof (rule only_each)
  fix d
  show "only (neutral r') (grant_one E raw role d)"
    unfolding grant_one_def ask_db_def
    by (rule only_bind, rule only_ask)
      (auto split: option.split intro!: only_intros only_result_bind run_sql_only statements_neutral [OF assms])
qed

text \<open>
  C21: When the secret is missing, a provisioning that returns ends by writing it, and the password in it is the
  one the role was last given. When the secret is there it is not written, and the role keeps its
  password; but a role that is missing is created with the empty password, which the secret does not hold.
\<close>

theorem secret_holds_the_password:
  assumes returned: "provision_pg E obj w = (Ok (), w')"
  shows "\<exists>reqs. wd_sent w' = wd_sent w @ reqs
    \<and> (pe_secret_present E w (ps_secret_namespace (pd_spec obj)) (ps_secret_name (pd_spec obj)) = Ok False \<longrightarrow>
        (\<exists>sec pw. last reqs = ApplySecret sec \<and> map_of (px_string_data sec) ''PGPASSWORD'' = Some pw
           \<and> role_password (role_raw (pd_spec obj)) reqs old = Some pw))
    \<and> (pe_secret_present E w (ps_secret_namespace (pd_spec obj)) (ps_secret_name (pd_spec obj)) = Ok True \<longrightarrow>
        (\<forall>sec. ApplySecret sec \<notin> set reqs)
        \<and> role_password (role_raw (pd_spec obj)) reqs old
            = (if pe_role_exists E (w\<lparr>wd_calls := Suc (wd_calls w)\<rparr>) (role_raw (pd_spec obj)) = Ok True then old else Some []))"
proof -
  let ?spec = "pd_spec obj" and ?r = "role_raw (pd_spec obj)"
  from returned obtain database role present exists password dbx w1 w2 w3 w4 where
      q: "quote_ident (ps_database_name ?spec) = Ok database" "quote_ident ?r = Ok role"
    and present: "pe_secret_present E w (ps_secret_namespace ?spec) (ps_secret_name ?spec) = Ok present"
    and exists: "pe_role_exists E (w\<lparr>wd_calls := Suc (wd_calls w)\<rparr>) ?r = Ok exists"
    and pw: "fresh_password E present (w\<lparr>wd_calls := Suc (Suc (wd_calls w))\<rparr>) = (Ok password, w1)"
    and role: "provision_role E role password exists w1 = (Ok (), w2)"
    and db: "provision_database E database role dbx (w2\<lparr>wd_calls := Suc (wd_calls w2)\<rparr>) = (Ok (), w3)"
    and grants: "grant_additional E obj ?r role w3 = (Ok (), w4)"
    and secret: "provision_credentials E obj ?r password w4 = (Ok (), w')"
    by (auto simp: provision_pg_def Let_def ask_db_def bind_Ok then_Ok of_result_Ok ask_Ok)
  have w1: "wd_sent w1 = wd_sent w" and password: "password = None \<longleftrightarrow> present"
    using pw by (auto simp: fresh_password_def ret_Ok ask_Ok split: if_splits)
  obtain stmt where db: "wd_sent w3 = wd_sent w2 @ [Execute stmt]" and neutral_db: "neutral ?r (Execute stmt)"
    using db statements_neutral [OF q(2) q(1)] by (auto simp: provision_database_def run_sql_Ok split: if_splits)
  obtain gs where gs: "wd_sent w4 = wd_sent w3 @ gs" "list_all (neutral ?r) gs"
    using only_sent [OF grant_neutral [OF q(2)] grants] by blast
  define mid where "mid = Execute stmt # gs"
  have mid: "wd_sent w4 = wd_sent w2 @ mid" "list_all (neutral ?r) mid" using db gs neutral_db by (simp_all add: mid_def)
  show ?thesis
  proof (cases password)
    case None
    then have here: "present" "w' = w4" using password secret by (simp_all add: provision_credentials_def ret_Ok)
    have "\<exists>rs. wd_sent w2 = wd_sent w @ rs \<and> (\<forall>sec. ApplySecret sec \<notin> set rs)
        \<and> role_password ?r rs old = (if exists then old else Some [])"
      using role None w1 statements_give [OF q(2)]
      by (cases exists) (auto simp: provision_role_def ret_Ok run_sql_Ok intro: exI [of _ "[]"] exI [of _ "[Execute s]" for s])
    then obtain rs where "wd_sent w2 = wd_sent w @ rs" "\<forall>sec. ApplySecret sec \<notin> set rs"
        "role_password ?r rs old = (if exists then old else Some [])" by blast
    then show ?thesis
      using mid present exists here neutral_keeps [OF mid(2)]
      by (intro exI [of _ "rs @ mid"]) (auto simp: list_all_iff neutral_def)
  next
    case (Some pw)
    have "\<exists>stmt. wd_sent w2 = wd_sent w @ [Execute stmt] \<and> gives ?r (Execute stmt) = Some pw"
      using role Some w1 statements_give [OF q(2)] by (auto simp: provision_role_def run_sql_Ok split: if_splits)
    then obtain stmt where stmt: "wd_sent w2 = wd_sent w @ [Execute stmt]" "gives ?r (Execute stmt) = Some pw" by blast
    have "wd_sent w' = wd_sent w4 @ [ApplySecret (build_secret E obj ?r pw)]"
      using secret Some by (simp add: provision_credentials_def apply_kube_def send_Ok)
    moreover have "map_of (px_string_data (build_secret E obj ?r pw)) ''PGPASSWORD'' = Some pw"
      by (simp add: build_secret_def Let_def)
    moreover have "gives ?r (ApplySecret sec) = None" for sec by (simp add: gives_def)
    ultimately show ?thesis
      using mid stmt present password Some neutral_keeps [OF mid(2)]
      by (intro exI [of _ "Execute stmt # mid @ [ApplySecret (build_secret E obj ?r pw)]"]) auto
  qed
qed

text \<open>A database for examples: \<open>shop\<close> has neither role nor database nor secret, \<open>legacy\<close> belongs to \<open>owner\<close>.\<close>

definition example_pg :: pg_env where
  "example_pg = \<lparr>pe_secret_present = (\<lambda>_ _ _. Ok False), pe_role_exists = (\<lambda>_ _. Ok False), pe_database_exists = (\<lambda>_ _. Ok False),
     pe_database_owner = (\<lambda>_ n. Ok (if n = ''legacy'' then Some ''owner'' else None)), pe_execute = (\<lambda>_ _. Ok ()),
     pe_kube = (\<lambda>_ _. Ok ()), pe_password = (\<lambda>_. ''it's''), pe_host = ''pg'', pe_port = 5432, pe_now = (\<lambda>_. ''now'')\<rparr>"

definition example_database :: PgDatabase where
  "example_database = \<lparr>pd_meta = \<lparr>mt_name = ''shop'', mt_namespace = Some ''apps'', mt_generation = Some 1\<rparr>,
     pd_spec = \<lparr>ps_database_name = ''shop'', ps_role_name = None, ps_additional_databases = Some [''gone'', ''legacy''],
       ps_secret_name = ''shop-db'', ps_secret_namespace = ''apps''\<rparr>, pd_conditions = None\<rparr>"

definition quiet :: pworld where
  "quiet = \<lparr>wd_calls = 0, wd_sent = []\<rparr>"

lemma example_idents:
  "quote_ident ''shop'' = Ok (CHR 0x22 # ''shop'' @ [CHR 0x22])" "quote_ident ''legacy'' = Ok (CHR 0x22 # ''legacy'' @ [CHR 0x22])"
  "quote_ident ''owner'' = Ok (CHR 0x22 # ''owner'' @ [CHR 0x22])"
  by code_simp+

lemma example_provisions: "\<exists>w'. provision_pg example_pg example_database quiet = (Ok (), w')"
  using example_idents
  by (simp add: provision_pg_def io_simps Let_def ask_db_def provision_role_def run_sql_def grant_additional_def grant_one_def
      apply_kube_def fresh_password_def provision_database_def provision_credentials_def example_database_def example_pg_def quiet_def role_raw_def ex_bool_eq)

lemma secret_holds_the_password_witness:
  "\<exists>sec pw. last (wd_sent (snd (provision_pg example_pg example_database quiet))) = ApplySecret sec
     \<and> map_of (px_string_data sec) ''PGPASSWORD'' = Some pw
     \<and> role_password ''shop'' (wd_sent (snd (provision_pg example_pg example_database quiet))) None = Some pw"
proof -
  obtain w' where w': "provision_pg example_pg example_database quiet = (Ok (), w')" using example_provisions by blast
  moreover have "role_raw (pd_spec example_database) = ''shop''" by (simp add: example_database_def role_raw_def)
  moreover have "pe_secret_present example_pg quiet n m = Ok False" "wd_sent quiet = []" for n m
    by (simp_all add: example_pg_def quiet_def)
  ultimately show ?thesis using secret_holds_the_password [OF w', of None] by auto
qed

end
