(* ===== verification/BotForgejo.thy ===== *)
theory BotForgejo
  imports Reconcile RuleCommand
begin

text \<open>
  The bot's client of Forgejo, \<open>janitor-bot/src/forgejo/mod.rs\<close> and \<open>types.rs\<close>, in the steps of
  \<open>Reconcile\<close>: what it sends, what it makes of the answers, and when it tries again. The answers of the
  API are in \<open>forgejo\<close>, by the world so far. Bodies of the HTTP calls that \<open>serde_json\<close> decodes come
  decoded. Waiting is a request of its own.
\<close>

text \<open>A cut at \<open>n\<close> bytes (\<open>&s[..n]\<close>, \<open>truncate\<close>) panics unless it is at the first byte of a character.\<close>

definition is_char_boundary :: "string \<Rightarrow> nat \<Rightarrow> bool" where
  "is_char_boundary s n = (n = 0 \<or> n = length s \<or> (n < length s \<and> \<not> (128 \<le> byte (s ! n) \<and> byte (s ! n) < 192)))"

section \<open>The API\<close>

datatype ApiErrorKind = NotFoundKind | OtherKind nat | NamedKind

text \<open>\<open>OtherError\<close> is any error that is not an answer of the API, with its text.\<close>

datatype ForgejoError = ApiError ApiErrorKind string | OtherError string

fun forgejo_error_text :: "ForgejoError \<Rightarrow> string" where
  "forgejo_error_text (ApiError k m) = m"
| "forgejo_error_text (OtherError m) = m"

datatype FjRequest =
    CreateReview string string i64 string "string option"
  | MergePull string string i64 MergeDo bool
  | CreateComment string string i64 string
  | EditComment string string i64 string
  | AddLabelIds string string i64 "i64 list"
  | AddLabelNames string string i64 "string list"
  | RemoveLabel string string i64 i64
  | CreateIssue string string string string "i64 list option"
  | EditState string string i64 string
  | CreateLabel string string string string
  | DeleteBranch string string string
  | PostReaction string string i64 string
  | CreateStatus string string string CommitStatusState string string "string option"
  | CreatePull string string string string string string
  | WaitSeconds nat
  | RunArgocdDiff "string list"
  | AskModel string nat
  | WriteFile string string
  | PushBranch string string

type_synonym fworld = "FjRequest world"

type_synonym 'a fio = "(FjRequest, ForgejoError, 'a) io"

record Review =
  rv_login :: "string option"
  rv_state :: "string option"
  rv_dismissed :: "bool option"

record ActionRunJob =
  aj_id :: "i64 option"
  aj_name :: "string option"
  aj_status :: "string option"

record RawStatusEntry =
  rs_context :: "string option"
  rs_status :: "string option"
  rs_description :: "string option"
  rs_target_url :: "string option"

record RawCombinedStatus =
  rc_state :: "string option"
  rc_total_count :: "i64 option"
  rc_statuses :: "RawStatusEntry list"

record StatusEntry =
  st_context :: string
  st_state :: CommitStatusState
  st_description :: string
  st_target_url :: string

record CombinedStatus =
  cs_state :: CommitStatusState
  cs_total_count :: i64
  cs_statuses :: "StatusEntry list"

record BotComment =
  bc_id :: i64
  bc_body :: string

record OpenIssue =
  ir_number :: "i64 option"
  ir_title :: "string option"

record forgejo =
  fj_base_url :: string
  fj_accepts :: "fworld \<Rightarrow> FjRequest \<Rightarrow> (ForgejoError, unit) result"
  fj_created :: "fworld \<Rightarrow> FjRequest \<Rightarrow> (ForgejoError, i64 option) result"
  fj_reviews :: "fworld \<Rightarrow> string \<Rightarrow> string \<Rightarrow> i64 \<Rightarrow> (ForgejoError, Review list) result"
  fj_pull :: "fworld \<Rightarrow> string \<Rightarrow> string \<Rightarrow> i64 \<Rightarrow> (ForgejoError, ApiPr) result"
  fj_open_pulls :: "fworld \<Rightarrow> string \<Rightarrow> string \<Rightarrow> (ForgejoError, ApiPr list) result"
  fj_labels :: "fworld \<Rightarrow> string \<Rightarrow> string \<Rightarrow> (ForgejoError, ApiLabel list) result"
  fj_open_issues :: "fworld \<Rightarrow> string \<Rightarrow> string \<Rightarrow> string \<Rightarrow> (ForgejoError, OpenIssue list) result"
  fj_commit_files :: "fworld \<Rightarrow> string \<Rightarrow> string \<Rightarrow> string \<Rightarrow> (ForgejoError, string option list option) result"
  fj_pull_files :: "fworld \<Rightarrow> string \<Rightarrow> string \<Rightarrow> i64 \<Rightarrow> (ForgejoError, string option list) result"
  fj_branch :: "fworld \<Rightarrow> string \<Rightarrow> string \<Rightarrow> string \<Rightarrow> (ForgejoError, unit) result"
  fj_jobs :: "fworld \<Rightarrow> string \<Rightarrow> string \<Rightarrow> i64 \<Rightarrow> (ForgejoError, ActionRunJob list) result"
  fj_job_logs :: "fworld \<Rightarrow> string \<Rightarrow> string \<Rightarrow> i64 \<Rightarrow> (ForgejoError, string) result"
  fj_raw :: "fworld \<Rightarrow> string \<Rightarrow> string \<Rightarrow> string \<Rightarrow> string \<Rightarrow> (ForgejoError, string) result"
  fj_status :: "fworld \<Rightarrow> string \<Rightarrow> string \<Rightarrow> string \<Rightarrow> (ForgejoError, RawCombinedStatus) result"
  fj_comments :: "fworld \<Rightarrow> string \<Rightarrow> string \<Rightarrow> i64 \<Rightarrow> (ForgejoError, json list) result"
  fj_url :: "string \<Rightarrow> string option"

definition fj_do :: "forgejo \<Rightarrow> FjRequest \<Rightarrow> unit fio" where
  "fj_do F = send_io (fj_accepts F)"

text \<open>A request that answers with the number of what it created.\<close>

definition fj_create :: "forgejo \<Rightarrow> FjRequest \<Rightarrow> i64 option fio" where
  "fj_create F r w = (fj_created F w r, w\<lparr>wd_calls := Suc (wd_calls w), wd_sent := wd_sent w @ [r]\<rparr>)"

definition wait_seconds :: "nat \<Rightarrow> unit fio" where
  "wait_seconds n w = (Ok (), w\<lparr>wd_sent := wd_sent w @ [WaitSeconds n]\<rparr>)"

section \<open>Pull requests\<close>

definition BOT_USERNAME :: string where "BOT_USERNAME = ''janitor''"

definition clone_url_of :: "forgejo \<Rightarrow> string \<Rightarrow> string \<Rightarrow> string" where
  "clone_url_of F owner repo = fj_base_url F @ ''/'' @ owner @ ''/'' @ repo @ ''.git''"

definition approves :: "Review \<Rightarrow> bool" where
  "approves r = (rv_login r = Some BOT_USERNAME \<and> rv_state r = Some ''APPROVED'' \<and> rv_dismissed r \<noteq> Some True)"

definition pr_approved_by_bot :: "forgejo \<Rightarrow> string \<Rightarrow> string \<Rightarrow> i64 \<Rightarrow> bool fio" where
  "pr_approved_by_bot F owner repo pr =
     bind_io (try_io (ask_io (\<lambda>w. fj_reviews F w owner repo pr)))
       (\<lambda>r. ret (case r of Ok reviews \<Rightarrow> list_ex approves reviews | Err _ \<Rightarrow> False))"

definition approve_pr :: "forgejo \<Rightarrow> string \<Rightarrow> string \<Rightarrow> i64 \<Rightarrow> string option \<Rightarrow> unit fio" where
  "approve_pr F owner repo pr body = fj_do F (CreateReview owner repo pr ''APPROVED'' body)"

fun is_mergeability_pending :: "ForgejoError \<Rightarrow> bool" where
  "is_mergeability_pending (ApiError (OtherKind s) m) = (s = 405)"
| "is_mergeability_pending _ = False"

definition MAX_ATTEMPTS :: nat where "MAX_ATTEMPTS = 5"

function merge_loop :: "forgejo \<Rightarrow> FjRequest \<Rightarrow> nat \<Rightarrow> fworld \<Rightarrow> (ForgejoError, unit) result \<times> fworld" where
  "merge_loop F r attempt w =
     (case fj_do F r w of
        (Ok _, w1) \<Rightarrow> (Ok (), w1)
      | (Err e, w1) \<Rightarrow>
          if attempt < MAX_ATTEMPTS \<and> is_mergeability_pending e
          then merge_loop F r (Suc attempt) (snd (wait_seconds (2 ^ (attempt - 1)) w1))
          else (Err e, w1))"
  by pat_completeness auto
termination
  by (relation "measure (\<lambda>(F, r, attempt, w). MAX_ATTEMPTS - attempt)") auto

declare merge_loop.simps [simp del]

definition merge_pr :: "forgejo \<Rightarrow> string \<Rightarrow> string \<Rightarrow> i64 \<Rightarrow> MergeDo \<Rightarrow> bool \<Rightarrow> unit fio" where
  "merge_pr F owner repo pr strategy delete_branch = merge_loop F (MergePull owner repo pr strategy delete_branch) 1"

definition comment_on :: "forgejo \<Rightarrow> string \<Rightarrow> string \<Rightarrow> i64 \<Rightarrow> string \<Rightarrow> unit fio" where
  "comment_on F owner repo pr body = fj_do F (CreateComment owner repo pr body)"

definition is_pr_mergeable :: "forgejo \<Rightarrow> string \<Rightarrow> string \<Rightarrow> i64 \<Rightarrow> bool option fio" where
  "is_pr_mergeable F owner repo pr =
     bind_io (try_io (ask_io (\<lambda>w. fj_pull F w owner repo pr)))
       (\<lambda>r. ret (case r of Ok p \<Rightarrow> ap_mergeable p | Err _ \<Rightarrow> None))"

definition is_pr_open :: "forgejo \<Rightarrow> string \<Rightarrow> string \<Rightarrow> i64 \<Rightarrow> bool fio" where
  "is_pr_open F owner repo pr =
     bind_io (try_io (ask_io (\<lambda>w. fj_pull F w owner repo pr)))
       (\<lambda>r. ret (case r of Ok p \<Rightarrow> ap_is_open p \<and> ap_merged p \<noteq> Some True | Err _ \<Rightarrow> False))"

definition pr_head_ref :: "forgejo \<Rightarrow> string \<Rightarrow> string \<Rightarrow> i64 \<Rightarrow> string fio" where
  "pr_head_ref F owner repo pr =
     bind_io (ask_io (\<lambda>w. fj_pull F w owner repo pr))
       (\<lambda>p. case ap_head_ref p of Some r \<Rightarrow> ret r | None \<Rightarrow> throw (OtherError ''PR head ref not found''))"

definition commit_changed_files :: "forgejo \<Rightarrow> string \<Rightarrow> string \<Rightarrow> string \<Rightarrow> string list fio" where
  "commit_changed_files F owner repo sha =
     bind_io (ask_io (\<lambda>w. fj_commit_files F w owner repo sha))
       (\<lambda>files. ret (List.map_filter (\<lambda>f. f) (case files of None \<Rightarrow> [] | Some fs \<Rightarrow> fs)))"

definition pr_changed_files :: "forgejo \<Rightarrow> string \<Rightarrow> string \<Rightarrow> i64 \<Rightarrow> string list fio" where
  "pr_changed_files F owner repo pr =
     bind_io (ask_io (\<lambda>w. fj_pull_files F w owner repo pr)) (\<lambda>files. ret (List.map_filter (\<lambda>f. f) files))"

definition set_pr_state :: "forgejo \<Rightarrow> string \<Rightarrow> string \<Rightarrow> i64 \<Rightarrow> string \<Rightarrow> unit fio" where
  "set_pr_state F owner repo pr state = fj_do F (EditState owner repo pr state)"

definition create_pull_request ::
  "forgejo \<Rightarrow> string \<Rightarrow> string \<Rightarrow> string \<Rightarrow> string \<Rightarrow> string \<Rightarrow> string \<Rightarrow> i64 option fio" where
  "create_pull_request F owner repo title body head base = fj_create F (CreatePull owner repo title body head base)"

definition list_open_prs :: "forgejo \<Rightarrow> string \<Rightarrow> string \<Rightarrow> ApiPr list fio" where
  "list_open_prs F owner repo = ask_io (\<lambda>w. fj_open_pulls F w owner repo)"

definition get_pr :: "forgejo \<Rightarrow> string \<Rightarrow> string \<Rightarrow> i64 \<Rightarrow> ApiPr fio" where
  "get_pr F owner repo pr = ask_io (\<lambda>w. fj_pull F w owner repo pr)"

definition raw_file :: "forgejo \<Rightarrow> string \<Rightarrow> string \<Rightarrow> string \<Rightarrow> string \<Rightarrow> string fio" where
  "raw_file F owner repo path git_ref = ask_io (\<lambda>w. fj_raw F w owner repo path git_ref)"

text \<open>A branch that is gone is not deleted again; any other answer about it is left to the deletion.\<close>

definition delete_branch :: "forgejo \<Rightarrow> string \<Rightarrow> string \<Rightarrow> string \<Rightarrow> unit fio" where
  "delete_branch F owner repo branch =
     bind_io (try_io (ask_io (\<lambda>w. fj_branch F w owner repo branch))) (\<lambda>r.
       case r of
         Err (ApiError NotFoundKind _) \<Rightarrow> ret ()
       | _ \<Rightarrow> fj_do F (DeleteBranch owner repo branch))"

section \<open>Labels and issues\<close>

definition add_labels :: "forgejo \<Rightarrow> string \<Rightarrow> string \<Rightarrow> i64 \<Rightarrow> i64 list \<Rightarrow> unit fio" where
  "add_labels F owner repo pr ids = fj_do F (AddLabelIds owner repo pr ids)"

definition add_labels_by_name :: "forgejo \<Rightarrow> string \<Rightarrow> string \<Rightarrow> i64 \<Rightarrow> string list \<Rightarrow> unit fio" where
  "add_labels_by_name F owner repo pr labels = fj_do F (AddLabelNames owner repo pr labels)"

definition label_id_of :: "ApiLabel list \<Rightarrow> string \<Rightarrow> i64 option" where
  "label_id_of all_labels name = Option.bind (List.find (\<lambda>l. al_name l = Some name) all_labels) al_id"

definition remove_label_named :: "forgejo \<Rightarrow> string \<Rightarrow> string \<Rightarrow> i64 \<Rightarrow> ApiLabel list \<Rightarrow> string \<Rightarrow> unit fio" where
  "remove_label_named F owner repo pr all_labels name =
     (case label_id_of all_labels name of
        None \<Rightarrow> ret ()
      | Some i \<Rightarrow> bind_io (try_io (fj_do F (RemoveLabel owner repo pr i))) (\<lambda>_ :: (ForgejoError, unit) result. ret ()))"

definition remove_labels_by_name :: "forgejo \<Rightarrow> string \<Rightarrow> string \<Rightarrow> i64 \<Rightarrow> string list \<Rightarrow> unit fio" where
  "remove_labels_by_name F owner repo pr labels =
     bind_io (ask_io (\<lambda>w. fj_labels F w owner repo))
       (\<lambda>all_labels. each_io (remove_label_named F owner repo pr all_labels) labels)"

definition ensure_labels :: "forgejo \<Rightarrow> string \<Rightarrow> string \<Rightarrow> (string \<times> string) list \<Rightarrow> unit fio" where
  "ensure_labels F owner repo labels =
     bind_io (ask_io (\<lambda>w. fj_labels F w owner repo)) (\<lambda>existing.
       let existing_names = List.map_filter al_name existing
       in each_io (\<lambda>(name, color). when_io (\<not> List.member existing_names name) (fj_do F (CreateLabel owner repo name color))) labels)"

definition find_open_issue :: "forgejo \<Rightarrow> string \<Rightarrow> string \<Rightarrow> string \<Rightarrow> OpenIssue option fio" where
  "find_open_issue F owner repo title =
     bind_io (ask_io (\<lambda>w. fj_open_issues F w owner repo title))
       (\<lambda>issues. ret (List.find (\<lambda>i. ir_title i = Some title) issues))"

definition create_issue_with_labels ::
  "forgejo \<Rightarrow> string \<Rightarrow> string \<Rightarrow> string \<Rightarrow> string \<Rightarrow> string list \<Rightarrow> i64 option fio" where
  "create_issue_with_labels F owner repo title body label_names =
     bind_io
       (if label_names = [] then ret None
        else bind_io (ask_io (\<lambda>w. fj_labels F w owner repo)) (\<lambda>all_labels.
          ret (Some (List.map_filter al_id
            (filter (\<lambda>l. case al_name l of Some n \<Rightarrow> List.member label_names n | None \<Rightarrow> False) all_labels)))))
       (\<lambda>ids. fj_create F (CreateIssue owner repo title body ids))"

definition comment_on_issue :: "forgejo \<Rightarrow> string \<Rightarrow> string \<Rightarrow> i64 \<Rightarrow> string \<Rightarrow> unit fio" where
  "comment_on_issue F owner repo index body = fj_do F (CreateComment owner repo index body)"

definition close_issue :: "forgejo \<Rightarrow> string \<Rightarrow> string \<Rightarrow> i64 \<Rightarrow> unit fio" where
  "close_issue F owner repo index = fj_do F (EditState owner repo index ''closed'')"

definition react_to_comment :: "forgejo \<Rightarrow> string \<Rightarrow> string \<Rightarrow> i64 \<Rightarrow> string \<Rightarrow> unit fio" where
  "react_to_comment F owner repo comment_id reaction = fj_do F (PostReaction owner repo comment_id reaction)"

section \<open>Statuses and logs\<close>

definition status_of_name :: "string \<Rightarrow> CommitStatusState" where
  "status_of_name s =
     (if s = ''success'' then FSuccess else if s = ''failure'' then FFailure
      else if s = ''error'' then FError else if s = ''pending'' then FPending else FWarning)"

definition set_commit_status :: "forgejo \<Rightarrow> CommitStatusParams \<Rightarrow> unit fio" where
  "set_commit_status F p =
     fj_do F (CreateStatus (cp_owner p) (cp_repo p) (cp_sha p) (status_of_name (cp_state p)) (cp_context p)
       (cp_description p) (fj_url F (cp_target_url p)))"

text \<open>\<open>lenient_status\<close>: an empty or unknown state is none.\<close>

definition lenient_status :: "string option \<Rightarrow> CommitStatusState option" where
  "lenient_status s =
     Option.bind s (map_of [(''pending'', FPending), (''success'', FSuccess), (''error'', FError),
       (''failure'', FFailure), (''warning'', FWarning), (''skipped'', FSkipped)])"

definition status_entry :: "RawStatusEntry \<Rightarrow> StatusEntry option" where
  "status_entry s =
     (case (rs_context s, lenient_status (rs_status s)) of
        (Some c, Some st) \<Rightarrow>
          Some \<lparr>st_context = c, st_state = st, st_description = opt_default (rs_description s),
                st_target_url = opt_default (rs_target_url s)\<rparr>
      | _ \<Rightarrow> None)"

definition combined_status :: "RawCombinedStatus \<Rightarrow> CombinedStatus" where
  "combined_status raw =
     \<lparr>cs_state = (case lenient_status (rc_state raw) of Some s \<Rightarrow> s | None \<Rightarrow> FPending),
      cs_total_count = (case rc_total_count raw of Some n \<Rightarrow> n | None \<Rightarrow> 0),
      cs_statuses = List.map_filter status_entry (rc_statuses raw)\<rparr>"

definition combined_status_by_ref :: "forgejo \<Rightarrow> string \<Rightarrow> string \<Rightarrow> string \<Rightarrow> CombinedStatus option fio" where
  "combined_status_by_ref F owner repo sha =
     bind_io (try_io (ask_io (\<lambda>w. fj_status F w owner repo sha)))
       (\<lambda>r. ret (case r of Ok raw \<Rightarrow> Some (combined_status raw) | Err _ \<Rightarrow> None))"

text \<open>\<open>parse::<usize>\<close> is \<open>parse::<u64>\<close> on the targets of the bot.\<close>

definition parse_forgejo_job_url :: "string \<Rightarrow> (string \<times> string \<times> i64 \<times> nat option) option" where
  "parse_forgejo_job_url url =
     (case split_on (CHR ''/'') (dropWhile (\<lambda>c. c = CHR ''/'') url) of
        owner # repo # a # r # run # rest \<Rightarrow>
          if a \<noteq> ''actions'' \<or> r \<noteq> ''runs'' then None
          else (case str_parse_i64 run of
                  None \<Rightarrow> None
                | Some run_index \<Rightarrow>
                    Some (owner, repo, run_index,
                      (case rest of
                         j # i # _ \<Rightarrow> if j = ''jobs'' then map_option unat (str_parse_u64 i) else None
                       | _ \<Rightarrow> None)))
      | _ \<Rightarrow> None)"

definition selected_jobs :: "ActionRunJob list \<Rightarrow> nat option \<Rightarrow> ActionRunJob list" where
  "selected_jobs jobs job_index =
     (case Option.bind job_index (\<lambda>i. if i < length jobs then Some (jobs ! i) else None) of
        Some job \<Rightarrow> [job]
      | None \<Rightarrow> filter (\<lambda>j. aj_status j = Some ''failure'' \<or> aj_status j = Some ''cancelled'') jobs)"

definition job_section :: "ActionRunJob \<Rightarrow> string \<Rightarrow> string" where
  "job_section job logs =
     (if trim logs = [] then []
      else (case aj_name job of Some n \<Rightarrow> ''#### '' @ n @ [CHR 0x0A] | None \<Rightarrow> [])
        @ logs @ (if ends_with logs [CHR 0x0A] then [] else [CHR 0x0A]))"

fun job_logs :: "forgejo \<Rightarrow> string \<Rightarrow> string \<Rightarrow> ActionRunJob list \<Rightarrow> string fio" where
  "job_logs F owner repo [] = ret []"
| "job_logs F owner repo (job # jobs) =
     bind_io
       (case aj_id job of
          None \<Rightarrow> ret []
        | Some i \<Rightarrow> bind_io (try_io (ask_io (\<lambda>w. fj_job_logs F w owner repo i)))
            (\<lambda>r. ret (case r of Ok logs \<Rightarrow> job_section job logs | Err _ \<Rightarrow> [])))
       (\<lambda>text. bind_io (job_logs F owner repo jobs) (\<lambda>rest. ret (text @ rest)))"

definition get_action_logs :: "forgejo \<Rightarrow> string \<Rightarrow> string option fio" where
  "get_action_logs F target_url =
     (case parse_forgejo_job_url target_url of
        None \<Rightarrow> ret None
      | Some (owner, repo, run_index, job_index) \<Rightarrow>
          bind_io (try_io (ask_io (\<lambda>w. fj_jobs F w owner repo run_index))) (\<lambda>r.
            case r of
              Err _ \<Rightarrow> ret None
            | Ok jobs \<Rightarrow> bind_io (job_logs F owner repo (selected_jobs jobs job_index))
                (\<lambda>out. ret (if trim out = [] then None else Some out))))"

section \<open>Comments of the bot\<close>

text \<open>\<open>comment[k]\<close> on a JSON value: \<open>Null\<close> where there is no such field.\<close>

definition json_index :: "json \<Rightarrow> string \<Rightarrow> json" where
  "json_index j k = (case Option.bind (as_object j) (\<lambda>obj. map_of obj k) of Some v \<Rightarrow> v | None \<Rightarrow> JNull)"

definition bot_comment :: "string \<Rightarrow> json \<Rightarrow> BotComment option" where
  "bot_comment marker c =
     (let body = opt_default (as_str (json_index c ''body'')); user = opt_default (as_str (json_index (json_index c ''user'') ''login''))
      in if user = BOT_USERNAME \<and> str_contains body marker
         then map_option (\<lambda>i. \<lparr>bc_id = i, bc_body = body\<rparr>) (as_i64 (json_index c ''id''))
         else None)"

fun first_bot_comment :: "string \<Rightarrow> json list \<Rightarrow> BotComment option" where
  "first_bot_comment marker [] = None"
| "first_bot_comment marker (c # cs) =
     (case bot_comment marker c of Some b \<Rightarrow> Some b | None \<Rightarrow> first_bot_comment marker cs)"

definition find_comment :: "forgejo \<Rightarrow> string \<Rightarrow> string \<Rightarrow> i64 \<Rightarrow> string \<Rightarrow> BotComment option fio" where
  "find_comment F owner repo issue marker =
     bind_io (ask_io (\<lambda>w. fj_comments F w owner repo issue)) (\<lambda>cs. ret (first_bot_comment marker cs))"

definition has_acted :: "forgejo \<Rightarrow> string \<Rightarrow> string \<Rightarrow> i64 \<Rightarrow> Marker \<Rightarrow> bool fio" where
  "has_acted F owner repo issue marker =
     bind_io (find_comment F owner repo issue (marker_text marker)) (\<lambda>c. ret (c \<noteq> None))"

definition comment_or_update :: "forgejo \<Rightarrow> string \<Rightarrow> string \<Rightarrow> i64 \<Rightarrow> Marker \<Rightarrow> string \<Rightarrow> unit fio" where
  "comment_or_update F owner repo pr marker body =
     bind_io (find_comment F owner repo pr (marker_text marker)) (\<lambda>c.
       case c of
         Some b \<Rightarrow> fj_do F (EditComment owner repo (bc_id b) body)
       | None \<Rightarrow> comment_on F owner repo pr body)"

text \<open>\<open>infer_event\<close> on the parsed body: the event and its type.\<close>

definition infer_forgejo_event :: "json option \<Rightarrow> (string \<times> string option) option" where
  "infer_forgejo_event parsed =
     (case Option.bind parsed as_object of
        None \<Rightarrow> None
      | Some obj \<Rightarrow>
          if map_of obj ''comment'' \<noteq> None
          then (let on_pr = (case Option.bind (map_of obj ''issue'') (\<lambda>i. Option.bind (as_object i) (\<lambda>o'. map_of o' ''pull_request'')) of
                               Some p \<Rightarrow> p \<noteq> JNull | None \<Rightarrow> False)
                in Some (''issue_comment'', if on_pr then Some ''pull_request_comment'' else None))
          else if (case map_of obj ''pull_request'' of Some p \<Rightarrow> is_object p | None \<Rightarrow> False)
          then Some (''pull_request'', None)
          else None)"

end
