(* ===== verification/BotArgo.thy ===== *)
theory BotArgo
  imports BotForgejo
begin

text \<open>
  The bot's client of Argo CD, \<open>janitor-bot/src/argocd/mod.rs\<close> and \<open>types.rs\<close>: the diff that is posted on
  a pull request, with its noise filtered, and the check whether a commit changes an application. The
  output of the command line, the YAML parser and the files come as answers; a panic is \<open>None\<close>.
\<close>

section \<open>Applications\<close>

record Source =
  so_target_revision :: "string option"
  so_chart :: "string option"
  so_path :: "string option"
  so_repo_url :: "string option"

record Application =
  app_name :: string
  app_sources :: "Source list"
  app_source :: "Source option"

text \<open>\<open>all_sources\<close>\<close>

definition all_sources :: "Application \<Rightarrow> Source list" where
  "all_sources a = app_sources a @ (case app_source a of Some s \<Rightarrow> [s] | None \<Rightarrow> [])"

record SourceDiff =
  sd_app_name :: string
  sd_chart_name :: string
  sd_old_revision :: string
  sd_new_revision :: string
  sd_source_position :: nat

definition changed_source :: "string \<Rightarrow> nat \<times> Source \<times> Source \<Rightarrow> SourceDiff option" where
  "changed_source name = (\<lambda>(i, new_src, old_src).
     let new_rev = opt_default (so_target_revision new_src); old_rev = opt_default (so_target_revision old_src)
     in if new_rev \<noteq> old_rev
        then Some \<lparr>sd_app_name = name,
               sd_chart_name = (case so_chart new_src of Some c \<Rightarrow> c | None \<Rightarrow> ''unknown''),
               sd_old_revision = old_rev, sd_new_revision = new_rev, sd_source_position = i + 1\<rparr>
        else None)"

definition find_changed_sources ::
  "(string \<Rightarrow> (string, Application) result) \<Rightarrow> string \<Rightarrow> string \<Rightarrow> (string, SourceDiff list) result" where
  "find_changed_sources yaml old_content new_content =
     (case yaml new_content of
        Err e \<Rightarrow> Err e
      | Ok new_app \<Rightarrow>
          (case yaml old_content of
             Err e \<Rightarrow> Err e
           | Ok old_app \<Rightarrow>
               Ok (List.map_filter (changed_source (app_name new_app))
                     (enumerate 0 (zip (app_sources new_app) (app_sources old_app))))))"

definition is_application_yaml :: "string \<Rightarrow> bool" where
  "is_application_yaml path =
     (ends_with path ''.application.yaml''
      \<or> (ends_with path ''/application.yaml'' \<and> \<not> str_contains path ''/manifests/''))"

section \<open>The diff\<close>

definition MAX_DIFF_LEN :: nat where "MAX_DIFF_LEN = 60000"

definition NOISE_PATTERNS :: "string list" where
  "NOISE_PATTERNS = [''helm.sh/chart:'', ''app.kubernetes.io/version:'', ''chart:'', ''checksum/'']"

definition diff_args :: "string \<Rightarrow> string \<Rightarrow> string \<Rightarrow> string \<Rightarrow> nat \<Rightarrow> string list" where
  "diff_args server token app revision source_position =
     (let host = (case strip_prefix ''https://'' server of
                    Some s \<Rightarrow> s
                  | None \<Rightarrow> (case strip_prefix ''http://'' server of Some s \<Rightarrow> s | None \<Rightarrow> server))
      in [''app'', ''diff'', app, ''--server'', host, ''--auth-token'', token, ''--insecure'', ''--grpc-web'',
          ''--revisions'', revision, ''--source-positions'', show_nat source_position]
         @ (if starts_with server ''http://'' then [''--plaintext''] else []))"

text \<open>What the command printed; \<open>co_status\<close> is how its exit status is shown.\<close>

record CmdOutput =
  co_stdout :: string
  co_stderr :: string
  co_code :: "int option"
  co_status :: string

definition diff_text :: "(string \<Rightarrow> json option) \<Rightarrow> (string, CmdOutput) result \<Rightarrow> string option" where
  "diff_text json_from output =
     (case output of
        Err e \<Rightarrow> Some (''Failed to run argocd CLI: '' @ e)
      | Ok c \<Rightarrow>
          (let stdout = trim (from_utf8_lossy (co_stdout c)); stderr = trim (from_utf8_lossy (co_stderr c))
           in if stdout \<noteq> [] then
                (if MAX_DIFF_LEN < length stdout then
                   (if is_char_boundary stdout MAX_DIFF_LEN
                    then Some (take MAX_DIFF_LEN stdout @ ''...'' @ [CHR 0x0A, CHR 0x0A] @ ''(truncated, diff too large)'')
                    else None)
                 else Some stdout)
              else if co_code c = Some 0 then Some ''No differences found.''
              else Some (''Error running argocd diff (exit '' @ co_status c @ ''): ''
                     @ (case Option.bind (json_from stderr) (\<lambda>v. as_str (json_index v ''msg'')) of
                          Some m \<Rightarrow> m | None \<Rightarrow> stderr))))"

section \<open>Filtering\<close>

definition is_noise :: "string \<Rightarrow> bool" where
  "is_noise line =
     (let content = trim (case strip_prefix ''< '' line of
                            Some s \<Rightarrow> s
                          | None \<Rightarrow> (case strip_prefix ''> '' line of Some s \<Rightarrow> s | None \<Rightarrow> line))
      in list_ex (str_contains content) NOISE_PATTERNS)"

definition is_change :: "string \<Rightarrow> bool" where
  "is_change line = (starts_with line ''< '' \<or> starts_with line ''> '')"

definition writeln :: "string \<Rightarrow> string" where
  "writeln l = l @ [CHR 0x0A]"

record filter_state =
  fs_result :: string
  fs_header :: "string option"
  fs_lines :: "string list"
  fs_meaningful :: bool
  fs_total :: nat
  fs_kept :: nat

definition flush_section :: "filter_state \<Rightarrow> filter_state" where
  "flush_section s =
     (case fs_header s of
        None \<Rightarrow> s
      | Some h \<Rightarrow>
          if \<not> fs_meaningful s then s
          else s\<lparr>fs_kept := fs_kept s + 1, fs_result := fs_result s @ writeln h @ concat (map writeln (fs_lines s))\<rparr>)"

definition filter_line :: "filter_state \<Rightarrow> string \<Rightarrow> filter_state" where
  "filter_line s line =
     (if starts_with line ''====='' then
        (flush_section s)\<lparr>fs_total := fs_total s + 1, fs_header := Some line, fs_lines := [], fs_meaningful := False\<rparr>
      else if fs_header s \<noteq> None then
        (if is_change line \<and> is_noise line then s
         else s\<lparr>fs_lines := fs_lines s @ [line], fs_meaningful := (fs_meaningful s \<or> is_change line)\<rparr>)
      else s\<lparr>fs_result := fs_result s @ writeln line\<rparr>)"

record DiffFilterResult =
  df_diff :: string
  df_total_sections :: nat
  df_meaningful_sections :: nat
  df_filtered_sections :: nat

definition filter_diff_noise :: "string \<Rightarrow> DiffFilterResult" where
  "filter_diff_noise diff =
     (let s = flush_section (foldl filter_line
                \<lparr>fs_result = [], fs_header = None, fs_lines = [], fs_meaningful = False, fs_total = 0, fs_kept = 0\<rparr>
                (str_lines diff));
          trimmed = trim (fs_result s)
      in \<lparr>df_diff = (if trimmed = [] then ''No meaningful differences after filtering label/annotation noise.'' else trimmed),
          df_total_sections = fs_total s, df_meaningful_sections = fs_kept s,
          df_filtered_sections = fs_total s - fs_kept s\<rparr>)"

section \<open>The comment\<close>

definition COMMENT_MARKER :: Marker where
  "COMMENT_MARKER = \<lparr>mk_feature = ''argocd-diff'', mk_key = None\<rparr>"

definition CHECKBOX_CHECKED :: string where "CHECKBOX_CHECKED = ''- [x] Re-run diff on next poll''"
definition CHECKBOX_UNCHECKED :: string where "CHECKBOX_UNCHECKED = ''- [ ] Re-run diff on next poll''"

definition em_dash :: string where "em_dash = [CHR 0xE2, CHR 0x80, CHR 0x94]"
definition right_arrow :: string where "right_arrow = [CHR 0xE2, CHR 0x86, CHR 0x92]"
definition tick :: "string \<Rightarrow> string" where "tick s = CHR 0x60 # s @ [CHR 0x60]"
definition ln :: string where "ln = [CHR 0x0A]"

definition format_entry :: "SourceDiff \<times> DiffFilterResult \<Rightarrow> string" where
  "format_entry = (\<lambda>(sd, dr).
     (if 0 < df_total_sections dr then
        ln @ ''> **'' @ show_nat (df_total_sections dr) @ ''** resources changed '' @ em_dash @ '' **''
          @ show_nat (df_meaningful_sections dr) @ ''** meaningful, **'' @ show_nat (df_filtered_sections dr)
          @ ''** noise-only (filtered)'' @ ln
      else [])
     @ ln @ ''### '' @ tick (sd_app_name sd) @ '' '' @ em_dash @ '' '' @ tick (sd_chart_name sd)
       @ '' ('' @ tick (sd_old_revision sd) @ '' '' @ right_arrow @ '' '' @ tick (sd_new_revision sd) @ '')'' @ ln
       @ ''<details>'' @ ln @ ''<summary>Diff (source '' @ show_nat (sd_source_position sd) @ '')</summary>'' @ ln @ ln
       @ tick (tick (tick (''diff'' @ ln @ df_diff dr @ ln))) @ ln @ ''</details>'' @ ln)"

definition format_comment :: "SourceDiff list \<Rightarrow> DiffFilterResult list \<Rightarrow> string" where
  "format_comment source_diffs diff_results =
     marker_text COMMENT_MARKER @ ln @ ''## ArgoCD Diff'' @ ln
       @ concat (map format_entry (zip source_diffs diff_results)) @ ln @ CHECKBOX_UNCHECKED @ ln"

section \<open>Posting it\<close>

record argocd =
  ar_forgejo :: forgejo
  ar_server :: string
  ar_token :: string
  ar_command :: "fworld \<Rightarrow> string list \<Rightarrow> (string, CmdOutput) result"
  ar_yaml :: "string \<Rightarrow> (string, Application) result"
  ar_json :: "string \<Rightarrow> json option"

text \<open>Read a file of the repository; the file is skipped when it cannot be read or parsed.\<close>

fun source_diffs :: "argocd \<Rightarrow> PrEvent \<Rightarrow> string \<Rightarrow> string list \<Rightarrow> SourceDiff list fio" where
  "source_diffs A pr head_ref [] = ret []"
| "source_diffs A pr head_ref (path # paths) =
     bind_io (try_io (ask_io (\<lambda>w. fj_raw (ar_forgejo A) w (pe_owner pr) (pe_repo pr) path head_ref))) (\<lambda>new_content.
     bind_io (case new_content of
         Err _ \<Rightarrow> ret []
       | Ok n \<Rightarrow>
           bind_io (try_io (ask_io (\<lambda>w. fj_raw (ar_forgejo A) w (pe_owner pr) (pe_repo pr) path (pe_target_branch pr)))) (\<lambda>old_content.
             ret (case old_content of
                    Err _ \<Rightarrow> []
                  | Ok old \<Rightarrow> (case find_changed_sources (ar_yaml A) old n of Ok ds \<Rightarrow> ds | Err _ \<Rightarrow> [])))) (\<lambda>ds.
     bind_io (source_diffs A pr head_ref paths) (\<lambda>rest. ret (ds @ rest))))"

text \<open>Run the command for every source; \<open>None\<close> when cutting an output panics.\<close>

definition run_diff :: "argocd \<Rightarrow> SourceDiff \<Rightarrow> string option fio" where
  "run_diff A sd =
     (let args = diff_args (ar_server A) (ar_token A) (sd_app_name sd) (sd_new_revision sd) (sd_source_position sd)
      in (\<lambda>w. (Ok (diff_text (ar_json A) (ar_command A w args)),
             w\<lparr>wd_calls := Suc (wd_calls w), wd_sent := wd_sent w @ [RunArgocdDiff args]\<rparr>)))"

fun run_diffs :: "argocd \<Rightarrow> SourceDiff list \<Rightarrow> DiffFilterResult list option fio" where
  "run_diffs A [] = ret (Some [])"
| "run_diffs A (sd # sds) =
     bind_io (run_diff A sd) (\<lambda>output.
       case output of
         None \<Rightarrow> ret None
       | Some t \<Rightarrow> bind_io (run_diffs A sds) (\<lambda>rest. ret (map_option ((#) (filter_diff_noise t)) rest)))"

definition should_run :: "BotComment option \<Rightarrow> bool" where
  "should_run existing = (case existing of None \<Rightarrow> True | Some c \<Rightarrow> str_contains (bc_body c) CHECKBOX_CHECKED)"

text \<open>The result is whether it returned: \<open>False\<close> is a panic.\<close>

definition run_diff_and_comment :: "argocd \<Rightarrow> PrEvent \<Rightarrow> string list \<Rightarrow> bool fio" where
  "run_diff_and_comment A pr changed_files =
     (let F = ar_forgejo A; app_files = filter is_application_yaml changed_files
      in if app_files = [] then ret True
         else bind_io (is_pr_open F (pe_owner pr) (pe_repo pr) (pe_pr_number pr)) (\<lambda>is_open.
           if \<not> is_open then ret True
           else bind_io (find_comment F (pe_owner pr) (pe_repo pr) (pe_pr_number pr) (marker_text COMMENT_MARKER)) (\<lambda>existing.
             if \<not> should_run existing then ret True
             else bind_io (pr_head_ref F (pe_owner pr) (pe_repo pr) (pe_pr_number pr)) (\<lambda>head_ref.
               bind_io (source_diffs A pr head_ref app_files) (\<lambda>sds.
                 if sds = [] then ret True
                 else bind_io (run_diffs A sds) (\<lambda>results.
                   case results of
                     None \<Rightarrow> ret False
                   | Some rs \<Rightarrow>
                       bind_io (comment_or_update F (pe_owner pr) (pe_repo pr) (pe_pr_number pr) COMMENT_MARKER (format_comment sds rs))
                         (\<lambda>_. ret True)))))))"

section \<open>Changed applications\<close>

definition application_candidates :: "string \<Rightarrow> string list" where
  "application_candidates name =
     [''system-components/'' @ name @ ''.application.yaml'', ''platform-services/'' @ name @ ''/application.yaml'',
      ''projects/'' @ name @ ''/application.yaml'']"

fun first_readable :: "forgejo \<Rightarrow> string \<Rightarrow> string \<Rightarrow> string \<Rightarrow> string list \<Rightarrow> string option fio" where
  "first_readable F owner repo sha [] = ret None"
| "first_readable F owner repo sha (c # cs) =
     bind_io (try_io (ask_io (\<lambda>w. fj_raw F w owner repo c sha)))
       (\<lambda>r. case r of Ok content \<Rightarrow> ret (Some content) | Err _ \<Rightarrow> first_readable F owner repo sha cs)"

definition source_changed :: "string list \<Rightarrow> Source \<Rightarrow> bool" where
  "source_changed files s =
     (case (so_path s, so_chart s) of
        (Some path, None) \<Rightarrow>
          (let prefix = (if ends_with path ''/'' then path else path @ ''/'') in list_ex (\<lambda>f. starts_with f prefix) files)
      | _ \<Rightarrow> False)"

definition check_app_changed_in_commit :: "argocd \<Rightarrow> string \<Rightarrow> string \<Rightarrow> ArgoSyncEvent \<Rightarrow> bool fio" where
  "check_app_changed_in_commit A owner repo sync =
     bind_io (try_io (commit_changed_files (ar_forgejo A) owner repo (sy_sha sync))) (\<lambda>r.
       case r of
         Err _ \<Rightarrow> ret False
       | Ok files \<Rightarrow>
           (let candidates = application_candidates (sy_app_name sync)
            in if list_ex (List.member files) candidates then ret True
               else bind_io (first_readable (ar_forgejo A) owner repo (sy_sha sync) candidates) (\<lambda>content.
                 ret (case content of
                        None \<Rightarrow> False
                      | Some c \<Rightarrow> (case ar_yaml A c of
                                    Err _ \<Rightarrow> False
                                  | Ok app \<Rightarrow> list_ex (source_changed files) (app_sources app))))))"

definition api_base :: "string \<Rightarrow> string" where
  "api_base server =
     (if starts_with server ''http://'' \<or> starts_with server ''https://'' then trim_end_slashes server
      else ''https://'' @ trim_end_slashes server)"

definition WEBHOOK_PATH :: string where "WEBHOOK_PATH = ''/api/webhook''"

definition webhook_url :: "string \<Rightarrow> string" where
  "webhook_url server = api_base server @ WEBHOOK_PATH"

definition sync_url :: "string \<Rightarrow> string \<Rightarrow> string" where
  "sync_url server name = api_base server @ ''/api/v1/applications/'' @ name @ ''/sync''"

end
