(* ===== verification/BotAutofix.thy ===== *)
theory BotAutofix
  imports BotForgejo
begin

text \<open>
  The repair of renovate pull requests by a model: \<open>janitor-bot/src/autofix/\<close> and \<open>commit_and_push\<close> of
  \<open>git.rs\<close>. The checkout is a tree of files and directories (symbolic links are left out), the model
  answers by the world so far, the arguments of its tool tool_calls come through the parsers of
  \<open>serde_json\<close>. A panic is \<open>None\<close>.
\<close>

section \<open>The checkout\<close>

datatype node = File string | Directory "(string \<times> node) list"

lemma node_pair_size [termination_simp]:
  "(k, v) \<in> set xs \<Longrightarrow> size v < Suc (size_list (size_prod (\<lambda>x. 0) size) xs)"
  by (induction xs) auto

definition MAX_READ_OUTPUT :: nat where "MAX_READ_OUTPUT = 60000"
definition MAX_GREP_MATCHES :: nat where "MAX_GREP_MATCHES = 200"

text \<open>The components of a relative path; \<open>Path\<close> drops empty ones and dots.\<close>

definition components :: "string \<Rightarrow> string list" where
  "components p = filter (\<lambda>c. c \<noteq> [] \<and> c \<noteq> ''.'') (split_on (CHR ''/'') p)"

definition unsafe_path :: "string \<Rightarrow> bool" where
  "unsafe_path p = (starts_with p ''/'' \<or> List.member (components p) ''..'')"

text \<open>A path that only a directory can have.\<close>

definition names_directory :: "string \<Rightarrow> bool" where
  "names_directory p = (ends_with p ''/'' \<or> ends_with p ''/.'')"

definition resolve_path :: "string \<Rightarrow> (string, string list) result" where
  "resolve_path rel = (if unsafe_path rel then Err (''refusing unsafe path: '' @ rel) else Ok (components rel))"

fun node_at :: "node \<Rightarrow> string list \<Rightarrow> node option" where
  "node_at n [] = Some n"
| "node_at (File _) (c # cs) = None"
| "node_at (Directory entries) (c # cs) = (case map_of entries c of None \<Rightarrow> None | Some n \<Rightarrow> node_at n cs)"

definition ellipsis :: string where "ellipsis = [CHR 0xE2, CHR 0x80, CHR 0xA6]"

text \<open>\<open>truncate\<close> panics when it would cut a character.\<close>

definition workspace_read_file :: "node \<Rightarrow> string \<Rightarrow> (string, string) result option" where
  "workspace_read_file ws rel =
     (case resolve_path rel of
        Err e \<Rightarrow> Some (Err e)
      | Ok p \<Rightarrow>
          (case node_at ws p of
             Some (File bytes) \<Rightarrow>
               if names_directory rel then Some (Err (''reading '' @ rel)) else
               (let text = from_utf8_lossy bytes
                in if MAX_READ_OUTPUT < length text then
                     (if is_char_boundary text MAX_READ_OUTPUT
                      then Some (Ok (take MAX_READ_OUTPUT text @ CHR 0x0A # ellipsis @ ''(truncated)'')) else None)
                   else Some (Ok text))
           | _ \<Rightarrow> Some (Err (''reading '' @ rel))))"

definition list_entry :: "string \<times> node \<Rightarrow> string option" where
  "list_entry = (\<lambda>(name, n).
     if name = ''.git'' then None
     else Some (case n of Directory _ \<Rightarrow> name @ ''/'' | File _ \<Rightarrow> name))"

definition list_dir :: "node \<Rightarrow> string \<Rightarrow> (string, string) result" where
  "list_dir ws rel =
     (case (if rel = [] \<or> rel = ''.'' then Ok [] else resolve_path rel) of
        Err e \<Rightarrow> Err e
      | Ok p \<Rightarrow>
          (case node_at ws p of
             Some (Directory entries) \<Rightarrow> Ok (join [CHR 0x0A] (sort (List.map_filter list_entry entries)))
           | _ \<Rightarrow> Err (''listing '' @ rel)))"

text \<open>The matches of a file, at most as many as are still wanted; a file that is not UTF-8 has none.\<close>

definition trim_end :: "string \<Rightarrow> string" where
  "trim_end s = rev (dropWhile is_space (rev s))"

definition grep_file :: "(string \<Rightarrow> bool) \<Rightarrow> string \<Rightarrow> string \<Rightarrow> string list \<Rightarrow> string list" where
  "grep_file re path bytes out =
     (if from_utf8_lossy bytes \<noteq> bytes then out
      else out @ take (MAX_GREP_MATCHES - length out)
        (List.map_filter (\<lambda>(i, line). if re line then Some (path @ '':'' @ show_nat (i + 1) @ '':'' @ trim_end line) else None)
           (enumerate 0 (str_lines bytes))))"

fun grep_walk :: "(string \<Rightarrow> bool) \<Rightarrow> string \<Rightarrow> node \<Rightarrow> string list \<Rightarrow> string list"
  and grep_entries :: "(string \<Rightarrow> bool) \<Rightarrow> string \<Rightarrow> (string \<times> node) list \<Rightarrow> string list \<Rightarrow> string list" where
  "grep_walk re path (File bytes) out = (if MAX_GREP_MATCHES \<le> length out then out else grep_file re path bytes out)"
| "grep_walk re path (Directory entries) out = (if MAX_GREP_MATCHES \<le> length out then out else grep_entries re path entries out)"
| "grep_entries re path [] out = out"
| "grep_entries re path ((name, n) # rest) out =
     (if name = ''.git'' then grep_entries re path rest out
      else (let out' = grep_walk re (if path = [] then name else path @ ''/'' @ name) n out
            in if MAX_GREP_MATCHES \<le> length out' then out' else grep_entries re path rest out'))"

definition grep :: "(string \<Rightarrow> (string \<Rightarrow> bool) option) \<Rightarrow> node \<Rightarrow> string \<Rightarrow> string option \<Rightarrow> (string, string) result" where
  "grep regex ws pattern path =
     (case regex pattern of
        None \<Rightarrow> Err ''invalid regex''
      | Some re \<Rightarrow>
          (case (case path of Some p \<Rightarrow> if p \<noteq> [] \<and> p \<noteq> ''.'' then resolve_path p else Ok [] | None \<Rightarrow> Ok []) of
             Err e \<Rightarrow> Err e
           | Ok base \<Rightarrow>
               (case node_at ws base of
                  None \<Rightarrow> Ok ''(no matches)''
                | Some n \<Rightarrow>
                    (let out = grep_walk re (join ''/'' base) n []
                     in Ok (if out = [] then ''(no matches)'' else join [CHR 0x0A] out)))))"

section \<open>The model's tools\<close>

record FileEdit =
  ed_path :: string
  ed_content :: string

record ProposedFix =
  fx_title :: string
  fx_files :: "FileEdit list"

datatype ToolOutcome = ToolResult string | ToolDone ProposedFix

record parsers =
  pa_path :: "string \<Rightarrow> (string, string) result"
  pa_grep :: "string \<Rightarrow> (string, string \<times> string option) result"
  pa_fix :: "string \<Rightarrow> (string, ProposedFix) result"
  pa_regex :: "string \<Rightarrow> (string \<Rightarrow> bool) option"

definition shown :: "(string, string) result \<Rightarrow> string" where
  "shown r = (case r of Ok t \<Rightarrow> t | Err e \<Rightarrow> ''error: '' @ e)"

definition dispatch_tool :: "parsers \<Rightarrow> node \<Rightarrow> string \<Rightarrow> string \<Rightarrow> ToolOutcome option" where
  "dispatch_tool P ws name arguments =
     (if name = ''read_file'' then
        (case pa_path P arguments of
           Ok p \<Rightarrow> map_option (\<lambda>r. ToolResult (shown r)) (workspace_read_file ws p)
         | Err e \<Rightarrow> Some (ToolResult (''error: invalid arguments: '' @ e)))
      else if name = ''list_dir'' then
        (case pa_path P arguments of
           Ok p \<Rightarrow> Some (ToolResult (shown (list_dir ws p)))
         | Err e \<Rightarrow> Some (ToolResult (''error: invalid arguments: '' @ e)))
      else if name = ''grep'' then
        (case pa_grep P arguments of
           Ok (pattern, path) \<Rightarrow> Some (ToolResult (shown (grep (pa_regex P) ws pattern path)))
         | Err e \<Rightarrow> Some (ToolResult (''error: invalid arguments: '' @ e)))
      else if name = ''submit_fix'' then
        (case pa_fix P arguments of
           Ok f \<Rightarrow> Some (ToolDone f)
         | Err e \<Rightarrow> Some (ToolResult (''error: invalid submit_fix arguments: '' @ e)))
      else Some (ToolResult (''error: unknown tool '' @ name)))"

text \<open>The messages of the conversation; the prompt of the system is constant. A call that is not a
  function call has no name and arguments.\<close>

record ToolCall =
  tc_id :: string
  tc_function :: "(string \<times> string) option"

datatype message = SystemMsg | UserMsg string | AssistantMsg "ToolCall list" | ToolMsg string string

record ModelAnswer =
  ma_content :: "string option"
  ma_tool_calls :: "ToolCall list option"

record PrMeta =
  pm_title :: string
  pm_base_branch :: string
  pm_head_branch :: string

definition user_prompt :: "PrMeta \<Rightarrow> string \<Rightarrow> string option \<Rightarrow> string" where
  "user_prompt meta failure_logs instructions =
     ''PR title: '' @ pm_title meta @ [CHR 0x0A]
     @ ''Branch: '' @ pm_head_branch meta @ '' (targets '' @ pm_base_branch meta @ '')'' @ [CHR 0x0A, CHR 0x0A]
     @ (case map_option trim instructions of
          Some i \<Rightarrow> if i = [] then []
            else ''## Extra instructions from the maintainer'' @ [CHR 0x0A, CHR 0x0A] @ i @ [CHR 0x0A, CHR 0x0A]
        | None \<Rightarrow> [])
     @ ''## Failing CI logs'' @ [CHR 0x0A, CHR 0x0A]
     @ (if failure_logs = [] then ''(no logs available)'' @ [CHR 0x0A] else failure_logs @ [CHR 0x0A])"

definition MAX_STEPS :: nat where "MAX_STEPS = 10"

fun run_calls :: "parsers \<Rightarrow> node \<Rightarrow> ToolCall list \<Rightarrow> message list \<Rightarrow> (ProposedFix option \<times> message list) option" where
  "run_calls P ws [] msgs = Some (None, msgs)"
| "run_calls P ws (c # cs) msgs =
     (case tc_function c of
        None \<Rightarrow> run_calls P ws cs msgs
      | Some (name, arguments) \<Rightarrow>
          (case dispatch_tool P ws name arguments of
             None \<Rightarrow> None
           | Some (ToolDone f) \<Rightarrow> Some (Some f, msgs)
           | Some (ToolResult t) \<Rightarrow> run_calls P ws cs (msgs @ [ToolMsg (tc_id c) t])))"

record fixer =
  fi_forgejo :: forgejo
  fi_configured :: bool
  fi_chat :: "fworld \<Rightarrow> string \<Rightarrow> message list \<Rightarrow> (string, ModelAnswer) result"
  fi_parsers :: parsers
  fi_clone :: "fworld \<Rightarrow> string \<Rightarrow> string \<Rightarrow> (string, node) result"
  fi_github_logs :: "fworld \<Rightarrow> string \<Rightarrow> string \<Rightarrow> u64 \<Rightarrow> string"
  fi_git :: "fworld \<Rightarrow> FjRequest \<Rightarrow> (ForgejoError, unit) result"
  fi_now :: "fworld \<Rightarrow> nat"

definition chat :: "fixer \<Rightarrow> string \<Rightarrow> message list \<Rightarrow> ModelAnswer fio" where
  "chat X model msgs w =
     (err_as OtherError (fi_chat X w model msgs),
      w\<lparr>wd_calls := Suc (wd_calls w), wd_sent := wd_sent w @ [AskModel model (length msgs)]\<rparr>)"

text \<open>The steps that are left; the result is \<open>None\<close> when a tool panicked.\<close>

fun propose_loop :: "fixer \<Rightarrow> node \<Rightarrow> string \<Rightarrow> nat \<Rightarrow> message list \<Rightarrow> ProposedFix option fio" where
  "propose_loop X ws model 0 msgs = throw (OtherError ''autofix exceeded 10 steps without producing a fix'')"
| "propose_loop X ws model (Suc n) msgs =
     bind_io (chat X model msgs) (\<lambda>a.
       case ma_tool_calls a of
         None \<Rightarrow> throw (OtherError (''model stopped without calling submit_fix: '' @ opt_default (ma_content a)))
       | Some tool_calls \<Rightarrow>
           (case run_calls (fi_parsers X) ws tool_calls (msgs @ [AssistantMsg tool_calls]) of
              None \<Rightarrow> ret None
            | Some (Some f, _) \<Rightarrow> ret (Some f)
            | Some (None, msgs') \<Rightarrow> propose_loop X ws model n msgs'))"

definition propose_fix :: "fixer \<Rightarrow> node \<Rightarrow> string \<Rightarrow> PrMeta \<Rightarrow> string \<Rightarrow> string option \<Rightarrow> ProposedFix option fio" where
  "propose_fix X ws failure_logs meta model instructions =
     propose_loop X ws model MAX_STEPS [SystemMsg, UserMsg (user_prompt meta failure_logs instructions)]"

section \<open>Failure logs\<close>

definition parse_github_run_url :: "string \<Rightarrow> (string \<times> string \<times> u64) option" where
  "parse_github_run_url url =
     (case find_str ''github.com/'' url of
        None \<Rightarrow> None
      | Some n \<Rightarrow>
          (let after = drop (n + 11) url;
               part = (case find_str ''github.com/'' after of None \<Rightarrow> after | Some m \<Rightarrow> take m after)
           in case split_on (CHR ''/'') part of
                owner # repo # a # r # run # _ \<Rightarrow>
                  if a \<noteq> ''actions'' \<or> r \<noteq> ''runs'' then None
                  else map_option (\<lambda>i. (owner, repo, i)) (str_parse_u64 run)
              | _ \<Rightarrow> None))"

definition is_forgejo_action_url :: "string \<Rightarrow> bool" where
  "is_forgejo_action_url url = (starts_with url ''/'' \<and> str_contains url ''/actions/runs/'')"

definition github_logs_from_url :: "fixer \<Rightarrow> string \<Rightarrow> string option fio" where
  "github_logs_from_url X url =
     (case parse_github_run_url url of
        None \<Rightarrow> ret None
      | Some (owner, repo, run_id) \<Rightarrow> ask_io (\<lambda>w. Ok (Some (fi_github_logs X w owner repo run_id))))"

definition last_lines :: "string \<Rightarrow> string" where
  "last_lines logs = (let ls = str_lines logs in join [CHR 0x0A] (drop (length ls - 1000) ls))"

fun failure_sections :: "fixer \<Rightarrow> StatusEntry list \<Rightarrow> string fio" where
  "failure_sections X [] = ret []"
| "failure_sections X (e # es) =
     (if st_state e \<noteq> FFailure \<and> st_state e \<noteq> FError then failure_sections X es
      else bind_io
        (if starts_with (st_context e) ''GitHub Actions'' then github_logs_from_url X (st_target_url e)
         else if is_forgejo_action_url (st_target_url e) then get_action_logs (fi_forgejo X) (st_target_url e)
         else ret None) (\<lambda>logs.
        let body = (case logs of
                      Some l \<Rightarrow> if l \<noteq> [] then last_lines l @ [CHR 0x0A]
                                else if st_description e \<noteq> [] then st_description e @ [CHR 0x0A] else []
                    | None \<Rightarrow> if st_description e \<noteq> [] then st_description e @ [CHR 0x0A] else [])
        in bind_io (failure_sections X es)
             (\<lambda>rest. ret (''### '' @ st_context e @ [CHR 0x0A] @ body @ [CHR 0x0A] @ rest))))"

definition collect_failure_logs :: "fixer \<Rightarrow> string \<Rightarrow> string \<Rightarrow> string \<Rightarrow> string option fio" where
  "collect_failure_logs X owner repo sha =
     bind_io (combined_status_by_ref (fi_forgejo X) owner repo sha) (\<lambda>status.
       case status of
         None \<Rightarrow> ret None
       | Some s \<Rightarrow> bind_io (failure_sections X (cs_statuses s))
           (\<lambda>out. ret (if trim out = [] then None else Some (trim out))))"

section \<open>Pushing and opening\<close>

fun write_edits :: "fixer \<Rightarrow> FileEdit list \<Rightarrow> unit fio" where
  "write_edits X [] = ret ()"
| "write_edits X (e # es) =
     (if unsafe_path (ed_path e) then throw (OtherError (''refusing to write unsafe path: '' @ ed_path e))
      else then_io (send_io (fi_git X) (WriteFile (ed_path e) (ed_content e))) (write_edits X es))"

definition commit_and_push :: "fixer \<Rightarrow> string \<Rightarrow> string \<Rightarrow> FileEdit list \<Rightarrow> unit fio" where
  "commit_and_push X branch_name commit_msg edits =
     (if edits = [] then throw (OtherError ''no edits to apply'')
      else then_io (write_edits X edits) (send_io (fi_git X) (PushBranch branch_name commit_msg)))"

definition AUTOFIX_LABEL :: string where "AUTOFIX_LABEL = ''janitor/autofix''"
definition AUTOFIX_MARKER :: Marker where "AUTOFIX_MARKER = \<lparr>mk_feature = ''autofix'', mk_key = None\<rparr>"
definition DEFAULT_MODEL :: string where "DEFAULT_MODEL = ''gpt-5.4''"

text \<open>A comment whose failure is ignored.\<close>

definition say :: "fixer \<Rightarrow> string \<Rightarrow> string \<Rightarrow> i64 \<Rightarrow> string \<Rightarrow> bool fio" where
  "say X owner repo pr text =
     bind_io (try_io (comment_on (fi_forgejo X) owner repo pr text)) (\<lambda>_ :: (ForgejoError, unit) result. ret True)"

definition quote_code :: "string \<Rightarrow> string" where "quote_code s = CHR 0x60 # s @ [CHR 0x60]"

definition pr_body :: "i64 \<Rightarrow> string \<Rightarrow> string \<Rightarrow> FileEdit list \<Rightarrow> string" where
  "pr_body pr model head_branch edits =
     marker_text AUTOFIX_MARKER @ [CHR 0x0A] @ ''Automated fix for #'' @ show_i64 pr @ '' produced by '' @ quote_code model @ ''.''
     @ [CHR 0x0A, CHR 0x0A] @ ''Merging this PR updates the renovate branch '' @ quote_code head_branch @ ''.'' @ [CHR 0x0A, CHR 0x0A]
     @ ''| Files changed |'' @ [CHR 0x0A] @ ''| --- |'' @ [CHR 0x0A]
     @ concat (map (\<lambda>e. ''| '' @ quote_code (ed_path e) @ '' |'' @ [CHR 0x0A]) edits)"

definition announce_fix :: "fixer \<Rightarrow> string \<Rightarrow> string \<Rightarrow> i64 \<Rightarrow> string \<Rightarrow> i64 \<Rightarrow> bool fio" where
  "announce_fix X owner repo pr model new_number =
     (let F = fi_forgejo X
      in bind_io (try_io (ensure_labels F owner repo [(AUTOFIX_LABEL, ''#1f6feb'')])) (\<lambda>r.
         bind_io (case r of
             Err _ \<Rightarrow> ret (Ok ())
           | Ok _ \<Rightarrow> try_io (add_labels_by_name F owner repo new_number [AUTOFIX_LABEL]))
           (\<lambda>_ :: (ForgejoError, unit) result.
         bind_io (try_io (comment_or_update F owner repo pr AUTOFIX_MARKER
             (marker_text AUTOFIX_MARKER @ [CHR 0x0A] @ ''Opened autofix PR #'' @ show_i64 new_number
               @ '' with a proposed fix from '' @ quote_code model @ ''.'')))
           (\<lambda>_ :: (ForgejoError, unit) result. ret True))))"

definition push_fix :: "fixer \<Rightarrow> string \<Rightarrow> string \<Rightarrow> i64 \<Rightarrow> string \<Rightarrow> string \<Rightarrow> ProposedFix \<Rightarrow> bool fio" where
  "push_fix X owner repo pr model head_branch fx =
     bind_io (ask_io (\<lambda>w. Ok (fi_now X w))) (\<lambda>timestamp.
       let fix_branch = ''janitor/autofix-'' @ show_i64 pr @ ''-'' @ show_nat timestamp
       in bind_io (try_io (commit_and_push X fix_branch (''fix: autofix CI for #'' @ show_i64 pr) (fx_files fx))) (\<lambda>r.
          case r of
            Err _ \<Rightarrow> say X owner repo pr ''Autofix failed while pushing the proposed fix.''
          | Ok _ \<Rightarrow>
              bind_io (try_io (create_pull_request (fi_forgejo X) owner repo
                  (''[LLM autofix #'' @ show_i64 pr @ ''] '' @ fx_title fx)
                  (pr_body pr model head_branch (fx_files fx)) fix_branch head_branch)) (\<lambda>created.
                case created of
                  Err _ \<Rightarrow> ret True
                | Ok number \<Rightarrow> announce_fix X owner repo pr model (case number of Some n \<Rightarrow> n | None \<Rightarrow> 0))))"

text \<open>\<open>autofix_pr\<close>: the result is whether it returned; \<open>False\<close> is a panic in a tool.\<close>

definition fix_failures :: "fixer \<Rightarrow> string \<Rightarrow> string \<Rightarrow> i64 \<Rightarrow> ApiPr \<Rightarrow> string \<Rightarrow> string \<Rightarrow> string \<Rightarrow> string option \<Rightarrow> string option \<Rightarrow> bool fio" where
  "fix_failures X owner repo pr api_pr head_branch base_branch failure_logs model instructions =
     bind_io (try_io (ask_io (\<lambda>w. err_as OtherError (fi_clone X w (clone_url_of (fi_forgejo X) owner repo) head_branch)))) (\<lambda>cloned.
       case cloned of
         Err _ \<Rightarrow> say X owner repo pr ''Autofix failed while preparing the workspace.''
       | Ok ws \<Rightarrow>
           (let model' = (case model of Some m \<Rightarrow> m | None \<Rightarrow> DEFAULT_MODEL);
                meta = \<lparr>pm_title = opt_default (ap_title api_pr), pm_base_branch = base_branch, pm_head_branch = head_branch\<rparr>
            in bind_io (try_io (propose_fix X ws failure_logs meta model' instructions)) (\<lambda>proposed.
                 case proposed of
                   Err _ \<Rightarrow> say X owner repo pr ''Autofix failed while generating a fix.''
                 | Ok None \<Rightarrow> ret False
                 | Ok (Some f) \<Rightarrow>
                     if fx_files f = [] then say X owner repo pr ''The model could not determine a fix.''
                     else push_fix X owner repo pr model' head_branch f)))"

definition autofix_pr :: "fixer \<Rightarrow> string \<Rightarrow> string \<Rightarrow> i64 \<Rightarrow> string option \<Rightarrow> string option \<Rightarrow> bool fio" where
  "autofix_pr X owner repo pr model instructions =
     (if \<not> fi_configured X then say X owner repo pr ''Autofix is not configured''
      else bind_io (try_io (ask_io (\<lambda>w. fj_pull (fi_forgejo X) w owner repo pr))) (\<lambda>r.
        case r of
          Err _ \<Rightarrow> ret True
        | Ok api_pr \<Rightarrow>
            if \<not> str_contains (to_lowercase (opt_default (ap_author api_pr))) ''renovate''
            then say X owner repo pr ''Autofix only runs on renovate PRs.''
            else (case (ap_head_ref api_pr, Option.bind (ap_base api_pr) (\<lambda>b. b), ap_head_sha api_pr) of
                    (Some head_branch, Some base_branch, Some head_sha) \<Rightarrow>
                      bind_io (collect_failure_logs X owner repo head_sha) (\<lambda>logs.
                        case logs of
                          None \<Rightarrow> say X owner repo pr ''No failing checks to fix.''
                        | Some l \<Rightarrow> fix_failures X owner repo pr api_pr head_branch base_branch l model instructions)
                  | _ \<Rightarrow> ret True)))"

end
