(* ===== verification/BotProperties.thy ===== *)
theory BotProperties
  imports BotArgo BotAutofix
begin

text \<open>
  What the integrations of the bot promise: how often it tries to merge, what a filtered diff is and
  where it is posted, what the repair of a pull request may do, and what the search of the model's
  tools reports.
\<close>

section \<open>Merging\<close>

definition pending_answer :: "(ForgejoError, unit) result \<Rightarrow> bool" where
  "pending_answer r = (case r of Err e \<Rightarrow> is_mergeability_pending e | Ok _ \<Rightarrow> False)"

text \<open>The world before the attempt \<open>i\<close>, counted from 0, when every earlier one was pending.\<close>

definition before_attempt :: "fworld \<Rightarrow> FjRequest \<Rightarrow> nat \<Rightarrow> fworld" where
  "before_attempt w r i =
     w\<lparr>wd_calls := wd_calls w + i, wd_sent := wd_sent w @ concat (map (\<lambda>j. [r, WaitSeconds (2 ^ j)]) [0..<i])\<rparr>"

lemma before_attempt_Suc:
  "snd (wait_seconds (2 ^ i) (snd (fj_do F r (before_attempt w r i)))) = before_attempt w r (Suc i)"
  by (simp add: before_attempt_def wait_seconds_def fj_do_def send_io_def)

lemma merge_loop_stops:
  "k \<le> 4 \<Longrightarrow> \<exists>n. k \<le> n \<and> n \<le> 4
     \<and> merge_loop F r (Suc k) (before_attempt w r k) = fj_do F r (before_attempt w r n)
     \<and> (\<forall>i. k \<le> i \<and> i < n \<longrightarrow> pending_answer (fj_accepts F (before_attempt w r i) r))
     \<and> (n = 4 \<or> \<not> pending_answer (fj_accepts F (before_attempt w r n) r))"
proof (induction "4 - k" arbitrary: k)
  case 0
  then have k: "k = 4" by simp
  have "merge_loop F r (Suc 4) (before_attempt w r 4) = fj_do F r (before_attempt w r 4)"
    by (subst merge_loop.simps) (auto simp: MAX_ATTEMPTS_def split: prod.split sum.split)
  then show ?case by (intro exI [of _ 4]) (auto simp: k)
next
  case (Suc m)
  let ?b = "before_attempt w r"
  show ?case
  proof (cases "pending_answer (fj_accepts F (?b k) r)")
    case True
    then have next_try: "merge_loop F r (Suc k) (?b k) = merge_loop F r (Suc (Suc k)) (?b (Suc k))"
      using Suc.hyps(2) before_attempt_Suc [of k F r w]
      by (subst merge_loop.simps) (auto simp: MAX_ATTEMPTS_def fj_do_def send_io_def pending_answer_def split: sum.splits)
    have less: "m = 4 - Suc k" "Suc k \<le> 4" using Suc.hyps(2) by auto
    obtain n where n: "Suc k \<le> n" "n \<le> 4"
      "merge_loop F r (Suc (Suc k)) (?b (Suc k)) = fj_do F r (?b n)"
      "\<forall>i. Suc k \<le> i \<and> i < n \<longrightarrow> pending_answer (fj_accepts F (?b i) r)"
      "n = 4 \<or> \<not> pending_answer (fj_accepts F (?b n) r)"
      using Suc.hyps(1) [OF less] by blast
    have "pending_answer (fj_accepts F (?b i) r)" if "k \<le> i" "i < n" for i
      using that n(4) True by (cases "i = k") auto
    then show ?thesis using n next_try by (intro exI [of _ n]) simp
  next
    case False
    then have "merge_loop F r (Suc k) (?b k) = fj_do F r (?b k)"
      by (subst merge_loop.simps) (auto simp: fj_do_def send_io_def pending_answer_def split: sum.splits)
    then show ?thesis using False Suc.prems by (intro exI [of _ k]) auto
  qed
qed

lemma before_first [simp]: "before_attempt w r 0 = w"
  by (simp add: before_attempt_def)

text \<open>
  C17: a merge is sent at most five times, with waits of 1, 2, 4 and 8 seconds between: it is sent
  again exactly while Forgejo answers 405, and the result is the answer of the last attempt.
\<close>

theorem merge_stops_at_first_settled_answer:
  "\<exists>n \<le> 4. merge_pr F owner repo pr strategy del w
       = fj_do F (MergePull owner repo pr strategy del) (before_attempt w (MergePull owner repo pr strategy del) n)
     \<and> (\<forall>i < n. pending_answer (fj_accepts F (before_attempt w (MergePull owner repo pr strategy del) i)
           (MergePull owner repo pr strategy del)))
     \<and> (n = 4 \<or> \<not> pending_answer (fj_accepts F (before_attempt w (MergePull owner repo pr strategy del) n)
           (MergePull owner repo pr strategy del)))"
  using merge_loop_stops [of 0 F "MergePull owner repo pr strategy del" w] by (auto simp: merge_pr_def)

section \<open>The filtered diff\<close>

text \<open>The output of the command line: lines before the first header, then sections.\<close>

fun split_sections :: "string list \<Rightarrow> string list \<times> (string \<times> string list) list" where
  "split_sections [] = ([], [])"
| "split_sections (l # ls) =
     (case split_sections ls of (pre, secs) \<Rightarrow>
        if starts_with l ''====='' then ([], (l, pre) # secs) else (l # pre, secs))"

definition keeps :: "string \<Rightarrow> bool" where
  "keeps l = (\<not> (is_change l \<and> is_noise l))"

definition has_change :: "string list \<Rightarrow> bool" where
  "has_change ls = list_ex is_change (filter keeps ls)"

definition shown_section :: "string \<times> string list \<Rightarrow> string" where
  "shown_section = (\<lambda>(h, ls). concat (map writeln (h # filter keeps ls)))"

definition filtered_diff :: "string \<Rightarrow> DiffFilterResult" where
  "filtered_diff diff =
     (case split_sections (str_lines diff) of (pre, secs) \<Rightarrow>
        let kept = filter (\<lambda>(h, ls). has_change ls) secs;
            out = trim (concat (map writeln pre) @ concat (map shown_section kept))
        in \<lparr>df_diff = (if out = [] then ''No meaningful differences after filtering label/annotation noise.'' else out),
            df_total_sections = length secs, df_meaningful_sections = length kept,
            df_filtered_sections = length secs - length kept\<rparr>)"

text \<open>What the fold has when it is done, from the section that is open.\<close>

definition closes_as :: "filter_state \<Rightarrow> string list \<Rightarrow> filter_state \<Rightarrow> bool" where
  "closes_as s ls t \<longleftrightarrow>
     (case split_sections ls of (pre, secs) \<Rightarrow>
        let kept = filter (\<lambda>(h, ls). has_change ls) secs; tail_text = concat (map shown_section kept);
            flag = fs_header s \<noteq> None \<and> (fs_meaningful s \<or> has_change pre)
        in fs_total t = fs_total s + length secs
         \<and> fs_kept t = fs_kept s + (if flag then 1 else 0) + length kept
         \<and> fs_result t = fs_result s
             @ (case fs_header s of
                  None \<Rightarrow> concat (map writeln pre)
                | Some h \<Rightarrow> if flag then writeln h @ concat (map writeln (fs_lines s)) @ concat (map writeln (filter keeps pre)) else [])
             @ tail_text)"

lemma fold_closes: "closes_as s ls (flush_section (foldl filter_line s ls))"
proof (induction ls arbitrary: s)
  case Nil
  then show ?case by (cases "fs_header s") (simp_all add: closes_as_def flush_section_def has_change_def)
next
  case (Cons l ls)
  obtain pre secs where split: "split_sections ls = (pre, secs)" by (cases "split_sections ls")
  define t where "t = flush_section (foldl filter_line s (l # ls))"
  have IH: "closes_as (filter_line s l) ls t"
    using Cons.IH [of "filter_line s l"] by (simp add: t_def)
  consider (header) "starts_with l ''=====''" | (outside) "\<not> starts_with l ''=====''" "fs_header s = None"
    | (inside) h where "\<not> starts_with l ''=====''" "fs_header s = Some h" by auto
  then have "closes_as s (l # ls) t"
  proof cases
    case header
    then show ?thesis using IH
      by (cases "fs_header s") (auto simp: closes_as_def split filter_line_def flush_section_def Let_def shown_section_def has_change_def)
  next
    case outside
    then show ?thesis using IH by (simp add: closes_as_def split filter_line_def Let_def)
  next
    case inside
    then show ?thesis using IH
      by (auto simp: closes_as_def split filter_line_def Let_def keeps_def has_change_def split: if_splits)
  qed
  then show ?case by (simp add: t_def)
qed

text \<open>
  C16: filtering a diff while reading it line by line gives what the text says: of every section the
  changed lines of noise go, a section without another changed line goes whole, the rest stays in
  order, and the counts are those of the sections.
\<close>

theorem filter_keeps_meaningful_sections: "filter_diff_noise diff = filtered_diff diff"
proof -
  obtain pre secs where split: "split_sections (str_lines diff) = (pre, secs)" by (cases "split_sections (str_lines diff)")
  show ?thesis
    using fold_closes [of "\<lparr>fs_result = [], fs_header = None, fs_lines = [], fs_meaningful = False, fs_total = 0, fs_kept = 0\<rparr>" "str_lines diff"]
    by (simp add: closes_as_def split filter_diff_noise_def filtered_diff_def Let_def)
qed

section \<open>Posting the diff\<close>

text \<open>A step that, from any world, only adds a list of requests in \<open>U\<close>.\<close>

definition emits :: "'r list set \<Rightarrow> ('r, 'e, 'a) io \<Rightarrow> bool" where
  "emits U m \<longleftrightarrow> (\<forall>w. \<exists>rs \<in> U. wd_sent (snd (m w)) = wd_sent w @ rs)"

definition silent :: "('r, 'e, 'a) io \<Rightarrow> bool" where
  "silent m \<longleftrightarrow> (\<forall>w. wd_sent (snd (m w)) = wd_sent w)"

lemma silent_ret: "silent (ret x)" and silent_ask: "silent (ask_io f)" and silent_throw: "silent (throw e)"
  by (simp_all add: silent_def ret_def ask_io_def throw_def)

lemma silent_try: "silent m \<Longrightarrow> silent (try_io m)"
  by (simp add: silent_def try_io_def case_prod_unfold)

lemma silent_bind: "silent m \<Longrightarrow> (\<And>x. silent (f x)) \<Longrightarrow> silent (bind_io m f)"
  by (simp add: silent_def bind_io_def split: prod.split sum.split) (metis snd_conv)

lemmas silent_intros = silent_bind silent_try silent_ret silent_ask silent_throw

lemma emits_silent: "silent m \<Longrightarrow> [] \<in> U \<Longrightarrow> emits U m"
  by (auto simp: silent_def emits_def intro: bexI [of _ "[]"])

lemma emits_mono: "emits U m \<Longrightarrow> U \<subseteq> V \<Longrightarrow> emits V m"
  unfolding emits_def by blast

text \<open>The value that the first step returns, with the world it returns it in.\<close>

lemma emits_bind:
  assumes "emits U m" "U \<subseteq> W" "\<And>x w w1. m w = (Ok x, w1) \<Longrightarrow> emits V (f x)" "\<And>a b. a \<in> U \<Longrightarrow> b \<in> V \<Longrightarrow> a @ b \<in> W"
  shows "emits W (bind_io m f)"
  unfolding emits_def
proof
  fix w
  obtain r w1 where m: "m w = (r, w1)" by fastforce
  obtain a where a: "a \<in> U" "wd_sent w1 = wd_sent w @ a" using assms(1) m unfolding emits_def by (metis snd_conv)
  show "\<exists>rs \<in> W. wd_sent (snd (bind_io m f w)) = wd_sent w @ rs"
  proof (cases r)
    case (Inl e)
    then show ?thesis using m a assms(2) by (auto simp: bind_io_def)
  next
    case (Inr x)
    then have "emits V (f x)" using m assms(3) by blast
    then obtain b where "b \<in> V" "wd_sent (snd (f x w1)) = wd_sent w1 @ b" unfolding emits_def by blast
    then show ?thesis using m a Inr assms(4) by (auto simp: bind_io_def intro!: bexI [of _ "a @ b"])
  qed
qed

lemma emits_after:
  "silent m \<Longrightarrow> [] \<in> V \<Longrightarrow> (\<And>x w w1. m w = (Ok x, w1) \<Longrightarrow> emits V (f x)) \<Longrightarrow> emits V (bind_io m f)"
  by (rule emits_bind [of "{[]}" m]) (auto simp: silent_def emits_def)

lemma silent_find_comment: "silent (find_comment F owner repo issue m)"
  unfolding find_comment_def by (intro silent_intros)

lemma silent_is_pr_open: "silent (is_pr_open F owner repo pr)"
  unfolding is_pr_open_def by (intro silent_intros)

lemma silent_head_ref: "silent (pr_head_ref F owner repo pr)"
  unfolding pr_head_ref_def by (intro silent_bind silent_ask) (auto intro: silent_intros split: option.split)

lemma silent_source_diffs: "silent (source_diffs A pr head_ref paths)"
proof (induction paths)
  case Nil
  show ?case by (simp add: silent_ret)
next
  case (Cons path paths)
  show ?case
    unfolding source_diffs.simps
    by (intro silent_bind silent_try silent_ask silent_ret Cons.IH)
      (auto intro!: silent_intros split: sum.split)
qed

definition diff_run :: "argocd \<Rightarrow> SourceDiff \<Rightarrow> FjRequest" where
  "diff_run A sd = RunArgocdDiff (diff_args (ar_server A) (ar_token A) (sd_app_name sd) (sd_new_revision sd) (sd_source_position sd))"

definition diff_runs :: "argocd \<Rightarrow> SourceDiff list \<Rightarrow> FjRequest list set" where
  "diff_runs A sds = (\<lambda>n. map (diff_run A) (take n sds)) ` UNIV"

lemma nil_diff_runs [simp]: "[] \<in> diff_runs A sds"
  unfolding diff_runs_def by (rule image_eqI [of _ _ 0]) simp_all

lemma diff_runs_Cons: "b \<in> diff_runs A sds \<Longrightarrow> diff_run A sd # b \<in> diff_runs A (sd # sds)"
proof -
  assume "b \<in> diff_runs A sds"
  then obtain n where "b = map (diff_run A) (take n sds)" by (auto simp: diff_runs_def)
  then show ?thesis unfolding diff_runs_def by (intro image_eqI [of _ _ "Suc n"]) simp_all
qed

lemma emits_run_diffs: "emits (diff_runs A sds) (run_diffs A sds)"
proof (induction sds)
  case Nil
  then show ?case by (auto intro!: emits_silent silent_ret)
next
  case (Cons sd sds)
  have first: "emits {[diff_run A sd]} (run_diff A sd)"
    by (simp add: emits_def run_diff_def Let_def diff_run_def)
  have rest: "emits (diff_runs A sds) (case out of None \<Rightarrow> ret None
      | Some t \<Rightarrow> bind_io (run_diffs A sds) (\<lambda>rest. ret (map_option ((#) (filter_diff_noise t)) rest)))" for out
  proof (cases out)
    case None
    then show ?thesis by (auto intro!: emits_silent silent_ret)
  next
    case (Some t)
    have "emits (diff_runs A sds) (bind_io (run_diffs A sds) (\<lambda>rest. ret (map_option ((#) (filter_diff_noise t)) rest)))"
      by (rule emits_bind [OF Cons.IH subset_refl, where V = "{[]}"]) (auto simp: emits_def ret_def)
    then show ?thesis using Some by simp
  qed
  show ?case unfolding run_diffs.simps
    by (rule emits_bind [OF first _ rest]) (auto intro: diff_runs_Cons diff_runs_Cons [where b = "[]"])
qed

lemma run_diffs_all:
  "run_diffs A sds w = (Ok (Some rs), w1) \<Longrightarrow> length rs = length sds \<and> wd_sent w1 = wd_sent w @ map (diff_run A) sds"
proof (induction sds arbitrary: w rs)
  case (Cons sd sds)
  obtain out w2 where out: "run_diff A sd w = (Ok out, w2)" "wd_sent w2 = wd_sent w @ [diff_run A sd]"
    by (simp add: run_diff_def Let_def diff_run_def)
  then obtain t where t: "out = Some t" using Cons.prems by (cases out) (auto simp: bind_Ok ret_Ok)
  obtain rest where "run_diffs A sds w2 = (Ok (Some rest), w1)" "rs = filter_diff_noise t # rest"
    using Cons.prems out t by (auto simp: bind_Ok ret_Ok map_option_case split: option.splits)
  then show ?case using Cons.IH [of w2 rest] out by simp
qed (simp add: ret_Ok)

text \<open>A comment on the pull request, new or edited, with the text.\<close>

fun carries :: "PrEvent \<Rightarrow> string \<Rightarrow> FjRequest \<Rightarrow> bool" where
  "carries pr t (CreateComment owner repo n body) = (owner = pe_owner pr \<and> repo = pe_repo pr \<and> n = pe_pr_number pr \<and> body = t)"
| "carries pr t (EditComment owner repo _ body) = (owner = pe_owner pr \<and> repo = pe_repo pr \<and> body = t)"
| "carries pr t _ = False"

lemma emits_comment_or_update:
  "emits ({[]} \<union> {[c] | c. carries pr body c}) (comment_or_update F (pe_owner pr) (pe_repo pr) (pe_pr_number pr) m body)"
  unfolding comment_or_update_def
proof (rule emits_after [OF silent_find_comment], simp)
  fix c :: "BotComment option"
  show "emits ({[]} \<union> {[c] | c. carries pr body c})
    (case c of None \<Rightarrow> comment_on F (pe_owner pr) (pe_repo pr) (pe_pr_number pr) body
      | Some b \<Rightarrow> fj_do F (EditComment (pe_owner pr) (pe_repo pr) (bc_id b) body))"
    by (auto simp: emits_def comment_on_def fj_do_def send_io_def split: option.split)
qed

text \<open>Diffs of the first sources, or of all of them and the comment about them.\<close>

definition diff_posting :: "argocd \<Rightarrow> PrEvent \<Rightarrow> FjRequest list \<Rightarrow> bool" where
  "diff_posting A pr rs \<longleftrightarrow>
     (\<exists>sds. rs \<in> diff_runs A sds)
     \<or> (\<exists>sds results c. rs = map (diff_run A) sds @ [c] \<and> length results = length sds \<and> carries pr (format_comment sds results) c)"

lemma diff_posting_nil [simp]: "diff_posting A pr []"
  unfolding diff_posting_def using nil_diff_runs by blast

lemma emits_diffs_and_comment:
  "emits {rs. diff_posting A pr rs} (bind_io (run_diffs A sds) (\<lambda>results.
     case results of
       None \<Rightarrow> ret False
     | Some rs \<Rightarrow> bind_io (comment_or_update (ar_forgejo A) (pe_owner pr) (pe_repo pr) (pe_pr_number pr) COMMENT_MARKER (format_comment sds rs))
         (\<lambda>_. ret True)))" (is "emits ?U (bind_io ?m ?f)")
  unfolding emits_def
proof
  fix w
  obtain r w1 where m: "?m w = (r, w1)" by fastforce
  obtain a where a: "a \<in> diff_runs A sds" "wd_sent w1 = wd_sent w @ a"
    using emits_run_diffs [of A sds] m unfolding emits_def by (metis snd_conv)
  have partial: "a \<in> ?U" using a by (auto simp: diff_posting_def)
  consider (stop) "snd (bind_io ?m ?f w) = w1" | (all) rs where "r = Ok (Some rs)"
    using m by (cases r; cases "projr r") (auto simp: bind_io_def ret_def)
  then show "\<exists>rs \<in> ?U. wd_sent (snd (bind_io ?m ?f w)) = wd_sent w @ rs"
  proof cases
    case stop
    then show ?thesis using a partial by auto
  next
    case (all results)
    let ?c = "comment_or_update (ar_forgejo A) (pe_owner pr) (pe_repo pr) (pe_pr_number pr) COMMENT_MARKER (format_comment sds results)"
    have complete: "length results = length sds" "wd_sent w1 = wd_sent w @ map (diff_run A) sds"
      using run_diffs_all m all by auto
    have "emits ({[]} \<union> {[c] | c. carries pr (format_comment sds results) c}) (bind_io ?c (\<lambda>_. ret True))"
      by (rule emits_bind [OF emits_comment_or_update subset_refl, where V = "{[]}"]) (auto simp: emits_def ret_def)
    then obtain b where b_in: "b \<in> {[]} \<union> {[c] | c. carries pr (format_comment sds results) c}"
      and b: "wd_sent (snd (bind_io ?c (\<lambda>_. ret True) w1)) = wd_sent w1 @ b"
      unfolding emits_def by blast
    have "map (diff_run A) sds @ b \<in> ?U"
      using b_in complete a partial by (auto simp: diff_posting_def)
    moreover have "wd_sent (snd (bind_io ?m ?f w)) = wd_sent w @ map (diff_run A) sds @ b"
      using m all b complete by (simp add: bind_io_def)
    ultimately show ?thesis by blast
  qed
qed


section \<open>The repair of a pull request\<close>

lemma silent_only: "silent m \<Longrightarrow> only P m"
  by (simp add: silent_def only_def)

lemma silent_result:
  "(\<And>e. r = Err e \<Longrightarrow> silent (f e)) \<Longrightarrow> (\<And>x. r = Ok x \<Longrightarrow> silent (g x)) \<Longrightarrow> silent (case r of Err e \<Rightarrow> f e | Ok x \<Rightarrow> g x)"
  by (cases r) simp_all

lemma only_result [only_intros]:
  "(\<And>e. r = Err e \<Longrightarrow> only P (f e)) \<Longrightarrow> (\<And>x. r = Ok x \<Longrightarrow> only P (g x)) \<Longrightarrow> only P (case r of Err e \<Rightarrow> f e | Ok x \<Rightarrow> g x)"
  by (cases r) simp_all

lemma only_do [only_intros]: "P r \<Longrightarrow> only P (fj_do F r)"
  unfolding fj_do_def by (rule only_send)

lemma only_create [only_intros]: "P r \<Longrightarrow> only P (fj_create F r)"
  by (simp add: only_def fj_create_def)

text \<open>The answer to a question that is tried.\<close>

lemma only_asked:
  fixes q :: "'r world \<Rightarrow> ('e, 'a) result"
  assumes "\<And>e. only P (f e)" "\<And>w x. q w = Ok x \<Longrightarrow> only P (g x)"
  shows "only P (bind_io (try_io (ask_io q)) (\<lambda>r. case r of Err e \<Rightarrow> f e | Ok x \<Rightarrow> g x))"
  unfolding only_def
proof
  fix w :: "'r world"
  let ?w1 = "w\<lparr>wd_calls := Suc (wd_calls w)\<rparr>"
  have step: "bind_io (try_io (ask_io q)) (\<lambda>r. case r of Err e \<Rightarrow> f e | Ok x \<Rightarrow> g x) w
      = (case q w of Err e \<Rightarrow> f e ?w1 | Ok x \<Rightarrow> g x ?w1)"
    by (simp add: bind_io_def try_io_def ask_io_def split: sum.split)
  have "\<exists>rs. wd_sent (snd (case q w of Err e \<Rightarrow> f e ?w1 | Ok x \<Rightarrow> g x ?w1)) = wd_sent ?w1 @ rs \<and> list_all P rs"
  proof (cases "q w")
    case (Inl e)
    then show ?thesis using assms(1) [of e, unfolded only_def, rule_format, of ?w1] by simp
  next
    case (Inr x)
    then show ?thesis using assms(2) [of w x, unfolded only_def, rule_format, of ?w1] by simp
  qed
  then show "\<exists>rs. wd_sent (snd (bind_io (try_io (ask_io q)) (\<lambda>r. case r of Err e \<Rightarrow> f e | Ok x \<Rightarrow> g x) w)) = wd_sent w @ rs \<and> list_all P rs"
    using step by simp
qed

lemma silent_job_logs: "silent (job_logs F owner repo jobs)"
proof (induction jobs)
  case Nil
  show ?case by (simp add: silent_ret)
next
  case (Cons job jobs)
  show ?case unfolding job_logs.simps
    by (intro silent_bind Cons.IH silent_ret) (auto intro!: silent_intros split: option.split)
qed

lemma silent_action_logs: "silent (get_action_logs F url)"
  unfolding get_action_logs_def
  by (auto intro!: silent_intros silent_result silent_job_logs split: option.split prod.split)

lemma silent_failure_sections: "silent (failure_sections X es)"
proof (induction es)
  case Nil
  show ?case by (simp add: silent_ret)
next
  case (Cons e es)
  show ?case unfolding failure_sections.simps Let_def
    using Cons.IH by (auto intro!: silent_intros silent_action_logs simp: github_logs_from_url_def split: option.split)
qed

lemma silent_failure_logs: "silent (collect_failure_logs X owner repo sha)"
  unfolding collect_failure_logs_def combined_status_by_ref_def
  by (auto intro!: silent_intros silent_failure_sections split: option.split)

text \<open>The branch of a fix, and the base it is opened against: the head branch of a pull request by renovate.\<close>

definition fix_branch_of :: "i64 \<Rightarrow> string \<Rightarrow> bool" where
  "fix_branch_of pr b \<longleftrightarrow> (\<exists>t. b = ''janitor/autofix-'' @ show_i64 pr @ ''-'' @ show_nat t)"

definition renovate_head :: "fixer \<Rightarrow> string \<Rightarrow> string \<Rightarrow> i64 \<Rightarrow> string \<Rightarrow> bool" where
  "renovate_head X owner repo pr b \<longleftrightarrow>
     (\<exists>w p. fj_pull (fi_forgejo X) w owner repo pr = Ok p \<and> ap_head_ref p = Some b
        \<and> str_contains (to_lowercase (opt_default (ap_author p))) ''renovate'')"

fun repair_permitted :: "fixer \<Rightarrow> string \<Rightarrow> string \<Rightarrow> i64 \<Rightarrow> FjRequest \<Rightarrow> bool" where
  "repair_permitted X owner repo pr (CreateComment o' r n _) = (o' = owner \<and> r = repo \<and> n = pr)"
| "repair_permitted X owner repo pr (EditComment o' r _ body) = (o' = owner \<and> r = repo \<and> starts_with body (marker_text AUTOFIX_MARKER))"
| "repair_permitted X owner repo pr (AskModel _ _) = True"
| "repair_permitted X owner repo pr (WriteFile path _) = (\<not> unsafe_path path)"
| "repair_permitted X owner repo pr (PushBranch b _) = fix_branch_of pr b"
| "repair_permitted X owner repo pr (CreatePull o' r _ _ h b) = (o' = owner \<and> r = repo \<and> fix_branch_of pr h \<and> renovate_head X owner repo pr b)"
| "repair_permitted X owner repo pr (CreateLabel o' r n _) = (o' = owner \<and> r = repo \<and> n = AUTOFIX_LABEL)"
| "repair_permitted X owner repo pr (AddLabelNames o' r _ ls) = (o' = owner \<and> r = repo \<and> ls = [AUTOFIX_LABEL])"
| "repair_permitted X owner repo pr _ = False"

lemma only_say: "only (repair_permitted X owner repo pr) (say X owner repo pr t)"
  unfolding say_def comment_on_def by (intro only_intros) simp

lemma only_propose: "only (\<lambda>r. \<exists>m n. r = AskModel m n) (propose_loop X ws model n msgs)"
proof (induction n arbitrary: msgs)
  case 0
  show ?case by (simp add: only_throw)
next
  case (Suc n)
  have "only (\<lambda>r. \<exists>m n. r = AskModel m n) (chat X model msgs)" by (simp add: only_def chat_def)
  then show ?case unfolding propose_loop.simps
    by (rule only_bind) (auto intro: only_throw only_ret Suc.IH split: option.split)
qed

lemma only_write_edits: "only (repair_permitted X owner repo pr) (write_edits X es)"
  by (induction es) (auto intro!: only_intros)

lemma only_commit: "fix_branch_of pr b \<Longrightarrow> only (repair_permitted X owner repo pr) (commit_and_push X b msg es)"
  unfolding commit_and_push_def by (auto intro!: only_intros only_write_edits)

text \<open>What the bot says about a fix, in comments and labels.\<close>

fun talks :: "string \<Rightarrow> string \<Rightarrow> i64 \<Rightarrow> FjRequest \<Rightarrow> bool" where
  "talks owner repo pr (CreateComment o' r n _) = (o' = owner \<and> r = repo \<and> n = pr)"
| "talks owner repo pr (EditComment o' r _ body) = (o' = owner \<and> r = repo \<and> starts_with body (marker_text AUTOFIX_MARKER))"
| "talks owner repo pr (CreateLabel o' r n _) = (o' = owner \<and> r = repo \<and> n = AUTOFIX_LABEL)"
| "talks owner repo pr (AddLabelNames o' r _ ls) = (o' = owner \<and> r = repo \<and> ls = [AUTOFIX_LABEL])"
| "talks owner repo pr _ = False"

lemma talks_permitted: "talks owner repo pr r \<Longrightarrow> repair_permitted X owner repo pr r"
  by (cases r) auto

lemma talks_say: "only (talks owner repo pr) (say X owner repo pr t)"
  unfolding say_def comment_on_def by (intro only_intros) simp

lemma starts_with_append [simp]: "starts_with (a @ b) a"
  by (auto simp: starts_with_iff)

lemma talks_announce: "only (talks owner repo pr) (announce_fix X owner repo pr model n)"
proof -
  have labels: "only (talks owner repo pr) (ensure_labels F owner repo [(AUTOFIX_LABEL, color)])" for F color
    unfolding ensure_labels_def by (intro only_intros) (auto intro!: only_intros split: prod.split)
  have add: "only (talks owner repo pr) (case r of Err _ \<Rightarrow> ret (Ok ()) | Ok _ \<Rightarrow> try_io (add_labels_by_name F owner repo n [AUTOFIX_LABEL]))"
    for F and r :: "(ForgejoError, unit) result"
    unfolding add_labels_by_name_def by (intro only_intros) simp
  have comment: "only (talks owner repo pr) (comment_or_update F owner repo pr AUTOFIX_MARKER (marker_text AUTOFIX_MARKER @ t))" for F t
    unfolding comment_or_update_def comment_on_def find_comment_def by (intro only_intros) simp_all
  show ?thesis
    unfolding announce_fix_def Let_def by (intro only_bind only_try labels add comment only_ret)
qed

text \<open>At most \<open>k\<close> requests of a kind.\<close>

definition at_most :: "('r \<Rightarrow> bool) \<Rightarrow> nat \<Rightarrow> ('r, 'e, 'a) io \<Rightarrow> bool" where
  "at_most p k m \<longleftrightarrow> (\<forall>w. \<exists>rs. wd_sent (snd (m w)) = wd_sent w @ rs \<and> length (filter p rs) \<le> k)"

lemma at_most_none: "only q m \<Longrightarrow> (\<And>r. q r \<Longrightarrow> \<not> p r) \<Longrightarrow> at_most p k m"
  unfolding only_def at_most_def by (metis filter_False le0 list.size(3) list_all_iff)

lemma at_most_mono: "at_most p i m \<Longrightarrow> i \<le> k \<Longrightarrow> at_most p k m"
  unfolding at_most_def by (meson le_trans)

lemma at_most_try: "at_most p k m \<Longrightarrow> at_most p k (try_io m)"
  by (simp add: at_most_def try_io_def case_prod_unfold)

lemma at_most_bind:
  assumes "at_most p i m" "\<And>x. at_most p j (f x)"
  shows "at_most p (i + j) (bind_io m f)"
  unfolding at_most_def
proof
  fix w
  obtain r w1 where m: "m w = (r, w1)" by fastforce
  obtain a where a: "wd_sent w1 = wd_sent w @ a" "length (filter p a) \<le> i" using assms(1) m unfolding at_most_def by (metis snd_conv)
  show "\<exists>rs. wd_sent (snd (bind_io m f w)) = wd_sent w @ rs \<and> length (filter p rs) \<le> i + j"
  proof (cases r)
    case (Inl e)
    then show ?thesis using m a by (auto simp: bind_io_def)
  next
    case (Inr x)
    obtain b where "wd_sent (snd (f x w1)) = wd_sent w1 @ b" "length (filter p b) \<le> j"
      using assms(2) [of x] unfolding at_most_def by blast
    then show ?thesis using m a Inr by (auto simp: bind_io_def intro!: exI [of _ "a @ b"])
  qed
qed

lemma at_most_after: "silent m \<Longrightarrow> (\<And>x. at_most p k (f x)) \<Longrightarrow> at_most p k (bind_io m f)"
  using at_most_bind [of p 0 m k f] by (simp add: at_most_def silent_def)

lemma at_most_result:
  "(\<And>e. r = Err e \<Longrightarrow> at_most p k (f e)) \<Longrightarrow> (\<And>x. r = Ok x \<Longrightarrow> at_most p k (g x)) \<Longrightarrow> at_most p k (case r of Err e \<Rightarrow> f e | Ok x \<Rightarrow> g x)"
  by (cases r) simp_all

text \<open>A kind of request that is neither a comment nor a label occurs as often as in the model's loop, the push and the opening.\<close>

lemma at_most_push_fix:
  assumes talk: "\<And>r. talks owner repo pr r \<Longrightarrow> \<not> p r"
    and push: "\<And>b msg es. at_most p i (commit_and_push X b msg es)"
    and opens: "\<And>t body h b. at_most p j (fj_create (fi_forgejo X) (CreatePull owner repo t body h b))"
  shows "at_most p (i + j) (push_fix X owner repo pr model head_branch f)"
proof -
  have quiet: "at_most p k (say X owner repo pr t)" "at_most p k (announce_fix X owner repo pr model n)" for k t n
    using talk by (auto intro: at_most_none talks_say talks_announce)
  have created: "at_most p 0 (case r of Err _ \<Rightarrow> ret True | Ok number \<Rightarrow>
      announce_fix X owner repo pr model (case number of Some n \<Rightarrow> n | None \<Rightarrow> 0))" for r :: "(ForgejoError, i64 option) result"
    by (intro at_most_result quiet at_most_none [OF silent_only [OF silent_ret], of "\<lambda>_. False"]) simp
  have opened: "at_most p j (case r of Err _ \<Rightarrow> say X owner repo pr t | Ok _ \<Rightarrow>
      bind_io (try_io (create_pull_request (fi_forgejo X) owner repo title body h b)) (\<lambda>created.
        case created of Err _ \<Rightarrow> ret True | Ok number \<Rightarrow>
          announce_fix X owner repo pr model (case number of Some n \<Rightarrow> n | None \<Rightarrow> 0)))"
    for r :: "(ForgejoError, unit) result" and t title body h b
    using at_most_bind [OF at_most_try [OF opens] created] unfolding create_pull_request_def
    by (intro at_most_result quiet) simp
  show ?thesis unfolding push_fix_def Let_def
    by (intro at_most_after silent_ask at_most_bind at_most_try push opened)
qed

lemma at_most_autofix:
  assumes talk: "\<And>r. talks owner repo pr r \<Longrightarrow> \<not> p r"
    and ask: "\<And>ws model msgs. at_most p a (propose_loop X ws model MAX_STEPS msgs)"
    and push: "\<And>b msg es. at_most p i (commit_and_push X b msg es)"
    and opens: "\<And>t body h b. at_most p j (fj_create (fi_forgejo X) (CreatePull owner repo t body h b))"
  shows "at_most p (a + (i + j)) (autofix_pr X owner repo pr model instructions)"
proof -
  have say: "at_most p k (say X owner repo pr t)" for k t
    using talk by (auto intro: at_most_none talks_say)
  have ret: "at_most p k (ret x)" for k and x :: bool
    by (rule at_most_none [OF silent_only [OF silent_ret], of "\<lambda>_. False"]) simp
  note pushed = at_most_push_fix [of owner repo pr p i X j, OF talk push opens]
  have proposed: "at_most p (i + j) (case r of Err _ \<Rightarrow> say X owner repo pr t
      | Ok fx \<Rightarrow> (case fx of None \<Rightarrow> ret False
          | Some f \<Rightarrow> if fx_files f = [] then say X owner repo pr t' else push_fix X owner repo pr m h f))"
    for r :: "(ForgejoError, ProposedFix option) result" and t t' m h
    using say ret pushed by (auto split: sum.split option.split)
  have cloned: "at_most p (a + (i + j)) (fix_failures X owner repo pr api_pr h b l model instructions)" for api_pr h b l
    unfolding fix_failures_def Let_def propose_fix_def
    by (intro at_most_after silent_try silent_ask at_most_result say at_most_bind at_most_try ask proposed)
  show ?thesis
    unfolding autofix_pr_def
    by (auto intro!: at_most_after silent_try silent_ask silent_failure_logs at_most_result say ret cloned split: option.split)
qed

fun is_ask :: "FjRequest \<Rightarrow> bool" where "is_ask (AskModel _ _) = True" | "is_ask _ = False"
fun is_push :: "FjRequest \<Rightarrow> bool" where "is_push (PushBranch _ _) = True" | "is_push _ = False"
fun is_pull :: "FjRequest \<Rightarrow> bool" where "is_pull (CreatePull _ _ _ _ _ _) = True" | "is_pull _ = False"

lemma asks_propose: "at_most is_ask n (propose_loop X ws model n msgs)"
proof (induction n arbitrary: msgs)
  case 0
  show ?case unfolding propose_loop.simps by (rule at_most_none [OF silent_only [OF silent_throw], of "\<lambda>_. False"]) simp
next
  case (Suc n)
  have one: "at_most is_ask 1 (chat X model msgs)" by (simp add: at_most_def chat_def)
  have quiet: "at_most is_ask n (ret x)" "at_most is_ask n (throw e)"
    for x :: "ProposedFix option" and e :: ForgejoError
    by (rule at_most_none [OF silent_only, of _ "\<lambda>_. False"]; simp add: silent_ret silent_throw)+
  have bound: "at_most is_ask (Suc n) (bind_io (chat X model msgs) f)" if "\<And>x. at_most is_ask n (f x)"
    for f :: "ModelAnswer \<Rightarrow> ProposedFix option fio"
    using at_most_bind [OF one that] by simp
  show ?case unfolding propose_loop.simps
    by (intro bound) (auto intro!: quiet Suc.IH split: option.split)
qed

lemma only_commit_writes: "only (\<lambda>r. (\<exists>p c. r = WriteFile p c) \<or> (\<exists>b m. r = PushBranch b m)) (commit_and_push X b msg es)"
proof -
  have "only (\<lambda>r. (\<exists>p c. r = WriteFile p c) \<or> (\<exists>b m. r = PushBranch b m)) (write_edits X es)"
    by (induction es) (auto intro!: only_intros)
  then show ?thesis unfolding commit_and_push_def by (auto intro!: only_intros)
qed

lemma pushes_commit: "at_most is_push 1 (commit_and_push X b msg es)"
proof -
  have "only (\<lambda>r. \<exists>p c. r = WriteFile p c) (write_edits X es)"
    by (induction es) (auto intro!: only_intros)
  then have "at_most is_push 0 (write_edits X es)" by (rule at_most_none) auto
  moreover have "at_most is_push 1 (send_io (fi_git X) (PushBranch b msg))"
    by (simp add: at_most_def send_io_def)
  ultimately show ?thesis
    using at_most_bind [of is_push 0 "write_edits X es" 1]
    by (auto simp: commit_and_push_def then_io_def intro: at_most_none [OF silent_only [OF silent_throw], of "\<lambda>_. False"])
qed

lemma propose_none: "(\<And>m n. \<not> p (AskModel m n)) \<Longrightarrow> at_most p k (propose_loop X ws model n msgs)"
  by (rule at_most_none [OF only_propose]) auto

lemma commit_none: "(\<And>f c. \<not> p (WriteFile f c)) \<Longrightarrow> (\<And>b m. \<not> p (PushBranch b m)) \<Longrightarrow> at_most p k (commit_and_push X b msg es)"
  by (rule at_most_none [OF only_commit_writes]) auto

lemma pull_once: "at_most p 1 (fj_create F r)" and pull_none: "\<not> p r \<Longrightarrow> at_most p 0 (fj_create F r)"
  by (simp_all add: at_most_def fj_create_def)

lemma autofix_counts:
  "at_most is_ask 10 (autofix_pr X owner repo pr model instructions)"
  "at_most is_push 1 (autofix_pr X owner repo pr model instructions)"
  "at_most is_pull 1 (autofix_pr X owner repo pr model instructions)"
proof -
  have quiet: "\<not> is_ask r" "\<not> is_push r" "\<not> is_pull r" if "talks owner repo pr r" for r
    using that by (cases r; simp)+
  have "at_most is_ask (10 + (0 + 0)) (autofix_pr X owner repo pr model instructions)"
    by (intro at_most_autofix) (simp_all add: quiet asks_propose commit_none pull_none MAX_STEPS_def)
  then show "at_most is_ask 10 (autofix_pr X owner repo pr model instructions)" by simp
  have "at_most is_push (0 + (1 + 0)) (autofix_pr X owner repo pr model instructions)"
    by (intro at_most_autofix) (simp_all add: quiet pushes_commit [simplified] propose_none pull_none)
  then show "at_most is_push 1 (autofix_pr X owner repo pr model instructions)" by simp
  have "at_most is_pull (0 + (0 + 1)) (autofix_pr X owner repo pr model instructions)"
    by (intro at_most_autofix) (simp_all add: quiet pull_once [simplified] propose_none commit_none)
  then show "at_most is_pull 1 (autofix_pr X owner repo pr model instructions)" by simp
qed

lemma only_push_fix:
  assumes "renovate_head X owner repo pr head_branch"
  shows "only (repair_permitted X owner repo pr) (push_fix X owner repo pr model head_branch f)"
proof -
  have announce: "only (repair_permitted X owner repo pr) (announce_fix X owner repo pr model n)" for n
    by (rule only_mono [OF talks_announce talks_permitted])
  have branch: "fix_branch_of pr (''janitor/autofix-'' @ show_i64 pr @ ''-'' @ show_nat t)" for t
    by (auto simp: fix_branch_of_def)
  show ?thesis
    unfolding push_fix_def Let_def create_pull_request_def
    by (intro only_bind only_ask only_try only_result only_say announce only_ret only_create only_commit branch)
      (use assms branch in simp)
qed

lemma only_fix_failures:
  assumes "renovate_head X owner repo pr head_branch"
  shows "only (repair_permitted X owner repo pr) (fix_failures X owner repo pr api_pr head_branch base l model instructions)"
proof -
  have propose: "only (repair_permitted X owner repo pr) (propose_fix X ws l' meta m i)" for ws l' meta m i
    unfolding propose_fix_def by (rule only_mono [OF only_propose]) auto
  have fixed: "only (repair_permitted X owner repo pr) (case fx of None \<Rightarrow> ret False
          | Some f \<Rightarrow> if fx_files f = [] then say X owner repo pr t else push_fix X owner repo pr m head_branch f)" for fx t m
    using only_say only_push_fix [OF assms] by (auto intro: only_ret split: option.split)
  show ?thesis
    unfolding fix_failures_def Let_def
    by (intro only_bind only_try only_ask only_result only_say propose fixed)
qed

lemma only_autofix: "only (repair_permitted X owner repo pr) (autofix_pr X owner repo pr model instructions)"
proof -
  have logs: "only (repair_permitted X owner repo pr) (collect_failure_logs X owner repo sha)" for sha
    by (rule silent_only [OF silent_failure_logs])
  have checked: "only (repair_permitted X owner repo pr) (bind_io (collect_failure_logs X owner repo sha) (\<lambda>logs.
      case logs of None \<Rightarrow> say X owner repo pr t | Some l \<Rightarrow> fix_failures X owner repo pr p h b l model instructions))"
    if "renovate_head X owner repo pr h" for sha t p h b
    by (intro only_bind logs only_option only_say only_fix_failures that)
  have head: "renovate_head X owner repo pr h"
    if "fj_pull (fi_forgejo X) w owner repo pr = Ok p" "str_contains (to_lowercase (opt_default (ap_author p))) ''renovate''"
      "ap_head_ref p = Some h" for w p h
    using that unfolding renovate_head_def by blast
  show ?thesis
    unfolding autofix_pr_def
    by (intro only_if only_say only_asked only_ret) (auto intro!: only_say checked head only_ret split: option.split)
qed


section \<open>The search of the tools\<close>

text \<open>A file reached from a node by its path.\<close>

inductive file_at :: "node \<Rightarrow> string list \<Rightarrow> string \<Rightarrow> bool" where
  here: "file_at (File bytes) [] bytes"
| inside: "(c, n) \<in> set entries \<Longrightarrow> file_at n cs bytes \<Longrightarrow> file_at (Directory entries) (c # cs) bytes"

inductive_simps file_at_File [simp]: "file_at (File b) cs bytes"
inductive_simps file_at_Directory: "file_at (Directory entries) cs bytes"

fun shown_path :: "string \<Rightarrow> string list \<Rightarrow> string" where
  "shown_path path [] = path"
| "shown_path path (c # cs) = shown_path (if path = [] then c else path @ ''/'' @ c) cs"

text \<open>A line of a text file below the node, by its path and number; \<open>.git\<close> is not searched.\<close>

definition reported :: "(string \<Rightarrow> bool) \<Rightarrow> string \<Rightarrow> string \<Rightarrow> string \<Rightarrow> bool" where
  "reported re path bytes m \<longleftrightarrow>
     from_utf8_lossy bytes = bytes
     \<and> (\<exists>i < length (str_lines bytes). re (str_lines bytes ! i)
          \<and> m = path @ '':'' @ show_nat (i + 1) @ '':'' @ trim_end (str_lines bytes ! i))"

definition match_in :: "(string \<Rightarrow> bool) \<Rightarrow> string \<Rightarrow> node \<Rightarrow> string \<Rightarrow> bool" where
  "match_in re path n m \<longleftrightarrow>
     (\<exists>cs bytes. file_at n cs bytes \<and> ''.git'' \<notin> set cs \<and> reported re (shown_path path cs) bytes m)"

lemma match_in_File [simp]: "match_in re path (File bytes) m \<longleftrightarrow> reported re path bytes m"
  by (auto simp: match_in_def)

lemma match_in_Directory:
  "match_in re path (Directory entries) m \<longleftrightarrow>
     (\<exists>(c, n) \<in> set entries. c \<noteq> ''.git'' \<and> match_in re (if path = [] then c else path @ ''/'' @ c) n m)"
proof
  assume "match_in re path (Directory entries) m"
  then obtain cs bytes where "file_at (Directory entries) cs bytes" "''.git'' \<notin> set cs" "reported re (shown_path path cs) bytes m"
    by (auto simp: match_in_def)
  then show "\<exists>(c, n) \<in> set entries. c \<noteq> ''.git'' \<and> match_in re (if path = [] then c else path @ ''/'' @ c) n m"
  proof -
    obtain c n cs' where c: "cs = c # cs'" "(c, n) \<in> set entries" "file_at n cs' bytes"
      using \<open>file_at (Directory entries) cs bytes\<close> by (auto simp: file_at_Directory)
    have "match_in re (if path = [] then c else path @ ''/'' @ c) n m"
      unfolding match_in_def
      using c \<open>''.git'' \<notin> set cs\<close> \<open>reported re (shown_path path cs) bytes m\<close> by (intro exI [of _ cs'] exI [of _ bytes]) simp
    then show ?thesis
      using c \<open>''.git'' \<notin> set cs\<close> by (intro bexI [of _ "(c, n)"]) auto
  qed
next
  assume "\<exists>(c, n) \<in> set entries. c \<noteq> ''.git'' \<and> match_in re (if path = [] then c else path @ ''/'' @ c) n m"
  then obtain c n cs bytes where "(c, n) \<in> set entries" "c \<noteq> ''.git''" "file_at n cs bytes" "''.git'' \<notin> set cs"
    "reported re (shown_path path (c # cs)) bytes m"
    by (auto simp: match_in_def)
  then show "match_in re path (Directory entries) m"
    unfolding match_in_def by (intro exI [of _ "c # cs"] exI [of _ bytes]) (auto intro: file_at.inside)
qed

definition file_matches :: "(string \<Rightarrow> bool) \<Rightarrow> string \<Rightarrow> string \<Rightarrow> string list" where
  "file_matches re path bytes =
     List.map_filter (\<lambda>(i, line). if re line then Some (path @ '':'' @ show_nat (i + 1) @ '':'' @ trim_end line) else None)
       (enumerate 0 (str_lines bytes))"

lemma file_matches_reported: "from_utf8_lossy bytes = bytes \<Longrightarrow> m \<in> set (file_matches re path bytes) \<longleftrightarrow> reported re path bytes m"
  by (auto simp: file_matches_def reported_def List.map_filter_def in_set_enumerate_eq image_iff case_prod_unfold split: if_splits)

lemma grep_file_eq:
  "grep_file re path bytes out =
     (if from_utf8_lossy bytes \<noteq> bytes then out else out @ take (MAX_GREP_MATCHES - length out) (file_matches re path bytes))"
  by (simp add: grep_file_def file_matches_def)

lemma grep_file_sound: "m \<in> set (grep_file re path bytes out) \<Longrightarrow> m \<in> set out \<or> reported re path bytes m"
  using file_matches_reported [of bytes m re path] by (auto simp: grep_file_eq dest: in_set_takeD split: if_splits)

lemma grep_file_complete:
  assumes "length (grep_file re path bytes out) < MAX_GREP_MATCHES"
  shows "set out \<subseteq> set (grep_file re path bytes out)" "reported re path bytes m \<Longrightarrow> m \<in> set (grep_file re path bytes out)"
  using assms file_matches_reported [of bytes m re path]
  by (auto simp: grep_file_eq reported_def min_def not_le split: if_splits)

lemma grep_walk_bounded:
  "length out \<le> MAX_GREP_MATCHES \<Longrightarrow> length (grep_walk re path n out) \<le> MAX_GREP_MATCHES"
  "length out \<le> MAX_GREP_MATCHES \<Longrightarrow> length (grep_entries re path entries out) \<le> MAX_GREP_MATCHES"
  by (induction re path n out and re path entries out rule: grep_walk_grep_entries.induct)
    (auto simp: Let_def grep_file_eq)

lemma grep_walk_sound:
  "m \<in> set (grep_walk re path n out) \<Longrightarrow> m \<in> set out \<or> match_in re path n m"
  "m \<in> set (grep_entries re path entries out) \<Longrightarrow> m \<in> set out \<or> match_in re path (Directory entries) m"
proof (induction re path n out and re path entries out rule: grep_walk_grep_entries.induct)
  case (1 re path bytes out)
  then show ?case using grep_file_sound by (auto split: if_splits)
next
  case (4 re path name n rest out)
  then show ?case by (auto simp: match_in_Directory Let_def split: if_splits)
qed (auto split: if_splits)

lemma grep_walk_complete:
  "length (grep_walk re path n out) < MAX_GREP_MATCHES \<Longrightarrow>
     set out \<subseteq> set (grep_walk re path n out) \<and> (match_in re path n m \<longrightarrow> m \<in> set (grep_walk re path n out))"
  "length (grep_entries re path entries out) < MAX_GREP_MATCHES \<Longrightarrow>
     set out \<subseteq> set (grep_entries re path entries out)
     \<and> (match_in re path (Directory entries) m \<longrightarrow> m \<in> set (grep_entries re path entries out))"
proof (induction re path n out and re path entries out rule: grep_walk_grep_entries.induct)
  case (1 re path bytes out)
  then show ?case using grep_file_complete(1) [of re path bytes out] grep_file_complete(2) [of re path bytes out m] by (auto split: if_splits)
next
  case (4 re path name n rest out)
  then show ?case by (auto simp: match_in_Directory Let_def split: if_splits)
qed (auto simp: match_in_Directory split: if_splits)

text \<open>
  A search of the checkout reports at most 200 lines, only lines that match, each with its file
  and number and none below \<open>.git\<close>; when it reports fewer than 200, it reports every one.
\<close>

theorem grep_reports_matches:
  "length (grep_walk re path n []) \<le> 200 \<and> list_all (match_in re path n) (grep_walk re path n [])
   \<and> (length (grep_walk re path n []) < 200 \<longrightarrow> set (grep_walk re path n []) = {m. match_in re path n m})"
proof -
  have bounded: "length (grep_walk re path n []) \<le> 200"
    using grep_walk_bounded(1) [of "[]" re path n] by (simp add: MAX_GREP_MATCHES_def)
  have sound: "list_all (match_in re path n) (grep_walk re path n [])"
    using grep_walk_sound(1) [of _ re path n "[]"] by (auto simp: list_all_iff)
  have "set (grep_walk re path n []) = {m. match_in re path n m}" if "length (grep_walk re path n []) < 200"
    using that grep_walk_complete(1) [of re path n "[]"] sound by (auto simp: list_all_iff MAX_GREP_MATCHES_def)
  then show ?thesis using bounded sound by blast
qed

definition example_checkout :: node where
  "example_checkout = Directory
     [(''.git'', Directory [(''config'', File ''use x'')]),
      (''src'', Directory [(''lib.rs'', File (''use a'' @ CHR 0x0A # ''fn b'' @ [CHR 0x0A]))])]"

theorem grep_reports_matches_witness:
  "set (grep_walk (\<lambda>l. starts_with l ''use'') [] example_checkout []) = {m. match_in (\<lambda>l. starts_with l ''use'') [] example_checkout m}
   \<and> grep_walk (\<lambda>l. starts_with l ''use'') [] example_checkout [] = [''src/lib.rs:1:use a'']"
proof -
  have found: "grep_walk (\<lambda>l. starts_with l ''use'') [] example_checkout [] = [''src/lib.rs:1:use a'']" by code_simp
  then have "length (grep_walk (\<lambda>l. starts_with l ''use'') [] example_checkout []) < 200" by simp
  then show ?thesis
    using grep_reports_matches [of "\<lambda>l. starts_with l ''use''" "[]" example_checkout] found by blast
qed

text \<open>Forgejo that never finishes its check: five attempts.\<close>

definition never_mergeable :: forgejo where
  "never_mergeable = \<lparr>fj_base_url = [], fj_accepts = (\<lambda>_ _. Err (ApiError (OtherKind 405) ''please try again later'')),
     fj_created = (\<lambda>_ _. Ok None), fj_reviews = (\<lambda>_ _ _ _. Ok []), fj_pull = (\<lambda>_ _ _ _. Err (OtherError [])),
     fj_open_pulls = (\<lambda>_ _ _. Ok []), fj_labels = (\<lambda>_ _ _. Ok []), fj_open_issues = (\<lambda>_ _ _ _. Ok []),
     fj_commit_files = (\<lambda>_ _ _ _. Ok None), fj_pull_files = (\<lambda>_ _ _ _. Ok []), fj_branch = (\<lambda>_ _ _ _. Ok ()),
     fj_jobs = (\<lambda>_ _ _ _. Ok []), fj_job_logs = (\<lambda>_ _ _ _. Ok []), fj_raw = (\<lambda>_ _ _ _ _. Ok []),
     fj_status = (\<lambda>_ _ _ _. Err (OtherError [])), fj_comments = (\<lambda>_ _ _ _. Ok []), fj_url = Some\<rparr>"

theorem merge_stops_at_first_settled_answer_witness:
  "wd_sent (snd (merge_pr never_mergeable ''o'' ''r'' 7 DoSquash True \<lparr>wd_calls = 0, wd_sent = []\<rparr>))
     = (let m = MergePull ''o'' ''r'' 7 DoSquash True
        in [m, WaitSeconds 1, m, WaitSeconds 2, m, WaitSeconds 4, m, WaitSeconds 8, m])"
proof -
  obtain n where n: "n \<le> 4" "merge_pr never_mergeable ''o'' ''r'' 7 DoSquash True \<lparr>wd_calls = 0, wd_sent = []\<rparr>
      = fj_do never_mergeable (MergePull ''o'' ''r'' 7 DoSquash True) (before_attempt \<lparr>wd_calls = 0, wd_sent = []\<rparr> (MergePull ''o'' ''r'' 7 DoSquash True) n)"
    "n = 4 \<or> \<not> pending_answer (fj_accepts never_mergeable (before_attempt \<lparr>wd_calls = 0, wd_sent = []\<rparr> (MergePull ''o'' ''r'' 7 DoSquash True) n)
         (MergePull ''o'' ''r'' 7 DoSquash True))"
    using merge_stops_at_first_settled_answer by blast
  then have "n = 4" by (simp add: never_mergeable_def pending_answer_def)
  then show ?thesis using n(2) by (simp add: fj_do_def send_io_def before_attempt_def upt_rec Let_def)
qed

section \<open>Cuts inside a character\<close>

text \<open>An output that is too long and has a character across its byte 60000 is not posted: the cut panics.\<close>

lemma long_diff_panics:
  assumes "from_utf8_lossy out = out" "trim out = out" "MAX_DIFF_LEN < length out" "\<not> is_char_boundary out MAX_DIFF_LEN"
  shows "diff_text j (Ok \<lparr>co_stdout = out, co_stderr = err, co_code = code, co_status = st\<rparr>) = None"
proof -
  have "out \<noteq> []" using assms(3) by auto
  then show ?thesis using assms by (simp add: diff_text_def Let_def)
qed

lemma long_file_panics:
  assumes "from_utf8_lossy body = body" "MAX_READ_OUTPUT < length body" "\<not> is_char_boundary body MAX_READ_OUTPUT"
    "resolve_path rel = Ok p" "node_at ws p = Some (File body)" "\<not> names_directory rel"
  shows "workspace_read_file ws rel = None"
  using assms by (simp add: workspace_read_file_def Let_def)

lemma char_across_the_cut: "\<not> is_char_boundary (replicate 59999 CHR ''a'' @ [CHR 0xC3, CHR 0xA9, CHR ''b'']) MAX_DIFF_LEN"
  by (simp add: is_char_boundary_def MAX_DIFF_LEN_def nth_append byte_def)

end
