(* ===== verification/Spec2Isabelle.thy ===== *)
theory Spec2Isabelle
  imports FlagProperties FlagProvider StoreProperties RuleProperties GateProperties CtlProperties CommandProperties
    KanidmProperties PgProperties BotProperties
begin

text \<open>
  A verification library for the program logic of the repository: the feature-flag platform,
  the janitor bot with its rules and commands, the gateway to language models, and two
  Kubernetes controllers.

  \<^bold>\<open>The program.\<close> The backend \<open>platform-services/feature-flags\<close> keeps flags and segments in
  Postgres, holds the current configuration as one immutable snapshot, evaluates flags from
  it and streams it to subscribers. The crates under \<open>crates/feature-flag\<close> hold the engine
  (\<open>feature-flag-engine\<close>), the wire types (\<open>feature-flag-proto\<close>) and the client
  (\<open>feature-flag-client\<close>), which asks the backend or evaluates in process on a snapshot it
  received; \<open>openfeature-provider\<close> wraps that client for the OpenFeature SDK, and the command
  \<open>ffctl\<close> writes flags through the admin RPCs or plans, applies and exports a directory of
  documents. The bot \<open>platform-services/janitor-bot\<close> turns webhooks into events, matches a file
  of rules against them and runs the actions of the rules that match; comments addressed to
  it are commands; it asks the feature-flag client from its matchers. The gateway \<open>platform-services/ai-gateway\<close> hands out
  virtual keys, admits requests under flags, allow-lists and budgets, sends them to one of
  several providers with failover and translation, caches answers and records usage. The
  controllers \<open>platform-services/kanidm-sync\<close> and \<open>platform-services/pg-db-controller\<close> bring an
  identity server and a Postgres server to the state that custom resources describe.

  \<^bold>\<open>Theories.\<close>
  \<^item> \<open>Prelude\<close>: Rust's \<open>Result\<close> and its traversals, hash maps as association lists with the
    interface \<open>keyed_map\<close>, string tests. \<open>Json\<close>: \<open>serde_json::Value\<close> and \<open>f64\<close>. \<open>Text\<close>: the string
    functions of Rust that several components call.
  \<^item> \<open>FlagModel\<close> (\<open>model.rs\<close>, \<open>engine/types.rs\<close>), \<open>FlagEngine\<close> (\<open>engine/mod.rs\<close>): the evaluator,
    one definition per function. \<open>FlagRollout\<close>: percentage splits. \<open>FlagDeps\<close>: flags that depend
    on flags, depth, cycles and what an evaluation can see.
  \<^item> \<open>FlagWire\<close> (the \<open>.proto\<close> files, \<open>convert/types.rs\<close>), \<open>FlagConvert\<close> (\<open>convert/mod.rs\<close>): messages and
    conversions under the contract \<open>codec\<close>, with the wire normal form.
  \<^item> \<open>FlagSnapshot\<close> (\<open>snapshot.rs\<close>, \<open>error.rs\<close>): the manager as a state with reloads and histories.
  \<^item> \<open>FlagValidate\<close> (\<open>store/types.rs\<close>, the pure part of \<open>store/mod.rs\<close>): validation and diff.
  \<^item> \<open>FlagStore\<close> (\<open>store/mod.rs\<close> and the migrations): the tables as lists of rows, every call as a
    transaction over them, \<open>apply_config\<close> with its two connections. \<open>FlagView\<close>: what loading
    the tables gives, and their constraints as an invariant. \<open>FlagWrites\<close>: the effect of the
    row operations. \<open>FlagSpec\<close>: the store as two maps; \<open>FlagRefine\<close>: the calls refine it.
    \<open>FlagApply\<close>: plans and their application. \<open>StoreProperties\<close>: the properties of the store.
  \<^item> \<open>FlagService\<close> (\<open>grpc/evaluation.rs\<close>): the RPC handlers and streams.
  \<^item> \<open>FlagAdmin\<close> (\<open>grpc/admin.rs\<close>, \<open>admin.proto\<close>): the admin handlers with the refresh after a write and
    what others do beside it. \<open>AdminProperties\<close>: their refinement and what they read.
  \<^item> \<open>FlagClient\<close> (\<open>context.rs\<close>, \<open>lib.rs\<close>, \<open>local.rs\<close>): context builder, calls, refresh.
    \<open>FlagProvider\<close> (\<open>openfeature-provider\<close>): conversions, calls and the event loop of the SDK adapter.
  \<^item> \<open>CtlDoc\<close> (\<open>flag_config.rs\<close>), \<open>CtlJson\<close> and \<open>CtlConfig\<close> (\<open>bin/ffctl.rs\<close>): documents, arguments and
    commands, and the directory that is planned, applied and exported. \<open>CtlProperties\<close>: the
    documents as codecs, and what plan, apply and export guarantee.
  \<^item> \<open>FlagExample\<close>: a configuration on which the properties are applied. \<open>FlagProperties\<close>: the
    properties of each component; those that span components are below.
  \<^item> \<open>RuleExpr\<close> (\<open>janitor-bot/src/rules/expr.rs\<close>): tokenizer, parser and evaluation of expressions.
  \<^item> \<open>RuleEvent\<close> (\<open>event/types.rs\<close>, \<open>event/mod.rs\<close>): payloads, events, template variables, rendering.
  \<^item> \<open>RuleMatcher\<close> (\<open>rules/matchers/types.rs\<close>), \<open>RuleCache\<close> (\<open>cache.rs\<close>), \<open>RuleMatch\<close> (\<open>mod.rs\<close>): the
    matchers, the lookups behind them with the cache of one evaluation, and their evaluation.
  \<^item> \<open>RuleSchema\<close> (\<open>rules/schema.rs\<close>), \<open>RuleResolve\<close> and \<open>RuleOrder\<close> (loading in \<open>rules/mod.rs\<close>): the
    rule file, resolution of named checks, label colours and the topological order.
  \<^item> \<open>RuleActions\<close> (\<open>rules/actions.rs\<close>): what each action sends. \<open>RuleClose\<close>: facts about closing
    superseded pull requests and about polling.
  \<^item> \<open>RuleEngine\<close> (\<open>rules/mod.rs\<close>): the orchestrator. \<open>RuleRun\<close>: facts about its runs.
    \<open>RuleProperties\<close>: the properties of the rule engine on a small world.
  \<^item> \<open>RuleCommand\<close> (\<open>command.rs\<close>, \<open>marker.rs\<close>): the commands in comments. \<open>RuleWebhook\<close> (\<open>routes/\<close>,
    \<open>github/\<close>, \<open>main.rs\<close>): signatures, webhooks, the merge queue and administration.
    \<open>CommandParse\<close>: facts about parsing commands. \<open>CommandProperties\<close>: what commands and webhooks
    may do.
  \<^item> \<open>BotForgejo\<close> (\<open>janitor-bot/src/forgejo/\<close>), \<open>BotArgo\<close> (\<open>argocd/\<close>) and \<open>BotAutofix\<close> (\<open>autofix/\<close>,
    \<open>commit_and_push\<close> of \<open>git.rs\<close>): the bot's clients and the repair of pull requests by a model, in
    the steps of \<open>Reconcile\<close>. \<open>BotProperties\<close>: merging, filtered diffs, what a repair may do, and the
    search of the model's tools.
  \<^item> \<open>GateConfig\<close> (\<open>ai-gateway/src/config.rs\<close>) and \<open>GateRegistry\<close> (\<open>providers/registry.rs\<close>): configuration,
    rules, the model list, and which providers serve a model in which order.
  \<^item> \<open>GateRequest\<close> (\<open>providers/*.rs\<close>, \<open>translate/mod.rs\<close>, \<open>error.rs\<close>), \<open>GateStream\<close>
    (\<open>translate/streaming.rs\<close> and the loop of \<open>stream_response\<close>): bodies, usage, translation, streams.
  \<^item> \<open>GateCache\<close> (\<open>cache.rs\<close>) with the contract \<open>ttl_cache\<close>, \<open>GateKeys\<close> (\<open>keys/\<close>, \<open>usage.rs\<close>),
    \<open>GatePricing\<close> (\<open>pricing.rs\<close>). \<open>GateAuth\<close>: histories of key operations; \<open>GateRace\<close>: the same with
    authentication split into its steps and flushes that may be lost.
  \<^item> \<open>GateFailover\<close> and \<open>GateProxy\<close> (\<open>routes/proxy.rs\<close>, \<open>response_cache.rs\<close>, \<open>feature_flag.rs\<close>): the
    request path; \<open>GateLaws\<close>: what each of its stages guarantees. \<open>GateAdmin\<close> (\<open>routes/admin.rs\<close>, the
    claims of \<open>main.rs\<close>). \<open>GateProperties\<close>: the properties of the gateway on a small instance.
  \<^item> \<open>Reconcile\<close>: steps that ask servers and send them requests, which the bot's clients use too,
    and the conditions both controllers write. \<open>Kanidm\<close> (\<open>kanidm-sync/src/lib.rs\<close>) and \<open>KanidmSync\<close> (\<open>oauth2.rs\<close>, \<open>group.rs\<close>,
    \<open>user.rs\<close>, \<open>main.rs\<close>); \<open>KanidmProperties\<close>: the contract \<open>reconciler\<close> of a kind of resource, and
    what a provisioned client is. \<open>PgControl\<close> (\<open>pg-db-controller/src\<close>); \<open>PgProperties\<close>: statements
    and passwords.

  \<^bold>\<open>State and operations.\<close> A struct is a record with the source's fields behind a prefix, an enum
  a datatype, \<open>Result\<close> a sum with the error on the left (\<open>Err\<close>, \<open>Ok\<close>), a \<open>HashMap\<close> an
  association list whose order is one iteration order. Operations on shared state take the
  state and return it; what Postgres, the cache or the network answer is an argument. \<open>u32\<close>
  and \<open>u64\<close> keep their width and wrap as in a release build. In the rule engine every call of
  a client is answered by a function of the number of calls made before, so the outside
  world may change between any two steps; what an evaluation changes outside is the list of
  requests it sends; a panic is \<open>None\<close>. In the store a table is the list of its rows in the
  order a scan returns them, a transaction a function that returns the tables it commits; one
  load reads one state of the tables, \<open>jsonb\<close> returns the value that was written, and the
  version of a call is read right after its commit. In the gateway the database is the rows
  of its tables with an optional fault, the cache a list of typed entries with their expiry
  that may be absent or down, a handler returns its answer, the new store and the requests
  it sent; providers answer by a function of the requests sent before. In an admin handler
  what other writers and reloads do between its steps is an argument. A controller is a
  function from the world so far (the calls made, the requests sent) to a result and the
  world it left, and the servers answer by functions of that world, so they may change
  between any two calls.

  \<^bold>\<open>What is shown.\<close> Evaluation: its complete outcome, safety on validated flags, bounded
  recursion, harmless cycles, exact and sticky rollouts. Conversions: round trips and
  evaluation-preserving transport. Snapshot manager: increasing versions, no stale cache,
  announcements that cover every change (and an example of a dependent that is not
  announced). Store: what validation accepts, when a plan is empty, that the \<open>u32\<close> total
  of a split can wrap, that every call refines an update of two maps, that the tables keep
  their constraints, that writes are audited, that applying a configuration converges and
  refuses stale plans. RPCs and client: identity guard, \<open>ResolveAll\<close>, equality of local and
  remote resolution, convergence of subscribers, back-off. Rule language: grammar round
  trip, type soundness, variables read. Rule engine: resolution of checks is finite
  expansion, exactly the schedulable rules are kept and in dependency order, matchers are
  boolean formulas over one valuation, explanations predict runs, rules run after what they
  depend on, loaded rules do not panic, dry runs send nothing, only superseded pull requests
  are closed, polling is bounded. Gateway: only admitted requests reach a provider, the
  cache of keys is invisible and revocation immediate in sequential histories and bounded in
  concurrent ones, failover equals its reference, requests carry what the client asked for,
  usage is accounted once, cached answers replay, streams do not depend on chunking. Admin
  RPCs: they refine the store and read their own writes; \<open>ffctl\<close>: documents load back, an
  apply does what it showed. Commands: they parse back, come from the owner, stay on their
  pull request and merge only what the bot approved. The bot's clients: a merge is tried again
  only while it is pending and at most five times, a filtered diff is its meaningful
  sections, diffs are posted once or on demand, a repair by the model stays in its bounds and
  the search of its tools reports the matches. Controllers: a provisioned client has
  exactly the maps of its resource, every request stays within its resource, statements
  read back as the permitted commands, the secret holds the password of the role. Recursion that is not structural carries a
  termination proof, so no function here needs fuel; the depth of the evaluator is
  bounded by the number of flags.

  \<^bold>\<open>Not modelled.\<close> SHA-256, HMAC, the regex engine, URLs and random numbers are parameters
  (\<open>crates\<close> and the environments of the components); so are \<open>serde_json\<close>'s and YAML's text
  formats, the dialect bridge \<open>llm-bridge\<close>, the flag client as the gateway calls it, RFC 2822
  dates and the start of the current month (\<open>wire\<close>, \<open>gateway\<close>), the clients of Kubernetes,
  Postgres and the identity server (\<open>kanidm_env\<close>, \<open>pg_env\<close>), of Forgejo, of Argo CD's command line, of git and of the model
  (\<open>forgejo\<close>, \<open>argocd\<close>, \<open>fixer\<close>). The rule engine and the commands keep their own interface to the
  actions of the bot; that the clients answer it is not shown. Symbolic links in a checkout,
  cloning and reverting, the registry lookup and the bot's dashboard, the gateway's usage report, router, command-line client and
  start-up are not covered; tracing, metrics, transport set-up and jitter only affect
  observability and timing. Expressions of the rule language are ASCII outside string
  literals.
\<close>

section \<open>Properties that span components\<close>

text \<open>
  C1: Validation is enough for evaluation: a flag that passed \<open>validate_flag\<close> resolves in every
  context, whatever the rest of the snapshot holds, to one of its own variants, and the
  value has the type the flag declares.
\<close>

theorem validated_flags_resolve:
  assumes "validate_flag f = Ok ()" and "hget (sn_flags sn) k = Some f"
  shows "\<exists>res. evaluate X sn k ctx = Ok res
    \<and> (\<exists>v\<in>set (f_variants f). v_key v = res_variant res \<and> v_value v = res_value res)
    \<and> variant_type_ok (f_value_type f) (res_value res)"
proof -
  have "is_ok (evaluate X sn k ctx)"
    unfolding evaluate_def
    by (rule evaluate_inner_ok [OF _ assms(2) validated_refs_ok [OF assms(1)]]) simp
  then obtain res where res: "evaluate X sn k ctx = Ok res" by (auto simp: is_ok_iff)
  then obtain v where "v \<in> set (f_variants f)" "v_key v = res_variant res" "v_value v = res_value res"
    using assms(2) evaluate_inner_drawn [of X sn k ctx "[]" res] by (auto simp: evaluate_def drawn_from_def)
  with res assms(1) validated_type_ok [of f v] show ?thesis by auto
qed

theorem validated_flags_resolve_witness:
  "validate_flag ex_checkout = Ok ()
   \<and> (\<exists>res. evaluate ex_crates ex_snapshot ''checkout'' ex_ctx = Ok res
        \<and> variant_type_ok Boolean (res_value res))"
proof -
  have valid: "validate_flag ex_checkout = Ok ()"
    by (simp add: validate_flag_Ok ex_flag_defs ex_rule_defs variant_known_def variant_type_ok_def
        rule_valid_def)
  moreover have "hget (sn_flags ex_snapshot) ''checkout'' = Some ex_checkout"
    by (simp add: ex_snapshot_def)
  ultimately show ?thesis
    using validated_flags_resolve [of ex_checkout ex_snapshot "''checkout''" ex_crates ex_ctx]
    by (auto simp: ex_checkout_def)
qed

text \<open>
  C2: Remote and local evaluation agree: a client that evaluates in process on a snapshot it
  received from the server gets, for every typed call on every flag and context, the very
  resolution (value, variant, reason and error code) that the server would have sent.
\<close>

theorem local_evaluation_is_remote:
  assumes "snapshot_wf sn" and "wire_normal sn" and "client_id \<noteq> []"
  shows "\<exists>sn'. snapshot_try_from (snapshot_response sn) = Ok sn' \<and> (\<forall>X k c.
      client_resolve_bool X sn (Some sn') client_id k c = client_resolve_bool X sn None client_id k c
    \<and> client_resolve_string X sn (Some sn') client_id k c = client_resolve_string X sn None client_id k c
    \<and> client_resolve_int X sn (Some sn') client_id k c = client_resolve_int X sn None client_id k c
    \<and> client_resolve_float X sn (Some sn') client_id k c = client_resolve_float X sn None client_id k c
    \<and> client_resolve_object X sn (Some sn') client_id k c
       = client_resolve_object X sn None client_id k c)"
proof -
  from evaluate_transport [OF assms(1,2)] obtain sn' where
    sn': "snapshot_try_from (snapshot_response sn) = Ok sn'"
    and same: "\<And>X k ctx. evaluate X sn' k ctx = evaluate X sn k ctx" by blast
  have loc: "local_resolve X sn' k c get d = local_resolve X sn k c get d" for X k c get d
    by (rule local_resolve_same) (rule same)
  show ?thesis
    using sn' assms(3)
    by (intro exI [of _ sn'])
      (simp add: remote_is_local remote_is_local_object, simp add: client_resolve_bool_def
        client_resolve_string_def client_resolve_int_def client_resolve_float_def
        client_resolve_object_def local_resolve_bool_def local_resolve_string_def
        local_resolve_int_def local_resolve_float_def local_resolve_object_def loc)
qed

theorem local_evaluation_is_remote_witness:
  "\<exists>sn'. snapshot_try_from (snapshot_response ex_snapshot) = Ok sn'
     \<and> client_resolve_bool ex_crates ex_snapshot (Some sn') ''app'' ''checkout'' context_default
        = client_resolve_bool ex_crates ex_snapshot None ''app'' ''checkout'' context_default"
proof -
  have "wire_normal ex_snapshot"
    by (simp add: wire_normal_def ex_snapshot_def ex_flag_defs ex_rule_defs ex_staff_def norm_defs)
  with local_evaluation_is_remote [of ex_snapshot "''app''"] ex_wf(1) show ?thesis by force
qed

text \<open>
  C4: Validated percentages are exact: in a split that passed validation, of the hundred buckets
  exactly as many serve an entry as its weight says, and a context is served the entry that
  owns its bucket. The weights must not reach \<open>2^32\<close> in total (the store admits at most 100
  each).
\<close>

theorem validated_rollout_shares:
  assumes "validate_rule fk vs rank r = Ok ()" and "r_distributions r \<noteq> []"
    and "total_weight (r_distributions r) < 2 ^ 32"
  shows "card {b :: u32. b < 100 \<and> walk_distribution b 0 (r_distributions r) = Some k}
      = weight_of k (r_distributions r)
    \<and> bucket_of X fk (r_bucket_salt r) (targeting_key ctx) < 100
    \<and> (pick_distribution X fk r ctx = k \<longleftrightarrow>
         walk_distribution (bucket_of X fk (r_bucket_salt r) (targeting_key ctx)) 0
           (r_distributions r) = Some k)"
proof -
  from assms have "total_weight (r_distributions r) = 100"
    by (simp add: validate_rule_Ok rule_valid_total)
  then show ?thesis by (simp add: walk_distribution_share pick_distribution_walk bucket_of_lt)
qed

theorem validated_rollout_shares_witness:
  "card {b :: u32. b < 100 \<and> walk_distribution b 0 (r_distributions ex_split_rule) = Some ''on''} = 60"
proof -
  have "validate_rule ''checkout'' [''on'', ''off''] 0 ex_split_rule = Ok ()"
    by (simp add: validate_rule_Ok rule_valid_def ex_split_rule_def)
  from validated_rollout_shares [OF this, of "''on''"] show ?thesis
    by (simp add: ex_split_rule_def)
qed

text \<open>
  C37: A subscriber converges: whatever it served before, after the messages of a snapshot
  stream it evaluates every flag as the server's last snapshot does.
\<close>

theorem snapshot_stream_converges:
  assumes "stream_snapshot head items req = Ok msgs"
    and "\<forall>sn \<in> set (head # map snd items). snapshot_wf sn \<and> wire_normal sn"
  shows "evaluate X (fold apply_snapshot msgs served0) k ctx
    = evaluate X (last (head # map snd items)) k ctx"
proof -
  let ?sns = "head # map snd items"
  from assms(1) have msgs: "msgs = map snapshot_response ?sns"
    by (auto simp: stream_snapshot_def case_prod_unfold split: sum.splits)
  have "last ?sns \<in> set ?sns" by (rule last_in_set) simp
  with assms(2) obtain sn' where
    sn': "snapshot_try_from (snapshot_response (last ?sns)) = Ok sn'"
    and same: "evaluate X sn' k ctx = evaluate X (last ?sns) k ctx"
    using evaluate_transport [of "last ?sns"] by blast
  have "fold apply_snapshot msgs served0 = apply_snapshot (snapshot_response (last ?sns))
      (fold apply_snapshot (map snapshot_response (butlast ?sns)) served0)"
    unfolding msgs by (rule fold_map_last) simp
  with sn' same show ?thesis by (simp add: apply_snapshot_def build_snapshot_def)
qed

theorem snapshot_stream_converges_witness:
  "evaluate ex_crates (fold apply_snapshot [snapshot_response ex_snapshot, snapshot_response ex_next]
      snapshot_default) ''checkout'' ex_ctx = evaluate ex_crates ex_next ''checkout'' ex_ctx"
proof -
  have normal: "wire_normal ex_snapshot" "wire_normal ex_next"
    by (simp_all add: wire_normal_def ex_snapshot_def ex_next_def ex_flag_defs ex_rule_defs ex_staff_def
        norm_defs)
  have "stream_snapshot ex_snapshot [(Lagged 2, ex_next)]
      \<lparr>rq_metadata = [(''client-id'', Some ''app'')], rq_message = ()\<rparr>
      = Ok [snapshot_response ex_snapshot, snapshot_response ex_next]"
    by (simp add: stream_snapshot_def client_id_of_def)
  from snapshot_stream_converges [OF this, of ex_crates snapshot_default "''checkout''" ex_ctx]
  show ?thesis by (simp add: normal ex_wf)
qed

end
